(* ===== verification/Prelude.thy ===== *)
theory Prelude
  imports Main "HOL-Library.Word"
begin

text \<open>
  Shared base of the development: the machine types of the C code, the byte order
  conversions of GLib, the alignment macros of
  \<open>include/orbit/util/orbit-util.h\<close>, the checked pointer comparison that every
  demarshaller uses, and generic list lemmas. The host is the little-endian LP64 machine
  (\<open>G_BYTE_ORDER == G_LITTLE_ENDIAN\<close>, \<open>gulong\<close> of 64 bits), so pointers and
  \<open>gulong\<close> are 64-bit words and \<open>CORBA_unsigned_long\<close> is a 32-bit word.
\<close>

unbundle bit_operations_syntax

section \<open>Machine types\<close>

type_synonym byte = "8 word"
type_synonym u16 = "16 word"
type_synonym u32 = "32 word"
type_synonym u64 = "64 word"

named_theorems byte_simps \<open>round trips and lengths of the byte encodings\<close>

section \<open>Byte encodings of the host (little endian)\<close>

definition le16 :: "u16 \<Rightarrow> byte list" where
  "le16 w = [ucast w, ucast (drop_bit 8 w)]"

definition le32 :: "u32 \<Rightarrow> byte list" where
  "le32 w = [ucast w, ucast (drop_bit 8 w), ucast (drop_bit 16 w), ucast (drop_bit 24 w)]"

fun of_le16 :: "byte list \<Rightarrow> u16" where
  "of_le16 (a # b # _) = ucast a OR push_bit 8 (ucast b)"
| "of_le16 _ = 0"

fun of_le32 :: "byte list \<Rightarrow> u32" where
  "of_le32 (a # b # c # d # _) =
     ucast a OR push_bit 8 (ucast b) OR push_bit 16 (ucast c) OR push_bit 24 (ucast d)"
| "of_le32 _ = 0"

text \<open>
  \<open>GUINT16_SWAP_LE_BE\<close> and \<open>GUINT32_SWAP_LE_BE\<close> read the bytes of a value in the
  opposite order.
\<close>

definition swap16 :: "u16 \<Rightarrow> u16" where
  "swap16 w = of_le16 (rev (le16 w))"

definition swap32 :: "u32 \<Rightarrow> u32" where
  "swap32 w = of_le32 (rev (le32 w))"

lemma length_le16 [simp, byte_simps]: "length (le16 w) = 2"
  by (simp add: le16_def)

lemma length_le32 [simp, byte_simps]: "length (le32 w) = 4"
  by (simp add: le32_def)

lemma of_le16_append [byte_simps]: "of_le16 (le16 w @ r) = w"
proof (rule bit_word_eqI)
  fix n assume "n < LENGTH(16)"
  then consider "n < 8" | "8 \<le> n" "n < 16" by fastforce
  then show "bit (of_le16 (le16 w @ r)) n = bit w n"
    by cases (auto simp: le16_def bit_simps)
qed

lemma of_le32_append [byte_simps]: "of_le32 (le32 w @ r) = w"
proof (rule bit_word_eqI)
  fix n assume "n < LENGTH(32)"
  then consider "n < 8" | "8 \<le> n" "n < 16" | "16 \<le> n" "n < 24" | "24 \<le> n" "n < 32" by fastforce
  then show "bit (of_le32 (le32 w @ r)) n = bit w n"
    by cases (auto simp: le32_def bit_simps)
qed

lemma of_le16_le16 [simp]: "of_le16 (le16 w) = w"
  using of_le16_append [of w "[]"] by simp

lemma of_le32_le32 [simp]: "of_le32 (le32 w) = w"
  using of_le32_append [of w "[]"] by simp

lemma le16_of_le16_pair: "le16 (of_le16 [a, b]) = [a, b]"
  unfolding le16_def list.inject
  by (intro conjI refl; rule bit_word_eqI; auto simp: bit_simps dest: bit_imp_le_length)

lemma le32_of_le32_quad: "le32 (of_le32 [a, b, c, d]) = [a, b, c, d]"
  unfolding le32_def list.inject
  by (intro conjI refl; rule bit_word_eqI; auto simp: bit_simps dest: bit_imp_le_length)

lemma le16_of_le16: "length bs = 2 \<Longrightarrow> le16 (of_le16 bs) = bs"
proof -
  assume "length bs = 2"
  then obtain a b where "bs = [a, b]" by (auto simp: length_Suc_conv numeral_2_eq_2)
  then show ?thesis by (simp only: le16_of_le16_pair)
qed

lemma le32_of_le32: "length bs = 4 \<Longrightarrow> le32 (of_le32 bs) = bs"
proof -
  assume "length bs = 4"
  then obtain a b c d where "bs = [a, b, c, d]"
    by (auto simp: length_Suc_conv eval_nat_numeral)
  then show ?thesis by (simp only: le32_of_le32_quad)
qed

lemma le16_swap16: "le16 (swap16 w) = rev (le16 w)"
  unfolding swap16_def by (rule le16_of_le16) simp

lemma le32_swap32: "le32 (swap32 w) = rev (le32 w)"
  unfolding swap32_def by (rule le32_of_le32) simp

lemma swap16_swap16 [simp]: "swap16 (swap16 w) = w"
  unfolding swap16_def [of "swap16 w"] le16_swap16 by simp

lemma swap32_swap32 [simp]: "swap32 (swap32 w) = w"
  unfolding swap32_def [of "swap32 w"] le32_swap32 by simp

definition le64 :: "u64 \<Rightarrow> byte list" where
  "le64 w = le32 (ucast w) @ le32 (ucast (drop_bit 32 w))"

definition of_le64 :: "byte list \<Rightarrow> u64" where
  "of_le64 bs = ucast (of_le32 bs) OR push_bit 32 (ucast (of_le32 (drop 4 bs)))"

definition swap64 :: "u64 \<Rightarrow> u64" where
  "swap64 w = of_le64 (rev (le64 w))"

lemma length_le64 [simp, byte_simps]: "length (le64 w) = 8"
  by (simp add: le64_def)

lemma of_le64_append [byte_simps]: "of_le64 (le64 w @ r) = w"
proof (rule bit_word_eqI)
  fix n assume n: "n < LENGTH(64)"
  have "of_le64 (le64 w @ r) = ucast (ucast w :: u32) OR push_bit 32 (ucast (ucast (drop_bit 32 w) :: u32))"
    by (simp add: of_le64_def le64_def of_le32_append)
  with n show "bit (of_le64 (le64 w @ r)) n = bit w n"
    by (auto simp: bit_simps)
qed

lemma of_le64_le64 [simp]: "of_le64 (le64 w) = w"
  using of_le64_append [of w "[]"] by simp

lemma le64_of_le64: "length bs = 8 \<Longrightarrow> le64 (of_le64 bs) = bs"
proof -
  assume l: "length bs = 8"
  let ?a = "of_le32 bs" and ?b = "of_le32 (drop 4 bs)"
  have "ucast (of_le64 bs) = ?a" "ucast (drop_bit 32 (of_le64 bs)) = ?b"
    unfolding of_le64_def by (rule bit_word_eqI; auto simp: bit_simps dest: bit_imp_le_length)+
  moreover have "of_le32 bs = of_le32 (take 4 bs)"
    using l by (auto simp: length_Suc_conv eval_nat_numeral)
  ultimately show ?thesis
    using l le32_of_le32 [of "take 4 bs"] le32_of_le32 [of "drop 4 bs"] by (simp add: le64_def)
qed

lemma le64_swap64: "le64 (swap64 w) = rev (le64 w)"
  unfolding swap64_def by (rule le64_of_le64) simp

lemma swap64_swap64 [simp]: "swap64 (swap64 w) = w"
  unfolding swap64_def [of "swap64 w"] le64_swap64 by simp

section \<open>Alignment (\<open>ALIGN_VALUE\<close>, \<open>ALIGN_ADDRESS\<close>)\<close>

definition ALIGN_VALUE :: "u64 \<Rightarrow> u64 \<Rightarrow> u64" where
  "ALIGN_VALUE this boundary = (this + (boundary - 1)) AND NOT (boundary - 1)"

text \<open>The same on natural numbers, for values away from the end of the address space.\<close>

definition align_up :: "nat \<Rightarrow> nat \<Rightarrow> nat" where
  "align_up b n = (n + (b - 1)) div b * b"

lemma and_not_mask_eq: "(x :: u64) AND NOT (mask k) = push_bit k (drop_bit k x)"
  by (rule bit_word_eqI) (auto simp: bit_simps)

lemma unat_ALIGN_VALUE:
  assumes "k < 64" "unat a + 2 ^ k \<le> 2 ^ 64"
  shows "unat (ALIGN_VALUE a (2 ^ k)) = align_up (2 ^ k) (unat a)"
proof -
  have m: "(2 ^ k - 1 :: u64) = mask k" by (simp add: mask_eq_exp_minus_1)
  have um: "unat (mask k :: u64) = 2 ^ k - 1"
  proof -
    have e: "(mask k :: u64) = of_nat (2 ^ k - 1)" by (simp add: mask_eq_exp_minus_1)
    have "(2 :: nat) ^ k < 2 ^ 64" by (rule power_strict_increasing) (use assms(1) in simp_all)
    then have "(2 ^ k - 1 :: nat) < 2 ^ 64" by simp
    then show ?thesis unfolding e unat_of_nat by (intro mod_less) simp
  qed
  have s: "unat (a + mask k) = unat a + (2 ^ k - 1)"
    using assms(2) by (subst unat_word_ariths) (simp add: um)
  have "unat (ALIGN_VALUE a (2 ^ k)) = unat (push_bit k (drop_bit k (a + mask k)))"
    unfolding ALIGN_VALUE_def m and_not_mask_eq ..
  also have "\<dots> = take_bit 64 (push_bit k (unat (drop_bit k (a + mask k))))"
    by (simp add: unsigned_push_bit_eq)
  also have "\<dots> = take_bit 64 (push_bit k (drop_bit k (unat a + (2 ^ k - 1))))"
  proof -
    have "take_bit LENGTH(64) (unat (a + mask k)) = unat (a + mask k)"
      by (rule take_bit_nat_eq_self) (rule unsigned_less)
    then show ?thesis unfolding unsigned_drop_bit_eq s by simp
  qed
  also have "\<dots> = (unat a + (2 ^ k - 1)) div 2 ^ k * 2 ^ k"
  proof -
    have "(unat a + (2 ^ k - 1)) div 2 ^ k * 2 ^ k \<le> unat a + (2 ^ k - 1)" by simp
    also have "\<dots> < unat a + 2 ^ k" by simp
    also have "\<dots> \<le> 2 ^ 64" by (rule assms(2))
    finally show ?thesis
      by (simp add: push_bit_eq_mult drop_bit_eq_div take_bit_eq_mod)
  qed
  finally show ?thesis by (simp add: align_up_def)
qed

lemma align_up_ge: "0 < b \<Longrightarrow> n \<le> align_up b n"
proof -
  assume "0 < b"
  then have "(n + (b - 1)) mod b < b" by simp
  with \<open>0 < b\<close>
  show ?thesis
    unfolding align_up_def using div_mult_mod_eq [of "n + (b - 1)" b] by linarith
qed

lemma align_up_lt: "0 < b \<Longrightarrow> align_up b n < n + b"
proof -
  assume "0 < b"
  have "(n + (b - 1)) div b * b \<le> n + (b - 1)" by simp
  with \<open>0 < b\<close> show ?thesis unfolding align_up_def by linarith
qed

lemma align_up_dvd: "b dvd align_up b n"
  by (simp add: align_up_def)

lemma align_up_id: "0 < b \<Longrightarrow> b dvd n \<Longrightarrow> align_up b n = n"
proof -
  assume b: "0 < b" and "b dvd n"
  then obtain k where n: "n = b * k" by (elim dvdE)
  have "(b * k + (b - 1)) div b = k"
    by (rule div_nat_eqI) (use b in \<open>simp_all add: mult.commute\<close>)
  with b show ?thesis by (simp only: align_up_def n) simp
qed

text \<open>The number of padding bytes before an item of alignment \<open>k\<close> at offset \<open>n\<close>.\<close>

definition pad :: "nat \<Rightarrow> nat \<Rightarrow> nat" where
  "pad k n = align_up k n - n"

lemma align_up_pad: "0 < k \<Longrightarrow> align_up k n = n + pad k n"
  using align_up_ge [of k n] by (simp add: pad_def)

lemma pad_lt: "0 < k \<Longrightarrow> pad k n < k"
  using align_up_lt [of k n] align_up_ge [of k n] by (simp add: pad_def)

lemma pad_dvd: "0 < k \<Longrightarrow> k dvd n \<Longrightarrow> pad k n = 0"
  by (simp add: pad_def align_up_id)

lemma dvd_add_pad: "0 < k \<Longrightarrow> k dvd n + pad k n"
  using align_up_dvd [of k n] by (simp add: align_up_pad)

lemma align_up_add: "k dvd m \<Longrightarrow> 0 < k \<Longrightarrow> align_up k (m + n) = m + align_up k n"
proof -
  assume d: "k dvd m" and k: "0 < k"
  then obtain j where m: "m = k * j" by (elim dvdE)
  have "(k * j + (n + (k - 1))) div k = j + (n + (k - 1)) div k"
    by (rule div_mult_self4) (use k in simp)
  then have "(m + n + (k - 1)) div k * k = (j + (n + (k - 1)) div k) * k"
    by (simp only: m add.assoc)
  also have "\<dots> = m + (n + (k - 1)) div k * k" by (simp add: m add_mult_distrib)
  finally show ?thesis by (simp only: align_up_def)
qed

lemma pad_add: "k dvd m \<Longrightarrow> 0 < k \<Longrightarrow> pad k (m + n) = pad k n"
  by (simp add: pad_def align_up_add)

section \<open>Checked pointer arithmetic\<close>

text \<open>
  Every demarshaller guards a variable-length read with
  \<^verbatim>\<open>if ((buf->cur + len) > buf->end || (buf->cur + len) < buf->cur)\<close>; a read of a
  constant size is guarded by the first half alone. Pointer addition wraps at 64 bits.
  The two tests together are exact, whatever the three values are; the first alone is
  exact when the buffer does not touch the end of the address space.
\<close>

definition ptr_past :: "u64 \<Rightarrow> u64 \<Rightarrow> u64 \<Rightarrow> bool" where
  "ptr_past cur lim len \<longleftrightarrow> cur + len > lim \<or> cur + len < cur"

lemma ptr_past_nat:
  "\<not> ptr_past cur lim len \<longleftrightarrow> unat cur + unat len \<le> unat lim"
proof (cases "unat cur + unat len < 2 ^ 64")
  case True
  then have "unat (cur + len) = unat cur + unat len" by (simp add: unat_word_ariths)
  then show ?thesis by (simp add: ptr_past_def word_less_nat_alt not_less)
next
  case False
  have "unat cur < 2 ^ 64" "unat len < 2 ^ 64" "unat lim < 2 ^ 64"
    using unsigned_less[of cur] unsigned_less[of len] unsigned_less[of lim] by simp_all
  with False have "unat (cur + len) = unat cur + unat len - 2 ^ 64"
    by (simp add: unat_word_ariths mod_if)
  with False \<open>unat len < 2 ^ 64\<close> \<open>unat lim < 2 ^ 64\<close> show ?thesis
    unfolding ptr_past_def word_less_nat_alt by linarith
qed

definition ptr_over :: "u64 \<Rightarrow> u64 \<Rightarrow> u64 \<Rightarrow> bool" where
  "ptr_over cur lim len \<longleftrightarrow> cur + len > lim"

lemma ptr_over_nat:
  "unat cur + unat len < 2 ^ 64 \<Longrightarrow> \<not> ptr_over cur lim len \<longleftrightarrow> unat cur + unat len \<le> unat lim"
  by (simp add: ptr_over_def word_less_nat_alt unat_word_ariths not_less)
section \<open>Results\<close>

text \<open>
  A C function that can fail returns \<open>Inl\<close> of an error or \<open>Inr\<close> of its result;
  \<open>andThen\<close> is the early return on failure.
\<close>

fun andThen :: "'e + 'a \<Rightarrow> ('a \<Rightarrow> 'e + 'b) \<Rightarrow> 'e + 'b" where
  "andThen (Inl e) f = Inl e"
| "andThen (Inr x) f = f x"

lemma andThen_eq_Inr: "andThen m f = Inr y \<longleftrightarrow> (\<exists>x. m = Inr x \<and> f x = Inr y)"
  by (cases m) auto

lemma andThen_eq_Inl: "andThen m f = Inl e \<longleftrightarrow> m = Inl e \<or> (\<exists>x. m = Inr x \<and> f x = Inl e)"
  by (cases m) auto

end
