(* ===== verification/Giop_Types.thy ===== *)
theory Giop_Types
  imports Prelude
begin

text \<open>
  The data of the GIOP layer: \<open>include/orbit/GIOP/giop-basics.h\<close>,
  \<open>giop-types.h\<close> and \<open>giop-recv-buffer.h\<close>. The C union of message structs is a
  datatype with one constructor per struct that a demarshaller fills in. GIOP 1.0 and 1.1
  share the 1.1 structs on the receiving side, as the decode table of the code does.
\<close>

datatype GIOPVersion = GIOP_1_0 | GIOP_1_1 | GIOP_1_2

text \<open>\<open>GIOPMsgType\<close> values as they stand in the header octet.\<close>

abbreviation GIOP_REQUEST :: byte where "GIOP_REQUEST \<equiv> 0"
abbreviation GIOP_REPLY :: byte where "GIOP_REPLY \<equiv> 1"
abbreviation GIOP_CANCELREQUEST :: byte where "GIOP_CANCELREQUEST \<equiv> 2"
abbreviation GIOP_LOCATEREQUEST :: byte where "GIOP_LOCATEREQUEST \<equiv> 3"
abbreviation GIOP_LOCATEREPLY :: byte where "GIOP_LOCATEREPLY \<equiv> 4"
abbreviation GIOP_CLOSECONNECTION :: byte where "GIOP_CLOSECONNECTION \<equiv> 5"
abbreviation GIOP_MESSAGEERROR :: byte where "GIOP_MESSAGEERROR \<equiv> 6"
abbreviation GIOP_FRAGMENT :: byte where "GIOP_FRAGMENT \<equiv> 7"
abbreviation GIOP_NUM_MSG_TYPES :: byte where "GIOP_NUM_MSG_TYPES \<equiv> 8"

abbreviation GIOP_FLAG_LITTLE_ENDIAN :: byte where "GIOP_FLAG_LITTLE_ENDIAN \<equiv> 1"
abbreviation GIOP_FLAG_FRAGMENTED :: byte where "GIOP_FLAG_FRAGMENTED \<equiv> 2"
abbreviation GIOP_FLAG_ENDIANNESS :: byte where "GIOP_FLAG_ENDIANNESS \<equiv> GIOP_FLAG_LITTLE_ENDIAN"

record GIOPMsgHeader =
  magic :: "byte list"
  version :: "byte \<times> byte"
  flags :: byte
  message_type :: byte
  message_size :: u32

text \<open>\<open>giop_version_ids\<close> of \<open>giop.c\<close>.\<close>

fun giop_version_ids :: "GIOPVersion \<Rightarrow> byte \<times> byte" where
  "giop_version_ids GIOP_1_0 = (1, 0)"
| "giop_version_ids GIOP_1_1 = (1, 1)"
| "giop_version_ids GIOP_1_2 = (1, 2)"

record IOP_ServiceContext =
  context_id :: u32
  context_data :: "byte list"

type_synonym IOP_ServiceContextList = "IOP_ServiceContext list"

text \<open>
  \<open>GIOP_TargetAddress\<close>: the discriminator and, for \<open>GIOP_KeyAddr\<close>, the object key.
\<close>

abbreviation GIOP_KeyAddr :: u16 where "GIOP_KeyAddr \<equiv> 0"
abbreviation GIOP_ProfileAddr :: u16 where "GIOP_ProfileAddr \<equiv> 1"
abbreviation GIOP_ReferenceAddr :: u16 where "GIOP_ReferenceAddr \<equiv> 2"

record GIOP_TargetAddress =
  ta_d :: u16
  ta_object_key :: "byte list"

text \<open>\<open>operation\<close> is a pointer into the message body, as in the code.\<close>

record GIOPMsgRequest_1_1 =
  rq1_service_context :: IOP_ServiceContextList
  rq1_request_id :: u32
  rq1_response_expected :: byte
  rq1_object_key :: "byte list"
  rq1_operation :: u64
  rq1_requesting_principal :: "byte list"

record GIOPMsgRequest_1_2 =
  rq2_request_id :: u32
  rq2_response_flags :: byte
  rq2_target :: GIOP_TargetAddress
  rq2_operation :: u64
  rq2_service_context :: IOP_ServiceContextList

record GIOPMsgReply =
  rp_service_context :: IOP_ServiceContextList
  rp_request_id :: u32
  rp_reply_status :: u32

record GIOPMsgLocateRequest_1_1 =
  lq1_request_id :: u32
  lq1_object_key :: "byte list"

record GIOPMsgLocateRequest_1_2 =
  lq2_request_id :: u32
  lq2_target :: GIOP_TargetAddress

record GIOPMsgLocateReply =
  lp_request_id :: u32
  lp_locate_status :: u32

text \<open>
  The union \<open>msg.u\<close>. Strings and keys, which the code keeps as pointers into the message body,
  are values here. They are the bytes the pointers meant when they were set: after the body of
  a fragmented head has been reallocated the pointers of the code may dangle.
\<close>

datatype GIOPMsgU =
    Msg_none
  | Msg_request_1_1 GIOPMsgRequest_1_1
  | Msg_request_1_2 GIOPMsgRequest_1_2
  | Msg_reply_1_1 GIOPMsgReply
  | Msg_reply_1_2 GIOPMsgReply
  | Msg_cancel_request u32
  | Msg_locate_request_1_1 GIOPMsgLocateRequest_1_1
  | Msg_locate_request_1_2 GIOPMsgLocateRequest_1_2
  | Msg_locate_reply_1_1 GIOPMsgLocateReply

datatype GIOPMessageBufferState =
    GIOP_MSG_READING_HEADER
  | GIOP_MSG_READING_BODY
  | GIOP_MSG_AWAITING_FRAGMENTS
  | GIOP_MSG_READY

text \<open>
  \<open>GIOPRecvBuffer\<close>. The pointers \<open>message_body\<close>, \<open>cur\<close>, \<open>end\<close> are 64-bit
  addresses; \<open>body_mem\<close> is the content of the allocation that starts at
  \<open>message_body\<close>, and \<open>hdr_mem\<close> holds the bytes of \<open>msg.header\<close> read so far
  (while the header is read, \<open>cur\<close> points into it).
\<close>

record GIOPRecvBuffer =
  header :: GIOPMsgHeader
  msg_u :: GIOPMsgU
  hdr_mem :: "byte list"
  message_body :: u64
  body_mem :: "byte list"
  rcur :: u64
  rend :: u64
  connection :: "nat option"
  buf_state :: GIOPMessageBufferState
  giop_version :: GIOPVersion
  left_to_read :: u64
  free_body :: bool

text \<open>
  The ways a demarshaller can go wrong: it returns \<open>TRUE\<close> (the message is malformed), or
  it reads outside the allocation, which C leaves undefined.
\<close>

datatype recv_error = Malformed | OutOfBounds

end
