(* ===== verification/Giop_Demarshal.thy ===== *)
theory Giop_Demarshal
  imports Giop_Types
begin

text \<open>
  Demarshalling of GIOP message headers (\<open>src/orb/GIOP/giop-recv-buffer.c\<close>, lines
  36--465), one definition per C function. A demarshaller takes the receive buffer and
  returns an error or its result with the advanced buffer. The pieces below
  (\<open>check\<close>, \<open>fetch32\<close>, \<dots>) are the recurring C statements: a bounds test, a
  load through \<open>buf->cur\<close>, an advance of \<open>buf->cur\<close>.
\<close>

section \<open>Statements on the receive buffer\<close>

definition giop_endian_conversion_needed :: "byte \<Rightarrow> bool" where
  "giop_endian_conversion_needed to_endianness \<longleftrightarrow>
     to_endianness AND GIOP_FLAG_LITTLE_ENDIAN \<noteq> GIOP_FLAG_ENDIANNESS"

definition giop_msg_conversion_needed :: "GIOPRecvBuffer \<Rightarrow> bool" where
  "giop_msg_conversion_needed buf = giop_endian_conversion_needed (flags (header buf))"

definition align_cur :: "u64 \<Rightarrow> GIOPRecvBuffer \<Rightarrow> GIOPRecvBuffer" where
  "align_cur n buf = buf\<lparr>rcur := ALIGN_VALUE (rcur buf) n\<rparr>"

definition advance :: "u64 \<Rightarrow> GIOPRecvBuffer \<Rightarrow> GIOPRecvBuffer" where
  "advance n buf = buf\<lparr>rcur := rcur buf + n\<rparr>"

text \<open>\<^verbatim>\<open>if ((buf->cur + n) > buf->end) return TRUE;\<close>\<close>

definition check :: "u64 \<Rightarrow> GIOPRecvBuffer \<Rightarrow> recv_error + unit" where
  "check n buf = (if ptr_over (rcur buf) (rend buf) n then Inl Malformed else Inr ())"

text \<open>\<open>n\<close> bytes of the allocation at address \<open>p\<close>.\<close>

definition load :: "GIOPRecvBuffer \<Rightarrow> u64 \<Rightarrow> nat \<Rightarrow> recv_error + byte list" where
  "load buf p n =
     (let off = unat (p - message_body buf) in
      if off + n \<le> length (body_mem buf) then Inr (take n (drop off (body_mem buf)))
      else Inl OutOfBounds)"

definition fetch32 :: "GIOPRecvBuffer \<Rightarrow> recv_error + (u32 \<times> GIOPRecvBuffer)" where
  "fetch32 buf =
     andThen (load buf (rcur buf) 4) (\<lambda>bs.
       let w = of_le32 bs in
       Inr (if giop_msg_conversion_needed buf then swap32 w else w, advance 4 buf))"

definition fetch16 :: "GIOPRecvBuffer \<Rightarrow> recv_error + (u16 \<times> GIOPRecvBuffer)" where
  "fetch16 buf =
     andThen (load buf (rcur buf) 2) (\<lambda>bs.
       let w = of_le16 bs in
       Inr (if giop_msg_conversion_needed buf then swap16 w else w, advance 2 buf))"

text \<open>\<^verbatim>\<open>x = *buf->cur; buf->cur += n;\<close>\<close>

definition fetch8 :: "u64 \<Rightarrow> GIOPRecvBuffer \<Rightarrow> recv_error + (byte \<times> GIOPRecvBuffer)" where
  "fetch8 n buf = andThen (load buf (rcur buf) 1) (\<lambda>bs. Inr (hd bs, advance n buf))"

text \<open>
  A run of \<open>len\<close> octets: both overflow tests, then the pointer (or copy) is taken and
  \<open>cur\<close> advanced.
\<close>

definition check_past :: "u32 \<Rightarrow> GIOPRecvBuffer \<Rightarrow> recv_error + unit" where
  "check_past len buf =
     (if ptr_past (rcur buf) (rend buf) (ucast len) then Inl Malformed else Inr ())"

definition fetch_octets :: "u32 \<Rightarrow> GIOPRecvBuffer \<Rightarrow> recv_error + (byte list \<times> GIOPRecvBuffer)" where
  "fetch_octets len buf =
     andThen (check_past len buf) (\<lambda>_.
     andThen (load buf (rcur buf) (unat len)) (\<lambda>bs.
       Inr (bs, advance (ucast len) buf)))"

section \<open>The demarshallers\<close>

text \<open>
  Note the missing \<open>default\<close> of the C switch: an unknown discriminator is accepted
  and nothing more is read.
\<close>

definition giop_GIOP_TargetAddress_demarshal ::
    "GIOPRecvBuffer \<Rightarrow> recv_error + (GIOP_TargetAddress \<times> GIOPRecvBuffer)" where
  "giop_GIOP_TargetAddress_demarshal buf0 =
     (let buf = align_cur 2 buf0 in
      andThen (check 2 buf) (\<lambda>_.
      andThen (fetch16 buf) (\<lambda>(d, buf).
        if d = GIOP_KeyAddr then
          (let buf = align_cur 4 buf in
           andThen (check 4 buf) (\<lambda>_.
           andThen (fetch32 buf) (\<lambda>(len, buf).
           andThen (fetch_octets len buf) (\<lambda>(key, buf).
             Inr (\<lparr>ta_d = d, ta_object_key = key\<rparr>, buf)))))
        else if d = GIOP_ProfileAddr \<or> d = GIOP_ReferenceAddr then Inl Malformed
        else Inr (\<lparr>ta_d = d, ta_object_key = []\<rparr>, buf))))"

text \<open>
  \<open>ORBit_demarshal_value\<close> (\<open>corba-any.c\<close>) at \<open>TC_IOP_ServiceContextList\<close>, a
  sequence of structs of an unsigned long and a sequence of octets, with the cases of its
  switch that this type code reaches.
\<close>

definition demarshal_ulong :: "GIOPRecvBuffer \<Rightarrow> recv_error + (u32 \<times> GIOPRecvBuffer)" where
  "demarshal_ulong buf0 =
     (let buf = align_cur 4 buf0 in andThen (check 4 buf) (\<lambda>_. fetch32 buf))"

definition demarshal_octet_seq :: "GIOPRecvBuffer \<Rightarrow> recv_error + (byte list \<times> GIOPRecvBuffer)" where
  "demarshal_octet_seq buf0 =
     andThen (demarshal_ulong buf0) (\<lambda>(len, buf).
       if len = 0 then Inr ([], buf) else fetch_octets len buf)"

definition demarshal_ServiceContext ::
    "GIOPRecvBuffer \<Rightarrow> recv_error + (IOP_ServiceContext \<times> GIOPRecvBuffer)" where
  "demarshal_ServiceContext buf0 =
     andThen (demarshal_ulong buf0) (\<lambda>(cid, buf).
     andThen (demarshal_octet_seq buf) (\<lambda>(dat, buf).
       Inr (\<lparr>context_id = cid, context_data = dat\<rparr>, buf)))"

text \<open>The element loop, by the number of elements left.\<close>

fun demarshal_contexts ::
    "nat \<Rightarrow> GIOPRecvBuffer \<Rightarrow> recv_error + (IOP_ServiceContextList \<times> GIOPRecvBuffer)" where
  "demarshal_contexts 0 buf = Inr ([], buf)"
| "demarshal_contexts (Suc n) buf =
     andThen (demarshal_ServiceContext buf) (\<lambda>(c, buf).
     andThen (demarshal_contexts n buf) (\<lambda>(cs, buf). Inr (c # cs, buf)))"

definition giop_IOP_ServiceContextList_demarshal ::
    "GIOPRecvBuffer \<Rightarrow> recv_error + (IOP_ServiceContextList \<times> GIOPRecvBuffer)" where
  "giop_IOP_ServiceContextList_demarshal buf0 =
     andThen (demarshal_ulong buf0) (\<lambda>(len, buf). demarshal_contexts (unat len) buf)"

definition giop_recv_buffer_demarshal_request_1_1 ::
    "GIOPRecvBuffer \<Rightarrow> recv_error + GIOPRecvBuffer" where
  "giop_recv_buffer_demarshal_request_1_1 buf0 =
     andThen (giop_IOP_ServiceContextList_demarshal buf0) (\<lambda>(scl, buf).
     let buf = align_cur 4 buf in
     andThen (check 12 buf) (\<lambda>_.
     andThen (fetch32 buf) (\<lambda>(rid, buf).
     andThen (fetch8 4 buf) (\<lambda>(resp, buf).
     andThen (fetch32 buf) (\<lambda>(keylen, buf).
     andThen (fetch_octets keylen buf) (\<lambda>(key, buf).
     let buf = align_cur 4 buf in
     andThen (check 4 buf) (\<lambda>_.
     andThen (fetch32 buf) (\<lambda>(oplen, buf).
     andThen (check_past oplen buf) (\<lambda>_.
     let oper = rcur buf; buf = align_cur 4 (advance (ucast oplen) buf) in
     andThen (check 4 buf) (\<lambda>_.
     andThen (fetch32 buf) (\<lambda>(prlen, buf).
     andThen (fetch_octets prlen buf) (\<lambda>(princ, buf).
       Inr (buf\<lparr>msg_u := Msg_request_1_1
         \<lparr>rq1_service_context = scl, rq1_request_id = rid, rq1_response_expected = resp,
          rq1_object_key = key, rq1_operation = oper, rq1_requesting_principal = princ\<rparr>\<rparr>)
     ))))))))))))"

definition giop_recv_buffer_demarshal_request_1_2 ::
    "GIOPRecvBuffer \<Rightarrow> recv_error + GIOPRecvBuffer" where
  "giop_recv_buffer_demarshal_request_1_2 buf0 =
     (let buf = align_cur 4 buf0 in
     andThen (check 8 buf) (\<lambda>_.
     andThen (fetch32 buf) (\<lambda>(rid, buf).
     andThen (fetch8 4 buf) (\<lambda>(resp, buf).
     andThen (giop_GIOP_TargetAddress_demarshal buf) (\<lambda>(target, buf).
     let buf = align_cur 4 buf in
     andThen (check 4 buf) (\<lambda>_.
     andThen (fetch32 buf) (\<lambda>(oplen, buf).
     andThen (check_past oplen buf) (\<lambda>_.
     let oper = rcur buf; buf = advance (ucast oplen) buf in
     andThen (giop_IOP_ServiceContextList_demarshal buf) (\<lambda>(scl, buf).
       Inr ((align_cur 8 buf)\<lparr>msg_u := Msg_request_1_2
         \<lparr>rq2_request_id = rid, rq2_response_flags = resp, rq2_target = target,
          rq2_operation = oper, rq2_service_context = scl\<rparr>\<rparr>)
     )))))))))"

definition giop_recv_buffer_demarshal_reply_1_1 ::
    "GIOPRecvBuffer \<Rightarrow> recv_error + GIOPRecvBuffer" where
  "giop_recv_buffer_demarshal_reply_1_1 buf0 =
     andThen (giop_IOP_ServiceContextList_demarshal buf0) (\<lambda>(scl, buf).
     let buf = align_cur 4 buf in
     andThen (check 8 buf) (\<lambda>_.
     andThen (fetch32 buf) (\<lambda>(rid, buf).
     andThen (fetch32 buf) (\<lambda>(status, buf).
       Inr (buf\<lparr>msg_u := Msg_reply_1_1
         \<lparr>rp_service_context = scl, rp_request_id = rid, rp_reply_status = status\<rparr>\<rparr>)))))"

definition giop_recv_buffer_demarshal_reply_1_2 ::
    "GIOPRecvBuffer \<Rightarrow> recv_error + GIOPRecvBuffer" where
  "giop_recv_buffer_demarshal_reply_1_2 buf0 =
     (let buf = align_cur 4 buf0 in
     andThen (check 8 buf) (\<lambda>_.
     andThen (fetch32 buf) (\<lambda>(rid, buf).
     andThen (fetch32 buf) (\<lambda>(status, buf).
     andThen (giop_IOP_ServiceContextList_demarshal buf) (\<lambda>(scl, buf).
       Inr ((align_cur 8 buf)\<lparr>msg_u := Msg_reply_1_2
         \<lparr>rp_service_context = scl, rp_request_id = rid, rp_reply_status = status\<rparr>\<rparr>))))))"

definition giop_recv_buffer_demarshal_cancel :: "GIOPRecvBuffer \<Rightarrow> recv_error + GIOPRecvBuffer" where
  "giop_recv_buffer_demarshal_cancel buf0 =
     (let buf = align_cur 4 buf0 in
     andThen (check 4 buf) (\<lambda>_.
     andThen (fetch32 buf) (\<lambda>(rid, buf). Inr (buf\<lparr>msg_u := Msg_cancel_request rid\<rparr>))))"

definition giop_recv_buffer_demarshal_locate_request_1_1 ::
    "GIOPRecvBuffer \<Rightarrow> recv_error + GIOPRecvBuffer" where
  "giop_recv_buffer_demarshal_locate_request_1_1 buf0 =
     (let buf = align_cur 4 buf0 in
     andThen (check 8 buf) (\<lambda>_.
     andThen (fetch32 buf) (\<lambda>(rid, buf).
     andThen (fetch32 buf) (\<lambda>(keylen, buf).
     andThen (fetch_octets keylen buf) (\<lambda>(key, buf).
       Inr (buf\<lparr>msg_u := Msg_locate_request_1_1
         \<lparr>lq1_request_id = rid, lq1_object_key = key\<rparr>\<rparr>))))))"

definition giop_recv_buffer_demarshal_locate_request_1_2 ::
    "GIOPRecvBuffer \<Rightarrow> recv_error + GIOPRecvBuffer" where
  "giop_recv_buffer_demarshal_locate_request_1_2 buf0 =
     (let buf = align_cur 4 buf0 in
     andThen (check 4 buf) (\<lambda>_.
     andThen (fetch32 buf) (\<lambda>(rid, buf).
     andThen (giop_GIOP_TargetAddress_demarshal buf) (\<lambda>(target, buf).
       Inr (buf\<lparr>msg_u := Msg_locate_request_1_2
         \<lparr>lq2_request_id = rid, lq2_target = target\<rparr>\<rparr>)))))"

definition giop_recv_buffer_demarshal_locate_reply_1_1 ::
    "GIOPRecvBuffer \<Rightarrow> recv_error + GIOPRecvBuffer" where
  "giop_recv_buffer_demarshal_locate_reply_1_1 buf0 =
     (let buf = align_cur 4 buf0 in
     andThen (check 8 buf) (\<lambda>_.
     andThen (fetch32 buf) (\<lambda>(rid, buf).
     andThen (fetch32 buf) (\<lambda>(status, buf).
       Inr (buf\<lparr>msg_u := Msg_locate_reply_1_1
         \<lparr>lp_request_id = rid, lp_locate_status = status\<rparr>\<rparr>)))))"

definition giop_recv_buffer_demarshal_locate_reply_1_2 ::
    "GIOPRecvBuffer \<Rightarrow> recv_error + GIOPRecvBuffer" where
  "giop_recv_buffer_demarshal_locate_reply_1_2 buf = giop_recv_buffer_demarshal_locate_reply_1_1 buf"

text \<open>The decode table, indexed by message type and version; \<open>NULL\<close> entries decode nothing.\<close>

definition giop_recv_buffer_demarshal :: "GIOPRecvBuffer \<Rightarrow> recv_error + GIOPRecvBuffer" where
  "giop_recv_buffer_demarshal buf =
     (let mt = message_type (header buf); new = (giop_version buf = GIOP_1_2) in
      if mt \<ge> GIOP_NUM_MSG_TYPES then Inl Malformed
      else if mt = GIOP_REQUEST then
        (if new then giop_recv_buffer_demarshal_request_1_2 buf
         else giop_recv_buffer_demarshal_request_1_1 buf)
      else if mt = GIOP_REPLY then
        (if new then giop_recv_buffer_demarshal_reply_1_2 buf
         else giop_recv_buffer_demarshal_reply_1_1 buf)
      else if mt = GIOP_CANCELREQUEST then giop_recv_buffer_demarshal_cancel buf
      else if mt = GIOP_LOCATEREQUEST then
        (if new then giop_recv_buffer_demarshal_locate_request_1_2 buf
         else giop_recv_buffer_demarshal_locate_request_1_1 buf)
      else if mt = GIOP_LOCATEREPLY then
        (if new then giop_recv_buffer_demarshal_locate_reply_1_2 buf
         else giop_recv_buffer_demarshal_locate_reply_1_1 buf)
      else Inr buf)"

end
