(* ===== verification/Giop_Safe.thy ===== *)
theory Giop_Safe
  imports Giop_Demarshal
begin

text \<open>
  Memory safety of header demarshalling. \<open>wf_buf\<close> is what the state machine of
  \<open>giop_connection_handle_input\<close> establishes before it calls
  \<open>giop_recv_buffer_demarshal\<close>: the read cursor lies inside the body (up to the 8-byte
  slack that an unchecked alignment can add), the body inside its allocation, and the
  allocation away from the top of the address space. \<open>safe P m\<close> says that \<open>m\<close>
  never reads outside the allocation and that a result satisfies \<open>P\<close>; the rules
  \<open>safe_rules\<close> follow the statements of the demarshallers one by one.
\<close>

definition wf_buf :: "GIOPRecvBuffer \<Rightarrow> bool" where
  "wf_buf buf \<longleftrightarrow>
     unat (message_body buf) \<le> unat (rcur buf) \<and>
     unat (rcur buf) \<le> align_up 8 (unat (rend buf)) \<and>
     unat (rend buf) \<le> unat (message_body buf) + length (body_mem buf) \<and>
     unat (rend buf) + 64 \<le> 2 ^ 64"

definition has_room :: "nat \<Rightarrow> GIOPRecvBuffer \<Rightarrow> bool" where
  "has_room n buf \<longleftrightarrow> wf_buf buf \<and> unat (rcur buf) + n \<le> unat (rend buf)"

definition safe :: "('a \<Rightarrow> bool) \<Rightarrow> recv_error + 'a \<Rightarrow> bool" where
  "safe P m = (case m of Inl e \<Rightarrow> e \<noteq> OutOfBounds | Inr x \<Rightarrow> P x)"

named_theorems safe_intros \<open>rules of the safety calculus\<close>

lemma safe_Inr [safe_intros]: "P x \<Longrightarrow> safe P (Inr x)"
  by (simp add: safe_def)

lemma safe_Malformed [safe_intros]: "safe P (Inl Malformed)"
  by (simp add: safe_def)

lemma safe_andThen:
  "safe P m \<Longrightarrow> (\<And>x. P x \<Longrightarrow> safe Q (f x)) \<Longrightarrow> safe Q (andThen m f)"
  by (cases m) (auto simp: safe_def)

lemma safe_mono: "safe P m \<Longrightarrow> (\<And>x. P x \<Longrightarrow> Q x) \<Longrightarrow> safe Q m"
  by (auto simp: safe_def split: sum.splits)

lemma has_room_wf: "has_room n buf \<Longrightarrow> wf_buf buf"
  by (simp add: has_room_def)

lemma align_up_8_mono:
  assumes "n \<le> align_up 8 e" and "k \<in> {2, 4, 8}"
  shows "align_up k n \<le> align_up 8 e"
proof -
  have "k dvd align_up 8 e"
    using assms(2) align_up_dvd [of 8 e] by (auto elim: dvd_trans [rotated])
  then have "align_up k (align_up 8 e) = align_up 8 e"
    using assms(2) by (intro align_up_id) auto
  moreover have "align_up k n \<le> align_up k (align_up 8 e)"
    unfolding align_up_def [of k n] align_up_def [of k "align_up 8 e"]
    using assms(1) by (intro mult_le_mono1 div_le_mono) simp
  ultimately show ?thesis by simp
qed

lemma wf_align_cur:
  assumes wf: "wf_buf buf" and k: "k = 1 \<or> k = 2 \<or> k = 3"
  shows "wf_buf (align_cur (2 ^ k) buf)"
proof -
  let ?c = "unat (rcur buf)" and ?e = "unat (rend buf)"
  have kn: "(2 :: nat) ^ k \<in> {2, 4, 8}" using k by auto
  have "align_up 8 ?e < ?e + 8" by (rule align_up_lt) simp
  then have "?c + 8 \<le> 2 ^ 64" using wf by (simp add: wf_buf_def)
  then have u: "unat (ALIGN_VALUE (rcur buf) (2 ^ k)) = align_up (2 ^ k) ?c"
    using k by (intro unat_ALIGN_VALUE) auto
  have "?c \<le> align_up (2 ^ k) ?c" by (rule align_up_ge) simp
  moreover have "align_up (2 ^ k) ?c \<le> align_up 8 ?e"
    using wf kn by (intro align_up_8_mono) (auto simp: wf_buf_def)
  ultimately show ?thesis
    using wf by (auto simp: wf_buf_def align_cur_def u)
qed

lemma wf_align [safe_intros]:
  assumes "wf_buf buf"
  shows "wf_buf (align_cur 2 buf)" and "wf_buf (align_cur 4 buf)" and "wf_buf (align_cur 8 buf)"
  using wf_align_cur [OF assms, of 1] wf_align_cur [OF assms, of 2] wf_align_cur [OF assms, of 3]
  by simp_all

lemma safe_check:
  assumes "wf_buf buf" and "unat n \<le> 32"
  shows "safe (\<lambda>_. has_room (unat n) buf) (check n buf)"
proof -
  have "align_up 8 (unat (rend buf)) < unat (rend buf) + 8" by (rule align_up_lt) simp
  then have "unat (rcur buf) + unat n < 2 ^ 64" using assms by (simp add: wf_buf_def)
  from ptr_over_nat [OF this] show ?thesis
    using assms by (auto simp: check_def safe_def has_room_def)
qed

lemma load_in_room:
  assumes "has_room n buf"
  shows "\<exists>bs. load buf (rcur buf) n = Inr bs \<and> length bs = n"
proof -
  have le: "message_body buf \<le> rcur buf"
    using assms by (simp add: has_room_def wf_buf_def word_le_nat_alt)
  have "unat (rcur buf - message_body buf) = unat (rcur buf) - unat (message_body buf)"
    by (rule unat_sub [OF le])
  then show ?thesis
    using assms by (auto simp: load_def has_room_def wf_buf_def Let_def)
qed

lemma has_room_advance:
  assumes "has_room m buf" and "unat n \<le> m"
  shows "has_room (m - unat n) (advance n buf)"
proof -
  have "unat (rcur buf) + unat n < 2 ^ 64"
    using assms by (simp add: has_room_def wf_buf_def)
  then have u: "unat (rcur buf + n) = unat (rcur buf) + unat n" by (simp add: unat_word_ariths)
  have "unat (rend buf) \<le> align_up 8 (unat (rend buf))" by (rule align_up_ge) simp
  with assms show ?thesis
    by (auto simp: has_room_def wf_buf_def advance_def u)
qed

lemma load_mono: "has_room m buf \<Longrightarrow> n \<le> m \<Longrightarrow> has_room n buf"
  by (simp add: has_room_def)

lemma safe_fetch32:
  assumes "has_room m buf" and "4 \<le> m"
  shows "safe (\<lambda>(w, b). has_room (m - 4) b) (fetch32 buf)"
  using load_in_room [OF load_mono [OF assms]] has_room_advance [OF assms(1), of 4] assms(2)
  by (auto simp: fetch32_def safe_def Let_def)

lemma safe_fetch16:
  assumes "has_room m buf" and "2 \<le> m"
  shows "safe (\<lambda>(w, b). has_room (m - 2) b) (fetch16 buf)"
  using load_in_room [OF load_mono [OF assms]] has_room_advance [OF assms(1), of 2] assms(2)
  by (auto simp: fetch16_def safe_def Let_def)

lemma safe_fetch8:
  assumes "has_room m buf" and "unat n \<le> m" and "0 < unat n"
  shows "safe (\<lambda>(w, b). has_room (m - unat n) b) (fetch8 n buf)"
proof -
  have "has_room 1 buf" using assms by (intro load_mono [OF assms(1)]) simp
  from load_in_room [OF this] has_room_advance [OF assms(1,2)] show ?thesis
    by (auto simp: fetch8_def safe_def)
qed

lemma unat_ucast_u32 [simp]: "unat (ucast (len :: u32) :: u64) = unat len"
proof -
  have "unat len < 2 ^ 32" using unsigned_less [of len] by simp
  then show ?thesis by (simp add: unsigned_ucast_eq take_bit_nat_eq_self)
qed

lemma safe_check_past:
  assumes "wf_buf buf"
  shows "safe (\<lambda>_. has_room (unat len) buf) (check_past len buf)"
  using assms ptr_past_nat [of "rcur buf" "rend buf" "ucast len"]
  by (auto simp: check_past_def safe_def has_room_def)

lemma safe_fetch_octets:
  assumes "wf_buf buf"
  shows "safe (\<lambda>(bs, b). has_room 0 b) (fetch_octets len buf)"
  unfolding fetch_octets_def
proof (rule safe_andThen [OF safe_check_past [OF assms]])
  assume r: "has_room (unat len) buf"
  from load_in_room [OF r] has_room_advance [OF r, of "ucast len"]
  show "safe (\<lambda>(bs, b). has_room 0 b)
      (andThen (load buf (rcur buf) (unat len)) (\<lambda>bs. Inr (bs, advance (ucast len) buf)))"
    by (auto simp: safe_def)
qed


text \<open>The calculus: one rule per statement, in continuation form.\<close>

lemma safe_checkI:
  assumes "wf_buf buf" and "unat n \<le> 32"
    and "wf_buf buf \<Longrightarrow> has_room (unat n) buf \<Longrightarrow> safe Q (f ())"
  shows "safe Q (andThen (check n buf) f)"
  by (rule safe_andThen [OF safe_check]) (use assms in auto)

lemma safe_check_pastI:
  assumes "wf_buf buf" and "has_room (unat len) buf \<Longrightarrow> safe Q (f ())"
  shows "safe Q (andThen (check_past len buf) f)"
  by (rule safe_andThen [OF safe_check_past]) (use assms in auto)

lemma safe_fetch32I:
  assumes "has_room m buf" and "4 \<le> m"
    and "\<And>w b. wf_buf b \<Longrightarrow> has_room (m - 4) b \<Longrightarrow> safe Q (f (w, b))"
  shows "safe Q (andThen (fetch32 buf) f)"
  by (rule safe_andThen [OF safe_fetch32]) (use assms has_room_wf in auto)

lemma safe_fetch16I:
  assumes "has_room m buf" and "2 \<le> m"
    and "\<And>w b. wf_buf b \<Longrightarrow> has_room (m - 2) b \<Longrightarrow> safe Q (f (w, b))"
  shows "safe Q (andThen (fetch16 buf) f)"
  by (rule safe_andThen [OF safe_fetch16]) (use assms has_room_wf in auto)

lemma safe_fetch8I:
  assumes "has_room m buf" and "unat n \<le> m" and "0 < unat n"
    and "\<And>w b. wf_buf b \<Longrightarrow> has_room (m - unat n) b \<Longrightarrow> safe Q (f (w, b))"
  shows "safe Q (andThen (fetch8 n buf) f)"
  by (rule safe_andThen [OF safe_fetch8]) (use assms has_room_wf in auto)

lemma safe_fetch_octetsI:
  assumes "wf_buf buf" and "\<And>bs b. wf_buf b \<Longrightarrow> safe Q (f (bs, b))"
  shows "safe Q (andThen (fetch_octets len buf) f)"
  by (rule safe_andThen [OF safe_fetch_octets]) (use assms has_room_wf in auto)

lemmas safe_rules = safe_checkI safe_check_pastI safe_fetch32I safe_fetch16I safe_fetch8I
  safe_fetch_octetsI safe_Inr safe_Malformed

lemma wf_advance: "has_room (unat n) buf \<Longrightarrow> wf_buf (advance n buf)"
  using has_room_advance has_room_wf by blast

lemma wf_buf_msg_u [simp]: "wf_buf (buf\<lparr>msg_u := m\<rparr>) = wf_buf buf"
  by (simp add: wf_buf_def)

lemmas wf_rules [simp] = wf_align

lemma safe_TargetAddress:
  "wf_buf buf \<Longrightarrow> safe (\<lambda>(t, b). wf_buf b) (giop_GIOP_TargetAddress_demarshal buf)"
  unfolding giop_GIOP_TargetAddress_demarshal_def Let_def
  by (auto intro!: safe_rules split: if_splits)

lemma safe_demarshal_ulong:
  "wf_buf buf \<Longrightarrow> safe (\<lambda>(t, b). wf_buf b) (demarshal_ulong buf)"
  unfolding demarshal_ulong_def Let_def
  by (intro safe_checkI) (auto intro: safe_mono [OF safe_fetch32] dest: has_room_wf)



lemma safe_procI:
  assumes "wf_buf buf" and "safe (\<lambda>(t, b). wf_buf b) (g buf)"
    and "\<And>x b. wf_buf b \<Longrightarrow> safe Q (f (x, b))"
  shows "safe Q (andThen (g buf) f)"
  by (rule safe_andThen [OF assms(2)]) (use assms(3) in auto)

lemma safe_demarshal_octet_seq:
  "wf_buf buf \<Longrightarrow> safe (\<lambda>(t, b). wf_buf b) (demarshal_octet_seq buf)"
  unfolding demarshal_octet_seq_def
  by (rule safe_procI [OF _ safe_demarshal_ulong])
    (auto intro!: safe_rules intro: safe_mono [OF safe_fetch_octets] dest: has_room_wf)

lemma safe_demarshal_ServiceContext:
  "wf_buf buf \<Longrightarrow> safe (\<lambda>(t, b). wf_buf b) (demarshal_ServiceContext buf)"
  unfolding demarshal_ServiceContext_def
  by (auto intro!: safe_procI [OF _ safe_demarshal_ulong]
      safe_procI [OF _ safe_demarshal_octet_seq] safe_rules)

lemma safe_demarshal_contexts:
  "wf_buf buf \<Longrightarrow> safe (\<lambda>(t, b). wf_buf b) (demarshal_contexts n buf)"
proof (induction n arbitrary: buf)
  case 0
  then show ?case by (simp add: safe_def)
next
  case (Suc n)
  show ?case
    unfolding demarshal_contexts.simps
    by (auto intro!: safe_procI [OF _ safe_demarshal_ServiceContext] Suc safe_rules
        safe_procI [OF _ Suc.IH])
qed

lemma safe_ServiceContextList:
  "wf_buf buf \<Longrightarrow> safe (\<lambda>(t, b). wf_buf b) (giop_IOP_ServiceContextList_demarshal buf)"
  unfolding giop_IOP_ServiceContextList_demarshal_def
  by (auto intro!: safe_procI [OF _ safe_demarshal_ulong] safe_demarshal_contexts)

lemmas safe_procs = safe_rules safe_procI [OF _ safe_ServiceContextList]
  safe_procI [OF _ safe_TargetAddress]

lemma safe_request_1_1: "wf_buf buf \<Longrightarrow> safe wf_buf (giop_recv_buffer_demarshal_request_1_1 buf)"
  unfolding giop_recv_buffer_demarshal_request_1_1_def Let_def
  by (auto intro!: safe_procs simp: wf_advance)

lemma safe_request_1_2: "wf_buf buf \<Longrightarrow> safe wf_buf (giop_recv_buffer_demarshal_request_1_2 buf)"
  unfolding giop_recv_buffer_demarshal_request_1_2_def Let_def
  by (auto intro!: safe_procs simp: wf_advance)

lemma safe_reply_1_1: "wf_buf buf \<Longrightarrow> safe wf_buf (giop_recv_buffer_demarshal_reply_1_1 buf)"
  unfolding giop_recv_buffer_demarshal_reply_1_1_def Let_def
  by (auto intro!: safe_procs)

lemma safe_reply_1_2: "wf_buf buf \<Longrightarrow> safe wf_buf (giop_recv_buffer_demarshal_reply_1_2 buf)"
  unfolding giop_recv_buffer_demarshal_reply_1_2_def Let_def
  by (auto intro!: safe_procs)

lemma safe_cancel: "wf_buf buf \<Longrightarrow> safe wf_buf (giop_recv_buffer_demarshal_cancel buf)"
  unfolding giop_recv_buffer_demarshal_cancel_def Let_def
  by (auto intro!: safe_procs)

lemma safe_locate_request_1_1:
  "wf_buf buf \<Longrightarrow> safe wf_buf (giop_recv_buffer_demarshal_locate_request_1_1 buf)"
  unfolding giop_recv_buffer_demarshal_locate_request_1_1_def Let_def
  by (auto intro!: safe_procs)

lemma safe_locate_request_1_2:
  "wf_buf buf \<Longrightarrow> safe wf_buf (giop_recv_buffer_demarshal_locate_request_1_2 buf)"
  unfolding giop_recv_buffer_demarshal_locate_request_1_2_def Let_def
  by (auto intro!: safe_procs)

lemma safe_locate_reply:
  "wf_buf buf \<Longrightarrow> safe wf_buf (giop_recv_buffer_demarshal_locate_reply_1_1 buf)"
  unfolding giop_recv_buffer_demarshal_locate_reply_1_1_def Let_def
  by (auto intro!: safe_procs)

lemma safe_demarshal: "wf_buf buf \<Longrightarrow> safe wf_buf (giop_recv_buffer_demarshal buf)"
  unfolding giop_recv_buffer_demarshal_def Let_def giop_recv_buffer_demarshal_locate_reply_1_2_def
  using safe_request_1_1 safe_request_1_2 safe_reply_1_1 safe_reply_1_2 safe_cancel
    safe_locate_request_1_1 safe_locate_request_1_2 safe_locate_reply
  by (auto intro: safe_Inr safe_Malformed)

section \<open>Property: no header can make the demarshaller read out of bounds\<close>

text \<open>
  C13. Whatever bytes a peer sends (all lengths are attacker-controlled 32-bit values), the
  demarshaller of every message type and version reads only inside the allocation of the
  message, and leaves the buffer well formed for the body demarshalling that follows.
\<close>

theorem giop_recv_buffer_demarshal_memory_safe:
  assumes "wf_buf buf"
  shows "giop_recv_buffer_demarshal buf \<noteq> Inl OutOfBounds \<and>
    (\<forall>buf'. giop_recv_buffer_demarshal buf = Inr buf' \<longrightarrow> wf_buf buf')"
  using safe_demarshal [OF assms] by (auto simp: safe_def split: sum.splits)

theorem giop_recv_buffer_demarshal_memory_safe_witness:
  "let buf = \<lparr>header = \<lparr>magic = [0x47, 0x49, 0x4F, 0x50], version = (1, 2), flags = 1,
          message_type = GIOP_CANCELREQUEST, message_size = 4\<rparr>,
        msg_u = Msg_none, hdr_mem = [], message_body = 8, body_mem = replicate 16 0, rcur = 20, rend = 24,
        connection = None, buf_state = GIOP_MSG_READY, giop_version = GIOP_1_2, left_to_read = 0,
        free_body = True\<rparr>
   in giop_recv_buffer_demarshal buf \<noteq> Inl OutOfBounds"
  unfolding Let_def
  by (rule giop_recv_buffer_demarshal_memory_safe [THEN conjunct1])
    (simp add: wf_buf_def align_up_def)

end
