(* ===== verification/Giop_Input.thy ===== *)
theory Giop_Input
  imports Giop_Safe
begin

text \<open>
  The receiving state machine of a connection
  (\<open>src/orb/GIOP/giop-recv-buffer.c\<close>, lines 424--465 and 530--1360, 1432--1448):
  reading header and body, the fragment sets of a connection, the list of outstanding
  requests, and the dispatch of a complete message. The socket is the list of results of
  successive \<open>link_connection_read\<close> calls; the allocator is the function
  \<open>try_alloc\<close> from a size to the address \<open>g_try_realloc\<close> returns (\<open>None\<close> is
  \<open>NULL\<close>). What the code does to other components (deliver a message, disconnect,
  signal a waiter) is the list of events it returns.
\<close>

section \<open>Small accessors\<close>

fun request_id_of :: "GIOPMsgU \<Rightarrow> u32" where
  "request_id_of Msg_none = 0"
| "request_id_of (Msg_request_1_1 m) = rq1_request_id m"
| "request_id_of (Msg_request_1_2 m) = rq2_request_id m"
| "request_id_of (Msg_reply_1_1 m) = rp_request_id m"
| "request_id_of (Msg_reply_1_2 m) = rp_request_id m"
| "request_id_of (Msg_cancel_request i) = i"
| "request_id_of (Msg_locate_request_1_1 m) = lq1_request_id m"
| "request_id_of (Msg_locate_request_1_2 m) = lq2_request_id m"
| "request_id_of (Msg_locate_reply_1_1 m) = lp_request_id m"

text \<open>Types past \<open>GIOP_LOCATEREPLY\<close> have offset 0 in the table, which reads as id 0.\<close>

definition giop_recv_buffer_get_request_id :: "GIOPRecvBuffer \<Rightarrow> u32" where
  "giop_recv_buffer_get_request_id buf =
     (if message_type (header buf) \<le> GIOP_LOCATEREPLY then request_id_of (msg_u buf) else 0)"

definition giop_recv_buffer_reply_status :: "GIOPRecvBuffer \<Rightarrow> u32" where
  "giop_recv_buffer_reply_status buf =
     (case msg_u buf of Msg_reply_1_1 m \<Rightarrow> rp_reply_status m | Msg_reply_1_2 m \<Rightarrow> rp_reply_status m
      | Msg_locate_reply_1_1 m \<Rightarrow> lp_locate_status m | _ \<Rightarrow> 0)"

text \<open>
  A C function that may end the process in a failed \<open>g_assert\<close>, or run into behaviour C
  leaves undefined (here: using memory it has freed).
\<close>

datatype 'a outcome = Done 'a | Abort | Undefined

text \<open>\<open>None\<close> is the null pointer.\<close>

definition giop_recv_buffer_get_objkey :: "GIOPRecvBuffer \<Rightarrow> byte list option outcome" where
  "giop_recv_buffer_get_objkey buf =
     (let mt = message_type (header buf) in
      if mt = GIOP_REQUEST \<or> mt = GIOP_LOCATEREQUEST then
        (case msg_u buf of
           Msg_request_1_1 m \<Rightarrow> Done (Some (rq1_object_key m))
         | Msg_request_1_2 m \<Rightarrow>
             (if ta_d (rq2_target m) = GIOP_KeyAddr then Done (Some (ta_object_key (rq2_target m)))
              else Abort)
         | Msg_locate_request_1_1 m \<Rightarrow> Done (Some (lq1_object_key m))
         | Msg_locate_request_1_2 m \<Rightarrow>
             (if ta_d (lq2_target m) = GIOP_KeyAddr then Done (Some (ta_object_key (lq2_target m)))
              else Abort)
         | _ \<Rightarrow> Done (Some []))
      else Abort)"

text \<open>The operation name is a C string in the message: bytes up to the first zero.\<close>

definition giop_recv_buffer_get_opname :: "GIOPRecvBuffer \<Rightarrow> u64 option" where
  "giop_recv_buffer_get_opname buf =
     (case msg_u buf of Msg_request_1_1 m \<Rightarrow> Some (rq1_operation m)
      | Msg_request_1_2 m \<Rightarrow> Some (rq2_operation m) | _ \<Rightarrow> None)"

definition c_string :: "GIOPRecvBuffer \<Rightarrow> u64 \<Rightarrow> recv_error + byte list" where
  "c_string buf p =
     (let bs = drop (unat (p - message_body buf)) (body_mem buf); s = takeWhile (\<lambda>b. b \<noteq> 0) bs
      in if length s < length bs then Inr s else Inl OutOfBounds)"

section \<open>Buffers\<close>

definition giop_recv_buffer_use_buf :: "nat option \<Rightarrow> GIOPRecvBuffer" where
  "giop_recv_buffer_use_buf cnx =
     \<lparr>header = \<lparr>magic = [0, 0, 0, 0], version = (0, 0), flags = 0, message_type = 0, message_size = 0\<rparr>,
      msg_u = Msg_none, hdr_mem = [], message_body = 0, body_mem = [], rcur = 0, rend = 0,
      connection = cnx, buf_state = GIOP_MSG_READING_HEADER, giop_version = GIOP_1_0,
      left_to_read = 12, free_body = False\<rparr>"

text \<open>
  An encapsulation: \<open>mem\<close> is its address, \<open>bytes\<close> the memory from there to the end of
  the allocation it lies in. The first octet, its byte order, is read before any length
  check.
\<close>

definition giop_recv_buffer_use_encaps :: "u64 \<Rightarrow> byte list \<Rightarrow> u64 \<Rightarrow> recv_error + GIOPRecvBuffer" where
  "giop_recv_buffer_use_encaps mem bytes len =
     (case bytes of
        [] \<Rightarrow> Inl OutOfBounds
      | b # _ \<Rightarrow>
          (let buf = giop_recv_buffer_use_buf None
           in Inr (buf\<lparr>rcur := mem + 1, message_body := mem, body_mem := bytes, rend := mem + len,
                header := (header buf)\<lparr>message_size := ucast len, flags := b\<rparr>,
                giop_version := GIOP_1_2, left_to_read := 0, buf_state := GIOP_MSG_READY,
                free_body := False\<rparr>)))"

definition giop_recv_buffer_use_encaps_buf ::
    "GIOPRecvBuffer \<Rightarrow> recv_error + (GIOPRecvBuffer \<times> GIOPRecvBuffer)" where
  "giop_recv_buffer_use_encaps_buf buf0 =
     (let buf = align_cur 4 buf0 in
      andThen (check 4 buf) (\<lambda>_.
      andThen (fetch32 buf) (\<lambda>(len, buf).
      andThen (check_past len buf) (\<lambda>_.
        let p = rcur buf; buf = advance (ucast len) buf in
        andThen (giop_recv_buffer_use_encaps p (drop (unat (p - message_body buf)) (body_mem buf)) (ucast len))
          (\<lambda>enc. Inr (enc, buf))))))"

text \<open>\<open>g_try_realloc\<close>: the old content is kept, the rest is unspecified (zero here).\<close>

definition realloc_bytes :: "byte list \<Rightarrow> nat \<Rightarrow> byte list" where
  "realloc_bytes old n = take n old @ replicate (n - length old) 0"

definition alloc_buffer ::
    "(nat \<Rightarrow> u64 option) \<Rightarrow> GIOPRecvBuffer \<Rightarrow> byte list \<Rightarrow> u64 \<Rightarrow> GIOPRecvBuffer option" where
  "alloc_buffer try_alloc buf old body_size =
     (case try_alloc (unat (body_size + 12)) of
        None \<Rightarrow> None
      | Some a \<Rightarrow>
          Some (buf\<lparr>message_body := a, body_mem := realloc_bytes old (unat (body_size + 12)),
             free_body := True, rcur := a + 12, rend := a + 12 + body_size,
             left_to_read := body_size\<rparr>))"

section \<open>Fragments\<close>

definition MORE_FRAGMENTS_FOLLOW :: "GIOPRecvBuffer \<Rightarrow> bool" where
  "MORE_FRAGMENTS_FOLLOW buf \<longleftrightarrow> flags (header buf) AND GIOP_FLAG_FRAGMENTED \<noteq> 0"

type_synonym frags = "GIOPRecvBuffer list list"

definition giop_connection_add_frag :: "frags \<Rightarrow> GIOPRecvBuffer \<Rightarrow> frags" where
  "giop_connection_add_frag fs buf = [buf] # fs"

text \<open>The index of the fragment set found.\<close>

fun find_frag :: "frags \<Rightarrow> u32 \<Rightarrow> nat \<Rightarrow> nat option" where
  "find_frag [] rid i = None"
| "find_frag (s # fs) rid i =
     (case s of
        h # _ \<Rightarrow> if giop_recv_buffer_get_request_id h = rid then Some i else find_frag fs rid (Suc i)
      | [] \<Rightarrow> find_frag fs rid (Suc i))"

definition giop_connection_get_frag :: "frags \<Rightarrow> u32 \<Rightarrow> bool \<Rightarrow> nat option" where
  "giop_connection_get_frag fs rid return_first_if_none =
     (case find_frag fs rid 0 of
        Some i \<Rightarrow> Some i
      | None \<Rightarrow> if return_first_if_none \<and> fs \<noteq> [] then Some 0 else None)"

definition giop_connection_remove_frag :: "frags \<Rightarrow> nat \<Rightarrow> frags" where
  "giop_connection_remove_frag fs i = take i fs @ drop (Suc i) fs"

definition giop_connection_destroy_frags :: "frags \<Rightarrow> frags" where
  "giop_connection_destroy_frags fs = []"

text \<open>The bytes of a buffer between \<open>cur\<close> and \<open>end\<close>, and \<open>memcpy\<close> to an address.\<close>

definition remaining :: "GIOPRecvBuffer \<Rightarrow> byte list" where
  "remaining buf =
     take (unat (rend buf - rcur buf)) (drop (unat (rcur buf - message_body buf)) (body_mem buf))"

definition deposit :: "GIOPRecvBuffer \<Rightarrow> u64 \<Rightarrow> byte list \<Rightarrow> GIOPRecvBuffer" where
  "deposit buf p bs =
     (let o' = unat (p - message_body buf); m = body_mem buf
      in buf\<lparr>body_mem := take o' m @ bs @ drop (o' + length bs) m\<rparr>)"

fun copy_frags :: "GIOPRecvBuffer \<Rightarrow> u64 \<Rightarrow> GIOPRecvBuffer list \<Rightarrow> GIOPRecvBuffer \<times> u64" where
  "copy_frags head p [] = (head, p)"
| "copy_frags head p (b # bs) =
     copy_frags (deposit head p (remaining b)) (p + (rend b - rcur b)) bs"

text \<open>\<open>None\<close>: the collation buffer could not be allocated; \<open>Abort\<close>: the head owns no body.\<close>

definition concat_frags ::
    "(nat \<Rightarrow> u64 option) \<Rightarrow> GIOPRecvBuffer \<Rightarrow> GIOPRecvBuffer list \<Rightarrow> GIOPRecvBuffer option outcome" where
  "concat_frags try_alloc head rest =
     (let initial_offset = rcur head - message_body head;
          initial_length = rend head - rcur head;
          len = ucast (message_size (header head)) + initial_offset - 12
      in if \<not> free_body head then Abort
         else (case alloc_buffer try_alloc head (body_mem head) len of
           None \<Rightarrow> Done None
         | Some h \<Rightarrow>
             (let h1 = h\<lparr>left_to_read := 0, rcur := message_body h + initial_offset\<rparr>;
                  (h2, p) = copy_frags h1 (rcur h1 + initial_length) rest
              in Done (Some (h2\<lparr>rend := p\<rparr>)))))"

text \<open>\<open>giop_recv_set_limit\<close> takes a signed long and ignores small limits.\<close>

definition GIOP_INITIAL_MSG_SIZE_LIMIT :: int where
  "GIOP_INITIAL_MSG_SIZE_LIMIT = 256 * 1024"

definition giop_recv_set_limit :: "int \<Rightarrow> int \<Rightarrow> int" where
  "giop_recv_set_limit cur_limit limit = (if limit > 256 then limit else cur_limit)"

text \<open>
  The result of \<open>giop_recv_buffer_handle_fragmented\<close>: its return value, the buffer
  \<open>*ret_buf\<close> and the fragment sets.
\<close>

record frag_result =
  fr_error :: bool
  fr_buf :: GIOPRecvBuffer
  fr_frags :: frags

definition frag_message_id :: "GIOPRecvBuffer \<Rightarrow> recv_error + (u32 \<times> GIOPRecvBuffer)" where
  "frag_message_id buf0 =
     (let mt = message_type (header buf0) in
      if mt \<in> {GIOP_REPLY, GIOP_LOCATEREPLY, GIOP_REQUEST, GIOP_LOCATEREQUEST} then
        Inr (giop_recv_buffer_get_request_id buf0, buf0)
      else if mt = GIOP_FRAGMENT then
        (if giop_version buf0 \<noteq> GIOP_1_1 then
           (let buf = align_cur 4 buf0 in andThen (check 4 buf) (\<lambda>_. fetch32 buf))
         else Inr (0, buf0))
      else Inl Malformed)"

definition giop_recv_buffer_handle_fragmented ::
    "(nat \<Rightarrow> u64 option) \<Rightarrow> int \<Rightarrow> bool \<Rightarrow> frags \<Rightarrow> GIOPRecvBuffer \<Rightarrow> frag_result outcome" where
  "giop_recv_buffer_handle_fragmented try_alloc limit is_auth fs buf0 =
     (case frag_message_id buf0 of
        Inl _ \<Rightarrow> Done \<lparr>fr_error = True, fr_buf = buf0, fr_frags = fs\<rparr>
      | Inr (mid, buf) \<Rightarrow>
          (case giop_connection_get_frag fs mid (giop_version buf = GIOP_1_1) of
             None \<Rightarrow>
               (if \<not> MORE_FRAGMENTS_FOLLOW buf then
                  Done \<lparr>fr_error = True, fr_buf = buf, fr_frags = fs\<rparr>
                else Done \<lparr>fr_error = False, fr_buf = buf, fr_frags = giop_connection_add_frag fs buf\<rparr>)
           | Some i \<Rightarrow>
               (let head0 = hd (fs ! i);
                    head = head0\<lparr>header := (header head0)\<lparr>message_size :=
                      message_size (header head0) + ucast (rend buf - rcur buf)\<rparr>\<rparr>;
                    list = head # tl (fs ! i) @ [buf];
                    fs1 = fs[i := list];
                    over = (\<not> is_auth \<and> uint (message_size (header buf)) > limit);
                    fs2 = (if over then giop_connection_remove_frag fs1 i else fs1)
                in if message_type (header head0) = GIOP_FRAGMENT then Abort
                   else if MORE_FRAGMENTS_FOLLOW buf then
                     Done \<lparr>fr_error = over, fr_buf = head, fr_frags = fs2\<rparr>
                   else if message_type (header buf) \<noteq> GIOP_FRAGMENT then Abort
                   else if over then Undefined
                   else (case concat_frags try_alloc head (tl list) of
                      Abort \<Rightarrow> Abort
                    | Undefined \<Rightarrow> Undefined
                    | Done None \<Rightarrow>
                        Done \<lparr>fr_error = True, fr_buf = head, fr_frags = giop_connection_remove_frag fs1 i\<rparr>
                    | Done (Some h) \<Rightarrow>
                        Done \<lparr>fr_error = False, fr_buf = h, fr_frags = giop_connection_remove_frag fs1 i\<rparr>))))"

section \<open>Outstanding requests\<close>

text \<open>
  \<open>GIOPMessageQueueEntry\<close>; \<open>ent_id\<close> is the entry's address, \<open>async_cb\<close> whether a
  callback is set. \<open>giop_queued_messages\<close> is a list of entries, newest first.
\<close>

record GIOPMessageQueueEntry =
  ent_id :: nat
  ent_buffer :: "GIOPRecvBuffer option"
  ent_cnx :: "nat option"
  ent_msg_type :: byte
  ent_request_id :: u32
  async_cb :: bool

type_synonym queue = "GIOPMessageQueueEntry list"

definition giop_recv_list_setup_queue_entry ::
    "queue \<Rightarrow> nat \<Rightarrow> nat \<Rightarrow> byte \<Rightarrow> u32 \<Rightarrow> queue" where
  "giop_recv_list_setup_queue_entry q ent cnx mt rid =
     \<lparr>ent_id = ent, ent_buffer = None, ent_cnx = Some cnx, ent_msg_type = mt,
      ent_request_id = rid, async_cb = False\<rparr> # q"

definition giop_recv_list_setup_queue_entry_async :: "queue \<Rightarrow> nat \<Rightarrow> bool \<Rightarrow> queue" where
  "giop_recv_list_setup_queue_entry_async q ent cb =
     map (\<lambda>e. if ent_id e = ent then e\<lparr>async_cb := cb\<rparr> else e) q"

text \<open>\<open>g_list_remove\<close> drops the first occurrence.\<close>

fun giop_recv_list_destroy_queue_entry :: "queue \<Rightarrow> nat \<Rightarrow> queue" where
  "giop_recv_list_destroy_queue_entry [] ent = []"
| "giop_recv_list_destroy_queue_entry (e # q) ent =
     (if ent_id e = ent then q else e # giop_recv_list_destroy_queue_entry q ent)"

text \<open>
  \<open>giop_recv_list_zap\<close>: every entry of a dead connection leaves the list without a
  buffer and without its connection; waiters are signalled in list order, callbacks run
  afterwards, last entry first. \<open>io\<close> is \<open>giop_thread_io ()\<close>.
\<close>

datatype event =
    Ev_handle_request GIOPRecvBuffer
  | Ev_handle_locate_request GIOPRecvBuffer
  | Ev_signal nat byte
  | Ev_async GIOPMessageQueueEntry
  | Ev_disconnect

definition zapped :: "GIOPMessageQueueEntry \<Rightarrow> GIOPMessageQueueEntry" where
  "zapped e = e\<lparr>ent_buffer := None, ent_cnx := None\<rparr>"

definition giop_recv_list_zap :: "bool \<Rightarrow> queue \<Rightarrow> nat \<Rightarrow> queue \<times> GIOPMessageQueueEntry list \<times> event list" where
  "giop_recv_list_zap io q cnx =
     (let dead = filter (\<lambda>e. ent_cnx e = Some cnx) q;
          gone = map zapped dead
      in (filter (\<lambda>e. ent_cnx e \<noteq> Some cnx) q, gone,
          map (\<lambda>e. Ev_signal (ent_id e) GIOP_CLOSECONNECTION) (filter (\<lambda>e. io \<and> \<not> async_cb e) gone)
          @ map Ev_async (rev (filter async_cb gone))))"

definition check_got :: "GIOPMessageQueueEntry \<Rightarrow> (nat \<Rightarrow> bool) \<Rightarrow> bool" where
  "check_got e dead \<longleftrightarrow> ent_buffer e \<noteq> None \<or> (case ent_cnx e of None \<Rightarrow> True | Some c \<Rightarrow> dead c)"

text \<open>CORBA reply status \<open>CORBA_SYSTEM_EXCEPTION\<close>.\<close>

definition CORBA_SYSTEM_EXCEPTION :: u32 where "CORBA_SYSTEM_EXCEPTION = 2"

text \<open>
  \<open>handle_reply\<close>: the new queue, the entry that got the buffer, the events, and the
  return value.
\<close>

fun split_first :: "('a \<Rightarrow> bool) \<Rightarrow> 'a list \<Rightarrow> ('a list \<times> 'a \<times> 'a list) option" where
  "split_first P [] = None"
| "split_first P (x # xs) =
     (if P x then Some ([], x, xs)
      else (case split_first P xs of None \<Rightarrow> None | Some (a, y, b) \<Rightarrow> Some (x # a, y, b)))"

record reply_result =
  rr_queue :: queue
  rr_delivered :: "GIOPMessageQueueEntry option"
  rr_events :: "event list"
  rr_error :: bool

definition handle_reply :: "bool \<Rightarrow> queue \<Rightarrow> GIOPRecvBuffer \<Rightarrow> reply_result" where
  "handle_reply io q buf =
     (let rid = giop_recv_buffer_get_request_id buf in
      case split_first (\<lambda>e. ent_request_id e = rid \<and> ent_msg_type e = message_type (header buf)) q of
        None \<Rightarrow>
          \<lparr>rr_queue = q, rr_delivered = None, rr_events = [],
           rr_error = (giop_recv_buffer_reply_status buf \<noteq> CORBA_SYSTEM_EXCEPTION)\<rparr>
      | Some (xs, ent, ys) \<Rightarrow>
          (if ent_cnx ent \<noteq> connection buf then
             \<lparr>rr_queue = q, rr_delivered = None, rr_events = [], rr_error = True\<rparr>
           else
             (let e = ent\<lparr>ent_buffer := Some buf\<rparr> in
              \<lparr>rr_queue = xs @ ys, rr_delivered = Some e,
               rr_events = (if io \<and> \<not> async_cb ent then [Ev_signal (ent_id ent) GIOP_REPLY]
                            else if async_cb ent then [Ev_async e] else []),
               rr_error = False\<rparr>)))"

section \<open>Reading a connection\<close>

text \<open>
  The header as it stands in memory: four magic octets, two version octets, flags, type
  and the size in the sender's byte order.
\<close>

definition parse_header :: "byte list \<Rightarrow> GIOPMsgHeader" where
  "parse_header h =
     \<lparr>magic = take 4 h, version = (h ! 4, h ! 5), flags = h ! 6, message_type = h ! 7,
      message_size = of_le32 (drop 8 h)\<rparr>"

definition version_of :: "byte \<times> byte \<Rightarrow> GIOPVersion option" where
  "version_of v =
     (if fst v = 1 then
        (if snd v = 0 then Some GIOP_1_0 else if snd v = 1 then Some GIOP_1_1
         else if snd v = 2 then Some GIOP_1_2 else None)
      else None)"

text \<open>\<open>giop_recv_msg_reading_body\<close>; \<open>None\<close> is its \<open>TRUE\<close>.\<close>

definition giop_recv_msg_reading_body ::
    "(nat \<Rightarrow> u64 option) \<Rightarrow> int \<Rightarrow> bool \<Rightarrow> GIOPRecvBuffer \<Rightarrow> GIOPRecvBuffer option" where
  "giop_recv_msg_reading_body try_alloc limit is_auth buf =
     (let h = header buf in
      if magic h \<noteq> [0x47, 0x49, 0x4F, 0x50] then None
      else if message_type h \<ge> GIOP_NUM_MSG_TYPES then None
      else (case version_of (version h) of
              None \<Rightarrow> None
            | Some v \<Rightarrow>
                (let size = (if giop_endian_conversion_needed (flags h)
                             then swap32 (message_size h) else message_size h);
                     buf1 = buf\<lparr>giop_version := v, header := h\<lparr>message_size := size\<rparr>\<rparr>
                 in if \<not> is_auth \<and> uint size > limit then None
                    else alloc_buffer try_alloc buf1 [] (ucast size))))"

text \<open>
  The state: the message being read and the fragment sets of the connection, the list of
  outstanding requests, and the entries that left that list with their reply (their
  owners hold them and look at \<open>buffer\<close>).
\<close>

record input_state =
  incoming_msg :: "GIOPRecvBuffer option"
  incoming_frags :: frags
  queued :: queue
  answered :: queue

text \<open>The environment of a connection: its identity, whether it is authenticated, the limit.\<close>

record input_env =
  cnx_id :: nat
  is_auth :: bool
  msg_limit :: int
  try_alloc :: "nat \<Rightarrow> u64 option"
  thread_io :: bool

text \<open>A result of \<open>link_connection_read\<close>: bytes (none is \<open>0\<close>), or a hangup (\<open>n < 0\<close>).\<close>

datatype read_result = Bytes "byte list" | Hup

definition msg_error :: "input_state \<Rightarrow> input_state \<times> event list" where
  "msg_error st = (st\<lparr>incoming_msg := None\<rparr>, [Ev_disconnect])"

text \<open>The dispatch at the end of \<open>giop_connection_handle_input\<close>.\<close>

definition dispatch :: "input_env \<Rightarrow> input_state \<Rightarrow> GIOPRecvBuffer \<Rightarrow> input_state \<times> event list" where
  "dispatch env st0 buf =
     (let st = st0\<lparr>incoming_msg := None\<rparr>; mt = message_type (header buf) in
      if mt = GIOP_REPLY \<or> mt = GIOP_LOCATEREPLY then
        (let r = handle_reply (thread_io env) (queued st) buf
         in (st\<lparr>queued := rr_queue r,
               answered := (case rr_delivered r of Some e \<Rightarrow> e # answered st | None \<Rightarrow> answered st)\<rparr>,
             rr_events r @ (if rr_error r then [Ev_disconnect] else [])))
      else if mt = GIOP_REQUEST then (st, [Ev_handle_request buf])
      else if mt = GIOP_LOCATEREQUEST then (st, [Ev_handle_locate_request buf])
      else if mt = GIOP_CANCELREQUEST \<or> mt = GIOP_MESSAGEERROR then (st, [])
      else if mt = GIOP_CLOSECONNECTION then (st, [Ev_disconnect])
      else msg_error st)"

text \<open>
  What happens when the bytes asked for have all arrived: the step of the buffer's state
  machine. The loop continues with \<open>Continue\<close>, leaves to the dispatch with
  \<open>Finished\<close>, leaves the function with \<open>Stop\<close>.
\<close>

datatype step = Continue GIOPRecvBuffer | Finished GIOPRecvBuffer frags | FragOut frags | Error frags | Crash

definition body_complete :: "input_env \<Rightarrow> frags \<Rightarrow> GIOPRecvBuffer \<Rightarrow> step" where
  "body_complete env fs buf0 =
     (let buf = buf0\<lparr>rcur := message_body buf0 + 12\<rparr> in
      if ptr_over (rcur buf) (rend buf) (ucast (message_size (header buf))) then Error fs
      else (case giop_recv_buffer_demarshal (buf\<lparr>buf_state := GIOP_MSG_READY\<rparr>) of
              Inl _ \<Rightarrow> Error fs
            | Inr buf \<Rightarrow>
                (if MORE_FRAGMENTS_FOLLOW buf then
                   (case giop_recv_buffer_handle_fragmented (try_alloc env) (msg_limit env) (is_auth env) fs buf of
                      Done r \<Rightarrow> if fr_error r then Error (fr_frags r) else FragOut (fr_frags r)
                    | _ \<Rightarrow> Crash)
                 else if message_type (header buf) = GIOP_FRAGMENT then
                   (case giop_recv_buffer_handle_fragmented (try_alloc env) (msg_limit env) (is_auth env) fs buf of
                      Done r \<Rightarrow> if fr_error r then Error (fr_frags r) else Finished (fr_buf r) (fr_frags r)
                    | _ \<Rightarrow> Crash)
                 else Finished buf fs)))"

text \<open>
  The next turn of the loop asks \<open>link_connection_read\<close> for the whole body, with the
  length in an \<open>int\<close>: a body from \<open>2 ^ 31\<close> bytes on is a negative length, which the
  kernel refuses with \<open>-1\<close>, and \<open>g_assert (n <= len)\<close> fails unless the length is \<open>-1\<close> too.
\<close>

definition read_body :: "frags \<Rightarrow> GIOPRecvBuffer \<Rightarrow> step" where
  "read_body fs b =
     (let len = (ucast (left_to_read b) :: u32) in
      if left_to_read b = 0 then Finished b fs
      else if 0 \<le> sint len then Continue b
      else if -1 \<le> sint len then Error fs
      else Crash)"

lemma sint_small:
  fixes w :: u32
  assumes "unat w < 2 ^ 31"
  shows "0 \<le> sint w"
proof -
  have "int (unat w) < int (2 ^ 31)" using assms by (simp only: of_nat_less_iff)
  then have u: "uint w < 2 ^ 31" by simp
  have m: "uint w = sint w mod 2 ^ 32" using uint_sint [of w] by (simp add: take_bit_eq_mod)
  have l: "- (2 ^ 31) \<le> sint w" using sint_greater_eq [of w] by simp
  show ?thesis
  proof (rule ccontr)
    assume n: "\<not> 0 \<le> sint w"
    have "sint w mod 2 ^ 32 = (sint w + 2 ^ 32) mod 2 ^ 32" by simp
    also have "\<dots> = sint w + 2 ^ 32" by (rule mod_pos_pos_trivial) (use l n in simp_all)
    finally show False using u m l by simp
  qed
qed

lemma ucast_back: "(ucast (ucast (w :: u32) :: u64) :: u32) = w"
  by transfer (simp add: take_bit_take_bit)

definition complete_step :: "input_env \<Rightarrow> frags \<Rightarrow> GIOPRecvBuffer \<Rightarrow> step" where
  "complete_step env fs buf =
     (case buf_state buf of
        GIOP_MSG_READING_HEADER \<Rightarrow>
          (case giop_recv_msg_reading_body (try_alloc env) (msg_limit env) (is_auth env)
                  (buf\<lparr>header := parse_header (hdr_mem buf)\<rparr>) of
             None \<Rightarrow> Error fs
           | Some b \<Rightarrow> read_body fs (b\<lparr>buf_state := GIOP_MSG_READING_BODY\<rparr>))
      | GIOP_MSG_READING_BODY \<Rightarrow> body_complete env fs buf
      | _ \<Rightarrow> Crash)"

text \<open>The bytes of one read go to \<open>cur\<close>: into the header, later into the body.\<close>

definition take_in :: "GIOPRecvBuffer \<Rightarrow> byte list \<Rightarrow> GIOPRecvBuffer" where
  "take_in buf bs =
     (if buf_state buf = GIOP_MSG_READING_HEADER
      then buf\<lparr>hdr_mem := hdr_mem buf @ bs, left_to_read := left_to_read buf - of_nat (length bs)\<rparr>
      else (deposit buf (rcur buf) bs)
             \<lparr>rcur := rcur buf + of_nat (length bs),
              left_to_read := left_to_read buf - of_nat (length bs)\<rparr>)"

text \<open>
  \<open>giop_connection_handle_input\<close> over what the socket holds: segments of bytes and
  possibly a hangup. A read returns at most \<open>left_to_read\<close> bytes of the first segment and
  leaves the rest; an empty socket (or segment) is a read that would block. The result
  holds the state, the events, what is left in the socket, and whether the process lives.
\<close>

definition current_msg :: "input_env \<Rightarrow> input_state \<Rightarrow> GIOPRecvBuffer" where
  "current_msg env st =
     (case incoming_msg st of Some b \<Rightarrow> b | None \<Rightarrow> giop_recv_buffer_use_buf (Some (cnx_id env)))"

definition push_back :: "byte list \<Rightarrow> read_result list \<Rightarrow> read_result list" where
  "push_back bs rs = (if bs = [] then rs else Bytes bs # rs)"

fun read_weight :: "read_result list \<Rightarrow> nat" where
  "read_weight [] = 0"
| "read_weight (Bytes bs # rs) = Suc (length bs) + read_weight rs"
| "read_weight (Hup # rs) = Suc (read_weight rs)"

type_synonym input_result = "input_state \<times> event list \<times> read_result list \<times> bool"

function (sequential) giop_connection_handle_input ::
    "input_env \<Rightarrow> input_state \<Rightarrow> read_result list \<Rightarrow> input_result" where
  "giop_connection_handle_input env st [] =
     (st\<lparr>incoming_msg := Some (current_msg env st)\<rparr>, [], [], True)"
| "giop_connection_handle_input env st (Hup # rs) =
     (case msg_error st of (s, ev) \<Rightarrow> (s, ev, rs, True))"
| "giop_connection_handle_input env st (Bytes seg # rs) =
     (let buf = current_msg env st;
          n = unat (left_to_read buf);
          bs = take n seg;
          rs' = push_back (drop n seg) rs
      in if bs = [] then (st\<lparr>incoming_msg := Some buf\<rparr>, [], rs, True)
         else
           (let buf = take_in buf bs in
            if left_to_read buf \<noteq> 0 then
              giop_connection_handle_input env (st\<lparr>incoming_msg := Some buf\<rparr>) rs'
            else
              (case complete_step env (incoming_frags st) buf of
                 Continue b \<Rightarrow> giop_connection_handle_input env (st\<lparr>incoming_msg := Some b\<rparr>) rs'
               | Finished b fs \<Rightarrow>
                   (case dispatch env (st\<lparr>incoming_frags := fs\<rparr>) b of (s, ev) \<Rightarrow> (s, ev, rs', True))
               | FragOut fs \<Rightarrow> (st\<lparr>incoming_msg := None, incoming_frags := fs\<rparr>, [], rs', True)
               | Error fs \<Rightarrow>
                   (case msg_error (st\<lparr>incoming_frags := fs\<rparr>) of (s, ev) \<Rightarrow> (s, ev, rs', True))
               | Crash \<Rightarrow> (st\<lparr>incoming_msg := Some buf\<rparr>, [], rs', False))))"
  by pat_completeness auto

lemma push_back_weight:
  "take n seg \<noteq> [] \<Longrightarrow> read_weight (push_back (drop n seg) rs) < Suc (length seg + read_weight rs)"
  by (cases "drop n seg = []") (auto simp: push_back_def)

termination giop_connection_handle_input
  by (relation "measure (\<lambda>(env, st, rs). read_weight rs)") (auto simp: push_back_weight)

declare giop_connection_handle_input.simps [simp del]

end
