(* ===== verification/Giop_Machine.thy ===== *)
theory Giop_Machine
  imports Giop_Input
begin

text \<open>
  The receiving loop against a reference: \<open>feed\<close> takes one byte at a time and never sees
  how the bytes were cut into reads. \<open>msg_inv\<close> is the invariant of a half-read message,
  kept by every step; it makes the loop of \<open>giop_connection_handle_input\<close> and the
  reference agree.
\<close>

fun tokens :: "read_result list \<Rightarrow> byte option list" where
  "tokens [] = []"
| "tokens (Bytes bs # rs) = map Some bs @ tokens rs"
| "tokens (Hup # rs) = None # tokens rs"

definition no_empty :: "read_result list \<Rightarrow> bool" where
  "no_empty rs \<longleftrightarrow> Bytes [] \<notin> set rs"

definition after_last :: "input_env \<Rightarrow> input_state \<Rightarrow> GIOPRecvBuffer \<Rightarrow>
    (input_state \<Rightarrow> input_state \<times> event list \<times> 'a \<times> bool) \<Rightarrow> 'a \<Rightarrow> input_state \<times> event list \<times> 'a \<times> bool" where
  "after_last env st buf go rest =
     (case complete_step env (incoming_frags st) buf of
        Continue b \<Rightarrow> go (st\<lparr>incoming_msg := Some b\<rparr>)
      | Finished b fs \<Rightarrow> (case dispatch env (st\<lparr>incoming_frags := fs\<rparr>) b of (s, ev) \<Rightarrow> (s, ev, rest, True))
      | FragOut fs \<Rightarrow> (st\<lparr>incoming_msg := None, incoming_frags := fs\<rparr>, [], rest, True)
      | Error fs \<Rightarrow> (case msg_error (st\<lparr>incoming_frags := fs\<rparr>) of (s, ev) \<Rightarrow> (s, ev, rest, True))
      | Crash \<Rightarrow> (st\<lparr>incoming_msg := Some buf\<rparr>, [], rest, False))"

fun feed :: "input_env \<Rightarrow> input_state \<Rightarrow> byte option list \<Rightarrow>
    input_state \<times> event list \<times> byte option list \<times> bool" where
  "feed env st [] = (st\<lparr>incoming_msg := Some (current_msg env st)\<rparr>, [], [], True)"
| "feed env st (None # ts) = (case msg_error st of (s, ev) \<Rightarrow> (s, ev, ts, True))"
| "feed env st (Some b # ts) =
     (let buf = take_in (current_msg env st) [b] in
      if left_to_read buf \<noteq> 0 then feed env (st\<lparr>incoming_msg := Some buf\<rparr>) ts
      else after_last env st buf (\<lambda>s. feed env s ts) ts)"

section \<open>The invariant of a half-read message\<close>

definition cur_off :: "GIOPRecvBuffer \<Rightarrow> nat" where
  "cur_off b = unat (rcur b - message_body b)"

definition msg_inv :: "GIOPRecvBuffer \<Rightarrow> bool" where
  "msg_inv b \<longleftrightarrow>
     (case buf_state b of
        GIOP_MSG_READING_HEADER \<Rightarrow> length (hdr_mem b) < 12 \<and> unat (left_to_read b) = 12 - length (hdr_mem b)
      | GIOP_MSG_READING_BODY \<Rightarrow>
          0 < unat (left_to_read b) \<and> cur_off b + unat (left_to_read b) \<le> length (body_mem b) \<and>
          length (body_mem b) < 2 ^ 64
      | _ \<Rightarrow> False)"

definition state_inv :: "input_state \<Rightarrow> bool" where
  "state_inv st \<longleftrightarrow> (case incoming_msg st of Some b \<Rightarrow> msg_inv b | None \<Rightarrow> True)"

lemma current_inv: "state_inv st \<Longrightarrow> msg_inv (current_msg env st)"
  by (auto simp: state_inv_def current_msg_def msg_inv_def giop_recv_buffer_use_buf_def split: option.splits)

lemma msg_inv_left: "msg_inv b \<Longrightarrow> 0 < unat (left_to_read b)"
  by (auto simp: msg_inv_def split: GIOPMessageBufferState.splits)

lemma unat_minus_of_nat: "k \<le> unat (a :: u64) \<Longrightarrow> unat (a - of_nat k) = unat a - k"
proof -
  assume k: "k \<le> unat a"
  have "unat a < 2 ^ 64" using unsigned_less [of a] by simp
  with k have u: "unat (of_nat k :: u64) = k" by (simp add: unat_of_nat)
  have "of_nat k \<le> a" using k u by (simp add: word_le_nat_alt)
  with u show ?thesis by (simp add: unat_sub)
qed

lemma take_in_left [simp]: "left_to_read (take_in b bs) = left_to_read b - of_nat (length bs)"
  by (simp add: take_in_def deposit_def Let_def)

lemma take_in_state [simp]: "buf_state (take_in b bs) = buf_state b"
  by (simp add: take_in_def deposit_def Let_def)

lemma cur_off_add:
  assumes "cur_off b + k < 2 ^ 64"
  shows "unat (rcur b + of_nat k - message_body b) = cur_off b + k"
proof -
  have u: "unat (of_nat k :: u64) = k" using assms by (simp add: unat_of_nat)
  have "unat ((rcur b - message_body b) + of_nat k) = cur_off b + k"
    using assms by (simp add: unat_word_ariths cur_off_def u)
  then show ?thesis by (simp add: algebra_simps)
qed

lemma take_in_inv:
  assumes inv: "msg_inv b" and k: "length bs < unat (left_to_read b)"
  shows "msg_inv (take_in b bs)"
proof (cases "buf_state b")
  case GIOP_MSG_READING_HEADER
  with assms show ?thesis
    by (auto simp: msg_inv_def unat_minus_of_nat, simp_all add: take_in_def)
next
  case GIOP_MSG_READING_BODY
  with inv have l: "cur_off b + unat (left_to_read b) \<le> length (body_mem b)" "length (body_mem b) < 2 ^ 64"
    by (simp_all add: msg_inv_def)
  have m: "length (body_mem (take_in b bs)) = length (body_mem b)"
    using l k GIOP_MSG_READING_BODY by (simp add: take_in_def deposit_def Let_def cur_off_def)
  have "cur_off (take_in b bs) = cur_off b + length bs"
    using cur_off_add [of b "length bs"] l k GIOP_MSG_READING_BODY
    by (simp add: take_in_def deposit_def Let_def cur_off_def)
  with l k m GIOP_MSG_READING_BODY show ?thesis by (simp add: msg_inv_def unat_minus_of_nat)
qed (use inv in \<open>simp_all add: msg_inv_def\<close>)

text \<open>Two reads in a row are one read of both.\<close>

lemma take_in_append:
  assumes inv: "msg_inv b" and k: "length xs + length ys \<le> unat (left_to_read b)"
  shows "take_in (take_in b xs) ys = take_in b (xs @ ys)"
proof (cases "buf_state b")
  case GIOP_MSG_READING_HEADER
  then show ?thesis by (simp add: take_in_def)
next
  case GIOP_MSG_READING_BODY
  let ?o = "cur_off b" and ?m = "body_mem b"
  from GIOP_MSG_READING_BODY inv have l: "?o + unat (left_to_read b) \<le> length ?m" "length ?m < 2 ^ 64"
    by (simp_all add: msg_inv_def)
  have o: "unat (rcur b + of_nat (length xs) - message_body b) = ?o + length xs"
    by (rule cur_off_add) (use l k in simp)
  have "take (?o + length xs) (take ?o ?m @ xs @ drop (?o + length xs) ?m) @ ys @
      drop (?o + length xs + length ys) (take ?o ?m @ xs @ drop (?o + length xs) ?m)
      = take ?o ?m @ (xs @ ys) @ drop (?o + length (xs @ ys)) ?m"
    using l k by (cases xs) (simp_all add: min_def ac_simps)
  then show ?thesis
    using GIOP_MSG_READING_BODY o
    by (simp add: take_in_def deposit_def Let_def cur_off_def [symmetric] algebra_simps)
qed (use inv in \<open>simp_all add: msg_inv_def\<close>)

text \<open>The step to the body establishes the invariant.\<close>

lemma complete_step_inv:
  assumes "complete_step env fs buf = Continue b"
  shows "msg_inv b"
proof -
  from assms have "buf_state buf = GIOP_MSG_READING_HEADER"
    by (auto simp: complete_step_def body_complete_def Let_def split: GIOPMessageBufferState.splits
        sum.splits outcome.splits if_splits)
  with assms obtain b0 where b0: "giop_recv_msg_reading_body (try_alloc env) (msg_limit env) (is_auth env)
      (buf\<lparr>header := parse_header (hdr_mem buf)\<rparr>) = Some b0" "b = b0\<lparr>buf_state := GIOP_MSG_READING_BODY\<rparr>"
      "left_to_read b0 > 0"
    by (auto simp: complete_step_def read_body_def Let_def word_neq_0_conv split: option.splits if_splits)
  then obtain c old sz where c: "alloc_buffer (try_alloc env) c old (ucast (sz :: u32)) = Some b0"
    by (auto simp: giop_recv_msg_reading_body_def Let_def split: option.splits if_splits)
  have "unat (ucast sz :: u64) = unat sz" "unat sz < 2 ^ 32"
    using unsigned_less [of sz] by (simp_all add: unsigned_ucast_eq take_bit_nat_eq_self)
  then have u: "unat (ucast sz + 12 :: u64) = unat sz + 12" "unat (ucast sz :: u64) = unat sz"
    by (simp_all add: unat_word_ariths)
  show ?thesis
    using c b0(2,3) u \<open>unat sz < 2 ^ 32\<close>
    by (auto simp: alloc_buffer_def msg_inv_def cur_off_def realloc_bytes_def word_less_nat_alt split: option.splits)
qed


section \<open>The loop and the reference\<close>

lemma after_last_incoming:
  "after_last env (st\<lparr>incoming_msg := m\<rparr>) buf go rest = after_last env st buf go rest"
  by (cases "complete_step env (incoming_frags st) buf")
    (simp_all add: after_last_def dispatch_def msg_error_def Let_def)

lemma feed_run:
  assumes "msg_inv (current_msg env st)" and "bs \<noteq> []" and "length bs \<le> unat (left_to_read (current_msg env st))"
  shows "feed env st (map Some bs @ ts) =
    (let buf = take_in (current_msg env st) bs in
     if left_to_read buf \<noteq> 0 then feed env (st\<lparr>incoming_msg := Some buf\<rparr>) ts
     else after_last env st buf (\<lambda>s. feed env s ts) ts)"
  using assms
proof (induction bs arbitrary: st)
  case (Cons b bs)
  let ?c = "current_msg env st" let ?d = "take_in ?c [b]"
  show ?case
  proof (cases "bs = []")
    case True
    then show ?thesis by simp
  next
    case False
    then have l1: "length [b] < unat (left_to_read ?c)" using Cons.prems(3) by (cases bs) auto
    have d: "msg_inv ?d" by (rule take_in_inv [OF Cons.prems(1) l1])
    have nz: "left_to_read ?d \<noteq> 0" using msg_inv_left [OF d] by auto
    have ld: "unat (left_to_read ?d) = unat (left_to_read ?c) - 1"
      using unat_minus_of_nat [of 1 "left_to_read ?c"] l1 by simp
    let ?st = "st\<lparr>incoming_msg := Some ?d\<rparr>"
    have cm: "current_msg env ?st = ?d" by (simp add: current_msg_def)
    have ap: "take_in ?d bs = take_in ?c (b # bs)"
      using take_in_append [OF Cons.prems(1), of "[b]" bs] Cons.prems(3) by simp
    have "feed env st (map Some (b # bs) @ ts) = feed env ?st (map Some bs @ ts)"
      using nz by (simp add: Let_def)
    also have "\<dots> = (let buf = take_in ?d bs in
        if left_to_read buf \<noteq> 0 then feed env (?st\<lparr>incoming_msg := Some buf\<rparr>) ts
        else after_last env ?st buf (\<lambda>s. feed env s ts) ts)"
      using Cons.IH [of ?st] d False ld Cons.prems(3) by (simp only: cm) simp
    also have "\<dots> = (let buf = take_in ?c (b # bs) in
        if left_to_read buf \<noteq> 0 then feed env (st\<lparr>incoming_msg := Some buf\<rparr>) ts
        else after_last env st buf (\<lambda>s. feed env s ts) ts)"
      unfolding ap by (simp add: after_last_incoming Let_def)
    finally show ?thesis .
  qed
qed simp

lemma tokens_push_back [simp]: "tokens (push_back bs rs) = map Some bs @ tokens rs"
  by (simp add: push_back_def)

lemma no_empty_push_back [simp]: "no_empty (push_back bs rs) = no_empty rs"
  by (simp add: push_back_def no_empty_def)

lemma no_empty_Cons: "no_empty (r # rs) \<longleftrightarrow> r \<noteq> Bytes [] \<and> no_empty rs"
  by (auto simp: no_empty_def)

lemma handle_input_Bytes:
  fixes rs :: "read_result list"
  assumes inv: "msg_inv (current_msg env st)" and ne: "seg \<noteq> []"
  defines "n \<equiv> unat (left_to_read (current_msg env st))"
  defines "rs' \<equiv> push_back (drop n seg) rs"
  shows "giop_connection_handle_input env st (Bytes seg # rs) =
    (let buf = take_in (current_msg env st) (take n seg) in
     if left_to_read buf \<noteq> 0 then giop_connection_handle_input env (st\<lparr>incoming_msg := Some buf\<rparr>) rs'
     else after_last env st buf (\<lambda>s. giop_connection_handle_input env s rs') rs')"
proof -
  have "take n seg \<noteq> []" using msg_inv_left [OF inv] ne by (auto simp: n_def)
  then show ?thesis
    by (subst giop_connection_handle_input.simps)
      (simp add: n_def rs'_def Let_def after_last_def split: step.splits)
qed

theorem handle_input_feed:
  assumes "state_inv st" and "no_empty rs"
    and "giop_connection_handle_input env st rs = (s, ev, rest, alive)"
  shows "feed env st (tokens rs) = (s, ev, tokens rest, alive) \<and> no_empty rest \<and> (alive \<longrightarrow> state_inv s)"
  using assms
proof (induction env st rs arbitrary: s ev rest alive rule: giop_connection_handle_input.induct)
  case (1 env st)
  then show ?case
    using current_inv [of st env] by (auto simp: giop_connection_handle_input.simps state_inv_def no_empty_def)
next
  case (2 env st rs)
  then show ?case
    by (auto simp: giop_connection_handle_input.simps msg_error_def no_empty_Cons state_inv_def)
next
  case (3 env st seg rs)
  let ?c = "current_msg env st" let ?n = "unat (left_to_read ?c)"
  let ?bs = "take ?n seg" and ?rs = "push_back (drop ?n seg) rs"
  let ?d = "take_in ?c ?bs"
  have inv: "msg_inv ?c" by (rule current_inv [OF 3(3)])
  have ne: "seg \<noteq> []" "no_empty rs" using 3(4) by (auto simp: no_empty_Cons)
  have bne: "?bs \<noteq> []" using msg_inv_left [OF inv] ne(1) by auto
  have tk: "tokens (Bytes seg # rs) = map Some ?bs @ tokens ?rs"
    by (simp flip: map_append append_assoc)
  note hi = 3(5) [unfolded handle_input_Bytes [OF inv ne(1)] Let_def]
  have fd: "feed env st (tokens (Bytes seg # rs)) =
      (if left_to_read ?d \<noteq> 0 then feed env (st\<lparr>incoming_msg := Some ?d\<rparr>) (tokens ?rs)
       else after_last env st ?d (\<lambda>s. feed env s (tokens ?rs)) (tokens ?rs))"
    unfolding tk using feed_run [OF inv bne] by (simp add: Let_def)
  show ?case
  proof (cases "left_to_read ?d = 0")
    case False
    have lt: "length ?bs < ?n"
    proof (rule ccontr)
      assume "\<not> length ?bs < ?n"
      then have "length ?bs = ?n" by simp
      with False show False by simp
    qed
    have "state_inv (st\<lparr>incoming_msg := Some ?d\<rparr>)"
      using take_in_inv [OF inv lt] by (simp add: state_inv_def)
    with 3(1) [OF refl refl refl refl bne refl False] hi ne(2) False fd show ?thesis by simp
  next
    case True
    show ?thesis
    proof (cases "complete_step env (incoming_frags st) ?d")
      case (Continue b)
      have "state_inv (st\<lparr>incoming_msg := Some b\<rparr>)"
        using complete_step_inv [OF Continue] by (simp add: state_inv_def)
      with 3(2) [OF refl refl refl refl bne refl _ Continue] hi ne(2) True fd Continue show ?thesis
        by (simp add: after_last_def)
    next
      case (Finished b fs)
      with hi True fd ne(2) show ?thesis
        by (auto simp: after_last_def dispatch_def msg_error_def state_inv_def Let_def split: prod.splits if_splits)
    qed (use hi True fd ne(2) in \<open>auto simp: after_last_def msg_error_def state_inv_def\<close>)
  qed
qed

section \<open>Property: the reads do not matter\<close>

text \<open>
  C11. The way the transport cuts a byte stream into reads is invisible: for two sequences
  of non-empty reads of the same bytes (and hangups), \<open>giop_connection_handle_input\<close>
  ends in the same state with the same deliveries, leaves the same bytes in the socket, and
  lives or aborts alike; and the invariant of the half-read message is kept.
\<close>

theorem segmentation_invisible:
  assumes "state_inv st" and "no_empty rs" and "no_empty rs'" and "tokens rs = tokens rs'"
    and "giop_connection_handle_input env st rs = (s, ev, rest, alive)"
    and "giop_connection_handle_input env st rs' = (s', ev', rest', alive')"
  shows "s = s' \<and> ev = ev' \<and> alive = alive' \<and> tokens rest = tokens rest' \<and> (alive \<longrightarrow> state_inv s)"
  using handle_input_feed [OF assms(1,2,5)] handle_input_feed [OF assms(1,3,6)] assms(4) by auto

theorem segmentation_invisible_witness:
  "let env = \<lparr>cnx_id = 1, is_auth = False, msg_limit = 1000, try_alloc = (\<lambda>n. Some 8), thread_io = False\<rparr>;
       st = \<lparr>incoming_msg = None, incoming_frags = [], queued = [], answered = []\<rparr>
   in fst (giop_connection_handle_input env st [Bytes [0x47, 0x49], Bytes [0x4F]]) =
      fst (giop_connection_handle_input env st [Bytes [0x47], Bytes [0x49, 0x4F]])"
proof -
  define env where "env = \<lparr>cnx_id = 1, is_auth = False, msg_limit = 1000, try_alloc = (\<lambda>n. Some (8 :: u64)),
    thread_io = False\<rparr>"
  define st :: input_state where "st = \<lparr>incoming_msg = None, incoming_frags = [], queued = [], answered = []\<rparr>"
  let ?a = "[Bytes [0x47, 0x49], Bytes [0x4F]]" and ?b = "[Bytes [0x47], Bytes [0x49, 0x4F]]"
  obtain s ev rest alive where a: "giop_connection_handle_input env st ?a = (s, ev, rest, alive)"
    by (metis prod_cases4)
  obtain s' ev' rest' alive' where b: "giop_connection_handle_input env st ?b = (s', ev', rest', alive')"
    by (metis prod_cases4)
  have "s = s'"
    using segmentation_invisible [OF _ _ _ _ a b] by (simp add: state_inv_def st_def no_empty_def)
  then show ?thesis using a b by (simp add: env_def st_def Let_def)
qed

end
