(* ===== verification/Giop_Send.thy ===== *)
theory Giop_Send
  imports Giop_Types
begin

text \<open>
  The send buffer (\<open>src/orb/GIOP/giop-send-buffer.c\<close>). Memory is a set of blocks: the
  header struct inside the buffer, the indirect chunks the buffer owns, and blocks of the
  caller, which the buffer references without copying (\<open>len > 32\<close>); the content of the
  caller's blocks is \<open>umem\<close> of the environment, fixed while a message is built.
  \<open>BConst\<close> is memory of the caller given by its bytes (a string or an octet buffer that
  outlives the message), \<open>BTemp\<close> a local variable of a caller. A pointer is a block and
  an offset, so the test \<open>mem == lastptr\<close> compares addresses, not contents.
\<close>

section \<open>State\<close>

datatype block = BHeader | BChunk nat | BUser nat | BConst "byte list" | BTemp "byte list"

type_synonym ptr = "block \<times> nat"

text \<open>
  What the buffer finds outside itself: the global \<open>giop_blank_wire_data\<close>, the content
  \<open>g_malloc\<close> leaves in a new block of a size, and the caller's memory.
\<close>

record SendEnv =
  giop_blank_wire_data :: bool
  fresh :: "nat \<Rightarrow> byte list"
  umem :: "nat \<Rightarrow> byte list"

record iovec =
  iov_base :: ptr
  iov_len :: nat

text \<open>
  \<open>GIOPSendBuffer\<close>. \<open>iovecs\<close> holds the used vectors (\<open>num_used\<close> is its length),
  \<open>indirects\<close> the allocated chunks (\<open>num_indirects_alloced\<close> is its length, a chunk's
  \<open>size\<close> is the length of its bytes).
\<close>

record GIOPSendBuffer =
  sb_version :: "byte \<times> byte"
  sb_flags :: byte
  sb_message_type :: byte
  sb_message_size :: u32
  iovecs :: "iovec list"
  num_alloced :: nat
  lastptr :: "ptr option"
  indirect :: ptr
  indirect_left :: nat
  indirects :: "byte list list"
  num_indirects_used :: nat
  sb_giop_version :: GIOPVersion
  header_size :: u32

definition GIOP_CHUNK_ALIGN :: nat where "GIOP_CHUNK_ALIGN = 8"
definition GIOP_CHUNK_SIZE :: nat where "GIOP_CHUNK_SIZE = GIOP_CHUNK_ALIGN * 256"

text \<open>The bytes of the header struct, and of a pointer's target.\<close>

definition header_bytes :: "GIOPSendBuffer \<Rightarrow> byte list" where
  "header_bytes buf =
     [0x47, 0x49, 0x4F, 0x50, fst (sb_version buf), snd (sb_version buf),
      sb_flags buf, sb_message_type buf] @ le32 (sb_message_size buf)"

fun block_bytes :: "SendEnv \<Rightarrow> GIOPSendBuffer \<Rightarrow> block \<Rightarrow> byte list" where
  "block_bytes env buf BHeader = header_bytes buf"
| "block_bytes env buf (BChunk i) = indirects buf ! i"
| "block_bytes env buf (BUser i) = umem env i"
| "block_bytes env buf (BConst bs) = bs"
| "block_bytes env buf (BTemp bs) = bs"

definition read_mem :: "SendEnv \<Rightarrow> GIOPSendBuffer \<Rightarrow> ptr \<Rightarrow> nat \<Rightarrow> byte list" where
  "read_mem env buf p n = take n (drop (snd p) (block_bytes env buf (fst p)))"

text \<open>What \<open>writev\<close> sends.\<close>

definition wire :: "SendEnv \<Rightarrow> GIOPSendBuffer \<Rightarrow> byte list" where
  "wire env buf = concat (map (\<lambda>v. read_mem env buf (iov_base v) (iov_len v)) (iovecs buf))"

section \<open>Operations\<close>

definition ptr_add :: "ptr \<Rightarrow> nat \<Rightarrow> ptr" where
  "ptr_add p n = (fst p, snd p + n)"

definition giop_send_buffer_append_real :: "GIOPSendBuffer \<Rightarrow> ptr \<Rightarrow> nat \<Rightarrow> GIOPSendBuffer" where
  "giop_send_buffer_append_real buf mem len =
     (let vs = iovecs buf; num_used = length vs;
          buf1 =
            (if num_used \<noteq> 0 \<and> lastptr buf = Some mem then
               buf\<lparr>iovecs := vs[num_used - 1 := (vs ! (num_used - 1))
                     \<lparr>iov_len := iov_len (vs ! (num_used - 1)) + len\<rparr>]\<rparr>
             else
               buf\<lparr>num_alloced :=
                     (if num_used \<ge> num_alloced buf then max (num_alloced buf) 4 * 2
                      else num_alloced buf),
                   iovecs := vs @ [\<lparr>iov_base = mem, iov_len = len\<rparr>]\<rparr>)
      in buf1\<lparr>sb_message_size := sb_message_size buf + of_nat len,
              lastptr := Some (ptr_add mem len)\<rparr>)"

text \<open>The content of a new block of \<open>n\<close> bytes (zeroed when blanking is on).\<close>

definition new_chunk :: "SendEnv \<Rightarrow> nat \<Rightarrow> byte list" where
  "new_chunk env n = (if giop_blank_wire_data env then replicate n 0
      else take n (fresh env n @ replicate n 0))"

definition get_next_indirect ::
    "SendEnv \<Rightarrow> GIOPSendBuffer \<Rightarrow> nat \<Rightarrow> GIOPSendBuffer" where
  "get_next_indirect env buf for_size_hint =
     (let mx = num_indirects_used buf;
          buf1 =
            (if mx \<ge> length (indirects buf) then
               (let new_size =
                      (if for_size_hint \<noteq> 0 then
                         max GIOP_CHUNK_SIZE ((for_size_hint + 7) div 8 * 8)
                       else GIOP_CHUNK_SIZE)
                in buf\<lparr>indirects := indirects buf @ [new_chunk env new_size]\<rparr>)
             else buf)
      in buf1\<lparr>indirect := (BChunk mx, 0),
              indirect_left := length (indirects buf1 ! mx),
              num_indirects_used := mx + 1\<rparr>)"

text \<open>\<^verbatim>\<open>memcpy (buf->indirect, bs, len)\<close>\<close>

definition store :: "GIOPSendBuffer \<Rightarrow> ptr \<Rightarrow> byte list \<Rightarrow> GIOPSendBuffer" where
  "store buf p bs =
     (case fst p of
        BChunk i \<Rightarrow>
          buf\<lparr>indirects := (indirects buf)[i :=
             (let c = indirects buf ! i in take (snd p) c @ bs @ drop (snd p + length bs) c)]\<rparr>
      | _ \<Rightarrow> buf)"

definition bump :: "GIOPSendBuffer \<Rightarrow> nat \<Rightarrow> GIOPSendBuffer" where
  "bump buf len = buf\<lparr>indirect := ptr_add (indirect buf) len, indirect_left := indirect_left buf - len\<rparr>"

definition giop_send_buffer_append_copy ::
    "SendEnv \<Rightarrow> GIOPSendBuffer \<Rightarrow> byte list \<Rightarrow> GIOPSendBuffer" where
  "giop_send_buffer_append_copy env buf bs =
     (let len = length bs;
          buf1 = (if indirect_left buf < len then get_next_indirect env buf len else buf);
          buf2 = store buf1 (indirect buf1) bs;
          buf3 = giop_send_buffer_append_real buf2 (indirect buf2) len
      in bump buf3 len)"

definition giop_send_buffer_append ::
    "SendEnv \<Rightarrow> GIOPSendBuffer \<Rightarrow> ptr \<Rightarrow> nat \<Rightarrow> GIOPSendBuffer" where
  "giop_send_buffer_append env buf mem len =
     (if len \<le> 32 then giop_send_buffer_append_copy env buf (read_mem env buf mem len)
      else giop_send_buffer_append_real buf mem len)"

text \<open>
  \<open>p_memzero\<close> is empty unless \<open>ORBIT_PURIFY\<close> is defined, so the padding is whatever the
  chunk holds.
\<close>

definition giop_send_buffer_align ::
    "SendEnv \<Rightarrow> GIOPSendBuffer \<Rightarrow> nat \<Rightarrow> GIOPSendBuffer" where
  "giop_send_buffer_align env buf boundary =
     (let ms = unat (sb_message_size buf + header_size buf);
          align_amt = align_up boundary ms - ms
      in if align_amt \<noteq> 0 then
           (let buf1 = (if indirect_left buf < align_amt then get_next_indirect env buf 0 else buf);
                buf2 = giop_send_buffer_append_real buf1 (indirect buf1) align_amt
            in bump buf2 align_amt)
         else buf)"

text \<open>
  \<open>giop_send_buffer_append_aligned\<close> returns the address of the space; \<open>None\<close> is a null
  \<open>mem\<close>, which leaves the space as it is (\<open>p_memzero\<close> again).
\<close>

definition giop_send_buffer_append_aligned ::
    "SendEnv \<Rightarrow> GIOPSendBuffer \<Rightarrow> byte list option \<Rightarrow> nat \<Rightarrow> GIOPSendBuffer \<times> ptr" where
  "giop_send_buffer_append_aligned env buf mem align_len =
     (let buf1 = giop_send_buffer_align env buf align_len;
          buf2 = (if indirect_left buf1 < align_len then get_next_indirect env buf1 0 else buf1);
          ind = indirect buf2;
          buf3 = (case mem of Some bs \<Rightarrow> store buf2 ind (take align_len bs) | None \<Rightarrow> buf2);
          buf4 = giop_send_buffer_append_real buf3 ind align_len
      in (bump buf4 align_len, ind))"

text \<open>
  \<open>str\<close> is the C string without its terminator; \<open>p\<close> the address it is found at.
\<close>

definition giop_send_buffer_append_string ::
    "SendEnv \<Rightarrow> GIOPSendBuffer \<Rightarrow> ptr \<Rightarrow> byte list \<Rightarrow> GIOPSendBuffer" where
  "giop_send_buffer_append_string env buf p str =
     (let len = (of_nat (length str + 1) :: u32);
          buf1 = giop_send_buffer_align env buf 4
      in if indirect_left buf1 \<ge> unat (4 + len) then
           (let ind = indirect buf1;
                buf2 = store buf1 ind (le32 len @ take (unat len) (str @ [0]));
                buf3 = giop_send_buffer_append_real buf2 ind (unat (4 + len))
            in bump buf3 (unat (4 + len)))
         else
           (let buf2 = giop_send_buffer_append_copy env buf1 (le32 len)
            in giop_send_buffer_append env buf2 p (unat len)))"

text \<open>
  \<open>giop_send_buffer_use\<close> takes a buffer from the free list \<open>send_buffer_list\<close> (its
  fields as the last user left them) or makes one, and puts the header in.
\<close>

definition blank_chunks :: "SendEnv \<Rightarrow> GIOPSendBuffer \<Rightarrow> byte list list" where
  "blank_chunks env buf =
     (if giop_blank_wire_data env then
        map (\<lambda>c. replicate (length c) 0) (take (num_indirects_used buf) (indirects buf))
          @ drop (num_indirects_used buf) (indirects buf)
      else indirects buf)"

definition new_send_buffer :: GIOPSendBuffer where
  "new_send_buffer =
     \<lparr>sb_version = (0, 0), sb_flags = GIOP_FLAG_ENDIANNESS, sb_message_type = 0,
      sb_message_size = 0, iovecs = [], num_alloced = 8, lastptr = None,
      indirect = (BTemp [], 0), indirect_left = 0, indirects = [], num_indirects_used = 0,
      sb_giop_version = GIOP_1_0, header_size = 0\<rparr>"

definition giop_send_buffer_use ::
    "SendEnv \<Rightarrow> GIOPSendBuffer list \<Rightarrow> GIOPVersion \<Rightarrow> GIOPSendBuffer \<times> GIOPSendBuffer list" where
  "giop_send_buffer_use env send_buffer_list v =
     (let (buf, rest) =
            (case send_buffer_list of
               b # bs \<Rightarrow>
                 (b\<lparr>iovecs := [], indirect_left := 0, indirects := blank_chunks env b,
                    num_indirects_used := 0\<rparr>, bs)
             | [] \<Rightarrow> (new_send_buffer, []));
          buf1 = buf\<lparr>sb_version := giop_version_ids v, sb_giop_version := v\<rparr>;
          buf2 = giop_send_buffer_append_real buf1 (BHeader, 0) 12
      in (buf2\<lparr>sb_message_size := 0, header_size := 12\<rparr>, rest))"

definition giop_send_buffer_unuse ::
    "GIOPSendBuffer list \<Rightarrow> GIOPSendBuffer \<Rightarrow> GIOPSendBuffer list" where
  "giop_send_buffer_unuse send_buffer_list buf =
     buf\<lparr>indirects :=
        map (\<lambda>c. if length c > GIOP_CHUNK_SIZE then take GIOP_CHUNK_SIZE c else c)
          (take (num_indirects_used buf) (indirects buf))
        @ drop (num_indirects_used buf) (indirects buf)\<rparr> # send_buffer_list"

section \<open>Messages\<close>

text \<open>The code set service context, marshalled at compile time.\<close>

definition iop_service_context_data :: "byte list" where
  "iop_service_context_data =
     concat (map le32 [1, 1, 12, 0x01010101, 0x05010001, 0x00010109])"

definition append_bytes :: "SendEnv \<Rightarrow> GIOPSendBuffer \<Rightarrow> byte list \<Rightarrow> GIOPSendBuffer" where
  "append_bytes env buf bs = giop_send_buffer_append env buf (BTemp bs, 0) (length bs)"

definition append_aligned32 :: "SendEnv \<Rightarrow> GIOPSendBuffer \<Rightarrow> u32 \<Rightarrow> GIOPSendBuffer" where
  "append_aligned32 env buf w = fst (giop_send_buffer_append_aligned env buf (Some (le32 w)) 4)"

text \<open>An object key: \<open>_length\<close> and \<open>_buffer\<close>; an iovec of the caller: address and length.\<close>

type_synonym okey = "u32 \<times> ptr"

definition append_objkey :: "SendEnv \<Rightarrow> GIOPSendBuffer \<Rightarrow> okey \<Rightarrow> GIOPSendBuffer" where
  "append_objkey env buf key =
     giop_send_buffer_append env (append_aligned32 env buf (fst key)) (snd key) (unat (fst key))"

definition giop_send_buffer_use_request ::
    "SendEnv \<Rightarrow> GIOPSendBuffer list \<Rightarrow> GIOPVersion \<Rightarrow> u32 \<Rightarrow> byte \<Rightarrow> okey \<Rightarrow> iovec \<Rightarrow> iovec option
      \<Rightarrow> GIOPSendBuffer \<times> GIOPSendBuffer list" where
  "giop_send_buffer_use_request env sbl v request_id response_expected objkey opvec prvec =
     (let (buf0, sbl') = giop_send_buffer_use env sbl v;
          principal = (case prvec of Some p \<Rightarrow> p | None \<Rightarrow> \<lparr>iov_base = (BTemp [0, 0, 0, 0], 0), iov_len = 4\<rparr>);
          buf = giop_send_buffer_align env (buf0\<lparr>sb_message_type := GIOP_REQUEST\<rparr>) 4
      in (case v of
            GIOP_1_2 \<Rightarrow>
              (let response_flags = (if response_expected \<noteq> 0 then 3 else 0 :: byte);
                   buf = giop_send_buffer_align env buf 4;
                   buf = append_bytes env buf (le32 request_id);
                   buf = append_bytes env buf [response_flags];
                   buf = append_bytes env buf [0, 0, 0];
                   buf = append_bytes env buf (le16 GIOP_KeyAddr);
                   buf = append_objkey env buf objkey;
                   buf = giop_send_buffer_align env buf 4;
                   buf = giop_send_buffer_append env buf (iov_base opvec) (iov_len opvec);
                   buf = append_bytes env buf iop_service_context_data
               in giop_send_buffer_align env buf 8)
          | _ \<Rightarrow>
              (let buf = append_bytes env buf iop_service_context_data;
                   buf = append_bytes env buf (le32 request_id);
                   buf = append_bytes env buf [response_expected];
                   buf = append_objkey env buf objkey;
                   buf = giop_send_buffer_align env buf 4;
                   buf = giop_send_buffer_append env buf (iov_base opvec) (iov_len opvec)
               in giop_send_buffer_append env buf (iov_base principal) (iov_len principal)), sbl'))"

definition giop_send_buffer_use_reply ::
    "SendEnv \<Rightarrow> GIOPSendBuffer list \<Rightarrow> GIOPVersion \<Rightarrow> u32 \<Rightarrow> u32
      \<Rightarrow> GIOPSendBuffer \<times> GIOPSendBuffer list" where
  "giop_send_buffer_use_reply env sbl v request_id reply_status =
     (let (buf0, sbl') = giop_send_buffer_use env sbl v;
          buf = buf0\<lparr>sb_message_type := GIOP_REPLY\<rparr>
      in (case v of
            GIOP_1_2 \<Rightarrow>
              (let buf = append_bytes env buf (le32 request_id);
                   buf = append_bytes env buf (le32 reply_status);
                   buf = append_bytes env buf iop_service_context_data
               in giop_send_buffer_align env buf 8)
          | _ \<Rightarrow>
              (let buf = append_bytes env buf iop_service_context_data;
                   buf = append_bytes env buf (le32 request_id)
               in append_bytes env buf (le32 reply_status)), sbl'))"

definition giop_send_buffer_use_locate_request ::
    "SendEnv \<Rightarrow> GIOPSendBuffer list \<Rightarrow> GIOPVersion \<Rightarrow> u32 \<Rightarrow> okey
      \<Rightarrow> GIOPSendBuffer \<times> GIOPSendBuffer list" where
  "giop_send_buffer_use_locate_request env sbl v request_id objkey =
     (let (buf0, sbl') = giop_send_buffer_use env sbl v;
          buf = buf0\<lparr>sb_message_type := GIOP_LOCATEREQUEST\<rparr>;
          buf = append_bytes env buf (le32 request_id)
      in (case v of
            GIOP_1_2 \<Rightarrow> append_objkey env (append_bytes env buf (le16 GIOP_KeyAddr)) objkey
          | _ \<Rightarrow> append_objkey env buf objkey, sbl'))"

definition giop_send_buffer_use_locate_reply ::
    "SendEnv \<Rightarrow> GIOPSendBuffer list \<Rightarrow> GIOPVersion \<Rightarrow> u32 \<Rightarrow> u32
      \<Rightarrow> GIOPSendBuffer \<times> GIOPSendBuffer list" where
  "giop_send_buffer_use_locate_reply env sbl v request_id locate_status =
     (let (buf0, sbl') = giop_send_buffer_use env sbl v;
          buf = buf0\<lparr>sb_message_type := GIOP_LOCATEREPLY\<rparr>;
          buf = append_bytes env buf (le32 request_id)
      in (append_bytes env buf (le32 locate_status), sbl'))"

definition giop_send_buffer_use_close_connection ::
    "SendEnv \<Rightarrow> GIOPSendBuffer list \<Rightarrow> GIOPVersion \<Rightarrow> GIOPSendBuffer \<times> GIOPSendBuffer list" where
  "giop_send_buffer_use_close_connection env sbl v =
     (let (buf, sbl') = giop_send_buffer_use env sbl v
      in (buf\<lparr>sb_message_type := GIOP_CLOSECONNECTION\<rparr>, sbl'))"

definition giop_send_buffer_use_message_error ::
    "SendEnv \<Rightarrow> GIOPSendBuffer list \<Rightarrow> GIOPVersion \<Rightarrow> GIOPSendBuffer \<times> GIOPSendBuffer list" where
  "giop_send_buffer_use_message_error env sbl v =
     (let (buf, sbl') = giop_send_buffer_use env sbl v
      in (buf\<lparr>sb_message_type := GIOP_MESSAGEERROR\<rparr>, sbl'))"

end
