(* ===== verification/Giop_Stream.thy ===== *)
theory Giop_Stream
  imports Giop_Send
begin

text \<open>
  The meaning of a send buffer: its payload is the concatenation of what its vectors point
  at. \<open>wf_send\<close> is its invariant (every vector points at memory that later writes leave
  alone; \<open>message_size\<close> is the length of the payload; the chunk pointer is at the end of
  what is used of the last chunk), and \<open>emits\<close> says that an operation keeps it and
  appends given bytes, however they were stored.
\<close>

definition hdr_iov :: iovec where
  "hdr_iov = \<lparr>iov_base = (BHeader, 0), iov_len = 12\<rparr>"

definition payload :: "SendEnv \<Rightarrow> GIOPSendBuffer \<Rightarrow> byte list" where
  "payload env buf = concat (map (\<lambda>v. read_mem env buf (iov_base v) (iov_len v)) (tl (iovecs buf)))"

text \<open>A region that later writes of the buffer cannot touch.\<close>

definition stable :: "SendEnv \<Rightarrow> GIOPSendBuffer \<Rightarrow> ptr \<Rightarrow> nat \<Rightarrow> bool" where
  "stable env buf p n =
     (case fst p of
        BHeader \<Rightarrow> False
      | BTemp bs \<Rightarrow> False
      | BUser i \<Rightarrow> snd p + n \<le> length (umem env i)
      | BConst bs \<Rightarrow> snd p + n \<le> length bs
      | BChunk i \<Rightarrow> i < num_indirects_used buf \<and>
          snd p + n \<le> (if num_indirects_used buf = Suc i then snd (indirect buf)
                       else length (indirects buf ! i)))"

definition chunks_ok :: "GIOPSendBuffer \<Rightarrow> bool" where
  "chunks_ok buf \<longleftrightarrow>
     num_indirects_used buf \<le> length (indirects buf) \<and>
     (\<forall>c \<in> set (indirects buf). GIOP_CHUNK_SIZE \<le> length c) \<and>
     (case num_indirects_used buf of
        0 \<Rightarrow> indirect_left buf = 0
      | Suc i \<Rightarrow> fst (indirect buf) = BChunk i \<and>
           snd (indirect buf) + indirect_left buf = length (indirects buf ! i))"

definition wf_send :: "SendEnv \<Rightarrow> GIOPSendBuffer \<Rightarrow> bool" where
  "wf_send env buf \<longleftrightarrow>
     chunks_ok buf \<and>
     (\<exists>vs. iovecs buf = hdr_iov # vs \<and>
        (\<forall>v \<in> set vs. stable env buf (iov_base v) (iov_len v)) \<and>
        sb_message_size buf = of_nat (sum_list (map iov_len vs))) \<and>
     lastptr buf = Some (ptr_add (iov_base (last (iovecs buf))) (iov_len (last (iovecs buf)))) \<and>
     header_size buf = 12"

lemma chunk_size: "GIOP_CHUNK_SIZE = 2048"
  by (simp add: GIOP_CHUNK_SIZE_def GIOP_CHUNK_ALIGN_def)

lemma stable_length: "chunks_ok buf \<Longrightarrow> stable env buf p n \<Longrightarrow> length (read_mem env buf p n) = n"
  by (cases p; cases "fst p") (auto simp: stable_def read_mem_def chunks_ok_def split: if_splits)

lemma read_mem_add:
  "read_mem env buf p (m + n) = read_mem env buf p m @ read_mem env buf (ptr_add p m) n"
  by (simp add: read_mem_def ptr_add_def take_add add.commute)

lemma wf_payload_length:
  assumes "wf_send env buf"
  shows "sb_message_size buf = of_nat (length (payload env buf))"
proof -
  from assms obtain vs where vs: "iovecs buf = hdr_iov # vs" "chunks_ok buf"
      "\<forall>v \<in> set vs. stable env buf (iov_base v) (iov_len v)"
      "sb_message_size buf = of_nat (sum_list (map iov_len vs))"
    by (auto simp: wf_send_def)
  have "length (payload env buf) = sum_list (map iov_len vs)"
    using vs(3) by (auto simp: payload_def vs(1) length_concat comp_def
        stable_length [OF vs(2)] intro!: arg_cong [where f = sum_list])
  with vs(4) show ?thesis by simp
qed

lemma wire_eq:
  assumes "wf_send env buf"
  shows "wire env buf = header_bytes buf @ payload env buf"
  using assms by (auto simp: wf_send_def wire_def payload_def hdr_iov_def read_mem_def header_bytes_def)

text \<open>Appending a stable region, wherever it lies.\<close>

lemma append_real_iovecs:
  assumes "iovecs buf = hdr_iov # vs" and "lastptr buf = Some (ptr_add (iov_base (last (iovecs buf))) (iov_len (last (iovecs buf))))"
    and "fst p \<noteq> BHeader"
  shows "\<exists>ws. iovecs (giop_send_buffer_append_real buf p n) = hdr_iov # ws \<and>
    sum_list (map iov_len ws) = sum_list (map iov_len vs) + n \<and>
    concat (map (\<lambda>v. read_mem env buf (iov_base v) (iov_len v)) ws)
      = concat (map (\<lambda>v. read_mem env buf (iov_base v) (iov_len v)) vs) @ read_mem env buf p n \<and>
    (\<forall>buf'. (\<forall>v \<in> set vs. stable env buf' (iov_base v) (iov_len v)) \<longrightarrow> stable env buf' p n
       \<longrightarrow> (\<forall>v \<in> set ws. stable env buf' (iov_base v) (iov_len v))) \<and>
    ptr_add (iov_base (last (hdr_iov # ws))) (iov_len (last (hdr_iov # ws))) = ptr_add p n"
proof (cases "lastptr buf = Some p")
  case False
  then show ?thesis
    using assms(1) by (intro exI [of _ "vs @ [\<lparr>iov_base = p, iov_len = n\<rparr>]"])
      (auto simp: giop_send_buffer_append_real_def Let_def)
next
  case True
  have ne: "vs \<noteq> []"
  proof
    assume "vs = []"
    with True assms show False by (auto simp: hdr_iov_def ptr_add_def)
  qed
  then obtain us v where vs: "vs = us @ [v]" by (cases vs rule: rev_cases) auto
  have p: "p = ptr_add (iov_base v) (iov_len v)" using True assms(1,2) by (simp add: vs)
  have st: "stable env b (iov_base v) (iov_len v) \<Longrightarrow> stable env b p n \<Longrightarrow>
      stable env b (iov_base v) (iov_len v + n)" for b
    by (auto simp: stable_def p ptr_add_def add.assoc split: block.splits if_splits)
  show ?thesis
    using True assms(1)
    by (intro exI [of _ "us @ [v\<lparr>iov_len := iov_len v + n\<rparr>]"])
      (auto simp: giop_send_buffer_append_real_def Let_def vs list_update_append nth_append
        read_mem_add p [symmetric] dest: st, simp add: p ptr_add_def)
qed


text \<open>\<open>emits env buf bs buf'\<close>: \<open>buf'\<close> is \<open>buf\<close> with \<open>bs\<close> appended to its payload.\<close>

definition statics :: "GIOPSendBuffer \<Rightarrow> (byte \<times> byte) \<times> byte \<times> byte \<times> GIOPVersion" where
  "statics buf = (sb_version buf, sb_flags buf, sb_message_type buf, sb_giop_version buf)"

definition emits :: "SendEnv \<Rightarrow> GIOPSendBuffer \<Rightarrow> byte list \<Rightarrow> GIOPSendBuffer \<Rightarrow> bool" where
  "emits env buf bs buf' \<longleftrightarrow>
     wf_send env buf' \<and> payload env buf' = payload env buf @ bs \<and> statics buf' = statics buf \<and>
     num_indirects_used buf \<le> num_indirects_used buf' \<and> (\<exists>n. num_indirects_used buf' = Suc n)"

lemma emits_trans:
  "emits env a xs b \<Longrightarrow> emits env b ys c \<Longrightarrow> emits env a (xs @ ys) c"
  by (auto simp: emits_def)

lemma append_real_simps [simp]:
  "indirect (giop_send_buffer_append_real buf p n) = indirect buf"
  "indirect_left (giop_send_buffer_append_real buf p n) = indirect_left buf"
  "indirects (giop_send_buffer_append_real buf p n) = indirects buf"
  "num_indirects_used (giop_send_buffer_append_real buf p n) = num_indirects_used buf"
  "header_size (giop_send_buffer_append_real buf p n) = header_size buf"
  "sb_message_size (giop_send_buffer_append_real buf p n) = sb_message_size buf + of_nat n"
  "lastptr (giop_send_buffer_append_real buf p n) = Some (ptr_add p n)"
  "statics (giop_send_buffer_append_real buf p n) = statics buf"
  by (simp_all add: giop_send_buffer_append_real_def Let_def statics_def)

lemma bump_simps [simp]:
  "iovecs (bump buf n) = iovecs buf" "lastptr (bump buf n) = lastptr buf"
  "indirects (bump buf n) = indirects buf" "num_indirects_used (bump buf n) = num_indirects_used buf"
  "header_size (bump buf n) = header_size buf" "sb_message_size (bump buf n) = sb_message_size buf"
  "indirect (bump buf n) = ptr_add (indirect buf) n"
  "indirect_left (bump buf n) = indirect_left buf - n" "statics (bump buf n) = statics buf"
  by (simp_all add: bump_def statics_def)

text \<open>Reading depends on the chunks and on stable regions only.\<close>

lemma read_mem_indep:
  assumes "stable env buf p n"
    and "\<And>i. fst p = BChunk i \<Longrightarrow> take (snd p + n) (indirects buf' ! i) = take (snd p + n) (indirects buf ! i)"
  shows "read_mem env buf' p n = read_mem env buf p n"
proof (cases "fst p")
  case (BChunk i)
  with assms(2) [of i] have "drop (snd p) (take (snd p + n) (indirects buf' ! i))
      = drop (snd p) (take (snd p + n) (indirects buf ! i))" by simp
  with BChunk show ?thesis by (simp add: read_mem_def drop_take)
qed (use assms(1) in \<open>auto simp: stable_def read_mem_def\<close>)

lemma stable_bump:
  "stable env buf p k \<Longrightarrow> stable env (bump buf n) p k"
  by (auto simp: stable_def ptr_add_def split: block.splits if_splits)

lemma stable_cong:
  "indirect buf' = indirect buf \<Longrightarrow> indirects buf' = indirects buf \<Longrightarrow>
   num_indirects_used buf' = num_indirects_used buf \<Longrightarrow> stable env buf' p k = stable env buf p k"
  by (cases "fst p") (simp_all add: stable_def)

lemma read_mem_cong:
  "indirects buf' = indirects buf \<Longrightarrow> fst p \<noteq> BHeader \<Longrightarrow> read_mem env buf' p k = read_mem env buf p k"
  by (cases "fst p") (auto simp: read_mem_def)

lemma concat_read_cong:
  assumes "\<And>v. v \<in> set vs \<Longrightarrow> read_mem env b (iov_base v) (iov_len v) = read_mem env c (iov_base v) (iov_len v)"
  shows "concat (map (\<lambda>v. read_mem env b (iov_base v) (iov_len v)) vs)
       = concat (map (\<lambda>v. read_mem env c (iov_base v) (iov_len v)) vs)"
  using assms by (auto intro!: arg_cong [where f = concat] map_cong)

text \<open>Appending a region that is stable once the chunk pointer has moved by \<open>m\<close>.\<close>

lemma append_region:
  assumes wf: "wf_send env buf" and nz: "num_indirects_used buf = Suc k"
    and st: "stable env (bump buf m) p n" and m: "m \<le> indirect_left buf"
  shows "emits env buf (read_mem env buf p n) (bump (giop_send_buffer_append_real buf p n) m)"
    (is "emits env buf ?bs ?b")
proof -
  from wf obtain vs where iov: "iovecs buf = hdr_iov # vs"
    and stv: "\<forall>v \<in> set vs. stable env buf (iov_base v) (iov_len v)"
    and sz: "sb_message_size buf = of_nat (sum_list (map iov_len vs))"
    and lp: "lastptr buf = Some (ptr_add (iov_base (last (iovecs buf))) (iov_len (last (iovecs buf))))"
    and ck: "chunks_ok buf" and hs: "header_size buf = 12"
    by (auto simp: wf_send_def)
  have ph: "fst p \<noteq> BHeader" using st by (auto simp: stable_def split: block.splits)
  from append_real_iovecs [OF iov lp ph, of n env] obtain ws where
    ws: "iovecs (giop_send_buffer_append_real buf p n) = hdr_iov # ws"
      "sum_list (map iov_len ws) = sum_list (map iov_len vs) + n"
      "concat (map (\<lambda>v. read_mem env buf (iov_base v) (iov_len v)) ws)
        = concat (map (\<lambda>v. read_mem env buf (iov_base v) (iov_len v)) vs) @ ?bs"
      "\<And>b. \<forall>v \<in> set vs. stable env b (iov_base v) (iov_len v) \<Longrightarrow> stable env b p n \<Longrightarrow>
         \<forall>v \<in> set ws. stable env b (iov_base v) (iov_len v)"
      "ptr_add (iov_base (last (hdr_iov # ws))) (iov_len (last (hdr_iov # ws))) = ptr_add p n"
    by blast
  have sc: "stable env ?b q j = stable env (bump buf m) q j" for q j by (rule stable_cong) simp_all
  have stw: "\<forall>v \<in> set ws. stable env ?b (iov_base v) (iov_len v)"
    using ws(4) [of "bump buf m"] stv st stable_bump unfolding sc by blast
  have pl: "payload env ?b = payload env buf @ ?bs"
  proof -
    have "payload env ?b = concat (map (\<lambda>v. read_mem env ?b (iov_base v) (iov_len v)) ws)"
      by (simp add: payload_def ws(1))
    also have "\<dots> = concat (map (\<lambda>v. read_mem env buf (iov_base v) (iov_len v)) ws)"
      using stw by (intro concat_read_cong read_mem_cong) (auto simp: stable_def split: block.splits)
    finally show ?thesis by (simp add: ws(3) payload_def iov)
  qed
  have "chunks_ok ?b" using ck m nz by (simp add: chunks_ok_def ptr_add_def)
  then have "wf_send env ?b"
    unfolding wf_send_def using stw ws(1,2,5) sz hs by auto
  then show ?thesis using pl nz by (simp add: emits_def)
qed


lemma payload_cong:
  assumes "iovecs buf' = iovecs buf"
    and "\<And>v. v \<in> set (tl (iovecs buf)) \<Longrightarrow>
      read_mem env buf' (iov_base v) (iov_len v) = read_mem env buf (iov_base v) (iov_len v)"
  shows "payload env buf' = payload env buf"
  unfolding payload_def assms(1) by (rule concat_read_cong) (rule assms(2))

text \<open>Writing at the chunk pointer.\<close>

lemma store_indirect:
  assumes wf: "wf_send env buf" and nz: "num_indirects_used buf = Suc k"
    and le: "length bs \<le> indirect_left buf"
  defines "b \<equiv> store buf (indirect buf) bs"
  shows "wf_send env b" and "payload env b = payload env buf"
    and "read_mem env b (indirect b) (length bs) = bs" and "statics b = statics buf"
    and "num_indirects_used b = num_indirects_used buf" and "indirect b = indirect buf"
    and "indirect_left b = indirect_left buf"
proof -
  let ?c = "indirects buf ! k" and ?o = "snd (indirect buf)"
  let ?c' = "take ?o ?c @ bs @ drop (?o + length bs) ?c"
  from wf nz have fi: "fst (indirect buf) = BChunk k" and ol: "?o + indirect_left buf = length ?c"
    and kl: "k < length (indirects buf)" and ck: "chunks_ok buf"
    by (auto simp: wf_send_def chunks_ok_def)
  have b: "b = buf\<lparr>indirects := (indirects buf)[k := ?c']\<rparr>"
    by (simp add: b_def store_def fi Let_def)
  have lc: "length ?c' = length ?c" using le ol by simp
  have nth: "indirects b ! i = (if i = k then ?c' else indirects buf ! i)" for i
    using kl by (simp add: b nth_list_update)
  have tk: "take j (indirects b ! i) = take j (indirects buf ! i)" if "i \<noteq> k \<or> j \<le> ?o" for i j
    using that ol by (auto simp: nth min_def)
  have len: "length (indirects b ! i) = length (indirects buf ! i)" for i
    using lc by (simp add: nth)
  have stb: "stable env b p n = stable env buf p n" for p n
    by (cases "fst p") (auto simp: stable_def len, auto simp: b)
  have rd: "read_mem env b p n = read_mem env buf p n" if st: "stable env buf p n" for p n
  proof (rule read_mem_indep [OF st])
    fix i assume "fst p = BChunk i"
    with st nz have "i \<noteq> k \<or> snd p + n \<le> ?o" by (auto simp: stable_def split: if_splits)
    then show "take (snd p + n) (indirects b ! i) = take (snd p + n) (indirects buf ! i)" by (rule tk)
  qed
  show "payload env b = payload env buf"
  proof (rule payload_cong)
    show "iovecs b = iovecs buf" by (simp add: b)
    fix v assume "v \<in> set (tl (iovecs buf))"
    with wf have "stable env buf (iov_base v) (iov_len v)" by (auto simp: wf_send_def)
    then show "read_mem env b (iov_base v) (iov_len v) = read_mem env buf (iov_base v) (iov_len v)" by (rule rd)
  qed
  have f: "num_indirects_used b = num_indirects_used buf" "indirect b = indirect buf"
    "indirect_left b = indirect_left buf" "length (indirects b) = length (indirects buf)"
    by (simp_all add: b)
  have "\<forall>c \<in> set (indirects b). GIOP_CHUNK_SIZE \<le> length c"
  proof
    fix c assume "c \<in> set (indirects b)"
    then obtain i where i: "i < length (indirects buf)" "c = indirects b ! i"
      by (auto simp: in_set_conv_nth f)
    with ck have "GIOP_CHUNK_SIZE \<le> length (indirects buf ! i)" by (simp add: chunks_ok_def)
    then show "GIOP_CHUNK_SIZE \<le> length c" by (simp add: i(2) len)
  qed
  then have "chunks_ok b"
    using ck nz unfolding chunks_ok_def f len by simp
  then show "wf_send env b"
    using wf unfolding wf_send_def stb by (simp add: b)
  show "read_mem env b (indirect b) (length bs) = bs"
    using ol le by (simp add: read_mem_def f fi nth)
qed (simp_all add: b_def store_def statics_def split: block.splits)

lemma length_new_chunk [simp]: "length (new_chunk env n) = n"
  by (auto simp: new_chunk_def min_def)

text \<open>Taking the next chunk: nothing sent so far changes, and there is room.\<close>

lemma get_next_indirect_ok:
  assumes wf: "wf_send env buf" and h: "h \<le> GIOP_CHUNK_SIZE"
  defines "b \<equiv> get_next_indirect env buf h"
  shows "wf_send env b" and "payload env b = payload env buf" and "statics b = statics buf"
    and "num_indirects_used b = Suc (num_indirects_used buf)" and "GIOP_CHUNK_SIZE \<le> indirect_left b"
    and "sb_message_size b = sb_message_size buf" and "header_size b = header_size buf"
proof -
  let ?n = "num_indirects_used buf"
  from wf have ck: "chunks_ok buf" by (simp add: wf_send_def)
  obtain cs where b: "b = buf\<lparr>indirects := cs, indirect := (BChunk ?n, 0), indirect_left := length (cs ! ?n),
        num_indirects_used := Suc ?n\<rparr>"
    and cs: "?n < length cs" "\<forall>c \<in> set cs. GIOP_CHUNK_SIZE \<le> length c"
      "\<And>i. i < ?n \<Longrightarrow> cs ! i = indirects buf ! i"
  proof (cases "?n \<ge> length (indirects buf)")
    case True
    with ck show ?thesis
      by (intro that [of "indirects buf @ [new_chunk env (if h \<noteq> 0 then
                 max GIOP_CHUNK_SIZE ((h + 7) div 8 * 8) else GIOP_CHUNK_SIZE)]"])
        (auto simp: b_def get_next_indirect_def Let_def chunks_ok_def nth_append)
  next
    case False
    with ck show ?thesis
      by (intro that [of "indirects buf"]) (auto simp: b_def get_next_indirect_def Let_def chunks_ok_def)
  qed
  have stb: "stable env b p n" if st: "stable env buf p n" for p n
    using st ck cs by (auto simp: stable_def b chunks_ok_def split: block.splits if_splits)
  have rd: "read_mem env b p n = read_mem env buf p n" if st: "stable env buf p n" for p n
    by (rule read_mem_indep [OF st]) (use st cs(3) in \<open>auto simp: stable_def b\<close>)
  show "payload env b = payload env buf"
  proof (rule payload_cong)
    show "iovecs b = iovecs buf" by (simp add: b)
    fix v assume "v \<in> set (tl (iovecs buf))"
    with wf have "stable env buf (iov_base v) (iov_len v)" by (auto simp: wf_send_def)
    then show "read_mem env b (iov_base v) (iov_len v) = read_mem env buf (iov_base v) (iov_len v)" by (rule rd)
  qed
  have "chunks_ok b" using cs by (simp add: chunks_ok_def b)
  moreover have "iovecs b = iovecs buf" "sb_message_size b = sb_message_size buf"
    "lastptr b = lastptr buf" "header_size b = header_size buf" by (simp_all add: b)
  ultimately show "wf_send env b" using wf stb unfolding wf_send_def by metis
  show "GIOP_CHUNK_SIZE \<le> indirect_left b" using cs by (simp add: b)
qed (simp_all add: b_def get_next_indirect_def Let_def statics_def)


section \<open>The operations append to the stream\<close>

lemma emits_chunk:
  assumes "wf_send env buf" and "num_indirects_used buf = Suc k" and "n \<le> indirect_left buf"
  shows "emits env buf (read_mem env buf (indirect buf) n)
    (bump (giop_send_buffer_append_real buf (indirect buf) n) n)"
  by (rule append_region [OF assms(1,2) _ assms(3)])
    (use assms in \<open>auto simp: stable_def wf_send_def chunks_ok_def ptr_add_def\<close>)

lemma emits_store:
  assumes "wf_send env buf" and "num_indirects_used buf = Suc k" and "length bs \<le> indirect_left buf"
  shows "emits env buf bs (bump (giop_send_buffer_append_real (store buf (indirect buf) bs)
           (indirect buf) (length bs)) (length bs))"
proof -
  note st = store_indirect [OF assms]
  have "emits env (store buf (indirect buf) bs) bs (bump (giop_send_buffer_append_real
      (store buf (indirect buf) bs) (indirect buf) (length bs)) (length bs))"
    using emits_chunk [OF st(1), of k "length bs"] st assms by simp
  then show ?thesis using st by (simp add: emits_def)
qed

lemma emits_from:
  assumes "emits env b bs c" and "payload env b = payload env a" and "statics b = statics a"
    and "num_indirects_used a \<le> num_indirects_used b"
  shows "emits env a bs c"
  using assms by (auto simp: emits_def)

lemma append_copy_emits:
  assumes wf: "wf_send env buf" and l: "length bs \<le> GIOP_CHUNK_SIZE"
    and ne: "bs \<noteq> [] \<or> num_indirects_used buf = Suc k"
  shows "emits env buf bs (giop_send_buffer_append_copy env buf bs)"
proof (cases "indirect_left buf < length bs")
  case True
  let ?b = "get_next_indirect env buf (length bs)"
  note g = get_next_indirect_ok [OF wf l]
  have "emits env ?b bs (giop_send_buffer_append_copy env buf bs)"
    using emits_store [OF g(1) g(4), of bs] g(1,4,5) l True store_indirect(6) [OF g(1) g(4), of bs]
    by (simp add: giop_send_buffer_append_copy_def Let_def)
  then show ?thesis by (rule emits_from) (use g in simp_all)
next
  case False
  then obtain j where "num_indirects_used buf = Suc j"
    using ne wf by (cases "num_indirects_used buf") (auto simp: wf_send_def chunks_ok_def)
  then show ?thesis
    using emits_store [OF wf, of j bs] store_indirect(6) [OF wf, of j bs] False
    by (simp add: giop_send_buffer_append_copy_def Let_def)
qed

text \<open>What a caller may pass: a local of at most 32 bytes, or a range inside one of its blocks.\<close>

definition src_bytes :: "SendEnv \<Rightarrow> ptr \<Rightarrow> nat \<Rightarrow> byte list" where
  "src_bytes env p n =
     take n (drop (snd p) (case fst p of BTemp bs \<Rightarrow> bs | BConst bs \<Rightarrow> bs | BUser i \<Rightarrow> umem env i | _ \<Rightarrow> []))"

definition src_ok :: "SendEnv \<Rightarrow> ptr \<Rightarrow> nat \<Rightarrow> bool" where
  "src_ok env p n =
     (case fst p of BTemp bs \<Rightarrow> n \<le> 32 \<and> snd p + n \<le> length bs
      | BConst bs \<Rightarrow> snd p + n \<le> length bs
      | BUser i \<Rightarrow> snd p + n \<le> length (umem env i) | _ \<Rightarrow> False)"

lemma src_read: "src_ok env p n \<Longrightarrow> read_mem env buf p n = src_bytes env p n"
  by (cases "fst p") (auto simp: src_ok_def src_bytes_def read_mem_def)

lemma length_src: "src_ok env p n \<Longrightarrow> length (src_bytes env p n) = n"
  by (cases "fst p") (auto simp: src_ok_def src_bytes_def)

lemma bump_0 [simp]: "bump buf 0 = buf"
  by (cases buf) (simp add: bump_def ptr_add_def)

lemma append_emits:
  assumes wf: "wf_send env buf" and ok: "src_ok env p n" and nz: "num_indirects_used buf = Suc k"
  shows "emits env buf (src_bytes env p n) (giop_send_buffer_append env buf p n)"
proof (cases "n \<le> 32")
  case True
  then show ?thesis
    using append_copy_emits [OF wf, of "src_bytes env p n" k] nz
    by (simp add: giop_send_buffer_append_def src_read [OF ok] length_src [OF ok] chunk_size)
next
  case False
  with ok have "stable env (bump buf 0) p n"
    by (cases "fst p") (auto simp: src_ok_def stable_def)
  from append_region [OF wf nz this] False show ?thesis
    by (simp add: giop_send_buffer_append_def src_read [OF ok])
qed

lemma append_bytes_emits:
  assumes "wf_send env buf" and "0 < length bs" and "length bs \<le> 32"
  shows "emits env buf bs (append_bytes env buf bs)"
  using append_copy_emits [OF assms(1), of bs] assms(2,3)
  by (simp add: append_bytes_def giop_send_buffer_append_def read_mem_def chunk_size)


text \<open>Alignment pads the message (header included) with some bytes of the chunk.\<close>

definition msg_len :: "SendEnv \<Rightarrow> GIOPSendBuffer \<Rightarrow> nat" where
  "msg_len env buf = 12 + length (payload env buf)"

lemma size_nat:
  assumes "wf_send env buf" and "msg_len env buf < 2 ^ 32"
  shows "unat (sb_message_size buf + header_size buf) = msg_len env buf"
proof -
  have "sb_message_size buf + header_size buf = of_nat (msg_len env buf)"
    using wf_payload_length [OF assms(1)] assms(1) by (simp add: wf_send_def msg_len_def)
  then show ?thesis using assms(2) by (simp add: unat_of_nat)
qed

lemma align_emits:
  assumes wf: "wf_send env buf" and l: "msg_len env buf < 2 ^ 32" and k: "0 < k" "k \<le> 8"
  shows "(pad k (msg_len env buf) = 0 \<and> giop_send_buffer_align env buf k = buf) \<or>
    (\<exists>p. length p = pad k (msg_len env buf) \<and> emits env buf p (giop_send_buffer_align env buf k))"
proof (cases "pad k (msg_len env buf) = 0")
  case True
  then show ?thesis by (simp add: giop_send_buffer_align_def Let_def size_nat [OF wf l] pad_def)
next
  case False
  let ?n = "pad k (msg_len env buf)"
  let ?b = "if indirect_left buf < ?n then get_next_indirect env buf 0 else buf"
  have al: "giop_send_buffer_align env buf k = bump (giop_send_buffer_append_real ?b (indirect ?b) ?n) ?n"
    using False by (simp add: giop_send_buffer_align_def Let_def size_nat [OF wf l] pad_def)
  note g = get_next_indirect_ok [OF wf, of 0]
  have b: "wf_send env ?b" "payload env ?b = payload env buf" "statics ?b = statics buf"
      "num_indirects_used buf \<le> num_indirects_used ?b" "?n \<le> indirect_left ?b"
    using g wf pad_lt [OF k(1), of "msg_len env buf"] k(2) by (auto simp: chunk_size)
  have "num_indirects_used ?b \<noteq> 0"
    using b(1,5) False by (cases "num_indirects_used ?b") (auto simp: wf_send_def chunks_ok_def)
  then obtain j where j: "num_indirects_used ?b = Suc j" by (cases "num_indirects_used ?b") auto
  have e: "emits env ?b (read_mem env ?b (indirect ?b) ?n) (giop_send_buffer_align env buf k)"
    unfolding al by (rule emits_chunk [OF b(1) j b(5)])
  have "length (read_mem env ?b (indirect ?b) ?n) = ?n"
    using b(1,5) j by (auto simp: read_mem_def wf_send_def chunks_ok_def)
  with emits_from [OF e b(2,3,4)] show ?thesis by blast
qed

lemma append_aligned_emits:
  assumes wf: "wf_send env buf" and l: "msg_len env buf < 2 ^ 32" and k: "0 < k" "k \<le> 8"
    and bs: "length bs = k"
  shows "\<exists>p. length p = pad k (msg_len env buf) \<and>
    emits env buf (p @ bs) (fst (giop_send_buffer_append_aligned env buf (Some bs) k))"
proof -
  let ?a = "giop_send_buffer_align env buf k"
  let ?b = "if indirect_left ?a < k then get_next_indirect env ?a 0 else ?a"
  obtain p where p: "length p = pad k (msg_len env buf)" "wf_send env ?a" "payload env ?a = payload env buf @ p"
      "statics ?a = statics buf" "num_indirects_used buf \<le> num_indirects_used ?a"
    using align_emits [OF wf l k] wf by (auto simp: emits_def)
  note g = get_next_indirect_ok [OF p(2), of 0]
  have b: "wf_send env ?b" "payload env ?b = payload env ?a" "statics ?b = statics ?a"
      "num_indirects_used ?a \<le> num_indirects_used ?b" "k \<le> indirect_left ?b"
    using g p(2) k(2) by (auto simp: chunk_size)
  have "num_indirects_used ?b \<noteq> 0"
    using b(1,5) k(1) by (cases "num_indirects_used ?b") (auto simp: wf_send_def chunks_ok_def)
  then obtain j where j: "num_indirects_used ?b = Suc j" by (cases "num_indirects_used ?b") auto
  have "emits env ?b bs (fst (giop_send_buffer_append_aligned env buf (Some bs) k))"
    using emits_store [OF b(1) j, of bs] b(5) bs
    by (simp add: giop_send_buffer_append_aligned_def Let_def)
  then have "emits env buf (p @ bs) (fst (giop_send_buffer_append_aligned env buf (Some bs) k))"
    using p b(2-4) by (auto simp: emits_def)
  with p(1) show ?thesis by blast
qed

lemma append_string_emits:
  assumes wf: "wf_send env buf" and l: "msg_len env buf + length str + 16 < 2 ^ 32"
    and src: "src_ok env q (length str + 1)" "src_bytes env q (length str + 1) = str @ [0]"
  shows "\<exists>p. length p = pad 4 (msg_len env buf) \<and>
    emits env buf (p @ le32 (of_nat (length str + 1)) @ str @ [0])
      (giop_send_buffer_append_string env buf q str)"
proof -
  let ?a = "giop_send_buffer_align env buf 4"
  let ?len = "of_nat (length str + 1) :: u32"
  have l0: "msg_len env buf < 2 ^ 32" using l by simp
  obtain p where p: "length p = pad 4 (msg_len env buf)" "wf_send env ?a" "payload env ?a = payload env buf @ p"
      "statics ?a = statics buf" "num_indirects_used buf \<le> num_indirects_used ?a"
    using align_emits [OF wf l0, of 4] wf by (auto simp: emits_def)
  have "length str + 5 < 2 ^ LENGTH(32)" using l by simp
  then have u: "unat ?len = length str + 1" "unat (4 + ?len) = length str + 5"
    by (simp_all add: unat_word_ariths unat_of_nat)
  let ?bs = "le32 ?len @ str @ [0]"
  have "emits env ?a ?bs (giop_send_buffer_append_string env buf q str)"
  proof (cases "indirect_left ?a \<ge> length str + 5")
    case True
    then have "num_indirects_used ?a \<noteq> 0"
      using p(2) by (cases "num_indirects_used ?a") (auto simp: wf_send_def chunks_ok_def)
    then obtain j where j: "num_indirects_used ?a = Suc j" by (cases "num_indirects_used ?a") auto
    have len: "length ?bs = length str + 5" by simp
    show ?thesis
      using emits_store [OF p(2) j, of ?bs] True
      by (simp only: giop_send_buffer_append_string_def Let_def u len if_True) simp
  next
    case False
    have e1: "emits env ?a (le32 ?len) (giop_send_buffer_append_copy env ?a (le32 ?len))"
      by (rule append_copy_emits [OF p(2)]) (auto simp: chunk_size le32_def)
    then obtain j where j: "num_indirects_used (giop_send_buffer_append_copy env ?a (le32 ?len)) = Suc j"
      by (auto simp: emits_def)
    have "giop_send_buffer_append_string env buf q str =
        giop_send_buffer_append env (giop_send_buffer_append_copy env ?a (le32 ?len)) q (length str + 1)"
      using False by (simp only: giop_send_buffer_append_string_def Let_def u if_False)
    moreover have "wf_send env (giop_send_buffer_append_copy env ?a (le32 ?len))"
      using e1 by (simp add: emits_def)
    ultimately have e2: "emits env (giop_send_buffer_append_copy env ?a (le32 ?len)) (str @ [0])
        (giop_send_buffer_append_string env buf q str)"
      using append_emits [OF _ src(1) j] unfolding src(2) by simp
    from emits_trans [OF e1 e2] show ?thesis by simp
  qed
  then have "emits env buf (p @ ?bs) (giop_send_buffer_append_string env buf q str)"
    using p by (auto simp: emits_def)
  with p(1) show ?thesis by blast
qed

end
