(* ===== verification/Giop_View.thy ===== *)
theory Giop_View
  imports Giop_Safe
begin

text \<open>
  What the receive buffer means: \<open>view be buf off r\<close> says that \<open>buf\<close> is well formed,
  that its cursor is \<open>off\<close> bytes into the message (header included), that the bytes up to
  \<open>end\<close> are \<open>r\<close>, and that the sender's byte order differs from the host's iff
  \<open>be\<close>. Each statement of the demarshallers consumes its part of \<open>r\<close>. The message
  body lies at an 8-byte aligned address, as \<open>alloc_buffer\<close> assumes, so aligning the
  address is aligning the offset.
\<close>

definition view :: "bool \<Rightarrow> GIOPRecvBuffer \<Rightarrow> nat \<Rightarrow> byte list \<Rightarrow> bool" where
  "view be buf off r \<longleftrightarrow>
     wf_buf buf \<and> giop_msg_conversion_needed buf = be \<and> 8 dvd unat (message_body buf) \<and>
     unat (rcur buf) = unat (message_body buf) + off \<and>
     r = drop off (take (unat (rend buf) - unat (message_body buf)) (body_mem buf))"

text \<open>Integers in the byte order of the sender.\<close>

definition enc32 :: "bool \<Rightarrow> u32 \<Rightarrow> byte list" where
  "enc32 be w = (if be then rev (le32 w) else le32 w)"

definition enc16 :: "bool \<Rightarrow> u16 \<Rightarrow> byte list" where
  "enc16 be w = (if be then rev (le16 w) else le16 w)"

lemma length_enc32 [simp]: "length (enc32 be w) = 4"
  by (simp add: enc32_def)

lemma length_enc16 [simp]: "length (enc16 be w) = 2"
  by (simp add: enc16_def)

lemma of_le32_take: "length bs = 4 \<Longrightarrow> of_le32 (bs @ r) = of_le32 bs"
  by (auto simp: length_Suc_conv eval_nat_numeral)

lemma dec_enc32: "(if be then swap32 (of_le32 (enc32 be w)) else of_le32 (enc32 be w)) = w"
  by (simp add: enc32_def swap32_def [symmetric])

lemma dec_enc16: "(if be then swap16 (of_le16 (enc16 be w)) else of_le16 (enc16 be w)) = w"
  by (simp add: enc16_def swap16_def [symmetric])

text \<open>One consumption rule per statement.\<close>

lemma view_align:
  assumes v: "view be buf off r" and k: "k = 1 \<or> k = 2 \<or> k = 3"
  shows "view be (align_cur (2 ^ k) buf) (off + pad (2 ^ k) off) (drop (pad (2 ^ k) off) r)"
proof -
  let ?c = "unat (rcur buf)" and ?e = "unat (rend buf)" and ?K = "(2 :: nat) ^ k"
  from v have wf: "wf_buf buf" by (simp add: view_def)
  have "align_up 8 ?e < ?e + 8" by (rule align_up_lt) simp
  then have "?c + 8 \<le> 2 ^ 64" using wf by (simp add: wf_buf_def)
  then have u: "unat (ALIGN_VALUE (rcur buf) (2 ^ k)) = align_up ?K ?c"
    using k by (intro unat_ALIGN_VALUE) auto
  have "?K dvd 8" using k by auto
  then have d: "?K dvd unat (message_body buf)" using v by (auto simp: view_def elim: dvd_trans)
  have "align_up ?K ?c = unat (message_body buf) + (off + pad ?K off)"
    using align_up_add [OF d] v by (simp add: view_def align_up_pad)
  then show ?thesis
    using v wf_align_cur [OF wf k]
    by (simp add: view_def u align_cur_def giop_msg_conversion_needed_def add.commute)
qed

lemma view_align2: "view be buf off r \<Longrightarrow> view be (align_cur 2 buf) (off + pad 2 off) (drop (pad 2 off) r)"
  using view_align [of be buf off r 1] by simp

lemma view_align4: "view be buf off r \<Longrightarrow> view be (align_cur 4 buf) (off + pad 4 off) (drop (pad 4 off) r)"
  using view_align [of be buf off r 2] by simp

lemma view_align8: "view be buf off r \<Longrightarrow> view be (align_cur 8 buf) (off + pad 8 off) (drop (pad 8 off) r)"
  using view_align [of be buf off r 3] by simp

lemma view_room:
  assumes "view be buf off r" and "n \<le> length r" "0 < n"
  shows "has_room n buf"
  using assms by (auto simp: view_def has_room_def wf_buf_def min_def split: if_splits)

lemma view_check:
  assumes "view be buf off r" and "unat n \<le> length r" and "unat n \<le> 32" and "0 < unat n"
  shows "check n buf = Inr ()"
proof -
  have r: "has_room (unat n) buf" using view_room [OF assms(1,2,4)] .
  then have "unat (rcur buf) + unat n < 2 ^ 64"
    using assms(3) by (simp add: has_room_def wf_buf_def)
  from ptr_over_nat [OF this, of "rend buf"] r show ?thesis by (simp add: check_def has_room_def)
qed

lemma view_load:
  assumes v: "view be buf off r" and n: "has_room n buf"
  shows "load buf (rcur buf) n = Inr (take n r)"
proof -
  have le: "message_body buf \<le> rcur buf"
    using v by (simp add: view_def word_le_nat_alt)
  have o: "unat (rcur buf - message_body buf) = off"
    using v unat_sub [OF le] by (simp add: view_def)
  from v n have "off + n \<le> unat (rend buf) - unat (message_body buf)"
      "off + n \<le> length (body_mem buf)"
    by (auto simp: view_def has_room_def wf_buf_def)
  with v show ?thesis by (simp add: load_def Let_def o view_def drop_take min_def)
qed

lemma view_advance:
  assumes v: "view be buf off r" and n: "has_room (unat n) buf"
  shows "view be (advance n buf) (off + unat n) (drop (unat n) r) \<and> has_room 0 (advance n buf)"
proof -
  have h: "has_room 0 (advance n buf)" using has_room_advance [OF n, of n] by simp
  have "unat (rcur buf) + unat n < 2 ^ 64" using n by (simp add: has_room_def wf_buf_def)
  then have "unat (rcur buf + n) = unat (rcur buf) + unat n" by (simp add: unat_word_ariths)
  with v h show ?thesis
    by (simp add: view_def advance_def has_room_def giop_msg_conversion_needed_def add.commute)
qed

lemma view_fetch32:
  assumes v: "view be buf off (enc32 be w @ r)"
  shows "fetch32 buf = Inr (w, advance 4 buf)" and "view be (advance 4 buf) (off + 4) r"
    and "has_room 0 (advance 4 buf)"
proof -
  have h: "has_room 4 buf" by (rule view_room [OF v]) simp_all
  have c: "giop_msg_conversion_needed buf = be" using v by (simp add: view_def)
  show "fetch32 buf = Inr (w, advance 4 buf)"
    using dec_enc32 [of be w] by (simp add: fetch32_def view_load [OF v h] Let_def c)
  show "view be (advance 4 buf) (off + 4) r" "has_room 0 (advance 4 buf)"
    using view_advance [OF v, of 4] h by simp_all
qed

lemma view_fetch16:
  assumes v: "view be buf off (enc16 be w @ r)"
  shows "fetch16 buf = Inr (w, advance 2 buf)" and "view be (advance 2 buf) (off + 2) r"
proof -
  have h: "has_room 2 buf" by (rule view_room [OF v]) simp_all
  have c: "giop_msg_conversion_needed buf = be" using v by (simp add: view_def)
  show "fetch16 buf = Inr (w, advance 2 buf)"
    using dec_enc16 [of be w] by (simp add: fetch16_def view_load [OF v h] Let_def c)
  show "view be (advance 2 buf) (off + 2) r"
    using view_advance [OF v, of 2] h by simp_all
qed

lemma view_fetch8:
  assumes v: "view be buf off (bs @ r)" and "length bs = unat n" "0 < unat n"
  shows "fetch8 n buf = Inr (hd bs, advance n buf)" and "view be (advance n buf) (off + unat n) r"
proof -
  have h: "has_room (unat n) buf" by (rule view_room [OF v]) (use assms in simp_all)
  have "has_room 1 buf" by (rule load_mono [OF h]) (use assms in simp)
  from view_load [OF v this] show "fetch8 n buf = Inr (hd bs, advance n buf)"
    using assms(2,3) by (cases bs) (auto simp: fetch8_def)
  show "view be (advance n buf) (off + unat n) r" using view_advance [OF v h] assms by simp
qed

lemma view_check_past:
  assumes v: "view be buf off (bs @ r)" and h: "has_room 0 buf" and l: "length bs = unat len"
  shows "check_past len buf = Inr ()" and "has_room (unat len) buf"
proof -
  show r: "has_room (unat len) buf"
    using h view_room [OF v, of "unat len"] l by (cases "unat len = 0") simp_all
  show "check_past len buf = Inr ()"
    using ptr_past_nat [of "rcur buf" "rend buf" "ucast len"] r
    by (auto simp: check_past_def has_room_def)
qed

lemma view_fetch_octets:
  assumes v: "view be buf off (bs @ r)" and h: "has_room 0 buf" and l: "length bs = unat len"
  shows "fetch_octets len buf = Inr (bs, advance (ucast len) buf)"
    and "view be (advance (ucast len) buf) (off + length bs) r" and "has_room 0 (advance (ucast len) buf)"
  using view_check_past [OF assms] view_load [OF v] view_advance [OF v, of "ucast len"] l
  by (simp_all add: fetch_octets_def)

section \<open>Reading whole items\<close>

text \<open>
  \<open>reads be buf m x off r\<close>: \<open>m\<close> returns \<open>x\<close> and \<open>buf\<close> with only its cursor
  moved, to offset \<open>off\<close>, where \<open>r\<close> is left.
\<close>

definition reads :: "bool \<Rightarrow> GIOPRecvBuffer \<Rightarrow> 'e + ('a \<times> GIOPRecvBuffer) \<Rightarrow> 'a \<Rightarrow> nat \<Rightarrow>
    byte list \<Rightarrow> bool" where
  "reads be buf m x off r \<longleftrightarrow>
     (\<exists>c. m = Inr (x, buf\<lparr>rcur := c\<rparr>) \<and> view be (buf\<lparr>rcur := c\<rparr>) off r \<and>
          has_room 0 (buf\<lparr>rcur := c\<rparr>))"

lemma advance_rcur [simp]: "advance n (buf\<lparr>rcur := c\<rparr>) = buf\<lparr>rcur := c + n\<rparr>"
  by (simp add: advance_def)

lemma align_rcur [simp]: "align_cur n (buf\<lparr>rcur := c\<rparr>) = buf\<lparr>rcur := ALIGN_VALUE c n\<rparr>"
  by (simp add: align_cur_def)

lemma readsI:
  assumes "m = Inr (x, b)" and "b = buf\<lparr>rcur := rcur b\<rparr>" and "view be b off r" and "has_room 0 b"
  shows "reads be buf m x off r"
  using assms unfolding reads_def by metis

lemma reads_bind:
  assumes "reads be buf m x off r"
    and "\<And>c. view be (buf\<lparr>rcur := c\<rparr>) off r \<Longrightarrow> has_room 0 (buf\<lparr>rcur := c\<rparr>) \<Longrightarrow>
      reads be (buf\<lparr>rcur := c\<rparr>) (f (x, buf\<lparr>rcur := c\<rparr>)) y off' r'"
  shows "reads be buf (andThen m f) y off' r'"
  using assms unfolding reads_def by fastforce

lemma reads_return: "view be buf off r \<Longrightarrow> has_room 0 buf \<Longrightarrow> reads be buf (Inr (x, buf)) x off r"
  by (rule readsI) simp_all

lemma reads_ulong:
  assumes "view be buf off (p @ enc32 be w @ r)" and "length p = pad 4 off"
  shows "reads be buf (demarshal_ulong buf) w (off + length p + 4) r"
proof -
  have v: "view be (align_cur 4 buf) (off + length p) (enc32 be w @ r)"
    using view_align4 [OF assms(1)] assms(2) by simp
  then have "check 4 (align_cur 4 buf) = Inr ()" by (intro view_check) auto
  then show ?thesis
    using view_fetch32 [OF v]
    by (intro readsI [of _ _ "advance 4 (align_cur 4 buf)"])
      (simp_all add: demarshal_ulong_def Let_def, simp add: align_cur_def advance_def)
qed

lemma reads_octet_seq:
  assumes "view be buf off (p @ enc32 be len @ bs @ r)" and "length p = pad 4 off"
    and "length bs = unat len"
  shows "reads be buf (demarshal_octet_seq buf) bs (off + length p + 4 + length bs) r"
  unfolding demarshal_octet_seq_def
proof (rule reads_bind [OF reads_ulong [OF assms(1,2)]], unfold split_conv)
  fix c let ?b = "buf\<lparr>rcur := c\<rparr>"
  assume v: "view be ?b (off + length p + 4) (bs @ r)" and h: "has_room 0 ?b"
  show "reads be ?b (if len = 0 then Inr ([], ?b) else fetch_octets len ?b) bs
      (off + length p + 4 + length bs) r"
  proof (cases "len = 0")
    case True
    with v h assms(3) show ?thesis by (intro readsI [of _ _ ?b]) simp_all
  next
    case False
    with view_fetch_octets [OF v h assms(3)] show ?thesis
      by (intro readsI [of _ _ "advance (ucast len) ?b"]) simp_all
  qed
qed

text \<open>The CDR encoding of a service context list at an offset (padding bytes zero).\<close>

definition enc_ulong :: "bool \<Rightarrow> nat \<Rightarrow> u32 \<Rightarrow> byte list" where
  "enc_ulong be off w = replicate (pad 4 off) 0 @ enc32 be w"

definition enc_context :: "bool \<Rightarrow> nat \<Rightarrow> IOP_ServiceContext \<Rightarrow> byte list" where
  "enc_context be off c =
     enc_ulong be off (context_id c) @ enc32 be (of_nat (length (context_data c))) @ context_data c"

fun enc_contexts :: "bool \<Rightarrow> nat \<Rightarrow> IOP_ServiceContextList \<Rightarrow> byte list" where
  "enc_contexts be off [] = []"
| "enc_contexts be off (c # cs) =
     enc_context be off c @ enc_contexts be (off + length (enc_context be off c)) cs"

definition contexts_ok :: "IOP_ServiceContextList \<Rightarrow> bool" where
  "contexts_ok cs \<longleftrightarrow> length cs < 2 ^ 32 \<and> (\<forall>c \<in> set cs. length (context_data c) < 2 ^ 32)"

lemma pad_after_ulong: "pad 4 (off + pad 4 off + 4) = 0"
  using dvd_add_pad [of 4 off] by (intro pad_dvd) simp_all

lemma reads_context:
  assumes v: "view be buf off (enc_context be off c @ r)" and l: "length (context_data c) < 2 ^ 32"
  shows "reads be buf (demarshal_ServiceContext buf) c (off + length (enc_context be off c)) r"
proof -
  let ?o = "off + pad 4 off + 4" and ?n = "of_nat (length (context_data c)) :: u32"
  have n: "length (context_data c) = unat ?n" using l by (simp add: unat_of_nat)
  have v': "view be buf off (replicate (pad 4 off) 0 @ enc32 be (context_id c) @
      enc32 be ?n @ context_data c @ r)"
    using v by (simp add: enc_context_def enc_ulong_def)
  show ?thesis
    unfolding demarshal_ServiceContext_def
  proof (rule reads_bind [OF reads_ulong [OF v']], simp, unfold split_conv)
    fix p let ?b = "buf\<lparr>rcur := p\<rparr>"
    assume vb: "view be ?b (off + length (replicate (pad 4 off) (0 :: byte)) + 4)
      (enc32 be ?n @ context_data c @ r)"
    then have vb': "view be ?b ?o ([] @ enc32 be ?n @ context_data c @ r)" by simp
    have z: "length ([] :: byte list) = pad 4 ?o" by (simp only: pad_after_ulong list.size)
    have o: "?o + length ([] :: byte list) + 4 + length (context_data c)
        = off + length (enc_context be off c)"
      by (simp add: enc_context_def enc_ulong_def)
    have eq: "\<lparr>context_id = context_id c, context_data = context_data c\<rparr> = c" by (cases c) simp
    show "reads be ?b (andThen (demarshal_octet_seq ?b)
        (\<lambda>(dat, buf). Inr (\<lparr>context_id = context_id c, context_data = dat\<rparr>, buf))) c
        (off + length (enc_context be off c)) r"
      using reads_octet_seq [OF vb' z n] unfolding o
      by (rule reads_bind) (simp add: reads_return eq)
  qed
qed

lemma reads_contexts:
  assumes "view be buf off (enc_contexts be off cs @ r)" and "has_room 0 buf"
    and "\<forall>c \<in> set cs. length (context_data c) < 2 ^ 32"
  shows "reads be buf (demarshal_contexts (length cs) buf) cs (off + length (enc_contexts be off cs)) r"
  using assms
proof (induction cs arbitrary: buf off)
  case Nil
  then show ?case by (simp add: reads_return)
next
  case (Cons c cs)
  let ?o = "off + length (enc_context be off c)"
  have v: "view be buf off (enc_context be off c @ enc_contexts be ?o cs @ r)"
    using Cons.prems(1) by simp
  have l: "length (context_data c) < 2 ^ 32" using Cons.prems(3) by simp
  show ?case
    unfolding demarshal_contexts.simps list.size(4) add_Suc_right add_0_right
  proof (rule reads_bind [OF reads_context [OF v l]], unfold split_conv)
    fix p let ?b = "buf\<lparr>rcur := p\<rparr>"
    assume b: "view be ?b ?o (enc_contexts be ?o cs @ r)" "has_room 0 ?b"
    have r: "reads be ?b (demarshal_contexts (length cs) ?b) cs (?o + length (enc_contexts be ?o cs)) r"
      using Cons.IH [OF b] Cons.prems(3) by simp
    show "reads be ?b (andThen (demarshal_contexts (length cs) ?b) (\<lambda>(cs, buf). Inr (c # cs, buf)))
        (c # cs) (off + length (enc_contexts be off (c # cs))) r"
      by (rule reads_bind [OF r]) (simp add: reads_return add.assoc)
  qed
qed

lemma reads_context_list:
  assumes v: "view be buf off (q @ enc32 be (of_nat (length cs)) @ enc_contexts be (off + length q + 4) cs @ r)"
    and q: "length q = pad 4 off" and ok: "contexts_ok cs"
  shows "reads be buf (giop_IOP_ServiceContextList_demarshal buf) cs
    (off + length q + 4 + length (enc_contexts be (off + length q + 4) cs)) r"
proof -
  let ?n = "of_nat (length cs) :: u32" and ?o = "off + length q + 4"
  have n: "unat ?n = length cs" using ok by (simp add: contexts_ok_def unat_of_nat)
  show ?thesis
    unfolding giop_IOP_ServiceContextList_demarshal_def
  proof (rule reads_bind [OF reads_ulong [OF v q]], unfold split_conv n)
    fix p let ?b = "buf\<lparr>rcur := p\<rparr>"
    assume b: "view be ?b ?o (enc_contexts be ?o cs @ r)" and h: "has_room 0 ?b"
    show "reads be ?b (demarshal_contexts (length cs) ?b) cs (?o + length (enc_contexts be ?o cs)) r"
      by (rule reads_contexts [OF b h]) (use ok in \<open>simp add: contexts_ok_def\<close>)
  qed
qed

text \<open>A target address holding an object key.\<close>

lemma reads_key_target:
  assumes v: "view be buf off (enc16 be GIOP_KeyAddr @ p @ enc32 be len @ key @ r)"
    and e: "pad 2 off = 0" and p: "length p = pad 4 (off + 2)" and l: "length key = unat len"
  shows "reads be buf (giop_GIOP_TargetAddress_demarshal buf)
    \<lparr>ta_d = GIOP_KeyAddr, ta_object_key = key\<rparr> (off + 6 + length p + length key) r"
proof -
  have v0: "view be (align_cur 2 buf) off (enc16 be GIOP_KeyAddr @ p @ enc32 be len @ key @ r)"
    using view_align2 [OF v] e by simp
  have k0: "check 2 (align_cur 2 buf) = Inr ()" by (rule view_check [OF v0]) auto
  note f0 = view_fetch16 [OF v0]
  let ?b1 = "align_cur 4 (advance 2 (align_cur 2 buf))"
  have v1: "view be ?b1 (off + 2 + length p) (enc32 be len @ key @ r)"
    using view_align4 [OF f0(2)] p by simp
  have k1: "check 4 ?b1 = Inr ()" by (rule view_check [OF v1]) auto
  note f1 = view_fetch32 [OF v1]
  note f2 = view_fetch_octets [OF f1(2) f1(3) l]
  show ?thesis
    using f2(2,3)
    by (intro readsI [of _ _ "advance (ucast len) (advance 4 ?b1)"])
      (simp_all add: giop_GIOP_TargetAddress_demarshal_def Let_def k0 f0(1) k1 f1(1) f2(1)
         add.assoc add.commute add.left_commute, simp add: align_cur_def advance_def)
qed

end
