(* ===== verification/Giop_Layout.thy ===== *)
theory Giop_Layout
  imports Giop_Stream Giop_View
begin

text \<open>
  What the message constructors of \<open>giop-send-buffer.c\<close> put on the wire. A buffer of the
  free list satisfies \<open>pool_ok\<close>; \<open>giop_send_buffer_use\<close> turns it into an empty message
  and \<open>giop_send_buffer_unuse\<close> puts it back. \<open>builds env v mt bs b\<close>: \<open>b\<close> holds a message
  of version \<open>v\<close> and type \<open>mt\<close> with payload \<open>bs\<close>.
\<close>

section \<open>The free list\<close>

definition pool_ok :: "GIOPSendBuffer \<Rightarrow> bool" where
  "pool_ok b \<longleftrightarrow> (\<forall>c \<in> set (indirects b). GIOP_CHUNK_SIZE \<le> length c) \<and> sb_flags b = GIOP_FLAG_ENDIANNESS"

definition builds :: "SendEnv \<Rightarrow> GIOPVersion \<Rightarrow> byte \<Rightarrow> byte list \<Rightarrow> GIOPSendBuffer \<Rightarrow> bool" where
  "builds env v mt bs b \<longleftrightarrow>
     wf_send env b \<and> payload env b = bs \<and>
     statics b = (giop_version_ids v, GIOP_FLAG_ENDIANNESS, mt, v) \<and>
     (bs \<noteq> [] \<longrightarrow> (\<exists>n. num_indirects_used b = Suc n))"

lemma set_blank_chunks: "c \<in> set (blank_chunks env b) \<Longrightarrow> \<exists>d \<in> set (indirects b). length c = length d"
  by (auto simp: blank_chunks_def split: if_splits dest: in_set_takeD in_set_dropD)

lemma use_builds:
  assumes "\<forall>b \<in> set sbl. pool_ok b"
  shows "builds env v mt [] ((fst (giop_send_buffer_use env sbl v))\<lparr>sb_message_type := mt\<rparr>)"
    and "\<forall>b \<in> set (snd (giop_send_buffer_use env sbl v)). pool_ok b"
proof -
  show "builds env v mt [] ((fst (giop_send_buffer_use env sbl v))\<lparr>sb_message_type := mt\<rparr>)"
  proof (cases sbl)
    case Nil
    then show ?thesis
      by (simp add: builds_def giop_send_buffer_use_def new_send_buffer_def giop_send_buffer_append_real_def Let_def
          wf_send_def chunks_ok_def payload_def statics_def hdr_iov_def)
  next
    case (Cons b bs)
    have "\<forall>c \<in> set (blank_chunks env b). GIOP_CHUNK_SIZE \<le> length c"
      using set_blank_chunks assms Cons by (fastforce simp: pool_ok_def)
    moreover have "sb_flags b = GIOP_FLAG_ENDIANNESS" using assms Cons by (simp add: pool_ok_def)
    ultimately show ?thesis
      by (simp add: Cons builds_def giop_send_buffer_use_def giop_send_buffer_append_real_def Let_def
          wf_send_def chunks_ok_def payload_def statics_def hdr_iov_def)
  qed
  show "\<forall>b \<in> set (snd (giop_send_buffer_use env sbl v)). pool_ok b"
    using assms by (cases sbl) (simp_all add: giop_send_buffer_use_def)
qed

lemma unuse_pool_ok:
  assumes "builds env v mt bs b"
  shows "pool_ok (hd (giop_send_buffer_unuse sbl b))"
proof -
  have "\<forall>c \<in> set (indirects b). GIOP_CHUNK_SIZE \<le> length c" "sb_flags b = GIOP_FLAG_ENDIANNESS"
    using assms by (auto simp: builds_def wf_send_def chunks_ok_def statics_def)
  then show ?thesis
    by (auto simp: pool_ok_def giop_send_buffer_unuse_def dest: in_set_takeD in_set_dropD)
qed

section \<open>Steps of a constructor\<close>

lemma builds_emits: "builds env v mt bs b \<Longrightarrow> emits env b xs c \<Longrightarrow> builds env v mt (bs @ xs) c"
  by (auto simp: builds_def emits_def)

lemma builds_bytes:
  "builds env v mt bs b \<Longrightarrow> 0 < length xs \<Longrightarrow> length xs \<le> 32 \<Longrightarrow>
    builds env v mt (bs @ xs) (append_bytes env b xs)"
  by (rule builds_emits [OF _ append_bytes_emits]) (auto simp: builds_def)

lemma builds_append:
  "builds env v mt bs b \<Longrightarrow> bs \<noteq> [] \<Longrightarrow> src_ok env p n \<Longrightarrow>
    builds env v mt (bs @ src_bytes env p n) (giop_send_buffer_append env b p n)"
proof -
  assume b: "builds env v mt bs b" "bs \<noteq> []" "src_ok env p n"
  then obtain k where k: "num_indirects_used b = Suc k" by (auto simp: builds_def)
  show ?thesis
    by (rule builds_emits [OF b(1) append_emits [OF _ b(3) k]]) (use b(1) in \<open>simp add: builds_def\<close>)
qed

lemma builds_align:
  assumes "builds env v mt bs b" and "length bs + 12 < 2 ^ 32" and "0 < k" "k \<le> 8"
  obtains p where "length p = pad k (12 + length bs)" "builds env v mt (bs @ p) (giop_send_buffer_align env b k)"
proof -
  have m: "msg_len env b = 12 + length bs" using assms(1) by (simp add: builds_def msg_len_def)
  from align_emits [of env b k] assms m consider
      "pad k (12 + length bs) = 0" "giop_send_buffer_align env b k = b"
    | p where "length p = pad k (12 + length bs)" "emits env b p (giop_send_buffer_align env b k)"
    by (auto simp: builds_def)
  then show thesis
    by cases (use that [of "[]"] that builds_emits [OF assms(1)] assms(1) in auto)
qed

lemma builds_aligned32:
  assumes "builds env v mt bs b" and "length bs + 12 < 2 ^ 32"
  obtains p where "length p = pad 4 (12 + length bs)" "builds env v mt (bs @ p @ le32 w) (append_aligned32 env b w)"
proof -
  have m: "msg_len env b = 12 + length bs" using assms(1) by (simp add: builds_def msg_len_def)
  from append_aligned_emits [of env b 4 "le32 w"] assms m obtain p where
    "length p = pad 4 (12 + length bs)" "emits env b (p @ le32 w) (append_aligned32 env b w)"
    by (auto simp: builds_def append_aligned32_def)
  then show thesis using that builds_emits [OF assms(1)] by blast
qed

text \<open>A key the caller may pass: at an address of its memory, or a short local.\<close>

definition key_bytes :: "SendEnv \<Rightarrow> okey \<Rightarrow> byte list" where
  "key_bytes env k = src_bytes env (snd k) (unat (fst k))"

definition key_ok :: "SendEnv \<Rightarrow> okey \<Rightarrow> bool" where
  "key_ok env k \<longleftrightarrow> src_ok env (snd k) (unat (fst k))"

lemma length_key: "key_ok env k \<Longrightarrow> length (key_bytes env k) = unat (fst k)"
  by (simp add: key_ok_def key_bytes_def length_src)

lemma builds_objkey:
  assumes "builds env v mt bs b" and "length bs + 12 < 2 ^ 32" and "key_ok env k"
  obtains p where "length p = pad 4 (12 + length bs)"
    "builds env v mt (bs @ p @ le32 (fst k) @ key_bytes env k) (append_objkey env b k)"
proof -
  obtain p where p: "length p = pad 4 (12 + length bs)"
      "builds env v mt (bs @ p @ le32 (fst k)) (append_aligned32 env b (fst k))"
    by (rule builds_aligned32 [OF assms(1,2)])
  have "builds env v mt ((bs @ p @ le32 (fst k)) @ key_bytes env k) (append_objkey env b k)"
    unfolding append_objkey_def key_bytes_def
    by (rule builds_append [OF p(2)]) (use assms(3) in \<open>auto simp: key_ok_def le32_def\<close>)
  with p(1) that show thesis by simp
qed

section \<open>Layouts\<close>

text \<open>The code set context: one service context of id 1 with twelve octets.\<close>

definition code_set_context :: IOP_ServiceContext where
  "code_set_context = \<lparr>context_id = 1, context_data = concat (map le32 [0x01010101, 0x05010001, 0x00010109])\<rparr>"

lemma length_scd: "length iop_service_context_data = 24"
  by (simp add: iop_service_context_data_def)

lemma scd_eq:
  "4 dvd off \<Longrightarrow> iop_service_context_data =
     enc32 False (of_nat (length [code_set_context])) @ enc_contexts False off [code_set_context]"
  by (simp add: iop_service_context_data_def code_set_context_def enc_context_def enc_ulong_def enc32_def pad_dvd)

lemma contexts_ok_code_set: "contexts_ok [code_set_context]"
  by (simp add: contexts_ok_def code_set_context_def)

lemma use_reply_layout:
  assumes "\<forall>b \<in> set sbl. pool_ok b"
  shows "\<exists>p. builds env v GIOP_REPLY
      (if v = GIOP_1_2 then le32 rid @ le32 st @ iop_service_context_data @ p
       else iop_service_context_data @ le32 rid @ le32 st)
      (fst (giop_send_buffer_use_reply env sbl v rid st)) \<and> length p = 4"
proof -
  note u = use_builds(1) [OF assms, of env v GIOP_REPLY]
  let ?b = "(fst (giop_send_buffer_use env sbl v))\<lparr>sb_message_type := GIOP_REPLY\<rparr>"
  show ?thesis
  proof (cases "v = GIOP_1_2")
    case True
    have b: "builds env v GIOP_REPLY ((le32 rid @ le32 st) @ iop_service_context_data)
        (append_bytes env (append_bytes env (append_bytes env ?b (le32 rid)) (le32 st)) iop_service_context_data)"
      using builds_bytes [OF builds_bytes [OF builds_bytes [OF u, of "le32 rid"], of "le32 st"],
          of iop_service_context_data]
      by (simp add: length_scd)
    obtain p where "length p = pad 8 (12 + length ((le32 rid @ le32 st) @ iop_service_context_data))"
      "builds env v GIOP_REPLY (((le32 rid @ le32 st) @ iop_service_context_data) @ p)
        (giop_send_buffer_align env (append_bytes env (append_bytes env (append_bytes env ?b (le32 rid))
          (le32 st)) iop_service_context_data) 8)"
      by (rule builds_align [OF b, of 8]) (auto simp: length_scd)
    then show ?thesis
      using True by (intro exI [of _ p])
        (simp add: giop_send_buffer_use_reply_def Let_def split_beta length_scd pad_def align_up_def)
  next
    case False
    have b: "builds env v GIOP_REPLY (iop_service_context_data @ le32 rid @ le32 st)
        (append_bytes env (append_bytes env (append_bytes env ?b iop_service_context_data) (le32 rid)) (le32 st))"
      using builds_bytes [OF builds_bytes [OF builds_bytes [OF u, of iop_service_context_data]], of "le32 rid" "le32 st"]
      by (simp add: length_scd)
    with False show ?thesis
      by (intro exI [of _ "[0, 0, 0, 0]"])
        (cases v; simp add: giop_send_buffer_use_reply_def Let_def split_beta)
  qed
qed

lemma use_locate_reply_layout:
  assumes "\<forall>b \<in> set sbl. pool_ok b"
  shows "builds env v GIOP_LOCATEREPLY (le32 rid @ le32 st) (fst (giop_send_buffer_use_locate_reply env sbl v rid st))"
  using builds_bytes [OF builds_bytes [OF use_builds(1) [OF assms, of env v GIOP_LOCATEREPLY], of "le32 rid"], of "le32 st"]
  by (simp add: giop_send_buffer_use_locate_reply_def Let_def split_beta)

lemma use_locate_request_layout:
  assumes "\<forall>b \<in> set sbl. pool_ok b" and k: "key_ok env key"
  shows "\<exists>p. builds env v GIOP_LOCATEREQUEST
      (if v = GIOP_1_2 then le32 rid @ le16 GIOP_KeyAddr @ p @ le32 (fst key) @ key_bytes env key
       else le32 rid @ le32 (fst key) @ key_bytes env key)
      (fst (giop_send_buffer_use_locate_request env sbl v rid key)) \<and> length p = 2"
proof -
  let ?b = "(fst (giop_send_buffer_use env sbl v))\<lparr>sb_message_type := GIOP_LOCATEREQUEST\<rparr>"
  have u: "builds env v GIOP_LOCATEREQUEST (le32 rid) (append_bytes env ?b (le32 rid))"
    using builds_bytes [OF use_builds(1) [OF assms(1), of env v GIOP_LOCATEREQUEST], of "le32 rid"] by simp
  show ?thesis
  proof (cases "v = GIOP_1_2")
    case True
    have u2: "builds env v GIOP_LOCATEREQUEST (le32 rid @ le16 GIOP_KeyAddr)
        (append_bytes env (append_bytes env ?b (le32 rid)) (le16 GIOP_KeyAddr))"
      by (rule builds_bytes [OF u]) simp_all
    obtain p where "length p = pad 4 (12 + length (le32 rid @ le16 GIOP_KeyAddr))"
      "builds env v GIOP_LOCATEREQUEST ((le32 rid @ le16 GIOP_KeyAddr) @ p @ le32 (fst key) @ key_bytes env key)
        (append_objkey env (append_bytes env (append_bytes env ?b (le32 rid)) (le16 GIOP_KeyAddr)) key)"
      by (rule builds_objkey [OF u2 _ k]) simp
    with True show ?thesis
      by (intro exI [of _ p])
        (simp add: giop_send_buffer_use_locate_request_def Let_def split_beta pad_def align_up_def)
  next
    case False
    obtain p where "length p = pad 4 (12 + length (le32 rid))"
      "builds env v GIOP_LOCATEREQUEST (le32 rid @ p @ le32 (fst key) @ key_bytes env key)
        (append_objkey env (append_bytes env ?b (le32 rid)) key)"
      by (rule builds_objkey [OF u _ k]) simp
    with False show ?thesis
      by (intro exI [of _ "[0, 0]"])
        (cases v; simp add: giop_send_buffer_use_locate_request_def Let_def split_beta pad_def align_up_def)
  qed
qed

text \<open>
  Requests. The caller passes the operation (its CDR string, padded to a multiple of four)
  and the principal as iovecs; a null principal is an empty one.
\<close>

definition principal_iov :: "iovec option \<Rightarrow> iovec" where
  "principal_iov pr = (case pr of Some p \<Rightarrow> p | None \<Rightarrow> \<lparr>iov_base = (BTemp [0, 0, 0, 0], 0), iov_len = 4\<rparr>)"

definition iov_bytes :: "SendEnv \<Rightarrow> iovec \<Rightarrow> byte list" where
  "iov_bytes env i = src_bytes env (iov_base i) (iov_len i)"

definition iov_ok :: "SendEnv \<Rightarrow> iovec \<Rightarrow> bool" where
  "iov_ok env i \<longleftrightarrow> src_ok env (iov_base i) (iov_len i)"

lemma builds_align_0:
  assumes "builds env v mt [] b"
  shows "builds env v mt [] (giop_send_buffer_align env b 4)"
  by (rule builds_align [OF assms, of 4]) (simp_all add: pad_def align_up_def)

lemma use_request_layout_1_1:
  assumes pool: "\<forall>b \<in> set sbl. pool_ok b" and v: "v \<noteq> GIOP_1_2" and k: "key_ok env key"
    and sz: "unat (fst key) + 64 < 2 ^ 32"
    and o: "iov_ok env opv" and pr: "iov_ok env (principal_iov prv)"
  shows "\<exists>p1 p2. length p1 = 3 \<and> length p2 = pad 4 (48 + unat (fst key)) \<and>
      builds env v GIOP_REQUEST
        (iop_service_context_data @ le32 rid @ (resp # p1) @ le32 (fst key) @ key_bytes env key @ p2 @
         iov_bytes env opv @ iov_bytes env (principal_iov prv))
        (fst (giop_send_buffer_use_request env sbl v rid resp key opv prv))"
proof -
  let ?b0 = "giop_send_buffer_align env ((fst (giop_send_buffer_use env sbl v))\<lparr>sb_message_type := GIOP_REQUEST\<rparr>) 4"
  let ?b1 = "append_bytes env (append_bytes env (append_bytes env ?b0 iop_service_context_data) (le32 rid)) [resp]"
  let ?h = "iop_service_context_data @ le32 rid @ [resp]"
  note z = builds_align_0 [OF use_builds(1) [OF pool, of env v GIOP_REQUEST]]
  have u: "builds env v GIOP_REQUEST ?h ?b1"
    using builds_bytes [OF builds_bytes [OF builds_bytes [OF z, of iop_service_context_data],
        of "le32 rid"], of "[resp]"] by (simp add: length_scd)
  obtain p1 where p1: "length p1 = pad 4 (12 + length ?h)"
    "builds env v GIOP_REQUEST (?h @ p1 @ le32 (fst key) @ key_bytes env key) (append_objkey env ?b1 key)"
    by (rule builds_objkey [OF u _ k]) (simp add: length_scd)
  have l1: "length p1 = 3" using p1(1) by (simp add: length_scd pad_def align_up_def)
  obtain p2 where p2: "length p2 = pad 4 (12 + length (?h @ p1 @ le32 (fst key) @ key_bytes env key))"
    "builds env v GIOP_REQUEST ((?h @ p1 @ le32 (fst key) @ key_bytes env key) @ p2)
      (giop_send_buffer_align env (append_objkey env ?b1 key) 4)"
    by (rule builds_align [OF p1(2), of 4]) (use sz l1 in \<open>auto simp: length_scd length_key [OF k]\<close>)
  have l2: "length p2 = pad 4 (48 + unat (fst key))"
    using p2(1) l1 by (simp add: length_scd length_key [OF k] add.commute)
  note b3 = builds_append [OF p2(2) _ o [unfolded iov_ok_def]]
  note b4 = builds_append [OF b3 _ pr [unfolded iov_ok_def]]
  show ?thesis
    by (intro exI [of _ p1] exI [of _ p2])
      (use b4 l1 l2 v in \<open>cases v; simp add: giop_send_buffer_use_request_def Let_def split_beta
        principal_iov_def iov_bytes_def cong: option.case_cong\<close>)
qed

lemma use_request_layout_1_2:
  assumes pool: "\<forall>b \<in> set sbl. pool_ok b" and k: "key_ok env key"
    and sz: "unat (fst key) + iov_len opv + 100 < 2 ^ 32" and o: "iov_ok env opv"
    and n: "n = 52 + unat (fst key) + pad 4 (28 + unat (fst key)) + iov_len opv"
  shows "\<exists>p1 p2 p3. length p1 = 2 \<and> length p2 = pad 4 (28 + unat (fst key)) \<and> length p3 = pad 8 n \<and>
      builds env GIOP_1_2 GIOP_REQUEST
        (le32 rid @ ((if resp \<noteq> 0 then 3 else 0) # [0, 0, 0]) @ le16 GIOP_KeyAddr @ p1 @
         le32 (fst key) @ key_bytes env key @ p2 @ iov_bytes env opv @ iop_service_context_data @ p3)
        (fst (giop_send_buffer_use_request env sbl GIOP_1_2 rid resp key opv prv))"
proof -
  let ?v = GIOP_1_2 and ?f = "if resp \<noteq> 0 then 3 else 0 :: byte"
  let ?b0 = "giop_send_buffer_align env ((fst (giop_send_buffer_use env sbl ?v))\<lparr>sb_message_type := GIOP_REQUEST\<rparr>) 4"
  let ?b1 = "append_bytes env (append_bytes env (append_bytes env (append_bytes env
      (giop_send_buffer_align env ?b0 4) (le32 rid)) [?f]) [0, 0, 0]) (le16 GIOP_KeyAddr)"
  let ?h = "le32 rid @ (?f # [0, 0, 0]) @ le16 GIOP_KeyAddr"
  note z = builds_align_0 [OF builds_align_0 [OF use_builds(1) [OF pool, of env ?v GIOP_REQUEST]]]
  have u: "builds env ?v GIOP_REQUEST ?h ?b1"
    using builds_bytes [OF builds_bytes [OF builds_bytes [OF builds_bytes [OF z, of "le32 rid"],
        of "[?f]"], of "[0, 0, 0]"], of "le16 GIOP_KeyAddr"] by simp
  obtain p1 where p1: "length p1 = pad 4 (12 + length ?h)"
    "builds env ?v GIOP_REQUEST (?h @ p1 @ le32 (fst key) @ key_bytes env key) (append_objkey env ?b1 key)"
    by (rule builds_objkey [OF u _ k]) simp
  have l1: "length p1 = 2" using p1(1) by (simp add: pad_def align_up_def)
  obtain p2 where p2: "length p2 = pad 4 (12 + length (?h @ p1 @ le32 (fst key) @ key_bytes env key))"
    "builds env ?v GIOP_REQUEST ((?h @ p1 @ le32 (fst key) @ key_bytes env key) @ p2)
      (giop_send_buffer_align env (append_objkey env ?b1 key) 4)"
    by (rule builds_align [OF p1(2), of 4]) (use sz l1 in \<open>auto simp: length_key [OF k]\<close>)
  have l2: "length p2 = pad 4 (28 + unat (fst key))"
    using p2(1) l1 by (simp add: length_key [OF k] add.commute)
  note b3 = builds_append [OF p2(2) _ o [unfolded iov_ok_def]]
  have lo: "length (src_bytes env (iov_base opv) (iov_len opv)) = iov_len opv"
    using o by (simp add: iov_ok_def length_src)
  let ?b4 = "append_bytes env (giop_send_buffer_append env (giop_send_buffer_align env
      (append_objkey env ?b1 key) 4) (iov_base opv) (iov_len opv)) iop_service_context_data"
  let ?pl = "?h @ p1 @ le32 (fst key) @ key_bytes env key @ p2 @ iov_bytes env opv @ iop_service_context_data"
  have b4: "builds env ?v GIOP_REQUEST ?pl ?b4"
    using builds_bytes [OF b3, of iop_service_context_data] by (simp add: length_scd iov_bytes_def)
  have ll: "12 + length ?pl = n"
    by (simp add: n l1 l2 lo length_key [OF k] length_scd iov_bytes_def)
  have "pad 4 (28 + unat (fst key)) < 4" by (rule pad_lt) simp
  with sz n have "n < 2 ^ 32" by simp
  then have lt: "length ?pl + 12 < 2 ^ 32" using ll by linarith
  obtain p3 where p3: "length p3 = pad 8 (12 + length ?pl)"
    "builds env ?v GIOP_REQUEST (?pl @ p3) (giop_send_buffer_align env ?b4 8)"
    by (rule builds_align [OF b4 lt, of 8]) auto
  have e: "fst (giop_send_buffer_use_request env sbl ?v rid resp key opv prv) = giop_send_buffer_align env ?b4 8"
    by (simp only: giop_send_buffer_use_request_def Let_def split_beta fst_conv GIOPVersion.case)
  show ?thesis
    unfolding e using p3 [unfolded ll] l1 l2 by (intro exI [of _ p1] exI [of _ p2] exI [of _ p3]) simp
qed

end
