(* ===== verification/Giop_Messages.thy ===== *)
theory Giop_Messages
  imports Giop_View
begin

text \<open>
  Each demarshaller of \<open>giop-recv-buffer.c\<close> inverts the CDR layout of its message, in
  either byte order and with any padding bytes. The offset is counted from the start of
  the GIOP header, so a message body starts at 12.
\<close>

definition decodes :: "bool \<Rightarrow> GIOPRecvBuffer \<Rightarrow> recv_error + GIOPRecvBuffer \<Rightarrow> GIOPMsgU \<Rightarrow>
    nat \<Rightarrow> byte list \<Rightarrow> bool" where
  "decodes be buf m u off r \<longleftrightarrow>
     (\<exists>c. m = Inr (buf\<lparr>rcur := c, msg_u := u\<rparr>) \<and> view be (buf\<lparr>rcur := c, msg_u := u\<rparr>) off r)"

lemma view_msg_u [simp]: "view be (buf\<lparr>msg_u := u\<rparr>) off r = view be buf off r"
  by (simp add: view_def giop_msg_conversion_needed_def)

lemma decodesI:
  assumes "m = Inr (b\<lparr>msg_u := u\<rparr>)" and "b = buf\<lparr>rcur := rcur b\<rparr>" and "view be b off r"
  shows "decodes be buf m u off r"
proof -
  obtain c where b: "b = buf\<lparr>rcur := c\<rparr>" using assms(2) by blast
  show ?thesis using assms(1,3) unfolding decodes_def b by auto
qed

lemma view_addr: "view be buf off r \<Longrightarrow> rcur buf = message_body buf + of_nat off"
proof -
  assume "view be buf off r"
  then have "of_nat (unat (rcur buf)) = (of_nat (unat (message_body buf) + off) :: u64)"
    by (simp add: view_def)
  then show ?thesis by simp
qed

lemma view_skip4:
  assumes "view be buf off (p @ r)" and "length p = pad 4 off"
  shows "view be (align_cur 4 buf) (off + length p) r"
  using view_align4 [OF assms(1)] assms(2) by simp

lemma view_aligned4:
  assumes "view be buf off r" and "4 dvd off"
  shows "view be (align_cur 4 buf) off r"
  using view_align4 [OF assms(1)] assms(2) by (simp add: pad_dvd)

lemmas cursor_defs = align_cur_def advance_def

theorem decode_cancel:
  assumes v: "view be buf off (enc32 be rid @ r)" and o: "4 dvd off"
  shows "decodes be buf (giop_recv_buffer_demarshal_cancel buf) (Msg_cancel_request rid) (off + 4) r"
proof -
  note v0 = view_aligned4 [OF v o]
  have c0: "check 4 (align_cur 4 buf) = Inr ()" by (rule view_check [OF v0]) auto
  note f1 = view_fetch32 [OF v0]
  show ?thesis
    by (rule decodesI [OF _ _ f1(2)])
      (simp_all add: giop_recv_buffer_demarshal_cancel_def Let_def c0 f1(1), simp add: cursor_defs)
qed

theorem decode_locate_reply:
  assumes v: "view be buf off (enc32 be rid @ enc32 be status @ r)" and o: "4 dvd off"
  shows "decodes be buf (giop_recv_buffer_demarshal_locate_reply_1_1 buf)
    (Msg_locate_reply_1_1 \<lparr>lp_request_id = rid, lp_locate_status = status\<rparr>) (off + 4 + 4) r"
proof -
  note v0 = view_aligned4 [OF v o]
  have c0: "check 8 (align_cur 4 buf) = Inr ()" by (rule view_check [OF v0]) auto
  note f1 = view_fetch32 [OF v0]
  note f2 = view_fetch32 [OF f1(2)]
  show ?thesis
    by (rule decodesI [OF _ _ f2(2)])
      (simp_all add: giop_recv_buffer_demarshal_locate_reply_1_1_def Let_def c0 f1(1) f2(1),
       simp add: cursor_defs)
qed

theorem decode_locate_request_1_1:
  assumes v: "view be buf off (enc32 be rid @ enc32 be len @ key @ r)" and o: "4 dvd off"
    and l: "length key = unat len"
  shows "decodes be buf (giop_recv_buffer_demarshal_locate_request_1_1 buf)
    (Msg_locate_request_1_1 \<lparr>lq1_request_id = rid, lq1_object_key = key\<rparr>)
    (off + 4 + 4 + length key) r"
proof -
  note v0 = view_aligned4 [OF v o]
  have c0: "check 8 (align_cur 4 buf) = Inr ()" by (rule view_check [OF v0]) auto
  note f1 = view_fetch32 [OF v0]
  note f2 = view_fetch32 [OF f1(2)]
  note f3 = view_fetch_octets [OF f2(2,3) l]
  show ?thesis
    by (rule decodesI [OF _ _ f3(2)])
      (simp_all add: giop_recv_buffer_demarshal_locate_request_1_1_def Let_def c0 f1(1) f2(1) f3(1),
       simp add: cursor_defs)
qed

theorem decode_locate_request_1_2:
  assumes v: "view be buf off (enc32 be rid @ enc16 be GIOP_KeyAddr @ p @ enc32 be len @ key @ r)"
    and o: "4 dvd off" and p: "length p = 2" and l: "length key = unat len"
  shows "decodes be buf (giop_recv_buffer_demarshal_locate_request_1_2 buf)
    (Msg_locate_request_1_2 \<lparr>lq2_request_id = rid,
       lq2_target = \<lparr>ta_d = GIOP_KeyAddr, ta_object_key = key\<rparr>\<rparr>)
    (off + 4 + 6 + length p + length key) r"
proof -
  note v0 = view_aligned4 [OF v o]
  have c0: "check 4 (align_cur 4 buf) = Inr ()" by (rule view_check [OF v0]) auto
  note f1 = view_fetch32 [OF v0]
  have e: "pad 2 (off + 4) = 0" using o by (intro pad_dvd) (auto elim: dvd_trans [rotated])
  have p4: "length p = pad 4 (off + 4 + 2)"
    using o p pad_add [of 4 "off + 4" 2] by (simp add: pad_def align_up_def)
  from reads_key_target [OF f1(2) e p4 l] obtain c where
    t: "giop_GIOP_TargetAddress_demarshal (advance 4 (align_cur 4 buf)) =
        Inr (\<lparr>ta_d = GIOP_KeyAddr, ta_object_key = key\<rparr>, (advance 4 (align_cur 4 buf))\<lparr>rcur := c\<rparr>)"
      "view be ((advance 4 (align_cur 4 buf))\<lparr>rcur := c\<rparr>) (off + 4 + 6 + length p + length key) r"
    unfolding reads_def by blast
  show ?thesis
    by (rule decodesI [OF _ _ t(2)])
      (simp_all add: giop_recv_buffer_demarshal_locate_request_1_2_def Let_def c0 f1(1) t(1),
       simp add: cursor_defs)
qed

theorem decode_reply_1_1:
  assumes v: "view be buf off (q @ enc32 be (of_nat (length cs)) @
      enc_contexts be (off + length q + 4) cs @ p @ enc32 be rid @ enc32 be status @ r)"
    and q: "length q = pad 4 off" and ok: "contexts_ok cs"
    and n: "n = off + length q + 4 + length (enc_contexts be (off + length q + 4) cs)"
    and p: "length p = pad 4 n"
  shows "decodes be buf (giop_recv_buffer_demarshal_reply_1_1 buf)
    (Msg_reply_1_1 \<lparr>rp_service_context = cs, rp_request_id = rid, rp_reply_status = status\<rparr>)
    (n + length p + 4 + 4) r"
proof -
  from reads_context_list [OF v q ok] obtain c where
    s: "giop_IOP_ServiceContextList_demarshal buf = Inr (cs, buf\<lparr>rcur := c\<rparr>)"
      "view be (buf\<lparr>rcur := c\<rparr>) n (p @ enc32 be rid @ enc32 be status @ r)"
    unfolding reads_def n by blast
  note v0 = view_skip4 [OF s(2) p]
  have c0: "check 8 (align_cur 4 (buf\<lparr>rcur := c\<rparr>)) = Inr ()" by (rule view_check [OF v0]) auto
  note f1 = view_fetch32 [OF v0]
  note f2 = view_fetch32 [OF f1(2)]
  show ?thesis
    by (rule decodesI [OF _ _ f2(2)])
      (simp_all add: giop_recv_buffer_demarshal_reply_1_1_def Let_def c0 [simplified] f1(1) [simplified]
        f2(1) [simplified] s(1))
qed

theorem decode_reply_1_2:
  assumes v: "view be buf off (enc32 be rid @ enc32 be status @
      enc32 be (of_nat (length cs)) @ enc_contexts be (off + 12) cs @ r)"
    and o: "4 dvd off" and ok: "contexts_ok cs"
    and n: "n = off + 12 + length (enc_contexts be (off + 12) cs)"
  shows "decodes be buf (giop_recv_buffer_demarshal_reply_1_2 buf)
    (Msg_reply_1_2 \<lparr>rp_service_context = cs, rp_request_id = rid, rp_reply_status = status\<rparr>)
    (n + pad 8 n) (drop (pad 8 n) r)"
proof -
  let ?b0 = "align_cur 4 buf"
  note v0 = view_aligned4 [OF v o]
  have c0: "check 8 ?b0 = Inr ()" by (rule view_check [OF v0]) auto
  note f1 = view_fetch32 [OF v0]
  note f2 = view_fetch32 [OF f1(2)]
  let ?b2 = "advance 4 (advance 4 ?b0)"
  have v2: "view be ?b2 (off + 8) ([] @ enc32 be (of_nat (length cs)) @
      enc_contexts be ((off + 8) + length ([] :: byte list) + 4) cs @ r)"
    using f2(2) by (simp add: add.assoc)
  have z: "length ([] :: byte list) = pad 4 (off + 8)" using o by (simp add: pad_dvd)
  from reads_context_list [OF v2 z ok] obtain c where
    s: "giop_IOP_ServiceContextList_demarshal ?b2 = Inr (cs, ?b2\<lparr>rcur := c\<rparr>)"
      "view be (?b2\<lparr>rcur := c\<rparr>) n r"
    by (auto simp: reads_def add.assoc n)
  show ?thesis
    by (rule decodesI [OF _ _ view_align8 [OF s(2)]])
      (simp_all only: giop_recv_buffer_demarshal_reply_1_2_def Let_def c0 f1(1) f2(1) s(1)
        andThen.simps split_conv, simp add: cursor_defs)
qed


text \<open>
  The statements as steps from cursor to cursor: \<open>at be buf c off r\<close> is the view of
  \<open>buf\<close> with its cursor at \<open>c\<close>.
\<close>

definition at :: "bool \<Rightarrow> GIOPRecvBuffer \<Rightarrow> u64 \<Rightarrow> nat \<Rightarrow> byte list \<Rightarrow> bool" where
  "at be buf c off r \<longleftrightarrow> view be (buf\<lparr>rcur := c\<rparr>) off r"

lemma at_skip:
  assumes "at be buf c off (p @ r)" and "length p = pad 4 off" and "off' = off + length p"
  obtains c' where "align_cur 4 (buf\<lparr>rcur := c\<rparr>) = buf\<lparr>rcur := c'\<rparr>" "at be buf c' off' r"
  using view_skip4 [of be "buf\<lparr>rcur := c\<rparr>"] assms by (simp add: at_def)

lemma at_fetch32:
  assumes "at be buf c off (enc32 be w @ r)" and "off' = off + 4"
  obtains c' where "fetch32 (buf\<lparr>rcur := c\<rparr>) = Inr (w, buf\<lparr>rcur := c'\<rparr>)" "at be buf c' off' r"
    "has_room 0 (buf\<lparr>rcur := c'\<rparr>)"
  using view_fetch32 [of be "buf\<lparr>rcur := c\<rparr>"] assms by (simp add: at_def)

lemma at_fetch8:
  assumes "at be buf c off (b # t @ r)" and "length t = 3" and "off' = off + 4"
  obtains c' where "fetch8 4 (buf\<lparr>rcur := c\<rparr>) = Inr (b, buf\<lparr>rcur := c'\<rparr>)" "at be buf c' off' r"
  using view_fetch8 [of be "buf\<lparr>rcur := c\<rparr>" off "b # t" r 4] assms by (simp add: at_def)

lemma at_octets:
  assumes "at be buf c off (bs @ r)" and "has_room 0 (buf\<lparr>rcur := c\<rparr>)" and "length bs = unat len"
    and "off' = off + length bs"
  obtains c' where "fetch_octets len (buf\<lparr>rcur := c\<rparr>) = Inr (bs, buf\<lparr>rcur := c'\<rparr>)" "at be buf c' off' r"
    "has_room 0 (buf\<lparr>rcur := c'\<rparr>)"
  using view_fetch_octets [of be "buf\<lparr>rcur := c\<rparr>"] assms by (simp add: at_def)

lemma at_skip_octets:
  assumes "at be buf c off (bs @ r)" and "has_room 0 (buf\<lparr>rcur := c\<rparr>)" and "length bs = unat len"
    and "off' = off + length bs"
  obtains c' where "check_past len (buf\<lparr>rcur := c\<rparr>) = Inr ()" "c = message_body buf + of_nat off"
    "advance (ucast len) (buf\<lparr>rcur := c\<rparr>) = buf\<lparr>rcur := c'\<rparr>" "at be buf c' off' r"
proof (rule that [of "c + ucast len"])
  note v = assms(1) [unfolded at_def]
  show "check_past len (buf\<lparr>rcur := c\<rparr>) = Inr ()" by (rule view_check_past [OF v assms(2,3)])
  show "c = message_body buf + of_nat off" using view_addr [OF v] by simp
  show "at be buf (c + ucast len) off' r"
    using view_advance [OF v, of "ucast len"] view_check_past(2) [OF v assms(2,3)] assms(3,4)
    by (simp add: at_def)
qed simp

lemma at_check: "at be buf c off r \<Longrightarrow> unat n \<le> length r \<Longrightarrow> unat n \<le> 32 \<Longrightarrow> 0 < unat n \<Longrightarrow>
    check n (buf\<lparr>rcur := c\<rparr>) = Inr ()"
  unfolding at_def by (rule view_check)

lemma at_contexts:
  assumes "at be buf c off (q @ enc32 be (of_nat (length cs)) @ enc_contexts be (off + length q + 4) cs @ r)"
    and "length q = pad 4 off" and "contexts_ok cs"
    and "off' = off + length q + 4 + length (enc_contexts be (off + length q + 4) cs)"
  obtains c' where "giop_IOP_ServiceContextList_demarshal (buf\<lparr>rcur := c\<rparr>) = Inr (cs, buf\<lparr>rcur := c'\<rparr>)"
    "at be buf c' off' r" "has_room 0 (buf\<lparr>rcur := c'\<rparr>)"
  using reads_context_list [of be "buf\<lparr>rcur := c\<rparr>" off q cs r] assms by (auto simp: reads_def at_def)

lemma at_key_target:
  assumes "at be buf c off (enc16 be GIOP_KeyAddr @ p @ enc32 be len @ key @ r)"
    and "pad 2 off = 0" and "length p = pad 4 (off + 2)" and "length key = unat len"
    and "off' = off + 6 + length p + length key"
  obtains c' where "giop_GIOP_TargetAddress_demarshal (buf\<lparr>rcur := c\<rparr>) =
      Inr (\<lparr>ta_d = GIOP_KeyAddr, ta_object_key = key\<rparr>, buf\<lparr>rcur := c'\<rparr>)" "at be buf c' off' r"
  using reads_key_target [of be "buf\<lparr>rcur := c\<rparr>" off p len key r] assms by (auto simp: reads_def at_def)

lemma at_decodes:
  "m = Inr (buf\<lparr>rcur := c, msg_u := u\<rparr>) \<Longrightarrow> at be buf c off r \<Longrightarrow> decodes be buf m u off r"
  unfolding decodes_def at_def by (auto intro: exI [of _ c])

lemma at_start: "view be buf off r \<Longrightarrow> at be buf (rcur buf) off r"
  by (simp add: at_def)

theorem decode_request_1_1:
  assumes v: "view be buf off (q @ enc32 be (of_nat (length cs)) @
      enc_contexts be (off + length q + 4) cs @ p1 @ enc32 be rid @ (resp # t) @
      enc32 be kl @ key @ p2 @ enc32 be ol @ oper @ p3 @ enc32 be pl @ princ @ r)"
    and q: "length q = pad 4 off" and ok: "contexts_ok cs" and t: "length t = 3"
    and n: "n = off + length q + 4 + length (enc_contexts be (off + length q + 4) cs)"
    and p1: "length p1 = pad 4 n" and kl: "length key = unat kl"
    and n2: "n2 = n + length p1 + 12 + length key" and p2: "length p2 = pad 4 n2"
    and n3: "n3 = n2 + length p2 + 4" and ol: "length oper = unat ol"
    and n4: "n4 = n3 + length oper" and p3: "length p3 = pad 4 n4"
    and pl: "length princ = unat pl"
  shows "decodes be buf (giop_recv_buffer_demarshal_request_1_1 buf)
    (Msg_request_1_1 \<lparr>rq1_service_context = cs, rq1_request_id = rid, rq1_response_expected = resp,
       rq1_object_key = key, rq1_operation = message_body buf + of_nat n3,
       rq1_requesting_principal = princ\<rparr>)
    (n4 + length p3 + 4 + length princ) r"
proof -
  have e5: "n + length p1 + 12 = n + length p1 + 8 + 4" by simp
  obtain c1 where s1: "giop_IOP_ServiceContextList_demarshal (buf\<lparr>rcur := rcur buf\<rparr>) = Inr (cs, buf\<lparr>rcur := c1\<rparr>)"
    and v1: "at be buf c1 n (p1 @ enc32 be rid @ (resp # t) @ enc32 be kl @ key @ p2 @ enc32 be ol @ oper @
        p3 @ enc32 be pl @ princ @ r)"
    using at_contexts [OF at_start [OF v] q ok n] .
  obtain c2 where s2: "align_cur 4 (buf\<lparr>rcur := c1\<rparr>) = buf\<lparr>rcur := c2\<rparr>"
    and v2: "at be buf c2 (n + length p1) (enc32 be rid @ (resp # t) @ enc32 be kl @ key @ p2 @ enc32 be ol @ oper @
        p3 @ enc32 be pl @ princ @ r)"
    by (rule at_skip [OF v1 p1]) auto
  have k2: "check 12 (buf\<lparr>rcur := c2\<rparr>) = Inr ()" by (rule at_check [OF v2]) (use t in auto)
  obtain c3 where s3: "fetch32 (buf\<lparr>rcur := c2\<rparr>) = Inr (rid, buf\<lparr>rcur := c3\<rparr>)"
    and v3: "at be buf c3 (n + length p1 + 4) (resp # t @ enc32 be kl @ key @ p2 @ enc32 be ol @ oper @
        p3 @ enc32 be pl @ princ @ r)"
    by (rule at_fetch32 [OF v2]) auto
  obtain c4 where s4: "fetch8 4 (buf\<lparr>rcur := c3\<rparr>) = Inr (resp, buf\<lparr>rcur := c4\<rparr>)"
    and v4: "at be buf c4 (n + length p1 + 8) (enc32 be kl @ key @ p2 @ enc32 be ol @ oper @
        p3 @ enc32 be pl @ princ @ r)"
    by (rule at_fetch8 [OF v3 t]) (simp_all only: add.assoc, simp_all)
  obtain c5 where s5: "fetch32 (buf\<lparr>rcur := c4\<rparr>) = Inr (kl, buf\<lparr>rcur := c5\<rparr>)" "has_room 0 (buf\<lparr>rcur := c5\<rparr>)"
    and v5: "at be buf c5 (n + length p1 + 12) (key @ p2 @ enc32 be ol @ oper @ p3 @ enc32 be pl @ princ @ r)"
    by (rule at_fetch32 [OF v4 e5])
  obtain c6 where s6: "fetch_octets kl (buf\<lparr>rcur := c5\<rparr>) = Inr (key, buf\<lparr>rcur := c6\<rparr>)"
    and v6: "at be buf c6 n2 (p2 @ enc32 be ol @ oper @ p3 @ enc32 be pl @ princ @ r)"
    by (rule at_octets [OF v5 s5(2) kl n2])
  obtain c7 where s7: "align_cur 4 (buf\<lparr>rcur := c6\<rparr>) = buf\<lparr>rcur := c7\<rparr>"
    and v7: "at be buf c7 (n2 + length p2) (enc32 be ol @ oper @ p3 @ enc32 be pl @ princ @ r)"
    by (rule at_skip [OF v6 p2]) auto
  have k7: "check 4 (buf\<lparr>rcur := c7\<rparr>) = Inr ()" by (rule at_check [OF v7]) auto
  obtain c8 where s8: "fetch32 (buf\<lparr>rcur := c7\<rparr>) = Inr (ol, buf\<lparr>rcur := c8\<rparr>)" "has_room 0 (buf\<lparr>rcur := c8\<rparr>)"
    and v8: "at be buf c8 n3 (oper @ p3 @ enc32 be pl @ princ @ r)"
    by (rule at_fetch32 [OF v7 n3])
  obtain c9 where s9: "check_past ol (buf\<lparr>rcur := c8\<rparr>) = Inr ()" "c8 = message_body buf + of_nat n3"
      "advance (ucast ol) (buf\<lparr>rcur := c8\<rparr>) = buf\<lparr>rcur := c9\<rparr>"
    and v9: "at be buf c9 n4 (p3 @ enc32 be pl @ princ @ r)"
    by (rule at_skip_octets [OF v8 s8(2) ol n4])
  obtain c10 where s10: "align_cur 4 (buf\<lparr>rcur := c9\<rparr>) = buf\<lparr>rcur := c10\<rparr>"
    and v10: "at be buf c10 (n4 + length p3) (enc32 be pl @ princ @ r)"
    by (rule at_skip [OF v9 p3]) auto
  have k10: "check 4 (buf\<lparr>rcur := c10\<rparr>) = Inr ()" by (rule at_check [OF v10]) auto
  obtain c11 where s11: "fetch32 (buf\<lparr>rcur := c10\<rparr>) = Inr (pl, buf\<lparr>rcur := c11\<rparr>)" "has_room 0 (buf\<lparr>rcur := c11\<rparr>)"
    and v11: "at be buf c11 (n4 + length p3 + 4) (princ @ r)"
    by (rule at_fetch32 [OF v10]) auto
  obtain c12 where s12: "fetch_octets pl (buf\<lparr>rcur := c11\<rparr>) = Inr (princ, buf\<lparr>rcur := c12\<rparr>)"
    and v12: "at be buf c12 (n4 + length p3 + 4 + length princ) r"
    by (rule at_octets [OF v11 s11(2) pl]) auto
  note st = s1 [simplified] s2 k2 s3 s4 s5(1) s6 s7 k7 s8(1) s9(1,3) s10 k10 s11(1) s12
  show ?thesis
    by (rule at_decodes [OF _ v12])
      (simp only: giop_recv_buffer_demarshal_request_1_1_def Let_def st andThen.simps split_conv, simp add: s9(2))
qed

theorem decode_request_1_2:
  assumes v: "view be buf off (enc32 be rid @ (resp # t) @ enc16 be GIOP_KeyAddr @ p1 @ enc32 be kl @ key @
      p2 @ enc32 be ol @ oper @ p3 @ enc32 be (of_nat (length cs)) @ enc_contexts be (n4 + length p3 + 4) cs @ r)"
    and o: "4 dvd off" and ok: "contexts_ok cs" and t: "length t = 3"
    and p1: "length p1 = 2" and kl: "length key = unat kl"
    and n2: "n2 = off + 16 + length key" and p2: "length p2 = pad 4 n2"
    and n3: "n3 = n2 + length p2 + 4" and ol: "length oper = unat ol"
    and n4: "n4 = n3 + length oper" and p3: "length p3 = pad 4 n4"
    and n5: "n5 = n4 + length p3 + 4 + length (enc_contexts be (n4 + length p3 + 4) cs)"
  shows "decodes be buf (giop_recv_buffer_demarshal_request_1_2 buf)
    (Msg_request_1_2 \<lparr>rq2_request_id = rid, rq2_response_flags = resp,
       rq2_target = \<lparr>ta_d = GIOP_KeyAddr, ta_object_key = key\<rparr>,
       rq2_operation = message_body buf + of_nat n3, rq2_service_context = cs\<rparr>)
    (n5 + pad 8 n5) (drop (pad 8 n5) r)"
proof -
  have z: "length ([] :: byte list) = pad 4 off" "pad 2 (off + 8) = 0" "length p1 = pad 4 (off + 8 + 2)"
    using o p1 pad_add [of 4 "off + 8" 2] pad_dvd [of 2 "off + 8"]
    by (auto simp: pad_dvd pad_def align_up_def elim: dvd_trans [rotated])
  have e6: "n2 = off + 8 + 6 + length p1 + length key" by (simp add: n2 p1)
  obtain c2 where s2: "align_cur 4 (buf\<lparr>rcur := rcur buf\<rparr>) = buf\<lparr>rcur := c2\<rparr>"
    and v2: "at be buf c2 off (enc32 be rid @ (resp # t) @ enc16 be GIOP_KeyAddr @ p1 @ enc32 be kl @ key @
      p2 @ enc32 be ol @ oper @ p3 @ enc32 be (of_nat (length cs)) @ enc_contexts be (n4 + length p3 + 4) cs @ r)"
    by (rule at_skip [of be buf "rcur buf" off "[]"]) (use at_start [OF v] z in auto)
  have k2: "check 8 (buf\<lparr>rcur := c2\<rparr>) = Inr ()" by (rule at_check [OF v2]) (use t in auto)
  obtain c3 where s3: "fetch32 (buf\<lparr>rcur := c2\<rparr>) = Inr (rid, buf\<lparr>rcur := c3\<rparr>)"
    and v3: "at be buf c3 (off + 4) (resp # t @ enc16 be GIOP_KeyAddr @ p1 @ enc32 be kl @ key @
      p2 @ enc32 be ol @ oper @ p3 @ enc32 be (of_nat (length cs)) @ enc_contexts be (n4 + length p3 + 4) cs @ r)"
    by (rule at_fetch32 [OF v2]) auto
  obtain c4 where s4: "fetch8 4 (buf\<lparr>rcur := c3\<rparr>) = Inr (resp, buf\<lparr>rcur := c4\<rparr>)"
    and v4: "at be buf c4 (off + 8) (enc16 be GIOP_KeyAddr @ p1 @ enc32 be kl @ key @
      p2 @ enc32 be ol @ oper @ p3 @ enc32 be (of_nat (length cs)) @ enc_contexts be (n4 + length p3 + 4) cs @ r)"
    by (rule at_fetch8 [OF v3 t]) (simp_all only: add.assoc, simp_all)
  obtain c6 where s6: "giop_GIOP_TargetAddress_demarshal (buf\<lparr>rcur := c4\<rparr>) =
      Inr (\<lparr>ta_d = GIOP_KeyAddr, ta_object_key = key\<rparr>, buf\<lparr>rcur := c6\<rparr>)"
    and v6: "at be buf c6 n2 (p2 @ enc32 be ol @ oper @ p3 @ enc32 be (of_nat (length cs)) @
      enc_contexts be (n4 + length p3 + 4) cs @ r)"
    by (rule at_key_target [OF v4 z(2,3) kl e6])
  obtain c7 where s7: "align_cur 4 (buf\<lparr>rcur := c6\<rparr>) = buf\<lparr>rcur := c7\<rparr>"
    and v7: "at be buf c7 (n2 + length p2) (enc32 be ol @ oper @ p3 @ enc32 be (of_nat (length cs)) @
      enc_contexts be (n4 + length p3 + 4) cs @ r)"
    by (rule at_skip [OF v6 p2]) auto
  have k7: "check 4 (buf\<lparr>rcur := c7\<rparr>) = Inr ()" by (rule at_check [OF v7]) auto
  obtain c8 where s8: "fetch32 (buf\<lparr>rcur := c7\<rparr>) = Inr (ol, buf\<lparr>rcur := c8\<rparr>)" "has_room 0 (buf\<lparr>rcur := c8\<rparr>)"
    and v8: "at be buf c8 n3 (oper @ p3 @ enc32 be (of_nat (length cs)) @ enc_contexts be (n4 + length p3 + 4) cs @ r)"
    by (rule at_fetch32 [OF v7 n3])
  obtain c9 where s9: "check_past ol (buf\<lparr>rcur := c8\<rparr>) = Inr ()" "c8 = message_body buf + of_nat n3"
      "advance (ucast ol) (buf\<lparr>rcur := c8\<rparr>) = buf\<lparr>rcur := c9\<rparr>"
    and v9: "at be buf c9 n4 (p3 @ enc32 be (of_nat (length cs)) @ enc_contexts be (n4 + length p3 + 4) cs @ r)"
    by (rule at_skip_octets [OF v8 s8(2) ol n4])
  obtain c10 where s10: "giop_IOP_ServiceContextList_demarshal (buf\<lparr>rcur := c9\<rparr>) = Inr (cs, buf\<lparr>rcur := c10\<rparr>)"
    and v10: "at be buf c10 n5 r"
    by (rule at_contexts [OF v9 p3 ok n5])
  have v11: "at be buf (ALIGN_VALUE c10 8) (n5 + pad 8 n5) (drop (pad 8 n5) r)"
    using view_align8 [OF v10 [unfolded at_def]] by (simp add: at_def)
  have e1: "align_cur 4 buf = buf\<lparr>rcur := c2\<rparr>" using s2 by simp
  show ?thesis
    by (rule at_decodes [OF _ v11])
      (simp only: giop_recv_buffer_demarshal_request_1_2_def Let_def e1 k2 s3 s4 s6 s7 k7 s8(1)
         s9(1,3) s10 andThen.simps split_conv, simp add: s9(2))
qed

end
