(* ===== verification/Giop_Roundtrip.thy ===== *)
theory Giop_Roundtrip
  imports Giop_Machine Giop_Layout Giop_Messages
begin

text \<open>
  From the wire to the dispatcher. \<open>hears env h be v sz a\<close>: the twelve header bytes
  \<open>h\<close> announce an unfragmented message of byte order \<open>be\<close>, version \<open>v\<close> and \<open>sz\<close>
  bytes that the connection accepts and for which the allocator returns \<open>a\<close>.
\<close>

definition hears :: "input_env \<Rightarrow> byte list \<Rightarrow> bool \<Rightarrow> GIOPVersion \<Rightarrow> u32 \<Rightarrow> u64 \<Rightarrow> bool" where
  "hears env h be v sz a \<longleftrightarrow>
     length h = 12 \<and> magic (parse_header h) = [0x47, 0x49, 0x4F, 0x50] \<and>
     version_of (version (parse_header h)) = Some v \<and>
     message_type (parse_header h) < GIOP_FRAGMENT \<and>
     flags (parse_header h) AND GIOP_FLAG_FRAGMENTED = 0 \<and>
     giop_endian_conversion_needed (flags (parse_header h)) = be \<and>
     (if be then swap32 (message_size (parse_header h)) else message_size (parse_header h)) = sz \<and>
     0 < unat sz \<and> unat sz < 2 ^ 31 \<and> (is_auth env \<or> uint sz \<le> msg_limit env) \<and>
     try_alloc env (unat sz + 12) = Some a \<and> 8 dvd unat a \<and> unat a + unat sz + 76 \<le> 2 ^ 64"

text \<open>The receive buffer when the last byte has arrived, ready to be demarshalled.\<close>

definition arrived :: "input_env \<Rightarrow> byte list \<Rightarrow> GIOPVersion \<Rightarrow> u32 \<Rightarrow> u64 \<Rightarrow> byte list \<Rightarrow> GIOPRecvBuffer" where
  "arrived env h v sz a body =
     \<lparr>header = (parse_header h)\<lparr>message_size := sz\<rparr>, msg_u = Msg_none, hdr_mem = h, message_body = a,
      body_mem = replicate 12 0 @ body, rcur = a + 12, rend = a + 12 + ucast sz,
      connection = Some (cnx_id env), buf_state = GIOP_MSG_READY, giop_version = v,
      left_to_read = 0, free_body = True\<rparr>"

lemma unat_ucast32_add12: "unat (ucast (sz :: u32) + 12 :: u64) = unat sz + 12"
proof -
  have "unat (ucast sz :: u64) = unat sz" "unat sz < 2 ^ 32"
    using unsigned_less [of sz] by (simp_all add: unsigned_ucast_eq take_bit_nat_eq_self)
  then show ?thesis by (simp add: unat_word_ariths)
qed

lemma unat_ends:
  assumes "unat (a :: u64) + unat (sz :: u32) + 76 \<le> 2 ^ 64"
  shows "unat (a + 12) = unat a + 12" and "unat (a + 12 + ucast sz) = unat a + 12 + unat sz"
proof -
  have "unat (12 :: u64) = 12" by simp
  then show e: "unat (a + 12) = unat a + 12" using assms by (simp add: unat_word_ariths)
  show "unat (a + 12 + ucast sz) = unat a + 12 + unat sz"
    using assms e by (simp add: unat_word_ariths)
qed

lemma view_arrived:
  assumes "hears env h be v sz a" and "length body = unat sz"
  shows "view be (arrived env h v sz a body) 12 body"
proof -
  note a = assms(1) [unfolded hears_def]
  have b: "unat a + unat sz + 76 \<le> 2 ^ 64" using a by simp
  note u = unat_ends [OF b]
  have "unat a + 12 + unat sz \<le> align_up 8 (unat a + 12 + unat sz)" by (rule align_up_ge) simp
  with a assms(2) show ?thesis
    by (auto simp: view_def wf_buf_def arrived_def u giop_msg_conversion_needed_def)
qed

text \<open>The two stages: header read, body read.\<close>

definition body_wanted :: "input_env \<Rightarrow> byte list \<Rightarrow> GIOPVersion \<Rightarrow> u32 \<Rightarrow> u64 \<Rightarrow> GIOPRecvBuffer" where
  "body_wanted env h v sz a =
     (arrived env h v sz a (replicate (unat sz) 0))\<lparr>buf_state := GIOP_MSG_READING_BODY, left_to_read := ucast sz\<rparr>"

lemma header_complete:
  assumes h: "hears env h be v sz a" and st: "incoming_msg st = None"
  shows "complete_step env (incoming_frags st) (take_in (current_msg env st) h) = Continue (body_wanted env h v sz a)"
proof -
  note a = h [unfolded hears_def]
  have mt: "\<not> message_type (parse_header h) \<ge> GIOP_NUM_MSG_TYPES"
  proof -
    have "unat (message_type (parse_header h)) < 7" using a by (simp add: word_less_nat_alt)
    then show ?thesis by (simp add: word_le_nat_alt)
  qed
  have pos: "0 < (ucast sz :: u64)"
  proof -
    have "unat (ucast sz :: u64) = unat sz" using unsigned_less [of sz] by (simp add: unsigned_ucast_eq take_bit_nat_eq_self)
    with a show ?thesis by (simp add: word_less_nat_alt)
  qed
  let ?b = "take_in (current_msg env st) h"
  have b: "?b = (giop_recv_buffer_use_buf (Some (cnx_id env)))\<lparr>hdr_mem := h, left_to_read := 0\<rparr>"
    using a st by (simp add: current_msg_def take_in_def giop_recv_buffer_use_buf_def)
  have lim: "\<not> (\<not> is_auth env \<and> uint sz > msg_limit env)" using a by auto
  have "giop_recv_msg_reading_body (try_alloc env) (msg_limit env) (is_auth env)
      (?b\<lparr>header := parse_header (hdr_mem ?b)\<rparr>) = Some ((body_wanted env h v sz a)\<lparr>buf_state := GIOP_MSG_READING_HEADER\<rparr>)"
    using a mt lim
    by (simp add: giop_recv_msg_reading_body_def b Let_def alloc_buffer_def unat_ucast32_add12
        realloc_bytes_def body_wanted_def arrived_def giop_recv_buffer_use_buf_def
        replicate_add [symmetric] add.commute [of 12 "unat sz"])
  moreover have "0 \<le> sint (ucast (ucast sz :: u64) :: u32)"
    unfolding ucast_back by (rule sint_small) (use a in simp)
  ultimately show ?thesis
    using pos by (simp add: complete_step_def read_body_def Let_def b giop_recv_buffer_use_buf_def body_wanted_def arrived_def)
qed

lemma body_read:
  assumes h: "hears env h be v sz a" and l: "length body = unat sz"
  shows "take_in (body_wanted env h v sz a) body =
    (arrived env h v sz a body)\<lparr>buf_state := GIOP_MSG_READING_BODY, rcur := a + 12 + ucast sz\<rparr>"
proof -
  have "(of_nat (length body) :: u64) = ucast sz" unfolding l by (simp add: unsigned_ucast_eq)
  then show ?thesis
    using l by (simp add: take_in_def body_wanted_def arrived_def deposit_def Let_def)
qed

lemma receive_decoded:
  assumes h: "hears env h be v sz a" and l: "length body = unat sz" and st: "incoming_msg st = None"
    and d: "decodes be (arrived env h v sz a body) (giop_recv_buffer_demarshal (arrived env h v sz a body)) u off r"
  obtains b where "b = (arrived env h v sz a body)\<lparr>rcur := rcur b, msg_u := u\<rparr>" "view be b off r"
    "giop_connection_handle_input env st [Bytes (h @ body)] =
      (case dispatch env st b of (s, ev) \<Rightarrow> (s, ev, [], True))"
proof -
  note a = h [unfolded hears_def]
  let ?w = "body_wanted env h v sz a" and ?A = "arrived env h v sz a body"
  from d obtain c where c: "giop_recv_buffer_demarshal ?A = Inr (?A\<lparr>rcur := c, msg_u := u\<rparr>)"
    "view be (?A\<lparr>rcur := c, msg_u := u\<rparr>) off r" by (auto simp: decodes_def)
  let ?b = "?A\<lparr>rcur := c, msg_u := u\<rparr>"
  have inv0: "msg_inv (current_msg env st)" by (rule current_inv) (simp add: state_inv_def st)
  have left0: "unat (left_to_read (current_msg env st)) = 12"
    using st by (simp add: current_msg_def giop_recv_buffer_use_buf_def)
  have ne: "h @ body \<noteq> []" "body \<noteq> []" using a l by auto
  let ?st1 = "st\<lparr>incoming_msg := Some ?w\<rparr>"
  have s1: "giop_connection_handle_input env st [Bytes (h @ body)] =
      giop_connection_handle_input env ?st1 [Bytes body]"
    using a ne st header_complete [OF h st] left0
    by (simp add: handle_input_Bytes [OF inv0 ne(1)] Let_def after_last_def push_back_def current_msg_def
        giop_recv_buffer_use_buf_def)
  have inv1: "msg_inv (current_msg env ?st1)"
    using complete_step_inv [OF header_complete [OF h st]] by (simp add: current_msg_def)
  have left1: "unat (left_to_read (current_msg env ?st1)) = unat sz"
    using unsigned_less [of sz]
    by (simp add: current_msg_def body_wanted_def unsigned_ucast_eq take_bit_nat_eq_self)
  have lp: "push_back (drop (unat sz) body) [] = []" "take (unat sz) body = body"
    using l by (simp_all add: push_back_def)
  have u: "unat (a + 12) = unat a + 12" "unat (a + 12 + ucast sz) = unat a + 12 + unat sz"
    using unat_ends [of a sz] a by simp_all
  have over: "\<not> ptr_over (a + 12) (a + 12 + ucast sz) (ucast sz)"
    by (simp add: ptr_over_def)
  have more: "\<not> MORE_FRAGMENTS_FOLLOW ?b" "message_type (header ?b) \<noteq> GIOP_FRAGMENT"
    using a by (auto simp: MORE_FRAGMENTS_FOLLOW_def arrived_def)
  let ?t = "take_in ?w body"
  have t: "?t\<lparr>rcur := message_body ?t + 12, buf_state := GIOP_MSG_READY\<rparr> = ?A"
    by (simp add: body_read [OF h l], simp add: arrived_def)
  have bc: "body_complete env (incoming_frags st) ?t = Finished ?b (incoming_frags st)"
    unfolding body_complete_def Let_def using over more
    by (simp add: t c(1), simp add: body_read [OF h l] arrived_def)
  have cm: "current_msg env ?st1 = ?w" by (simp add: current_msg_def)
  have cs: "complete_step env (incoming_frags ?st1) ?t = Finished ?b (incoming_frags st)"
    using bc by (simp add: complete_step_def, simp add: body_wanted_def)
  have lt: "left_to_read ?t = 0" by (simp add: body_read [OF h l], simp add: arrived_def)
  have di: "dispatch env (?st1\<lparr>incoming_frags := incoming_frags st\<rparr>) ?b = dispatch env st ?b"
    by (simp add: dispatch_def msg_error_def Let_def)
  have "giop_connection_handle_input env ?st1 [Bytes body] =
      (case dispatch env st ?b of (s, ev) \<Rightarrow> (s, ev, [], True))"
    unfolding handle_input_Bytes [OF inv1 ne(2)] left1 lp Let_def
    unfolding cm lt after_last_def cs di [symmetric] by simp
  with s1 c(2) that [of ?b] show thesis by simp
qed


section \<open>What our own messages announce\<close>

definition accepts :: "input_env \<Rightarrow> nat \<Rightarrow> u64 \<Rightarrow> bool" where
  "accepts env n a \<longleftrightarrow>
     n < 2 ^ 31 \<and> (is_auth env \<or> int n \<le> msg_limit env) \<and> try_alloc env (n + 12) = Some a \<and>
     8 dvd unat a \<and> unat a + n + 76 \<le> 2 ^ 64"

lemma version_of_ids: "version_of (giop_version_ids v) = Some v"
  by (cases v) (simp_all add: version_of_def)

lemma header_fields:
  assumes "builds env v mt bs b"
  shows "parse_header (header_bytes b) =
    \<lparr>magic = [0x47, 0x49, 0x4F, 0x50], version = giop_version_ids v, flags = GIOP_FLAG_ENDIANNESS,
     message_type = mt, message_size = of_nat (length bs)\<rparr>"
  using assms wf_payload_length [of env b]
  by (auto simp: parse_header_def header_bytes_def builds_def statics_def eval_nat_numeral)

lemma hears_builds:
  assumes b: "builds env v mt bs b" and mt: "mt < GIOP_FRAGMENT" and l: "0 < length bs" "length bs < 2 ^ 32"
    and ac: "accepts renv (length bs) a"
  shows "hears renv (header_bytes b) False v (of_nat (length bs)) a"
proof -
  have u: "unat (of_nat (length bs) :: u32) = length bs" using l by (simp add: unat_of_nat)
  then have ui: "uint (of_nat (length bs) :: u32) = int (length bs)" by (simp add: uint_nat)
  have "length (header_bytes b) = 12" by (simp add: header_bytes_def)
  then show ?thesis
    using mt l ac by (auto simp: hears_def header_fields [OF b] version_of_ids u ui accepts_def
        giop_endian_conversion_needed_def)
qed

lemma wire_builds: "builds env v mt bs b \<Longrightarrow> wire env b = header_bytes b @ bs"
  by (auto simp: builds_def wire_eq)

lemma view_remaining:
  assumes "view be b off r" and "unat (message_body b) + off \<le> unat (rend b)"
  shows "remaining b = r"
proof -
  have c: "unat (rcur b) = unat (message_body b) + off"
    and r: "r = drop off (take (unat (rend b) - unat (message_body b)) (body_mem b))"
    using assms(1) by (auto simp: view_def)
  have "unat (rcur b - message_body b) = off"
    using c by (subst unat_sub) (simp_all add: word_le_nat_alt)
  moreover have "unat (rend b - rcur b) = unat (rend b) - unat (message_body b) - off"
    using assms(2) c by (subst unat_sub) (simp_all add: word_le_nat_alt)
  ultimately show ?thesis using r by (simp add: remaining_def drop_take)
qed


section \<open>Requests\<close>

text \<open>
  The operation header a stub builds on its stack (\<open>orbit_small_marshal\<close>): length, name,
  terminator, and zeros up to a multiple of four.
\<close>

definition op_vec_bytes :: "byte list \<Rightarrow> byte list" where
  "op_vec_bytes name =
     (let len = 4 + length name + 1
      in le32 (of_nat (length name + 1)) @ name @ [0] @ replicate (align_up 4 len - len) 0)"

definition response_flags_of :: "GIOPMsgU \<Rightarrow> byte" where
  "response_flags_of u = (case u of Msg_request_1_1 m \<Rightarrow> rq1_response_expected m
     | Msg_request_1_2 m \<Rightarrow> rq2_response_flags m | _ \<Rightarrow> 0)"

definition service_context_of :: "GIOPMsgU \<Rightarrow> IOP_ServiceContextList" where
  "service_context_of u = (case u of Msg_request_1_1 m \<Rightarrow> rq1_service_context m
     | Msg_request_1_2 m \<Rightarrow> rq2_service_context m | Msg_reply_1_1 m \<Rightarrow> rp_service_context m
     | Msg_reply_1_2 m \<Rightarrow> rp_service_context m | _ \<Rightarrow> [])"

text \<open>The accessors of a received request give these values, and \<open>args\<close> is what is left.\<close>

definition is_request :: "GIOPRecvBuffer \<Rightarrow> GIOPVersion \<Rightarrow> u32 \<Rightarrow> byte \<Rightarrow> byte list \<Rightarrow> byte list \<Rightarrow>
    byte list \<Rightarrow> bool" where
  "is_request m v rid fl key name args \<longleftrightarrow>
     message_type (header m) = GIOP_REQUEST \<and> giop_version m = v \<and>
     giop_recv_buffer_get_request_id m = rid \<and> response_flags_of (msg_u m) = fl \<and>
     giop_recv_buffer_get_objkey m = Done (Some key) \<and>
     (\<exists>p. giop_recv_buffer_get_opname m = Some p \<and> c_string m p = Inr name) \<and>
     service_context_of (msg_u m) = [code_set_context] \<and> remaining m = args"

lemma length_op_vec: "length (op_vec_bytes name) = 4 + (length name + 1) + pad 4 (length name + 1)"
  using pad_add [of 4 4 "length name + 1"] by (simp add: op_vec_bytes_def Let_def pad_def)

lemma op_vec_eq: "op_vec_bytes name =
    enc32 False (of_nat (length name + 1)) @ (name @ [0]) @ replicate (pad 4 (length name + 1)) 0"
  using pad_add [of 4 4 "length name + 1"] by (simp add: op_vec_bytes_def Let_def pad_def enc32_def)

text \<open>A C string at offset \<open>n + 12\<close> of the message.\<close>

lemma c_string_at:
  assumes "message_body m = a" "body_mem m = replicate 12 0 @ xs @ name @ [0] @ ys" "0 \<notin> set name"
    and "length xs < 2 ^ 32" "n = length xs + 12"
  shows "c_string m (a + of_nat n) = Inr name"
proof -
  have o: "unat (of_nat n :: u64) = length xs + 12"
    unfolding unat_of_nat using assms(4,5) by (intro mod_less [THEN trans]) simp_all
  have d: "drop (length xs + 12) (replicate 12 0 @ xs @ name @ [0] @ ys) = name @ [0] @ ys" by simp
  have "takeWhile (\<lambda>b. b \<noteq> 0) (name @ [0] @ ys) = name"
    using assms(3) by (subst takeWhile_append2) auto
  with d show ?thesis by (simp add: c_string_def Let_def assms(1,2) o)
qed

lemma pad_aligned_add: "4 dvd k \<Longrightarrow> pad 4 (k + n) = pad 4 n"
  by (simp add: pad_add)

lemma length_code_set: "length (enc_context False 16 code_set_context) = 20"
  by (simp add: enc_context_def enc_ulong_def code_set_context_def pad_dvd)

lemma scd_at_12: "iop_service_context_data = enc32 False (of_nat (length [code_set_context])) @
    enc_contexts False 16 [code_set_context]" "length (enc_contexts False 16 [code_set_context]) = 20"
  using scd_eq [of 16] length_scd by (simp_all add: length_code_set)

text \<open>Once the header is decoded, the request reaches the handler with its fields and arguments.\<close>

lemma heard:
  assumes b: "builds env v mt pl b" and mt: "mt < GIOP_FRAGMENT" and l0: "0 < length pl" and sz: "length pl < 2 ^ 32"
    and ac: "accepts renv (length pl) a" and st: "incoming_msg st = None"
    and d: "\<And>A. view False A 12 pl \<Longrightarrow> message_body A = a \<Longrightarrow> giop_version A = v \<Longrightarrow>
        message_type (header A) = mt \<Longrightarrow> decodes False A (giop_recv_buffer_demarshal A) u off args"
    and off: "off + length args = 12 + length pl"
  obtains m where "giop_connection_handle_input renv st [Bytes (wire env b)] =
      (case dispatch renv st m of (s, ev) \<Rightarrow> (s, ev, [], True))"
    and "message_type (header m) = mt" "giop_version m = v" "msg_u m = u" "remaining m = args"
    and "message_body m = a" "body_mem m = replicate 12 0 @ pl" "connection m = Some (cnx_id renv)"
    and "view False m off args" "has_room 0 m"
proof -
  let ?h = "header_bytes b" and ?sz = "of_nat (length pl) :: u32"
  let ?A = "arrived renv ?h v ?sz a pl"
  have l: "length pl = unat ?sz" using sz by (simp add: unat_of_nat)
  have h: "hears renv ?h False v ?sz a" by (rule hears_builds [OF b mt l0 sz ac])
  have "decodes False ?A (giop_recv_buffer_demarshal ?A) u off args"
    by (rule d [OF view_arrived [OF h l]]) (simp_all add: arrived_def header_fields [OF b])
  then obtain m where m: "m = ?A\<lparr>rcur := rcur m, msg_u := u\<rparr>" and mv: "view False m off args"
    and hi: "giop_connection_handle_input renv st [Bytes (?h @ pl)] =
      (case dispatch renv st m of (s, ev) \<Rightarrow> (s, ev, [], True))"
    by (rule receive_decoded [OF h l st])
  have e: "message_body m = a" "body_mem m = replicate 12 0 @ pl" "connection m = Some (cnx_id renv)"
    "giop_version m = v" "msg_u m = u" "message_type (header m) = mt" "rend m = a + 12 + ucast ?sz"
    by (subst m, simp add: arrived_def header_fields [OF b])+
  have "unat a + unat ?sz + 76 \<le> 2 ^ 64" using h by (simp add: hears_def)
  then have "unat (rend m) = unat a + 12 + length pl" using unat_ends(2) l by (simp only: e)
  then have le: "unat (message_body m) + off \<le> unat (rend m)" using off by (simp add: e(1))
  have rm: "remaining m = args" by (rule view_remaining [OF mv le])
  have hr: "has_room 0 m" using mv le by (simp add: has_room_def view_def)
  show thesis
    by (rule that [OF _ e(6,4,5) rm e(1-3) mv hr]) (simp add: hi wire_builds [OF b])
qed

lemma heard_request:
  assumes b: "builds env v GIOP_REQUEST pl b" and l0: "0 < length pl" and sz: "length pl < 2 ^ 32"
    and ac: "accepts renv (length pl) a" and st: "incoming_msg st = None"
    and d: "\<And>A. view False A 12 pl \<Longrightarrow> message_body A = a \<Longrightarrow> giop_version A = v \<Longrightarrow>
        message_type (header A) = GIOP_REQUEST \<Longrightarrow>
        decodes False A (giop_recv_buffer_demarshal A) u off args"
    and off: "off + length args = 12 + length pl"
    and nm: "pl = xs @ name @ [0] @ ys" "0 \<notin> set name"
  obtains m where "giop_connection_handle_input renv st [Bytes (wire env b)] = (st, [Ev_handle_request m], [], True)"
    and "message_type (header m) = GIOP_REQUEST" "giop_version m = v" "msg_u m = u" "remaining m = args"
    and "c_string m (a + of_nat (length xs + 12)) = Inr name" "view False m off args" "has_room 0 m"
proof -
  obtain m where hi: "giop_connection_handle_input renv st [Bytes (wire env b)] =
      (case dispatch renv st m of (s, ev) \<Rightarrow> (s, ev, [], True))"
    and e: "message_type (header m) = GIOP_REQUEST" "giop_version m = v" "msg_u m = u" "remaining m = args"
    and mb: "message_body m = a" "body_mem m = replicate 12 0 @ pl"
    and vw: "view False m off args" "has_room 0 m"
    by (rule heard [OF b _ l0 sz ac st d off]) simp_all
  have xs: "length xs < 2 ^ 32" using sz by (simp add: nm)
  have "dispatch renv st m = (st, [Ev_handle_request m])"
    using e st by (simp add: dispatch_def Let_def)
  with hi that [OF _ e c_string_at [OF mb(1) mb(2) [unfolded nm(1)] nm(2) xs refl] vw] show thesis
    by simp
qed

lemma op_length:
  assumes "length (op_vec_bytes name) < 2 ^ 32"
  shows "length (name @ [0]) = unat (of_nat (length name + 1) :: u32)"
proof -
  have "length name + 1 < 2 ^ 32" using assms length_op_vec [of name] by linarith
  then show ?thesis by (simp only: unat_of_nat) simp
qed

lemma request_1_1_heard:
  assumes v: "v \<noteq> GIOP_1_2"
    and b: "builds env v GIOP_REQUEST pl b"
    and pl: "pl = iop_service_context_data @ le32 rid @ (resp # p1) @ le32 kl @ key @ p2 @
        op_vec_bytes name @ [0, 0, 0, 0] @ args"
    and p1: "length p1 = 3" and kl: "length key = unat kl" and p2: "length p2 = pad 4 (48 + unat kl)"
    and nm: "0 \<notin> set name" and sz: "length pl < 2 ^ 32" and ac: "accepts renv (length pl) a"
    and st: "incoming_msg st = None"
  shows "\<exists>m. giop_connection_handle_input renv st [Bytes (wire env b)] = (st, [Ev_handle_request m], [], True) \<and>
    is_request m v rid resp key name args \<and> has_room 0 m \<and> view False m (12 + length pl - length args) args"
proof -
  let ?ol = "of_nat (length name + 1) :: u32" and ?p3 = "replicate (pad 4 (length name + 1)) (0 :: byte)"
  let ?xs = "iop_service_context_data @ le32 rid @ (resp # p1) @ le32 kl @ key @ p2 @ enc32 False ?ol"
  let ?n2 = "48 + length key" let ?n3 = "?n2 + length p2 + 4" let ?n4 = "?n3 + (length name + 1)"
  let ?u = "Msg_request_1_1 \<lparr>rq1_service_context = [code_set_context], rq1_request_id = rid,
         rq1_response_expected = resp, rq1_object_key = key, rq1_operation = a + of_nat ?n3,
         rq1_requesting_principal = []\<rparr>"
  have plv: "pl = [] @ enc32 False (of_nat (length [code_set_context])) @
      enc_contexts False (12 + length ([] :: byte list) + 4) [code_set_context] @ [] @ enc32 False rid @ (resp # p1) @
      enc32 False kl @ key @ p2 @ enc32 False ?ol @ (name @ [0]) @ ?p3 @ enc32 False 0 @ [] @ args"
    by (simp add: pl scd_at_12 op_vec_eq enc32_def le32_def)
  have n4d: "4 dvd ?n3" using p2 kl dvd_add [OF dvd_add_pad [of 4 ?n2] dvd_refl] by simp
  have ol: "length (name @ [0]) = unat ?ol" by (rule op_length) (use sz in \<open>simp add: pl\<close>)
  have p3: "length ?p3 = pad 4 ?n4" using pad_add [OF n4d, of "length name + 1"] by (simp only: length_replicate)
  have d: "decodes False A (giop_recv_buffer_demarshal A) ?u
      (?n4 + length ?p3 + 4 + length ([] :: byte list)) args"
    if A: "view False A 12 pl" "message_body A = a" "giop_version A = v" "message_type (header A) = GIOP_REQUEST" for A
  proof -
    have "giop_recv_buffer_demarshal A = giop_recv_buffer_demarshal_request_1_1 A"
      using v A by (simp add: giop_recv_buffer_demarshal_def Let_def)
    then show ?thesis
      unfolding A(2) [symmetric]
      by (simp only:, intro decode_request_1_1 [OF A(1) [unfolded plv] _ contexts_ok_code_set p1 _ _ kl _ _ _ ol _ p3])
        (use p2 kl in \<open>simp_all add: pad_dvd length_code_set\<close>)
  qed
  have xs: "pl = ?xs @ name @ [0] @ ?p3 @ [0, 0, 0, 0] @ args" by (simp add: pl op_vec_eq)
  have lx: "length ?xs + 12 = ?n3" using p1 by (simp add: length_scd)
  have l0: "0 < length pl" by (simp add: pl)
  have off: "?n4 + length ?p3 + 4 + length ([] :: byte list) + length args = 12 + length pl"
    using lx by (simp add: xs)
  show ?thesis
    unfolding off [symmetric] diff_add_inverse2
    by (rule heard_request [OF b l0 sz ac st d off xs nm], assumption+, unfold lx)
      (auto simp: is_request_def giop_recv_buffer_get_request_id_def response_flags_of_def
        giop_recv_buffer_get_objkey_def giop_recv_buffer_get_opname_def service_context_of_def)
qed

lemma request_1_2_heard:
  assumes b: "builds env GIOP_1_2 GIOP_REQUEST pl b"
    and pl: "pl = le32 rid @ (fl # [0, 0, 0]) @ le16 GIOP_KeyAddr @ p1 @ le32 kl @ key @ p2 @
        op_vec_bytes name @ iop_service_context_data @ p3 @ args"
    and p1: "length p1 = 2" and kl: "length key = unat kl" and p2: "length p2 = pad 4 (28 + unat kl)"
    and p3: "length p3 = pad 8 (52 + unat kl + length p2 + length (op_vec_bytes name))"
    and nm: "0 \<notin> set name" and sz: "length pl < 2 ^ 32" and ac: "accepts renv (length pl) a"
    and st: "incoming_msg st = None"
  shows "\<exists>m. giop_connection_handle_input renv st [Bytes (wire env b)] = (st, [Ev_handle_request m], [], True) \<and>
    is_request m GIOP_1_2 rid fl key name args \<and> has_room 0 m \<and> view False m (12 + length pl - length args) args"
proof -
  let ?ol = "of_nat (length name + 1) :: u32" and ?q3 = "replicate (pad 4 (length name + 1)) (0 :: byte)"
  let ?xs = "le32 rid @ (fl # [0, 0, 0]) @ le16 GIOP_KeyAddr @ p1 @ le32 kl @ key @ p2 @ enc32 False ?ol"
  let ?n2 = "28 + length key" let ?n3 = "?n2 + length p2 + 4" let ?n4 = "?n3 + (length name + 1)"
  let ?u = "Msg_request_1_2 \<lparr>rq2_request_id = rid, rq2_response_flags = fl,
       rq2_target = \<lparr>ta_d = GIOP_KeyAddr, ta_object_key = key\<rparr>,
       rq2_operation = a + of_nat ?n3, rq2_service_context = [code_set_context]\<rparr>"
  let ?n5 = "?n4 + length ?q3 + 4 + 20"
  have n4d: "4 dvd ?n3" using p2 kl dvd_add [OF dvd_add_pad [of 4 ?n2] dvd_refl] by simp
  have ol: "length (name @ [0]) = unat ?ol" by (rule op_length) (use sz in \<open>simp add: pl\<close>)
  have q3: "length ?q3 = pad 4 ?n4" using pad_add [OF n4d, of "length name + 1"] by (simp only: length_replicate)
  have n4q: "4 dvd ?n4 + length ?q3 + 4" unfolding q3 by (rule dvd_add [OF dvd_add_pad dvd_refl]) simp
  have scd: "iop_service_context_data = enc32 False (of_nat (length [code_set_context])) @
      enc_contexts False (?n4 + length ?q3 + 4) [code_set_context]"
    by (rule scd_eq [OF n4q])
  then have l20: "length (enc_contexts False (?n4 + length ?q3 + 4) [code_set_context]) = 20"
    using length_scd by (auto dest: arg_cong [where f = length])
  have plv: "pl = enc32 False rid @ (fl # [0, 0, 0]) @ enc16 False GIOP_KeyAddr @ p1 @ enc32 False kl @ key @
      p2 @ enc32 False ?ol @ (name @ [0]) @ ?q3 @ enc32 False (of_nat (length [code_set_context])) @
      enc_contexts False (?n4 + length ?q3 + 4) [code_set_context] @ p3 @ args"
    unfolding pl scd by (simp add: op_vec_eq enc32_def enc16_def)
  have p8: "length p3 = pad 8 ?n5" using p3 kl by (simp add: length_op_vec ac_simps)
  have d: "decodes False A (giop_recv_buffer_demarshal A) ?u (?n5 + pad 8 ?n5) args"
    if A: "view False A 12 pl" "message_body A = a" "giop_version A = GIOP_1_2"
      "message_type (header A) = GIOP_REQUEST" for A
  proof -
    have "giop_recv_buffer_demarshal A = giop_recv_buffer_demarshal_request_1_2 A"
      using A by (simp add: giop_recv_buffer_demarshal_def Let_def)
    moreover have "decodes False A (giop_recv_buffer_demarshal_request_1_2 A) ?u
        (?n5 + pad 8 ?n5) (drop (pad 8 ?n5) (p3 @ args))"
      unfolding A(2) [symmetric]
      by (rule decode_request_1_2 [OF A(1) [unfolded plv] _ contexts_ok_code_set _ p1 kl _ _ _ ol _ q3])
        (use p2 kl l20 in simp_all)
    moreover have "drop (pad 8 ?n5) (p3 @ args) = args" unfolding p8 [symmetric] by simp
    ultimately show ?thesis by (simp only:)
  qed
  have xs: "pl = ?xs @ name @ [0] @ ?q3 @ iop_service_context_data @ p3 @ args" by (simp add: pl op_vec_eq)
  have lx: "length ?xs + 12 = ?n3" using p1 by simp
  have l0: "0 < length pl" by (simp add: pl)
  have off: "?n5 + pad 8 ?n5 + length args = 12 + length pl"
    unfolding p8 [symmetric] using lx by (simp add: xs length_scd)
  show ?thesis
    unfolding off [symmetric] diff_add_inverse2
    by (rule heard_request [OF b l0 sz ac st d off xs nm], assumption+, unfold lx)
      (auto simp: is_request_def giop_recv_buffer_get_request_id_def response_flags_of_def
        giop_recv_buffer_get_objkey_def giop_recv_buffer_get_opname_def service_context_of_def)
qed


section \<open>Replies\<close>

definition is_reply :: "GIOPRecvBuffer \<Rightarrow> GIOPVersion \<Rightarrow> u32 \<Rightarrow> u32 \<Rightarrow> byte list \<Rightarrow> bool" where
  "is_reply m v rid status results \<longleftrightarrow>
     message_type (header m) = GIOP_REPLY \<and> giop_version m = v \<and>
     giop_recv_buffer_get_request_id m = rid \<and> giop_recv_buffer_reply_status m = status \<and>
     service_context_of (msg_u m) = [code_set_context] \<and> remaining m = results"

lemma reply_decodes:
  assumes A: "view False A 12 (pl @ results)" "giop_version A = v" "message_type (header A) = GIOP_REPLY"
    and pl: "pl = (if v = GIOP_1_2 then le32 rid @ le32 status @ iop_service_context_data @ p
       else iop_service_context_data @ le32 rid @ le32 status)" and p: "length p = 4"
  defines "r \<equiv> \<lparr>rp_service_context = [code_set_context], rp_request_id = rid, rp_reply_status = status\<rparr>"
  shows "decodes False A (giop_recv_buffer_demarshal A)
    (if v = GIOP_1_2 then Msg_reply_1_2 r else Msg_reply_1_1 r) (12 + length pl) results"
proof (cases "v = GIOP_1_2")
  case True
  have scd: "iop_service_context_data = enc32 False (of_nat (length [code_set_context])) @
      enc_contexts False (12 + 12) [code_set_context]" by (rule scd_eq) simp
  then have l: "length (enc_contexts False (12 + 12) [code_set_context]) = 20"
    using length_scd by (auto dest: arg_cong [where f = length])
  have vw: "view False A 12 (enc32 False rid @ enc32 False status @ enc32 False (of_nat (length [code_set_context])) @
      enc_contexts False (12 + 12) [code_set_context] @ (p @ results))"
    using A(1) unfolding pl True if_P [OF refl] scd by (simp add: enc32_def [of False rid] enc32_def [of False status])
  have "decodes False A (giop_recv_buffer_demarshal_reply_1_2 A) (Msg_reply_1_2 r)
      (44 + pad 8 44) (drop (pad 8 44) (p @ results))"
    unfolding r_def by (rule decode_reply_1_2 [OF vw _ contexts_ok_code_set]) (use l in simp_all)
  with p True A show ?thesis
    by (simp add: giop_recv_buffer_demarshal_def Let_def pl length_scd pad_def align_up_def word_le_nat_alt)
next
  case False
  have vw: "view False A 12 ([] @ enc32 False (of_nat (length [code_set_context])) @
      enc_contexts False (12 + length ([] :: byte list) + 4) [code_set_context] @ [] @ enc32 False rid @
      enc32 False status @ results)"
    using A(1) by (simp add: pl False scd_at_12 enc32_def)
  have "decodes False A (giop_recv_buffer_demarshal_reply_1_1 A) (Msg_reply_1_1 r)
      (36 + length ([] :: byte list) + 4 + 4) results"
    unfolding r_def
    by (rule decode_reply_1_1 [OF vw _ contexts_ok_code_set]) (simp_all add: length_code_set pad_dvd)
  with False A show ?thesis
    by (simp add: giop_recv_buffer_demarshal_def Let_def pl length_scd word_le_nat_alt)
qed

lemma split_first_append:
  "P e \<Longrightarrow> \<forall>x \<in> set xs. \<not> P x \<Longrightarrow> split_first P (xs @ e # ys) = Some (xs, e, ys)"
  by (induction xs) auto

lemma dispatch_reply:
  assumes m: "message_type (header m) = GIOP_REPLY" "connection m = Some c"
    and q: "queued st = xs @ ent # ys"
      "\<forall>e \<in> set xs. \<not> (ent_request_id e = giop_recv_buffer_get_request_id m \<and> ent_msg_type e = GIOP_REPLY)"
    and e: "ent_request_id ent = giop_recv_buffer_get_request_id m" "ent_msg_type ent = GIOP_REPLY"
      "ent_cnx ent = Some c" and st: "incoming_msg st = None"
  shows "dispatch renv st m =
    (st\<lparr>queued := xs @ ys, answered := ent\<lparr>ent_buffer := Some m\<rparr> # answered st\<rparr>,
     if async_cb ent then [Ev_async (ent\<lparr>ent_buffer := Some m\<rparr>)]
     else if thread_io renv then [Ev_signal (ent_id ent) GIOP_REPLY] else [])"
proof -
  have "split_first (\<lambda>e. ent_request_id e = giop_recv_buffer_get_request_id m \<and> ent_msg_type e = GIOP_REPLY)
      (queued st) = Some (xs, ent, ys)"
    unfolding q(1) by (rule split_first_append) (use q(2) e in auto)
  with m e st show ?thesis by (simp add: dispatch_def Let_def handle_reply_def)
qed


section \<open>A concrete pair of peers\<close>

text \<open>Concrete peers for the witnesses: an authenticated connection whose allocator hands out address 8.\<close>

definition ex_send_env :: SendEnv where
  "ex_send_env = \<lparr>giop_blank_wire_data = True, fresh = (\<lambda>n. []), umem = (\<lambda>n. [])\<rparr>"

definition ex_input_env :: input_env where
  "ex_input_env = \<lparr>cnx_id = 1, is_auth = False, msg_limit = GIOP_INITIAL_MSG_SIZE_LIMIT,
     try_alloc = (\<lambda>n. Some 8), thread_io = False\<rparr>"

definition ex_entry :: GIOPMessageQueueEntry where
  "ex_entry = \<lparr>ent_id = 5, ent_buffer = None, ent_cnx = Some 1, ent_msg_type = GIOP_REPLY,
     ent_request_id = 7, async_cb = True\<rparr>"

definition ex_state :: input_state where
  "ex_state = \<lparr>incoming_msg = None, incoming_frags = [], queued = [ex_entry], answered = []\<rparr>"

definition ex_opv :: iovec where
  "ex_opv = \<lparr>iov_base = (BTemp (op_vec_bytes [0x68, 0x69]), 0), iov_len = 8\<rparr>"

definition ex_key :: okey where "ex_key = (3, (BTemp [1, 2, 3], 0))"

definition ex_request :: GIOPSendBuffer where
  "ex_request = fst (giop_send_buffer_use_request ex_send_env [] GIOP_1_2 7 1 ex_key ex_opv None)"

definition ex_reply :: GIOPSendBuffer where
  "ex_reply = fst (giop_send_buffer_use_reply ex_send_env [] GIOP_1_1 7 0)"

text \<open>A finished message with nothing appended.\<close>

lemma emits_nothing: "builds env v mt bs b \<Longrightarrow> bs \<noteq> [] \<Longrightarrow> emits env b [] b"
  by (auto simp: emits_def builds_def)

lemma emits_ex_request: "emits ex_send_env ex_request [] ex_request"
proof -
  have "\<exists>p1 p2 p3. length p1 = 2 \<and> length p2 = pad 4 (28 + unat (fst ex_key)) \<and>
      length p3 = pad 8 (52 + unat (fst ex_key) + pad 4 (28 + unat (fst ex_key)) + iov_len ex_opv) \<and>
      builds ex_send_env GIOP_1_2 GIOP_REQUEST (le32 7 @ ((if (1 :: byte) \<noteq> 0 then 3 else 0) # [0, 0, 0]) @
        le16 GIOP_KeyAddr @ p1 @ le32 (fst ex_key) @ key_bytes ex_send_env ex_key @ p2 @
        iov_bytes ex_send_env ex_opv @ iop_service_context_data @ p3) ex_request"
    unfolding ex_request_def
    by (rule use_request_layout_1_2) (simp_all add: ex_key_def ex_opv_def key_ok_def iov_ok_def src_ok_def length_op_vec pad_def align_up_def)
  then show ?thesis by (auto intro: emits_nothing)
qed

lemma emits_ex_reply: "emits ex_send_env ex_reply [] ex_reply"
proof -
  have "\<exists>p. builds ex_send_env GIOP_1_1 GIOP_REPLY (if GIOP_1_1 = GIOP_1_2 then le32 7 @ le32 0 @ iop_service_context_data @ p
      else iop_service_context_data @ le32 7 @ le32 0) ex_reply \<and> length p = 4"
    unfolding ex_reply_def by (rule use_reply_layout) simp
  then have "builds ex_send_env GIOP_1_1 GIOP_REPLY (iop_service_context_data @ le32 7 @ le32 0) ex_reply" by auto
  then show ?thesis by (rule emits_nothing) (simp add: le32_def)
qed

lemma ex_sizes: "length (payload ex_send_env ex_request) = 52" "length (payload ex_send_env ex_reply) = 32"
  by code_simp+

lemma ex_accepts: "n \<le> 1000 \<Longrightarrow> accepts ex_input_env n 8"
  by (simp add: accepts_def ex_input_env_def GIOP_INITIAL_MSG_SIZE_LIMIT_def)

section \<open>End to end\<close>

text \<open>However the transport cuts a message into reads, the loop sees what one read shows.\<close>

lemma any_segmentation:
  assumes st: "state_inv st" and ne: "bs \<noteq> []" and rs: "no_empty rs" "tokens rs = map Some bs"
    and one: "giop_connection_handle_input env st [Bytes bs] = (s, ev, [], True)"
  shows "giop_connection_handle_input env st rs = (s, ev, [], True)"
proof -
  obtain s' ev' rest al where hi: "giop_connection_handle_input env st rs = (s', ev', rest, al)"
    by (metis prod_cases4)
  have "feed env st (map Some bs) = (s, ev, [], True)"
    using handle_input_feed [OF st _ one] ne by (simp add: no_empty_def)
  with handle_input_feed [OF st rs(1) hi] rs(2) have "s' = s" "ev' = ev" "tokens rest = []" "al" "no_empty rest"
    by auto
  moreover from this have "rest = []"
    by (cases rest rule: tokens.cases) (auto simp: no_empty_def)
  ultimately show ?thesis using hi by simp
qed

lemma use_request_builds:
  fixes v :: GIOPVersion and rid :: u32 and resp :: byte
  assumes pool: "\<forall>b \<in> set sbl. pool_ok b" and key: "key_ok env key" and op: "iov_ok env opv"
    and sz: "unat (fst key) + iov_len opv + 100 < 2 ^ 32"
  defines "b \<equiv> fst (giop_send_buffer_use_request env sbl v rid resp key opv None)"
  shows "builds env v GIOP_REQUEST (payload env b) b" "payload env b \<noteq> []"
    "length (payload env b) \<le> unat (fst key) + iov_len opv + 60"
proof -
  have kl: "length (key_bytes env key) = unat (fst key)" by (rule length_key [OF key])
  have ol: "length (iov_bytes env opv) = iov_len opv"
    using op length_src by (metis iov_bytes_def iov_ok_def)
  have "\<exists>pl. builds env v GIOP_REQUEST pl b \<and> pl \<noteq> [] \<and> length pl \<le> unat (fst key) + iov_len opv + 60"
  proof (cases "v = GIOP_1_2")
    case True
    from use_request_layout_1_2 [OF pool key sz op refl, of rid resp None] obtain p1 p2 p3 where
      p: "length p1 = 2" "length p2 = pad 4 (28 + unat (fst key))"
        "length p3 = pad 8 (52 + unat (fst key) + pad 4 (28 + unat (fst key)) + iov_len opv)"
      and bu: "builds env GIOP_1_2 GIOP_REQUEST (le32 rid @ ((if resp \<noteq> 0 then 3 else 0) # [0, 0, 0]) @
         le16 GIOP_KeyAddr @ p1 @ le32 (fst key) @ key_bytes env key @ p2 @ iov_bytes env opv @
         iop_service_context_data @ p3) b"
      unfolding True b_def by blast
    show ?thesis
      using bu p kl ol pad_lt [of 4 "28 + unat (fst key)"]
        pad_lt [of 8 "52 + unat (fst key) + pad 4 (28 + unat (fst key)) + iov_len opv"]
      unfolding True by (intro exI conjI) (assumption, simp, simp add: length_scd)
  next
    case False
    have pr: "iov_ok env (principal_iov None)" "iov_bytes env (principal_iov None) = [0, 0, 0, 0]"
      by (simp_all add: iov_ok_def principal_iov_def src_ok_def iov_bytes_def src_bytes_def)
    have "unat (fst key) + 64 < 2 ^ 32" using sz(1) by simp
    from use_request_layout_1_1 [OF pool False key this op pr(1), of rid resp] obtain p1 p2 where
      p: "length p1 = 3" "length p2 = pad 4 (48 + unat (fst key))"
      and bu: "builds env v GIOP_REQUEST (iop_service_context_data @ le32 rid @ (resp # p1) @ le32 (fst key) @
         key_bytes env key @ p2 @ iov_bytes env opv @ iov_bytes env (principal_iov None)) b"
      unfolding b_def by blast
    show ?thesis
      using bu p kl ol pr(2) pad_lt [of 4 "48 + unat (fst key)"]
      by (intro exI conjI) (assumption, simp, simp add: length_scd)
  qed
  then show "builds env v GIOP_REQUEST (payload env b) b" "payload env b \<noteq> []"
    "length (payload env b) \<le> unat (fst key) + iov_len opv + 60"
    by (auto simp: builds_def)
qed

lemma request_heard:
  assumes pool: "\<forall>b \<in> set sbl. pool_ok b" and key: "key_ok env key"
    and op: "iov_ok env opv" "iov_bytes env opv = op_vec_bytes name" "0 \<notin> set name"
    and args: "builds env v GIOP_REQUEST
       (payload env (fst (giop_send_buffer_use_request env sbl v rid resp key opv None)) @ args) b"
    and sz: "unat (fst key) + iov_len opv + 100 < 2 ^ 32" "length (payload env b) < 2 ^ 32"
    and ac: "accepts renv (length (payload env b)) a" and st: "incoming_msg st = None"
    and rs: "no_empty rs" "tokens rs = map Some (wire env b)"
  shows "\<exists>m. giop_connection_handle_input renv st rs = (st, [Ev_handle_request m], [], True) \<and>
    is_request m v rid (if v = GIOP_1_2 then (if resp \<noteq> 0 then 3 else 0) else resp) (key_bytes env key) name args \<and>
    has_room 0 m \<and> view False m (12 + length (payload env b) - length args) args"
    (is "\<exists>m. ?P m \<and> ?Q m")
proof -
  let ?b0 = "fst (giop_send_buffer_use_request env sbl v rid resp key opv None)"
  have kl: "length (key_bytes env key) = unat (fst key)" by (rule length_key [OF key])
  have ol: "length (op_vec_bytes name) = iov_len opv"
    using op length_src by (metis iov_bytes_def iov_ok_def)
  have "\<exists>m. giop_connection_handle_input renv st [Bytes (wire env b)] = (st, [Ev_handle_request m], [], True) \<and> ?Q m"
  proof (cases "v = GIOP_1_2")
    case True
    from use_request_layout_1_2 [OF pool key sz(1) op(1) refl, of rid resp None] obtain p1 p2 p3 where
      p: "length p1 = 2" "length p2 = pad 4 (28 + unat (fst key))"
        "length p3 = pad 8 (52 + unat (fst key) + pad 4 (28 + unat (fst key)) + iov_len opv)"
      and bu: "builds env GIOP_1_2 GIOP_REQUEST (le32 rid @ ((if resp \<noteq> 0 then 3 else 0) # [0, 0, 0]) @
         le16 GIOP_KeyAddr @ p1 @ le32 (fst key) @ key_bytes env key @ p2 @ iov_bytes env opv @
         iop_service_context_data @ p3) ?b0"
      unfolding True by blast
    have bl: "builds env GIOP_1_2 GIOP_REQUEST (payload env b) b"
      using args by (simp add: True builds_def)
    have pl: "payload env b = le32 rid @ ((if resp \<noteq> 0 then 3 else 0) # [0, 0, 0]) @
         le16 GIOP_KeyAddr @ p1 @ le32 (fst key) @ key_bytes env key @ p2 @ op_vec_bytes name @
         iop_service_context_data @ p3 @ args"
      using args bu op(2) by (simp add: builds_def)
    show ?thesis
      unfolding True if_P [OF refl]
      by (rule request_1_2_heard [OF bl pl p(1) kl p(2) _ op(3) sz(2) ac st]) (use p ol in simp)
  next
    case False
    have pr: "iov_ok env (principal_iov None)" "iov_bytes env (principal_iov None) = [0, 0, 0, 0]"
      by (simp_all add: iov_ok_def principal_iov_def src_ok_def iov_bytes_def src_bytes_def)
    have "unat (fst key) + 64 < 2 ^ 32" using sz(1) by simp
    from use_request_layout_1_1 [OF pool False key this op(1) pr(1), of rid resp] obtain p1 p2 where
      p: "length p1 = 3" "length p2 = pad 4 (48 + unat (fst key))"
      and bu: "builds env v GIOP_REQUEST (iop_service_context_data @ le32 rid @ (resp # p1) @ le32 (fst key) @
         key_bytes env key @ p2 @ iov_bytes env opv @ iov_bytes env (principal_iov None)) ?b0"
      by blast
    have bl: "builds env v GIOP_REQUEST (payload env b) b"
      using args by (simp add: builds_def)
    have pl: "payload env b = iop_service_context_data @ le32 rid @ (resp # p1) @ le32 (fst key) @
         key_bytes env key @ p2 @ op_vec_bytes name @ [0, 0, 0, 0] @ args"
      using args bu op(2) pr(2) by (simp add: builds_def)
    show ?thesis
      using request_1_1_heard [OF False bl pl p(1) kl p(2) op(3) sz(2) ac st] False by simp
  qed
  then obtain m where m: "giop_connection_handle_input renv st [Bytes (wire env b)] = (st, [Ev_handle_request m], [], True)"
    "?Q m" by blast
  have "wire env b \<noteq> []" using wire_builds [OF args] by (simp add: header_bytes_def)
  with any_segmentation [OF _ _ rs m(1)] m(2) st show ?thesis by (auto simp: state_inv_def)
qed

text \<open>
  C6. A request put together by \<open>giop_send_buffer_use_request\<close> (any GIOP version) with
  arbitrary marshalled arguments appended, written to a connection and cut into reads in
  any way, makes \<open>giop_connection_handle_input\<close> hand exactly one request to the ORB; it
  has the same id, response flags, object key, operation name and service context, and
  its cursor stands at the arguments.
\<close>

theorem request_roundtrip:
  assumes pool: "\<forall>b \<in> set sbl. pool_ok b" and key: "key_ok env key"
    and op: "iov_ok env opv" "iov_bytes env opv = op_vec_bytes name" "0 \<notin> set name"
    and args: "emits env (fst (giop_send_buffer_use_request env sbl v rid resp key opv None)) args b"
    and sz: "unat (fst key) + iov_len opv + 100 < 2 ^ 32" "length (payload env b) < 2 ^ 32"
    and ac: "accepts renv (length (payload env b)) a" and st: "incoming_msg st = None"
    and rs: "no_empty rs" "tokens rs = map Some (wire env b)"
  shows "\<exists>m. giop_connection_handle_input renv st rs = (st, [Ev_handle_request m], [], True) \<and>
    is_request m v rid (if v = GIOP_1_2 then (if resp \<noteq> 0 then 3 else 0) else resp) (key_bytes env key) name args"
  using request_heard [OF pool key op builds_emits [OF use_request_builds(1) [OF pool key op(1) sz(1)] args] sz ac st rs]
  by blast

theorem request_roundtrip_witness:
  "\<exists>m. giop_connection_handle_input ex_input_env ex_state
      [Bytes (take 20 (wire ex_send_env ex_request)), Bytes (drop 20 (wire ex_send_env ex_request))]
      = (ex_state, [Ev_handle_request m], [], True) \<and>
    is_request m GIOP_1_2 7 3 (key_bytes ex_send_env ex_key) [0x68, 0x69] []"
proof -
  have l: "length (wire ex_send_env ex_request) = 64"
    using emits_ex_request ex_sizes by (simp add: emits_def wire_eq header_bytes_def)
  have rs: "no_empty [Bytes (take 20 (wire ex_send_env ex_request)), Bytes (drop 20 (wire ex_send_env ex_request))]"
    "tokens [Bytes (take 20 (wire ex_send_env ex_request)), Bytes (drop 20 (wire ex_send_env ex_request))]
      = map Some (wire ex_send_env ex_request)"
    using l by (auto simp: no_empty_def simp flip: map_append)
  show ?thesis
    using request_roundtrip [of "[]" ex_send_env ex_key ex_opv "[0x68, 0x69]" GIOP_1_2 7 1 "[]" ex_request
        ex_input_env 8 ex_state, OF _ _ _ _ _ _ _ _ _ _ rs]
      ex_sizes emits_ex_request
    by (simp add: key_ok_def src_ok_def ex_key_def iov_ok_def ex_opv_def length_op_vec pad_def align_up_def
        iov_bytes_def src_bytes_def ex_state_def ex_accepts ex_request_def)
qed

lemma use_reply_builds:
  assumes "\<forall>b \<in> set sbl. pool_ok b"
  shows "builds env v GIOP_REPLY (payload env (fst (giop_send_buffer_use_reply env sbl v rid status)))
      (fst (giop_send_buffer_use_reply env sbl v rid status))"
    and "payload env (fst (giop_send_buffer_use_reply env sbl v rid status)) \<noteq> []"
    and "length (payload env (fst (giop_send_buffer_use_reply env sbl v rid status))) \<le> 36"
  using use_reply_layout [OF assms, of env v rid status]
  by (auto simp: builds_def length_scd le32_def split: if_splits dest: arg_cong [where f = length])

lemma reply_heard:
  assumes pool: "\<forall>b \<in> set sbl. pool_ok b"
    and results: "builds env v GIOP_REPLY
       (payload env (fst (giop_send_buffer_use_reply env sbl v rid status)) @ results) b"
    and sz: "length (payload env b) < 2 ^ 32"
    and ac: "accepts renv (length (payload env b)) a" and st: "incoming_msg st = None"
    and q: "queued st = xs @ ent # ys" "\<forall>e \<in> set xs. \<not> (ent_request_id e = rid \<and> ent_msg_type e = GIOP_REPLY)"
    and ent: "ent_request_id ent = rid" "ent_msg_type ent = GIOP_REPLY" "ent_cnx ent = Some (cnx_id renv)"
    and rs: "no_empty rs" "tokens rs = map Some (wire env b)"
  shows "\<exists>m. giop_connection_handle_input renv st rs =
      (st\<lparr>queued := xs @ ys, answered := ent\<lparr>ent_buffer := Some m\<rparr> # answered st\<rparr>,
       if async_cb ent then [Ev_async (ent\<lparr>ent_buffer := Some m\<rparr>)]
       else if thread_io renv then [Ev_signal (ent_id ent) GIOP_REPLY] else [], [], True) \<and>
    is_reply m v rid status results \<and> has_room 0 m \<and>
    view False m (12 + length (payload env b) - length results) results"
proof -
  from use_reply_layout [OF pool, of env v rid status] obtain p where p: "length p = 4"
    and bu: "builds env v GIOP_REPLY (if v = GIOP_1_2 then le32 rid @ le32 status @ iop_service_context_data @ p
       else iop_service_context_data @ le32 rid @ le32 status) (fst (giop_send_buffer_use_reply env sbl v rid status))"
      (is "builds _ _ _ ?pl _")
    by blast
  have bl: "builds env v GIOP_REPLY (payload env b) b" and pl: "payload env b = ?pl @ results"
    using bu results by (simp_all add: builds_def)
  let ?r = "\<lparr>rp_service_context = [code_set_context], rp_request_id = rid, rp_reply_status = status\<rparr>"
  have l0: "0 < length (payload env b)" by (simp add: pl le32_def)
  have off: "12 + length ?pl + length results = 12 + length (payload env b)" by (simp add: pl)
  obtain m where hi: "giop_connection_handle_input renv st [Bytes (wire env b)] =
      (case dispatch renv st m of (s, ev) \<Rightarrow> (s, ev, [], True))"
    and m: "message_type (header m) = GIOP_REPLY" "giop_version m = v"
      "msg_u m = (if v = GIOP_1_2 then Msg_reply_1_2 ?r else Msg_reply_1_1 ?r)" "remaining m = results"
      "connection m = Some (cnx_id renv)" "view False m (12 + length ?pl) results" "has_room 0 m"
    by (rule heard [OF bl _ l0 sz ac st reply_decodes [OF _ _ _ refl p] off]) (simp_all add: pl)
  have ir: "is_reply m v rid status results"
    using m by (auto simp: is_reply_def giop_recv_buffer_get_request_id_def giop_recv_buffer_reply_status_def
        service_context_of_def)
  then have id: "giop_recv_buffer_get_request_id m = rid" by (simp add: is_reply_def)
  have "wire env b \<noteq> []" using bl by (simp add: wire_builds header_bytes_def)
  from any_segmentation [OF _ this rs, of st renv] hi ir
    m(6,7) pl dispatch_reply [OF m(1,5) q [folded id] ent(1) [folded id] ent(2,3) st, of renv] st
  show ?thesis by (auto simp: state_inv_def)
qed

text \<open>
  C26. A reply put together by \<open>giop_send_buffer_use_reply\<close> with arbitrary marshalled
  results, cut into reads in any way, is given to the first outstanding request of that id
  on this connection and to no other; the entry leaves the list, its owner is told, and
  the buffer reads back as the reply that was sent.
\<close>

theorem reply_roundtrip:
  assumes pool: "\<forall>b \<in> set sbl. pool_ok b"
    and results: "emits env (fst (giop_send_buffer_use_reply env sbl v rid status)) results b"
    and sz: "length (payload env b) < 2 ^ 32"
    and ac: "accepts renv (length (payload env b)) a" and st: "incoming_msg st = None"
    and q: "queued st = xs @ ent # ys" "\<forall>e \<in> set xs. \<not> (ent_request_id e = rid \<and> ent_msg_type e = GIOP_REPLY)"
    and ent: "ent_request_id ent = rid" "ent_msg_type ent = GIOP_REPLY" "ent_cnx ent = Some (cnx_id renv)"
    and rs: "no_empty rs" "tokens rs = map Some (wire env b)"
  shows "\<exists>m. giop_connection_handle_input renv st rs =
      (st\<lparr>queued := xs @ ys, answered := ent\<lparr>ent_buffer := Some m\<rparr> # answered st\<rparr>,
       if async_cb ent then [Ev_async (ent\<lparr>ent_buffer := Some m\<rparr>)]
       else if thread_io renv then [Ev_signal (ent_id ent) GIOP_REPLY] else [], [], True) \<and>
    is_reply m v rid status results"
  using reply_heard [OF pool builds_emits [OF use_reply_builds(1) [OF pool] results] sz ac st q ent rs] by blast

theorem reply_roundtrip_witness:
  "\<exists>m. giop_connection_handle_input ex_input_env ex_state [Bytes (wire ex_send_env ex_reply)] =
      (ex_state\<lparr>queued := [], answered := [ex_entry\<lparr>ent_buffer := Some m\<rparr>]\<rparr>,
       [Ev_async (ex_entry\<lparr>ent_buffer := Some m\<rparr>)], [], True) \<and>
    is_reply m GIOP_1_1 7 0 []"
proof -
  have rs: "no_empty [Bytes (wire ex_send_env ex_reply)]"
    "tokens [Bytes (wire ex_send_env ex_reply)] = map Some (wire ex_send_env ex_reply)"
    using emits_ex_reply by (simp_all add: no_empty_def emits_def wire_eq header_bytes_def)
  show ?thesis
    using reply_roundtrip [of "[]" ex_send_env GIOP_1_1 7 0 "[]" ex_reply ex_input_env 8 ex_state "[]" ex_entry "[]",
        OF _ _ _ ex_accepts _ _ _ _ _ _ rs] ex_sizes emits_ex_reply
    by (simp add: ex_reply_def [symmetric] ex_state_def ex_entry_def ex_input_env_def)
qed

end
