(* ===== verification/Giop_Fragments.thy ===== *)
theory Giop_Fragments
  imports Giop_Input
begin

text \<open>
  Reassembly of fragmented messages (\<open>concat_frags\<close> and
  \<open>giop_recv_buffer_handle_fragmented\<close>). A fragment set is its head, which keeps the
  decoded message header and the running total of sizes, and the fragments that followed.
  \<open>set_ok\<close> is the invariant of a set, \<open>data_of\<close> the bytes it has collected.
\<close>

definition frag_len :: "GIOPRecvBuffer \<Rightarrow> nat" where
  "frag_len b = unat (rend b) - unat (rcur b)"

definition own_len :: "GIOPRecvBuffer \<Rightarrow> nat" where
  "own_len b = unat (rend b) - unat (message_body b) - 12"

definition total_len :: "GIOPRecvBuffer list \<Rightarrow> nat" where
  "total_len fs = sum_list (map frag_len fs)"

definition data_of :: "GIOPRecvBuffer list \<Rightarrow> byte list" where
  "data_of fs = concat (map remaining fs)"

definition head_ok :: "GIOPRecvBuffer \<Rightarrow> bool" where
  "head_ok h \<longleftrightarrow> has_room 0 h \<and> free_body h \<and> unat (message_body h) + 12 \<le> unat (rcur h)"

definition set_ok :: "GIOPRecvBuffer list \<Rightarrow> bool" where
  "set_ok s \<longleftrightarrow> (\<exists>h fs. s = h # fs \<and> head_ok h \<and> (\<forall>f \<in> set fs. has_room 0 f) \<and>
     message_size (header h) = of_nat (own_len h + total_len fs))"

lemma ptr_diff: "unat b \<le> unat a \<Longrightarrow> unat (a - b) = unat a - unat (b :: u64)"
  by (simp add: unat_sub word_le_nat_alt)

lemma word_of_nat_eq: "unat (x :: u64) = n \<Longrightarrow> x = of_nat n"
  by auto

lemma unat_of_nat64: "x = of_nat n \<Longrightarrow> n < 2 ^ 64 \<Longrightarrow> unat (x :: u64) = n"
  by (simp add: unat_of_nat)

lemma take_realloc: "n \<le> m \<Longrightarrow> n \<le> length xs \<Longrightarrow> take n (realloc_bytes xs m) = take n xs"
  by (simp add: realloc_bytes_def min_def)

lemma room_facts:
  assumes "has_room 0 f"
  shows "unat (rend f - rcur f) = frag_len f"
    and "unat (rcur f - message_body f) = unat (rcur f) - unat (message_body f)"
    and "length (remaining f) = frag_len f"
proof -
  from assms have w: "unat (message_body f) \<le> unat (rcur f)" "unat (rcur f) \<le> unat (rend f)"
    "unat (rend f) \<le> unat (message_body f) + length (body_mem f)"
    by (auto simp: has_room_def wf_buf_def)
  then show "unat (rend f - rcur f) = frag_len f"
    "unat (rcur f - message_body f) = unat (rcur f) - unat (message_body f)"
    by (simp_all add: ptr_diff frag_len_def)
  then show "length (remaining f) = frag_len f"
    using w by (auto simp: remaining_def frag_len_def min_def)
qed

lemma frag_word: "has_room 0 f \<Longrightarrow> rend f - rcur f = of_nat (frag_len f)"
  by (rule word_of_nat_eq) (rule room_facts(1))

lemma copy_frags_data:
  assumes "\<forall>f \<in> set fs. has_room 0 f" and "unat (p - message_body h) = o'"
    and "o' + total_len fs \<le> length (body_mem h)" and "o' + total_len fs < 2 ^ 64"
  shows "copy_frags h p fs =
    (h\<lparr>body_mem := take o' (body_mem h) @ data_of fs @ drop (o' + total_len fs) (body_mem h)\<rparr>,
     p + of_nat (total_len fs))"
  using assms
proof (induction fs arbitrary: h p o')
  case Nil
  then show ?case by (simp add: total_len_def data_of_def)
next
  case (Cons f fs)
  let ?n = "frag_len f" and ?h = "deposit h p (remaining f)"
  have f: "has_room 0 f" "\<forall>f \<in> set fs. has_room 0 f" using Cons.prems(1) by auto
  note rf = room_facts [OF f(1)]
  have tl: "total_len (f # fs) = ?n + total_len fs" by (simp add: total_len_def)
  have mem: "body_mem ?h = take o' (body_mem h) @ remaining f @ drop (o' + ?n) (body_mem h)"
    by (simp add: deposit_def Let_def Cons.prems(2) rf(3))
  have p': "unat (p + (rend f - rcur f) - message_body ?h) = o' + ?n"
  proof -
    have "p + (rend f - rcur f) - message_body ?h = (p - message_body h) + of_nat ?n"
      by (simp add: deposit_def Let_def frag_word [OF f(1)])
    moreover have "unat ((p - message_body h) + of_nat ?n) = o' + ?n"
      unfolding unat_word_ariths Cons.prems(2) unat_of_nat
      using Cons.prems(4) tl by (simp add: mod_simps)
    ultimately show ?thesis by (simp only:)
  qed
  have len: "length (body_mem ?h) = length (body_mem h)"
    using Cons.prems(3) tl rf(3) by (simp add: mem)
  have "copy_frags h p (f # fs) = copy_frags ?h (p + (rend f - rcur f)) fs" by simp
  also have "\<dots> = (?h\<lparr>body_mem := take (o' + ?n) (body_mem ?h) @ data_of fs @
      drop (o' + ?n + total_len fs) (body_mem ?h)\<rparr>, p + (rend f - rcur f) + of_nat (total_len fs))"
    by (rule Cons.IH [OF f(2) p']) (use Cons.prems(3,4) tl len in auto)
  also have "?h\<lparr>body_mem := take (o' + ?n) (body_mem ?h) @ data_of fs @ drop (o' + ?n + total_len fs) (body_mem ?h)\<rparr>
      = h\<lparr>body_mem := take o' (body_mem h) @ data_of (f # fs) @ drop (o' + total_len (f # fs)) (body_mem h)\<rparr>"
  proof -
    have "take (o' + ?n) (body_mem ?h) = take o' (body_mem h) @ remaining f"
      using Cons.prems(3) tl rf(3) by (simp add: mem min_def)
    moreover have "drop (o' + ?n + total_len fs) (body_mem ?h) = drop (o' + ?n + total_len fs) (body_mem h)"
      using Cons.prems(3) tl rf(3) by (simp add: mem min_def add.commute add.left_commute)
    ultimately show ?thesis by (simp add: deposit_def Let_def data_of_def tl add.assoc)
  qed
  finally show ?case by (simp add: frag_word [OF f(1)] tl add.assoc)
qed

lemma concat_frags_data:
  assumes h: "head_ok h" and fs: "\<forall>f \<in> set fs. has_room 0 f"
    and ms: "message_size (header h) = of_nat (own_len h + total_len fs)"
    and sz: "own_len h + total_len fs < 2 ^ 32"
    and al: "alloc (own_len h + total_len fs + (unat (rcur h) - unat (message_body h))) = Some a"
    and top: "unat a + own_len h + total_len fs + (unat (rcur h) - unat (message_body h)) < 2 ^ 64"
  shows "\<exists>h'. concat_frags alloc h fs = Done (Some h') \<and> remaining h' = data_of (h # fs) \<and>
    header h' = header h \<and> msg_u h' = msg_u h \<and> connection h' = connection h"
proof -
  let ?io = "unat (rcur h) - unat (message_body h)" and ?il = "frag_len h" and ?M = "own_len h + total_len fs"
  have room: "has_room 0 h" and fb: "free_body h" and io12: "12 \<le> ?io" using h by (auto simp: head_ok_def)
  note rh = room_facts [OF room]
  have sum: "?io + ?il = own_len h + 12" and old: "?io + ?il \<le> length (body_mem h)"
    using h by (auto simp: head_ok_def has_room_def wf_buf_def frag_len_def own_len_def)
  have io: "rcur h - message_body h = of_nat ?io" by (rule word_of_nat_eq) (rule rh(2))
  have "unat (message_size (header h)) = ?M" unfolding ms unat_of_nat using sz by (intro mod_less) simp
  then have um: "unat (ucast (message_size (header h)) :: u64) = ?M" by simp
  then have cm: "(ucast (message_size (header h)) :: u64) = of_nat ?M" by (rule word_of_nat_eq)
  have len: "unat (ucast (message_size (header h)) + (rcur h - message_body h) - 12 + 12) = ?M + ?io"
    using top unfolding cm io by (simp add: unat_of_nat flip: of_nat_add)
  let ?mem = "realloc_bytes (body_mem h) (?M + ?io)"
  let ?len = "ucast (message_size (header h)) + (rcur h - message_body h) - 12 :: u64"
  let ?h1 = "h\<lparr>message_body := a, body_mem := ?mem, free_body := True, rcur := a + (rcur h - message_body h),
      rend := a + 12 + ?len, left_to_read := 0\<rparr>"
  have lm: "length ?mem = ?M + ?io" by (simp add: realloc_bytes_def)
  have start: "unat (rcur ?h1 + (rend h - rcur h) - message_body ?h1) = ?io + ?il"
  proof -
    have "rcur ?h1 + (rend h - rcur h) - message_body ?h1 = of_nat (?io + ?il)"
      by (simp add: io frag_word [OF room])
    then show ?thesis by (rule unat_of_nat64) (use top sum io12 in linarith)
  qed
  have cp: "copy_frags ?h1 (rcur ?h1 + (rend h - rcur h)) fs =
      (?h1\<lparr>body_mem := take (?io + ?il) ?mem @ data_of fs @ drop (?io + ?il + total_len fs) ?mem\<rparr>,
       rcur ?h1 + (rend h - rcur h) + of_nat (total_len fs))"
    using copy_frags_data [OF fs start] sum io12 top lm by simp
  let ?p = "rcur ?h1 + (rend h - rcur h) + of_nat (total_len fs)"
  let ?h' = "?h1\<lparr>body_mem := take (?io + ?il) ?mem @ data_of fs @ drop (?io + ?il + total_len fs) ?mem, rend := ?p\<rparr>"
  have cf: "concat_frags alloc h fs = Done (Some ?h')"
  proof -
    have ab: "alloc_buffer alloc h (body_mem h) ?len =
        Some (?h1\<lparr>rcur := a + 12, left_to_read := ?len\<rparr>)"
      unfolding alloc_buffer_def len al by simp
    have h1: "(?h1\<lparr>rcur := a + 12, left_to_read := ?len\<rparr>)\<lparr>left_to_read := 0,
        rcur := message_body (?h1\<lparr>rcur := a + 12, left_to_read := ?len\<rparr>) + (rcur h - message_body h)\<rparr> = ?h1"
      by simp
    show ?thesis
      unfolding concat_frags_def Let_def ab option.case h1 cp split_conv using fb by simp
  qed
  have tk: "take (?io + ?il) ?mem = take (?io + ?il) (body_mem h)"
    by (rule take_realloc [OF _ old]) (use sum io12 in linarith)
  have dl: "length (data_of fs) = total_len fs"
    using fs room_facts(3) by (auto simp: data_of_def total_len_def length_concat comp_def intro!: arg_cong [where f = sum_list])
  have "unat (?p - rcur ?h1) = ?il + total_len fs"
  proof -
    have "?p - rcur ?h1 = of_nat (?il + total_len fs)" by (simp add: frag_word [OF room])
    then show ?thesis by (rule unat_of_nat64) (use top sum io12 in linarith)
  qed
  moreover have "unat (rcur ?h1 - message_body ?h1) = ?io" using rh(2) by simp
  ultimately have "remaining ?h' = take (?il + total_len fs)
      (drop ?io (take (?io + ?il) (body_mem h) @ data_of fs @ drop (?io + ?il + total_len fs) ?mem))"
    by (simp add: remaining_def tk)
  also have "\<dots> = drop ?io (take (?io + ?il) (body_mem h)) @ data_of fs"
    using old dl by (simp add: min_def)
  also have "\<dots> = data_of (h # fs)"
    by (simp add: data_of_def remaining_def rh drop_take)
  finally show ?thesis using cf by (intro exI [of _ ?h']) simp
qed


section \<open>The handler on a set\<close>

text \<open>The buffer a handler sees: the fragment with its message id consumed.\<close>

definition joins :: "frags \<Rightarrow> GIOPRecvBuffer \<Rightarrow> GIOPRecvBuffer \<Rightarrow> nat \<Rightarrow> bool" where
  "joins fs buf0 buf i \<longleftrightarrow> (\<exists>mid. frag_message_id buf0 = Inr (mid, buf) \<and>
     giop_connection_get_frag fs mid (giop_version buf = GIOP_1_1) = Some i)"

definition too_big :: "int \<Rightarrow> bool \<Rightarrow> GIOPRecvBuffer \<Rightarrow> bool" where
  "too_big limit auth buf \<longleftrightarrow> \<not> auth \<and> uint (message_size (header buf)) > limit"

definition grown :: "GIOPRecvBuffer list \<Rightarrow> GIOPRecvBuffer \<Rightarrow> GIOPRecvBuffer list" where
  "grown s buf = (hd s)\<lparr>header := (header (hd s))\<lparr>message_size :=
     message_size (header (hd s)) + ucast (rend buf - rcur buf)\<rparr>\<rparr> # tl s @ [buf]"

lemma remaining_header [simp]: "remaining (b\<lparr>header := h\<rparr>) = remaining b"
  by (simp add: remaining_def)

lemma has_room_header [simp]: "has_room n (b\<lparr>header := h\<rparr>) = has_room n b"
  by (simp add: has_room_def wf_buf_def)

lemma grown_ok:
  assumes "set_ok s" and "has_room 0 buf"
  shows "set_ok (grown s buf)" and "data_of (grown s buf) = data_of s @ remaining buf"
    and "own_len (hd (grown s buf)) = own_len (hd s)"
    and "total_len (tl (grown s buf)) = total_len (tl s) + frag_len buf"
    and "message_type (header (hd (grown s buf))) = message_type (header (hd s))"
    and "message_body (hd (grown s buf)) = message_body (hd s)" "rcur (hd (grown s buf)) = rcur (hd s)"
proof -
  from assms(1) obtain h fs where s: "s = h # fs" "head_ok h" "\<forall>f \<in> set fs. has_room 0 f"
    "message_size (header h) = of_nat (own_len h + total_len fs)" by (auto simp: set_ok_def)
  have "(ucast (of_nat (frag_len buf) :: u64) :: u32) = of_nat (frag_len buf)"
    by (simp add: unsigned_of_nat word_of_nat_eq_iff)
  then show "set_ok (grown s buf)"
    using s assms(2) frag_word [OF assms(2)]
    by (auto simp: set_ok_def grown_def head_ok_def total_len_def own_len_def)
qed (use assms in \<open>auto simp: set_ok_def grown_def data_of_def total_len_def own_len_def\<close>)

text \<open>Buffers for the witnesses: a decoded request and fragments of it.\<close>

definition ex_head :: GIOPRecvBuffer where
  "ex_head = \<lparr>header = \<lparr>magic = [0x47, 0x49, 0x4F, 0x50], version = (1, 2), flags = 3,
       message_type = GIOP_REPLY, message_size = 8\<rparr>,
     msg_u = Msg_reply_1_2 \<lparr>rp_service_context = [], rp_request_id = 7, rp_reply_status = 0\<rparr>, hdr_mem = [],
     message_body = 64, body_mem = replicate 18 0 @ [1, 2], rcur = 82, rend = 84, connection = Some 1,
     buf_state = GIOP_MSG_READY, giop_version = GIOP_1_2, left_to_read = 0, free_body = True\<rparr>"

definition ex_frag :: "byte \<Rightarrow> GIOPRecvBuffer" where
  "ex_frag fl = \<lparr>header = \<lparr>magic = [0x47, 0x49, 0x4F, 0x50], version = (1, 2), flags = fl,
       message_type = GIOP_FRAGMENT, message_size = 7\<rparr>,
     msg_u = Msg_none, hdr_mem = [],
     message_body = 64, body_mem = replicate 12 0 @ le32 7 @ [3, 4, 5], rcur = 76, rend = 83, connection = Some 1,
     buf_state = GIOP_MSG_READY, giop_version = GIOP_1_2, left_to_read = 0, free_body = True\<rparr>"

definition ex_frag_read :: "byte \<Rightarrow> GIOPRecvBuffer" where
  "ex_frag_read fl = (ex_frag fl)\<lparr>rcur := 80\<rparr>"

lemma ex_head_ok: "set_ok [ex_head]"
  by (simp add: set_ok_def head_ok_def has_room_def wf_buf_def ex_head_def own_len_def total_len_def align_up_def)

lemma ex_frag_room: "has_room 0 (ex_frag_read fl)"
  by (simp add: has_room_def wf_buf_def ex_frag_read_def ex_frag_def align_up_def)

lemma ex_id: "frag_message_id (ex_frag 1) = Inr (7, ex_frag_read 1)"
  "frag_message_id (ex_frag 3) = Inr (7, ex_frag_read 3)"
  by code_simp+

lemma ex_joins: "fl = 1 \<or> fl = 3 \<Longrightarrow> joins [[ex_head]] (ex_frag fl) (ex_frag_read fl) 0"
  using ex_id by (auto simp: joins_def giop_connection_get_frag_def giop_recv_buffer_get_request_id_def ex_head_def word_le_nat_alt)

text \<open>
  A further fragment of a message (more to come) is accepted and appended: the set it
  joins keeps its invariant and its data grows by exactly the fragment's payload; the other
  sets are untouched.
\<close>

lemma fragment_appended:
  assumes "joins fs buf0 buf i" and "i < length fs" and "set_ok (fs ! i)" and "has_room 0 buf"
    and "message_type (header (hd (fs ! i))) \<noteq> GIOP_FRAGMENT" and "MORE_FRAGMENTS_FOLLOW buf"
    and "\<not> too_big limit auth buf"
  shows "\<exists>h s. giop_recv_buffer_handle_fragmented alloc limit auth fs buf0 =
      Done \<lparr>fr_error = False, fr_buf = h, fr_frags = fs[i := s]\<rparr> \<and>
    set_ok s \<and> data_of s = data_of (fs ! i) @ remaining buf"
proof -
  from assms(1) obtain mid where mid: "frag_message_id buf0 = Inr (mid, buf)"
    "giop_connection_get_frag fs mid (giop_version buf = GIOP_1_1) = Some i"
    by (auto simp: joins_def)
  have "giop_recv_buffer_handle_fragmented alloc limit auth fs buf0 =
      Done \<lparr>fr_error = False, fr_buf = hd (grown (fs ! i) buf), fr_frags = fs[i := grown (fs ! i) buf]\<rparr>"
    using mid assms(5-7) by (auto simp: giop_recv_buffer_handle_fragmented_def Let_def too_big_def grown_def)
  with grown_ok(1,2) [OF assms(3,4)] show ?thesis by blast
qed

lemma fragment_appended_witness:
  "\<exists>h s. giop_recv_buffer_handle_fragmented (\<lambda>n. Some 8) 1000 False [[ex_head]] (ex_frag 3) =
      Done \<lparr>fr_error = False, fr_buf = h, fr_frags = [s]\<rparr> \<and> data_of s = [1, 2, 3, 4, 5]"
proof -
  have "data_of [ex_head] @ remaining (ex_frag_read 3) = [1, 2, 3, 4, 5]" by code_simp
  moreover have "\<not> too_big 1000 False (ex_frag_read 3)" "MORE_FRAGMENTS_FOLLOW (ex_frag_read 3)" by code_simp+
  ultimately show ?thesis
    using fragment_appended [OF ex_joins [of 3], of 1000 False "\<lambda>n. Some 8"] ex_head_ok ex_frag_room [of 3]
    by (auto simp: ex_head_def)
qed

text \<open>
  C29. The last fragment completes the message: the head is returned with all the data of
  the set, in the order of arrival, followed by that of the last fragment, readable at its
  cursor, with the decoded header of the first fragment; the set leaves the connection.
\<close>

theorem fragments_reassembled:
  assumes "joins fs buf0 buf i" and "i < length fs" and "set_ok (fs ! i)" and "has_room 0 buf"
    and "message_type (header (hd (fs ! i))) \<noteq> GIOP_FRAGMENT"
    and "\<not> MORE_FRAGMENTS_FOLLOW buf" and "message_type (header buf) = GIOP_FRAGMENT"
    and "\<not> too_big limit auth buf"
    and len: "n = own_len (hd (fs ! i)) + total_len (tl (fs ! i)) + frag_len buf" "n < 2 ^ 32"
    and al: "k = unat (rcur (hd (fs ! i))) - unat (message_body (hd (fs ! i)))"
      "alloc (n + k) = Some a" "unat a + n + k < 2 ^ 64"
  shows "\<exists>h. giop_recv_buffer_handle_fragmented alloc limit auth fs buf0 =
      Done \<lparr>fr_error = False, fr_buf = h, fr_frags = giop_connection_remove_frag fs i\<rparr> \<and>
    remaining h = data_of (fs ! i) @ remaining buf \<and> msg_u h = msg_u (hd (fs ! i)) \<and>
    message_type (header h) = message_type (header (hd (fs ! i)))"
proof -
  from assms(1) obtain mid where mid: "frag_message_id buf0 = Inr (mid, buf)"
    "giop_connection_get_frag fs mid (giop_version buf = GIOP_1_1) = Some i"
    by (auto simp: joins_def)
  let ?g = "grown (fs ! i) buf"
  note g = grown_ok [OF assms(3,4)]
  obtain h r where hr: "?g = h # r" "head_ok h" "\<forall>f \<in> set r. has_room 0 f"
    "message_size (header h) = of_nat (own_len h + total_len r)"
    using g(1) by (auto simp: set_ok_def)
  have n: "own_len h + total_len r = n" using g(3,4) len(1) by (simp add: hr(1))
  have k: "unat (rcur h) - unat (message_body h) = k" using g(6,7) al(1) by (simp add: hr(1))
  obtain h' where h': "concat_frags alloc h r = Done (Some h')" "remaining h' = data_of (h # r)"
    "header h' = header h" "msg_u h' = msg_u h"
    using concat_frags_data [OF hr(2-4), of alloc a] n k len(2) al(2,3) by (auto simp: add.assoc)
  have e: "h = (hd (fs ! i))\<lparr>header := (header (hd (fs ! i)))\<lparr>message_size :=
     message_size (header (hd (fs ! i))) + ucast (rend buf - rcur buf)\<rparr>\<rparr>" "r = tl (fs ! i) @ [buf]"
    using hr(1) by (auto simp: grown_def)
  have rm: "giop_connection_remove_frag (fs[i := s]) i = giop_connection_remove_frag fs i" for s
    by (simp add: giop_connection_remove_frag_def)
  have "giop_recv_buffer_handle_fragmented alloc limit auth fs buf0 =
      Done \<lparr>fr_error = False, fr_buf = h', fr_frags = giop_connection_remove_frag fs i\<rparr>"
    using mid assms(5-8) h'(1) unfolding e
    by (simp add: giop_recv_buffer_handle_fragmented_def Let_def too_big_def rm)
  then show ?thesis
    using h' g(2) hr(1) by (intro exI [of _ h']) (simp add: e)
qed

theorem fragments_reassembled_witness:
  "\<exists>h. giop_recv_buffer_handle_fragmented (\<lambda>n. Some 8) 1000 False [[ex_head]] (ex_frag 1) =
      Done \<lparr>fr_error = False, fr_buf = h, fr_frags = []\<rparr> \<and> remaining h = [1, 2, 3, 4, 5]"
proof -
  have "data_of [ex_head] @ remaining (ex_frag_read 1) = [1, 2, 3, 4, 5]" by code_simp
  moreover have "\<not> too_big 1000 False (ex_frag_read 1)" "\<not> MORE_FRAGMENTS_FOLLOW (ex_frag_read 1)"
    "message_type (header (ex_frag_read 1)) = GIOP_FRAGMENT" "message_type (header ex_head) \<noteq> GIOP_FRAGMENT" by code_simp+
  moreover have "11 = own_len (hd ([[ex_head]] ! 0)) + total_len (tl ([[ex_head]] ! 0)) + frag_len (ex_frag_read 1)"
    "18 = unat (rcur (hd ([[ex_head]] ! 0))) - unat (message_body (hd ([[ex_head]] ! 0)))" by code_simp+
  ultimately show ?thesis
    using fragments_reassembled [OF ex_joins [of 1], of 1000 False 11 18 "\<lambda>n. Some 8" 8] ex_head_ok ex_frag_room [of 1]
    by (auto simp: giop_connection_remove_frag_def)
qed

section \<open>What a peer can do with fragments\<close>

definition ex_orphan :: "byte list" where
  "ex_orphan = [0x47, 0x49, 0x4F, 0x50, 1, 1, 3, GIOP_FRAGMENT, 4, 0, 0, 0, 0, 0, 0, 0]"

text \<open>
  Two fragments with the more-fragments flag and no message before them end the
  process: the first starts a set of its own, the second finds a head that is itself a
  fragment and fails the assertion. The two messages below do it to a fresh connection
  with the default limit.
\<close>

lemma orphan_fragments_abort:
  "let env = \<lparr>cnx_id = 1, is_auth = False, msg_limit = GIOP_INITIAL_MSG_SIZE_LIMIT,
         try_alloc = (\<lambda>n. Some 8), thread_io = False\<rparr>;
       (st, ev, rest, alive) = giop_connection_handle_input env
         \<lparr>incoming_msg = None, incoming_frags = [], queued = [], answered = []\<rparr> [Bytes ex_orphan];
       (st', ev', rest', alive') = giop_connection_handle_input env st [Bytes ex_orphan]
   in alive \<and> ev = [] \<and> \<not> alive'"
  by code_simp

text \<open>
  The size limit for unauthenticated peers is tested against the size of the fragment
  alone, which the header check has bounded already, and not against the total kept in the
  head: a set whose total is at the limit accepts a further fragment.
\<close>

lemma fragment_total_unlimited:
  assumes "joins fs buf0 buf i" and "i < length fs" and "set_ok (fs ! i)" and "has_room 0 buf"
    and "message_type (header (hd (fs ! i))) \<noteq> GIOP_FRAGMENT" and "MORE_FRAGMENTS_FOLLOW buf"
    and "uint (message_size (header buf)) \<le> limit" and "length (data_of (fs ! i)) = n"
  shows "\<exists>h s. giop_recv_buffer_handle_fragmented alloc limit False fs buf0 =
      Done \<lparr>fr_error = False, fr_buf = h, fr_frags = fs[i := s]\<rparr> \<and>
    length (data_of s) = n + frag_len buf"
proof -
  from assms(1) obtain mid where mid: "frag_message_id buf0 = Inr (mid, buf)"
    "giop_connection_get_frag fs mid (giop_version buf = GIOP_1_1) = Some i"
    by (auto simp: joins_def)
  have "giop_recv_buffer_handle_fragmented alloc limit False fs buf0 =
      Done \<lparr>fr_error = False, fr_buf = hd (grown (fs ! i) buf), fr_frags = fs[i := grown (fs ! i) buf]\<rparr>"
    using mid assms(5-7) by (auto simp: giop_recv_buffer_handle_fragmented_def Let_def grown_def)
  with grown_ok(2) [OF assms(3,4)] room_facts(3) [OF assms(4)] assms(8) show ?thesis by auto
qed

lemma fragment_total_unlimited_witness:
  "\<exists>h s. giop_recv_buffer_handle_fragmented (\<lambda>n. Some 8) 7 False [[ex_head]] (ex_frag 3) =
      Done \<lparr>fr_error = False, fr_buf = h, fr_frags = [s]\<rparr> \<and> length (data_of s) = 5"
proof -
  have "uint (message_size (header (ex_frag_read 3))) \<le> 7" "MORE_FRAGMENTS_FOLLOW (ex_frag_read 3)"
    "length (data_of [ex_head]) = 2" "frag_len (ex_frag_read 3) = 3" by code_simp+
  then show ?thesis
    using fragment_total_unlimited [OF ex_joins [of 3], of 7 2 "\<lambda>n. Some 8"] ex_head_ok ex_frag_room [of 3]
    by (auto simp: ex_head_def)
qed

end
