(* ===== verification/Cdr_Types.thy ===== *)
theory Cdr_Types
  imports Prelude
begin

text \<open>
  Type codes (\<open>src/orb/orb-core/corba-typecode.c\<close>, \<open>corba-any.c\<close> lines 30--111): the
  struct \<open>CORBA_TypeCode_struct\<close>, the alignment and size of the C values they describe on
  the LP64 host, the accessors of the \<open>CORBA::TypeCode\<close> interface with their exceptions,
  and the equality of type codes. A type code is a finite tree; \<open>tc_addr\<close> is the address
  of the struct, which the encoder compares.
\<close>

datatype TCKind =
    CORBA_tk_null | CORBA_tk_void | CORBA_tk_short | CORBA_tk_long | CORBA_tk_ushort
  | CORBA_tk_ulong | CORBA_tk_float | CORBA_tk_double | CORBA_tk_boolean | CORBA_tk_char
  | CORBA_tk_octet | CORBA_tk_any | CORBA_tk_TypeCode | CORBA_tk_Principal | CORBA_tk_objref
  | CORBA_tk_struct | CORBA_tk_union | CORBA_tk_enum | CORBA_tk_string | CORBA_tk_sequence
  | CORBA_tk_array | CORBA_tk_alias | CORBA_tk_except | CORBA_tk_longlong | CORBA_tk_ulonglong
  | CORBA_tk_longdouble | CORBA_tk_wchar | CORBA_tk_wstring | CORBA_tk_fixed | CORBA_tk_value
  | CORBA_tk_value_box | CORBA_tk_native | CORBA_tk_abstract_interface | CORBA_tk_recursive

datatype CORBA_TypeCode = TypeCode
  (tc_addr: nat) (tc_kind: TCKind) (tc_length: u32) (subtypes: "CORBA_TypeCode list")
  (discriminator: "CORBA_TypeCode option") (tc_name: "byte list") (repo_id: "byte list")
  (subnames: "byte list list") (sublabels: "u32 list") (default_index: u32)
  (recurse_depth: u32) (tc_digits: u16) (tc_scale: u16)

text \<open>\<open>sub_parts\<close>: an enum has names only.\<close>

definition sub_parts :: "CORBA_TypeCode \<Rightarrow> nat" where
  "sub_parts tc = (if tc_kind tc = CORBA_tk_enum then length (subnames tc) else length (subtypes tc))"

lemma size_subtype [termination_simp]: "t \<in> set (subtypes tc) \<Longrightarrow> size t < size tc"
  using size_list_estimation' [of t "subtypes tc" "size t" size] by (cases tc) auto

lemma size_subtype0 [termination_simp]: "subtypes tc = t # ts \<Longrightarrow> size t < size tc"
  by (rule size_subtype) simp

lemma size_discriminator [termination_simp]: "discriminator tc = Some d \<Longrightarrow> size d < size tc"
  by (cases tc) auto

function SKIP_ALIAS :: "CORBA_TypeCode \<Rightarrow> CORBA_TypeCode" where
  "SKIP_ALIAS tc =
     (if tc_kind tc = CORBA_tk_alias then
        (case subtypes tc of t # _ \<Rightarrow> SKIP_ALIAS t | [] \<Rightarrow> tc)
      else tc)"
  by pat_completeness auto
termination by (relation "measure size") (auto simp: size_subtype0)

declare SKIP_ALIAS.simps [simp del]

lemma SKIP_ALIAS_id [simp]: "tc_kind tc \<noteq> CORBA_tk_alias \<Longrightarrow> SKIP_ALIAS tc = tc"
  by (simp add: SKIP_ALIAS.simps)

lemma size_SKIP_ALIAS: "size (SKIP_ALIAS tc) \<le> size tc"
proof (induction tc rule: SKIP_ALIAS.induct)
  case (1 tc)
  show ?case
    using 1 size_subtype0 [of tc]
    by (subst SKIP_ALIAS.simps) (fastforce split: list.splits dest: less_imp_le)
qed

lemma size_list_subtypes [termination_simp]: "size_list size (subtypes tc) < size tc"
  by (cases tc) auto

text \<open>
  The loops of the code over \<open>subtypes\<close>: an alignment and a size per member. The field
  \<open>c_align\<close> of a type code is what \<open>ORBit_TC_find_c_alignment\<close> computes for it (the decoder
  sets it so, and the constants of the basic types hold the same value, except \<open>TC_null\<close> and
  \<open>TC_void\<close>, which have -1 and are not types of members). The code adds sizes up in an
  \<open>int\<close>; the model adds natural numbers, so it speaks of types below \<open>2 ^ 31\<close> bytes.
\<close>

section \<open>Layout\<close>

definition ORBIT_ALIGNOF_CORBA_POINTER :: nat where "ORBIT_ALIGNOF_CORBA_POINTER = 8"

fun basic_align :: "TCKind \<Rightarrow> nat" where
  "basic_align CORBA_tk_ulong = 4"
| "basic_align CORBA_tk_long = 4"
| "basic_align CORBA_tk_enum = 4"
| "basic_align CORBA_tk_ushort = 2"
| "basic_align CORBA_tk_short = 2"
| "basic_align CORBA_tk_wchar = 2"
| "basic_align CORBA_tk_longlong = 8"
| "basic_align CORBA_tk_ulonglong = 8"
| "basic_align CORBA_tk_float = 4"
| "basic_align CORBA_tk_double = 8"
| "basic_align CORBA_tk_longdouble = 16"
| "basic_align CORBA_tk_boolean = 1"
| "basic_align CORBA_tk_char = 1"
| "basic_align CORBA_tk_octet = 1"
| "basic_align CORBA_tk_string = ORBIT_ALIGNOF_CORBA_POINTER"
| "basic_align CORBA_tk_wstring = ORBIT_ALIGNOF_CORBA_POINTER"
| "basic_align CORBA_tk_TypeCode = ORBIT_ALIGNOF_CORBA_POINTER"
| "basic_align CORBA_tk_objref = ORBIT_ALIGNOF_CORBA_POINTER"
| "basic_align CORBA_tk_sequence = ORBIT_ALIGNOF_CORBA_POINTER"
| "basic_align CORBA_tk_any = ORBIT_ALIGNOF_CORBA_POINTER"
| "basic_align CORBA_tk_fixed = 2"
| "basic_align _ = 1"

function ORBit_TC_find_c_alignment :: "CORBA_TypeCode \<Rightarrow> nat" where
  "ORBit_TC_find_c_alignment tc0 =
     (let tc = SKIP_ALIAS tc0; parts = map ORBit_TC_find_c_alignment (subtypes tc) in
      case tc_kind tc of
        CORBA_tk_union \<Rightarrow>
          (case discriminator tc of
             Some d \<Rightarrow> foldl max (max 1 (ORBit_TC_find_c_alignment d)) parts
           | None \<Rightarrow> foldl max 1 parts)
      | CORBA_tk_except \<Rightarrow> foldl max 1 parts
      | CORBA_tk_struct \<Rightarrow> foldl max 1 parts
      | CORBA_tk_array \<Rightarrow> (case parts of p # _ \<Rightarrow> p | [] \<Rightarrow> 1)
      | k \<Rightarrow> basic_align k)"
  by pat_completeness auto
termination
proof (relation "measure size", goal_cases)
  case (2 tc0 tc x)
  then show ?case using size_subtype [of x tc] size_SKIP_ALIAS [of tc0] by simp
next
  case (3 tc0 tc parts d)
  then show ?case using size_discriminator [of tc d] size_SKIP_ALIAS [of tc0] by simp
qed simp

abbreviation c_align :: "CORBA_TypeCode \<Rightarrow> nat" where
  "c_align \<equiv> ORBit_TC_find_c_alignment"

declare ORBit_TC_find_c_alignment.simps [simp del]

fun basic_size :: "TCKind \<Rightarrow> nat" where
  "basic_size CORBA_tk_long = 4"
| "basic_size CORBA_tk_ulong = 4"
| "basic_size CORBA_tk_enum = 4"
| "basic_size CORBA_tk_short = 2"
| "basic_size CORBA_tk_ushort = 2"
| "basic_size CORBA_tk_float = 4"
| "basic_size CORBA_tk_double = 8"
| "basic_size CORBA_tk_boolean = 1"
| "basic_size CORBA_tk_char = 1"
| "basic_size CORBA_tk_octet = 1"
| "basic_size CORBA_tk_any = 24"
| "basic_size CORBA_tk_TypeCode = 8"
| "basic_size CORBA_tk_Principal = 24"
| "basic_size CORBA_tk_objref = 8"
| "basic_size CORBA_tk_wstring = 8"
| "basic_size CORBA_tk_string = 8"
| "basic_size CORBA_tk_sequence = 24"
| "basic_size CORBA_tk_longlong = 8"
| "basic_size CORBA_tk_ulonglong = 8"
| "basic_size CORBA_tk_longdouble = 16"
| "basic_size CORBA_tk_wchar = 2"
| "basic_size CORBA_tk_fixed = 6"
| "basic_size _ = 0"

text \<open>The struct loop, over the alignment and size of each member.\<close>

fun struct_offset :: "nat \<Rightarrow> (nat \<times> nat) list \<Rightarrow> nat" where
  "struct_offset off [] = off"
| "struct_offset off ((al, sz) # ms) = struct_offset (align_up al off + sz) ms"

text \<open>
  The union loop: \<open>n\<close> becomes \<open>i\<close> when the alignment rises from one member to the next;
  the alignment of the last such member is used.
\<close>

fun last_rise :: "nat \<Rightarrow> nat option \<Rightarrow> nat list \<Rightarrow> nat option" where
  "last_rise prevalign n [] = n"
| "last_rise prevalign n (a # as) = last_rise a (if a > prevalign then Some a else n) as"

definition union_size :: "nat \<Rightarrow> nat \<Rightarrow> (nat \<times> nat) list \<Rightarrow> nat" where
  "union_size dsize al ms =
     (let off = (case last_rise 1 None (map fst ms) of Some a \<Rightarrow> align_up a dsize | None \<Rightarrow> dsize)
      in align_up al (off + foldl max 0 (map snd ms)))"

function ORBit_gather_alloc_info :: "CORBA_TypeCode \<Rightarrow> nat" where
  "ORBit_gather_alloc_info tc0 =
     (let tc = SKIP_ALIAS tc0;
          parts = map (\<lambda>t. (c_align t, ORBit_gather_alloc_info t)) (subtypes tc) in
      case tc_kind tc of
        CORBA_tk_struct \<Rightarrow> align_up (c_align tc) (struct_offset 0 parts)
      | CORBA_tk_except \<Rightarrow> align_up (c_align tc) (struct_offset 0 parts)
      | CORBA_tk_union \<Rightarrow>
          (case discriminator tc of
             Some d \<Rightarrow> union_size (ORBit_gather_alloc_info d) (c_align tc) parts
           | None \<Rightarrow> 0)
      | CORBA_tk_array \<Rightarrow> (case parts of p # _ \<Rightarrow> snd p * unat (tc_length tc) | [] \<Rightarrow> 0)
      | k \<Rightarrow> basic_size k)"
  by pat_completeness auto
termination
proof (relation "measure size", goal_cases)
  case (2 tc0 tc x)
  then show ?case using size_subtype [of x tc] size_SKIP_ALIAS [of tc0] by simp
next
  case (3 tc0 tc parts d)
  then show ?case using size_discriminator [of tc d] size_SKIP_ALIAS [of tc0] by simp
qed simp

declare ORBit_gather_alloc_info.simps [simp del]

section \<open>The TypeCode interface\<close>

text \<open>
  The exceptions of the interface, a failed \<open>g_assert\<close>, and a read past the end of an
  array of the struct.
\<close>

datatype tc_error = BadKind | Bounds | NoImplement | AssertFail | OutOfArray

definition array_get :: "'a list \<Rightarrow> u32 \<Rightarrow> tc_error + 'a" where
  "array_get xs i = (if unat i < length xs then Inr (xs ! unat i) else Inl OutOfArray)"

definition CORBA_TypeCode_kind :: "CORBA_TypeCode \<Rightarrow> TCKind" where
  "CORBA_TypeCode_kind tc = tc_kind tc"

definition CORBA_TypeCode_get_compact_typecode :: "CORBA_TypeCode \<Rightarrow> tc_error + CORBA_TypeCode" where
  "CORBA_TypeCode_get_compact_typecode tc = Inl NoImplement"

definition has_id :: "TCKind list" where
  "has_id = [CORBA_tk_objref, CORBA_tk_value, CORBA_tk_value_box, CORBA_tk_abstract_interface,
     CORBA_tk_native, CORBA_tk_struct, CORBA_tk_union, CORBA_tk_enum, CORBA_tk_alias, CORBA_tk_except]"

definition has_members :: "TCKind list" where
  "has_members = [CORBA_tk_struct, CORBA_tk_union, CORBA_tk_value, CORBA_tk_enum, CORBA_tk_except]"

definition CORBA_TypeCode_id :: "CORBA_TypeCode \<Rightarrow> tc_error + byte list" where
  "CORBA_TypeCode_id tc = (if tc_kind tc \<notin> set has_id then Inl BadKind else Inr (repo_id tc))"

definition CORBA_TypeCode_name :: "CORBA_TypeCode \<Rightarrow> tc_error + byte list" where
  "CORBA_TypeCode_name tc = (if tc_kind tc \<notin> set has_id then Inl BadKind else Inr (tc_name tc))"

definition CORBA_TypeCode_member_count :: "CORBA_TypeCode \<Rightarrow> tc_error + nat" where
  "CORBA_TypeCode_member_count tc =
     (if tc_kind tc \<notin> set has_members then Inl BadKind else Inr (sub_parts tc))"

definition CORBA_TypeCode_member_name :: "CORBA_TypeCode \<Rightarrow> u32 \<Rightarrow> tc_error + byte list" where
  "CORBA_TypeCode_member_name tc index =
     (if tc_kind tc \<notin> set has_members then Inl BadKind
      else if unat index > sub_parts tc then Inl Bounds
      else array_get (subnames tc) index)"

definition CORBA_TypeCode_member_type :: "CORBA_TypeCode \<Rightarrow> u32 \<Rightarrow> tc_error + CORBA_TypeCode" where
  "CORBA_TypeCode_member_type tc index =
     (if tc_kind tc \<notin> set has_members then Inl BadKind
      else if unat index > sub_parts tc then Inl Bounds
      else array_get (subtypes tc) index)"

text \<open>The label is returned as an any of the discriminator type.\<close>

definition CORBA_TypeCode_member_label ::
    "CORBA_TypeCode \<Rightarrow> u32 \<Rightarrow> tc_error + (CORBA_TypeCode option \<times> u32)" where
  "CORBA_TypeCode_member_label tc index =
     (if tc_kind tc \<noteq> CORBA_tk_union then Inl BadKind
      else if unat index > sub_parts tc then Inl Bounds
      else andThen (array_get (sublabels tc) index) (\<lambda>l. Inr (discriminator tc, l)))"

definition CORBA_TypeCode_discriminator_type :: "CORBA_TypeCode \<Rightarrow> tc_error + CORBA_TypeCode option" where
  "CORBA_TypeCode_discriminator_type tc =
     (if tc_kind tc \<noteq> CORBA_tk_union then Inl BadKind else Inr (discriminator tc))"

definition CORBA_TypeCode_default_index :: "CORBA_TypeCode \<Rightarrow> tc_error + u32" where
  "CORBA_TypeCode_default_index tc =
     (if tc_kind tc \<noteq> CORBA_tk_union then Inl BadKind else Inr (default_index tc))"

definition CORBA_TypeCode_length :: "CORBA_TypeCode \<Rightarrow> tc_error + u32" where
  "CORBA_TypeCode_length tc =
     (if tc_kind tc \<notin> {CORBA_tk_string, CORBA_tk_wstring, CORBA_tk_sequence, CORBA_tk_array} then Inl BadKind
      else Inr (tc_length tc))"

definition CORBA_TypeCode_content_type :: "CORBA_TypeCode \<Rightarrow> tc_error + CORBA_TypeCode" where
  "CORBA_TypeCode_content_type tc =
     (if tc_kind tc \<notin> {CORBA_tk_sequence, CORBA_tk_array, CORBA_tk_value_box, CORBA_tk_alias} then Inl BadKind
      else if sub_parts tc \<noteq> 1 then Inl AssertFail
      else array_get (subtypes tc) 0)"

definition CORBA_TypeCode_fixed_digits :: "CORBA_TypeCode \<Rightarrow> tc_error + u16" where
  "CORBA_TypeCode_fixed_digits tc =
     (if tc_kind tc \<noteq> CORBA_tk_fixed then Inl BadKind else Inr (tc_digits tc))"

definition CORBA_TypeCode_fixed_scale :: "CORBA_TypeCode \<Rightarrow> tc_error + u16" where
  "CORBA_TypeCode_fixed_scale tc =
     (if tc_kind tc \<noteq> CORBA_tk_fixed then Inl BadKind else Inr (tc_scale tc))"

definition CORBA_TypeCode_member_visibility :: "CORBA_TypeCode \<Rightarrow> u32 \<Rightarrow> tc_error + u16" where
  "CORBA_TypeCode_member_visibility tc index = Inl NoImplement"

definition CORBA_TypeCode_type_modifier :: "CORBA_TypeCode \<Rightarrow> tc_error + u16" where
  "CORBA_TypeCode_type_modifier tc = Inl NoImplement"

definition CORBA_TypeCode_concrete_base_type :: "CORBA_TypeCode \<Rightarrow> tc_error + CORBA_TypeCode" where
  "CORBA_TypeCode_concrete_base_type tc = Inl NoImplement"

section \<open>Equality\<close>

text \<open>
  \<open>typecode_equiv_internal\<close>; \<open>None\<close> is a failed assertion. The second function is the
  member loop, with the labels of a union compared after each member.
\<close>

definition andAlso :: "bool option \<Rightarrow> bool option \<Rightarrow> bool option" where
  "andAlso a b = (case a of None \<Rightarrow> None | Some False \<Rightarrow> Some False | Some True \<Rightarrow> b)"

lemma andAlso_cong [fundef_cong]:
  "a = a' \<Longrightarrow> (a' = Some True \<Longrightarrow> b = b') \<Longrightarrow> andAlso a b = andAlso a' b'"
  by (auto simp: andAlso_def split: option.splits bool.splits)

definition tc_weight :: "bool \<times> CORBA_TypeCode \<times> CORBA_TypeCode + bool \<times> CORBA_TypeCode list \<times> CORBA_TypeCode list \<times> (u32 \<times> u32) list \<Rightarrow> nat" where
  "tc_weight x = (case x of Inl (s, a, b) \<Rightarrow> size a | Inr (s, as, bs, ls) \<Rightarrow> size_list size as)"

lemma parts_weight:
  "size_list size (subtypes (if s then tc else SKIP_ALIAS tc)) < size tc"
  "discriminator (if s then tc else SKIP_ALIAS tc) = Some d \<Longrightarrow> size d < size tc"
  using size_list_subtypes [of tc] size_list_subtypes [of "SKIP_ALIAS tc"] size_SKIP_ALIAS [of tc]
    size_discriminator [of "SKIP_ALIAS tc" d] size_discriminator [of tc d]
  by (auto split: if_splits)

function (sequential) typecode_equiv_internal :: "bool \<Rightarrow> CORBA_TypeCode \<Rightarrow> CORBA_TypeCode \<Rightarrow> bool option"
  and equiv_parts :: "bool \<Rightarrow> CORBA_TypeCode list \<Rightarrow> CORBA_TypeCode list \<Rightarrow> (u32 \<times> u32) list \<Rightarrow> bool option"
where
  "typecode_equiv_internal strict_equal obj0 tc0 =
     (let obj = (if strict_equal then obj0 else SKIP_ALIAS obj0);
          tc = (if strict_equal then tc0 else SKIP_ALIAS tc0)
      in if tc_kind obj \<noteq> tc_kind tc then Some False
      else (case tc_kind obj of
          CORBA_tk_wstring \<Rightarrow> Some (tc_length obj = tc_length tc)
        | CORBA_tk_string \<Rightarrow> Some (tc_length obj = tc_length tc)
        | CORBA_tk_objref \<Rightarrow> Some (repo_id obj = repo_id tc)
        | CORBA_tk_except \<Rightarrow>
            if repo_id obj \<noteq> repo_id tc \<or> sub_parts obj \<noteq> sub_parts tc then Some False
            else equiv_parts strict_equal (subtypes obj) (subtypes tc) []
        | CORBA_tk_struct \<Rightarrow>
            if repo_id obj \<noteq> repo_id tc \<or> sub_parts obj \<noteq> sub_parts tc then Some False
            else equiv_parts strict_equal (subtypes obj) (subtypes tc) []
        | CORBA_tk_union \<Rightarrow>
            if repo_id obj \<noteq> repo_id tc \<or> sub_parts obj \<noteq> sub_parts tc then Some False
            else andAlso
              (case discriminator obj of
                 Some d \<Rightarrow> (case discriminator tc of Some e \<Rightarrow> typecode_equiv_internal strict_equal d e | None \<Rightarrow> Some False)
               | None \<Rightarrow> Some False)
              (if default_index obj \<noteq> default_index tc then Some False
               else equiv_parts strict_equal (subtypes obj) (subtypes tc) (zip (sublabels obj) (sublabels tc)))
        | CORBA_tk_enum \<Rightarrow>
            if sub_parts obj \<noteq> sub_parts tc \<or> repo_id obj \<noteq> repo_id tc then Some False
            else Some (subnames obj = subnames tc)
        | CORBA_tk_sequence \<Rightarrow>
            if tc_length obj \<noteq> tc_length tc then Some False
            else if sub_parts obj \<noteq> 1 \<or> sub_parts tc \<noteq> 1 then None
            else equiv_parts strict_equal (subtypes obj) (subtypes tc) []
        | CORBA_tk_array \<Rightarrow>
            if tc_length obj \<noteq> tc_length tc then Some False
            else if sub_parts obj \<noteq> 1 \<or> sub_parts tc \<noteq> 1 then None
            else equiv_parts strict_equal (subtypes obj) (subtypes tc) []
        | CORBA_tk_alias \<Rightarrow>
            if repo_id obj \<noteq> repo_id tc then Some False
            else if sub_parts obj \<noteq> 1 \<or> sub_parts tc \<noteq> 1 then None
            else equiv_parts strict_equal (subtypes obj) (subtypes tc) []
        | CORBA_tk_recursive \<Rightarrow> Some (recurse_depth obj = recurse_depth tc)
        | CORBA_tk_fixed \<Rightarrow> Some (tc_digits obj = tc_digits tc \<and> tc_scale obj = tc_scale tc)
        | _ \<Rightarrow> Some True))"
| "equiv_parts strict_equal (a # as) (b # bs) ls =
     andAlso (typecode_equiv_internal strict_equal a b)
       (case ls of
          [] \<Rightarrow> equiv_parts strict_equal as bs []
        | (x, y) # ls \<Rightarrow> if x \<noteq> y then Some False else equiv_parts strict_equal as bs ls)"
| "equiv_parts strict_equal _ _ ls = Some True"
  by pat_completeness auto

termination
  by (relation "measure tc_weight") (auto simp: tc_weight_def parts_weight)

definition CORBA_TypeCode_equal :: "CORBA_TypeCode \<Rightarrow> CORBA_TypeCode \<Rightarrow> bool option" where
  "CORBA_TypeCode_equal obj tc = typecode_equiv_internal True obj tc"

definition CORBA_TypeCode_equivalent :: "CORBA_TypeCode \<Rightarrow> CORBA_TypeCode \<Rightarrow> bool option" where
  "CORBA_TypeCode_equivalent obj tc = typecode_equiv_internal False obj tc"

end
