(* ===== verification/Cdr_Code.thy ===== *)
theory Cdr_Code
  imports Cdr_Types Giop_Send Giop_Input
begin

text \<open>
  Type codes on the wire (\<open>src/orb/orb-core/corba-typecode.c\<close>, lines 29--330 and
  392--586, 1041--1278): the encoder \<open>tc_enc\<close>, which writes a complex type code as an
  encapsulation and a repeated one as an offset, and the decoder \<open>tc_dec\<close>. A C string is
  its bytes without the terminator.
\<close>

section \<open>Tables\<close>

fun tk_code :: "TCKind \<Rightarrow> u32" where
  "tk_code CORBA_tk_null = 0" | "tk_code CORBA_tk_void = 1" | "tk_code CORBA_tk_short = 2"
| "tk_code CORBA_tk_long = 3" | "tk_code CORBA_tk_ushort = 4" | "tk_code CORBA_tk_ulong = 5"
| "tk_code CORBA_tk_float = 6" | "tk_code CORBA_tk_double = 7" | "tk_code CORBA_tk_boolean = 8"
| "tk_code CORBA_tk_char = 9" | "tk_code CORBA_tk_octet = 10" | "tk_code CORBA_tk_any = 11"
| "tk_code CORBA_tk_TypeCode = 12" | "tk_code CORBA_tk_Principal = 13" | "tk_code CORBA_tk_objref = 14"
| "tk_code CORBA_tk_struct = 15" | "tk_code CORBA_tk_union = 16" | "tk_code CORBA_tk_enum = 17"
| "tk_code CORBA_tk_string = 18" | "tk_code CORBA_tk_sequence = 19" | "tk_code CORBA_tk_array = 20"
| "tk_code CORBA_tk_alias = 21" | "tk_code CORBA_tk_except = 22" | "tk_code CORBA_tk_longlong = 23"
| "tk_code CORBA_tk_ulonglong = 24" | "tk_code CORBA_tk_longdouble = 25" | "tk_code CORBA_tk_wchar = 26"
| "tk_code CORBA_tk_wstring = 27" | "tk_code CORBA_tk_fixed = 28" | "tk_code CORBA_tk_value = 29"
| "tk_code CORBA_tk_value_box = 30" | "tk_code CORBA_tk_native = 31" | "tk_code CORBA_tk_abstract_interface = 32"
| "tk_code CORBA_tk_recursive = 0xffffffff"

definition all_kinds :: "TCKind list" where
  "all_kinds = [CORBA_tk_null, CORBA_tk_void, CORBA_tk_short, CORBA_tk_long, CORBA_tk_ushort, CORBA_tk_ulong,
     CORBA_tk_float, CORBA_tk_double, CORBA_tk_boolean, CORBA_tk_char, CORBA_tk_octet, CORBA_tk_any,
     CORBA_tk_TypeCode, CORBA_tk_Principal, CORBA_tk_objref, CORBA_tk_struct, CORBA_tk_union, CORBA_tk_enum,
     CORBA_tk_string, CORBA_tk_sequence, CORBA_tk_array, CORBA_tk_alias, CORBA_tk_except, CORBA_tk_longlong,
     CORBA_tk_ulonglong, CORBA_tk_longdouble, CORBA_tk_wchar, CORBA_tk_wstring, CORBA_tk_fixed,
     CORBA_tk_value, CORBA_tk_value_box, CORBA_tk_native, CORBA_tk_abstract_interface]"

text \<open>\<open>kind < CORBA_tk_last\<close>, as the kind it is.\<close>

definition kind_of_code :: "u32 \<Rightarrow> TCKind option" where
  "kind_of_code w = (if w < of_nat (length all_kinds) then Some (all_kinds ! unat w) else None)"

datatype TkType = TK_EMPTY | TK_SIMPLE | TK_COMPLEX

text \<open>The table \<open>tk_info\<close>; the four kinds after \<open>tk_fixed\<close> have no initialiser, which is \<open>TK_EMPTY\<close>.\<close>

definition tk_type :: "TCKind \<Rightarrow> TkType" where
  "tk_type k =
     (if k \<in> {CORBA_tk_objref, CORBA_tk_struct, CORBA_tk_union, CORBA_tk_enum, CORBA_tk_sequence,
              CORBA_tk_array, CORBA_tk_alias, CORBA_tk_except} then TK_COMPLEX
      else if k \<in> {CORBA_tk_string, CORBA_tk_wstring, CORBA_tk_fixed} then TK_SIMPLE
      else TK_EMPTY)"

definition cstr :: "string \<Rightarrow> byte list" where
  "cstr s = map of_char s"

fun basic_nom :: "TCKind \<Rightarrow> string" where
  "basic_nom CORBA_tk_short = ''short''" | "basic_nom CORBA_tk_long = ''long''"
| "basic_nom CORBA_tk_ushort = ''unsigned_short''" | "basic_nom CORBA_tk_ulong = ''unsigned_long''"
| "basic_nom CORBA_tk_float = ''float''" | "basic_nom CORBA_tk_double = ''double''"
| "basic_nom CORBA_tk_boolean = ''boolean''" | "basic_nom CORBA_tk_char = ''char''"
| "basic_nom CORBA_tk_octet = ''octet''" | "basic_nom CORBA_tk_any = ''any''"
| "basic_nom CORBA_tk_TypeCode = ''TypeCode''" | "basic_nom CORBA_tk_Principal = ''Principal''"
| "basic_nom CORBA_tk_longlong = ''long_long''" | "basic_nom CORBA_tk_ulonglong = ''unsigned_long_long''"
| "basic_nom CORBA_tk_longdouble = ''long_double''" | "basic_nom CORBA_tk_wchar = ''wchar''"
| "basic_nom CORBA_tk_string = ''string''" | "basic_nom CORBA_tk_wstring = ''wstring''"
| "basic_nom CORBA_tk_objref = ''Object''" | "basic_nom _ = []"

text \<open>The static type codes (\<open>DEF_TC_BASIC\<close>, \<open>TC_null\<close>, \<open>TC_void\<close>).\<close>

definition TC_basic :: "TCKind \<Rightarrow> CORBA_TypeCode" where
  "TC_basic k =
     (if k = CORBA_tk_null then
        TypeCode 0 k 0 [] None (cstr ''null'') (cstr ''IDL:omg.org/CORBA/Null:1.0'') [] [] 0 0 0 0
      else if k = CORBA_tk_void then
        TypeCode 0 k 0 [] None (cstr ''void'') (cstr ''IDL:omg.org/CORBA/void:1.0'') [] [] 0 0 0 0
      else TypeCode 0 k 0 [] None (cstr (basic_nom k))
        (cstr ''IDL:omg.org/CORBA/'' @ cstr (basic_nom k) @ cstr '':1.0'') [] [] (- 1) 0 0 0)"

section \<open>Encoding\<close>

definition CDR_put_ulong :: "SendEnv \<Rightarrow> GIOPSendBuffer \<Rightarrow> u32 \<Rightarrow> GIOPSendBuffer" where
  "CDR_put_ulong env buf n = append_bytes env (giop_send_buffer_align env buf 4) (le32 n)"

definition CDR_put_ushort :: "SendEnv \<Rightarrow> GIOPSendBuffer \<Rightarrow> u16 \<Rightarrow> GIOPSendBuffer" where
  "CDR_put_ushort env buf n = append_bytes env (giop_send_buffer_align env buf 2) (le16 n)"

definition CDR_put_octet :: "SendEnv \<Rightarrow> GIOPSendBuffer \<Rightarrow> byte \<Rightarrow> GIOPSendBuffer" where
  "CDR_put_octet env buf n = append_bytes env (giop_send_buffer_align env buf 1) [n]"

definition CDR_put_ulong_long :: "SendEnv \<Rightarrow> GIOPSendBuffer \<Rightarrow> u64 \<Rightarrow> GIOPSendBuffer" where
  "CDR_put_ulong_long env buf n = append_bytes env (giop_send_buffer_align env buf 8) (le64 n)"

definition CDR_put_string :: "SendEnv \<Rightarrow> GIOPSendBuffer \<Rightarrow> byte list \<Rightarrow> GIOPSendBuffer" where
  "CDR_put_string env buf str = giop_send_buffer_append_string env buf (BConst (str @ [0]), 0) str"

text \<open>
  A union label: the C value is a \<open>CORBA_long\<close> cast to the type of the discriminator
  (\<open>CORBA_char\<close> and \<open>CORBA_short\<close> are signed, \<open>CORBA_boolean\<close>, \<open>CORBA_wchar\<close> and
  \<open>CORBA_unsigned_short\<close> are not).
\<close>

datatype label_kind = L_ulong | L_boolean | L_char | L_short | L_ushort | L_ulonglong

fun label_kind_of :: "TCKind \<Rightarrow> label_kind option" where
  "label_kind_of CORBA_tk_long = Some L_ulong"
| "label_kind_of CORBA_tk_enum = Some L_ulong"
| "label_kind_of CORBA_tk_ulong = Some L_ulong"
| "label_kind_of CORBA_tk_boolean = Some L_boolean"
| "label_kind_of CORBA_tk_char = Some L_char"
| "label_kind_of CORBA_tk_short = Some L_short"
| "label_kind_of CORBA_tk_ushort = Some L_ushort"
| "label_kind_of CORBA_tk_longlong = Some L_ulonglong"
| "label_kind_of CORBA_tk_ulonglong = Some L_ulonglong"
| "label_kind_of CORBA_tk_wchar = Some L_ushort"
| "label_kind_of _ = None"

fun put_label :: "label_kind \<Rightarrow> SendEnv \<Rightarrow> GIOPSendBuffer \<Rightarrow> u32 \<Rightarrow> GIOPSendBuffer" where
  "put_label L_ulong env buf l = CDR_put_ulong env buf l"
| "put_label L_boolean env buf l = CDR_put_octet env buf (ucast l)"
| "put_label L_char env buf l = CDR_put_octet env buf (ucast l)"
| "put_label L_short env buf l = CDR_put_ushort env buf (ucast l)"
| "put_label L_ushort env buf l = CDR_put_ushort env buf (ucast l)"
| "put_label L_ulonglong env buf l = CDR_put_ulong_long env buf (scast l)"

type_synonym enc_ctx = "(nat \<times> u32) list"

fun find_node :: "enc_ctx \<Rightarrow> nat \<Rightarrow> u32 option" where
  "find_node [] a = None"
| "find_node ((b, i) # ctx) a = (if b = a then Some i else find_node ctx a)"

definition put_names :: "SendEnv \<Rightarrow> GIOPSendBuffer \<Rightarrow> byte list list \<Rightarrow> GIOPSendBuffer" where
  "put_names env buf ns = foldl (CDR_put_string env) buf ns"

definition enc_weight ::
    "SendEnv \<times> CORBA_TypeCode \<times> GIOPSendBuffer \<times> enc_ctx + SendEnv \<times> CORBA_TypeCode \<times> GIOPSendBuffer \<times> enc_ctx
     + SendEnv \<times> label_kind option \<times> u32 list \<times> byte list list \<times> CORBA_TypeCode list \<times> GIOPSendBuffer \<times> enc_ctx \<Rightarrow> nat"
where
  "enc_weight x = (case x of
        Inl (_, tc, _) \<Rightarrow> 2 * size tc + 1
      | Inr (Inl (_, tc, _)) \<Rightarrow> 2 * size tc
      | Inr (Inr (_, _, _, _, ts, _)) \<Rightarrow> 2 * size_list size ts + 1)"

lemma members_weight: "2 * size_list size (subtypes tc) + 1 < 2 * size tc"
  using size_list_subtypes [of tc] by simp

text \<open>
  \<open>None\<close> is a failed assertion or \<open>g_error\<close>. \<open>enc_members\<close> is the member loop of structs,
  exceptions and unions, with the kind of label a union writes; a member name or label that
  is missing reads past its array, which the invariants of a type code exclude.
\<close>

function (sequential) tc_enc ::
    "SendEnv \<Rightarrow> CORBA_TypeCode \<Rightarrow> GIOPSendBuffer \<Rightarrow> enc_ctx \<Rightarrow> (GIOPSendBuffer \<times> enc_ctx) option"
  and tc_encoder ::
    "SendEnv \<Rightarrow> CORBA_TypeCode \<Rightarrow> GIOPSendBuffer \<Rightarrow> enc_ctx \<Rightarrow> (GIOPSendBuffer \<times> enc_ctx) option"
  and enc_members ::
    "SendEnv \<Rightarrow> label_kind option \<Rightarrow> u32 list \<Rightarrow> byte list list \<Rightarrow> CORBA_TypeCode list \<Rightarrow>
      GIOPSendBuffer \<Rightarrow> enc_ctx \<Rightarrow> (GIOPSendBuffer \<times> enc_ctx) option"
where
  "tc_enc env tc buf0 ctx0 =
     (if tc_kind tc = CORBA_tk_recursive then None
      else
        (let buf = giop_send_buffer_align env buf0 4; ty = tk_type (tc_kind tc) in
         case (if ty = TK_EMPTY then None else find_node ctx0 (tc_addr tc)) of
           Some index \<Rightarrow>
             (let buf = append_aligned32 env buf (tk_code CORBA_tk_recursive);
                  len = index - sb_message_size buf - 4
              in Some (append_aligned32 env buf len, ctx0))
         | None \<Rightarrow>
             (let ctx = (if ty = TK_EMPTY then ctx0 else (tc_addr tc, sb_message_size buf) # ctx0);
                  buf = append_bytes env buf (le32 (tk_code (tc_kind tc)))
              in case ty of
                   TK_EMPTY \<Rightarrow> Some (buf, ctx)
                 | TK_SIMPLE \<Rightarrow> tc_encoder env tc buf ctx
                 | TK_COMPLEX \<Rightarrow>
                     (let (buf, marker) = giop_send_buffer_append_aligned env buf None 4;
                          tmp = sb_message_size buf
                      in case tc_encoder env tc (append_bytes env buf [GIOP_FLAG_ENDIANNESS]) ctx of
                           None \<Rightarrow> None
                         | Some (buf, ctx) \<Rightarrow>
                             Some (store buf marker (le32 (sb_message_size buf - tmp)), ctx)))))"
| "tc_encoder env tc c ctx =
     (case tc_kind tc of
        CORBA_tk_objref \<Rightarrow> Some (CDR_put_string env (CDR_put_string env c (repo_id tc)) (tc_name tc), ctx)
      | CORBA_tk_sequence \<Rightarrow>
          (case subtypes tc of
             t # _ \<Rightarrow> (case tc_enc env t c ctx of None \<Rightarrow> None
                | Some (c, ctx) \<Rightarrow> Some (CDR_put_ulong env c (tc_length tc), ctx))
           | [] \<Rightarrow> None)
      | CORBA_tk_array \<Rightarrow>
          (case subtypes tc of
             t # _ \<Rightarrow> (case tc_enc env t c ctx of None \<Rightarrow> None
                | Some (c, ctx) \<Rightarrow> Some (CDR_put_ulong env c (tc_length tc), ctx))
           | [] \<Rightarrow> None)
      | CORBA_tk_alias \<Rightarrow>
          (let c = CDR_put_string env (CDR_put_string env c (repo_id tc)) (tc_name tc) in
           case subtypes tc of t # _ \<Rightarrow> tc_enc env t c ctx | [] \<Rightarrow> None)
      | CORBA_tk_string \<Rightarrow> Some (CDR_put_ulong env c (tc_length tc), ctx)
      | CORBA_tk_wstring \<Rightarrow> Some (CDR_put_ulong env c (tc_length tc), ctx)
      | CORBA_tk_fixed \<Rightarrow> Some (CDR_put_ushort env (CDR_put_ushort env c (tc_digits tc)) (tc_scale tc), ctx)
      | CORBA_tk_enum \<Rightarrow>
          (let c = CDR_put_string env (CDR_put_string env c (repo_id tc)) (tc_name tc);
               c = CDR_put_ulong env c (of_nat (sub_parts tc))
           in Some (put_names env c (subnames tc), ctx))
      | CORBA_tk_struct \<Rightarrow>
          (let c = CDR_put_string env (CDR_put_string env c (repo_id tc)) (tc_name tc);
               c = CDR_put_ulong env c (of_nat (sub_parts tc))
           in enc_members env None [] (subnames tc) (subtypes tc) c ctx)
      | CORBA_tk_except \<Rightarrow>
          (let c = CDR_put_string env (CDR_put_string env c (repo_id tc)) (tc_name tc);
               c = CDR_put_ulong env c (of_nat (sub_parts tc))
           in enc_members env None [] (subnames tc) (subtypes tc) c ctx)
      | CORBA_tk_union \<Rightarrow>
          (let c = CDR_put_string env (CDR_put_string env c (repo_id tc)) (tc_name tc) in
           case discriminator tc of
             None \<Rightarrow> None
           | Some d \<Rightarrow>
               (case tc_enc env d c ctx of
                  None \<Rightarrow> None
                | Some (c, ctx) \<Rightarrow>
                    (let c = CDR_put_ulong env c (default_index tc);
                         c = CDR_put_ulong env c (of_nat (sub_parts tc))
                     in case label_kind_of (tc_kind d) of
                          None \<Rightarrow> None
                        | Some lk \<Rightarrow> enc_members env (Some lk) (sublabels tc) (subnames tc) (subtypes tc) c ctx)))
      | _ \<Rightarrow> None)"
| "enc_members env lk ls (n # ns) (t # ts) c ctx =
     (let c = (case (lk, ls) of (Some k, l # _) \<Rightarrow> put_label k env c l | _ \<Rightarrow> c);
          c = CDR_put_string env c n
      in case tc_enc env t c ctx of
           None \<Rightarrow> None
         | Some (c, ctx) \<Rightarrow> enc_members env lk (tl ls) ns ts c ctx)"
| "enc_members env lk ls ns ts c ctx = Some (c, ctx)"
  by pat_completeness auto

termination
  by (relation "measure enc_weight")
    (auto simp: enc_weight_def size_subtype0 size_discriminator intro: members_weight [simplified]
      dest!: size_subtype0 size_discriminator)

declare tc_enc.simps [simp del] tc_encoder.simps [simp del]

definition ORBit_encode_CORBA_TypeCode :: "SendEnv \<Rightarrow> CORBA_TypeCode \<Rightarrow> GIOPSendBuffer \<Rightarrow> GIOPSendBuffer option" where
  "ORBit_encode_CORBA_TypeCode env tc buf =
     (case tc_enc env tc buf [] of None \<Rightarrow> None | Some (buf, _) \<Rightarrow> Some buf)"

section \<open>Decoding\<close>

definition CDR_get :: "nat \<Rightarrow> GIOPRecvBuffer \<Rightarrow> recv_error + (byte list \<times> GIOPRecvBuffer)" where
  "CDR_get len buf0 =
     (let buf = align_cur (of_nat len) buf0 in
      andThen (check (of_nat len) buf) (\<lambda>_.
      andThen (load buf (rcur buf) len) (\<lambda>bs.
        Inr (if len \<noteq> 1 \<and> giop_msg_conversion_needed buf then rev bs else bs, advance (of_nat len) buf))))"

definition CDR_get_ulong :: "GIOPRecvBuffer \<Rightarrow> recv_error + (u32 \<times> GIOPRecvBuffer)" where
  "CDR_get_ulong buf = andThen (CDR_get 4 buf) (\<lambda>(bs, buf). Inr (of_le32 bs, buf))"

definition CDR_get_ushort :: "GIOPRecvBuffer \<Rightarrow> recv_error + (u16 \<times> GIOPRecvBuffer)" where
  "CDR_get_ushort buf = andThen (CDR_get 2 buf) (\<lambda>(bs, buf). Inr (of_le16 bs, buf))"

definition CDR_get_ulong_long :: "GIOPRecvBuffer \<Rightarrow> recv_error + (u64 \<times> GIOPRecvBuffer)" where
  "CDR_get_ulong_long buf = andThen (CDR_get 8 buf) (\<lambda>(bs, buf). Inr (of_le64 bs, buf))"

definition CDR_get_octet :: "GIOPRecvBuffer \<Rightarrow> recv_error + (byte \<times> GIOPRecvBuffer)" where
  "CDR_get_octet buf = andThen (CDR_get 1 buf) (\<lambda>(bs, buf). Inr (hd bs, buf))"

text \<open>
  The copy of a string is as long as the message says; without a terminator in it every
  later use of it as a C string reads past the copy, which counts as out of bounds.
\<close>

definition CDR_get_const_string :: "GIOPRecvBuffer \<Rightarrow> recv_error + (byte list \<times> GIOPRecvBuffer)" where
  "CDR_get_const_string buf0 =
     andThen (CDR_get_ulong buf0) (\<lambda>(len, buf).
     andThen (fetch_octets len buf) (\<lambda>(bs, buf).
       if 0 \<in> set bs then Inr (takeWhile (\<lambda>b. b \<noteq> 0) bs, buf) else Inl OutOfBounds))"

fun get_label :: "label_kind \<Rightarrow> GIOPRecvBuffer \<Rightarrow> recv_error + (u32 \<times> GIOPRecvBuffer)" where
  "get_label L_ulong buf = CDR_get_ulong buf"
| "get_label L_boolean buf = andThen (CDR_get_octet buf) (\<lambda>(w, buf). Inr (ucast w, buf))"
| "get_label L_char buf = andThen (CDR_get_octet buf) (\<lambda>(w, buf). Inr (scast w, buf))"
| "get_label L_short buf = andThen (CDR_get_ushort buf) (\<lambda>(w, buf). Inr (scast w, buf))"
| "get_label L_ushort buf = andThen (CDR_get_ushort buf) (\<lambda>(w, buf). Inr (ucast w, buf))"
| "get_label L_ulonglong buf = andThen (CDR_get_ulong_long buf) (\<lambda>(w, buf). Inr (ucast w, buf))"

text \<open>
  How decoding can end without a type code: \<open>TRUE\<close> or a bad read (\<open>TcRecv\<close>), a
  \<open>g_error\<close> or failed assertion (\<open>TcAbort\<close>), or \<open>TcHalfBuilt\<close>: \<open>tc_dec\<close> ignores
  what the decoder of a simple or complex kind returns (and a null encapsulation), so an
  error there leaves a struct with null members that is used and returned as a success; what
  the code does with that struct is outside the model, which ends here.
  \<open>TcFuel\<close> is the bound of the model on the nesting depth.
\<close>

datatype tc_dec_error = TcRecv recv_error | TcAbort | TcHalfBuilt | TcFuel

fun recv :: "recv_error + 'a \<Rightarrow> tc_dec_error + 'a" where
  "recv (Inl e) = Inl (TcRecv e)"
| "recv (Inr x) = Inr x"

fun ignored :: "tc_dec_error + 'a \<Rightarrow> tc_dec_error + 'a" where
  "ignored (Inl (TcRecv Malformed)) = Inl TcHalfBuilt"
| "ignored m = m"

type_synonym dec_ctx = "(u32 \<times> CORBA_TypeCode) list"

definition get_rptr :: "GIOPRecvBuffer \<Rightarrow> u64" where
  "get_rptr buf = rcur buf - message_body buf"

text \<open>
  \<^verbatim>\<open>offset == node->index - ctx->current_idx - get_rptr (c)\<close>: the first difference is one
  of unsigned 32-bit values, the second one of 64-bit signed values, and \<open>offset\<close> is a
  signed 32-bit value.
\<close>

fun find_prior :: "dec_ctx \<Rightarrow> u32 \<Rightarrow> u32 \<Rightarrow> GIOPRecvBuffer \<Rightarrow> CORBA_TypeCode option" where
  "find_prior [] offset current_idx c = None"
| "find_prior ((index, tc) # ctx) offset current_idx c =
     (if sint offset = uint (index - current_idx) - uint (get_rptr c) then Some tc
      else find_prior ctx offset current_idx c)"

fun get_names :: "nat \<Rightarrow> GIOPRecvBuffer \<Rightarrow> recv_error + (byte list list \<times> GIOPRecvBuffer)" where
  "get_names 0 c = Inr ([], c)"
| "get_names (Suc n) c =
     andThen (CDR_get_const_string c) (\<lambda>(s, c).
     andThen (get_names n c) (\<lambda>(ss, c). Inr (s # ss, c)))"

text \<open>The address of a decoded struct is the number of type codes decoded before it, plus one.\<close>

definition fresh_addr :: "dec_ctx \<Rightarrow> nat" where
  "fresh_addr ctx = Suc (length ctx)"

definition get_ids :: "GIOPRecvBuffer \<Rightarrow> tc_dec_error + (byte list \<times> byte list \<times> GIOPRecvBuffer)" where
  "get_ids c =
     andThen (recv (CDR_get_const_string c)) (\<lambda>(repo, c).
     andThen (recv (CDR_get_const_string c)) (\<lambda>(name, c). Inr (repo, name, c)))"

type_synonym dec_result = "tc_dec_error + (CORBA_TypeCode \<times> GIOPRecvBuffer \<times> dec_ctx)"

type_synonym parts_result =
  "tc_dec_error + (u32 list \<times> byte list list \<times> CORBA_TypeCode list \<times> GIOPRecvBuffer \<times> dec_ctx)"

function (sequential) tc_dec :: "nat \<Rightarrow> u32 \<Rightarrow> GIOPRecvBuffer \<Rightarrow> dec_ctx \<Rightarrow> dec_result"
  and tc_decoder :: "nat \<Rightarrow> u32 \<Rightarrow> TCKind \<Rightarrow> GIOPRecvBuffer \<Rightarrow> dec_ctx \<Rightarrow> dec_result"
  and dec_members :: "nat \<Rightarrow> u32 \<Rightarrow> label_kind option \<Rightarrow> nat \<Rightarrow> GIOPRecvBuffer \<Rightarrow> dec_ctx \<Rightarrow> parts_result"
where
  "tc_dec 0 current_idx c ctx = Inl TcFuel"
| "tc_dec (Suc f) current_idx c ctx =
     andThen (recv (CDR_get_ulong c)) (\<lambda>(lkind, c).
       case kind_of_code lkind of
         None \<Rightarrow>
           (if lkind \<noteq> tk_code CORBA_tk_recursive then Inl (TcRecv Malformed)
            else andThen (recv (CDR_get_ulong c)) (\<lambda>(offset, c).
              case find_prior ctx offset current_idx c of
                Some tc \<Rightarrow> Inr (tc, c, ctx)
              | None \<Rightarrow> Inl TcAbort))
       | Some kind \<Rightarrow>
           (let index = current_idx + ucast (get_rptr c) - 4 in
            case tk_type kind of
              TK_EMPTY \<Rightarrow>
                (if lkind > 28 then Inl TcHalfBuilt
                 else Inr (TC_basic kind, c, (index, TC_basic kind) # ctx))
            | TK_SIMPLE \<Rightarrow>
                andThen (ignored (tc_decoder f current_idx kind c ctx)) (\<lambda>(tc, c, ctx).
                  Inr (tc, c, (index, tc) # ctx))
            | TK_COMPLEX \<Rightarrow>
                (let inner_idx = current_idx + ucast (get_rptr c) + 4 in
                 andThen (ignored (recv (giop_recv_buffer_use_encaps_buf c))) (\<lambda>(encaps, c).
                 andThen (ignored (tc_decoder f inner_idx kind encaps ctx)) (\<lambda>(tc, _, ctx).
                   Inr (tc, c, (index, tc) # ctx))))))"
| "tc_decoder f idx kind c ctx =
     (case kind of
        CORBA_tk_objref \<Rightarrow>
          andThen (get_ids c) (\<lambda>(repo, name, c).
            Inr (TypeCode (fresh_addr ctx) kind 0 [] None name repo [] [] 0 0 0 0, c, ctx))
      | CORBA_tk_string \<Rightarrow>
          andThen (recv (CDR_get_ulong c)) (\<lambda>(len, c).
            Inr (TypeCode (fresh_addr ctx) kind len [] None [] [] [] [] 0 0 0 0, c, ctx))
      | CORBA_tk_wstring \<Rightarrow>
          andThen (recv (CDR_get_ulong c)) (\<lambda>(len, c).
            Inr (TypeCode (fresh_addr ctx) kind len [] None [] [] [] [] 0 0 0 0, c, ctx))
      | CORBA_tk_fixed \<Rightarrow>
          andThen (recv (CDR_get_ushort c)) (\<lambda>(digits, c).
          andThen (recv (CDR_get_ushort c)) (\<lambda>(scale, c).
            Inr (TypeCode (fresh_addr ctx) kind 0 [] None [] [] [] [] 0 0 digits scale, c, ctx)))
      | CORBA_tk_sequence \<Rightarrow>
          andThen (tc_dec f idx c ctx) (\<lambda>(t, c, ctx).
          andThen (recv (CDR_get_ulong c)) (\<lambda>(len, c).
            Inr (TypeCode (fresh_addr ctx) kind len [t] None [] [] [] [] 0 0 0 0, c, ctx)))
      | CORBA_tk_array \<Rightarrow>
          andThen (tc_dec f idx c ctx) (\<lambda>(t, c, ctx).
          andThen (recv (CDR_get_ulong c)) (\<lambda>(len, c).
            Inr (TypeCode (fresh_addr ctx) kind len [t] None [] [] [] [] 0 0 0 0, c, ctx)))
      | CORBA_tk_alias \<Rightarrow>
          andThen (get_ids c) (\<lambda>(repo, name, c).
          andThen (tc_dec f idx c ctx) (\<lambda>(t, c, ctx).
            Inr (TypeCode (fresh_addr ctx) kind 0 [t] None name repo [] [] 0 0 0 0, c, ctx)))
      | CORBA_tk_enum \<Rightarrow>
          andThen (get_ids c) (\<lambda>(repo, name, c).
          andThen (recv (CDR_get_ulong c)) (\<lambda>(n, c).
          andThen (recv (get_names (unat n) c)) (\<lambda>(ns, c).
            Inr (TypeCode (fresh_addr ctx) kind 0 [] None name repo ns [] 0 0 0 0, c, ctx))))
      | CORBA_tk_struct \<Rightarrow>
          andThen (get_ids c) (\<lambda>(repo, name, c).
          andThen (recv (CDR_get_ulong c)) (\<lambda>(n, c).
          andThen (dec_members f idx None (unat n) c ctx) (\<lambda>(_, ns, ts, c, ctx).
            Inr (TypeCode (fresh_addr ctx) kind 0 ts None name repo ns [] 0 0 0 0, c, ctx))))
      | CORBA_tk_except \<Rightarrow>
          andThen (get_ids c) (\<lambda>(repo, name, c).
          andThen (recv (CDR_get_ulong c)) (\<lambda>(n, c).
          andThen (dec_members f idx None (unat n) c ctx) (\<lambda>(_, ns, ts, c, ctx).
            Inr (TypeCode (fresh_addr ctx) kind 0 ts None name repo ns [] 0 0 0 0, c, ctx))))
      | CORBA_tk_union \<Rightarrow>
          andThen (get_ids c) (\<lambda>(repo, name, c).
          andThen (tc_dec f idx c ctx) (\<lambda>(d, c, ctx).
          andThen (recv (CDR_get_ulong c)) (\<lambda>(def, c).
          andThen (recv (CDR_get_ulong c)) (\<lambda>(n, c).
            case label_kind_of (tc_kind d) of
              None \<Rightarrow> Inl TcAbort
            | Some lk \<Rightarrow>
                andThen (dec_members f idx (Some lk) (unat n) c ctx) (\<lambda>(ls, ns, ts, c, ctx).
                  Inr (TypeCode (fresh_addr ctx) kind 0 ts (Some d) name repo ns ls def 0 0 0, c, ctx))))))
      | _ \<Rightarrow> Inl TcAbort)"
| "dec_members f idx lk 0 c ctx = Inr ([], [], [], c, ctx)"
| "dec_members f idx lk (Suc n) c ctx =
     andThen (case lk of None \<Rightarrow> Inr (0, c) | Some k \<Rightarrow> recv (get_label k c)) (\<lambda>(l, c).
     andThen (recv (CDR_get_const_string c)) (\<lambda>(s, c).
     andThen (tc_dec f idx c ctx) (\<lambda>(t, c, ctx).
     andThen (dec_members f idx lk n c ctx) (\<lambda>(ls, ss, ts, c, ctx).
       Inr (l # ls, s # ss, t # ts, c, ctx)))))"
  by pat_completeness auto

termination
  by (relation "measures [\<lambda>x. case x of Inl (f, _) \<Rightarrow> 2 * f | Inr (Inl (f, _)) \<Rightarrow> 2 * f + 1 | Inr (Inr (f, _)) \<Rightarrow> 2 * f + 1,
      \<lambda>x. case x of Inl _ \<Rightarrow> 0 | Inr (Inl _) \<Rightarrow> 1 | Inr (Inr (_, _, _, n, _)) \<Rightarrow> 0,
      \<lambda>x. case x of Inl _ \<Rightarrow> 0 | Inr (Inl _) \<Rightarrow> 0 | Inr (Inr (_, _, _, n, _)) \<Rightarrow> n]") auto

declare tc_dec.simps [simp del] tc_decoder.simps [simp del]

text \<open>The depth bound: each level of nesting takes at least four bytes of the message.\<close>

definition ORBit_decode_CORBA_TypeCode :: "GIOPRecvBuffer \<Rightarrow> tc_dec_error + (CORBA_TypeCode \<times> GIOPRecvBuffer)" where
  "ORBit_decode_CORBA_TypeCode buf =
     andThen (tc_dec (length (body_mem buf)) 0 buf []) (\<lambda>(tc, buf, _). Inr (tc, buf))"

end
