(* ===== verification/Cdr_Value.thy ===== *)
theory Cdr_Value
  imports Cdr_Code
begin

text \<open>
  Values and their marshalling by type code (\<open>src/orb/orb-core/corba-any.c\<close>, lines
  113--769). A value is the tree of what the C memory holds; the pointer the C code moves
  over that memory is not part of it (\<open>Cdr_Layout\<close> deals with it). Floating point values
  are their bit patterns. Object references are not values here: they belong to the IOR
  layer, and a type code that contains one is refused.
\<close>

datatype cvalue =
    VNull
  | V8 byte
  | V16 u16
  | V32 u32
  | V64 u64
  | V128 "byte list"
  | VString "byte list"
  | VWString "u16 list"
  | VPrincipal "byte list"
  | VTypeCode CORBA_TypeCode
  | VAny CORBA_TypeCode cvalue
  | VStruct "cvalue list"
  | VUnion cvalue cvalue
  | VSeq "cvalue list"
  | VArray "cvalue list"

section \<open>Unions\<close>

text \<open>
  \<open>ORBit_get_union_switch\<close>: the value of the discriminator as a \<open>glong\<close>. The 16-bit
  kinds are both read as a signed short; \<open>None\<close> is the \<open>g_error\<close>.
\<close>

definition ORBit_get_union_switch :: "CORBA_TypeCode \<Rightarrow> cvalue \<Rightarrow> int option" where
  "ORBit_get_union_switch tc0 v =
     (let k = tc_kind (SKIP_ALIAS tc0) in
      if k \<in> {CORBA_tk_ulong, CORBA_tk_long, CORBA_tk_enum} then
        (case v of V32 w \<Rightarrow> Some (sint w) | _ \<Rightarrow> None)
      else if k \<in> {CORBA_tk_ushort, CORBA_tk_short} then
        (case v of V16 w \<Rightarrow> Some (sint w) | _ \<Rightarrow> None)
      else if k \<in> {CORBA_tk_char, CORBA_tk_boolean, CORBA_tk_octet} then
        (case v of V8 b \<Rightarrow> Some (uint b) | _ \<Rightarrow> None)
      else None)"

fun find_label :: "u32 list \<Rightarrow> CORBA_TypeCode list \<Rightarrow> int \<Rightarrow> int \<Rightarrow> int \<Rightarrow> CORBA_TypeCode option" where
  "find_label (l # ls) (t # ts) i def d =
     (if i = def then find_label ls ts (i + 1) def d
      else if sint l = d then Some t
      else find_label ls ts (i + 1) def d)"
| "find_label _ _ i def d = None"

definition ORBit_get_union_tag :: "CORBA_TypeCode \<Rightarrow> cvalue \<Rightarrow> CORBA_TypeCode option" where
  "ORBit_get_union_tag union_tc v =
     (case discriminator union_tc of
        None \<Rightarrow> None
      | Some dtc \<Rightarrow>
          (case ORBit_get_union_switch dtc v of
             None \<Rightarrow> None
           | Some d \<Rightarrow>
               (case find_label (sublabels union_tc) (subtypes union_tc) 0 (sint (default_index union_tc)) d of
                  Some t \<Rightarrow> Some t
                | None \<Rightarrow>
                    if sint (default_index union_tc) \<ge> 0 then
                      (if nat (sint (default_index union_tc)) < length (subtypes union_tc)
                       then Some (subtypes union_tc ! nat (sint (default_index union_tc))) else None)
                    else Some (TC_basic CORBA_tk_null))))"

section \<open>Marshalling\<close>

definition byte_kind :: "TCKind \<Rightarrow> bool" where
  "byte_kind k \<longleftrightarrow> k \<in> {CORBA_tk_boolean, CORBA_tk_char, CORBA_tk_octet}"

fun byte_of :: "cvalue \<Rightarrow> byte option" where
  "byte_of (V8 b) = Some b"
| "byte_of _ = None"

text \<open>The bytes of a buffer of octets; \<open>None\<close> if an element is not one.\<close>

fun bytes_of :: "cvalue list \<Rightarrow> byte list option" where
  "bytes_of [] = Some []"
| "bytes_of (v # vs) =
     (case (byte_of v, bytes_of vs) of (Some b, Some bs) \<Rightarrow> Some (b # bs) | _ \<Rightarrow> None)"

definition append_const :: "SendEnv \<Rightarrow> GIOPSendBuffer \<Rightarrow> byte list \<Rightarrow> GIOPSendBuffer" where
  "append_const env buf bs = giop_send_buffer_append env buf (BConst bs, 0) (length bs)"

definition append_prim :: "SendEnv \<Rightarrow> GIOPSendBuffer \<Rightarrow> byte list \<Rightarrow> GIOPSendBuffer" where
  "append_prim env buf bs = fst (giop_send_buffer_append_aligned env buf (Some bs) (length bs))"

definition wchars :: "u16 list \<Rightarrow> byte list" where
  "wchars ws = concat (map le16 ws)"

text \<open>
  \<open>None\<close>: a \<open>g_error\<close>, or a value that is not of the type (which typed C memory excludes).
  The elements of sequences and arrays are marshalled with the element type each.
\<close>

fun ORBit_marshal_value :: "SendEnv \<Rightarrow> GIOPSendBuffer \<Rightarrow> CORBA_TypeCode \<Rightarrow> cvalue \<Rightarrow> GIOPSendBuffer option"
  and marshal_values :: "SendEnv \<Rightarrow> GIOPSendBuffer \<Rightarrow> CORBA_TypeCode list \<Rightarrow> cvalue list \<Rightarrow> GIOPSendBuffer option"
where
  "ORBit_marshal_value env buf tc0 VNull =
     (let tc = SKIP_ALIAS tc0 in
      if tc_kind tc \<in> {CORBA_tk_null, CORBA_tk_void} then Some buf else None)"
| "ORBit_marshal_value env buf tc0 (V8 b) =
     (let tc = SKIP_ALIAS tc0 in
      if byte_kind (tc_kind tc) then Some (append_bytes env buf [b]) else None)"
| "ORBit_marshal_value env buf tc0 (V16 w) =
     (let tc = SKIP_ALIAS tc0 in
      if tc_kind tc \<in> {CORBA_tk_wchar, CORBA_tk_ushort, CORBA_tk_short}
      then Some (append_prim env buf (le16 w)) else None)"
| "ORBit_marshal_value env buf tc0 (V32 w) =
     (let tc = SKIP_ALIAS tc0 in
      if tc_kind tc \<in> {CORBA_tk_enum, CORBA_tk_long, CORBA_tk_ulong, CORBA_tk_float}
      then Some (append_prim env buf (le32 w)) else None)"
| "ORBit_marshal_value env buf tc0 (V64 w) =
     (let tc = SKIP_ALIAS tc0 in
      if tc_kind tc \<in> {CORBA_tk_double, CORBA_tk_longlong, CORBA_tk_ulonglong}
      then Some (append_prim env buf (le64 w)) else None)"
| "ORBit_marshal_value env buf tc0 (V128 bs) =
     (let tc = SKIP_ALIAS tc0 in
      if tc_kind tc = CORBA_tk_longdouble \<and> length bs = 16 then Some (append_prim env buf bs) else None)"
| "ORBit_marshal_value env buf tc0 (VString s) =
     (let tc = SKIP_ALIAS tc0 in
      if tc_kind tc = CORBA_tk_string
      then Some (giop_send_buffer_append_string env buf (BConst (s @ [0]), 0) s) else None)"
| "ORBit_marshal_value env buf tc0 (VWString ws) =
     (let tc = SKIP_ALIAS tc0 in
      if tc_kind tc = CORBA_tk_wstring then
        (let ulval = (of_nat (length ws) + 1) * 2 :: u32;
             buf = append_prim env buf (le32 ulval);
             buf = append_bytes env buf (le16 0xfeff)
         in Some (append_const env buf (take (unat (ulval - 2)) (wchars ws))))
      else None)"
| "ORBit_marshal_value env buf tc0 (VPrincipal bs) =
     (let tc = SKIP_ALIAS tc0 in
      if tc_kind tc = CORBA_tk_Principal
      then Some (append_const env (append_bytes env buf (le32 (of_nat (length bs)))) bs) else None)"
| "ORBit_marshal_value env buf tc0 (VTypeCode t) =
     (let tc = SKIP_ALIAS tc0 in
      if tc_kind tc = CORBA_tk_TypeCode then ORBit_encode_CORBA_TypeCode env t buf else None)"
| "ORBit_marshal_value env buf tc0 (VAny t v) =
     (let tc = SKIP_ALIAS tc0 in
      if tc_kind tc = CORBA_tk_any then
        (case ORBit_encode_CORBA_TypeCode env t buf of
           None \<Rightarrow> None
         | Some buf \<Rightarrow> ORBit_marshal_value env buf t v)
      else None)"
| "ORBit_marshal_value env buf tc0 (VStruct vs) =
     (let tc = SKIP_ALIAS tc0 in
      if tc_kind tc \<in> {CORBA_tk_except, CORBA_tk_struct} \<and> length vs = length (subtypes tc)
      then marshal_values env buf (subtypes tc) vs else None)"
| "ORBit_marshal_value env buf tc0 (VUnion d b) =
     (let tc = SKIP_ALIAS tc0 in
      if tc_kind tc \<noteq> CORBA_tk_union then None
      else
        (case discriminator tc of
           None \<Rightarrow> None
         | Some dtc \<Rightarrow>
             (case ORBit_marshal_value env buf dtc d of
                None \<Rightarrow> None
              | Some buf \<Rightarrow>
                  (case ORBit_get_union_tag tc d of
                     None \<Rightarrow> None
                   | Some subtc \<Rightarrow> ORBit_marshal_value env buf subtc b))))"
| "ORBit_marshal_value env buf tc0 (VSeq vs) =
     (let tc = SKIP_ALIAS tc0 in
      if tc_kind tc \<noteq> CORBA_tk_sequence then None
      else
        (case subtypes tc of
           [] \<Rightarrow> None
         | t # _ \<Rightarrow>
             (let buf = append_bytes env (giop_send_buffer_align env buf 4) (le32 (of_nat (length vs))) in
              if byte_kind (tc_kind t) then
                (case bytes_of vs of None \<Rightarrow> None | Some bs \<Rightarrow> Some (append_const env buf bs))
              else marshal_values env buf (replicate (length vs) t) vs)))"
| "ORBit_marshal_value env buf tc0 (VArray vs) =
     (let tc = SKIP_ALIAS tc0 in
      if tc_kind tc \<noteq> CORBA_tk_array \<or> length vs \<noteq> unat (tc_length tc) then None
      else
        (case subtypes tc of
           [] \<Rightarrow> None
         | t # _ \<Rightarrow>
             (if byte_kind (tc_kind t) then
                (case bytes_of vs of None \<Rightarrow> None | Some bs \<Rightarrow> Some (append_const env buf bs))
              else marshal_values env buf (replicate (length vs) t) vs)))"
| "marshal_values env buf (t # ts) (v # vs) =
     (case ORBit_marshal_value env buf t v of
        None \<Rightarrow> None
      | Some buf \<Rightarrow> marshal_values env buf ts vs)"
| "marshal_values env buf ts vs = Some buf"

definition ORBit_marshal_any :: "SendEnv \<Rightarrow> GIOPSendBuffer \<Rightarrow> CORBA_TypeCode \<Rightarrow> cvalue \<Rightarrow> GIOPSendBuffer option" where
  "ORBit_marshal_any env buf t v =
     (case ORBit_encode_CORBA_TypeCode env t buf of
        None \<Rightarrow> None
      | Some buf \<Rightarrow> ORBit_marshal_value env buf t v)"

section \<open>Demarshalling\<close>

definition get_octet :: "GIOPRecvBuffer \<Rightarrow> recv_error + (byte \<times> GIOPRecvBuffer)" where
  "get_octet buf = andThen (check 1 buf) (\<lambda>_. fetch8 1 buf)"

text \<open>
  Strings: the length is kept in a signed \<open>CORBA_long\<close>, so one from \<open>2 ^ 31\<close> on is negative,
  \<open>cur + i < cur\<close> holds and the message is malformed. It is checked against the
  message, but the copy is made up to the first zero byte, wherever that is.
\<close>

definition check_length :: "u32 \<Rightarrow> GIOPRecvBuffer \<Rightarrow> recv_error + unit" where
  "check_length i buf = (if sint i < 0 then Inl Malformed else check_past i buf)"

definition demarshal_string :: "GIOPRecvBuffer \<Rightarrow> recv_error + (byte list \<times> GIOPRecvBuffer)" where
  "demarshal_string buf0 =
     andThen (CDR_get_ulong buf0) (\<lambda>(i, buf).
     andThen (check_length i buf) (\<lambda>_.
     andThen (c_string buf (rcur buf)) (\<lambda>s. Inr (s, advance (ucast i) buf))))"

fun wchars_of :: "bool \<Rightarrow> byte list \<Rightarrow> u16 list" where
  "wchars_of swap (a # b # bs) = (if swap then of_le16 [b, a] else of_le16 [a, b]) # wchars_of swap bs"
| "wchars_of swap _ = []"

text \<open>
  Wide strings: a byte order mark is dropped and obeyed; without one the characters are
  big-endian. The value ends at the first zero character.
\<close>

definition demarshal_wstring :: "GIOPRecvBuffer \<Rightarrow> recv_error + (u16 list \<times> GIOPRecvBuffer)" where
  "demarshal_wstring buf0 =
     andThen (CDR_get_ulong buf0) (\<lambda>(i, buf).
     andThen (check_length i buf) (\<lambda>_.
     andThen (load buf (rcur buf) (unat i)) (\<lambda>bs.
       let mark = (if i \<ge> 2 then of_le16 bs else 0);
           marked = (mark = 0xfeff \<or> mark = 0xfffe);
           body = (if marked then drop 2 bs else bs);
           swap = (if marked then mark = 0xfffe else True)
       in Inr (takeWhile (\<lambda>w. w \<noteq> 0) (wchars_of swap body), advance (ucast i) buf))))"

definition demarshal_principal :: "GIOPRecvBuffer \<Rightarrow> recv_error + (byte list \<times> GIOPRecvBuffer)" where
  "demarshal_principal buf0 =
     andThen (CDR_get_ulong buf0) (\<lambda>(len, buf). fetch_octets len buf)"

type_synonym value_result = "tc_dec_error + (cvalue \<times> GIOPRecvBuffer)"

type_synonym values_result = "tc_dec_error + (cvalue list \<times> GIOPRecvBuffer)"

text \<open>
  The first argument bounds the nesting depth. \<open>demarshal_n\<close> is the element loop by the
  number of elements left.
\<close>

function (sequential) ORBit_demarshal_value :: "nat \<Rightarrow> CORBA_TypeCode \<Rightarrow> GIOPRecvBuffer \<Rightarrow> value_result"
  and demarshal_values :: "nat \<Rightarrow> CORBA_TypeCode list \<Rightarrow> GIOPRecvBuffer \<Rightarrow> values_result"
  and demarshal_n :: "nat \<Rightarrow> nat \<Rightarrow> CORBA_TypeCode \<Rightarrow> GIOPRecvBuffer \<Rightarrow> values_result"
where
  "ORBit_demarshal_value 0 tc0 buf = Inl TcFuel"
| "ORBit_demarshal_value (Suc f) tc0 buf =
     (let tc = SKIP_ALIAS tc0; k = tc_kind tc in
      if k \<in> {CORBA_tk_short, CORBA_tk_ushort, CORBA_tk_wchar} then
        andThen (recv (CDR_get 2 buf)) (\<lambda>(bs, buf). Inr (V16 (of_le16 bs), buf))
      else if k \<in> {CORBA_tk_long, CORBA_tk_ulong, CORBA_tk_enum, CORBA_tk_float} then
        andThen (recv (CDR_get 4 buf)) (\<lambda>(bs, buf). Inr (V32 (of_le32 bs), buf))
      else if k \<in> {CORBA_tk_longlong, CORBA_tk_ulonglong, CORBA_tk_double} then
        andThen (recv (CDR_get 8 buf)) (\<lambda>(bs, buf). Inr (V64 (of_le64 bs), buf))
      else if k = CORBA_tk_longdouble then
        andThen (recv (CDR_get 16 buf)) (\<lambda>(bs, buf). Inr (V128 bs, buf))
      else if byte_kind k then
        andThen (recv (get_octet buf)) (\<lambda>(b, buf). Inr (V8 b, buf))
      else if k = CORBA_tk_any then
        andThen (ORBit_decode_CORBA_TypeCode buf) (\<lambda>(t, buf).
        andThen (ORBit_demarshal_value f t buf) (\<lambda>(v, buf). Inr (VAny t v, buf)))
      else if k = CORBA_tk_Principal then
        andThen (recv (demarshal_principal buf)) (\<lambda>(bs, buf). Inr (VPrincipal bs, buf))
      else if k = CORBA_tk_TypeCode then
        andThen (ORBit_decode_CORBA_TypeCode buf) (\<lambda>(t, buf). Inr (VTypeCode t, buf))
      else if k \<in> {CORBA_tk_except, CORBA_tk_struct} then
        andThen (demarshal_values f (subtypes tc) buf) (\<lambda>(vs, buf). Inr (VStruct vs, buf))
      else if k = CORBA_tk_union then
        (case discriminator tc of
           None \<Rightarrow> Inl TcAbort
         | Some dtc \<Rightarrow>
             andThen (ORBit_demarshal_value f dtc buf) (\<lambda>(d, buf).
             case ORBit_get_union_tag tc d of
               None \<Rightarrow> Inl TcAbort
             | Some subtc \<Rightarrow>
                 andThen (ORBit_demarshal_value f subtc buf) (\<lambda>(b, buf). Inr (VUnion d b, buf))))
      else if k = CORBA_tk_string then
        andThen (recv (demarshal_string buf)) (\<lambda>(s, buf). Inr (VString s, buf))
      else if k = CORBA_tk_wstring then
        andThen (recv (demarshal_wstring buf)) (\<lambda>(ws, buf). Inr (VWString ws, buf))
      else if k = CORBA_tk_sequence then
        (case subtypes tc of
           [] \<Rightarrow> Inl TcAbort
         | t # _ \<Rightarrow>
             andThen (recv (CDR_get_ulong buf)) (\<lambda>(len, buf).
             if len = 0 then Inr (VSeq [], buf)
             else if byte_kind (tc_kind t) then
               andThen (recv (fetch_octets len buf)) (\<lambda>(bs, buf). Inr (VSeq (map V8 bs), buf))
             else
               andThen (demarshal_n f (unat len) t buf) (\<lambda>(vs, buf). Inr (VSeq vs, buf))))
      else if k = CORBA_tk_array then
        (case subtypes tc of
           [] \<Rightarrow> Inl TcAbort
         | t # _ \<Rightarrow> andThen (demarshal_n f (unat (tc_length tc)) t buf) (\<lambda>(vs, buf). Inr (VArray vs, buf)))
      else if k \<in> {CORBA_tk_null, CORBA_tk_void} then Inr (VNull, buf)
      else Inl (TcRecv Malformed))"
| "demarshal_values f [] buf = Inr ([], buf)"
| "demarshal_values f (t # ts) buf =
     andThen (ORBit_demarshal_value f t buf) (\<lambda>(v, buf).
     andThen (demarshal_values f ts buf) (\<lambda>(vs, buf). Inr (v # vs, buf)))"
| "demarshal_n f 0 t buf = Inr ([], buf)"
| "demarshal_n f (Suc n) t buf =
     andThen (ORBit_demarshal_value f t buf) (\<lambda>(v, buf).
     andThen (demarshal_n f n t buf) (\<lambda>(vs, buf). Inr (v # vs, buf)))"
  by pat_completeness auto

termination
  by (relation "measures [\<lambda>x. case x of Inl (f, _) \<Rightarrow> 2 * f | Inr (Inl (f, _)) \<Rightarrow> 2 * f + 1 | Inr (Inr (f, _)) \<Rightarrow> 2 * f + 1,
      \<lambda>x. case x of Inl _ \<Rightarrow> 0 | Inr (Inl (_, ts, _)) \<Rightarrow> length ts | Inr (Inr (_, n, _)) \<Rightarrow> n]") auto

declare ORBit_demarshal_value.simps(2) [simp del]

definition ORBit_demarshal_any :: "nat \<Rightarrow> GIOPRecvBuffer \<Rightarrow> tc_dec_error + (CORBA_TypeCode \<times> cvalue \<times> GIOPRecvBuffer)" where
  "ORBit_demarshal_any f buf =
     andThen (ORBit_decode_CORBA_TypeCode buf) (\<lambda>(t, buf).
     andThen (ORBit_demarshal_value f t buf) (\<lambda>(v, buf). Inr (t, v, buf)))"

end
