(* ===== verification/Cdr_Layout.thy ===== *)
theory Cdr_Layout
  imports Cdr_Value
begin

text \<open>
  The memory of a value (\<open>corba-any.c\<close>): \<open>value_stride\<close> is how far the marshaller and
  demarshaller move the pointer \<open>val\<close> over one value, \<open>ORBit_gather_alloc_info\<close> is how
  many bytes are allocated for it, and \<open>abi\<close> is the alignment and size the C compiler gives the
  mapped type on the LP64 host, written from the rules for C and the C language mapping alone.
  The source adds sizes up in \<open>int\<close>s; here they are natural numbers, so what is said is for types
  of less than \<open>2 ^ 31\<close> bytes.
\<close>

section \<open>Alignments\<close>

definition alignment :: "nat \<Rightarrow> bool" where
  "alignment a \<longleftrightarrow> a \<in> {1, 2, 4, 8, 16}"





lemma foldl_max_ge: "m \<le> foldl max m as" for m :: nat
  by (induction as arbitrary: m) (auto intro: order_trans [OF max.cobounded1])

lemma foldl_max_mono: "m \<le> n \<Longrightarrow> foldl max m as \<le> foldl max n as" for m :: nat
  by (induction as arbitrary: m n) (auto intro: max.mono)






section \<open>The layout of C\<close>

text \<open>
  A C struct places each member at the next address of its alignment, a C union all of
  them at its start; both are as aligned as their most aligned member and padded to that.
\<close>

definition c_struct :: "(nat \<times> nat) list \<Rightarrow> nat \<times> nat" where
  "c_struct ms = (let a = foldl max 1 (map fst ms) in (a, align_up a (struct_offset 0 ms)))"

definition c_union :: "(nat \<times> nat) list \<Rightarrow> nat \<times> nat" where
  "c_union ms = (let a = foldl max 1 (map fst ms) in (a, align_up a (foldl max 0 (map snd ms))))"

abbreviation c_pointer :: "nat \<times> nat" where "c_pointer \<equiv> (8, 8)"

text \<open>
  The C types of the mapping. A sequence (a \<open>Principal\<close> is one of octets) is two
  \<open>unsigned long\<close>s, a pointer and a flag; an \<open>any\<close> two pointers and a flag; a \<open>fixed\<close> two
  shorts and two characters.
\<close>

fun abi_basic :: "TCKind \<Rightarrow> nat \<times> nat" where
  "abi_basic CORBA_tk_short = (2, 2)"
| "abi_basic CORBA_tk_ushort = (2, 2)"
| "abi_basic CORBA_tk_wchar = (2, 2)"
| "abi_basic CORBA_tk_long = (4, 4)"
| "abi_basic CORBA_tk_ulong = (4, 4)"
| "abi_basic CORBA_tk_enum = (4, 4)"
| "abi_basic CORBA_tk_float = (4, 4)"
| "abi_basic CORBA_tk_double = (8, 8)"
| "abi_basic CORBA_tk_longlong = (8, 8)"
| "abi_basic CORBA_tk_ulonglong = (8, 8)"
| "abi_basic CORBA_tk_longdouble = (16, 16)"
| "abi_basic CORBA_tk_boolean = (1, 1)"
| "abi_basic CORBA_tk_char = (1, 1)"
| "abi_basic CORBA_tk_octet = (1, 1)"
| "abi_basic CORBA_tk_string = c_pointer"
| "abi_basic CORBA_tk_wstring = c_pointer"
| "abi_basic CORBA_tk_TypeCode = c_pointer"
| "abi_basic CORBA_tk_objref = c_pointer"
| "abi_basic CORBA_tk_any = c_struct [c_pointer, c_pointer, (1, 1)]"
| "abi_basic CORBA_tk_sequence = c_struct [(4, 4), (4, 4), c_pointer, (1, 1)]"
| "abi_basic CORBA_tk_Principal = c_struct [(4, 4), (4, 4), c_pointer, (1, 1)]"
| "abi_basic CORBA_tk_fixed = c_struct [(2, 2), (2, 2), (1, 1), (1, 1)]"
| "abi_basic _ = (1, 0)"

text \<open>A union is mapped to a struct of its discriminator and a C union of its members.\<close>

function abi :: "CORBA_TypeCode \<Rightarrow> nat \<times> nat" where
  "abi tc0 =
     (let tc = SKIP_ALIAS tc0; ms = map abi (subtypes tc) in
      case tc_kind tc of
        CORBA_tk_struct \<Rightarrow> c_struct ms
      | CORBA_tk_except \<Rightarrow> c_struct ms
      | CORBA_tk_union \<Rightarrow>
          (case discriminator tc of Some d \<Rightarrow> c_struct [abi d, c_union ms] | None \<Rightarrow> (1, 0))
      | CORBA_tk_array \<Rightarrow> (case ms of (a, n) # _ \<Rightarrow> (a, n * unat (tc_length tc)) | [] \<Rightarrow> (1, 0))
      | k \<Rightarrow> abi_basic k)"
  by pat_completeness auto
termination
proof (relation "measure size", goal_cases)
  case (2 tc0 tc x)
  then show ?case using size_subtype [of x tc] size_SKIP_ALIAS [of tc0] by simp
next
  case (3 tc0 tc parts d)
  then show ?case using size_discriminator [of tc d] size_SKIP_ALIAS [of tc0] by simp
qed simp

declare abi.simps [simp del]

section \<open>The pointer over a value\<close>

text \<open>
  The pointer arithmetic of \<open>ORBit_marshal_value\<close> (the demarshaller does the same):
  \<open>val\<close> moves by the size of a basic value, over the members of a struct at offsets
  recomputed from \<open>ORBit_gather_alloc_info\<close>, and over a union by the discriminator and
  the largest member, each rounded up to the alignment of the union.
\<close>

function value_stride :: "CORBA_TypeCode \<Rightarrow> nat" where
  "value_stride tc0 =
     (let tc = SKIP_ALIAS tc0; parts = map (\<lambda>t. (c_align t, ORBit_gather_alloc_info t)) (subtypes tc) in
      case tc_kind tc of
        CORBA_tk_struct \<Rightarrow> align_up (c_align tc) (struct_offset 0 parts)
      | CORBA_tk_except \<Rightarrow> align_up (c_align tc) (struct_offset 0 parts)
      | CORBA_tk_union \<Rightarrow>
          (case discriminator tc of
             Some d \<Rightarrow> align_up (c_align tc) (ORBit_gather_alloc_info d) +
               align_up (c_align tc) (foldl max 0 (map snd parts))
           | None \<Rightarrow> 0)
      | CORBA_tk_array \<Rightarrow>
          (case subtypes tc of
             t # _ \<Rightarrow> (if byte_kind (tc_kind t) then unat (tc_length tc)
                        else value_stride t * unat (tc_length tc))
           | [] \<Rightarrow> 0)
      | k \<Rightarrow> basic_size k)"
  by pat_completeness auto
termination
proof (relation "measure size", goal_cases)
  case (2 tc0 tc parts t ts)
  then show ?case using size_subtype0 [of tc t ts] size_SKIP_ALIAS [of tc0] by simp
qed simp

declare value_stride.simps [simp del]

text \<open>The equations by kind, for evaluation.\<close>

named_theorems layout_simps \<open>alignment and sizes by kind\<close>

definition plain_kind :: "TCKind \<Rightarrow> bool" where
  "plain_kind k \<longleftrightarrow> k \<notin> {CORBA_tk_struct, CORBA_tk_except, CORBA_tk_union, CORBA_tk_array, CORBA_tk_alias}"

lemma layout_plain [layout_simps]:
  assumes "plain_kind (tc_kind tc)"
  shows "c_align tc = basic_align (tc_kind tc)" "ORBit_gather_alloc_info tc = basic_size (tc_kind tc)"
    "abi tc = abi_basic (tc_kind tc)" "value_stride tc = basic_size (tc_kind tc)"
  unfolding ORBit_TC_find_c_alignment.simps [of tc] ORBit_gather_alloc_info.simps [of tc]
    abi.simps [of tc] value_stride.simps [of tc] Let_def
  using assms by (cases "tc_kind tc"; simp add: plain_kind_def)+

lemma layout_struct [layout_simps]:
  assumes "tc_kind tc = CORBA_tk_struct"
  shows "c_align tc = foldl max 1 (map c_align (subtypes tc))"
    "ORBit_gather_alloc_info tc =
       align_up (c_align tc) (struct_offset 0 (map (\<lambda>t. (c_align t, ORBit_gather_alloc_info t)) (subtypes tc)))"
    "abi tc = c_struct (map abi (subtypes tc))"
    "value_stride tc =
       align_up (c_align tc) (struct_offset 0 (map (\<lambda>t. (c_align t, ORBit_gather_alloc_info t)) (subtypes tc)))"
  using assms
  by (simp add: ORBit_TC_find_c_alignment.simps [of tc] Let_def,
      simp add: ORBit_gather_alloc_info.simps [of tc] Let_def,
      simp add: abi.simps [of tc] Let_def,
      simp add: value_stride.simps [of tc] Let_def)


lemma layout_union [layout_simps]:
  assumes "tc_kind tc = CORBA_tk_union" "discriminator tc = Some d"
  shows "c_align tc = foldl max (max 1 (c_align d)) (map c_align (subtypes tc))"
    "ORBit_gather_alloc_info tc = union_size (ORBit_gather_alloc_info d) (c_align tc)
       (map (\<lambda>t. (c_align t, ORBit_gather_alloc_info t)) (subtypes tc))"
    "abi tc = c_struct [abi d, c_union (map abi (subtypes tc))]"
    "value_stride tc = align_up (c_align tc) (ORBit_gather_alloc_info d) +
       align_up (c_align tc) (foldl max 0 (map ORBit_gather_alloc_info (subtypes tc)))"
  using assms
  by (simp add: ORBit_TC_find_c_alignment.simps [of tc] Let_def,
      simp add: ORBit_gather_alloc_info.simps [of tc] Let_def,
      simp add: abi.simps [of tc] Let_def,
      simp add: value_stride.simps [of tc] Let_def comp_def)


section \<open>When the three agree\<close>






lemma SKIP_ALIAS_idem [simp]: "SKIP_ALIAS (SKIP_ALIAS tc) = SKIP_ALIAS tc"
proof (induction tc rule: SKIP_ALIAS.induct)
  case (1 tc)
  then show ?case by (cases "subtypes tc"; cases "tc_kind tc = CORBA_tk_alias") (simp_all add: SKIP_ALIAS.simps [of tc])
qed







section \<open>Properties\<close>


definition basic_tc :: "TCKind \<Rightarrow> CORBA_TypeCode list \<Rightarrow> CORBA_TypeCode" where
  "basic_tc k ts = TypeCode 0 k 0 ts None [] [] [] [] 0 0 0 0"

definition ex_struct12 :: CORBA_TypeCode where
  "ex_struct12 = basic_tc CORBA_tk_struct
     [basic_tc CORBA_tk_long [], basic_tc CORBA_tk_long [], basic_tc CORBA_tk_long []]"

definition ex_union :: "CORBA_TypeCode list \<Rightarrow> CORBA_TypeCode" where
  "ex_union ts = TypeCode 0 CORBA_tk_union 0 ts (Some (basic_tc CORBA_tk_long [])) [] [] [] (map of_nat [1..<Suc (length ts)]) (- 1) 0 0 0"

lemmas ex_layout = layout_simps plain_kind_def ex_union_def ex_struct12_def basic_tc_def union_size_def c_union_def
  c_struct_def align_up_def ORBIT_ALIGNOF_CORBA_POINTER_def


text \<open>
  Where it is not, too little is allocated: a union of a double, an octet and a struct
  of three longs is given 16 bytes, while the demarshaller writes its 12-byte member at
  offset 8 and moves the pointer by 24, the size the compiler gives it.
\<close>

lemma union_allocation_short:
  "ORBit_gather_alloc_info (ex_union [basic_tc CORBA_tk_double [], basic_tc CORBA_tk_octet [], ex_struct12]) = 16 \<and>
   value_stride (ex_union [basic_tc CORBA_tk_double [], basic_tc CORBA_tk_octet [], ex_struct12]) = 24 \<and>
   abi (ex_union [basic_tc CORBA_tk_double [], basic_tc CORBA_tk_octet [], ex_struct12]) = (8, 24)"
  by (simp add: ex_layout)

text \<open>
  A \<open>Principal\<close> is a sequence, but its type code says that it may lie anywhere: behind an octet
  the code puts it at offset 1, the compiler at 8.
\<close>

lemma principal_misplaced:
  "c_align (basic_tc CORBA_tk_Principal []) = 1" "fst (abi (basic_tc CORBA_tk_Principal [])) = 8"
  "ORBit_gather_alloc_info (basic_tc CORBA_tk_struct [basic_tc CORBA_tk_octet [], basic_tc CORBA_tk_Principal []]) = 25"
  "snd (abi (basic_tc CORBA_tk_struct [basic_tc CORBA_tk_octet [], basic_tc CORBA_tk_Principal []])) = 32"
  by (simp_all add: ex_layout)

end
