(* ===== verification/Cdr_Encoding.thy ===== *)
theory Cdr_Encoding
  imports Cdr_Value Giop_Layout
begin

text \<open>
  The CDR encoding of a value as a relation, apart from the code that writes and reads it:
  \<open>cdr be off tc v xs\<close> says that \<open>xs\<close> encodes \<open>v\<close> at offset \<open>off\<close> of a message, in
  big-endian order iff \<open>be\<close>; padding bytes are arbitrary. The marshaller writes such an
  encoding (\<open>marshal_value_cdr\<close>). Left out are \<open>long double\<close> and \<open>Principal\<close>, whose two
  sides disagree on the alignment, and the type code carriers \<open>any\<close> and \<open>TypeCode\<close>.
\<close>

definition enc64 :: "bool \<Rightarrow> u64 \<Rightarrow> byte list" where
  "enc64 be w = (if be then rev (le64 w) else le64 w)"

lemma length_enc64 [simp]: "length (enc64 be w) = 8"
  by (simp add: enc64_def)

definition enc_wchars :: "bool \<Rightarrow> u16 list \<Rightarrow> byte list" where
  "enc_wchars be ws = concat (map (enc16 be) ws)"

lemma length_enc_wchars [simp]: "length (enc_wchars be ws) = 2 * length ws"
  by (induction ws) (simp_all add: enc_wchars_def)

inductive cdr :: "bool \<Rightarrow> nat \<Rightarrow> CORBA_TypeCode \<Rightarrow> cvalue \<Rightarrow> byte list \<Rightarrow> bool"
  and cdrs :: "bool \<Rightarrow> nat \<Rightarrow> CORBA_TypeCode list \<Rightarrow> cvalue list \<Rightarrow> byte list \<Rightarrow> bool"
  for be :: bool
where
  cdr_null: "tc_kind (SKIP_ALIAS tc) \<in> {CORBA_tk_null, CORBA_tk_void} \<Longrightarrow> cdr be off tc VNull []"
| cdr_8: "byte_kind (tc_kind (SKIP_ALIAS tc)) \<Longrightarrow> cdr be off tc (V8 b) [b]"
| cdr_16: "tc_kind (SKIP_ALIAS tc) \<in> {CORBA_tk_wchar, CORBA_tk_ushort, CORBA_tk_short} \<Longrightarrow>
    length p = pad 2 off \<Longrightarrow> cdr be off tc (V16 w16) (p @ enc16 be w16)"
| cdr_32: "tc_kind (SKIP_ALIAS tc) \<in> {CORBA_tk_enum, CORBA_tk_long, CORBA_tk_ulong, CORBA_tk_float} \<Longrightarrow>
    length p = pad 4 off \<Longrightarrow> cdr be off tc (V32 w32) (p @ enc32 be w32)"
| cdr_64: "tc_kind (SKIP_ALIAS tc) \<in> {CORBA_tk_double, CORBA_tk_longlong, CORBA_tk_ulonglong} \<Longrightarrow>
    length p = pad 8 off \<Longrightarrow> cdr be off tc (V64 w64) (p @ enc64 be w64)"
| cdr_string: "tc_kind (SKIP_ALIAS tc) = CORBA_tk_string \<Longrightarrow> length p = pad 4 off \<Longrightarrow>
    0 \<notin> set s \<Longrightarrow> length s + 1 < 2 ^ 32 \<Longrightarrow>
    cdr be off tc (VString s) (p @ enc32 be (of_nat (length s + 1)) @ s @ [0])"
| cdr_wstring: "tc_kind (SKIP_ALIAS tc) = CORBA_tk_wstring \<Longrightarrow> length p = pad 4 off \<Longrightarrow>
    0 \<notin> set ws \<Longrightarrow> 2 * length ws + 2 < 2 ^ 32 \<Longrightarrow>
    cdr be off tc (VWString ws) (p @ enc32 be (of_nat (2 * length ws + 2)) @ enc16 be 0xfeff @ enc_wchars be ws)"
| cdr_struct: "tc_kind (SKIP_ALIAS tc) \<in> {CORBA_tk_except, CORBA_tk_struct} \<Longrightarrow>
    cdrs be off (subtypes (SKIP_ALIAS tc)) vs xs \<Longrightarrow> cdr be off tc (VStruct vs) xs"
| cdr_union: "tc_kind (SKIP_ALIAS tc) = CORBA_tk_union \<Longrightarrow> discriminator (SKIP_ALIAS tc) = Some dtc \<Longrightarrow>
    cdr be off dtc d xs \<Longrightarrow> ORBit_get_union_tag (SKIP_ALIAS tc) d = Some subtc \<Longrightarrow>
    cdr be (off + length xs) subtc b ys \<Longrightarrow> cdr be off tc (VUnion d b) (xs @ ys)"
| cdr_seq: "tc_kind (SKIP_ALIAS tc) = CORBA_tk_sequence \<Longrightarrow> subtypes (SKIP_ALIAS tc) = t # ts \<Longrightarrow>
    length p = pad 4 off \<Longrightarrow> length vs < 2 ^ 32 \<Longrightarrow>
    cdrs be (off + length p + 4) (replicate (length vs) t) vs xs \<Longrightarrow>
    cdr be off tc (VSeq vs) (p @ enc32 be (of_nat (length vs)) @ xs)"
| cdr_array: "tc_kind (SKIP_ALIAS tc) = CORBA_tk_array \<Longrightarrow> subtypes (SKIP_ALIAS tc) = t # ts \<Longrightarrow>
    length vs = unat (tc_length (SKIP_ALIAS tc)) \<Longrightarrow>
    cdrs be off (replicate (length vs) t) vs xs \<Longrightarrow> cdr be off tc (VArray vs) xs"
| cdrs_Nil: "cdrs be off [] [] []"
| cdrs_Cons: "cdr be off t v xs \<Longrightarrow> cdrs be (off + length xs) ts vs ys \<Longrightarrow>
    cdrs be off (t # ts) (v # vs) (xs @ ys)"

inductive_cases cdrs_ConsE: "cdrs be off (t # ts) vs xs"
inductive_cases cdr_8E: "cdr be off t (V8 b) xs"

text \<open>Values with an encoding here, and a bound of its length.\<close>

fun plain :: "cvalue \<Rightarrow> bool" where
  "plain (VString s) \<longleftrightarrow> 0 \<notin> set s"
| "plain (VWString ws) \<longleftrightarrow> 0 \<notin> set ws"
| "plain (VStruct vs) \<longleftrightarrow> list_all plain vs"
| "plain (VUnion d b) \<longleftrightarrow> plain d \<and> plain b"
| "plain (VSeq vs) \<longleftrightarrow> list_all plain vs"
| "plain (VArray vs) \<longleftrightarrow> list_all plain vs"
| "plain (V128 _) \<longleftrightarrow> False"
| "plain (VPrincipal _) \<longleftrightarrow> False"
| "plain (VTypeCode _) \<longleftrightarrow> False"
| "plain (VAny _ _) \<longleftrightarrow> False"
| "plain _ \<longleftrightarrow> True"

fun vbound :: "cvalue \<Rightarrow> nat" and vbounds :: "cvalue list \<Rightarrow> nat" where
  "vbound (VString s) = length s + 16"
| "vbound (VWString ws) = 2 * length ws + 16"
| "vbound (VStruct vs) = vbounds vs"
| "vbound (VUnion d b) = vbound d + vbound b"
| "vbound (VSeq vs) = 8 + vbounds vs"
| "vbound (VArray vs) = vbounds vs"
| "vbound _ = 16"
| "vbounds [] = 0"
| "vbounds (v # vs) = 1 + vbound v + vbounds vs"

lemma length_vbounds: "length vs \<le> vbounds vs"
  by (induction vs) auto

text \<open>A run of octets is the encoding of its elements.\<close>

lemma cdrs_octets:
  assumes "byte_kind (tc_kind t)" and "bytes_of vs = Some bs"
  shows "cdrs be off (replicate (length vs) t) vs bs \<and> length bs = length vs"
  using assms(2)
proof (induction vs arbitrary: bs off)
  case Nil
  then show ?case by (simp add: cdrs_Nil)
next
  case (Cons v vs)
  then obtain b cs where b: "v = V8 b" "bytes_of vs = Some cs" "bs = b # cs"
    by (cases v) (auto split: option.splits)
  have "tc_kind t \<noteq> CORBA_tk_alias" using assms(1) by (auto simp: byte_kind_def)
  then have "cdr be off t (V8 b) [b]" using assms(1) by (intro cdr_8) simp
  from cdrs_Cons [OF this] Cons.IH [OF b(2), of "off + 1"] show ?case
    by (simp add: b(1,3))
qed

section \<open>Writing an encoding\<close>

lemma enc_host: "enc16 False = le16" "enc32 False = le32" "enc64 False = le64" "enc_wchars False ws = wchars ws"
proof -
  show "enc16 False = le16" "enc32 False = le32" "enc64 False = le64"
    by (auto simp: enc16_def enc32_def enc64_def)
  then show "enc_wchars False ws = wchars ws" by (simp add: enc_wchars_def wchars_def)
qed

lemma builds_prim:
  assumes "builds env v mt bs b" and "length bs + 12 < 2 ^ 32" and "0 < k" "k \<le> 8" and "length xs = k"
  obtains p where "length p = pad k (12 + length bs)" "builds env v mt (bs @ p @ xs) (append_prim env b xs)"
proof -
  have m: "msg_len env b = 12 + length bs" using assms(1) by (simp add: builds_def msg_len_def)
  from append_aligned_emits [of env b k xs] assms m obtain p where
    "length p = pad k (12 + length bs)" "emits env b (p @ xs) (append_prim env b xs)"
    by (auto simp: builds_def append_prim_def)
  then show thesis using that builds_emits [OF assms(1)] by blast
qed

lemma builds_const:
  "builds env v mt bs b \<Longrightarrow> bs \<noteq> [] \<Longrightarrow> builds env v mt (bs @ xs) (append_const env b xs)"
  using builds_append [of env v mt bs b "(BConst xs, 0)" "length xs"]
  by (simp add: append_const_def src_ok_def src_bytes_def)

lemma builds_string:
  assumes "builds env v mt bs b" and "length bs + length s + 28 < 2 ^ 32"
  obtains p where "length p = pad 4 (12 + length bs)"
    "builds env v mt (bs @ p @ le32 (of_nat (length s + 1)) @ s @ [0])
      (giop_send_buffer_append_string env b (BConst (s @ [0]), 0) s)"
proof -
  have m: "msg_len env b = 12 + length bs" using assms(1) by (simp add: builds_def msg_len_def)
  have "wf_send env b" using assms(1) by (simp add: builds_def)
  from append_string_emits [OF this, of s "(BConst (s @ [0]), 0)"] assms(2) obtain p where
    "length p = pad 4 (12 + length bs)"
    "emits env b (p @ le32 (of_nat (length s + 1)) @ s @ [0])
      (giop_send_buffer_append_string env b (BConst (s @ [0]), 0) s)"
    by (auto simp: m src_ok_def src_bytes_def)
  then show thesis using that builds_emits [OF assms(1)] by blast
qed

text \<open>
  \<open>writes env v mt bs tc val b\<close>: \<open>b\<close> is a buffer whose message is \<open>bs\<close> and then an
  encoding of \<open>val\<close>.
\<close>

definition writes :: "SendEnv \<Rightarrow> GIOPVersion \<Rightarrow> byte \<Rightarrow> byte list \<Rightarrow> (nat \<Rightarrow> byte list \<Rightarrow> bool) \<Rightarrow> nat \<Rightarrow> GIOPSendBuffer \<Rightarrow> bool" where
  "writes env v mt bs P n b \<longleftrightarrow>
     (\<exists>xs. P (12 + length bs) xs \<and> builds env v mt (bs @ xs) b \<and> length xs \<le> n)"

lemma writesI:
  "P (12 + length bs) xs \<Longrightarrow> builds env v mt (bs @ xs) b \<Longrightarrow> length xs \<le> n \<Longrightarrow> writes env v mt bs P n b"
  unfolding writes_def by blast

lemma writes_nothing:
  "builds env v mt bs b \<Longrightarrow> writes env v mt bs (\<lambda>off. cdrs False off [] []) 0 b"
  by (rule writesI [of _ _ "[]"]) (simp_all add: cdrs_Nil)

lemma pad_le: "pad 2 n \<le> 1" "pad 4 n \<le> 3" "pad 8 n \<le> 7"
  using pad_lt [of 2 n] pad_lt [of 4 n] pad_lt [of 8 n] by simp_all

lemma builds_wstring:
  assumes b: "builds env v mt bs b" and l: "length bs + 2 * length ws + 28 < 2 ^ 32"
  obtains p where "length p = pad 4 (12 + length bs)"
    "builds env v mt (bs @ p @ le32 (of_nat (2 * length ws + 2)) @ le16 0xfeff @ wchars ws)
      (let n = (of_nat (length ws) + 1) * 2 :: u32
       in append_const env (append_bytes env (append_prim env b (le32 n)) (le16 0xfeff))
            (take (unat (n - 2)) (wchars ws)))"
proof -
  let ?n = "(of_nat (length ws) + 1) * 2 :: u32"
  have n: "?n = of_nat (2 * length ws + 2)" by simp
  have n2: "?n - 2 = of_nat (2 * length ws)" by simp
  have "unat (?n - 2) = 2 * length ws"
    unfolding n2 unat_of_nat by (rule mod_less) (use l in simp)
  moreover have "length (wchars ws) = 2 * length ws"
    using length_enc_wchars [of False ws] by (simp only: enc_host)
  ultimately have t: "take (unat (?n - 2)) (wchars ws) = wchars ws" by simp
  obtain p where p: "length p = pad 4 (12 + length bs)" "builds env v mt (bs @ p @ le32 ?n) (append_prim env b (le32 ?n))"
    by (rule builds_prim [OF b, of 4 "le32 ?n"]) (use l in simp_all)
  have "builds env v mt ((bs @ p @ le32 ?n) @ le16 0xfeff) (append_bytes env (append_prim env b (le32 ?n)) (le16 0xfeff))"
    by (rule builds_bytes [OF p(2)]) simp_all
  from builds_const [OF this, of "wchars ws"] have "builds env v mt
      (bs @ p @ le32 (of_nat (2 * length ws + 2)) @ le16 0xfeff @ wchars ws)
      (append_const env (append_bytes env (append_prim env b (le32 ?n)) (le16 0xfeff)) (wchars ws))"
    by (simp only: append_assoc n) (simp add: le16_def)
  with p(1) show thesis by (intro that) (simp_all only: Let_def t)
qed

theorem marshal_value_cdr:
  "ORBit_marshal_value env buf tc val = Some buf' \<Longrightarrow> builds env v mt bs buf \<Longrightarrow> bs \<noteq> [] \<Longrightarrow> plain val \<Longrightarrow>
     length bs + 12 + vbound val < 2 ^ 32 \<Longrightarrow> writes env v mt bs (\<lambda>off. cdr False off tc val) (vbound val) buf'"
  "marshal_values env buf ts vals = Some buf' \<Longrightarrow> builds env v mt bs buf \<Longrightarrow> bs \<noteq> [] \<Longrightarrow> list_all plain vals \<Longrightarrow>
     length ts = length vals \<Longrightarrow>
     length bs + 12 + vbounds vals < 2 ^ 32 \<Longrightarrow> writes env v mt bs (\<lambda>off. cdrs False off ts vals) (vbounds vals) buf'"
proof (induction env buf tc val and env buf ts vals arbitrary: bs buf' and bs buf'
    rule: ORBit_marshal_value_marshal_values.induct)
  case (1 env buf tc0)
  then show ?case
    by (intro writesI [of _ _ "[]"]) (auto simp: Let_def split: if_splits intro: cdr_null)
next
  case (2 env buf tc0 b)
  then show ?case
    using builds_bytes [OF 2(2), of "[b]"]
    by (intro writesI [of _ _ "[b]"]) (auto simp: Let_def split: if_splits intro: cdr_8)
next
  case (3 env buf tc0 w)
  obtain p where "length p = pad 2 (12 + length bs)" "builds env v mt (bs @ p @ le16 w) (append_prim env buf (le16 w))"
    by (rule builds_prim [OF 3(2), of 2 "le16 w"]) (use 3 in simp_all)
  with 3(1) pad_le(1) [of "12 + length bs"] show ?case
    by (intro writesI [of _ _ "p @ le16 w"])
      (auto simp: Let_def enc_host split: if_splits intro: cdr_16 [where be = False, unfolded enc_host])
next
  case (4 env buf tc0 w)
  obtain p where "length p = pad 4 (12 + length bs)" "builds env v mt (bs @ p @ le32 w) (append_prim env buf (le32 w))"
    by (rule builds_prim [OF 4(2), of 4 "le32 w"]) (use 4 in simp_all)
  with 4(1) pad_le(2) [of "12 + length bs"] show ?case
    by (intro writesI [of _ _ "p @ le32 w"])
      (auto simp: Let_def split: if_splits intro: cdr_32 [where be = False, unfolded enc_host])
next
  case (5 env buf tc0 w)
  obtain p where "length p = pad 8 (12 + length bs)" "builds env v mt (bs @ p @ le64 w) (append_prim env buf (le64 w))"
    by (rule builds_prim [OF 5(2), of 8 "le64 w"]) (use 5 in simp_all)
  with 5(1) pad_le(3) [of "12 + length bs"] show ?case
    by (intro writesI [of _ _ "p @ le64 w"])
      (auto simp: Let_def split: if_splits intro: cdr_64 [where be = False, unfolded enc_host])
next
  case (6 env buf tc0 bs')
  then show ?case by simp
next
  case (7 env buf tc0 s)
  obtain p where "length p = pad 4 (12 + length bs)"
    "builds env v mt (bs @ p @ le32 (of_nat (length s + 1)) @ s @ [0])
      (giop_send_buffer_append_string env buf (BConst (s @ [0]), 0) s)"
    by (rule builds_string [OF 7(2), of s]) (use 7 in simp_all)
  note b = this
  have c: "cdr False (12 + length bs) tc0 (VString s) (p @ le32 (of_nat (length s + 1)) @ s @ [0])"
    by (rule cdr_string [where be = False, unfolded enc_host, OF _ b(1)])
      (use 7 in \<open>auto simp: Let_def split: if_splits\<close>)
  show ?case
    by (rule writesI [where P = "\<lambda>off. cdr False off tc0 (VString s)", OF c]) (use 7 b pad_le(2) [of "12 + length bs"] in \<open>auto simp: Let_def split: if_splits\<close>)
next
  case (8 env buf tc0 ws)
  obtain p where "length p = pad 4 (12 + length bs)"
    "builds env v mt (bs @ p @ le32 (of_nat (2 * length ws + 2)) @ le16 0xfeff @ wchars ws) buf'"
    by (rule builds_wstring [OF 8(2), of ws]) (use 8 in \<open>simp_all add: Let_def split: if_splits\<close>)
  note b = this
  have c: "cdr False (12 + length bs) tc0 (VWString ws)
      (p @ le32 (of_nat (2 * length ws + 2)) @ le16 0xfeff @ wchars ws)"
    by (rule cdr_wstring [where be = False, unfolded enc_host, OF _ b(1)])
      (use 8 in \<open>auto simp: Let_def split: if_splits\<close>)
  show ?case
    by (rule writesI [where P = "\<lambda>off. cdr False off tc0 (VWString ws)", OF c b(2)])
      (use 8(5) b(1) pad_le(2) [of "12 + length bs"] length_enc_wchars [of False ws] in \<open>simp add: enc_host\<close>)
next
  case (12 env buf tc0 vs)
  from 12(2) have k: "tc_kind (SKIP_ALIAS tc0) \<in> {CORBA_tk_except, CORBA_tk_struct}"
    and l: "length vs = length (subtypes (SKIP_ALIAS tc0))"
    and m: "marshal_values env buf (subtypes (SKIP_ALIAS tc0)) vs = Some buf'"
    by (auto simp: Let_def split: if_splits)
  have "writes env v mt bs (\<lambda>off. cdrs False off (subtypes (SKIP_ALIAS tc0)) vs) (vbounds vs) buf'"
    by (rule 12(1) [OF refl _ m 12(3,4)]) (use k l 12(5,6) in auto)
  then show ?case using k by (auto simp: writes_def intro: cdr_struct)
next
  case (16 env buf t ts v' vs)
  from 16(3) obtain buf1 where m: "ORBit_marshal_value env buf t v' = Some buf1" "marshal_values env buf1 ts vs = Some buf'"
    by (auto split: option.splits)
  from 16(1) [OF m(1) 16(4,5)] 16(6,8) obtain xs where
    x: "cdr False (12 + length bs) t v' xs" "builds env v mt (bs @ xs) buf1" "length xs \<le> vbound v'"
    by (auto simp: writes_def)
  have "writes env v mt (bs @ xs) (\<lambda>off. cdrs False off ts vs) (vbounds vs) buf'"
    by (rule 16(2) [OF m(1) m(2) x(2)]) (use 16(5-8) x(3) in auto)
  then obtain ys where y: "cdrs False (12 + length (bs @ xs)) ts vs ys" "builds env v mt ((bs @ xs) @ ys) buf'"
      "length ys \<le> vbounds vs"
    by (auto simp: writes_def)
  show ?case
    by (rule writesI [of _ _ "xs @ ys"]) (use x y in \<open>auto intro!: cdrs_Cons simp: add.assoc\<close>)
next
  case (13 env buf tc0 d b)
  let ?tc = "SKIP_ALIAS tc0"
  from 13(3) obtain dtc buf1 subtc where k: "tc_kind ?tc = CORBA_tk_union" "discriminator ?tc = Some dtc"
    and m1: "ORBit_marshal_value env buf dtc d = Some buf1"
    and tag: "ORBit_get_union_tag ?tc d = Some subtc"
    and m2: "ORBit_marshal_value env buf1 subtc b = Some buf'"
    by (auto simp: Let_def split: if_splits option.splits)
  have "writes env v mt bs (\<lambda>off. cdr False off dtc d) (vbound d) buf1"
    by (rule 13(1) [OF refl _ k(2) m1 13(4,5)]) (use k 13(6,7) in auto)
  then obtain xs where x: "cdr False (12 + length bs) dtc d xs" "builds env v mt (bs @ xs) buf1" "length xs \<le> vbound d"
    by (auto simp: writes_def)
  have "writes env v mt (bs @ xs) (\<lambda>off. cdr False off subtc b) (vbound b) buf'"
    by (rule 13(2) [OF refl _ k(2) m1 tag m2 x(2)]) (use k 13(5-7) x(3) in auto)
  then obtain ys where y: "cdr False (12 + length (bs @ xs)) subtc b ys" "builds env v mt ((bs @ xs) @ ys) buf'"
      "length ys \<le> vbound b"
    by (auto simp: writes_def)
  show ?case
    by (rule writesI [of _ _ "xs @ ys"]) (use x y k tag in \<open>auto intro!: cdr_union simp: add.assoc\<close>)
next
  case (14 env buf tc0 vs)
  let ?tc = "SKIP_ALIAS tc0" and ?n = "of_nat (length vs) :: u32"
  from 14(2) obtain t ts where k: "tc_kind ?tc = CORBA_tk_sequence" "subtypes ?tc = t # ts"
    by (auto simp: Let_def split: if_splits list.splits)
  have lv: "length vs < 2 ^ 32" using 14(6) length_vbounds [of vs] by simp
  obtain p where p: "length p = pad 4 (12 + length bs)" "builds env v mt (bs @ p) (giop_send_buffer_align env buf 4)"
    by (rule builds_align [OF 14(3), of 4]) (use 14(6) in auto)
  let ?b = "append_bytes env (giop_send_buffer_align env buf 4) (le32 ?n)" and ?bs = "bs @ p @ le32 ?n"
  have b: "builds env v mt ?bs ?b" "?bs \<noteq> []"
    using builds_bytes [OF p(2), of "le32 ?n"] 14(4) by simp_all
  have "writes env v mt ?bs (\<lambda>off. cdrs False off (replicate (length vs) t) vs) (vbounds vs) buf'"
  proof (cases "byte_kind (tc_kind t)")
    case True
    then obtain ys where y: "bytes_of vs = Some ys" "buf' = append_const env ?b ys"
      using 14(2) k by (auto simp: Let_def split: option.splits)
    show ?thesis
      using cdrs_octets [OF True y(1)] length_vbounds [of vs] builds_const [OF b, of ys] y(2)
      by (intro writesI [of _ _ ys]) auto
  next
    case False
    have m: "marshal_values env ?b (replicate (length vs) t) vs = Some buf'"
      using 14(2) k False by (simp add: Let_def)
    show ?thesis
      by (rule 14(1) [OF refl _ k(2) refl False m b]) (use k 14(5,6) p(1) pad_le(2) [of "12 + length bs"] in auto)
  qed
  then obtain xs where x: "cdrs False (12 + length bs + length p + 4) (replicate (length vs) t) vs xs"
      "builds env v mt (?bs @ xs) buf'" "length xs \<le> vbounds vs"
    by (auto simp: writes_def add.assoc)
  show ?case
    by (rule writesI [where xs = "p @ le32 ?n @ xs"])
      (use cdr_seq [where be = False, unfolded enc_host, OF k p(1) lv x(1)] x(2,3) p(1) pad_le(2) [of "12 + length bs"]
        in simp_all)
next
  case (15 env buf tc0 vs)
  let ?tc = "SKIP_ALIAS tc0"
  from 15(2) obtain t ts where k: "tc_kind ?tc = CORBA_tk_array" "subtypes ?tc = t # ts"
    and l: "length vs = unat (tc_length ?tc)"
    by (auto simp: Let_def split: if_splits list.splits)
  have "writes env v mt bs (\<lambda>off. cdrs False off (replicate (length vs) t) vs) (vbounds vs) buf'"
  proof (cases "byte_kind (tc_kind t)")
    case True
    then obtain ys where y: "bytes_of vs = Some ys" "buf' = append_const env buf ys"
      using 15(2) k l by (auto simp: Let_def split: option.splits)
    show ?thesis
      using cdrs_octets [OF True y(1)] length_vbounds [of vs] builds_const [OF 15(3,4), of ys] y(2)
      by (intro writesI [of _ _ ys]) auto
  next
    case False
    have m: "marshal_values env buf (replicate (length vs) t) vs = Some buf'"
      using 15(2) k l False by (simp add: Let_def)
    show ?thesis
      by (rule 15(1) [OF refl _ k(2) False m 15(3,4)]) (use k l 15(5,6) in auto)
  qed
  then show ?case using cdr_array [OF k l] by (auto simp: writes_def)
qed (auto intro: writes_nothing)

end
