(* ===== verification/Cdr_Decoding.thy ===== *)
theory Cdr_Decoding
  imports Cdr_Encoding
begin

text \<open>
  The demarshaller reads every encoding (\<open>Cdr_Encoding\<close>), of either byte order and
  whatever the padding holds (\<open>demarshal_value_cdr\<close>), and so what the marshaller wrote.
\<close>

section \<open>Primitive items\<close>

lemma reads_recv: "reads be buf m x off r \<Longrightarrow> reads be buf (recv m) x off r"
  by (auto simp: reads_def)

lemma reads_map:
  "reads be buf m x off r \<Longrightarrow> reads be buf (andThen m (\<lambda>(x, b). Inr (f x, b))) (f x) off r"
  by (auto simp: reads_def)

lemma reads_CDR_get:
  assumes v: "view be buf off (p @ xs @ r)" and k: "k = 2 \<or> k = 4 \<or> k = 8"
    and p: "length p = pad k off" and xs: "length xs = k"
  shows "reads be buf (CDR_get k buf) (if be then rev xs else xs) (off + length p + k) r"
proof -
  let ?b = "align_cur (of_nat k) buf"
  have b: "view be ?b (off + length p) (xs @ r)"
    using k view_align2 [OF v] view_align4 [OF v] view_align8 [OF v] p by auto
  have kk: "unat (of_nat k :: u64) = k" "unat (of_nat k :: u64) = k" using k by auto
  have h: "has_room (unat (of_nat k :: u64)) ?b" by (rule view_room [OF b]) (use k xs kk in auto)
  have "check (of_nat k) ?b = Inr ()" by (rule view_check [OF b]) (use k xs kk in auto)
  moreover have "load ?b (rcur ?b) k = Inr xs" using view_load [OF b] h kk xs by simp
  moreover have "giop_msg_conversion_needed ?b = be" using b by (simp add: view_def)
  ultimately show ?thesis
    using view_advance [OF b h] k kk xs
    by (intro readsI [of _ _ "advance (of_nat k) ?b"])
      (auto simp: CDR_get_def Let_def, auto simp: align_cur_def advance_def)
qed

lemma reads_CDR_ulong:
  assumes "view be buf off (p @ enc32 be w @ r)" and "length p = pad 4 off"
  shows "reads be buf (CDR_get_ulong buf) w (off + length p + 4) r"
proof -
  have "reads be buf (CDR_get 4 buf) (if be then rev (enc32 be w) else enc32 be w) (off + length p + 4) r"
    by (rule reads_CDR_get [OF assms(1) _ assms(2)]) simp_all
  from reads_map [OF this, of of_le32] show ?thesis
    by (cases be) (simp_all add: CDR_get_ulong_def enc32_def)
qed

lemma reads_get_octet:
  assumes v: "view be buf off (b # r)"
  shows "reads be buf (get_octet buf) b (off + 1) r"
proof -
  have v': "view be buf off ([b] @ r)" using v by simp
  have h: "has_room 1 buf" by (rule view_room [OF v']) simp_all
  have "check 1 buf = Inr ()" by (rule view_check [OF v']) simp_all
  then show ?thesis
    using view_fetch8 [OF v', of 1] view_advance [OF v', of 1] h
    by (intro readsI [of _ _ "advance 1 buf"]) (simp_all add: get_octet_def, simp add: advance_def)
qed

lemma view_c_string:
  assumes "view be buf off (s @ 0 # r)" and "0 \<notin> set s"
  shows "c_string buf (rcur buf) = Inr s"
proof -
  have le: "message_body buf \<le> rcur buf" using assms(1) by (simp add: view_def word_le_nat_alt)
  have o: "unat (rcur buf - message_body buf) = off"
    using assms(1) unat_sub [OF le] by (simp add: view_def)
  define n where "n = unat (rend buf) - unat (message_body buf)"
  have "drop off (body_mem buf) = drop off (take n (body_mem buf)) @
      drop (off - length (take n (body_mem buf))) (drop n (body_mem buf))"
    by (metis append_take_drop_id drop_append)
  moreover have "drop off (take n (body_mem buf)) = s @ 0 # r" using assms(1) by (simp add: view_def n_def)
  ultimately obtain t where d: "drop off (body_mem buf) = s @ 0 # t" by simp
  have "takeWhile (\<lambda>b. b \<noteq> 0) (s @ 0 # t) = s" using assms(2) by (subst takeWhile_append2) auto
  then show ?thesis by (simp add: c_string_def Let_def o d)
qed

lemma check_length_small: "unat i < 2 ^ 31 \<Longrightarrow> check_length i buf = check_past i buf"
  using sint_small [of i] by (simp add: check_length_def)

lemma reads_string:
  assumes v: "view be buf off (p @ enc32 be (of_nat (length s + 1)) @ s @ [0] @ r)"
    and p: "length p = pad 4 off" and s: "0 \<notin> set s" "length s + 1 < 2 ^ 31"
  shows "reads be buf (demarshal_string buf) s (off + length p + 4 + length s + 1) r"
  unfolding demarshal_string_def
proof (rule reads_bind [OF reads_CDR_ulong [OF v p]], unfold split_conv)
  let ?i = "of_nat (length s + 1) :: u32"
  fix c let ?b = "buf\<lparr>rcur := c\<rparr>"
  assume b: "view be ?b (off + length p + 4) (s @ [0] @ r)" "has_room 0 ?b"
  have i: "unat ?i = length s + 1" unfolding unat_of_nat by (rule mod_less) (use s in simp)
  have b1: "view be ?b (off + length p + 4) ((s @ [0]) @ r)" using b(1) by simp
  note c = view_check_past [OF b1 b(2), of ?i]
  have l: "check_length ?i ?b = check_past ?i ?b" by (rule check_length_small) (use i s(2) in simp)
  have "view be ?b (off + length p + 4) (s @ 0 # r)" using b(1) by simp
  from view_c_string [OF this s(1)] c i view_advance [OF b1, of "ucast ?i"] l
  show "reads be ?b (andThen (check_length ?i ?b) (\<lambda>_. andThen (c_string ?b (rcur ?b))
      (\<lambda>s. Inr (s, advance (ucast ?i) ?b)))) s (off + length p + 4 + length s + 1) r"
    by (intro readsI [of _ _ "advance (ucast ?i) ?b"]) (simp_all add: unat_ucast_u32 add.assoc del: of_nat_add)
qed

lemma wchars_of_enc: "wchars_of be (enc_wchars be ws) = ws"
proof (induction ws)
  case Nil
  then show ?case by (simp add: enc_wchars_def)
next
  case (Cons w ws)
  obtain a b where ab: "le16 w = [a, b]" by (simp add: le16_def)
  then have "of_le16 [a, b] = w" using of_le16_le16 [of w] by simp
  moreover have "enc_wchars be (w # ws) = enc16 be w @ enc_wchars be ws" by (simp add: enc_wchars_def)
  ultimately show ?case using Cons ab by (cases be) (simp_all add: enc16_def)
qed

lemma mark_enc: "of_le16 (enc16 be 0xfeff @ r) = (if be then 0xfffe else 0xfeff)"
  by (simp add: enc16_def le16_def)

lemma reads_wstring:
  assumes v: "view be buf off (p @ enc32 be (of_nat (2 * length ws + 2)) @ enc16 be 0xfeff @ enc_wchars be ws @ r)"
    and p: "length p = pad 4 off" and s: "0 \<notin> set ws" "2 * length ws + 2 < 2 ^ 31"
  shows "reads be buf (demarshal_wstring buf) ws (off + length p + 4 + (2 * length ws + 2)) r"
  unfolding demarshal_wstring_def
proof (rule reads_bind [OF reads_CDR_ulong [OF v p]], unfold split_conv)
  let ?i = "of_nat (2 * length ws + 2) :: u32"
  fix c let ?b = "buf\<lparr>rcur := c\<rparr>" and ?xs = "enc16 be 0xfeff @ enc_wchars be ws"
  assume b: "view be ?b (off + length p + 4) (enc16 be 0xfeff @ enc_wchars be ws @ r)" "has_room 0 ?b"
  have i: "unat ?i = 2 * length ws + 2" unfolding unat_of_nat by (rule mod_less) (use s in simp)
  then have i2: "2 \<le> ?i" by (simp add: word_le_nat_alt)
  have l: "length ?xs = unat ?i" using i by simp
  have b1: "view be ?b (off + length p + 4) (?xs @ r)" using b(1) by simp
  note c = view_check_past [OF b1 b(2) l]
  have cl: "check_length ?i ?b = check_past ?i ?b" by (rule check_length_small) (use i s(2) in simp)
  have ld: "load ?b (rcur ?b) (unat ?i) = Inr ?xs" using view_load [OF b1 c(2)] l by simp
  have t: "takeWhile (\<lambda>w. w \<noteq> 0) (wchars_of be (enc_wchars be ws)) = ws"
    using s(1) by (simp add: wchars_of_enc takeWhile_eq_all_conv) blast
  have mk: "(of_le16 ?xs = 0xfeff \<or> be) = True" by (simp add: mark_enc)
  have sw: "(of_le16 ?xs = 0xfffe) = be" by (simp add: mark_enc)
  have d: "drop 2 ?xs = enc_wchars be ws" by simp
  let ?m = "andThen (check_length ?i ?b) (\<lambda>_. andThen (load ?b (rcur ?b) (unat ?i)) (\<lambda>bs.
       let mark = (if ?i \<ge> 2 then of_le16 bs else 0);
           marked = (mark = 0xfeff \<or> mark = 0xfffe);
           body = (if marked then drop 2 bs else bs);
           swap = (if marked then mark = 0xfffe else True)
       in Inr (takeWhile (\<lambda>w. w \<noteq> 0) (wchars_of swap body), advance (ucast ?i) ?b)))"
  have m: "?m = Inr (ws, advance (ucast ?i) ?b)"
    by (simp only: cl c(1) ld andThen.simps Let_def i2 if_True d sw mk t)
  show "reads be ?b ?m ws (off + length p + 4 + (2 * length ws + 2)) r"
    unfolding m using view_advance [OF b1, of "ucast ?i"] c l i
    by (intro readsI [of _ _ "advance (ucast ?i) ?b"]) simp_all
qed

section \<open>Values\<close>

fun vdepth :: "cvalue \<Rightarrow> nat" and vdepths :: "cvalue list \<Rightarrow> nat" where
  "vdepth (VStruct vs) = Suc (vdepths vs)"
| "vdepth (VUnion d b) = Suc (max (vdepth d) (vdepth b))"
| "vdepth (VSeq vs) = Suc (vdepths vs)"
| "vdepth (VArray vs) = Suc (vdepths vs)"
| "vdepth _ = 1"
| "vdepths [] = 0"
| "vdepths (v # vs) = max (vdepth v) (vdepths vs)"

lemma demarshal_n_values: "demarshal_n f n t buf = demarshal_values f (replicate n t) buf"
  by (induction n arbitrary: buf) simp_all

lemma bytes_of_V8: "bytes_of vs = Some bs \<Longrightarrow> map V8 bs = vs"
proof (induction vs arbitrary: bs)
  case (Cons v vs)
  then show ?case by (cases v) (auto split: option.splits)
qed simp

lemma octets_cdrs:
  assumes "byte_kind (tc_kind t)"
  shows "cdrs be off (replicate (length vs) t) vs xs \<Longrightarrow> vs = map V8 xs"
proof (induction vs arbitrary: xs off)
  case Nil
  then show ?case by (auto elim: cdrs.cases)
next
  case (Cons v vs)
  from Cons.prems obtain x ys where x: "xs = x @ ys" "cdr be off t v x"
      "cdrs be (off + length x) (replicate (length vs) t) vs ys"
    by (auto elim: cdrs_ConsE)
  have "tc_kind t \<noteq> CORBA_tk_alias" using assms by (auto simp: byte_kind_def)
  with x(2) assms have "\<exists>b. v = V8 b \<and> x = [b]"
    by (cases rule: cdr.cases) (auto simp: byte_kind_def)
  with Cons.IH [OF x(3)] x(1) show ?case by auto
qed

theorem demarshal_value_cdr:
  "cdr be off tc v xs \<Longrightarrow> vdepth v \<le> f \<Longrightarrow> view be buf off (xs @ r) \<Longrightarrow> has_room 0 buf \<Longrightarrow>
     length xs < 2 ^ 31 \<Longrightarrow> reads be buf (ORBit_demarshal_value f tc buf) v (off + length xs) r"
  "cdrs be off ts vs xs \<Longrightarrow> vdepths vs \<le> f \<Longrightarrow> view be buf off (xs @ r) \<Longrightarrow> has_room 0 buf \<Longrightarrow>
     length xs < 2 ^ 31 \<Longrightarrow> reads be buf (demarshal_values f ts buf) vs (off + length xs) r"
proof (induction arbitrary: f buf r and f buf r rule: cdr_cdrs.inducts)
  case (cdr_null tc off)
  then show ?case by (cases f) (auto simp: ORBit_demarshal_value.simps(2) Let_def byte_kind_def intro: reads_return)
next
  case (cdr_8 tc off b)
  from cdr_8(2) obtain g where f: "f = Suc g" by (cases f) auto
  have "reads be buf (get_octet buf) b (off + 1) r" by (rule reads_get_octet) (use cdr_8 in simp)
  note m = reads_map [OF reads_recv [OF this], of V8]
  show ?case
    using cdr_8(1) m unfolding f by (auto simp: ORBit_demarshal_value.simps(2) Let_def byte_kind_def)
next
  case (cdr_16 tc p off w)
  from cdr_16(3) obtain g where f: "f = Suc g" by (cases f) auto
  have "reads be buf (CDR_get 2 buf) (if be then rev (enc16 be w) else enc16 be w) (off + length p + 2) r"
    by (rule reads_CDR_get) (use cdr_16 in simp_all)
  from reads_map [OF reads_recv [OF this], of "\<lambda>bs. V16 (of_le16 bs)"] cdr_16(1) show ?case
    unfolding f by (cases be) (auto simp: ORBit_demarshal_value.simps(2) Let_def enc16_def add.assoc)
next
  case (cdr_32 tc p off w)
  from cdr_32(3) obtain g where f: "f = Suc g" by (cases f) auto
  have "reads be buf (CDR_get 4 buf) (if be then rev (enc32 be w) else enc32 be w) (off + length p + 4) r"
    by (rule reads_CDR_get) (use cdr_32 in simp_all)
  from reads_map [OF reads_recv [OF this], of "\<lambda>bs. V32 (of_le32 bs)"] cdr_32(1) show ?case
    unfolding f by (cases be) (auto simp: ORBit_demarshal_value.simps(2) Let_def enc32_def add.assoc)
next
  case (cdr_64 tc p off w)
  from cdr_64(3) obtain g where f: "f = Suc g" by (cases f) auto
  have "reads be buf (CDR_get 8 buf) (if be then rev (enc64 be w) else enc64 be w) (off + length p + 8) r"
    by (rule reads_CDR_get) (use cdr_64 in simp_all)
  from reads_map [OF reads_recv [OF this], of "\<lambda>bs. V64 (of_le64 bs)"] cdr_64(1) show ?case
    unfolding f by (cases be) (auto simp: ORBit_demarshal_value.simps(2) Let_def enc64_def add.assoc)
next
  case (cdr_string tc p off s)
  from cdr_string(5) obtain g where f: "f = Suc g" by (cases f) auto
  have "reads be buf (demarshal_string buf) s (off + length p + 4 + length s + 1) r"
    by (rule reads_string) (use cdr_string in simp_all)
  note m = reads_map [OF reads_recv [OF this], of VString]
  show ?case
    using m cdr_string(1) unfolding f
    by (simp add: ORBit_demarshal_value.simps(2) Let_def byte_kind_def ac_simps)
next
  case (cdr_wstring tc p off ws)
  from cdr_wstring(5) obtain g where f: "f = Suc g" by (cases f) auto
  have "reads be buf (demarshal_wstring buf) ws (off + length p + 4 + (2 * length ws + 2)) r"
    by (rule reads_wstring) (use cdr_wstring in simp_all)
  note m = reads_map [OF reads_recv [OF this], of VWString]
  show ?case
    using m cdr_wstring(1) unfolding f
    by (simp add: ORBit_demarshal_value.simps(2) Let_def byte_kind_def ac_simps)
next
  case (cdr_struct tc off vs xs)
  from cdr_struct(4) obtain g where f: "f = Suc g" by (cases f) auto
  have "reads be buf (demarshal_values g (subtypes (SKIP_ALIAS tc)) buf) vs (off + length xs) r"
    by (rule cdr_struct(3)) (use cdr_struct(4-7) f in simp_all)
  from reads_map [OF this, of VStruct] cdr_struct(1) show ?case
    unfolding f by (auto simp: ORBit_demarshal_value.simps(2) Let_def byte_kind_def)
next
  case (cdrs_Nil off)
  then show ?case by (simp add: reads_return)
next
  case (cdrs_Cons off t v xs ts vs ys)
  have "reads be buf (ORBit_demarshal_value f t buf) v (off + length xs) (ys @ r)"
    by (rule cdrs_Cons(2)) (use cdrs_Cons(5-8) in simp_all)
  then show ?case
    unfolding demarshal_values.simps
  proof (rule reads_bind, unfold split_conv)
    fix c let ?b = "buf\<lparr>rcur := c\<rparr>"
    assume b: "view be ?b (off + length xs) (ys @ r)" "has_room 0 ?b"
    have "reads be ?b (demarshal_values f ts ?b) vs (off + length xs + length ys) r"
      by (rule cdrs_Cons(4) [OF _ b]) (use cdrs_Cons(5,8) in simp_all)
    from reads_map [OF this, of "\<lambda>vs. v # vs"]
    show "reads be ?b (andThen (demarshal_values f ts ?b) (\<lambda>(vs, buf). Inr (v # vs, buf)))
      (v # vs) (off + length (xs @ ys)) r" by (simp add: add.assoc)
  qed
next
  case (cdr_union tc dtc off d xs subtc b ys)
  let ?tc = "SKIP_ALIAS tc"
  from cdr_union.prems(1) obtain g where f: "f = Suc g" by (cases f) auto
  have "reads be buf (ORBit_demarshal_value g dtc buf) d (off + length xs) (ys @ r)"
    by (rule cdr_union.IH(2)) (use cdr_union.prems f in simp_all)
  then have "reads be buf (andThen (ORBit_demarshal_value g dtc buf) (\<lambda>(d, buf).
      case ORBit_get_union_tag ?tc d of None \<Rightarrow> Inl TcAbort
      | Some subtc \<Rightarrow> andThen (ORBit_demarshal_value g subtc buf) (\<lambda>(b, buf). Inr (VUnion d b, buf))))
      (VUnion d b) (off + length (xs @ ys)) r"
  proof (rule reads_bind, unfold split_conv cdr_union.hyps(3) option.case)
    fix c let ?b = "buf\<lparr>rcur := c\<rparr>"
    assume v: "view be ?b (off + length xs) (ys @ r)" "has_room 0 ?b"
    have "reads be ?b (ORBit_demarshal_value g subtc ?b) b (off + length xs + length ys) r"
      by (rule cdr_union.IH(4) [OF _ v]) (use cdr_union.prems f in simp_all)
    from reads_map [OF this, of "VUnion d"]
    show "reads be ?b (andThen (ORBit_demarshal_value g subtc ?b) (\<lambda>(b, buf). Inr (VUnion d b, buf)))
      (VUnion d b) (off + length (xs @ ys)) r" by (simp add: add.assoc)
  qed
  then show ?case
    using cdr_union.hyps(1,2) unfolding f by (simp add: ORBit_demarshal_value.simps(2) Let_def byte_kind_def)
next
  case (cdr_seq tc t ts p off vs xs)
  let ?n = "of_nat (length vs) :: u32"
  from cdr_seq(7) obtain g where f: "f = Suc g" by (cases f) auto
  have n: "unat ?n = length vs" unfolding unat_of_nat by (rule mod_less) (use cdr_seq(4) in simp)
  have v: "view be buf off (p @ enc32 be ?n @ xs @ r)" using cdr_seq(8) by simp
  have "reads be buf (andThen (recv (CDR_get_ulong buf)) (\<lambda>(len, buf).
      if len = 0 then Inr (VSeq [], buf)
      else if byte_kind (tc_kind t) then
        andThen (recv (fetch_octets len buf)) (\<lambda>(bs, buf). Inr (VSeq (map V8 bs), buf))
      else andThen (demarshal_n g (unat len) t buf) (\<lambda>(vs, buf). Inr (VSeq vs, buf))))
      (VSeq vs) (off + length p + 4 + length xs) r"
  proof (rule reads_bind [OF reads_recv [OF reads_CDR_ulong [OF v cdr_seq(3)]]], unfold split_conv)
    fix c let ?b = "buf\<lparr>rcur := c\<rparr>"
    assume b: "view be ?b (off + length p + 4) (xs @ r)" "has_room 0 ?b"
    consider "vs = []" | "vs \<noteq> []" "byte_kind (tc_kind t)" | "vs \<noteq> []" "\<not> byte_kind (tc_kind t)" by blast
    then show "reads be ?b (if ?n = 0 then Inr (VSeq [], ?b)
      else if byte_kind (tc_kind t) then
        andThen (recv (fetch_octets ?n ?b)) (\<lambda>(bs, buf). Inr (VSeq (map V8 bs), buf))
      else andThen (demarshal_n g (unat ?n) t ?b) (\<lambda>(vs, buf). Inr (VSeq vs, buf)))
      (VSeq vs) (off + length p + 4 + length xs) r"
    proof cases
      case 1
      with cdr_seq(5) have "xs = []" by (auto elim: cdrs.cases)
      with b 1 show ?thesis by (simp add: reads_return)
    next
      case 2
      have vs: "vs = map V8 xs" by (rule octets_cdrs [OF 2(2) cdr_seq(5)])
      then have "length xs = unat ?n" using n by simp
      from view_fetch_octets [OF b this] have
        "reads be ?b (fetch_octets ?n ?b) xs (off + length p + 4 + length xs) r"
        by (intro readsI [of _ _ "advance (ucast ?n) ?b"]) simp_all
      from reads_map [OF reads_recv [OF this], of "\<lambda>bs. VSeq (map V8 bs)"] 2 n vs show ?thesis
        by (auto simp: unat_eq_zero [symmetric] simp del: unat_eq_zero)
    next
      case 3
      have "reads be ?b (demarshal_values g (replicate (length vs) t) ?b) vs (off + length p + 4 + length xs) r"
        by (rule cdr_seq(6) [OF _ b]) (use cdr_seq(7,10) f in simp_all)
      from reads_map [OF this, of VSeq] 3 n show ?thesis
        by (auto simp: demarshal_n_values unat_eq_zero [symmetric] simp del: unat_eq_zero)
    qed
  qed
  then show ?case
    using cdr_seq(1,2) unfolding f
    by (simp add: ORBit_demarshal_value.simps(2) Let_def byte_kind_def add.assoc)
next
  case (cdr_array tc t ts vs off xs)
  from cdr_array(6) obtain g where f: "f = Suc g" by (cases f) auto
  have "reads be buf (demarshal_values g (replicate (length vs) t) buf) vs (off + length xs) r"
    by (rule cdr_array(5)) (use cdr_array(6-9) f in simp_all)
  from reads_map [OF this, of VArray] cdr_array(1-3) show ?case
    unfolding f by (simp add: ORBit_demarshal_value.simps(2) Let_def byte_kind_def demarshal_n_values)
qed

end
