(* ===== verification/Cdr_Typing.thy ===== *)
theory Cdr_Typing
  imports Cdr_Encoding
begin

text \<open>
  The values of a type: \<open>has_type tc v\<close> is what typed C memory guarantees of a value
  passed with \<open>tc\<close>. Every value the demarshaller returns has its type
  (\<open>demarshal_value_typed\<close>), and every typed value can be marshalled
  (\<open>marshal_value_total\<close>).
\<close>

fun has_type :: "CORBA_TypeCode \<Rightarrow> cvalue \<Rightarrow> bool"
  and has_types :: "CORBA_TypeCode list \<Rightarrow> cvalue list \<Rightarrow> bool"
where
  "has_type tc VNull \<longleftrightarrow> tc_kind (SKIP_ALIAS tc) \<in> {CORBA_tk_null, CORBA_tk_void}"
| "has_type tc (V8 b) \<longleftrightarrow> byte_kind (tc_kind (SKIP_ALIAS tc))"
| "has_type tc (V16 w) \<longleftrightarrow> tc_kind (SKIP_ALIAS tc) \<in> {CORBA_tk_wchar, CORBA_tk_ushort, CORBA_tk_short}"
| "has_type tc (V32 w) \<longleftrightarrow>
     tc_kind (SKIP_ALIAS tc) \<in> {CORBA_tk_enum, CORBA_tk_long, CORBA_tk_ulong, CORBA_tk_float}"
| "has_type tc (V64 w) \<longleftrightarrow>
     tc_kind (SKIP_ALIAS tc) \<in> {CORBA_tk_double, CORBA_tk_longlong, CORBA_tk_ulonglong}"
| "has_type tc (V128 bs) \<longleftrightarrow> tc_kind (SKIP_ALIAS tc) = CORBA_tk_longdouble \<and> length bs = 16"
| "has_type tc (VString s) \<longleftrightarrow> tc_kind (SKIP_ALIAS tc) = CORBA_tk_string \<and> 0 \<notin> set s"
| "has_type tc (VWString ws) \<longleftrightarrow> tc_kind (SKIP_ALIAS tc) = CORBA_tk_wstring \<and> 0 \<notin> set ws"
| "has_type tc (VPrincipal bs) \<longleftrightarrow> tc_kind (SKIP_ALIAS tc) = CORBA_tk_Principal"
| "has_type tc (VTypeCode t) \<longleftrightarrow> tc_kind (SKIP_ALIAS tc) = CORBA_tk_TypeCode"
| "has_type tc (VAny t v) \<longleftrightarrow> tc_kind (SKIP_ALIAS tc) = CORBA_tk_any \<and> has_type t v"
| "has_type tc (VStruct vs) \<longleftrightarrow>
     tc_kind (SKIP_ALIAS tc) \<in> {CORBA_tk_except, CORBA_tk_struct} \<and> has_types (subtypes (SKIP_ALIAS tc)) vs"
| "has_type tc (VUnion d b) \<longleftrightarrow>
     tc_kind (SKIP_ALIAS tc) = CORBA_tk_union \<and>
     (case discriminator (SKIP_ALIAS tc) of None \<Rightarrow> False | Some dtc \<Rightarrow> has_type dtc d) \<and>
     (case ORBit_get_union_tag (SKIP_ALIAS tc) d of None \<Rightarrow> False | Some t \<Rightarrow> has_type t b)"
| "has_type tc (VSeq vs) \<longleftrightarrow>
     tc_kind (SKIP_ALIAS tc) = CORBA_tk_sequence \<and>
     (case subtypes (SKIP_ALIAS tc) of [] \<Rightarrow> False | t # _ \<Rightarrow> list_all (has_type t) vs)"
| "has_type tc (VArray vs) \<longleftrightarrow>
     tc_kind (SKIP_ALIAS tc) = CORBA_tk_array \<and> length vs = unat (tc_length (SKIP_ALIAS tc)) \<and>
     (case subtypes (SKIP_ALIAS tc) of [] \<Rightarrow> False | t # _ \<Rightarrow> list_all (has_type t) vs)"
| "has_types [] [] \<longleftrightarrow> True"
| "has_types (t # ts) (v # vs) \<longleftrightarrow> has_type t v \<and> has_types ts vs"
| "has_types _ _ \<longleftrightarrow> False"

lemma has_types_length: "has_types ts vs \<Longrightarrow> length ts = length vs"
  by (induction ts vs rule: list_induct2') simp_all

lemma has_types_replicate: "has_types (replicate (length vs) t) vs \<longleftrightarrow> list_all (has_type t) vs"
  by (induction vs) simp_all

text \<open>A run of octets.\<close>

lemma octets_typed:
  assumes "byte_kind (tc_kind t)" "list_all (has_type t) vs"
  shows "\<exists>bs. bytes_of vs = Some bs"
  using assms(2)
proof (induction vs)
  case Nil
  then show ?case by simp
next
  case (Cons v vs)
  have "tc_kind t \<noteq> CORBA_tk_alias" using assms(1) by (auto simp: byte_kind_def)
  with Cons assms(1) show ?case by (cases v) (auto simp: byte_kind_def split: option.splits)
qed

lemma typed_octets: "byte_kind (tc_kind t) \<Longrightarrow> list_all (has_type t) (map V8 bs)"
proof -
  assume b: "byte_kind (tc_kind t)"
  then have "tc_kind t \<noteq> CORBA_tk_alias" by (auto simp: byte_kind_def)
  with b show ?thesis by (simp add: list_all_iff)
qed

section \<open>Marshalling is total on typed values\<close>

theorem marshal_value_total:
  "has_type tc v \<Longrightarrow> plain v \<Longrightarrow> \<exists>b. ORBit_marshal_value env buf tc v = Some b"
  "has_types ts vs \<Longrightarrow> list_all plain vs \<Longrightarrow> \<exists>b. marshal_values env buf ts vs = Some b"
proof (induction env buf tc v and env buf ts vs rule: ORBit_marshal_value_marshal_values.induct)
  case (12 env buf tc0 vs)
  then show ?case using has_types_length by (fastforce simp: Let_def)
next
  case (13 env buf tc0 d b)
  then show ?case by (fastforce simp: Let_def split: option.splits)
next
  case (14 env buf tc0 vs)
  then obtain t ts where t: "tc_kind (SKIP_ALIAS tc0) = CORBA_tk_sequence" "subtypes (SKIP_ALIAS tc0) = t # ts"
    "list_all (has_type t) vs" by (auto split: list.splits)
  show ?case
  proof (cases "byte_kind (tc_kind t)")
    case True
    with octets_typed [OF this t(3)] t show ?thesis by (auto simp: Let_def)
  next
    case False
    with 14(1) [OF refl _ t(2) refl False] t 14(3) show ?thesis
      by (simp add: Let_def has_types_replicate)
  qed
next
  case (15 env buf tc0 vs)
  then obtain t ts where t: "tc_kind (SKIP_ALIAS tc0) = CORBA_tk_array" "subtypes (SKIP_ALIAS tc0) = t # ts"
    "list_all (has_type t) vs" "length vs = unat (tc_length (SKIP_ALIAS tc0))" by (auto split: list.splits)
  show ?case
  proof (cases "byte_kind (tc_kind t)")
    case True
    with octets_typed [OF this t(3)] t show ?thesis by (auto simp: Let_def)
  next
    case False
    with 15(1) [OF refl _ t(2) False] t 15(3) show ?thesis
      by (simp add: Let_def has_types_replicate [of vs, unfolded t(4)])
  qed
next
  case (16 env buf t ts v vs)
  then show ?case by (fastforce split: option.splits)
qed (auto simp: Let_def)

section \<open>What is demarshalled is typed\<close>

lemma recv_eq_Inr [simp]: "recv m = Inr x \<longleftrightarrow> m = Inr x"
  by (cases m) auto

lemma load_length: "load buf p n = Inr bs \<Longrightarrow> length bs = n"
  by (auto simp: load_def Let_def split: if_splits)

lemma CDR_get_length: "CDR_get n buf = Inr (bs, b) \<Longrightarrow> length bs = n"
  by (auto simp: CDR_get_def Let_def andThen_eq_Inr dest: load_length split: if_splits)

lemma c_string_no_nul: "c_string buf p = Inr s \<Longrightarrow> 0 \<notin> set s"
  by (auto simp: c_string_def Let_def dest: set_takeWhileD split: if_splits)

lemma demarshal_n_length: "demarshal_n f n t buf = Inr (vs, b) \<Longrightarrow> length vs = n"
  by (induction n arbitrary: buf vs b) (auto simp: andThen_eq_Inr)

lemma values_typed:
  assumes "\<And>tc buf v b. ORBit_demarshal_value f tc buf = Inr (v, b) \<Longrightarrow> has_type tc v"
  shows "demarshal_values f ts buf = Inr (vs, b) \<Longrightarrow> has_types ts vs"
  by (induction ts arbitrary: buf vs) (auto simp: andThen_eq_Inr dest: assms)

lemma elements_typed:
  assumes "\<And>tc buf v b. ORBit_demarshal_value f tc buf = Inr (v, b) \<Longrightarrow> has_type tc v"
  shows "demarshal_n f n t buf = Inr (vs, b) \<Longrightarrow> list_all (has_type t) vs \<and> length vs = n"
  by (induction n arbitrary: buf vs) (fastforce simp: andThen_eq_Inr dest: assms)+

theorem demarshal_value_typed:
  "ORBit_demarshal_value f tc buf = Inr (v, b) \<Longrightarrow> has_type tc v"
proof (induction f arbitrary: tc buf v b)
  case 0
  then show ?case by simp
next
  case (Suc f tc0)
  note d = Suc.prems [unfolded ORBit_demarshal_value.simps(2) Let_def]
  have ps1: "demarshal_values f ts buf = Inr (vs, b) \<Longrightarrow> has_types ts vs" for ts buf vs b
    by (rule values_typed [OF Suc.IH])
  have ps2: "demarshal_n f n t buf = Inr (vs, b) \<Longrightarrow> list_all (has_type t) vs \<and> length vs = n" for n t buf vs b
    by (rule elements_typed [OF Suc.IH])
  show ?case
  proof (cases "tc_kind (SKIP_ALIAS tc0)")
    case CORBA_tk_any
    with d show ?thesis by (auto simp: andThen_eq_Inr byte_kind_def dest: Suc.IH)
  next
    case CORBA_tk_struct
    with d show ?thesis by (auto simp: andThen_eq_Inr byte_kind_def dest: ps1 ps2)
  next
    case CORBA_tk_except
    with d show ?thesis by (auto simp: andThen_eq_Inr byte_kind_def dest: ps1 ps2)
  next
    case CORBA_tk_union
    with d show ?thesis
      by (auto simp: andThen_eq_Inr byte_kind_def split: option.splits) (erule Suc.IH)+
  next
    case CORBA_tk_sequence
    with d show ?thesis
      by (auto simp: andThen_eq_Inr byte_kind_def typed_octets split: list.splits if_splits dest: ps1 ps2)
  next
    case CORBA_tk_array
    with d show ?thesis
      by (auto simp: andThen_eq_Inr byte_kind_def dest: ps1 ps2 split: list.splits)
  next
    case CORBA_tk_string
    with d show ?thesis
      by (auto simp: andThen_eq_Inr byte_kind_def demarshal_string_def dest: c_string_no_nul)
  next
    case CORBA_tk_wstring
    with d show ?thesis
      by (auto simp: andThen_eq_Inr byte_kind_def demarshal_wstring_def Let_def dest: set_takeWhileD)
  next
    case CORBA_tk_longdouble
    with d show ?thesis by (auto simp: andThen_eq_Inr byte_kind_def dest: CDR_get_length)
  qed (use d in \<open>auto simp: andThen_eq_Inr byte_kind_def\<close>)
qed

end
