(* ===== verification/Cdr_Soundness.thy ===== *)
theory Cdr_Soundness
  imports Cdr_Decoding Cdr_Typing
begin

text \<open>
  The converse of \<open>Cdr_Decoding\<close>: where the demarshaller returns a value, the bytes in front of
  the cursor were an encoding of this value, and the cursor stands right behind it. For types
  without strings (the copy ends at the first zero byte, wherever the string ends), \<open>any\<close>,
  \<open>TypeCode\<close>, \<open>Principal\<close> and \<open>long double\<close>, which \<open>Cdr_Encoding\<close> does not have.
\<close>

function wire_typed :: "CORBA_TypeCode \<Rightarrow> bool" where
  "wire_typed tc0 =
     (let tc = SKIP_ALIAS tc0 in
      tc_kind tc \<notin> {CORBA_tk_string, CORBA_tk_wstring, CORBA_tk_any, CORBA_tk_TypeCode, CORBA_tk_Principal, CORBA_tk_longdouble} \<and>
      list_all wire_typed (subtypes tc) \<and>
      (case discriminator tc of Some d \<Rightarrow> wire_typed d | None \<Rightarrow> True))"
  by pat_completeness auto
termination
proof (relation "measure size", goal_cases)
  case (2 tc0 tc x)
  then show ?case using size_subtype [of x tc] size_SKIP_ALIAS [of tc0] by simp
next
  case (3 tc0 tc d)
  then show ?case using size_discriminator [of tc d] size_SKIP_ALIAS [of tc0] by simp
qed simp

declare wire_typed.simps [simp del]

section \<open>Items\<close>

lemma room_length:
  assumes "view be buf off r" and "has_room n buf"
  shows "n \<le> length r"
  using assms by (auto simp: view_def has_room_def wf_buf_def)

lemma check_enough:
  assumes v: "view be buf off r" and c: "check n buf = Inr ()" and n: "unat n \<le> 32"
  shows "unat n \<le> length r"
proof -
  have wf: "wf_buf buf" using v by (simp add: view_def)
  have "align_up 8 (unat (rend buf)) < unat (rend buf) + 8" by (rule align_up_lt) simp
  then have "unat (rcur buf) + unat n < 2 ^ 64" using wf n by (simp add: wf_buf_def)
  from ptr_over_nat [OF this, of "rend buf"] c have "unat (rcur buf) + unat n \<le> unat (rend buf)"
    by (simp add: check_def split: if_splits)
  then show ?thesis using room_length [OF v] wf by (simp add: has_room_def)
qed

lemma CDR_get_sound:
  assumes v: "view be buf off bs" and k: "k = 2 \<or> k = 4 \<or> k = 8" and g: "CDR_get k buf = Inr (ys, buf')"
  obtains p xs r where "bs = p @ xs @ r" "length p = pad k off" "length xs = k" "ys = (if be then rev xs else xs)"
    "view be buf' (off + length p + k) r" "has_room 0 buf'"
proof -
  let ?b = "align_cur (of_nat k) buf" and ?q = "pad k off"
  have b: "view be ?b (off + ?q) (drop ?q bs)"
    using k view_align2 [OF v] view_align4 [OF v] view_align8 [OF v] by auto
  have kk: "unat (of_nat k :: u64) = k" using k by auto
  have c: "check (of_nat k) ?b = Inr ()" using g by (auto simp: CDR_get_def Let_def andThen_eq_Inr)
  have "k \<le> length (drop ?q bs)" using check_enough [OF b c] kk k by auto
  then have l: "?q + k \<le> length bs" using k by auto
  let ?p = "take ?q bs" and ?xs = "take k (drop ?q bs)" and ?r = "drop k (drop ?q bs)"
  have s: "bs = ?p @ ?xs @ ?r" by (metis append_take_drop_id)
  have lp: "length ?p = ?q" "length ?xs = k" using l by simp_all
  have "reads be buf (CDR_get k buf) (if be then rev ?xs else ?xs) (off + length ?p + k) ?r"
    by (rule reads_CDR_get [OF _ k lp]) (use v s in simp)
  then show thesis using that [OF s lp] g by (auto simp: reads_def)
qed

lemma get_octet_sound:
  assumes v: "view be buf off bs" and g: "get_octet buf = Inr (b, buf')"
  obtains r where "bs = b # r" "view be buf' (off + 1) r" "has_room 0 buf'"
proof -
  have "check 1 buf = Inr ()" using g by (auto simp: get_octet_def andThen_eq_Inr)
  from check_enough [OF v this] obtain c r where s: "bs = c # r" by (cases bs) auto
  have "reads be buf (get_octet buf) c (off + 1) r" by (rule reads_get_octet) (use v s in simp)
  then show thesis using that s g by (auto simp: reads_def)
qed

lemma fetch_octets_sound:
  assumes v: "view be buf off bs" and h: "has_room 0 buf" and g: "fetch_octets len buf = Inr (xs, buf')"
  obtains r where "bs = xs @ r" "length xs = unat len" "view be buf' (off + length xs) r" "has_room 0 buf'"
proof -
  have wf: "wf_buf buf" using v by (simp add: view_def)
  have "check_past len buf = Inr ()" using g by (auto simp: fetch_octets_def andThen_eq_Inr)
  then have "has_room (unat len) buf" using safe_check_past [OF wf, of len] by (simp add: safe_def)
  then have l: "unat len \<le> length bs" by (rule room_length [OF v])
  let ?xs = "take (unat len) bs" and ?r = "drop (unat len) bs"
  have v': "view be buf off (?xs @ ?r)" using v by simp
  have lx: "length ?xs = unat len" using l by simp
  note f = view_fetch_octets [OF v' h lx]
  from f(1) g have "xs = ?xs" "buf' = advance (ucast len) buf" by simp_all
  then show thesis using that [of ?r] f(2,3) lx by simp
qed

lemma enc_of_le16: "length xs = 2 \<Longrightarrow> enc16 be (of_le16 (if be then rev xs else xs)) = xs"
  by (cases be) (auto simp: enc16_def le16_of_le16)

lemma enc_of_le32: "length xs = 4 \<Longrightarrow> enc32 be (of_le32 (if be then rev xs else xs)) = xs"
  by (cases be) (auto simp: enc32_def le32_of_le32)

lemma enc_of_le64: "length xs = 8 \<Longrightarrow> enc64 be (of_le64 (if be then rev xs else xs)) = xs"
  by (cases be) (auto simp: enc64_def le64_of_le64)

lemma ulong_sound:
  assumes v: "view be buf off bs" and g: "CDR_get_ulong buf = Inr (w, buf')"
  obtains p r where "bs = p @ enc32 be w @ r" "length p = pad 4 off" "view be buf' (off + length p + 4) r" "has_room 0 buf'"
proof -
  obtain ys where ys: "CDR_get 4 buf = Inr (ys, buf')" "w = of_le32 ys"
    using g by (auto simp: CDR_get_ulong_def andThen_eq_Inr)
  obtain p xs r where x: "bs = p @ xs @ r" "length p = pad 4 off" "length xs = 4" "ys = (if be then rev xs else xs)"
    "view be buf' (off + length p + 4) r" "has_room 0 buf'"
    by (rule CDR_get_sound [OF v _ ys(1)]) simp_all
  have "enc32 be w = xs" unfolding ys(2) x(4) by (rule enc_of_le32 [OF x(3)])
  then show thesis using that [of p r] x by simp
qed

lemma found_in: "find_label ls ts i def d = Some t \<Longrightarrow> t \<in> set ts"
  by (induction ls ts i def d rule: find_label.induct) (auto split: if_splits)

lemma union_tag_typed:
  assumes "ORBit_get_union_tag tc d = Some t" "list_all wire_typed (subtypes tc)"
  shows "wire_typed t"
proof -
  have n: "wire_typed (TC_basic CORBA_tk_null)" by (subst wire_typed.simps) (simp add: TC_basic_def)
  consider "t \<in> set (subtypes tc)" | "t = TC_basic CORBA_tk_null"
    using assms(1) by (auto simp: ORBit_get_union_tag_def split: option.splits if_splits dest: found_in)
  then show ?thesis using n assms(2) by cases (simp_all add: list_all_iff)
qed

section \<open>Values\<close>

text \<open>\<open>decoded be off bs b P\<close>: a part of \<open>bs\<close> with property \<open>P\<close> was consumed, and \<open>b\<close> stands behind it.\<close>

definition decoded :: "bool \<Rightarrow> nat \<Rightarrow> byte list \<Rightarrow> GIOPRecvBuffer \<Rightarrow> (byte list \<Rightarrow> bool) \<Rightarrow> bool" where
  "decoded be off bs b P \<longleftrightarrow> (\<exists>xs r. bs = xs @ r \<and> P xs \<and> view be b (off + length xs) r \<and> has_room 0 b)"

lemma decodedI: "bs = xs @ r \<Longrightarrow> P xs \<Longrightarrow> view be b (off + length xs) r \<Longrightarrow> has_room 0 b \<Longrightarrow> decoded be off bs b P"
  by (auto simp: decoded_def)

lemma decoded_mono: "decoded be off bs b P \<Longrightarrow> (\<And>xs. P xs \<Longrightarrow> Q xs) \<Longrightarrow> decoded be off bs b Q"
  by (auto simp: decoded_def)

lemma decoded_prim:
  assumes "view be buf off bs" and "k = 2 \<or> k = 4 \<or> k = 8" and "CDR_get k buf = Inr (ys, b)"
    and "\<And>p xs. length p = pad k off \<Longrightarrow> length xs = k \<Longrightarrow> ys = (if be then rev xs else xs) \<Longrightarrow> P (p @ xs)"
  shows "decoded be off bs b P"
proof -
  obtain p xs r where x: "bs = p @ xs @ r" "length p = pad k off" "length xs = k" "ys = (if be then rev xs else xs)"
    "view be b (off + length p + k) r" "has_room 0 b"
    by (rule CDR_get_sound [OF assms(1-3)])
  show ?thesis by (rule decodedI [of _ "p @ xs" r]) (use x assms(4) in \<open>simp_all add: add.assoc\<close>)
qed

definition sound_at :: "nat \<Rightarrow> bool" where
  "sound_at f \<longleftrightarrow> (\<forall>be tc buf off bs v b. wire_typed tc \<longrightarrow> view be buf off bs \<longrightarrow> has_room 0 buf \<longrightarrow>
     ORBit_demarshal_value f tc buf = Inr (v, b) \<longrightarrow> decoded be off bs b (cdr be off tc v))"

lemma sound_atE:
  assumes "sound_at f" "wire_typed tc" "view be buf off bs" "has_room 0 buf" "ORBit_demarshal_value f tc buf = Inr (v, b)"
  obtains xs r where "bs = xs @ r" "cdr be off tc v xs" "view be b (off + length xs) r" "has_room 0 b"
proof -
  have "decoded be off bs b (cdr be off tc v)" using assms(1) [unfolded sound_at_def] assms(2-5) by simp
  then show thesis using that by (auto simp: decoded_def)
qed

lemma values_sound:
  assumes "sound_at f"
  shows "list_all wire_typed ts \<Longrightarrow> view be buf off bs \<Longrightarrow> has_room 0 buf \<Longrightarrow> demarshal_values f ts buf = Inr (vs, b) \<Longrightarrow>
    decoded be off bs b (cdrs be off ts vs)"
proof (induction ts arbitrary: buf off bs vs)
  case Nil
  then show ?case by (auto intro!: decodedI [of _ "[]" bs] cdrs_Nil)
next
  case (Cons t ts)
  obtain v c ws where d: "ORBit_demarshal_value f t buf = Inr (v, c)" "demarshal_values f ts c = Inr (ws, b)" "vs = v # ws"
    using Cons.prems(4) by (auto simp: andThen_eq_Inr)
  have t: "wire_typed t" "list_all wire_typed ts" using Cons.prems(1) by simp_all
  obtain xs r where x: "bs = xs @ r" "cdr be off t v xs" "view be c (off + length xs) r" "has_room 0 c"
    by (rule sound_atE [OF assms t(1) Cons.prems(2,3) d(1)])
  obtain ys q where y: "r = ys @ q" "cdrs be (off + length xs) ts ws ys" "view be b (off + length xs + length ys) q" "has_room 0 b"
    using Cons.IH [OF t(2) x(3,4) d(2)] unfolding decoded_def by blast
  show ?case
    by (rule decodedI [of _ "xs @ ys" q]) (use x y d(3) cdrs_Cons [OF x(2) y(2)] in \<open>simp_all add: add.assoc\<close>)
qed

lemma octets_encoded: "byte_kind (tc_kind t) \<Longrightarrow> cdrs be off (replicate (length bs) t) (map V8 bs) bs"
proof (induction bs arbitrary: off)
  case Nil
  then show ?case by (simp add: cdrs_Nil)
next
  case (Cons b bs)
  have "tc_kind t \<noteq> CORBA_tk_alias" using Cons.prems by (auto simp: byte_kind_def)
  then have "cdr be off t (V8 b) [b]" using Cons.prems by (intro cdr_8) simp
  from cdrs_Cons [OF this Cons.IH [OF Cons.prems]] show ?case by simp
qed

lemma elements_sound:
  assumes "sound_at f" "wire_typed t" "view be buf off bs" "has_room 0 buf" "demarshal_n f n t buf = Inr (vs, b)"
  shows "decoded be off bs b (cdrs be off (replicate (length vs) t) vs)" and "length vs = n"
proof -
  show n: "length vs = n" by (rule demarshal_n_length [OF assms(5)])
  have "list_all wire_typed (replicate n t)" using assms(2) by (simp add: list_all_iff)
  from values_sound [OF assms(1) this assms(3,4)] assms(5) n
  show "decoded be off bs b (cdrs be off (replicate (length vs) t) vs)" by (simp add: demarshal_n_values)
qed

lemma sequence_sound:
  assumes f: "sound_at f" and t: "wire_typed t" "tc_kind (SKIP_ALIAS tc) = CORBA_tk_sequence" "subtypes (SKIP_ALIAS tc) = t # ts"
    and v: "view be buf off bs"
    and g: "CDR_get_ulong buf = Inr (len, c)"
      "(if len = 0 then Inr (VSeq [], c)
        else if byte_kind (tc_kind t) then
          andThen (recv (fetch_octets len c)) (\<lambda>(bs, buf). Inr (VSeq (map V8 bs), buf))
        else andThen (demarshal_n f (unat len) t c) (\<lambda>(vs, buf). Inr (VSeq vs, buf))) = Inr (val, b)"
  shows "decoded be off bs b (cdr be off tc val)"
proof -
  obtain p r where x: "bs = p @ enc32 be len @ r" "length p = pad 4 off" "view be c (off + length p + 4) r" "has_room 0 c"
    by (rule ulong_sound [OF v g(1)])
  have "\<exists>vs. val = VSeq vs \<and> length vs = unat len \<and>
      decoded be (off + length p + 4) r b (cdrs be (off + length p + 4) (replicate (length vs) t) vs)"
  proof (cases "len = 0")
    case True
    then show ?thesis using g(2) x(3,4) by (auto intro!: decodedI [of _ "[]" r] cdrs_Nil)
  next
    case nz: False
    show ?thesis
    proof (cases "byte_kind (tc_kind t)")
      case True
      obtain xs where o: "fetch_octets len c = Inr (xs, b)" "val = VSeq (map V8 xs)"
        using g(2) nz True by (auto simp: andThen_eq_Inr)
      obtain q where q: "r = xs @ q" "length xs = unat len" "view be b (off + length p + 4 + length xs) q" "has_room 0 b"
        by (rule fetch_octets_sound [OF x(3,4) o(1)])
      have "cdrs be (off + length p + 4) (replicate (length (map V8 xs)) t) (map V8 xs) xs"
        using octets_encoded [OF True, of be "off + length p + 4" xs] by simp
      then have "decoded be (off + length p + 4) r b (cdrs be (off + length p + 4) (replicate (length (map V8 xs)) t) (map V8 xs))"
        by (rule decodedI [OF q(1) _ q(3,4)])
      moreover have "length (map V8 xs) = unat len" using q(2) by simp
      ultimately show ?thesis using o(2) by blast
    next
      case False
      obtain vs where o: "demarshal_n f (unat len) t c = Inr (vs, b)" "val = VSeq vs"
        using g(2) nz False by (auto simp: andThen_eq_Inr)
      then show ?thesis using elements_sound [OF f t(1) x(3,4) o(1)] by blast
    qed
  qed
  then obtain vs ys q where y: "val = VSeq vs" "length vs = unat len" "r = ys @ q"
    "cdrs be (off + length p + 4) (replicate (length vs) t) vs ys" "view be b (off + length p + 4 + length ys) q" "has_room 0 b"
    unfolding decoded_def by blast
  have l: "length vs < 2 ^ 32" unfolding y(2) using unsigned_less [of len] by simp
  have "(of_nat (length vs) :: u32) = len" by (simp add: y(2))
  then have "cdr be off tc (VSeq vs) (p @ enc32 be len @ ys)"
    using cdr_seq [OF t(2,3) x(2) l y(4)] by simp
  then show ?thesis
    by (intro decodedI [of _ "p @ enc32 be len @ ys" q]) (use x(1) y in \<open>simp_all add: add.assoc\<close>)
qed

lemma union_sound:
  assumes f: "sound_at f" and t: "wire_typed tc" "tc_kind (SKIP_ALIAS tc) = CORBA_tk_union" "discriminator (SKIP_ALIAS tc) = Some dtc"
    and v: "view be buf off bs" "has_room 0 buf"
    and g: "ORBit_demarshal_value f dtc buf = Inr (d, c)" "ORBit_get_union_tag (SKIP_ALIAS tc) d = Some subtc"
      "ORBit_demarshal_value f subtc c = Inr (w, b)"
  shows "decoded be off bs b (cdr be off tc (VUnion d w))"
proof -
  have wt: "wire_typed dtc" "list_all wire_typed (subtypes (SKIP_ALIAS tc))"
    using t(1,3) by (subst (asm) wire_typed.simps; simp add: Let_def)+
  have "wire_typed subtc" by (rule union_tag_typed [OF g(2) wt(2)])
  obtain xs r where x: "bs = xs @ r" "cdr be off dtc d xs" "view be c (off + length xs) r" "has_room 0 c"
    by (rule sound_atE [OF f wt(1) v g(1)])
  obtain ys q where y: "r = ys @ q" "cdr be (off + length xs) subtc w ys" "view be b (off + length xs + length ys) q" "has_room 0 b"
    by (rule sound_atE [OF f \<open>wire_typed subtc\<close> x(3,4) g(3)])
  show ?thesis
    by (rule decodedI [of _ "xs @ ys" q])
      (use x y cdr_union [OF t(2,3) x(2) g(2) y(2)] in \<open>simp_all add: add.assoc\<close>)
qed

theorem demarshal_value_sound: "sound_at f"
proof (induction f)
  case 0
  then show ?case by (simp add: sound_at_def)
next
  case (Suc f)
  show ?case
    unfolding sound_at_def
  proof (intro allI impI)
    fix be tc buf off bs v b
    assume t: "wire_typed tc" and w: "view be buf off bs" "has_room 0 buf"
      and g: "ORBit_demarshal_value (Suc f) tc buf = Inr (v, b)"
    note d = g [unfolded ORBit_demarshal_value.simps(2) Let_def]
    have wt: "tc_kind (SKIP_ALIAS tc) \<notin> {CORBA_tk_string, CORBA_tk_wstring, CORBA_tk_any, CORBA_tk_TypeCode, CORBA_tk_Principal, CORBA_tk_longdouble}"
      "list_all wire_typed (subtypes (SKIP_ALIAS tc))"
      using t by (subst (asm) wire_typed.simps; simp add: Let_def)+
    consider (k2) "tc_kind (SKIP_ALIAS tc) \<in> {CORBA_tk_wchar, CORBA_tk_ushort, CORBA_tk_short}"
      | (k4) "tc_kind (SKIP_ALIAS tc) \<in> {CORBA_tk_enum, CORBA_tk_long, CORBA_tk_ulong, CORBA_tk_float}"
      | (k8) "tc_kind (SKIP_ALIAS tc) \<in> {CORBA_tk_double, CORBA_tk_longlong, CORBA_tk_ulonglong}"
      | (k1) "byte_kind (tc_kind (SKIP_ALIAS tc))"
      | (ks) "tc_kind (SKIP_ALIAS tc) \<in> {CORBA_tk_except, CORBA_tk_struct}"
      | (ku) "tc_kind (SKIP_ALIAS tc) = CORBA_tk_union"
      | (kq) "tc_kind (SKIP_ALIAS tc) = CORBA_tk_sequence"
      | (ka) "tc_kind (SKIP_ALIAS tc) = CORBA_tk_array"
      | (k0) "tc_kind (SKIP_ALIAS tc) \<in> {CORBA_tk_null, CORBA_tk_void}"
      using d wt(1) by (cases "tc_kind (SKIP_ALIAS tc)") (simp_all add: byte_kind_def)
    then show "decoded be off bs b (cdr be off tc v)"
    proof cases
      case k2
      obtain ys where y: "CDR_get 2 buf = Inr (ys, b)" "v = V16 (of_le16 ys)"
        using d k2 by (auto simp: andThen_eq_Inr byte_kind_def)
      show ?thesis
      proof (rule decoded_prim [OF w(1) _ y(1)])
        fix p xs :: "byte list" assume a: "length p = pad 2 off" "length xs = 2" "ys = (if be then rev xs else xs)"
        have "enc16 be (of_le16 ys) = xs" unfolding a(3) by (rule enc_of_le16 [OF a(2)])
        then show "cdr be off tc v (p @ xs)" using cdr_16 [OF k2 a(1), of be "of_le16 ys"] y(2) by simp
      qed simp
    next
      case k4
      obtain ys where y: "CDR_get 4 buf = Inr (ys, b)" "v = V32 (of_le32 ys)"
        using d k4 by (auto simp: andThen_eq_Inr byte_kind_def)
      show ?thesis
      proof (rule decoded_prim [OF w(1) _ y(1)])
        fix p xs :: "byte list" assume a: "length p = pad 4 off" "length xs = 4" "ys = (if be then rev xs else xs)"
        have "enc32 be (of_le32 ys) = xs" unfolding a(3) by (rule enc_of_le32 [OF a(2)])
        then show "cdr be off tc v (p @ xs)" using cdr_32 [OF k4 a(1), of be "of_le32 ys"] y(2) by simp
      qed simp
    next
      case k8
      obtain ys where y: "CDR_get 8 buf = Inr (ys, b)" "v = V64 (of_le64 ys)"
        using d k8 by (auto simp: andThen_eq_Inr byte_kind_def)
      show ?thesis
      proof (rule decoded_prim [OF w(1) _ y(1)])
        fix p xs :: "byte list" assume a: "length p = pad 8 off" "length xs = 8" "ys = (if be then rev xs else xs)"
        have "enc64 be (of_le64 ys) = xs" unfolding a(3) by (rule enc_of_le64 [OF a(2)])
        then show "cdr be off tc v (p @ xs)" using cdr_64 [OF k8 a(1), of be "of_le64 ys"] y(2) by simp
      qed simp
    next
      case k1
      obtain o' where y: "get_octet buf = Inr (o', b)" "v = V8 o'"
        using d k1 by (auto simp: andThen_eq_Inr byte_kind_def)
      obtain r where "bs = o' # r" "view be b (off + 1) r" "has_room 0 b" by (rule get_octet_sound [OF w(1) y(1)])
      then show ?thesis using y(2) cdr_8 [OF k1] by (intro decodedI [of _ "[o']" r]) simp_all
    next
      case ks
      obtain vs where y: "demarshal_values f (subtypes (SKIP_ALIAS tc)) buf = Inr (vs, b)" "v = VStruct vs"
        using d ks by (auto simp: andThen_eq_Inr byte_kind_def)
      from decoded_mono [OF values_sound [OF Suc.IH wt(2) w y(1)] cdr_struct [OF ks]] y(2) show ?thesis by simp
    next
      case ku
      obtain dtc dv c subtc sv where y: "discriminator (SKIP_ALIAS tc) = Some dtc" "ORBit_demarshal_value f dtc buf = Inr (dv, c)"
        "ORBit_get_union_tag (SKIP_ALIAS tc) dv = Some subtc" "ORBit_demarshal_value f subtc c = Inr (sv, b)" "v = VUnion dv sv"
        using d ku by (auto simp: andThen_eq_Inr byte_kind_def split: option.splits)
      from union_sound [OF Suc.IH t ku y(1) w y(2-4)] y(5) show ?thesis by simp
    next
      case kq
      obtain t1 ts len c where y: "subtypes (SKIP_ALIAS tc) = t1 # ts" "CDR_get_ulong buf = Inr (len, c)"
        "(if len = 0 then Inr (VSeq [], c)
          else if byte_kind (tc_kind t1) then
            andThen (recv (fetch_octets len c)) (\<lambda>(bs, buf). Inr (VSeq (map V8 bs), buf))
          else andThen (demarshal_n f (unat len) t1 c) (\<lambda>(vs, buf). Inr (VSeq vs, buf))) = Inr (v, b)"
        using d kq by (auto simp: andThen_eq_Inr byte_kind_def simp del: if_split_asm split: list.splits)
      show ?thesis by (rule sequence_sound [OF Suc.IH _ kq y(1) w(1) y(2,3)]) (use wt(2) y(1) in simp)
    next
      case ka
      obtain t1 ts vs where y: "subtypes (SKIP_ALIAS tc) = t1 # ts" "demarshal_n f (unat (tc_length (SKIP_ALIAS tc))) t1 buf = Inr (vs, b)" "v = VArray vs"
        using d ka by (auto simp: andThen_eq_Inr byte_kind_def split: list.splits)
      have "wire_typed t1" using wt(2) y(1) by simp
      note e = elements_sound [OF Suc.IH this w y(2)]
      from decoded_mono [OF e(1) cdr_array [OF ka y(1) e(2)]] y(3) show ?thesis by simp
    next
      case k0
      then have "v = VNull" "b = buf" using d by (auto simp: byte_kind_def)
      then show ?thesis using w cdr_null [OF k0] by (intro decodedI [of _ "[]" bs]) simp_all
    qed
  qed
qed

end
