(* ===== verification/Cdr_Calls.thy ===== *)
theory Cdr_Calls
  imports Cdr_Soundness Giop_Roundtrip
begin

text \<open>
  The two directions of \<open>corba-any.c\<close> against the encoding of \<open>Cdr_Encoding\<close>, and a
  typed result carried by a reply from one peer to the other: the composition of the value
  marshaller, the send buffer, the transport, the input loop and the demarshaller.
\<close>

section \<open>A concrete type and value\<close>

text \<open>A struct of a string, a sequence of doubles and a union of a long and an octet.\<close>

definition ex_plain_tc :: "TCKind \<Rightarrow> CORBA_TypeCode list \<Rightarrow> CORBA_TypeCode" where
  "ex_plain_tc k ts = TypeCode 0 k 0 ts None [] [] [] [] 0 0 0 0"

definition ex_union_tc :: CORBA_TypeCode where
  "ex_union_tc = TypeCode 0 CORBA_tk_union 0 [TC_basic CORBA_tk_long, TC_basic CORBA_tk_octet]
     (Some (TC_basic CORBA_tk_short)) [] [] [] [1, 2] (- 1) 0 0 0"

definition ex_tc :: CORBA_TypeCode where
  "ex_tc = ex_plain_tc CORBA_tk_struct
     [TC_basic CORBA_tk_string, ex_plain_tc CORBA_tk_sequence [TC_basic CORBA_tk_double], ex_union_tc]"

definition ex_value :: cvalue where
  "ex_value = VStruct [VString [0x68, 0x69], VSeq [V64 0x4000000000000000, V64 1], VUnion (V16 2) (V8 9)]"

lemmas ex_value_defs = ex_value_def ex_tc_def ex_plain_tc_def ex_union_tc_def TC_basic_def byte_kind_def
  ORBit_get_union_tag_def ORBit_get_union_switch_def

lemma ex_value_typed: "has_type ex_tc ex_value" "plain ex_value" "vbound ex_value \<le> 200" "vdepth ex_value \<le> 5"
  by (simp_all add: ex_value_defs)

text \<open>A received message of the given byte order whose bytes after the header are \<open>bs\<close>.\<close>

definition ex_reader :: "bool \<Rightarrow> byte list \<Rightarrow> GIOPRecvBuffer" where
  "ex_reader be bs =
     (let b = giop_recv_buffer_use_buf None
      in b\<lparr>header := (header b)\<lparr>flags := (if be then 0 else 1)\<rparr>, message_body := 8,
           body_mem := replicate 12 0 @ bs, rcur := 20, rend := 20 + of_nat (length bs)\<rparr>)"

lemma view_ex_reader:
  assumes "length bs < 1000"
  shows "view be (ex_reader be bs) 12 bs" "has_room 0 (ex_reader be bs)"
proof -
  have u: "unat (20 + of_nat (length bs) :: u64) = 20 + length bs"
  proof -
    have "20 + of_nat (length bs) = (of_nat (20 + length bs) :: u64)" by simp
    then show ?thesis using assms by (simp only: unat_of_nat) simp
  qed
  have "20 \<le> align_up 8 (20 + length bs)" using align_up_ge [of 8 "20 + length bs"] by simp
  then show "view be (ex_reader be bs) 12 bs" "has_room 0 (ex_reader be bs)"
    using assms by (auto simp: view_def has_room_def wf_buf_def ex_reader_def Let_def u
        giop_msg_conversion_needed_def giop_endian_conversion_needed_def)
qed

definition ex_small_tc :: CORBA_TypeCode where
  "ex_small_tc = ex_plain_tc CORBA_tk_struct [TC_basic CORBA_tk_octet, TC_basic CORBA_tk_ulong]"

definition ex_small :: cvalue where "ex_small = VStruct [V8 5, V32 7]"

definition ex_small_bytes :: "byte list" where "ex_small_bytes = [5] @ ([9, 9, 9] @ enc32 True 7) @ []"

lemma ex_small_cdr: "cdr True 12 ex_small_tc ex_small ex_small_bytes"
proof -
  have "cdrs True 12 [TC_basic CORBA_tk_octet, TC_basic CORBA_tk_ulong] [V8 5, V32 7] ex_small_bytes"
    unfolding ex_small_bytes_def
    by (intro cdrs_Cons cdrs_Nil cdr_8 cdr_32) (simp_all add: TC_basic_def byte_kind_def pad_def align_up_def)
  then show ?thesis
    unfolding ex_small_def by (intro cdr_struct) (simp_all add: ex_small_tc_def ex_plain_tc_def)
qed

section \<open>Properties\<close>

text \<open>
  C19. The marshaller implements the encoding: for every value of the type (no
  \<open>any\<close>, \<open>TypeCode\<close>, \<open>Principal\<close>, \<open>long double\<close> in it) it succeeds, and what it adds
  to a message is a CDR encoding of the value at the offset it stands at.
\<close>

theorem marshal_value_encodes:
  assumes "has_type tc val" and "plain val" and "builds env v mt bs buf" and "bs \<noteq> []"
    and "length bs + 12 + vbound val < 2 ^ 32"
  shows "\<exists>buf' xs. ORBit_marshal_value env buf tc val = Some buf' \<and>
    builds env v mt (bs @ xs) buf' \<and> cdr False (12 + length bs) tc val xs"
  using marshal_value_total(1) [OF assms(1,2), of env buf] marshal_value_cdr(1) [OF _ assms(3,4,2,5)]
  unfolding writes_def by blast

theorem marshal_value_encodes_witness:
  "\<exists>bs buf' xs. ORBit_marshal_value ex_send_env ex_reply ex_tc ex_value = Some buf' \<and>
    builds ex_send_env GIOP_1_1 GIOP_REPLY (bs @ xs) buf' \<and> cdr False (12 + length bs) ex_tc ex_value xs"
proof -
  note u = use_reply_builds [of "[]" ex_send_env GIOP_1_1 7 0, simplified, folded ex_reply_def]
  have "length (payload ex_send_env ex_reply) + 12 + vbound ex_value < 2 ^ 32"
    using u(3) ex_value_typed(3) by simp
  from marshal_value_encodes [OF ex_value_typed(1,2) u(1,2) this] show ?thesis by blast
qed

text \<open>
  C20. The demarshaller implements the encoding: given enough nesting depth it reads every
  encoding below \<open>2 ^ 31\<close> bytes of a value without \<open>any\<close>, \<open>TypeCode\<close>, \<open>Principal\<close> and
  \<open>long double\<close>, big or little endian and whatever the padding bytes are, returns the value
  and leaves the cursor right behind the encoding.
\<close>

theorem demarshal_value_decodes:
  assumes "cdr be off tc val xs" and "view be buf off (xs @ r)" and "has_room 0 buf" and "vdepth val \<le> f"
    and "length xs < 2 ^ 31"
  shows "\<exists>c. ORBit_demarshal_value f tc buf = Inr (val, buf\<lparr>rcur := c\<rparr>) \<and>
    view be (buf\<lparr>rcur := c\<rparr>) (off + length xs) r"
  using demarshal_value_cdr(1) [OF assms(1,4,2,3,5)] unfolding reads_def by blast

theorem demarshal_value_decodes_witness:
  "\<exists>c. ORBit_demarshal_value 2 ex_small_tc (ex_reader True ex_small_bytes) =
      Inr (ex_small, (ex_reader True ex_small_bytes)\<lparr>rcur := c\<rparr>) \<and>
    view True ((ex_reader True ex_small_bytes)\<lparr>rcur := c\<rparr>) 20 []"
proof -
  have l: "length ex_small_bytes = 8" by (simp add: ex_small_bytes_def)
  then have "view True (ex_reader True ex_small_bytes) 12 (ex_small_bytes @ [])"
    "has_room 0 (ex_reader True ex_small_bytes)" using view_ex_reader [of ex_small_bytes] by simp_all
  from demarshal_value_decodes [OF ex_small_cdr this, of 2] l show ?thesis
    by (simp add: l) (simp add: ex_small_def)
qed

text \<open>
  C23. The demarshaller accepts nothing but encodings: whatever the bytes of a message are and
  whatever its byte order, when the demarshaller returns a value, the bytes it took are a CDR
  encoding of exactly this value, a value of the type it was asked for, and the cursor stands
  right behind them, inside the message. (For types without \<open>any\<close>, \<open>TypeCode\<close>, \<open>Principal\<close>,
  \<open>long double\<close>, and strings, whose copy ends at the first zero byte.)
\<close>

theorem demarshalled_value_was_encoded:
  assumes "wire_typed tc" and "view be buf off bs" and "has_room 0 buf"
    and "ORBit_demarshal_value f tc buf = Inr (val, buf')"
  shows "\<exists>xs r. bs = xs @ r \<and> has_type tc val \<and> cdr be off tc val xs \<and>
    view be buf' (off + length xs) r \<and> has_room 0 buf'"
proof -
  obtain xs r where "bs = xs @ r" "cdr be off tc val xs" "view be buf' (off + length xs) r" "has_room 0 buf'"
    by (rule sound_atE [OF demarshal_value_sound assms])
  then show ?thesis using demarshal_value_typed [OF assms(4)] by blast
qed

theorem demarshalled_value_was_encoded_witness:
  "\<exists>xs r. ex_small_bytes @ [1, 2] = xs @ r \<and> has_type ex_small_tc ex_small \<and> cdr True 12 ex_small_tc ex_small xs \<and>
    view True ((ex_reader True (ex_small_bytes @ [1, 2]))\<lparr>rcur := 28\<rparr>) (12 + length xs) r \<and>
    has_room 0 ((ex_reader True (ex_small_bytes @ [1, 2]))\<lparr>rcur := 28\<rparr>)"
proof (rule demarshalled_value_was_encoded)
  show "wire_typed ex_small_tc" by code_simp
  have "length (ex_small_bytes @ [1, 2]) < 1000" by (simp add: ex_small_bytes_def)
  then show "view True (ex_reader True (ex_small_bytes @ [1, 2])) 12 (ex_small_bytes @ [1, 2])"
    "has_room 0 (ex_reader True (ex_small_bytes @ [1, 2]))" by (rule view_ex_reader)+
  show "ORBit_demarshal_value 2 ex_small_tc (ex_reader True (ex_small_bytes @ [1, 2])) =
      Inr (ex_small, (ex_reader True (ex_small_bytes @ [1, 2]))\<lparr>rcur := 28\<rparr>)"
    by code_simp
qed

text \<open>
  C12. A typed result, end to end: a value without \<open>any\<close>, \<open>TypeCode\<close>, \<open>Principal\<close> and
  \<open>long double\<close> (\<open>plain\<close>) whose encoding stays below \<open>2 ^ 31\<close> bytes, marshalled into a reply
  and sent over a connection in reads of any size, reaches the caller that waits for that
  reply, and demarshalling the delivered buffer with the same type code gives the value back.
\<close>

theorem typed_reply_roundtrip:
  assumes pool: "\<forall>b \<in> set sbl. pool_ok b" and val: "plain val" "vbound val < 2 ^ 31"
    and m: "ORBit_marshal_value env (fst (giop_send_buffer_use_reply env sbl v rid status)) tc val = Some b"
    and ac: "accepts renv (length (payload env b)) a" and st: "incoming_msg st = None"
    and q: "queued st = xs @ ent # ys" "\<forall>e \<in> set xs. \<not> (ent_request_id e = rid \<and> ent_msg_type e = GIOP_REPLY)"
    and ent: "ent_request_id ent = rid" "ent_msg_type ent = GIOP_REPLY" "ent_cnx ent = Some (cnx_id renv)"
    and rs: "no_empty rs" "tokens rs = map Some (wire env b)"
  shows "\<exists>r. fst (giop_connection_handle_input renv st rs) =
      st\<lparr>queued := xs @ ys, answered := ent\<lparr>ent_buffer := Some r\<rparr> # answered st\<rparr> \<and>
    giop_recv_buffer_get_request_id r = rid \<and> giop_recv_buffer_reply_status r = status \<and>
    (\<forall>f \<ge> vdepth val. \<exists>r'. ORBit_demarshal_value f tc r = Inr (val, r'))"
proof -
  note u = use_reply_builds [OF pool, of env v rid status]
  let ?pl = "payload env (fst (giop_send_buffer_use_reply env sbl v rid status))"
  have l: "length ?pl + 12 + vbound val < 2 ^ 32" using u(3) val(2) by simp
  from marshal_value_cdr(1) [OF m u(1,2) val(1) l] obtain zs where
    z: "cdr False (12 + length ?pl) tc val zs" "builds env v GIOP_REPLY (?pl @ zs) b" "length zs \<le> vbound val"
    unfolding writes_def by blast
  have pl: "payload env b = ?pl @ zs" using z(2) by (simp add: builds_def)
  have sz: "length (payload env b) < 2 ^ 32" using l z(3) by (simp add: pl)
  from reply_heard [OF pool z(2) sz ac st q ent rs] obtain r where
    hi: "fst (giop_connection_handle_input renv st rs) =
      st\<lparr>queued := xs @ ys, answered := ent\<lparr>ent_buffer := Some r\<rparr> # answered st\<rparr>"
    and r: "is_reply r v rid status zs" "has_room 0 r" "view False r (12 + length ?pl) zs"
    by (auto simp: pl)
  have "\<exists>r'. ORBit_demarshal_value f tc r = Inr (val, r')" if "vdepth val \<le> f" for f
    using demarshal_value_cdr(1) [OF z(1) that, of r "[]"] r(2,3) z(3) val(2) unfolding reads_def by auto
  with hi r(1) show ?thesis by (auto simp: is_reply_def)
qed

theorem typed_reply_roundtrip_witness:
  "\<exists>b r. ORBit_marshal_value ex_send_env ex_reply ex_tc ex_value = Some b \<and>
    fst (giop_connection_handle_input ex_input_env ex_state [Bytes (wire ex_send_env b)]) =
      ex_state\<lparr>queued := [], answered := [ex_entry\<lparr>ent_buffer := Some r\<rparr>]\<rparr> \<and>
    giop_recv_buffer_get_request_id r = 7 \<and> giop_recv_buffer_reply_status r = 0 \<and>
    (\<exists>r'. ORBit_demarshal_value 5 ex_tc r = Inr (ex_value, r'))"
proof -
  note u = use_reply_builds [of "[]" ex_send_env GIOP_1_1 7 0, simplified, folded ex_reply_def]
  obtain b where m: "ORBit_marshal_value ex_send_env ex_reply ex_tc ex_value = Some b"
    using marshal_value_total(1) [OF ex_value_typed(1,2)] by blast
  have "length (payload ex_send_env ex_reply) + 12 + vbound ex_value < 2 ^ 32"
    using u(3) ex_value_typed(3) by simp
  from marshal_value_cdr(1) [OF m u(1,2) ex_value_typed(2) this] obtain zs where
    z: "builds ex_send_env GIOP_1_1 GIOP_REPLY (payload ex_send_env ex_reply @ zs) b" "length zs \<le> vbound ex_value"
    unfolding writes_def by blast
  then have "length (payload ex_send_env b) \<le> 1000" using u(3) ex_value_typed(3) by (simp add: builds_def)
  note ac = ex_accepts [OF this]
  have ne: "wire ex_send_env b \<noteq> []" using z(1) by (simp add: wire_builds header_bytes_def)
  have rs: "no_empty [Bytes (wire ex_send_env b)]" "tokens [Bytes (wire ex_send_env b)] = map Some (wire ex_send_env b)"
    using ne by (simp_all add: no_empty_def)
  have "vbound ex_value < 2 ^ 31" using ex_value_typed(3) by simp
  from typed_reply_roundtrip [of "[]" ex_value ex_send_env GIOP_1_1 7 0 ex_tc b ex_input_env 8 ex_state "[]" ex_entry "[]",
      OF _ ex_value_typed(2) this m [unfolded ex_reply_def] ac _ _ _ _ _ _ rs] m ex_value_typed(4)
  show ?thesis by (auto simp: ex_state_def ex_entry_def ex_input_env_def)
qed

end
