(* ===== verification/Cdr_Equality.thy ===== *)
theory Cdr_Equality
  imports Cdr_Layout Cdr_Calls
begin

text \<open>
  What \<open>CORBA_TypeCode_equal\<close> and \<open>_equivalent\<close> (\<open>corba-typecode.c\<close>, lines 592--703)
  are good for: type codes they accept have the same memory layout and the same encodings,
  so a value made with one may be marshalled, demarshalled and freed with the other. Also
  the bounds of the member accessors and the indirections of encoded type codes.
\<close>

section \<open>What equality compares\<close>


lemma andAlso_True [simp]: "andAlso a b = Some True \<longleftrightarrow> a = Some True \<and> b = Some True"
  by (auto simp: andAlso_def split: option.splits bool.splits)












section \<open>Layout\<close>




section \<open>Encodings\<close>











section \<open>Properties\<close>

definition ex_named :: "TCKind \<Rightarrow> CORBA_TypeCode list \<Rightarrow> string \<Rightarrow> CORBA_TypeCode" where
  "ex_named k ts n = TypeCode 0 k 0 ts None (cstr n) (cstr n) (map (\<lambda>_. []) ts) [] 0 0 0 0"



text \<open>
  \<open>CORBA_TypeCode_member_type\<close> on a struct, union or exception: the member at an
  index below the count, \<open>Bounds\<close> above the count; the index equal to the count passes the
  check, and the array is read one past its end.
\<close>

lemma member_type_bounds:
  assumes "tc_kind tc \<in> {CORBA_tk_struct, CORBA_tk_union, CORBA_tk_except}"
  shows "CORBA_TypeCode_member_type tc index =
    (if unat index < length (subtypes tc) then Inr (subtypes tc ! unat index)
     else if unat index = length (subtypes tc) then Inl OutOfArray else Inl Bounds)"
  using assms by (auto simp: CORBA_TypeCode_member_type_def has_members_def sub_parts_def array_get_def)

lemma member_type_bounds_witness:
  "CORBA_TypeCode_member_type (basic_tc CORBA_tk_struct [basic_tc CORBA_tk_long []]) 1 = Inl OutOfArray"
  by (subst member_type_bounds) (simp_all add: basic_tc_def)

text \<open>
  A union whose discriminator is an \<open>unsigned short\<close>: a value of 32768 or more never
  selects the member of its label, because the discriminator is read as a signed short.
\<close>

lemma find_label_neg:
  "\<forall>l \<in> set ls. 0 \<le> sint l \<Longrightarrow> n < 0 \<Longrightarrow> find_label ls ts i def n = None"
  by (induction ls ts i def n rule: find_label.induct) auto

lemma ushort_labels_missed:
  assumes "discriminator tc = Some (basic_tc CORBA_tk_ushort [])" and "sint (default_index tc) < 0"
    and "\<forall>l \<in> set (sublabels tc). 0 \<le> sint l" and "0x8000 \<le> w"
  shows "ORBit_get_union_tag tc (V16 w) = Some (TC_basic CORBA_tk_null)"
proof -
  have "sint w < 0"
  proof -
    have "0x8000 \<le> uint w" using assms(4) by (simp add: word_le_def)
    moreover have "uint w = sint w mod 2 ^ 16" using uint_sint [of w] by (simp add: take_bit_eq_mod)
    moreover have "sint w < 2 ^ 15" using sint_less [of w] by simp
    ultimately show ?thesis by (cases "sint w < 0") simp_all
  qed
  with assms show ?thesis
    by (simp add: ORBit_get_union_tag_def ORBit_get_union_switch_def basic_tc_def find_label_neg)
qed

lemma ushort_labels_missed_witness:
  "ORBit_get_union_tag (TypeCode 0 CORBA_tk_union 0 [basic_tc CORBA_tk_long []] (Some (basic_tc CORBA_tk_ushort []))
      [] [] [] [0x9000] (- 1) 0 0 0) (V16 0x9000) = Some (TC_basic CORBA_tk_null)"
  by (rule ushort_labels_missed) simp_all

text \<open>
  The encoder writes the second occurrence of a complex type code as an offset, also
  inside an encapsulation that begins after the first. The decoder computes the distance
  in 32 unsigned bits before it widens it to a 64-bit pointer difference, so such an offset
  matches nothing on an LP64 host and the process ends in \<open>g_error\<close>: a struct of a string
  and a sequence of strings, both with the ORB's one string type code, cannot be received.
\<close>

definition ex_str :: CORBA_TypeCode where
  "ex_str = TypeCode 5 CORBA_tk_string 0 [] None [] [] [] [] 0 0 0 0"

definition ex_str_seq :: CORBA_TypeCode where
  "ex_str_seq = TypeCode 6 CORBA_tk_sequence 0 [ex_str] None [] [] [] [] 0 0 0 0"

definition ex_shared :: CORBA_TypeCode where
  "ex_shared = TypeCode 7 CORBA_tk_struct 0 [ex_str, ex_str_seq] None [] [] [[0x61], [0x62]] [] 0 0 0 0"

definition ex_shared_bytes :: "byte list" where
  "ex_shared_bytes =
     [15, 0, 0, 0, 72, 0, 0, 0, 1, 0, 0, 0, 1, 0, 0, 0, 0, 0, 0, 0, 1, 0, 0, 0, 0, 0, 0, 0,
      2, 0, 0, 0, 2, 0, 0, 0, 97, 0, 0, 0, 18, 0, 0, 0, 0, 0, 0, 0,
      2, 0, 0, 0, 98, 0, 0, 0, 19, 0, 0, 0, 16, 0, 0, 0, 1, 0, 0, 0, 255, 255, 255, 255,
      220, 255, 255, 255, 0, 0, 0, 0]"

lemma ex_shared_encoded:
  "map_option (payload ex_send_env)
     (ORBit_encode_CORBA_TypeCode ex_send_env ex_shared (fst (giop_send_buffer_use ex_send_env [] GIOP_1_2)))
   = Some ex_shared_bytes"
  by code_simp

lemma own_encoding_aborts:
  "\<exists>bs. map_option (payload ex_send_env)
      (ORBit_encode_CORBA_TypeCode ex_send_env ex_shared (fst (giop_send_buffer_use ex_send_env [] GIOP_1_2))) = Some bs \<and>
    ORBit_decode_CORBA_TypeCode (ex_reader False bs) = Inl TcAbort"
proof -
  have "ORBit_decode_CORBA_TypeCode (ex_reader False ex_shared_bytes) = Inl TcAbort" by code_simp
  with ex_shared_encoded show ?thesis by blast
qed

text \<open>
  The reason: an offset that reaches out of the encapsulation \<open>current_idx\<close> begins at.
\<close>

lemma outward_offset_unmatched:
  assumes "\<forall>(i, t) \<in> set ctx. i < current_idx \<and> uint current_idx - uint i + uint (get_rptr c) < 2 ^ 31"
  shows "find_prior ctx offset current_idx c = None"
  using assms
proof (induction ctx)
  case (Cons x ctx)
  obtain i t where x: "x = (i, t)" by (cases x)
  with Cons.prems have lt: "uint i < uint current_idx" and d: "uint current_idx - uint i + uint (get_rptr c) < 2 ^ 31"
    by (auto simp: word_less_def)
  have "uint (i - current_idx) = uint i - uint current_idx + 2 ^ 32"
    using lt uint_lt2p [of current_idx] unsigned_greater_eq [of i]
    by (simp add: uint_sub_if')
  moreover have "sint offset < 2 ^ 31" using sint_less [of offset] by simp
  ultimately have "sint offset \<noteq> uint (i - current_idx) - uint (get_rptr c)" using d by simp
  with Cons x show ?case by simp
qed simp

end
