(* ===== verification/Call_Types.thy ===== *)
theory Call_Types
  imports Cdr_Calls Cdr_Layout
begin

text \<open>
  The interface data that drive a call (\<open>src/orb/orb-core/orbit-interface.idl\<close>),
  exceptions (\<open>corba-env.c\<close>) and contexts (\<open>corba-context.c\<close>), as both sides of a call
  use them (\<open>orbit-small.c\<close>).
\<close>

section \<open>Methods\<close>

definition I_COMMON_FIXED_SIZE :: u32 where "I_COMMON_FIXED_SIZE = 1"

definition I_ARG_IN :: u32 where "I_ARG_IN = 32"

definition I_ARG_OUT :: u32 where "I_ARG_OUT = 64"

definition I_ARG_INOUT :: u32 where "I_ARG_INOUT = 128"

definition I_METHOD_1_WAY :: u32 where "I_METHOD_1_WAY = 32"

lemmas flag_defs = I_COMMON_FIXED_SIZE_def I_ARG_IN_def I_ARG_OUT_def I_ARG_INOUT_def I_METHOD_1_WAY_def

record IArg =
  arg_tc :: CORBA_TypeCode
  arg_flags :: u32

text \<open>Strings are without their terminator; \<open>name_len\<close> is the length of the name.\<close>

record IMethod =
  im_arguments :: "IArg list"
  im_contexts :: "byte list list"
  im_exceptions :: "CORBA_TypeCode list"
  im_ret :: "CORBA_TypeCode option"
  im_name :: "byte list"
  im_flags :: u32

definition has_flag :: "u32 \<Rightarrow> u32 \<Rightarrow> bool" where
  "has_flag fl b \<longleftrightarrow> fl AND b \<noteq> 0"

definition arg_sent :: "IArg \<Rightarrow> bool" where
  "arg_sent a \<longleftrightarrow> has_flag (arg_flags a) (I_ARG_IN OR I_ARG_INOUT)"

definition arg_returned :: "IArg \<Rightarrow> bool" where
  "arg_returned a \<longleftrightarrow> has_flag (arg_flags a) (I_ARG_OUT OR I_ARG_INOUT)"

definition arg_fixed :: "IArg \<Rightarrow> bool" where
  "arg_fixed a \<longleftrightarrow> has_flag (arg_flags a) I_COMMON_FIXED_SIZE"

text \<open>The kinds of the macros BASE_TYPES, OBJ_STRING_TYPES and STRUCT_UNION_TYPES.\<close>

definition base_type :: "TCKind \<Rightarrow> bool" where
  "base_type k \<longleftrightarrow> k \<in> {CORBA_tk_short, CORBA_tk_long, CORBA_tk_enum, CORBA_tk_ushort, CORBA_tk_ulong,
     CORBA_tk_float, CORBA_tk_double, CORBA_tk_boolean, CORBA_tk_char, CORBA_tk_octet, CORBA_tk_longlong,
     CORBA_tk_ulonglong, CORBA_tk_longdouble, CORBA_tk_wchar}"

definition obj_string_type :: "TCKind \<Rightarrow> bool" where
  "obj_string_type k \<longleftrightarrow> k \<in> {CORBA_tk_objref, CORBA_tk_TypeCode, CORBA_tk_string, CORBA_tk_wstring}"

definition struct_union_type :: "TCKind \<Rightarrow> bool" where
  "struct_union_type k \<longleftrightarrow> k \<in> {CORBA_tk_struct, CORBA_tk_union, CORBA_tk_except}"

definition arg_kind :: "IArg \<Rightarrow> TCKind" where
  "arg_kind a = tc_kind (SKIP_ALIAS (arg_tc a))"

text \<open>A method has a result when it has a type for it that is not void.\<close>

definition has_result :: "IMethod \<Rightarrow> CORBA_TypeCode option" where
  "has_result m = (case im_ret m of
     Some tc \<Rightarrow> if tc_kind tc \<noteq> CORBA_tk_void then Some tc else None
   | None \<Rightarrow> None)"

section \<open>Exceptions\<close>

datatype completion = COMPLETED_YES | COMPLETED_NO | COMPLETED_MAYBE

fun completion_code :: "completion \<Rightarrow> u32" where
  "completion_code COMPLETED_YES = 0"
| "completion_code COMPLETED_NO = 1"
| "completion_code COMPLETED_MAYBE = 2"

text \<open>
  \<open>CORBA_Environment\<close>: the id may be null where a peer sent none, and the value of a user
  exception may be a null pointer.
\<close>

datatype CORBA_Environment =
    NO_EXCEPTION
  | USER_EXCEPTION (user_id: "byte list") (user_value: "cvalue option")
  | SYSTEM_EXCEPTION (sys_id: "byte list option") (sys_minor: u32) (sys_completed: u32)

fun ev_major :: "CORBA_Environment \<Rightarrow> u32" where
  "ev_major NO_EXCEPTION = 0"
| "ev_major (USER_EXCEPTION _ _) = 1"
| "ev_major (SYSTEM_EXCEPTION _ _ _) = 2"

definition system_id :: "string \<Rightarrow> byte list" where
  "system_id name = map of_char (''IDL:omg.org/CORBA/'' @ name @ '':1.0'')"

definition CORBA_exception_set_system :: "string \<Rightarrow> completion \<Rightarrow> CORBA_Environment" where
  "CORBA_exception_set_system name c = SYSTEM_EXCEPTION (Some (system_id name)) 0 (completion_code c)"

section \<open>Results of a call\<close>

text \<open>
  \<open>Crash\<close> is a null or uninitialised pointer that is followed, a failed assertion or
  \<open>g_error\<close>; \<open>Decoding\<close> what the demarshallers can end with besides returning \<open>TRUE\<close>.
\<close>

datatype call_error = Crash | Decoding tc_dec_error

fun dec :: "tc_dec_error + 'a \<Rightarrow> call_error + 'a" where
  "dec (Inl e) = Inl (Decoding e)"
| "dec (Inr x) = Inr x"

lemma dec_eq_Inr [simp]: "dec m = Inr x \<longleftrightarrow> m = Inr x"
  by (cases m) auto

fun present :: "'a option \<Rightarrow> call_error + 'a" where
  "present None = Inl Crash"
| "present (Some x) = Inr x"

lemma present_eq_Inr [simp]: "present m = Inr x \<longleftrightarrow> m = Some x"
  by (cases m) auto

text \<open>
  The bound of the nesting depth, and where the cursor is left by a value that could not be
  demarshalled: the code goes on reading there, the model leaves the place open.
\<close>

record call_env =
  max_depth :: nat
  after_failure :: "CORBA_TypeCode \<Rightarrow> GIOPRecvBuffer \<Rightarrow> GIOPRecvBuffer"

text \<open>
  \<open>do_demarshal_value\<close> fills a place that is there already; \<open>None\<close> is where it jumps to
  \<open>demarshal_exception\<close>. \<open>ORBit_demarshal_arg\<close> allocates, and returns a null pointer
  where \<open>ORBit_demarshal_value\<close> returns \<open>TRUE\<close>, and for a type of no bytes (an exception without
  members), for which nothing is allocated.
\<close>

definition do_demarshal_value :: "call_env \<Rightarrow> GIOPRecvBuffer \<Rightarrow> CORBA_TypeCode \<Rightarrow>
    tc_dec_error + (cvalue option \<times> GIOPRecvBuffer)" where
  "do_demarshal_value ce buf tc =
     (case ORBit_demarshal_value (max_depth ce) tc buf of
        Inr (v, buf) \<Rightarrow> Inr (Some v, buf)
      | Inl (TcRecv Malformed) \<Rightarrow> Inr (None, after_failure ce tc buf)
      | Inl e \<Rightarrow> Inl e)"

definition allocated :: "CORBA_TypeCode \<Rightarrow> cvalue option \<Rightarrow> cvalue option" where
  "allocated tc v = (if ORBit_gather_alloc_info tc = 0 then None else v)"

definition ORBit_demarshal_arg :: "call_env \<Rightarrow> GIOPRecvBuffer \<Rightarrow> CORBA_TypeCode \<Rightarrow>
    tc_dec_error + (cvalue option \<times> GIOPRecvBuffer)" where
  "ORBit_demarshal_arg ce buf tc =
     andThen (do_demarshal_value ce buf tc) (\<lambda>(v, buf). Inr (allocated tc v, buf))"

text \<open>Either of them, by whether there is a place.\<close>

definition demarshal_slot :: "bool \<Rightarrow> call_env \<Rightarrow> GIOPRecvBuffer \<Rightarrow> CORBA_TypeCode \<Rightarrow>
    tc_dec_error + (cvalue option \<times> GIOPRecvBuffer)" where
  "demarshal_slot place ce buf tc =
     (if place then do_demarshal_value ce buf tc else ORBit_demarshal_arg ce buf tc)"

text \<open>
  The loop over the arguments of one direction, on either side: what the pointers lead to
  is marshalled in the order of the arguments; \<open>None\<close> is a null pointer.
\<close>

fun marshal_where :: "(IArg \<Rightarrow> bool) \<Rightarrow> SendEnv \<Rightarrow> GIOPSendBuffer \<Rightarrow> IArg list \<Rightarrow> cvalue option list \<Rightarrow>
    call_error + GIOPSendBuffer" where
  "marshal_where P env buf (a # as) (p # ps) =
     (if P a then
        andThen (present p) (\<lambda>v.
        andThen (present (ORBit_marshal_value env buf (SKIP_ALIAS (arg_tc a)) v)) (\<lambda>buf.
        marshal_where P env buf as ps))
      else marshal_where P env buf as ps)"
| "marshal_where P env buf _ _ = Inr buf"

section \<open>Contexts\<close>

text \<open>
  \<open>mappings\<close> of a context is a hash table or null. The number of strings, which the code
  patches into the message at the end, is written with its final value.
\<close>

type_synonym context_map = "(byte list \<Rightarrow> byte list option) option"

definition context_items :: "context_map \<Rightarrow> byte list list \<Rightarrow> (byte list \<times> byte list) list" where
  "context_items mappings mlist = (case mappings of
     None \<Rightarrow> []
   | Some f \<Rightarrow> List.map_filter (\<lambda>key. map_option (\<lambda>val. (key, val)) (f key)) mlist)"

definition append_c_string :: "SendEnv \<Rightarrow> GIOPSendBuffer \<Rightarrow> byte list \<Rightarrow> GIOPSendBuffer" where
  "append_c_string env buf s =
     append_const env (append_prim env buf (le32 (of_nat (length s + 1)))) (s @ [0])"

definition ORBit_Context_marshal :: "SendEnv \<Rightarrow> context_map \<Rightarrow> byte list list \<Rightarrow> GIOPSendBuffer \<Rightarrow> GIOPSendBuffer" where
  "ORBit_Context_marshal env mappings mlist buf =
     (let items = context_items mappings mlist
      in fold (\<lambda>(key, val) buf. append_c_string env (append_c_string env buf key) val) items
           (append_prim env buf (le32 (of_nat (2 * length items)))))"

text \<open>
  The receiving side keeps pointers into the message: the keys are read by the hash table,
  the values only by the method. A table that was made is destroyed when an error follows.
\<close>

datatype server_context = No_table | Table "(byte list \<times> u64) list" | Destroyed_table

definition context_string :: "GIOPRecvBuffer \<Rightarrow> recv_error + (u64 \<times> GIOPRecvBuffer)" where
  "context_string buf0 =
     (let buf = align_cur 4 buf0 in
      andThen (check 4 buf) (\<lambda>_.
      andThen (fetch32 buf) (\<lambda>(len, buf).
      if ptr_over (rcur buf) (rend buf) (ucast len) \<or> rcur buf + ucast len < rcur buf then Inl Malformed
      else Inr (rcur buf, advance (ucast len) buf))))"

text \<open>The strings by pairs; of an odd number the last key is read and dropped.\<close>

fun context_entries :: "nat \<Rightarrow> GIOPRecvBuffer \<Rightarrow> (byte list \<times> u64) list \<Rightarrow>
    recv_error + ((byte list \<times> u64) list \<times> GIOPRecvBuffer)" where
  "context_entries 0 buf acc = Inr (acc, buf)"
| "context_entries (Suc 0) buf acc =
     andThen (context_string buf) (\<lambda>(_, buf). Inr (acc, buf))"
| "context_entries (Suc (Suc n)) buf acc =
     andThen (context_string buf) (\<lambda>(key, buf).
     andThen (context_string buf) (\<lambda>(val, buf).
     andThen (c_string buf key) (\<lambda>k.
     context_entries n buf ((k, val) # acc))))"

definition ORBit_Context_demarshal :: "GIOPRecvBuffer \<Rightarrow> recv_error + (bool \<times> server_context)" where
  "ORBit_Context_demarshal buf0 =
     (let buf = align_cur 4 buf0 in
      case andThen (check 4 buf) (\<lambda>_. fetch32 buf) of
        Inl Malformed \<Rightarrow> Inr (True, No_table)
      | Inl e \<Rightarrow> Inl e
      | Inr (nstrings, buf) \<Rightarrow>
          if ptr_over (rcur buf) (rend buf) (ucast (nstrings * 8)) then Inr (True, No_table)
          else if nstrings = 0 then Inr (True, No_table)
          else (case context_entries (unat nstrings) buf [] of
              Inr (entries, _) \<Rightarrow> Inr (False, Table entries)
            | Inl Malformed \<Rightarrow> Inr (True, Destroyed_table)
            | Inl e \<Rightarrow> Inl e))"

end
