(* ===== verification/Call_Stub.thy ===== *)
theory Call_Stub
  imports Call_Types
begin

text \<open>
  The calling side of \<open>orbit-small.c\<close>: marshalling a request, waiting, and demarshalling
  its reply. A call on an object of this process does not come here but goes to its POA.
\<close>

section \<open>The request\<close>

text \<open>The operation header is on the stack of the function that also writes the request.\<close>

definition op_vec :: "IMethod \<Rightarrow> iovec" where
  "op_vec m = \<lparr>iov_base = (BConst (op_vec_bytes (im_name m)), 0), iov_len = length (op_vec_bytes (im_name m))\<rparr>"

text \<open>
  \<open>args\<close> holds the values the pointers of the caller lead to. The context of the caller may be a null pointer, which a method with contexts follows.
\<close>

definition orbit_small_marshal :: "SendEnv \<Rightarrow> GIOPSendBuffer list \<Rightarrow> GIOPVersion \<Rightarrow> okey \<Rightarrow> u32 \<Rightarrow> IMethod \<Rightarrow>
    cvalue option list \<Rightarrow> context_map option \<Rightarrow> call_error + (GIOPSendBuffer \<times> GIOPSendBuffer list)" where
  "orbit_small_marshal env sbl v objkey request_id m args ctx =
     (let (buf, sbl) = giop_send_buffer_use_request env sbl v request_id
            (if has_flag (im_flags m) I_METHOD_1_WAY then 0 else 1) objkey (op_vec m) None
      in andThen (marshal_where arg_sent env buf (im_arguments m) args) (\<lambda>buf.
         if im_contexts m = [] then Inr (buf, sbl)
         else andThen (present ctx) (\<lambda>mappings.
           Inr (ORBit_Context_marshal env mappings (im_contexts m) buf, sbl))))"

section \<open>Exceptions in a reply\<close>

text \<open>\<open>strcmp\<close> of a string with the memory from a pointer on, up to the first difference.\<close>

fun same_c_string :: "byte list \<Rightarrow> byte list \<Rightarrow> recv_error + bool" where
  "same_c_string s [] = Inl OutOfBounds"
| "same_c_string [] (m # ms) = Inr (m = 0)"
| "same_c_string (c # cs) (m # ms) = (if c = m then same_c_string cs ms else Inr False)"

definition strcmp_at :: "GIOPRecvBuffer \<Rightarrow> byte list \<Rightarrow> u64 \<Rightarrow> recv_error + bool" where
  "strcmp_at buf s p = same_c_string s (drop (unat (p - message_body buf)) (body_mem buf))"

fun find_exception :: "GIOPRecvBuffer \<Rightarrow> u64 \<Rightarrow> CORBA_TypeCode list \<Rightarrow> recv_error + CORBA_TypeCode option" where
  "find_exception buf p [] = Inr None"
| "find_exception buf p (t # ts) =
     andThen (strcmp_at buf (repo_id t) p) (\<lambda>same. if same then Inr (Some t) else find_exception buf p ts)"

definition marshal_exception :: CORBA_Environment where
  "marshal_exception = CORBA_exception_set_system ''MARSHAL'' COMPLETED_MAYBE"

text \<open>The label errout, for what is reported and not followed outside the message.\<close>

fun or_errout :: "recv_error + CORBA_Environment \<Rightarrow> call_error + CORBA_Environment" where
  "or_errout (Inl Malformed) = Inr marshal_exception"
| "or_errout (Inl e) = Inl (Decoding (TcRecv e))"
| "or_errout (Inr ev) = Inr ev"

definition system_exception :: "GIOPRecvBuffer \<Rightarrow> u64 option \<Rightarrow> recv_error + CORBA_Environment" where
  "system_exception buf my_repoid =
     andThen (demarshal_ulong buf) (\<lambda>(minor, buf).
     andThen (demarshal_ulong buf) (\<lambda>(completed, buf).
     case my_repoid of
       None \<Rightarrow> Inr (SYSTEM_EXCEPTION None minor completed)
     | Some p \<Rightarrow> andThen (c_string buf p) (\<lambda>s. Inr (SYSTEM_EXCEPTION (Some s) minor completed))))"

definition user_exception :: "call_env \<Rightarrow> CORBA_TypeCode list \<Rightarrow> GIOPRecvBuffer \<Rightarrow> u64 option \<Rightarrow>
    tc_dec_error + CORBA_Environment" where
  "user_exception ce types buf my_repoid =
     (case my_repoid of
        None \<Rightarrow> Inr marshal_exception
      | Some p \<Rightarrow>
          andThen (recv (find_exception buf p types)) (\<lambda>found.
          case found of
            None \<Rightarrow> Inr marshal_exception
          | Some t \<Rightarrow>
              andThen (ORBit_demarshal_arg ce buf t) (\<lambda>(v, _). Inr (USER_EXCEPTION (repo_id t) v))))"

definition ORBit_handle_exception_array :: "call_env \<Rightarrow> GIOPRecvBuffer \<Rightarrow> CORBA_TypeCode list \<Rightarrow>
    call_error + CORBA_Environment" where
  "ORBit_handle_exception_array ce rb types =
     (case demarshal_ulong rb of
        Inl e \<Rightarrow> or_errout (Inl e)
      | Inr (len, buf) \<Rightarrow>
          let my_repoid = (if len = 0 then None else Some (rcur buf));
              buf = (if len = 0 then buf else advance (ucast len) buf);
              status = giop_recv_buffer_reply_status rb
          in if status = 2 then or_errout (system_exception buf my_repoid)
             else if status = 1 then dec (user_exception ce types buf my_repoid)
             else Inr marshal_exception)"

section \<open>The reply\<close>

datatype DeMarshalRetType =
    MARSHAL_SYS_EXCEPTION_INCOMPLETE | MARSHAL_SYS_EXCEPTION_COMPLETE
  | MARSHAL_EXCEPTION_COMPLETE | MARSHAL_RETRY | MARSHAL_CLEAN

text \<open>
  What a reply leaves behind: the exception, the result and the arguments of the caller,
  where \<open>None\<close> is a null pointer (or, for the result, one that was not set).
\<close>

record reply_outcome =
  ro_type :: DeMarshalRetType
  ro_ev :: CORBA_Environment
  ro_ret :: "cvalue option"
  ro_args :: "cvalue option list"

text \<open>
  The returned arguments: the first component tells whether a value of a base, string or
  fixed type, or one that replaces an argument, could not be read (demarshal_exception).
  Other values are not checked.
\<close>

definition out_in_place :: "IArg \<Rightarrow> bool" where
  "out_in_place a \<longleftrightarrow> obj_string_type (arg_kind a) \<or> base_type (arg_kind a) \<or> arg_fixed a \<or>
     has_flag (arg_flags a) I_ARG_INOUT"

fun demarshal_outs :: "call_env \<Rightarrow> IArg list \<Rightarrow> cvalue option list \<Rightarrow> GIOPRecvBuffer \<Rightarrow>
    tc_dec_error + (bool \<times> cvalue option list)" where
  "demarshal_outs ce (a # as) (p # ps) buf =
     (if \<not> arg_returned a then
        andThen (demarshal_outs ce as ps buf) (\<lambda>(failed, ps). Inr (failed, p # ps))
      else
        andThen (demarshal_slot (out_in_place a) ce buf (SKIP_ALIAS (arg_tc a))) (\<lambda>(v, buf).
        if v = None \<and> out_in_place a
        then Inr (True, p # ps)
        else andThen (demarshal_outs ce as ps buf) (\<lambda>(failed, ps). Inr (failed, v # ps))))"
| "demarshal_outs ce _ ps buf = Inr (False, ps)"

definition demarshal_results :: "call_env \<Rightarrow> IMethod \<Rightarrow> cvalue option \<Rightarrow> cvalue option list \<Rightarrow> GIOPRecvBuffer \<Rightarrow>
    tc_dec_error + reply_outcome" where
  "demarshal_results ce m ret args buf =
     andThen (demarshal_outs ce (im_arguments m) args buf) (\<lambda>(failed, args).
     Inr (if failed then \<lparr>ro_type = MARSHAL_EXCEPTION_COMPLETE, ro_ev = marshal_exception, ro_ret = ret, ro_args = args\<rparr>
          else \<lparr>ro_type = MARSHAL_CLEAN, ro_ev = NO_EXCEPTION, ro_ret = ret, ro_args = args\<rparr>))"

text \<open>The result first: where it is allocated a null pointer is noticed and reported.\<close>

definition orbit_small_demarshal :: "call_env \<Rightarrow> (GIOPRecvBuffer \<Rightarrow> bool) \<Rightarrow> GIOPRecvBuffer option \<Rightarrow> IMethod \<Rightarrow>
    cvalue option list \<Rightarrow> call_error + reply_outcome" where
  "orbit_small_demarshal ce forwarded recv_buffer m args =
     (let stay = (\<lambda>t ev. \<lparr>ro_type = t, ro_ev = ev, ro_ret = None, ro_args = args\<rparr>) in
      case recv_buffer of
        None \<Rightarrow> Inr (stay MARSHAL_SYS_EXCEPTION_INCOMPLETE NO_EXCEPTION)
      | Some buf \<Rightarrow>
          if giop_recv_buffer_reply_status buf = 3 then
            Inr (if forwarded buf then stay MARSHAL_RETRY NO_EXCEPTION
                 else stay MARSHAL_SYS_EXCEPTION_INCOMPLETE marshal_exception)
          else if giop_recv_buffer_reply_status buf \<noteq> 0 then
            andThen (ORBit_handle_exception_array ce buf (im_exceptions m)) (\<lambda>ev.
            Inr (stay MARSHAL_EXCEPTION_COMPLETE ev))
          else (case has_result m of
              None \<Rightarrow> dec (demarshal_results ce m None args buf)
            | Some tc0 \<Rightarrow>
                let tc = SKIP_ALIAS tc0; k = tc_kind tc;
                    place = (base_type k \<or> obj_string_type k \<or>
                             struct_union_type k \<and> has_flag (im_flags m) I_COMMON_FIXED_SIZE) in
                dec (andThen (demarshal_slot place ce buf tc) (\<lambda>(v, buf).
                  if v = None then
                    Inr (if place
                         then stay MARSHAL_EXCEPTION_COMPLETE marshal_exception
                         else stay MARSHAL_SYS_EXCEPTION_COMPLETE NO_EXCEPTION)
                  else demarshal_results ce m v args buf))))"

section \<open>The stub\<close>

text \<open>
  The network as the stub meets it, by the number of the attempt: the connection and key
  the object has, what comes of sending a request and waiting, and whether a forwarded
  location can be reached.
\<close>

datatype received = Write_failed | Timed_out | Received "GIOPRecvBuffer option"

record network =
  connect :: "nat \<Rightarrow> (GIOPVersion \<times> okey) option"
  exchange :: "nat \<Rightarrow> GIOPSendBuffer \<Rightarrow> received"

definition failed_call :: "string \<Rightarrow> completion \<Rightarrow> cvalue option \<Rightarrow> cvalue option list \<Rightarrow> reply_outcome" where
  "failed_call name c ret args =
     \<lparr>ro_type = MARSHAL_EXCEPTION_COMPLETE, ro_ev = CORBA_exception_set_system name c, ro_ret = ret, ro_args = args\<rparr>"

text \<open>One attempt: \<open>None\<close> asks for another.\<close>

definition attempt :: "SendEnv \<Rightarrow> call_env \<Rightarrow> network \<Rightarrow> GIOPSendBuffer list \<Rightarrow> u32 \<Rightarrow> IMethod \<Rightarrow> cvalue option list \<Rightarrow>
    context_map option \<Rightarrow> nat \<Rightarrow> GIOPVersion \<times> okey \<Rightarrow>
    (call_error + reply_outcome) option \<times> GIOPSendBuffer list" where
  "attempt env ce net sbl request_id m args ctx n = (\<lambda>(v, key).
     case orbit_small_marshal env sbl v key request_id m args ctx of
       Inl e \<Rightarrow> (Some (Inl e), sbl)
     | Inr (buf, sbl) \<Rightarrow>
         (case exchange net n buf of
            Write_failed \<Rightarrow> (Some (Inr (failed_call ''COMM_FAILURE'' COMPLETED_NO None args)), sbl)
          | got \<Rightarrow>
              let sbl = giop_send_buffer_unuse sbl buf in
              if has_flag (im_flags m) I_METHOD_1_WAY
              then (Some (Inr \<lparr>ro_type = MARSHAL_CLEAN, ro_ev = NO_EXCEPTION, ro_ret = None, ro_args = args\<rparr>), sbl)
              else (case got of
                Received rb \<Rightarrow>
                  (case orbit_small_demarshal ce (\<lambda>_. connect net (n + 1) \<noteq> None) rb m args of
                     Inl e \<Rightarrow> (Some (Inl e), sbl)
                   | Inr out \<Rightarrow>
                       (case ro_type out of
                          MARSHAL_RETRY \<Rightarrow> (None, sbl)
                        | MARSHAL_SYS_EXCEPTION_COMPLETE \<Rightarrow>
                            (Some (Inr (failed_call ''COMM_FAILURE'' COMPLETED_YES (ro_ret out) (ro_args out))), sbl)
                        | MARSHAL_SYS_EXCEPTION_INCOMPLETE \<Rightarrow>
                            (Some (Inr (failed_call ''COMM_FAILURE'' COMPLETED_MAYBE (ro_ret out) (ro_args out))), sbl)
                        | _ \<Rightarrow> (Some (Inr out), sbl)))
              | _ \<Rightarrow> (Some (Inr (failed_call ''TIMEOUT'' COMPLETED_NO None args)), sbl))))"

text \<open>The label retry_request: nothing bounds the number of forwards.\<close>

partial_function (option) retry_request :: "SendEnv \<Rightarrow> call_env \<Rightarrow> network \<Rightarrow> u32 \<Rightarrow> IMethod \<Rightarrow> cvalue option list \<Rightarrow>
    context_map option \<Rightarrow> nat \<Rightarrow> GIOPSendBuffer list \<Rightarrow>
    ((call_error + reply_outcome) \<times> GIOPSendBuffer list) option" where
  "retry_request env ce net request_id m args ctx n sbl =
     (case connect net n of
        None \<Rightarrow> Some (Inr (failed_call ''COMM_FAILURE'' COMPLETED_NO None args), sbl)
      | Some target \<Rightarrow>
          (case attempt env ce net sbl request_id m args ctx n target of
             (Some out, sbl) \<Rightarrow> Some (out, sbl)
           | (None, sbl) \<Rightarrow> retry_request env ce net request_id m args ctx (n + 1) sbl))"

definition ORBit_small_invoke_stub :: "SendEnv \<Rightarrow> call_env \<Rightarrow> network \<Rightarrow> GIOPSendBuffer list \<Rightarrow> u32 \<Rightarrow> bool \<Rightarrow> IMethod \<Rightarrow>
    cvalue option list \<Rightarrow> context_map option \<Rightarrow> ((call_error + reply_outcome) \<times> GIOPSendBuffer list) option" where
  "ORBit_small_invoke_stub env ce net sbl request_id obj m args ctx =
     (if \<not> obj then Some (Inr (failed_call ''INV_OBJREF'' COMPLETED_NO None args), sbl)
      else retry_request env ce net request_id m args ctx 0 sbl)"

text \<open>By index into the methods of an interface; the check lets the length itself pass.\<close>

definition ORBit_small_invoke_stub_n :: "SendEnv \<Rightarrow> call_env \<Rightarrow> network \<Rightarrow> GIOPSendBuffer list \<Rightarrow> u32 \<Rightarrow> bool \<Rightarrow> IMethod list \<Rightarrow>
    int \<Rightarrow> cvalue option list \<Rightarrow> context_map option \<Rightarrow> ((call_error + reply_outcome) \<times> GIOPSendBuffer list) option" where
  "ORBit_small_invoke_stub_n env ce net sbl request_id obj methods index args ctx =
     (if index < 0 \<or> index > int (length methods)
      then Some (Inr (failed_call ''NO_IMPLEMENT'' COMPLETED_NO None args), sbl)
      else if nat index = length methods then Some (Inl Crash, sbl)
      else ORBit_small_invoke_stub env ce net sbl request_id obj (methods ! nat index) args ctx)"

end
