(* ===== verification/Call_Skeleton.thy ===== *)
theory Call_Skeleton
  imports Call_Types
begin

text \<open>
  The called side of \<open>orbit-small.c\<close>: \<open>ORBit_small_invoke_adaptor\<close> demarshals the
  arguments of a request, calls the method and answers. It runs between the two halves of
  the request handler of the POA, at the event Invoke.
\<close>

section \<open>Arguments\<close>

text \<open>
  What \<open>args[i]\<close> points to: a value, memory that was never written, or nothing. The slot
  of an argument that is only returned belongs to the method.
\<close>

datatype slot = Held cvalue | Raw | Null | Slot_out

text \<open>Where the argument is demarshalled in place, so that a failure is noticed.\<close>

definition in_place :: "IArg \<Rightarrow> bool" where
  "in_place a \<longleftrightarrow> base_type (arg_kind a) \<or> obj_string_type (arg_kind a) \<or>
     (struct_union_type (arg_kind a) \<or> arg_kind a = CORBA_tk_array) \<and> arg_fixed a"

text \<open>The first component is set by a jump to demarshal_exception; the rest was cleared before.\<close>

fun demarshal_ins :: "call_env \<Rightarrow> IArg list \<Rightarrow> GIOPRecvBuffer \<Rightarrow>
    tc_dec_error + (bool \<times> slot list \<times> GIOPRecvBuffer)" where
  "demarshal_ins ce [] buf = Inr (False, [], buf)"
| "demarshal_ins ce (a # as) buf =
     (if arg_sent a then
        andThen (demarshal_slot (in_place a) ce buf (arg_tc a)) (\<lambda>(v, buf).
        if v = None \<and> in_place a then Inr (True, Raw # replicate (length as) Null, buf)
        else andThen (demarshal_ins ce as buf) (\<lambda>(failed, slots, buf).
          Inr (failed, (case v of Some v \<Rightarrow> Held v | None \<Rightarrow> Null) # slots, buf)))
      else
        andThen (demarshal_ins ce as buf) (\<lambda>(failed, slots, buf). Inr (failed, Slot_out # slots, buf)))"

fun slot_value :: "slot \<Rightarrow> cvalue option" where
  "slot_value (Held v) = Some v"
| "slot_value _ = None"

text \<open>
  The label clean_out frees what the arguments hold: strings and references through the
  slot, whatever it is.
\<close>

definition frees_through :: "IArg \<Rightarrow> slot \<Rightarrow> bool" where
  "frees_through a s \<longleftrightarrow> arg_sent a \<and> obj_string_type (arg_kind a) \<and> (s = Null \<or> s = Raw)"

definition clean_args :: "IArg list \<Rightarrow> slot list \<Rightarrow> call_error + unit" where
  "clean_args as slots =
     (if list_ex (\<lambda>(a, s). frees_through a s) (zip as slots) then Inl Crash else Inr ())"

section \<open>Answers\<close>

text \<open>
  The method is code of the application: from the arguments it is given, it leaves an
  exception, a result, and the values of the arguments that are returned.
\<close>

record method_outcome =
  mo_ev :: CORBA_Environment
  mo_ret :: "cvalue option"
  mo_args :: "cvalue option list"

definition marshal_results :: "SendEnv \<Rightarrow> IMethod \<Rightarrow> cvalue option \<Rightarrow> cvalue option list \<Rightarrow> GIOPSendBuffer \<Rightarrow>
    call_error + GIOPSendBuffer" where
  "marshal_results env m ret args buf =
     andThen (case has_result m of
        None \<Rightarrow> Inr buf
      | Some tc \<Rightarrow> andThen (present ret) (\<lambda>v. present (ORBit_marshal_value env buf tc v))) (\<lambda>buf.
     marshal_where arg_returned env buf (im_arguments m) args)"

definition append_id :: "SendEnv \<Rightarrow> GIOPSendBuffer \<Rightarrow> byte list \<Rightarrow> GIOPSendBuffer" where
  "append_id env buf s = giop_send_buffer_append_string env buf (BConst (s @ [0]), 0) s"

definition ORBit_send_system_exception :: "SendEnv \<Rightarrow> GIOPSendBuffer \<Rightarrow> byte list option \<Rightarrow> u32 \<Rightarrow> u32 \<Rightarrow>
    call_error + GIOPSendBuffer" where
  "ORBit_send_system_exception env buf name minor completed =
     andThen (present name) (\<lambda>s.
     Inr (append_prim env (append_prim env (append_id env buf s) (le32 minor)) (le32 completed)))"

definition listed_exception :: "CORBA_TypeCode list \<Rightarrow> byte list \<Rightarrow> CORBA_TypeCode option" where
  "listed_exception types s = List.find (\<lambda>t. repo_id t = s) types"

text \<open>A null pointer serves as the value of an exception without members.\<close>

definition exception_value :: "cvalue option \<Rightarrow> cvalue" where
  "exception_value v = (case v of Some v \<Rightarrow> v | None \<Rightarrow> VStruct [])"

definition undeclared_exception :: CORBA_Environment where
  "undeclared_exception = CORBA_exception_set_system ''UNKNOWN'' COMPLETED_MAYBE"

text \<open>The label handle_possible_exception, which an exception that is not declared reaches twice.\<close>

definition answer_system :: "SendEnv \<Rightarrow> GIOPSendBuffer list \<Rightarrow> GIOPVersion \<Rightarrow> u32 \<Rightarrow> CORBA_Environment \<Rightarrow>
    call_error + (GIOPSendBuffer \<times> GIOPSendBuffer list)" where
  "answer_system env sbl v rid ev =
     (let (buf, sbl) = giop_send_buffer_use_reply env sbl v rid (ev_major ev)
      in andThen (ORBit_send_system_exception env buf (sys_id ev) (sys_minor ev) (sys_completed ev)) (\<lambda>buf.
         Inr (buf, sbl)))"

definition handle_possible_exception :: "SendEnv \<Rightarrow> GIOPSendBuffer list \<Rightarrow> GIOPVersion \<Rightarrow> u32 \<Rightarrow> IMethod \<Rightarrow>
    method_outcome \<Rightarrow> call_error + (GIOPSendBuffer \<times> GIOPSendBuffer list)" where
  "handle_possible_exception env sbl v rid m mo =
     (case mo_ev mo of
        SYSTEM_EXCEPTION _ _ _ \<Rightarrow> answer_system env sbl v rid (mo_ev mo)
      | USER_EXCEPTION s val \<Rightarrow>
          (let (buf, sbl) = giop_send_buffer_use_reply env sbl v rid (ev_major (mo_ev mo))
           in case listed_exception (im_exceptions m) s of
             None \<Rightarrow> answer_system env (giop_send_buffer_unuse sbl buf) v rid undeclared_exception
           | Some t \<Rightarrow>
               andThen (present (ORBit_marshal_value env (append_id env buf s) t (exception_value val))) (\<lambda>buf.
               Inr (buf, sbl)))
      | NO_EXCEPTION \<Rightarrow>
          (let (buf, sbl) = giop_send_buffer_use_reply env sbl v rid (ev_major (mo_ev mo))
           in andThen (marshal_results env m (mo_ret mo) (mo_args mo) buf) (\<lambda>buf. Inr (buf, sbl))))"

section \<open>The skeleton\<close>

record skeleton_result =
  sk_called :: "cvalue option list option"
  sk_reply :: "GIOPSendBuffer option"
  sk_pool :: "GIOPSendBuffer list"

definition malformed_request :: CORBA_Environment where
  "malformed_request = CORBA_exception_set_system ''MARSHAL'' COMPLETED_NO"

definition after_call :: "SendEnv \<Rightarrow> GIOPSendBuffer list \<Rightarrow> IMethod \<Rightarrow> GIOPRecvBuffer \<Rightarrow> cvalue option list \<Rightarrow>
    method_outcome \<Rightarrow> call_error + skeleton_result" where
  "after_call env sbl m rb args mo =
     (if has_flag (im_flags m) I_METHOD_1_WAY
      then Inr \<lparr>sk_called = Some args, sk_reply = None, sk_pool = sbl\<rparr>
      else andThen (handle_possible_exception env sbl (giop_version rb) (giop_recv_buffer_get_request_id rb) m mo)
        (\<lambda>(buf, sbl). Inr \<lparr>sk_called = Some args, sk_reply = Some buf, sk_pool = giop_send_buffer_unuse sbl buf\<rparr>))"

text \<open>
  A request that cannot be demarshalled is answered, whether or not the method is oneway,
  and then the arguments are freed. After a failure of the context the table it has
  destroyed is destroyed again.
\<close>

definition ORBit_small_invoke_adaptor :: "SendEnv \<Rightarrow> call_env \<Rightarrow> GIOPSendBuffer list \<Rightarrow> IMethod \<Rightarrow>
    (cvalue option list \<Rightarrow> server_context \<Rightarrow> method_outcome) \<Rightarrow> GIOPRecvBuffer \<Rightarrow> call_error + skeleton_result" where
  "ORBit_small_invoke_adaptor env ce sbl m method rb =
     andThen (dec (demarshal_ins ce (im_arguments m) rb)) (\<lambda>(failed, slots, buf).
     if failed then
       andThen (answer_system env sbl (giop_version rb) (giop_recv_buffer_get_request_id rb) malformed_request)
         (\<lambda>(b, sbl).
       andThen (clean_args (im_arguments m) slots) (\<lambda>_.
       Inr \<lparr>sk_called = None, sk_reply = Some b, sk_pool = giop_send_buffer_unuse sbl b\<rparr>))
     else
       andThen (if im_contexts m = [] then Inr No_table
                else andThen (dec (recv (ORBit_Context_demarshal buf))) (\<lambda>(_, ctx). Inr ctx)) (\<lambda>ctx.
       let args = map slot_value slots; mo = method args ctx in
       if ctx = Destroyed_table then Inl Crash
       else andThen (after_call env sbl m rb args mo) (\<lambda>r.
         andThen (clean_args (im_arguments m) slots) (\<lambda>_. Inr r))))"

end
