(* ===== verification/Call_Transfer.thy ===== *)
theory Call_Transfer
  imports Call_Stub Call_Skeleton
begin

text \<open>
  What one side marshals the other demarshals: arguments in either direction, results and
  exceptions, against the encoding of \<open>Cdr_Encoding\<close>.
\<close>

section \<open>Arguments of one direction\<close>

text \<open>The values of the chosen arguments, and a list of all arguments with these values.\<close>

definition chosen :: "(IArg \<Rightarrow> bool) \<Rightarrow> IArg list \<Rightarrow> cvalue option list \<Rightarrow> cvalue option list" where
  "chosen P as ps = map snd (filter (\<lambda>(a, _). P a) (zip as ps))"

definition chosen_tcs :: "(IArg \<Rightarrow> bool) \<Rightarrow> IArg list \<Rightarrow> CORBA_TypeCode list" where
  "chosen_tcs P as = map arg_tc (filter P as)"

fun merge :: "(IArg \<Rightarrow> bool) \<Rightarrow> IArg list \<Rightarrow> cvalue option list \<Rightarrow> cvalue list \<Rightarrow> cvalue option list" where
  "merge P (a # as) (p # ps) vs =
     (if P a then Some (hd vs) # merge P as ps (tl vs) else p # merge P as ps vs)"
| "merge P _ ps vs = ps"

lemma marshal_alias: "ORBit_marshal_value env buf (SKIP_ALIAS tc) v = ORBit_marshal_value env buf tc v"
  by (cases v) (simp_all add: SKIP_ALIAS_idem)

lemma demarshal_alias: "ORBit_demarshal_value f (SKIP_ALIAS tc) buf = ORBit_demarshal_value f tc buf"
  by (cases f) (simp_all add: ORBit_demarshal_value.simps(2) SKIP_ALIAS_idem)

lemma demarshal_slot_alias:
  "demarshal_slot place ce buf (SKIP_ALIAS tc) =
   (case ORBit_demarshal_value (max_depth ce) tc buf of
      Inr (v, buf) \<Rightarrow> Inr (if place then Some v else allocated tc (Some v), buf)
    | Inl (TcRecv Malformed) \<Rightarrow> Inr (None, after_failure ce (SKIP_ALIAS tc) buf)
    | Inl e \<Rightarrow> Inl e)"
  by (auto simp: demarshal_slot_def ORBit_demarshal_arg_def do_demarshal_value_def demarshal_alias allocated_def
      ORBit_gather_alloc_info.simps [of tc] ORBit_gather_alloc_info.simps [of "SKIP_ALIAS tc"]
      split: sum.splits tc_dec_error.splits recv_error.splits)

text \<open>Types that take memory, for which a value is not a null pointer.\<close>

definition sized :: "CORBA_TypeCode list \<Rightarrow> bool" where
  "sized ts \<longleftrightarrow> list_all (\<lambda>t. ORBit_gather_alloc_info t \<noteq> 0) ts"

lemma sized_simps [simp]: "sized []" "sized (t # ts) \<longleftrightarrow> ORBit_gather_alloc_info t \<noteq> 0 \<and> sized ts"
  by (simp_all add: sized_def)

lemma marshal_where_values:
  "length as = length ps \<Longrightarrow> chosen P as ps = map Some vs \<Longrightarrow>
    marshal_where P env buf as ps = present (marshal_values env buf (chosen_tcs P as) vs)"
proof (induction as ps arbitrary: buf vs rule: list_induct2)
  case Nil
  then show ?case by (simp add: chosen_def chosen_tcs_def)
next
  case (Cons a as p ps)
  show ?case
  proof (cases "P a")
    case True
    with Cons.prems obtain v vs' where v: "vs = v # vs'" "p = Some v" "chosen P as ps = map Some vs'"
      by (cases vs) (auto simp: chosen_def)
    show ?thesis
      using Cons.IH [OF v(3)] True v
      by (cases "ORBit_marshal_value env buf (arg_tc a) v") (simp_all add: chosen_tcs_def marshal_alias)
  next
    case False
    with Cons show ?thesis by (simp add: chosen_def chosen_tcs_def)
  qed
qed

lemma reads_arg:
  assumes "cdr be off tc v xs" "vdepth v \<le> max_depth ce" "view be buf off (xs @ r)" "has_room 0 buf"
    and "length xs < 2 ^ 31"
  shows "ORBit_gather_alloc_info tc \<noteq> 0 \<Longrightarrow> reads be buf (demarshal_slot place ce buf tc) (Some v) (off + length xs) r"
    and "ORBit_gather_alloc_info tc \<noteq> 0 \<Longrightarrow>
      reads be buf (demarshal_slot place ce buf (SKIP_ALIAS tc)) (Some v) (off + length xs) r"
    and "reads be buf (ORBit_demarshal_arg ce buf tc) (allocated tc (Some v)) (off + length xs) r"
  using demarshal_value_cdr(1) [OF assms]
  by (auto simp: reads_def demarshal_slot_alias, auto simp: reads_def demarshal_slot_def ORBit_demarshal_arg_def
      do_demarshal_value_def allocated_def)

text \<open>The slots of arguments that were all read.\<close>

fun read_slots :: "IArg list \<Rightarrow> cvalue list \<Rightarrow> slot list" where
  "read_slots [] vs = []"
| "read_slots (a # as) vs =
     (if arg_sent a then Held (hd vs) # read_slots as (tl vs) else Slot_out # read_slots as vs)"

lemma demarshal_ins_cdr:
  assumes "cdrs be off (chosen_tcs arg_sent as) vs xs" "vdepths vs \<le> max_depth ce"
    "view be buf off (xs @ r)" "has_room 0 buf" "length xs < 2 ^ 31" "sized (chosen_tcs arg_sent as)"
  shows "\<exists>c. demarshal_ins ce as buf = Inr (False, read_slots as vs, buf\<lparr>rcur := c\<rparr>)"
  using assms
proof (induction as arbitrary: off vs xs buf)
  case Nil
  then show ?case by (intro exI [of _ "rcur buf"]) simp
next
  case (Cons a as)
  show ?case
  proof (cases "arg_sent a")
    case True
    with Cons.prems(1) obtain v vs' ys zs where
      v: "vs = v # vs'" "xs = ys @ zs" "cdr be off (arg_tc a) v ys"
      "cdrs be (off + length ys) (chosen_tcs arg_sent as) vs' zs"
      by (auto simp: chosen_tcs_def elim!: cdrs_ConsE)
    have "ORBit_gather_alloc_info (arg_tc a) \<noteq> 0" "sized (chosen_tcs arg_sent as)"
      using Cons.prems(6) True by (simp_all add: chosen_tcs_def)
    note sz = this
    have "reads be buf (demarshal_slot (in_place a) ce buf (arg_tc a)) (Some v) (off + length ys) (zs @ r)"
      by (rule reads_arg(1) [OF v(3) _ _ _ _ sz(1)]) (use Cons.prems v in auto)
    then obtain c where c: "demarshal_slot (in_place a) ce buf (arg_tc a) = Inr (Some v, buf\<lparr>rcur := c\<rparr>)"
      "view be (buf\<lparr>rcur := c\<rparr>) (off + length ys) (zs @ r)" "has_room 0 (buf\<lparr>rcur := c\<rparr>)"
      by (auto simp: reads_def)
    have "vdepths vs' \<le> max_depth ce" using Cons.prems(2) v(1) by simp
    moreover have "length zs < 2 ^ 31" using Cons.prems(5) v(2) by simp
    ultimately obtain d where
      "demarshal_ins ce as (buf\<lparr>rcur := c\<rparr>) = Inr (False, read_slots as vs', buf\<lparr>rcur := d\<rparr>)"
      using Cons.IH [OF v(4) _ c(2,3) _ sz(2)] by auto
    then show ?thesis using True v c(1) by auto
  next
    case False
    with Cons.IH [of off vs xs buf] Cons.prems show ?thesis
      by (auto simp: chosen_tcs_def)
  qed
qed

lemma read_slots_clean: "clean_args as (read_slots as vs) = Inr ()"
proof -
  have "\<not> list_ex (\<lambda>(a, s). frees_through a s) (zip as (read_slots as vs))"
    by (induction as arbitrary: vs) (auto simp: frees_through_def)
  then show ?thesis by (simp add: clean_args_def)
qed

lemma read_slots_values: "map slot_value (read_slots as vs) = merge arg_sent as (replicate (length as) None) vs"
  by (induction as arbitrary: vs) auto

lemma demarshal_outs_cdr:
  assumes "length as = length ps" "cdrs be off (chosen_tcs arg_returned as) vs xs" "vdepths vs \<le> max_depth ce"
    "view be buf off (xs @ r)" "has_room 0 buf" "length xs < 2 ^ 31" "sized (chosen_tcs arg_returned as)"
  shows "demarshal_outs ce as ps buf = Inr (False, merge arg_returned as ps vs)"
  using assms
proof (induction as ps arbitrary: off vs xs buf rule: list_induct2)
  case Nil
  then show ?case by simp
next
  case (Cons a as p ps)
  show ?case
  proof (cases "arg_returned a")
    case True
    with Cons.prems(1) obtain v vs' ys zs where
      v: "vs = v # vs'" "xs = ys @ zs" "cdr be off (arg_tc a) v ys"
      "cdrs be (off + length ys) (chosen_tcs arg_returned as) vs' zs"
      by (auto simp: chosen_tcs_def elim!: cdrs_ConsE)
    have "ORBit_gather_alloc_info (arg_tc a) \<noteq> 0" "sized (chosen_tcs arg_returned as)"
      using Cons.prems(6) True by (simp_all add: chosen_tcs_def)
    note sz = this
    have "reads be buf (demarshal_slot (out_in_place a) ce buf (SKIP_ALIAS (arg_tc a))) (Some v) (off + length ys) (zs @ r)"
      by (rule reads_arg(2) [OF v(3) _ _ _ _ sz(1)]) (use Cons.prems v in auto)
    then obtain c where c: "demarshal_slot (out_in_place a) ce buf (SKIP_ALIAS (arg_tc a)) = Inr (Some v, buf\<lparr>rcur := c\<rparr>)"
      "view be (buf\<lparr>rcur := c\<rparr>) (off + length ys) (zs @ r)" "has_room 0 (buf\<lparr>rcur := c\<rparr>)"
      by (auto simp: reads_def)
    have "vdepths vs' \<le> max_depth ce" using Cons.prems(2) v(1) by simp
    moreover have "length zs < 2 ^ 31" using Cons.prems(5) v(2) by simp
    ultimately show ?thesis using Cons.IH [OF v(4) _ c(2,3) _ sz(2)] True v(1) c(1) by simp
  next
    case False
    with Cons.IH [of off vs xs buf] Cons.prems show ?thesis by (simp add: chosen_tcs_def)
  qed
qed

section \<open>Exceptions\<close>

lemma view_mem:
  assumes "view be buf off xs"
  shows "\<exists>t. drop (unat (rcur buf - message_body buf)) (body_mem buf) = xs @ t"
proof -
  have le: "message_body buf \<le> rcur buf" using assms by (simp add: view_def word_le_nat_alt)
  have o: "unat (rcur buf - message_body buf) = off" using assms unat_sub [OF le] by (simp add: view_def)
  define n where "n = unat (rend buf) - unat (message_body buf)"
  have "drop off (body_mem buf) = drop off (take n (body_mem buf)) @
      drop (off - length (take n (body_mem buf))) (drop n (body_mem buf))"
    by (metis append_take_drop_id drop_append)
  moreover have "drop off (take n (body_mem buf)) = xs" using assms by (simp add: view_def n_def)
  ultimately show ?thesis using o by auto
qed

lemma same_c_string_eq: "0 \<notin> set t \<Longrightarrow> 0 \<notin> set s \<Longrightarrow> same_c_string t (s @ 0 # r) = Inr (t = s)"
proof (induction t arbitrary: s)
  case Nil
  then show ?case by (cases s) auto
next
  case (Cons c t)
  then show ?case by (cases s) auto
qed

lemma find_exception_listed:
  assumes "view be buf off (s @ 0 # r)" "0 \<notin> set s" "\<forall>t \<in> set types. 0 \<notin> set (repo_id t)"
  shows "find_exception buf (rcur buf) types = Inr (List.find (\<lambda>t. repo_id t = s) types)"
proof -
  obtain u where u: "drop (unat (rcur buf - message_body buf)) (body_mem buf) = s @ 0 # u"
    using view_mem [OF assms(1)] by auto
  have "strcmp_at buf (repo_id t) (rcur buf) = Inr (repo_id t = s)" if "t \<in> set types" for t
    using same_c_string_eq assms(2,3) that by (simp add: strcmp_at_def u)
  then show ?thesis by (induction types) auto
qed

lemma same_memory:
  "message_body b = message_body buf \<Longrightarrow> body_mem b = body_mem buf \<Longrightarrow> c_string b p = c_string buf p"
  "message_body b = message_body buf \<Longrightarrow> body_mem b = body_mem buf \<Longrightarrow>
    find_exception b p types = find_exception buf p types"
  by (simp add: c_string_def) (induction types, simp_all add: strcmp_at_def cong: if_cong)

text \<open>A string with its length, as \<open>giop_send_buffer_append_string\<close> writes it.\<close>

definition string_at :: "nat \<Rightarrow> byte list \<Rightarrow> byte list \<Rightarrow> bool" where
  "string_at off s xs \<longleftrightarrow> (\<exists>p. length p = pad 4 off \<and> xs = p @ le32 (of_nat (length s + 1)) @ s @ [0])"

lemma exception_id_read:
  assumes x: "string_at off s xs" and v: "view False buf off (xs @ r)"
    and s: "0 \<notin> set s" "length s + 1 < 2 ^ 32"
  obtains len c d where "demarshal_ulong buf = Inr (len, buf\<lparr>rcur := c\<rparr>)" "len \<noteq> 0"
    "c_string (buf\<lparr>rcur := c\<rparr>) c = Inr s"
    "\<And>types. \<forall>t \<in> set types. 0 \<notin> set (repo_id t) \<Longrightarrow>
       find_exception (buf\<lparr>rcur := c\<rparr>) c types = Inr (List.find (\<lambda>t. repo_id t = s) types)"
    "advance (ucast len) (buf\<lparr>rcur := c\<rparr>) = buf\<lparr>rcur := d\<rparr>"
    "view False (buf\<lparr>rcur := d\<rparr>) (off + length xs) r" "has_room 0 (buf\<lparr>rcur := d\<rparr>)"
proof -
  let ?len = "of_nat (length s + 1) :: u32"
  obtain p where p: "length p = pad 4 off" "xs = p @ le32 ?len @ s @ [0]" using x by (auto simp: string_at_def)
  have v1: "view False buf off (p @ enc32 False ?len @ (s @ [0]) @ r)"
    using v by (simp add: p(2) enc32_def)
  obtain c where c: "demarshal_ulong buf = Inr (?len, buf\<lparr>rcur := c\<rparr>)"
    "view False (buf\<lparr>rcur := c\<rparr>) (off + length p + 4) ((s @ [0]) @ r)"
    using reads_ulong [OF v1 p(1)] by (auto simp: reads_def)
  have l: "unat ?len = length s + 1" using s(2) by (simp only: unat_of_nat) simp
  then have l0: "?len \<noteq> 0" by auto
  have u: "unat (ucast ?len :: u64) = length (s @ [0])"
    using l by (simp add: unsigned_ucast_eq take_bit_nat_eq_self unsigned_less)
  let ?b = "buf\<lparr>rcur := c\<rparr>"
  have room: "has_room (length (s @ [0])) ?b" by (rule view_room [OF c(2)]) simp_all
  have a: "advance (ucast ?len) ?b = buf\<lparr>rcur := c + ucast ?len\<rparr>" by simp
  have d: "view False (advance (ucast ?len) ?b) (off + length xs) r"
    using view_advance [OF c(2), of "ucast ?len"] room u by (simp add: p(2) add.assoc)
  have v2: "view False ?b (off + length p + 4) (s @ 0 # r)" using c(2) by simp
  have e: "rcur ?b = c" by simp
  show thesis
  proof (rule that [OF c(1) l0])
    show "c_string ?b c = Inr s" using view_c_string [OF v2 s(1)] by simp
    show "find_exception ?b c types = Inr (List.find (\<lambda>t. repo_id t = s) types)"
      if "\<forall>t \<in> set types. 0 \<notin> set (repo_id t)" for types
      using find_exception_listed [OF v2 s(1) that] by simp
    show "advance (ucast ?len) ?b = buf\<lparr>rcur := c + ucast ?len\<rparr>" by (rule a)
    show "view False (buf\<lparr>rcur := c + ucast ?len\<rparr>) (off + length xs) r" using d unfolding a .
    show "has_room 0 (buf\<lparr>rcur := c + ucast ?len\<rparr>)"
      using view_advance [OF c(2), of "ucast ?len"] room u unfolding a by simp
  qed
qed

text \<open>The two integers of a system exception.\<close>

definition ulong_at :: "nat \<Rightarrow> u32 \<Rightarrow> byte list \<Rightarrow> bool" where
  "ulong_at off w xs \<longleftrightarrow> (\<exists>p. length p = pad 4 off \<and> xs = p @ le32 w)"

lemma reads_ulong_at:
  assumes "ulong_at off w xs" "view False buf off (xs @ r)"
  shows "reads False buf (demarshal_ulong buf) w (off + length xs) r"
proof -
  obtain p where p: "length p = pad 4 off" "xs = p @ le32 w" using assms(1) by (auto simp: ulong_at_def)
  have "view False buf off (p @ enc32 False w @ r)" using assms(2) by (simp add: p(2) enc32_def)
  from reads_ulong [OF this p(1)] show ?thesis by (simp add: p(2) add.assoc)
qed

lemma system_exception_read:
  assumes x: "string_at off s xs" "ulong_at (off + length xs) minor ys"
      "ulong_at (off + length xs + length ys) completed zs"
    and v: "view False buf off (xs @ ys @ zs)" and s: "0 \<notin> set s" "length s + 1 < 2 ^ 32"
    and st: "giop_recv_buffer_reply_status buf = 2"
  shows "ORBit_handle_exception_array ce buf types = Inr (SYSTEM_EXCEPTION (Some s) minor completed)"
proof -
  obtain len c d where i: "demarshal_ulong buf = Inr (len, buf\<lparr>rcur := c\<rparr>)" "len \<noteq> 0"
    "c_string (buf\<lparr>rcur := c\<rparr>) c = Inr s" "advance (ucast len) (buf\<lparr>rcur := c\<rparr>) = buf\<lparr>rcur := d\<rparr>"
    "view False (buf\<lparr>rcur := d\<rparr>) (off + length xs) (ys @ zs)"
    using exception_id_read [OF x(1) v s] by metis
  from reads_ulong_at [OF x(2) i(5)] obtain e where e: "demarshal_ulong (buf\<lparr>rcur := d\<rparr>) = Inr (minor, buf\<lparr>rcur := e\<rparr>)"
    "view False (buf\<lparr>rcur := e\<rparr>) (off + length xs + length ys) zs" by (auto simp: reads_def)
  from reads_ulong_at [OF x(3), of "buf\<lparr>rcur := e\<rparr>" "[]"] e(2) obtain f where
    f: "demarshal_ulong (buf\<lparr>rcur := e\<rparr>) = Inr (completed, buf\<lparr>rcur := f\<rparr>)" by (auto simp: reads_def)
  have "c_string (buf\<lparr>rcur := f\<rparr>) c = Inr s" using i(3) same_memory(1) [of "buf\<lparr>rcur := f\<rparr>" "buf\<lparr>rcur := c\<rparr>" c] by simp
  then have "system_exception (buf\<lparr>rcur := d\<rparr>) (Some c) = Inr (SYSTEM_EXCEPTION (Some s) minor completed)"
    by (simp add: system_exception_def e f)
  moreover have "rcur (buf\<lparr>rcur := c\<rparr>) = c" by simp
  ultimately show ?thesis
    unfolding ORBit_handle_exception_array_def i(1) sum.case prod.case Let_def if_not_P [OF i(2)] i(4) st by simp
qed

lemma user_exception_read:
  assumes x: "string_at off s xs" and t: "List.find (\<lambda>t. repo_id t = s) types = Some t"
    and y: "cdr False (off + length xs) t val ys" "vdepth val \<le> max_depth ce" "length ys < 2 ^ 31"
    and v: "view False buf off (xs @ ys)" and s: "0 \<notin> set s" "length s + 1 < 2 ^ 32"
    and ids: "\<forall>t \<in> set types. 0 \<notin> set (repo_id t)"
    and st: "giop_recv_buffer_reply_status buf = 1"
  shows "ORBit_handle_exception_array ce buf types = Inr (USER_EXCEPTION s (allocated t (Some val)))"
proof -
  obtain len c d where i: "demarshal_ulong buf = Inr (len, buf\<lparr>rcur := c\<rparr>)" "len \<noteq> 0"
    "find_exception (buf\<lparr>rcur := c\<rparr>) c types = Inr (Some t)"
    "advance (ucast len) (buf\<lparr>rcur := c\<rparr>) = buf\<lparr>rcur := d\<rparr>"
    "view False (buf\<lparr>rcur := d\<rparr>) (off + length xs) ys" "has_room 0 (buf\<lparr>rcur := d\<rparr>)"
    using exception_id_read [OF x v s] ids t by metis
  have f: "find_exception (buf\<lparr>rcur := d\<rparr>) c types = Inr (Some t)"
    using i(3) same_memory(2) [of "buf\<lparr>rcur := d\<rparr>" "buf\<lparr>rcur := c\<rparr>" c types] by simp
  have id: "repo_id t = s" using t by (auto simp: find_Some_iff)
  have "reads False (buf\<lparr>rcur := d\<rparr>) (ORBit_demarshal_arg ce (buf\<lparr>rcur := d\<rparr>) t) (allocated t (Some val))
      (off + length xs + length ys) []"
    by (rule reads_arg(3) [OF y(1,2) _ _ y(3)]) (use i in simp_all)
  then obtain e where "ORBit_demarshal_arg ce (buf\<lparr>rcur := d\<rparr>) t = Inr (allocated t (Some val), buf\<lparr>rcur := e\<rparr>)"
    by (auto simp: reads_def)
  then have "user_exception ce types (buf\<lparr>rcur := d\<rparr>) (Some c) = Inr (USER_EXCEPTION s (allocated t (Some val)))"
    by (simp add: user_exception_def f id)
  moreover have "rcur (buf\<lparr>rcur := c\<rparr>) = c" by simp
  ultimately show ?thesis
    unfolding ORBit_handle_exception_array_def i(1) sum.case prod.case Let_def if_not_P [OF i(2)] i(4) st by simp
qed

end
