(* ===== verification/Call_Roundtrip.thy ===== *)
theory Call_Roundtrip
  imports Call_Transfer
begin

text \<open>
  A call from end to end: what the stub sends the skeleton hands to the method, and what
  the method leaves the stub returns.
\<close>

section \<open>The result of a call\<close>

text \<open>
  What the caller is promised, given what the method leaves: its results, its exception if
  it is declared, and otherwise UNKNOWN. An exception without members has a null pointer for its
  value.
\<close>

definition call_result :: "IMethod \<Rightarrow> method_outcome \<Rightarrow> cvalue option list \<Rightarrow> reply_outcome" where
  "call_result m mo args = (case mo_ev mo of
     NO_EXCEPTION \<Rightarrow>
       \<lparr>ro_type = MARSHAL_CLEAN, ro_ev = NO_EXCEPTION,
        ro_ret = (if has_result m = None then None else mo_ret mo),
        ro_args = merge arg_returned (im_arguments m) args
          (map the (chosen arg_returned (im_arguments m) (mo_args mo)))\<rparr>
   | USER_EXCEPTION s val \<Rightarrow>
       \<lparr>ro_type = MARSHAL_EXCEPTION_COMPLETE,
        ro_ev = (case listed_exception (im_exceptions m) s of
                   None \<Rightarrow> undeclared_exception
                 | Some t \<Rightarrow> USER_EXCEPTION s (allocated t (Some (exception_value val)))),
        ro_ret = None, ro_args = args\<rparr>
   | SYSTEM_EXCEPTION _ _ _ \<Rightarrow>
       \<lparr>ro_type = MARSHAL_EXCEPTION_COMPLETE, ro_ev = mo_ev mo, ro_ret = None, ro_args = args\<rparr>)"

text \<open>The values a method leaves are of the types of its signature, none of which is empty.\<close>

definition values_ok :: "CORBA_TypeCode list \<Rightarrow> cvalue list \<Rightarrow> bool" where
  "values_ok ts vs \<longleftrightarrow> has_types ts vs \<and> list_all plain vs \<and> sized ts"

definition result_tcs :: "IMethod \<Rightarrow> CORBA_TypeCode list" where
  "result_tcs m = (case has_result m of None \<Rightarrow> [] | Some tc \<Rightarrow> [tc]) @ chosen_tcs arg_returned (im_arguments m)"

definition result_values :: "IMethod \<Rightarrow> method_outcome \<Rightarrow> cvalue option list" where
  "result_values m mo = (if has_result m = None then [] else [mo_ret mo]) @
     chosen arg_returned (im_arguments m) (mo_args mo)"

definition outcome_values :: "IMethod \<Rightarrow> method_outcome \<Rightarrow> cvalue list" where
  "outcome_values m mo = (case mo_ev mo of
     NO_EXCEPTION \<Rightarrow> map the (result_values m mo)
   | USER_EXCEPTION s val \<Rightarrow> [VString s, exception_value val]
   | SYSTEM_EXCEPTION s _ _ \<Rightarrow> [VString (the s), V32 0, V32 0])"

definition outcome_ok :: "IMethod \<Rightarrow> method_outcome \<Rightarrow> bool" where
  "outcome_ok m mo \<longleftrightarrow> (case mo_ev mo of
     NO_EXCEPTION \<Rightarrow>
       length (mo_args mo) = length (im_arguments m) \<and> None \<notin> set (result_values m mo) \<and>
       values_ok (result_tcs m) (outcome_values m mo)
   | USER_EXCEPTION s val \<Rightarrow>
       0 \<notin> set s \<and> (\<forall>t \<in> set (im_exceptions m). 0 \<notin> set (repo_id t)) \<and>
       (\<forall>t. listed_exception (im_exceptions m) s = Some t \<longrightarrow>
          has_type t (exception_value val) \<and> plain (exception_value val))
   | SYSTEM_EXCEPTION s _ _ \<Rightarrow> (\<exists>t. s = Some t \<and> 0 \<notin> set t))"

section \<open>The answer\<close>

text \<open>
  \<open>answers env ce v rid m mo args n b\<close>: the buffer \<open>b\<close> is a reply to the request whose
  contents, at most \<open>n\<close> bytes, a stub that reads them turns into the promised result.
\<close>

definition answers :: "SendEnv \<Rightarrow> call_env \<Rightarrow> GIOPVersion \<Rightarrow> u32 \<Rightarrow> IMethod \<Rightarrow> method_outcome \<Rightarrow> cvalue option list \<Rightarrow>
    nat \<Rightarrow> GIOPSendBuffer \<Rightarrow> bool" where
  "answers env ce v rid m mo args n b \<longleftrightarrow>
     (\<exists>sbl status results.
        (\<forall>b \<in> set sbl. pool_ok b) \<and> length results \<le> n \<and>
        builds env v GIOP_REPLY (payload env (fst (giop_send_buffer_use_reply env sbl v rid status)) @ results) b \<and>
        (\<forall>r fw. view False r (12 + length (payload env b) - length results) results \<longrightarrow> has_room 0 r \<longrightarrow>
           giop_recv_buffer_reply_status r = status \<longrightarrow>
           orbit_small_demarshal ce fw (Some r) m args = Inr (call_result m mo args)))"

lemma use_reply_pool:
  assumes "\<forall>b \<in> set sbl. pool_ok b"
  shows "\<forall>b \<in> set (snd (giop_send_buffer_use_reply env sbl v rid st)). pool_ok b"
proof -
  have "snd (giop_send_buffer_use_reply env sbl v rid st) = snd (giop_send_buffer_use env sbl v)"
    by (cases v) (simp_all add: giop_send_buffer_use_reply_def Let_def split: prod.split)
  then show ?thesis using use_builds(2) [OF assms] by simp
qed

lemma unuse_pool:
  "builds env v mt bs b \<Longrightarrow> \<forall>b \<in> set sbl. pool_ok b \<Longrightarrow> \<forall>b \<in> set (giop_send_buffer_unuse sbl b). pool_ok b"
  using unuse_pool_ok by (auto simp: giop_send_buffer_unuse_def)

lemma map_Some_the: "None \<notin> set ps \<Longrightarrow> map Some (map the ps) = ps"
  by (induction ps) auto

lemma marshal_results_values:
  assumes "length (mo_args mo) = length (im_arguments m)" "None \<notin> set (result_values m mo)"
  shows "marshal_results env m (mo_ret mo) (mo_args mo) buf =
    present (marshal_values env buf (result_tcs m) (map the (result_values m mo)))"
proof -
  have "None \<notin> set (chosen arg_returned (im_arguments m) (mo_args mo))"
    using assms(2) by (simp add: result_values_def)
  note w = marshal_where_values [OF assms(1) [symmetric] map_Some_the [OF this, symmetric]]
  show ?thesis
  proof (cases "has_result m")
    case None
    then show ?thesis by (simp add: marshal_results_def result_tcs_def result_values_def w)
  next
    case (Some tc)
    then obtain v where v: "mo_ret mo = Some v" using assms(2) by (cases "mo_ret mo") (simp_all add: result_values_def)
    show ?thesis
      using Some v by (cases "ORBit_marshal_value env buf tc v")
        (simp_all add: marshal_results_def result_tcs_def result_values_def w)
  qed
qed

text \<open>What the answer needs: typed values, a depth and a size.\<close>

definition transferable :: "call_env \<Rightarrow> IMethod \<Rightarrow> method_outcome \<Rightarrow> bool" where
  "transferable ce m mo \<longleftrightarrow> outcome_ok m mo \<and> vdepths (outcome_values m mo) \<le> max_depth ce \<and>
     vbounds (outcome_values m mo) < 2 ^ 31"

lemma answersI:
  assumes "\<forall>b \<in> set sbl. pool_ok b" "length results \<le> n"
    "builds env v GIOP_REPLY (payload env (fst (giop_send_buffer_use_reply env sbl v rid status)) @ results) b"
    "\<And>r fw. view False r (12 + length (payload env (fst (giop_send_buffer_use_reply env sbl v rid status)))) results \<Longrightarrow>
       has_room 0 r \<Longrightarrow> giop_recv_buffer_reply_status r = status \<Longrightarrow>
       orbit_small_demarshal ce fw (Some r) m args = Inr (call_result m mo args)"
  shows "answers env ce v rid m mo args n b"
proof -
  have "payload env b = payload env (fst (giop_send_buffer_use_reply env sbl v rid status)) @ results"
    using assms(3) by (simp add: builds_def)
  with assms show ?thesis unfolding answers_def by (intro exI [of _ sbl] exI [of _ status] exI [of _ results]) simp
qed

lemma results_read:
  assumes v: "view False r off xs" "has_room 0 r" "giop_recv_buffer_reply_status r = 0"
    and x: "cdrs False off (result_tcs m) (map the (result_values m mo)) xs"
    and d: "vdepths (map the (result_values m mo)) \<le> max_depth ce"
    and o: "None \<notin> set (result_values m mo)" and no: "mo_ev mo = NO_EXCEPTION"
    and l: "length args = length (im_arguments m)" and sz: "length xs < 2 ^ 31" "sized (result_tcs m)"
  shows "orbit_small_demarshal ce fw (Some r) m args = Inr (call_result m mo args)"
proof (cases "has_result m")
  case None
  have "demarshal_outs ce (im_arguments m) args r =
      Inr (False, merge arg_returned (im_arguments m) args (map the (result_values m mo)))"
    by (rule demarshal_outs_cdr [OF l [symmetric] _ d, where off = off and xs = xs and r = "[]" and be = False])
      (use v x None sz in \<open>simp_all add: result_tcs_def\<close>)
  then show ?thesis
    using None no v(3) by (simp add: orbit_small_demarshal_def demarshal_results_def call_result_def result_values_def)
next
  case (Some tc)
  let ?vs = "map the (chosen arg_returned (im_arguments m) (mo_args mo))"
  obtain w where w: "mo_ret mo = Some w"
    using o Some by (cases "mo_ret mo") (simp_all add: result_values_def)
  from x obtain ys zs where y: "xs = ys @ zs" "cdr False off tc w ys"
    "cdrs False (off + length ys) (chosen_tcs arg_returned (im_arguments m)) ?vs zs"
    by (auto simp: result_tcs_def result_values_def Some w elim!: cdrs_ConsE)
  have dw: "vdepth w \<le> max_depth ce" "vdepths ?vs \<le> max_depth ce"
    using d by (simp_all add: result_values_def Some w)
  have s: "ORBit_gather_alloc_info tc \<noteq> 0" "sized (chosen_tcs arg_returned (im_arguments m))" "length zs < 2 ^ 31"
    using sz y(1) by (simp_all add: result_tcs_def Some)
  let ?place = "base_type (tc_kind (SKIP_ALIAS tc)) \<or> obj_string_type (tc_kind (SKIP_ALIAS tc)) \<or>
     struct_union_type (tc_kind (SKIP_ALIAS tc)) \<and> has_flag (im_flags m) I_COMMON_FIXED_SIZE"
  have "reads False r (demarshal_slot ?place ce r (SKIP_ALIAS tc)) (Some w) (off + length ys) zs"
    by (rule reads_arg(2) [OF y(2) dw(1) _ _ _ s(1)]) (use v y(1) sz(1) in simp_all)
  then obtain c where c: "demarshal_slot ?place ce r (SKIP_ALIAS tc) = Inr (Some w, r\<lparr>rcur := c\<rparr>)"
    "view False (r\<lparr>rcur := c\<rparr>) (off + length ys) zs" "has_room 0 (r\<lparr>rcur := c\<rparr>)"
    by (auto simp: reads_def)
  have "demarshal_outs ce (im_arguments m) args (r\<lparr>rcur := c\<rparr>) =
      Inr (False, merge arg_returned (im_arguments m) args ?vs)"
    by (rule demarshal_outs_cdr [OF l [symmetric] y(3) dw(2) _ _ s(3,2), where r = "[]"]) (use c in simp_all)
  then show ?thesis
    using Some w no v(3) c(1)
    by (simp add: orbit_small_demarshal_def demarshal_results_def call_result_def Let_def)
qed

lemma results_answer:
  assumes ok: "transferable ce m mo" and no: "mo_ev mo = NO_EXCEPTION" and pool: "\<forall>b \<in> set sbl. pool_ok b"
    and l: "length args = length (im_arguments m)"
  shows "\<exists>b sbl'. handle_possible_exception env sbl v rid m mo = Inr (b, sbl') \<and> (\<forall>b \<in> set sbl'. pool_ok b) \<and>
    answers env ce v rid m mo args (vbounds (outcome_values m mo) + 100) b"
proof -
  let ?b0 = "fst (giop_send_buffer_use_reply env sbl v rid 0)" and ?vs = "map the (result_values m mo)"
  note u = use_reply_builds [OF pool, of env v rid 0]
  have o: "length (mo_args mo) = length (im_arguments m)" "None \<notin> set (result_values m mo)"
    "has_types (result_tcs m) ?vs" "list_all plain ?vs" "sized (result_tcs m)" "vdepths ?vs \<le> max_depth ce" "vbounds ?vs < 2 ^ 31"
    and ov: "outcome_values m mo = ?vs"
    using ok no by (auto simp: transferable_def outcome_ok_def outcome_values_def values_ok_def)
  obtain b where b: "marshal_values env ?b0 (result_tcs m) ?vs = Some b"
    using marshal_value_total(2) [OF o(3,4)] by blast
  have "length (payload env ?b0) + 12 + vbounds ?vs < 2 ^ 32" using u(3) o(7) by simp
  from marshal_value_cdr(2) [OF b u(1,2) o(4) has_types_length [OF o(3)] this] obtain xs where
    x: "cdrs False (12 + length (payload env ?b0)) (result_tcs m) ?vs xs"
    "builds env v GIOP_REPLY (payload env ?b0 @ xs) b" "length xs \<le> vbounds ?vs"
    by (auto simp: writes_def)
  have lx: "length xs < 2 ^ 31" using x(3) o(7) by simp
  have "handle_possible_exception env sbl v rid m mo = Inr (b, snd (giop_send_buffer_use_reply env sbl v rid 0))"
    using marshal_results_values [OF o(1,2), of env ?b0] b no
    by (simp add: handle_possible_exception_def case_prod_beta)
  moreover have "answers env ce v rid m mo args (vbounds ?vs + 100) b"
    by (rule answersI [OF pool trans_le_add1 [OF x(3)] x(2) results_read [OF _ _ _ x(1) o(6,2) no l lx o(5)]])
  ultimately show ?thesis using use_reply_pool [OF pool] ov by auto
qed

lemma id_written:
  assumes "builds env v mt pl b" "length pl + length s + 28 < 2 ^ 32"
  obtains xs where "string_at (12 + length pl) s xs" "builds env v mt (pl @ xs) (append_id env b s)"
    "length xs \<le> length s + 8"
proof -
  obtain p where p: "length p = pad 4 (12 + length pl)"
    "builds env v mt (pl @ p @ le32 (of_nat (length s + 1)) @ s @ [0]) (append_id env b s)"
    unfolding append_id_def by (rule builds_string [OF assms])
  then show thesis
    using that [of "p @ le32 (of_nat (length s + 1)) @ s @ [0]"] pad_le(2) [of "12 + length pl"]
    by (auto simp: string_at_def)
qed

lemma ulong_written:
  assumes "builds env v mt pl b" "length pl + 12 < 2 ^ 32"
  obtains ys where "ulong_at (12 + length pl) w ys" "builds env v mt (pl @ ys) (append_prim env b (le32 w))"
    "length ys \<le> 7"
proof -
  obtain p where p: "length p = pad 4 (12 + length pl)" "builds env v mt (pl @ p @ le32 w) (append_prim env b (le32 w))"
    by (rule builds_prim [OF assms, of 4 "le32 w"]) simp_all
  then show thesis
    using that [of "p @ le32 w"] pad_le(2) [of "12 + length pl"] by (auto simp: ulong_at_def)
qed

lemma system_answer:
  fixes env :: SendEnv and v :: GIOPVersion and rid :: u32
  assumes pool: "\<forall>b \<in> set sbl. pool_ok b" and s: "length s < 2 ^ 31"
  defines "pl \<equiv> payload env (fst (giop_send_buffer_use_reply env sbl v rid 2))"
  obtains b xs ys zs where
    "answer_system env sbl v rid (SYSTEM_EXCEPTION (Some s) minor completed) =
       Inr (b, snd (giop_send_buffer_use_reply env sbl v rid 2))"
    "length (xs @ ys @ zs) \<le> length s + 30" "builds env v GIOP_REPLY (pl @ xs @ ys @ zs) b"
    "string_at (12 + length pl) s xs" "ulong_at (12 + length pl + length xs) minor ys"
    "ulong_at (12 + length pl + length xs + length ys) completed zs"
proof -
  let ?b0 = "fst (giop_send_buffer_use_reply env sbl v rid 2)"
  note u = use_reply_builds [OF pool, of env v rid 2, folded pl_def]
  have sz: "length pl + length s + 28 < 2 ^ 32" using u(3) s by simp
  obtain xs where x: "string_at (12 + length pl) s xs"
    "builds env v GIOP_REPLY (pl @ xs) (append_id env ?b0 s)" "length xs \<le> length s + 8"
    by (rule id_written [OF u(1) sz])
  let ?b1 = "append_id env ?b0 s"
  have l1: "length (pl @ xs) + 12 < 2 ^ 32" using u(3) s x(3) by simp
  obtain ys where y: "ulong_at (12 + length (pl @ xs)) minor ys"
    "builds env v GIOP_REPLY ((pl @ xs) @ ys) (append_prim env ?b1 (le32 minor))" "length ys \<le> 7"
    by (rule ulong_written [OF x(2) l1])
  let ?b2 = "append_prim env ?b1 (le32 minor)"
  have l2: "length ((pl @ xs) @ ys) + 12 < 2 ^ 32" using u(3) s x(3) y(3) by simp
  obtain zs where z: "ulong_at (12 + length ((pl @ xs) @ ys)) completed zs"
    "builds env v GIOP_REPLY (((pl @ xs) @ ys) @ zs) (append_prim env ?b2 (le32 completed))" "length zs \<le> 7"
    by (rule ulong_written [OF y(2) l2])
  show thesis
  proof (rule that [of "append_prim env ?b2 (le32 completed)" xs ys zs])
    show "answer_system env sbl v rid (SYSTEM_EXCEPTION (Some s) minor completed) =
        Inr (append_prim env ?b2 (le32 completed), snd (giop_send_buffer_use_reply env sbl v rid 2))"
      by (simp add: answer_system_def ORBit_send_system_exception_def case_prod_beta)
  qed (use x y z in \<open>simp_all add: add.assoc\<close>)
qed

lemma system_answer_read:
  assumes pool: "\<forall>b \<in> set sbl. pool_ok b" and s: "length s < 2 ^ 31" "0 \<notin> set s"
    and cr: "call_result m mo args = \<lparr>ro_type = MARSHAL_EXCEPTION_COMPLETE,
        ro_ev = SYSTEM_EXCEPTION (Some s) minor completed, ro_ret = None, ro_args = args\<rparr>"
    and n: "length s + 30 \<le> n"
  shows "\<exists>b sbl'. answer_system env sbl v rid (SYSTEM_EXCEPTION (Some s) minor completed) = Inr (b, sbl') \<and>
    (\<forall>b \<in> set sbl'. pool_ok b) \<and> answers env ce v rid m mo args n b"
proof -
  let ?pl = "payload env (fst (giop_send_buffer_use_reply env sbl v rid 2))"
  obtain b xs ys zs where
    b: "answer_system env sbl v rid (SYSTEM_EXCEPTION (Some s) minor completed) =
        Inr (b, snd (giop_send_buffer_use_reply env sbl v rid 2))"
      "length (xs @ ys @ zs) \<le> length s + 30" "builds env v GIOP_REPLY (?pl @ xs @ ys @ zs) b"
    and x: "string_at (12 + length ?pl) s xs" "ulong_at (12 + length ?pl + length xs) minor ys"
      "ulong_at (12 + length ?pl + length xs + length ys) completed zs"
    by (rule system_answer [OF pool s(1)])
  have l: "length s + 1 < 2 ^ 32" using s(1) by simp
  have "orbit_small_demarshal ce fw (Some r) m args = Inr (call_result m mo args)"
    if r: "view False r (12 + length ?pl) (xs @ ys @ zs)" "giop_recv_buffer_reply_status r = 2" for r fw
    using system_exception_read [OF x r(1) s(2) l r(2)] r(2) by (simp add: orbit_small_demarshal_def cr)
  with answersI [OF pool le_trans [OF b(2) n] b(3)] b(1) use_reply_pool [OF pool] show ?thesis by blast
qed

lemma user_answer:
  assumes pool: "\<forall>b \<in> set sbl. pool_ok b" and s: "length s + vbound val < 2 ^ 31" "0 \<notin> set s"
    and t: "listed_exception (im_exceptions m) s = Some t" "\<forall>t \<in> set (im_exceptions m). 0 \<notin> set (repo_id t)"
    and val: "has_type t val" "plain val" "vdepth val \<le> max_depth ce"
    and cr: "call_result m mo args = \<lparr>ro_type = MARSHAL_EXCEPTION_COMPLETE,
        ro_ev = USER_EXCEPTION s (allocated t (Some val)), ro_ret = None, ro_args = args\<rparr>"
    and n: "length s + vbound val + 8 \<le> n"
  shows "\<exists>b. ORBit_marshal_value env (append_id env (fst (giop_send_buffer_use_reply env sbl v rid 1)) s) t val = Some b \<and>
    answers env ce v rid m mo args n b"
proof -
  let ?b0 = "fst (giop_send_buffer_use_reply env sbl v rid 1)"
  let ?pl = "payload env ?b0"
  note u = use_reply_builds [OF pool, of env v rid 1]
  have sz: "length ?pl + length s + 28 < 2 ^ 32" using u(3) s(1) by simp
  obtain xs where x: "string_at (12 + length ?pl) s xs"
    "builds env v GIOP_REPLY (?pl @ xs) (append_id env ?b0 s)" "length xs \<le> length s + 8"
    by (rule id_written [OF u(1) sz])
  obtain b where b: "ORBit_marshal_value env (append_id env ?b0 s) t val = Some b"
    using marshal_value_total(1) [OF val(1,2)] by blast
  have ne: "?pl @ xs \<noteq> []" using u(2) by simp
  have "length (?pl @ xs) + 12 + vbound val < 2 ^ 32" using u(3) s(1) x(3) by simp
  from marshal_value_cdr(1) [OF b x(2) ne val(2) this] obtain ys where
    y: "cdr False (12 + length (?pl @ xs)) t val ys" "builds env v GIOP_REPLY ((?pl @ xs) @ ys) b" "length ys \<le> vbound val"
    by (auto simp: writes_def)
  have y1: "cdr False (12 + length ?pl + length xs) t val ys" using y(1) by (simp add: add.assoc)
  have y2: "builds env v GIOP_REPLY (?pl @ xs @ ys) b" using y(2) by simp
  have len: "length (xs @ ys) \<le> n" using x(3) y(3) n by simp
  have l: "length s + 1 < 2 ^ 32" "length ys < 2 ^ 31" using s(1) y(3) by simp_all
  have "orbit_small_demarshal ce fw (Some r) m args = Inr (call_result m mo args)"
    if r: "view False r (12 + length ?pl) (xs @ ys)" "giop_recv_buffer_reply_status r = 1" for r fw
    using user_exception_read [OF x(1) t(1) [unfolded listed_exception_def] y1 val(3) l(2) r(1) s(2) l(1) t(2) r(2)] r(2)
    by (simp add: orbit_small_demarshal_def cr)
  then show ?thesis using answersI [OF pool len y2] b by blast
qed

text \<open>Whatever the method leaves, the answer brings the promised result.\<close>

lemma possible_exception_answers:
  assumes ok: "transferable ce m mo" and pool: "\<forall>b \<in> set sbl. pool_ok b" and l: "length args = length (im_arguments m)"
  obtains b sbl' where "handle_possible_exception env sbl v rid m mo = Inr (b, sbl')" "\<forall>b \<in> set sbl'. pool_ok b"
    "answers env ce v rid m mo args (vbounds (outcome_values m mo) + 100) b"
proof (cases "mo_ev mo")
  case NO_EXCEPTION
  with results_answer [OF ok this pool l] that show thesis by blast
next
  case (SYSTEM_EXCEPTION s minor completed)
  then obtain t where t: "s = Some t" "0 \<notin> set t" "length t < 2 ^ 31"
    using ok by (auto simp: transferable_def outcome_ok_def outcome_values_def)
  have n: "length t + 30 \<le> vbounds (outcome_values m mo) + 100" using SYSTEM_EXCEPTION t by (simp add: outcome_values_def)
  have "call_result m mo args = \<lparr>ro_type = MARSHAL_EXCEPTION_COMPLETE,
      ro_ev = SYSTEM_EXCEPTION (Some t) minor completed, ro_ret = None, ro_args = args\<rparr>"
    using SYSTEM_EXCEPTION t by (simp add: call_result_def)
  from system_answer_read [OF pool t(3,2) this n, of env v rid ce] SYSTEM_EXCEPTION t(1) that show thesis
    by (auto simp: handle_possible_exception_def)
next
  case (USER_EXCEPTION s val)
  let ?v = "exception_value val"
  have o: "0 \<notin> set s" "\<forall>t \<in> set (im_exceptions m). 0 \<notin> set (repo_id t)"
    "length s + vbound ?v < 2 ^ 31" "vdepth ?v \<le> max_depth ce"
    "\<And>t. listed_exception (im_exceptions m) s = Some t \<Longrightarrow> has_type t ?v \<and> plain ?v"
    using ok USER_EXCEPTION by (auto simp: transferable_def outcome_ok_def outcome_values_def)
  note pool' = use_reply_pool [OF pool, of env v rid 1]
  show thesis
  proof (cases "listed_exception (im_exceptions m) s")
    case None
    have u: "undeclared_exception = SYSTEM_EXCEPTION (Some (system_id ''UNKNOWN'')) 0 2"
      by (simp add: undeclared_exception_def CORBA_exception_set_system_def)
    have i: "length (system_id ''UNKNOWN'') < 2 ^ 31" "0 \<notin> set (system_id ''UNKNOWN'')"
      "length (system_id ''UNKNOWN'') + 30 \<le> vbounds (outcome_values m mo) + 100"
      by (simp_all add: system_id_def of_char_def)
    have cr: "call_result m mo args = \<lparr>ro_type = MARSHAL_EXCEPTION_COMPLETE,
        ro_ev = SYSTEM_EXCEPTION (Some (system_id ''UNKNOWN'')) 0 2, ro_ret = None, ro_args = args\<rparr>"
      using USER_EXCEPTION None by (simp add: call_result_def u)
    have p: "\<forall>b \<in> set (giop_send_buffer_unuse (snd (giop_send_buffer_use_reply env sbl v rid 1))
        (fst (giop_send_buffer_use_reply env sbl v rid 1))). pool_ok b"
      by (rule unuse_pool [OF use_reply_builds(1) [OF pool] pool'])
    from system_answer_read [OF p i(1,2) cr i(3), of env v rid ce] USER_EXCEPTION None that u show thesis
      by (auto simp: handle_possible_exception_def case_prod_beta)
  next
    case (Some t)
    have n: "length s + vbound ?v + 8 \<le> vbounds (outcome_values m mo) + 100"
      using USER_EXCEPTION by (simp add: outcome_values_def)
    have cr: "call_result m mo args = \<lparr>ro_type = MARSHAL_EXCEPTION_COMPLETE,
        ro_ev = USER_EXCEPTION s (allocated t (Some ?v)), ro_ret = None, ro_args = args\<rparr>"
      using USER_EXCEPTION Some by (simp add: call_result_def)
    obtain b where b: "ORBit_marshal_value env (append_id env (fst (giop_send_buffer_use_reply env sbl v rid 1)) s) t ?v = Some b"
      "answers env ce v rid m mo args (vbounds (outcome_values m mo) + 100) b"
      using user_answer [OF pool o(3,1) Some o(2) _ _ o(4) cr n, of env v rid] o(5) [OF Some] by blast
    show thesis
      by (rule that [OF _ pool' b(2)]) (simp add: handle_possible_exception_def USER_EXCEPTION Some case_prod_beta b(1))
  qed
qed

end
