(* ===== verification/Call_Remote.thy ===== *)
theory Call_Remote
  imports Call_Roundtrip
begin

text \<open>
  Two peers joined by a byte stream: a request goes through the send buffer, the transport,
  the receive machine and the skeleton of the one, and its reply back to the stub of the
  other.
\<close>

section \<open>The exchange\<close>

text \<open>
  A peer: how its memory is laid out and its pool of send buffers, the state of its side of
  the connection, and how the transport cuts what is sent to it into reads.
\<close>

record peer =
  peer_send :: SendEnv
  peer_pool :: "GIOPSendBuffer list"
  peer_input :: input_env
  peer_state :: input_state
  peer_cut :: "byte list \<Rightarrow> read_result list"

definition receive :: "peer \<Rightarrow> input_state \<Rightarrow> SendEnv \<Rightarrow> GIOPSendBuffer \<Rightarrow> input_result" where
  "receive p st env buf = giop_connection_handle_input (peer_input p) st (peer_cut p (wire env buf))"

definition serve :: "call_env \<Rightarrow> peer \<Rightarrow> IMethod \<Rightarrow> (cvalue option list \<Rightarrow> server_context \<Rightarrow> method_outcome) \<Rightarrow>
    SendEnv \<Rightarrow> GIOPSendBuffer \<Rightarrow> GIOPSendBuffer option" where
  "serve ce server m body env buf =
     (case receive server (peer_state server) env buf of
        (_, [Ev_handle_request rb], _, True) \<Rightarrow>
          (case ORBit_small_invoke_adaptor (peer_send server) ce (peer_pool server) m body rb of
             Inr r \<Rightarrow> sk_reply r
           | Inl _ \<Rightarrow> None)
      | _ \<Rightarrow> None)"

definition waiting :: "peer \<Rightarrow> u32 \<Rightarrow> input_state" where
  "waiting p rid = (peer_state p)\<lparr>queued :=
     giop_recv_list_setup_queue_entry (queued (peer_state p)) 0 (cnx_id (peer_input p)) GIOP_REPLY rid\<rparr>"

definition wire_call :: "call_env \<Rightarrow> peer \<Rightarrow> peer \<Rightarrow> u32 \<Rightarrow> IMethod \<Rightarrow>
    (cvalue option list \<Rightarrow> server_context \<Rightarrow> method_outcome) \<Rightarrow> GIOPSendBuffer \<Rightarrow> received" where
  "wire_call ce client server rid m body buf =
     Received (case serve ce server m body (peer_send client) buf of
        None \<Rightarrow> None
      | Some reply \<Rightarrow>
          (case answered (fst (receive client (waiting client rid) (peer_send server) reply)) of
             ent # _ \<Rightarrow> ent_buffer ent
           | [] \<Rightarrow> None))"

text \<open>An idle peer that takes messages of up to \<open>n\<close> bytes, however they are cut.\<close>

definition ready :: "nat \<Rightarrow> peer \<Rightarrow> bool" where
  "ready n p \<longleftrightarrow> (\<forall>b \<in> set (peer_pool p). pool_ok b) \<and> incoming_msg (peer_state p) = None \<and>
     (\<forall>k \<le> n. \<exists>a. accepts (peer_input p) k a) \<and>
     (\<forall>bs. bs \<noteq> [] \<longrightarrow> no_empty (peer_cut p bs) \<and> tokens (peer_cut p bs) = map Some bs)"

section \<open>The request\<close>

lemma op_vec_ok:
  "iov_ok env (op_vec m)" "iov_bytes env (op_vec m) = op_vec_bytes (im_name m)"
  "iov_len (op_vec m) \<le> length (im_name m) + 8"
  using pad_le(2) [of "length (im_name m) + 1"]
  by (simp_all add: op_vec_def iov_ok_def iov_bytes_def src_ok_def src_bytes_def length_op_vec)

definition request_size :: "okey \<Rightarrow> IMethod \<Rightarrow> cvalue list \<Rightarrow> nat" where
  "request_size key m vs = unat (fst key) + length (im_name m) + vbounds vs + 100"

text \<open>The fixed part of the request, before the arguments.\<close>

definition request_head :: "SendEnv \<Rightarrow> GIOPSendBuffer list \<Rightarrow> GIOPVersion \<Rightarrow> okey \<Rightarrow> u32 \<Rightarrow> IMethod \<Rightarrow> GIOPSendBuffer" where
  "request_head env sbl v key rid m = fst (giop_send_buffer_use_request env sbl v rid
     (if has_flag (im_flags m) I_METHOD_1_WAY then 0 else 1) key (op_vec m) None)"

lemma use_request_pool:
  assumes "\<forall>b \<in> set sbl. pool_ok b"
  shows "\<forall>b \<in> set (snd (giop_send_buffer_use_request env sbl v rid resp key opv prv)). pool_ok b"
proof -
  have "snd (giop_send_buffer_use_request env sbl v rid resp key opv prv) = snd (giop_send_buffer_use env sbl v)"
    by (cases v) (simp_all add: giop_send_buffer_use_request_def Let_def split: prod.split)
  then show ?thesis using use_builds(2) [OF assms] by simp
qed

lemma request_written:
  assumes pool: "\<forall>b \<in> set sbl. pool_ok b" and key: "key_ok env key" and m: "im_contexts m = []"
    and args: "length args = length (im_arguments m)" "chosen arg_sent (im_arguments m) args = map Some vs"
      "values_ok (chosen_tcs arg_sent (im_arguments m)) vs"
    and sz: "request_size key m vs < 2 ^ 31"
  obtains b xs sbl' where "orbit_small_marshal env sbl v key rid m args ctx = Inr (b, sbl')"
    "builds env v GIOP_REQUEST (payload env (request_head env sbl v key rid m) @ xs) b"
    "cdrs False (12 + length (payload env (request_head env sbl v key rid m)))
       (chosen_tcs arg_sent (im_arguments m)) vs xs"
    "length (payload env b) \<le> request_size key m vs" "\<forall>b \<in> set sbl'. pool_ok b"
proof -
  let ?b0 = "request_head env sbl v key rid m" and ?tcs = "chosen_tcs arg_sent (im_arguments m)"
  have s: "unat (fst key) + iov_len (op_vec m) + 100 < 2 ^ 32"
    using sz op_vec_ok(3) [of m] by (simp add: request_size_def)
  note u = use_request_builds [OF pool key op_vec_ok(1) s, where v = v and rid = rid and
      resp = "if has_flag (im_flags m) I_METHOD_1_WAY then 0 else 1", folded request_head_def]
  have lp: "length (payload env ?b0) \<le> unat (fst key) + length (im_name m) + 68"
    using u(3) op_vec_ok(3) [of m] by simp
  have vals: "has_types ?tcs vs" "list_all plain vs" using args(3) by (simp_all add: values_ok_def)
  obtain b where b: "marshal_values env ?b0 ?tcs vs = Some b"
    using marshal_value_total(2) [OF vals] by blast
  have "length (payload env ?b0) + 12 + vbounds vs < 2 ^ 32" using lp sz by (simp add: request_size_def)
  from marshal_value_cdr(2) [OF b u(1,2) vals(2) has_types_length [OF vals(1)] this] obtain xs where
    x: "cdrs False (12 + length (payload env ?b0)) ?tcs vs xs"
    "builds env v GIOP_REQUEST (payload env ?b0 @ xs) b" "length xs \<le> vbounds vs"
    by (auto simp: writes_def)
  have "length (payload env b) \<le> request_size key m vs"
    using x(2,3) lp by (simp add: builds_def request_size_def)
  moreover have "orbit_small_marshal env sbl v key rid m args ctx = Inr (b, snd (giop_send_buffer_use_request env sbl v rid
     (if has_flag (im_flags m) I_METHOD_1_WAY then 0 else 1) key (op_vec m) None))"
    using marshal_where_values [OF args(1) [symmetric] args(2), of env ?b0] b m
    by (simp add: orbit_small_marshal_def case_prod_beta request_head_def)
  ultimately show thesis using that x(1,2) use_request_pool [OF pool] by blast
qed

section \<open>Serving\<close>

definition arguments_of :: "IMethod \<Rightarrow> cvalue list \<Rightarrow> cvalue option list" where
  "arguments_of m vs = merge arg_sent (im_arguments m) (replicate (length (im_arguments m)) None) vs"

lemma skeleton_answers:
  assumes mb: "view False mb off xs" "has_room 0 mb" and x: "cdrs False off (chosen_tcs arg_sent (im_arguments m)) vs xs"
    and d: "vdepths vs \<le> max_depth ce" and m: "im_contexts m = []" "\<not> has_flag (im_flags m) I_METHOD_1_WAY"
    and pool: "\<forall>b \<in> set sbl. pool_ok b" and l: "length args = length (im_arguments m)"
    and sz: "length xs < 2 ^ 31" "sized (chosen_tcs arg_sent (im_arguments m))"
    and ok: "transferable ce m (body (arguments_of m vs) No_table)"
  obtains b sbl' where "ORBit_small_invoke_adaptor env ce sbl m body mb =
      Inr \<lparr>sk_called = Some (arguments_of m vs), sk_reply = Some b, sk_pool = sbl'\<rparr>"
    "answers env ce (giop_version mb) (giop_recv_buffer_get_request_id mb) m (body (arguments_of m vs) No_table) args
      (vbounds (outcome_values m (body (arguments_of m vs) No_table)) + 100) b"
proof -
  let ?mo = "body (arguments_of m vs) No_table"
  obtain c where c: "demarshal_ins ce (im_arguments m) mb =
      Inr (False, read_slots (im_arguments m) vs, mb\<lparr>rcur := c\<rparr>)"
    using demarshal_ins_cdr [OF x d, of mb "[]"] mb sz by auto
  obtain b sbl' where b: "handle_possible_exception env sbl (giop_version mb) (giop_recv_buffer_get_request_id mb) m ?mo = Inr (b, sbl')"
    "answers env ce (giop_version mb) (giop_recv_buffer_get_request_id mb) m ?mo args (vbounds (outcome_values m ?mo) + 100) b"
    by (rule possible_exception_answers [OF ok pool l])
  have "ORBit_small_invoke_adaptor env ce sbl m body mb =
      Inr \<lparr>sk_called = Some (arguments_of m vs), sk_reply = Some b, sk_pool = giop_send_buffer_unuse sbl' b\<rparr>"
    using b(1) m by (simp add: ORBit_small_invoke_adaptor_def c read_slots_values read_slots_clean after_call_def
        arguments_of_def [symmetric] Let_def)
  then show thesis using that b(2) by blast
qed

lemma wire_nonempty: "builds env v mt bs b \<Longrightarrow> wire env b \<noteq> []"
  by (simp add: wire_builds header_bytes_def)

lemma request_served:
  assumes server: "ready n server" and pool: "\<forall>b \<in> set sbl. pool_ok b" and key: "key_ok env key"
    and name: "0 \<notin> set (im_name m)" and m: "im_contexts m = []" "\<not> has_flag (im_flags m) I_METHOD_1_WAY"
    and b: "builds env v GIOP_REQUEST (payload env (request_head env sbl v key rid m) @ xs) b"
    and x: "cdrs False (12 + length (payload env (request_head env sbl v key rid m)))
       (chosen_tcs arg_sent (im_arguments m)) vs xs"
    and d: "vdepths vs \<le> max_depth ce" "sized (chosen_tcs arg_sent (im_arguments m))"
    and l: "length args = length (im_arguments m)"
    and sz: "length (payload env b) \<le> n" "n < 2 ^ 31" "request_size key m vs < 2 ^ 31"
    and ok: "transferable ce m (body (arguments_of m vs) No_table)"
  obtains reply where "serve ce server m body env b = Some reply"
    "answers (peer_send server) ce v rid m (body (arguments_of m vs) No_table) args
      (vbounds (outcome_values m (body (arguments_of m vs) No_table)) + 100) reply"
proof -
  have rd: "\<forall>b \<in> set (peer_pool server). pool_ok b" "incoming_msg (peer_state server) = None"
    "no_empty (peer_cut server (wire env b))" "tokens (peer_cut server (wire env b)) = map Some (wire env b)"
    using server wire_nonempty [OF b] by (auto simp: ready_def)
  obtain a where ac: "accepts (peer_input server) (length (payload env b)) a"
    using server sz(1) by (auto simp: ready_def)
  have s: "unat (fst key) + iov_len (op_vec m) + 100 < 2 ^ 32" "length (payload env b) < 2 ^ 32"
    using sz op_vec_ok(3) [of m] by (simp_all add: request_size_def)
  have lx: "length xs < 2 ^ 31" using b sz(1,2) by (simp add: builds_def)
  have pl: "12 + length (payload env b) - length xs = 12 + length (payload env (request_head env sbl v key rid m))"
    using b by (simp add: builds_def)
  from request_heard [OF pool key op_vec_ok(1,2) name b [unfolded request_head_def] s ac rd(2,3,4)] obtain mb where
    mb: "receive server (peer_state server) env b = (peer_state server, [Ev_handle_request mb], [], True)"
    "giop_version mb = v" "giop_recv_buffer_get_request_id mb = rid" "has_room 0 mb"
    "view False mb (12 + length (payload env b) - length xs) xs"
    by (auto simp: receive_def is_request_def)
  obtain reply sbl' where r: "ORBit_small_invoke_adaptor (peer_send server) ce (peer_pool server) m body mb =
      Inr \<lparr>sk_called = Some (arguments_of m vs), sk_reply = Some reply, sk_pool = sbl'\<rparr>"
    "answers (peer_send server) ce v rid m (body (arguments_of m vs) No_table) args
      (vbounds (outcome_values m (body (arguments_of m vs) No_table)) + 100) reply"
    using skeleton_answers [where body = body and env = "peer_send server",
        OF mb(5) [unfolded pl] mb(4) x d(1) m rd(1) l lx d(2) ok] unfolding mb(2,3) by blast
  then show thesis using that mb(1) by (simp add: serve_def)
qed

section \<open>The reply\<close>

lemma reply_received:
  assumes client: "ready n client" and a: "answers env ce v rid m mo args k reply" and k: "k + 36 \<le> n" "n < 2 ^ 31"
  obtains r where "answered (fst (receive client (waiting client rid) env reply)) =
      (hd (queued (waiting client rid)))\<lparr>ent_buffer := Some r\<rparr> # answered (peer_state client)"
    "\<forall>fw. orbit_small_demarshal ce fw (Some r) m args = Inr (call_result m mo args)"
proof -
  obtain sbl status results where
    pool: "\<forall>b \<in> set sbl. pool_ok b" and lr: "length results \<le> k"
    and b: "builds env v GIOP_REPLY (payload env (fst (giop_send_buffer_use_reply env sbl v rid status)) @ results) reply"
    and dem: "\<And>r fw. view False r (12 + length (payload env reply) - length results) results \<Longrightarrow> has_room 0 r \<Longrightarrow>
        giop_recv_buffer_reply_status r = status \<Longrightarrow>
        orbit_small_demarshal ce fw (Some r) m args = Inr (call_result m mo args)"
    using a unfolding answers_def by blast
  have pl: "length (payload env reply) \<le> n" "length (payload env reply) < 2 ^ 32"
    using b use_reply_builds(3) [OF pool, of env v rid status] lr k by (simp_all add: builds_def)
  have rd: "incoming_msg (waiting client rid) = None"
    "no_empty (peer_cut client (wire env reply))" "tokens (peer_cut client (wire env reply)) = map Some (wire env reply)"
    using client wire_nonempty [OF b] by (auto simp: ready_def waiting_def)
  obtain x where ac: "accepts (peer_input client) (length (payload env reply)) x"
    using client pl(1) by (auto simp: ready_def)
  let ?ent = "hd (queued (waiting client rid))"
  have q: "queued (waiting client rid) = [] @ ?ent # queued (peer_state client)"
    and e: "ent_request_id ?ent = rid" "ent_msg_type ?ent = GIOP_REPLY" "ent_cnx ?ent = Some (cnx_id (peer_input client))"
    and an: "answered (waiting client rid) = answered (peer_state client)"
    by (simp_all add: waiting_def giop_recv_list_setup_queue_entry_def)
  from reply_heard [OF pool b pl(2) ac rd(1) q _ e rd(2,3)] obtain r where
    r: "answered (fst (receive client (waiting client rid) env reply)) = ?ent\<lparr>ent_buffer := Some r\<rparr> # answered (peer_state client)"
      "giop_recv_buffer_reply_status r = status" "has_room 0 r"
      "view False r (12 + length (payload env reply) - length results) results"
    by (auto simp: receive_def is_reply_def an)
  then show thesis using that dem by blast
qed

section \<open>A call\<close>

definition over_wire :: "call_env \<Rightarrow> peer \<Rightarrow> peer \<Rightarrow> GIOPVersion \<Rightarrow> okey \<Rightarrow> u32 \<Rightarrow> IMethod \<Rightarrow>
    (cvalue option list \<Rightarrow> server_context \<Rightarrow> method_outcome) \<Rightarrow> network" where
  "over_wire ce client server v key rid m body =
     \<lparr>connect = \<lambda>_. Some (v, key), exchange = \<lambda>_. wire_call ce client server rid m body\<rparr>"

lemma call_result_final:
  "ro_type (call_result m mo args) = MARSHAL_CLEAN \<or> ro_type (call_result m mo args) = MARSHAL_EXCEPTION_COMPLETE"
  by (simp add: call_result_def split: CORBA_Environment.splits)

text \<open>
  One attempt, over the wire, to whatever the object points to by then: it ends the call, with
  what the method leaves when it is given the arguments of the caller.
\<close>

lemma wire_attempt:
  assumes peers: "ready n client" "ready n server" "n < 2 ^ 31"
    and pool: "\<forall>b \<in> set sbl. pool_ok b" and key: "key_ok (peer_send client) key" and name: "0 \<notin> set (im_name m)"
    and m: "im_contexts m = []" "\<not> has_flag (im_flags m) I_METHOD_1_WAY"
    and args: "length args = length (im_arguments m)" "chosen arg_sent (im_arguments m) args = map Some vs"
      "values_ok (chosen_tcs arg_sent (im_arguments m)) vs" "vdepths vs \<le> max_depth ce"
    and outcome: "transferable ce m (body (arguments_of m vs) No_table)"
    and sizes: "request_size key m vs \<le> n" "vbounds (outcome_values m (body (arguments_of m vs) No_table)) + 136 \<le> n"
    and net: "exchange net i = wire_call ce client server rid m body"
  shows "\<exists>pool. attempt (peer_send client) ce net sbl rid m args ctx i (v, key) =
    (Some (Inr (call_result m (body (arguments_of m vs) No_table) args)), pool)"
proof -
  let ?env = "peer_send client" and ?mo = "body (arguments_of m vs) No_table"
  have sz: "request_size key m vs < 2 ^ 31" using sizes(1) peers(3) by simp
  have sized: "sized (chosen_tcs arg_sent (im_arguments m))" using args(3) by (simp add: values_ok_def)
  obtain b xs sbl' where b: "orbit_small_marshal ?env sbl v key rid m args ctx = Inr (b, sbl')"
    "builds ?env v GIOP_REQUEST (payload ?env (request_head ?env sbl v key rid m) @ xs) b"
    "cdrs False (12 + length (payload ?env (request_head ?env sbl v key rid m)))
       (chosen_tcs arg_sent (im_arguments m)) vs xs"
    "length (payload ?env b) \<le> request_size key m vs"
    by (rule request_written [OF pool key m(1) args(1-3) sz])
  obtain reply where s: "serve ce server m body ?env b = Some reply"
    "answers (peer_send server) ce v rid m ?mo args (vbounds (outcome_values m ?mo) + 100) reply"
    by (rule request_served [where body = body, OF peers(2) pool key name m b(2,3) args(4) sized args(1) le_trans [OF b(4) sizes(1)] peers(3) sz outcome])
  have k: "vbounds (outcome_values m ?mo) + 100 + 36 \<le> n" using sizes(2) by simp
  obtain r where r: "answered (fst (receive client (waiting client rid) (peer_send server) reply)) =
      (hd (queued (waiting client rid)))\<lparr>ent_buffer := Some r\<rparr> # answered (peer_state client)"
    "\<forall>fw. orbit_small_demarshal ce fw (Some r) m args = Inr (call_result m ?mo args)"
    by (rule reply_received [OF peers(1) s(2) k peers(3)])
  have "exchange net i b = Received (Some r)" by (simp add: net wire_call_def s(1) r(1))
  then have "attempt ?env ce net sbl rid m args ctx i (v, key) =
      (Some (Inr (call_result m ?mo args)), giop_send_buffer_unuse sbl' b)"
    using call_result_final [of m ?mo args] m(2) by (auto simp: attempt_def b(1) r(2) [rule_format] Let_def)
  then show ?thesis by blast
qed

text \<open>
  C7. A remote call is transparent: for a two-way method without contexts whose arguments, results
  and exceptions are values without references, \<open>any\<close>, \<open>TypeCode\<close>, \<open>Principal\<close> and
  \<open>long double\<close>, called over a connection that may cut the bytes of the request and of the
  reply into reads of any size, the stub ends, and returns exactly what the method leaves
  when it is given the arguments of the caller: its result and returned arguments, the
  exception it raises if it is declared or a system exception, and UNKNOWN otherwise.
\<close>

theorem remote_call_transparent:
  assumes peers: "ready n client" "ready n server" "n < 2 ^ 31"
    and key: "key_ok (peer_send client) key" and name: "0 \<notin> set (im_name m)"
    and m: "im_contexts m = []" "\<not> has_flag (im_flags m) I_METHOD_1_WAY"
    and args: "length args = length (im_arguments m)" "chosen arg_sent (im_arguments m) args = map Some vs"
      "values_ok (chosen_tcs arg_sent (im_arguments m)) vs" "vdepths vs \<le> max_depth ce"
    and outcome: "transferable ce m (body (arguments_of m vs) No_table)"
    and sizes: "request_size key m vs \<le> n" "vbounds (outcome_values m (body (arguments_of m vs) No_table)) + 136 \<le> n"
  shows "\<exists>pool. ORBit_small_invoke_stub (peer_send client) ce (over_wire ce client server v key rid m body)
      (peer_pool client) rid True m args ctx =
    Some (Inr (call_result m (body (arguments_of m vs) No_table) args), pool)"
proof -
  let ?net = "over_wire ce client server v key rid m body"
  have pool: "\<forall>b \<in> set (peer_pool client). pool_ok b" using peers(1) by (simp add: ready_def)
  have "exchange ?net 0 = wire_call ce client server rid m body" by (simp add: over_wire_def)
  then obtain pool' where "attempt (peer_send client) ce ?net (peer_pool client) rid m args ctx 0 (v, key) =
      (Some (Inr (call_result m (body (arguments_of m vs) No_table) args)), pool')"
    using wire_attempt [where body = body, OF peers pool key name m args outcome sizes] by blast
  moreover have "connect ?net 0 = Some (v, key)" by (simp add: over_wire_def)
  ultimately show ?thesis
    unfolding ORBit_small_invoke_stub_def by (subst retry_request.simps) simp
qed

text \<open>A method with a result, an argument in, one both ways, one out, and an exception.\<close>

definition ex_method :: IMethod where
  "ex_method = \<lparr>im_arguments = [\<lparr>arg_tc = TC_basic CORBA_tk_long, arg_flags = I_ARG_IN\<rparr>,
       \<lparr>arg_tc = TC_basic CORBA_tk_string, arg_flags = I_ARG_INOUT\<rparr>, \<lparr>arg_tc = ex_tc, arg_flags = I_ARG_OUT\<rparr>],
     im_contexts = [], im_exceptions = [], im_ret = Some (TC_basic CORBA_tk_double), im_name = [0x68, 0x69], im_flags = 0\<rparr>"

definition ex_body :: "cvalue option list \<Rightarrow> server_context \<Rightarrow> method_outcome" where
  "ex_body args ctx = \<lparr>mo_ev = NO_EXCEPTION, mo_ret = Some (V64 5), mo_args = [hd args, Some (VString [0x62]), Some ex_value]\<rparr>"

definition ex_call_env :: call_env where
  "ex_call_env = \<lparr>max_depth = 10, after_failure = (\<lambda>_ b. b)\<rparr>"

definition ex_peer :: peer where
  "ex_peer = \<lparr>peer_send = ex_send_env, peer_pool = [], peer_input = ex_input_env,
     peer_state = \<lparr>incoming_msg = None, incoming_frags = [], queued = [], answered = []\<rparr>,
     peer_cut = (\<lambda>bs. [Bytes (take 7 bs)] @ (if drop 7 bs = [] then [] else [Bytes (drop 7 bs)]))\<rparr>"

lemma ex_peer_ready: "ready 1000 ex_peer"
  using ex_accepts by (auto simp: ready_def ex_peer_def no_empty_def simp flip: map_append)

lemma ex_flags:
  "arg_sent \<lparr>arg_tc = t, arg_flags = I_ARG_IN\<rparr>" "arg_sent \<lparr>arg_tc = t, arg_flags = I_ARG_INOUT\<rparr>"
  "\<not> arg_sent \<lparr>arg_tc = t, arg_flags = I_ARG_OUT\<rparr>" "\<not> arg_returned \<lparr>arg_tc = t, arg_flags = I_ARG_IN\<rparr>"
  "arg_returned \<lparr>arg_tc = t, arg_flags = I_ARG_INOUT\<rparr>" "arg_returned \<lparr>arg_tc = t, arg_flags = I_ARG_OUT\<rparr>"
  by (simp_all add: arg_sent_def arg_returned_def has_flag_def flag_defs)

lemmas ex_method_defs = ex_method_def chosen_def chosen_tcs_def ex_flags values_ok_def arguments_of_def

lemma ex_has_result: "has_result ex_method = Some (TC_basic CORBA_tk_double)"
  by (simp add: has_result_def ex_method_def TC_basic_def)

lemma ex_outcome:
  "result_values ex_method (ex_body a c) = [Some (V64 5), Some (VString [0x62]), Some ex_value]"
  "outcome_values ex_method (ex_body a c) = [V64 5, VString [0x62], ex_value]"
proof -
  show rv: "result_values ex_method (ex_body a c) = [Some (V64 5), Some (VString [0x62]), Some ex_value]"
    by (simp add: result_values_def ex_has_result) (simp add: ex_body_def ex_method_defs)
  have "mo_ev (ex_body a c) = NO_EXCEPTION" by (simp add: ex_body_def)
  then show "outcome_values ex_method (ex_body a c) = [V64 5, VString [0x62], ex_value]"
    by (simp add: outcome_values_def rv)
qed

lemma ex_sized: "ORBit_gather_alloc_info (TC_basic CORBA_tk_double) \<noteq> 0" "ORBit_gather_alloc_info (TC_basic CORBA_tk_long) \<noteq> 0"
  "ORBit_gather_alloc_info (TC_basic CORBA_tk_string) \<noteq> 0" "ORBit_gather_alloc_info ex_tc \<noteq> 0"
proof -
  show "ORBit_gather_alloc_info (TC_basic CORBA_tk_double) \<noteq> 0" "ORBit_gather_alloc_info (TC_basic CORBA_tk_long) \<noteq> 0"
    "ORBit_gather_alloc_info (TC_basic CORBA_tk_string) \<noteq> 0"
    by (simp_all add: layout_simps plain_kind_def TC_basic_def)
  show "ORBit_gather_alloc_info ex_tc \<noteq> 0"
    by (simp add: ex_tc_def ex_plain_tc_def ex_union_tc_def layout_simps plain_kind_def TC_basic_def union_size_def align_up_def
        ORBIT_ALIGNOF_CORBA_POINTER_def)
qed

lemma ex_transferable: "transferable ex_call_env ex_method (ex_body a c)"
proof -
  have rt: "result_tcs ex_method = [TC_basic CORBA_tk_double, TC_basic CORBA_tk_string, ex_tc]"
    by (simp add: result_tcs_def ex_has_result) (simp add: ex_method_defs)
  have ev: "mo_ev (ex_body a c) = NO_EXCEPTION" "length (mo_args (ex_body a c)) = length (im_arguments ex_method)"
    by (simp_all add: ex_body_def ex_method_def)
  show ?thesis
    using ex_value_typed
    by (simp add: transferable_def outcome_ok_def ex_outcome rt ev) (simp add: values_ok_def ex_sized, simp add: ex_call_env_def TC_basic_def)
qed

lemma ex_call:
  "key_ok (peer_send ex_peer) ex_key" "0 \<notin> set (im_name ex_method)"
  "chosen arg_sent (im_arguments ex_method) [Some (V32 3), Some (VString [0x61]), None] = map Some [V32 3, VString [0x61]]"
  "values_ok (chosen_tcs arg_sent (im_arguments ex_method)) [V32 3, VString [0x61]]"
  "request_size ex_key ex_method [V32 3, VString [0x61]] \<le> 1000"
  "vdepths [V32 3, VString [0x61]] \<le> max_depth ex_call_env"
proof -
  show "key_ok (peer_send ex_peer) ex_key" by (simp add: key_ok_def src_ok_def ex_key_def)
  show "0 \<notin> set (im_name ex_method)" by (simp add: ex_method_def)
  show "chosen arg_sent (im_arguments ex_method) [Some (V32 3), Some (VString [0x61]), None] = map Some [V32 3, VString [0x61]]"
    by (simp add: ex_method_defs)
  show "values_ok (chosen_tcs arg_sent (im_arguments ex_method)) [V32 3, VString [0x61]]"
    by (simp add: ex_method_defs ex_sized) (simp add: TC_basic_def)
  show "request_size ex_key ex_method [V32 3, VString [0x61]] \<le> 1000" by (simp add: request_size_def ex_key_def ex_method_def)
  show "vdepths [V32 3, VString [0x61]] \<le> max_depth ex_call_env" by (simp add: ex_call_env_def)
qed

lemma ex_out_size: "vbounds (outcome_values ex_method (ex_body a c)) + 136 \<le> 1000"
  using ex_value_typed(3) by (simp add: ex_outcome)

lemma ex_call_result: "call_result ex_method (ex_body (arguments_of ex_method [V32 3, VString [0x61]]) No_table)
    [Some (V32 3), Some (VString [0x61]), None] =
  \<lparr>ro_type = MARSHAL_CLEAN, ro_ev = NO_EXCEPTION, ro_ret = Some (V64 5),
   ro_args = [Some (V32 3), Some (VString [0x62]), Some ex_value]\<rparr>"
  by (simp add: call_result_def ex_body_def ex_has_result) (simp add: ex_method_defs)

theorem remote_call_transparent_witness:
  "\<exists>pool. ORBit_small_invoke_stub ex_send_env ex_call_env
     (over_wire ex_call_env ex_peer ex_peer GIOP_1_2 ex_key 7 ex_method ex_body) [] 7 True ex_method
     [Some (V32 3), Some (VString [0x61]), None] None =
   Some (Inr \<lparr>ro_type = MARSHAL_CLEAN, ro_ev = NO_EXCEPTION, ro_ret = Some (V64 5),
     ro_args = [Some (V32 3), Some (VString [0x62]), Some ex_value]\<rparr>, pool)"
proof -
  have "\<exists>pool. ORBit_small_invoke_stub (peer_send ex_peer) ex_call_env
     (over_wire ex_call_env ex_peer ex_peer GIOP_1_2 ex_key 7 ex_method ex_body) (peer_pool ex_peer) 7 True ex_method
     [Some (V32 3), Some (VString [0x61]), None] None =
     Some (Inr (call_result ex_method (ex_body (arguments_of ex_method [V32 3, VString [0x61]]) No_table)
       [Some (V32 3), Some (VString [0x61]), None]), pool)"
    by (rule remote_call_transparent [OF ex_peer_ready ex_peer_ready _ ex_call(1,2) _ _ _ ex_call(3,4,6) ex_transferable ex_call(5)])
      (simp_all add: ex_out_size, simp_all add: ex_method_def has_flag_def)
  then show ?thesis by (simp add: ex_call_result) (simp add: ex_peer_def)
qed

end
