(* ===== verification/Call_Errors.thy ===== *)
theory Call_Errors
  imports Call_Remote
begin

text \<open>
  What malformed messages do to either side of a call, and calls that do not end.
\<close>

section \<open>Requests without arguments\<close>

text \<open>Nothing of the message is left.\<close>

definition exhausted :: "GIOPRecvBuffer \<Rightarrow> bool" where
  "exhausted buf \<longleftrightarrow> rcur buf = rend buf \<and> unat (rend buf) + 64 \<le> 2 ^ 64"

lemma exhausted_check:
  assumes "exhausted buf" "k < 5"
  shows "check (2 ^ k) (align_cur (2 ^ k) buf) = Inl Malformed"
proof -
  let ?c = "rcur buf" and ?a = "ALIGN_VALUE (rcur buf) (2 ^ k)"
  have k: "(2 :: nat) ^ k \<in> {1, 2, 4, 8, 16}" "0 < (2 :: nat) ^ k"
    using assms(2) by (auto simp: less_Suc_eq numeral_eq_Suc)
  have b: "unat ?c + 64 \<le> 2 ^ 64" using assms(1) by (simp add: exhausted_def)
  have "unat ?c + 2 ^ k \<le> 2 ^ 64" using b k(1) by auto
  with assms(2) have a: "unat ?a = align_up (2 ^ k) (unat ?c)" by (intro unat_ALIGN_VALUE) simp_all
  have g: "unat ?c \<le> unat ?a" "unat ?a < unat ?c + 2 ^ k"
    unfolding a using k(2) align_up_ge align_up_lt by simp_all
  have u: "unat (2 ^ k :: u64) = 2 ^ k" using assms(2) by (simp add: less_Suc_eq numeral_eq_Suc) auto
  have "ptr_over ?a ?c (2 ^ k)"
    using ptr_over_nat [of ?a "2 ^ k" ?c] g b k u by auto
  then show ?thesis using assms(1) by (simp add: check_def exhausted_def align_cur_def)
qed

lemma exhausted_CDR_get:
  "exhausted buf \<Longrightarrow> CDR_get 2 buf = Inl Malformed" "exhausted buf \<Longrightarrow> CDR_get 4 buf = Inl Malformed"
  "exhausted buf \<Longrightarrow> CDR_get 8 buf = Inl Malformed" "exhausted buf \<Longrightarrow> CDR_get 16 buf = Inl Malformed"
  "exhausted buf \<Longrightarrow> get_octet buf = Inl Malformed"
  using exhausted_check [of buf 1] exhausted_check [of buf 2] exhausted_check [of buf 3] exhausted_check [of buf 4]
    exhausted_check [of buf 0]
  by (simp_all add: CDR_get_def Let_def get_octet_def check_def align_cur_def ALIGN_VALUE_def)

text \<open>Arguments that take at least one byte: numbers, characters and strings.\<close>

definition needs_bytes :: "IArg \<Rightarrow> bool" where
  "needs_bytes a \<longleftrightarrow> base_type (arg_kind a) \<or> arg_kind a = CORBA_tk_string \<or> arg_kind a = CORBA_tk_wstring"

lemma exhausted_arg:
  assumes "exhausted buf" "needs_bytes a" "0 < max_depth ce"
  shows "demarshal_slot True ce buf (arg_tc a) = Inr (None, after_failure ce (arg_tc a) buf)"
proof -
  obtain f where f: "max_depth ce = Suc f" using assms(3) by (cases "max_depth ce") auto
  have "ORBit_demarshal_value (Suc f) (arg_tc a) buf = Inl (TcRecv Malformed)"
    using assms(2) exhausted_CDR_get [OF assms(1)]
    by (auto simp: ORBit_demarshal_value.simps(2) Let_def needs_bytes_def base_type_def arg_kind_def byte_kind_def
        demarshal_string_def demarshal_wstring_def CDR_get_ulong_def)
  then show ?thesis by (simp add: demarshal_slot_def do_demarshal_value_def f)
qed

lemma exhausted_ins:
  assumes "exhausted buf" "0 < max_depth ce" "filter arg_sent as = a # rest" "needs_bytes a"
  shows "\<exists>pre post b. as = pre @ a # post \<and> (\<forall>x \<in> set pre. \<not> arg_sent x) \<and>
    demarshal_ins ce as buf = Inr (True, replicate (length pre) Slot_out @ Raw # replicate (length post) Null, b)"
  using assms(3)
proof (induction as)
  case Nil
  then show ?case by simp
next
  case (Cons x as)
  show ?case
  proof (cases "arg_sent x")
    case True
    then have "x = a" using Cons.prems by simp
    have "in_place a" using assms(4) by (auto simp: in_place_def needs_bytes_def obj_string_type_def)
    then have "demarshal_ins ce (x # as) buf = Inr (True, Raw # replicate (length as) Null, after_failure ce (arg_tc a) buf)"
      using True \<open>x = a\<close> exhausted_arg [OF assms(1,4,2)] by simp
    then show ?thesis using \<open>x = a\<close> by (intro exI [of _ "[]"] exI [of _ as]) auto
  next
    case False
    then have "filter arg_sent as = a # rest" using Cons.prems by simp
    from Cons.IH [OF this] obtain pre post b where i: "as = pre @ a # post" "\<forall>x \<in> set pre. \<not> arg_sent x"
      "demarshal_ins ce as buf = Inr (True, replicate (length pre) Slot_out @ Raw # replicate (length post) Null, b)"
      by blast
    have "demarshal_ins ce (x # as) buf =
        Inr (True, replicate (length (x # pre)) Slot_out @ Raw # replicate (length post) Null, b)"
      using False i(3) by simp
    then show ?thesis using i(1,2) False by (intro exI [of _ "x # pre"] exI [of _ post] exI [of _ b]) auto
  qed
qed

text \<open>
  C35. A request that is delivered without its arguments crashes the server, when the first
  argument that is sent is a number, character or string, and some argument that is sent is a
  string or reference: the values that were not read are freed through pointers that were never
  set.
\<close>

theorem empty_request_crashes:
  assumes "exhausted rb" "0 < max_depth ce" "filter arg_sent (im_arguments m) = a # rest" "needs_bytes a"
    and "x \<in> set (a # rest)" "obj_string_type (arg_kind x)"
  shows "ORBit_small_invoke_adaptor env ce sbl m method rb = Inl Crash"
proof -
  let ?as = "im_arguments m"
  obtain pre post b where i: "?as = pre @ a # post" "\<forall>x \<in> set pre. \<not> arg_sent x"
    "demarshal_ins ce ?as rb = Inr (True, replicate (length pre) Slot_out @ Raw # replicate (length post) Null, b)"
    using exhausted_ins [OF assms(1-4)] by blast
  let ?slots = "replicate (length pre) Slot_out @ Raw # replicate (length post) Null"
  have "\<exists>s. (x, s) \<in> set (zip ?as ?slots) \<and> (s = Null \<or> s = Raw) \<and> arg_sent x"
  proof (cases "x = a")
    case True
    have "arg_sent a" using assms(3) by (metis filter_eq_ConsD)
    then show ?thesis using True by (auto simp: i(1) intro!: exI [of _ Raw])
  next
    case False
    have "set (filter arg_sent ?as) = set (a # rest)" using assms(3) by simp
    then have "x \<in> set ?as" "arg_sent x" using assms(5) by auto
    then have "x \<in> set post" using i(1,2) False by auto
    then have "(x, Null) \<in> set (zip post (replicate (length post) Null))"
      by (auto simp: in_set_zip in_set_conv_nth)
    then show ?thesis using \<open>arg_sent x\<close> by (auto simp: i(1) intro!: exI [of _ Null])
  qed
  then have "list_ex (\<lambda>(a, s). frees_through a s) (zip ?as ?slots)"
    using assms(6) by (auto simp: list_ex_iff frees_through_def)
  then have "clean_args ?as ?slots = Inl Crash" by (simp add: clean_args_def)
  then show ?thesis
    by (simp add: ORBit_small_invoke_adaptor_def i(3) answer_system_def ORBit_send_system_exception_def
        malformed_request_def CORBA_exception_set_system_def case_prod_beta)
qed

theorem empty_request_crashes_witness:
  "ORBit_small_invoke_adaptor ex_send_env ex_call_env [] ex_method ex_body (ex_reader False []) = Inl Crash"
proof -
  have "filter arg_sent (im_arguments ex_method) =
      [\<lparr>arg_tc = TC_basic CORBA_tk_long, arg_flags = I_ARG_IN\<rparr>, \<lparr>arg_tc = TC_basic CORBA_tk_string, arg_flags = I_ARG_INOUT\<rparr>]"
    by (simp add: ex_method_def arg_sent_def has_flag_def flag_defs)
  note fl = this
  have ex: "exhausted (ex_reader False [])" by (simp add: exhausted_def ex_reader_def Let_def)
  show ?thesis
    by (rule empty_request_crashes [OF ex _ fl, where x = "\<lparr>arg_tc = TC_basic CORBA_tk_string, arg_flags = I_ARG_INOUT\<rparr>"])
      (simp_all add: ex_call_env_def needs_bytes_def base_type_def arg_kind_def obj_string_type_def TC_basic_def)
qed

section \<open>Replies without results\<close>

lemma missing_result:
  assumes "giop_recv_buffer_reply_status r = 0" "has_result m = None" "im_arguments m = [a]"
    and "arg_flags a = I_ARG_OUT" "\<not> base_type (arg_kind a)" "\<not> obj_string_type (arg_kind a)"
    and "ORBit_demarshal_value (max_depth ce) (arg_tc a) r = Inl (TcRecv Malformed)"
  shows "orbit_small_demarshal ce fw (Some r) m [p] =
    Inr \<lparr>ro_type = MARSHAL_CLEAN, ro_ev = NO_EXCEPTION, ro_ret = None, ro_args = [None]\<rparr>"
proof -
  have "arg_returned a" "\<not> out_in_place a"
    using assms(4-6) by (simp_all add: out_in_place_def arg_returned_def arg_fixed_def has_flag_def flag_defs)
  then show ?thesis
    using assms by (simp add: orbit_small_demarshal_def demarshal_results_def demarshal_slot_alias)
qed

text \<open>
  A returned argument that the reply does not hold is not noticed where the stub
  allocates it: the call ends without an exception, and the argument is a null pointer.
\<close>

lemma missing_result_unnoticed:
  assumes "giop_recv_buffer_reply_status r = 0" "has_result m = None" "im_arguments m = [a]"
    and "arg_flags a = I_ARG_OUT" "\<not> base_type (arg_kind a)" "\<not> obj_string_type (arg_kind a)"
    and "ORBit_demarshal_value (max_depth ce) (arg_tc a) r = Inl (TcRecv Malformed)"
  shows "orbit_small_demarshal ce fw (Some r) m [p] =
    Inr \<lparr>ro_type = MARSHAL_CLEAN, ro_ev = NO_EXCEPTION, ro_ret = None, ro_args = [None]\<rparr>"
  using assms by (rule missing_result)

definition ex_getter :: IMethod where
  "ex_getter = \<lparr>im_arguments = [\<lparr>arg_tc = ex_small_tc, arg_flags = I_ARG_OUT\<rparr>], im_contexts = [], im_exceptions = [],
     im_ret = None, im_name = [0x68, 0x69], im_flags = 0\<rparr>"

definition ex_empty_reply :: GIOPRecvBuffer where
  "ex_empty_reply = (ex_reader False [])\<lparr>giop_version := GIOP_1_2, msg_u := Msg_reply_1_2
     \<lparr>rp_service_context = [], rp_request_id = 7, rp_reply_status = 0\<rparr>\<rparr>"

lemma ex_missing:
  "giop_recv_buffer_reply_status ex_empty_reply = 0" "has_result ex_getter = None"
  "im_arguments ex_getter = [\<lparr>arg_tc = ex_small_tc, arg_flags = I_ARG_OUT\<rparr>]"
  "\<not> base_type (arg_kind \<lparr>arg_tc = ex_small_tc, arg_flags = I_ARG_OUT\<rparr>)"
  "\<not> obj_string_type (arg_kind \<lparr>arg_tc = ex_small_tc, arg_flags = I_ARG_OUT\<rparr>)"
  "ORBit_demarshal_value (max_depth ex_call_env) ex_small_tc ex_empty_reply = Inl (TcRecv Malformed)"
  by code_simp (simp_all add: ex_getter_def has_result_def arg_kind_def ex_small_tc_def ex_plain_tc_def base_type_def
    obj_string_type_def, code_simp)

lemma missing_result_unnoticed_witness:
  "orbit_small_demarshal ex_call_env (\<lambda>_. False) (Some ex_empty_reply) ex_getter [None] =
     Inr \<lparr>ro_type = MARSHAL_CLEAN, ro_ev = NO_EXCEPTION, ro_ret = None, ro_args = [None]\<rparr>"
  by (rule missing_result_unnoticed [OF ex_missing(1-3) _ ex_missing(4,5)]) (simp_all add: ex_missing(6))

section \<open>Forwarded calls\<close>

text \<open>Attempt \<open>n\<close> is answered by a forward, and the place it names can be reached.\<close>

definition forwards :: "network \<Rightarrow> nat \<Rightarrow> bool" where
  "forwards net n \<longleftrightarrow> connect net (n + 1) \<noteq> None \<and>
     (\<forall>buf. \<exists>rb. exchange net n buf = Received (Some rb) \<and> giop_recv_buffer_reply_status rb = 3)"

text \<open>The request can be put together for any target.\<close>

definition can_marshal :: "SendEnv \<Rightarrow> u32 \<Rightarrow> IMethod \<Rightarrow> cvalue option list \<Rightarrow> context_map option \<Rightarrow> bool" where
  "can_marshal env rid m args ctx \<longleftrightarrow>
     (\<forall>sbl v key. \<exists>b sbl'. orbit_small_marshal env sbl v key rid m args ctx = Inr (b, sbl'))"

lemma forwarded_attempt:
  assumes "forwards net n" "can_marshal env rid m args ctx" "\<not> has_flag (im_flags m) I_METHOD_1_WAY"
  shows "\<exists>sbl'. attempt env ce net sbl rid m args ctx n target = (None, sbl')"
proof -
  obtain v key where t: "target = (v, key)" by (cases target)
  obtain b sbl' where b: "orbit_small_marshal env sbl v key rid m args ctx = Inr (b, sbl')"
    using assms(2) unfolding can_marshal_def by blast
  obtain rb where rb: "exchange net n b = Received (Some rb)" "giop_recv_buffer_reply_status rb = 3"
    using assms(1) by (auto simp: forwards_def)
  have "connect net (Suc n) \<noteq> None" using assms(1) by (simp add: forwards_def)
  then show ?thesis
    using assms(3) by (simp add: attempt_def t b rb orbit_small_demarshal_def)
qed

lemma forwarded_retry:
  assumes "forwards net n" "can_marshal env rid m args ctx" "\<not> has_flag (im_flags m) I_METHOD_1_WAY"
    and "connect net n \<noteq> None"
  shows "\<exists>sbl'. retry_request env ce net rid m args ctx n sbl = retry_request env ce net rid m args ctx (n + 1) sbl'"
proof -
  obtain target where "connect net n = Some target" using assms(4) by auto
  moreover obtain sbl' where "attempt env ce net sbl rid m args ctx n target = (None, sbl')"
    using forwarded_attempt [OF assms(1-3)] by blast
  ultimately have "retry_request env ce net rid m args ctx n sbl = retry_request env ce net rid m args ctx (n + 1) sbl'"
    by (subst retry_request.simps) simp
  then show ?thesis by blast
qed

lemma forwarded_pool:
  assumes "forwards net i" "\<not> has_flag (im_flags m) I_METHOD_1_WAY" "im_contexts m = []"
    and pool: "\<forall>b \<in> set sbl. pool_ok b" and key: "key_ok env key"
    and args: "length args = length (im_arguments m)" "chosen arg_sent (im_arguments m) args = map Some vs"
      "values_ok (chosen_tcs arg_sent (im_arguments m)) vs" and sz: "request_size key m vs < 2 ^ 31"
  shows "\<exists>sbl'. attempt env ce net sbl rid m args ctx i (v, key) = (None, sbl') \<and> (\<forall>b \<in> set sbl'. pool_ok b)"
proof -
  obtain b xs sbl' where b: "orbit_small_marshal env sbl v key rid m args ctx = Inr (b, sbl')"
    "builds env v GIOP_REQUEST (payload env (request_head env sbl v key rid m) @ xs) b" "\<forall>b \<in> set sbl'. pool_ok b"
    by (rule request_written [OF pool key assms(3) args sz])
  obtain rb where rb: "exchange net i b = Received (Some rb)" "giop_recv_buffer_reply_status rb = 3"
    using assms(1) by (auto simp: forwards_def)
  have "connect net (Suc i) \<noteq> None" using assms(1) by (simp add: forwards_def)
  then have "attempt env ce net sbl rid m args ctx i (v, key) = (None, giop_send_buffer_unuse sbl' b)"
    using assms(2) by (simp add: attempt_def b(1) rb orbit_small_demarshal_def)
  then show ?thesis using unuse_pool [OF b(2,3)] by blast
qed

text \<open>
  C17. A call whose first \<open>k\<close> attempts are answered by forwards, each to a place that can be
  reached, and that gets through to a server at the last of these places, is transparent all the
  same: the whole request is sent again at each place, so that the method is given the
  arguments of the caller, and the stub returns exactly what it leaves. (For the methods and
  values of C7.)
\<close>

theorem forwarded_call_returns:
  assumes peers: "ready n client" "ready n server" "n < 2 ^ 31"
    and net: "\<forall>i < k. forwards net i" "connect net 0 \<noteq> None" "exchange net k = wire_call ce client server rid m body"
    and keys: "\<forall>i \<le> k. \<forall>v key. connect net i = Some (v, key) \<longrightarrow> key_ok (peer_send client) key \<and> request_size key m vs \<le> n"
    and name: "0 \<notin> set (im_name m)" and m: "im_contexts m = []" "\<not> has_flag (im_flags m) I_METHOD_1_WAY"
    and args: "length args = length (im_arguments m)" "chosen arg_sent (im_arguments m) args = map Some vs"
      "values_ok (chosen_tcs arg_sent (im_arguments m)) vs" "vdepths vs \<le> max_depth ce"
    and outcome: "transferable ce m (body (arguments_of m vs) No_table)"
    and size: "vbounds (outcome_values m (body (arguments_of m vs) No_table)) + 136 \<le> n"
  shows "\<exists>pool. ORBit_small_invoke_stub (peer_send client) ce net (peer_pool client) rid True m args ctx =
    Some (Inr (call_result m (body (arguments_of m vs) No_table) args), pool)"
proof -
  let ?env = "peer_send client" and ?out = "call_result m (body (arguments_of m vs) No_table) args"
  have connected: "\<exists>v key. connect net i = Some (v, key) \<and> key_ok ?env key \<and> request_size key m vs \<le> n" if "i \<le> k" for i
  proof -
    have "connect net i \<noteq> None" using net(1,2) that by (cases i) (auto simp: forwards_def)
    then obtain v key where "connect net i = Some (v, key)" by auto
    then show ?thesis using keys that by blast
  qed
  have "\<exists>pool. retry_request ?env ce net rid m args ctx (k - j) sbl = Some (Inr ?out, pool)"
    if "j \<le> k" "\<forall>b \<in> set sbl. pool_ok b" for j sbl
    using that
  proof (induction j arbitrary: sbl)
    case 0
    obtain v key where t: "connect net k = Some (v, key)" "key_ok ?env key" "request_size key m vs \<le> n"
      using connected [of k] by auto
    obtain pool where "attempt ?env ce net sbl rid m args ctx k (v, key) = (Some (Inr ?out), pool)"
      using wire_attempt [where body = body, OF peers 0(2) t(2) name m args outcome t(3) size net(3)] by blast
    then show ?case by (subst retry_request.simps) (simp add: t(1))
  next
    case (Suc j)
    let ?i = "k - Suc j"
    have i: "?i < k" "?i + 1 = k - j" using Suc.prems(1) by simp_all
    obtain v key where t: "connect net ?i = Some (v, key)" "key_ok ?env key" "request_size key m vs < 2 ^ 31"
      using connected [of ?i] peers(3) by fastforce
    obtain sbl' where a: "attempt ?env ce net sbl rid m args ctx ?i (v, key) = (None, sbl')" "\<forall>b \<in> set sbl'. pool_ok b"
      using forwarded_pool [OF _ m(2,1) Suc.prems(2) t(2) args(1-3) t(3)] net(1) i(1) by blast
    from Suc.IH [OF _ a(2)] Suc.prems(1) i(2) show ?case
      by (subst retry_request.simps) (simp add: t(1) a(1))
  qed
  from this [of k "peer_pool client"] peers(1) show ?thesis
    by (simp add: ORBit_small_invoke_stub_def ready_def)
qed

text \<open>A network that forwards twice before it gives the empty reply.\<close>

definition ex_forward :: GIOPRecvBuffer where
  "ex_forward = ex_empty_reply\<lparr>msg_u := Msg_reply_1_2 \<lparr>rp_service_context = [], rp_request_id = 7, rp_reply_status = 3\<rparr>\<rparr>"

definition ex_forwarding :: "nat \<Rightarrow> network" where
  "ex_forwarding k = \<lparr>connect = \<lambda>_. Some (GIOP_1_2, ex_key),
     exchange = \<lambda>n _. Received (Some (if n < k then ex_forward else ex_empty_reply))\<rparr>"

lemma ex_forwards: "n < k \<Longrightarrow> forwards (ex_forwarding k) n"
  by (auto simp: forwards_def ex_forwarding_def ex_forward_def giop_recv_buffer_reply_status_def ex_empty_reply_def)

lemma ex_getter_marshal: "can_marshal ex_send_env rid ex_getter [None] ctx"
  by (auto simp: can_marshal_def orbit_small_marshal_def ex_getter_def arg_sent_def has_flag_def flag_defs
      split: prod.splits)

text \<open>Two forwards, then the server of \<open>ex_method\<close>: the request with its two arguments arrives.\<close>

definition ex_moved :: network where
  "ex_moved = \<lparr>connect = \<lambda>_. Some (GIOP_1_2, ex_key),
     exchange = \<lambda>i. if i < 2 then (\<lambda>_. Received (Some ex_forward)) else wire_call ex_call_env ex_peer ex_peer 7 ex_method ex_body\<rparr>"

theorem forwarded_call_returns_witness:
  "\<exists>pool. ORBit_small_invoke_stub ex_send_env ex_call_env ex_moved [] 7 True ex_method
     [Some (V32 3), Some (VString [0x61]), None] None =
   Some (Inr \<lparr>ro_type = MARSHAL_CLEAN, ro_ev = NO_EXCEPTION, ro_ret = Some (V64 5),
     ro_args = [Some (V32 3), Some (VString [0x62]), Some ex_value]\<rparr>, pool)"
proof -
  let ?vs = "[V32 3, VString [0x61]]"
  have f: "\<forall>i < 2. forwards ex_moved i"
    by (auto simp: forwards_def ex_moved_def ex_forward_def giop_recv_buffer_reply_status_def ex_empty_reply_def)
  have net: "connect ex_moved 0 \<noteq> None" "exchange ex_moved 2 = wire_call ex_call_env ex_peer ex_peer 7 ex_method ex_body"
    by (simp_all add: ex_moved_def)
  have keys: "\<forall>i \<le> 2. \<forall>v key. connect ex_moved i = Some (v, key) \<longrightarrow> key_ok (peer_send ex_peer) key \<and> request_size key ex_method ?vs \<le> 1000"
    using ex_call(1,5) by (auto simp: ex_moved_def)
  have "\<exists>pool. ORBit_small_invoke_stub (peer_send ex_peer) ex_call_env ex_moved (peer_pool ex_peer) 7 True ex_method
     [Some (V32 3), Some (VString [0x61]), None] None =
     Some (Inr (call_result ex_method (ex_body (arguments_of ex_method ?vs) No_table) [Some (V32 3), Some (VString [0x61]), None]), pool)"
    by (rule forwarded_call_returns [where k = 2, OF ex_peer_ready ex_peer_ready _ f net keys ex_call(2) _ _ _ ex_call(3,4,6) ex_transferable])
      (simp_all add: ex_out_size, simp_all add: ex_method_def has_flag_def)
  then show ?thesis by (simp add: ex_call_result) (simp add: ex_peer_def)
qed

lemma retry_only_forwarded:
  assumes "retry_request env ce net rid m args ctx n sbl = Some y"
  shows "\<exists>n target sbl. connect net n = None \<or> (\<forall>sbl'. attempt env ce net sbl rid m args ctx n target \<noteq> (None, sbl'))"
proof (rule retry_request.raw_induct [OF _ assms, where P = "\<lambda>env ce net rid m args ctx n sbl y.
    \<exists>n target sbl. connect net n = None \<or> (\<forall>sbl'. attempt env ce net sbl rid m args ctx n target \<noteq> (None, sbl'))"])
  fix f env ce net rid m args ctx n sbl y
  assume IH: "\<And>env ce net rid m args ctx n sbl y. f env ce net rid m args ctx n sbl = Some y \<Longrightarrow>
      \<exists>n target sbl. connect net n = None \<or> (\<forall>sbl'. attempt env ce net sbl rid m args ctx n target \<noteq> (None, sbl'))"
    and body: "(case connect net n of
        None \<Rightarrow> Some (Inr (failed_call ''COMM_FAILURE'' COMPLETED_NO None args), sbl)
      | Some target \<Rightarrow>
          (case attempt env ce net sbl rid m args ctx n target of
             (Some out, sbl) \<Rightarrow> Some (out, sbl)
           | (None, sbl) \<Rightarrow> f env ce net rid m args ctx (n + 1) sbl)) = Some y"
  show "\<exists>n target sbl. connect net n = None \<or> (\<forall>sbl'. attempt env ce net sbl rid m args ctx n target \<noteq> (None, sbl'))"
  proof (rule ccontr)
    assume no: "\<not> ?thesis"
    then obtain target where t: "connect net n = Some target" by fastforce
    obtain sbl' where "attempt env ce net sbl rid m args ctx n target = (None, sbl')" using no by blast
    with t body have "f env ce net rid m args ctx (n + 1) sbl' = Some y" by simp
    from no IH [OF this] show False by (rule notE)
  qed
qed

text \<open>
  C33. Nothing ends a call whose every attempt is forwarded: the stub does not return.
\<close>

theorem endless_forwarding:
  assumes "\<forall>n. forwards net n" "connect net 0 \<noteq> None"
    and "can_marshal env rid m args ctx" "\<not> has_flag (im_flags m) I_METHOD_1_WAY"
  shows "ORBit_small_invoke_stub env ce net sbl rid True m args ctx = None"
proof -
  have connected: "connect net n \<noteq> None" for n
    using assms(1,2) by (cases n) (auto simp: forwards_def)
  have "\<exists>sbl'. attempt env ce net sbl rid m args ctx n target = (None, sbl')" for n sbl target
    using forwarded_attempt assms by blast
  with connected retry_only_forwarded show ?thesis
    by (metis ORBit_small_invoke_stub_def option.exhaust)
qed

theorem endless_forwarding_witness:
  "ORBit_small_invoke_stub ex_send_env ex_call_env
     \<lparr>connect = \<lambda>_. Some (GIOP_1_2, ex_key), exchange = \<lambda>_ _. Received (Some ex_forward)\<rparr> [] 7 True ex_getter [None] None = None"
proof (rule endless_forwarding)
  show "\<forall>n. forwards \<lparr>connect = \<lambda>_. Some (GIOP_1_2, ex_key), exchange = \<lambda>_ _. Received (Some ex_forward)\<rparr> n"
    by (auto simp: forwards_def ex_forward_def giop_recv_buffer_reply_status_def ex_empty_reply_def)
qed (simp_all add: ex_getter_marshal, simp_all add: ex_getter_def has_flag_def ex_key_def)

section \<open>Exceptions in malformed replies\<close>

text \<open>A reply of status user exception whose id has no terminator and ends the message.\<close>

definition ex_unterminated :: GIOPRecvBuffer where
  "ex_unterminated = (ex_reader False [4, 0, 0, 0, 0x49, 0x44, 0x4c, 0x3a])\<lparr>giop_version := GIOP_1_2, msg_u := Msg_reply_1_2
     \<lparr>rp_service_context = [], rp_request_id = 7, rp_reply_status = 1\<rparr>\<rparr>"

text \<open>
  The id of an exception is compared in place and its length is not checked: a reply
  whose id has no terminator makes the stub read outside the message.
\<close>

lemma exception_id_read_outside:
  "ORBit_handle_exception_array ex_call_env ex_unterminated
     [TypeCode 0 CORBA_tk_except 0 [] None [] (map of_char ''IDL:E:1.0'') [] [] 0 0 0 0] =
   Inl (Decoding (TcRecv OutOfBounds))"
proof -
  let ?ts = "[TypeCode 0 CORBA_tk_except 0 [] None [] (map of_char ''IDL:E:1.0'') [] [] 0 0 0 0]"
  have c: "case demarshal_ulong ex_unterminated of
      Inr (len, buf) \<Rightarrow> len \<noteq> 0 \<and> find_exception (advance (ucast len) buf) (rcur buf) ?ts = Inl OutOfBounds
    | Inl e \<Rightarrow> False"
    by code_simp
  obtain len buf where d: "demarshal_ulong ex_unterminated = Inr (len, buf)"
  proof (cases "demarshal_ulong ex_unterminated")
    case (Inl e)
    then show thesis using c by (simp only: sum.case)
  next
    case (Inr p)
    then show thesis using that by (cases p) simp
  qed
  have b: "len \<noteq> 0" "find_exception (advance (ucast len) buf) (rcur buf) ?ts = Inl OutOfBounds"
    using c unfolding d sum.case prod.case by blast+
  have st: "giop_recv_buffer_reply_status ex_unterminated = 1" by code_simp
  show ?thesis
    unfolding ORBit_handle_exception_array_def Let_def st user_exception_def
    using b by (simp add: d del: find_exception.simps)
qed

end
