(* ===== verification/Ior_Types.thy ===== *)
theory Ior_Types
  imports Giop_Send
begin

text \<open>
  The profiles and components of an object reference (\<open>src/orb/orb-core/iop-profiles.c\<close>,
  \<open>iop-profiles.h\<close>): the structures, the object key they share, where they lead, when two
  are equal, how the ORB makes and copies them.
\<close>

section \<open>Memory\<close>

text \<open>
  The block a \<open>char *\<close> leads to, a null pointer as a block of no bytes. It is a C string
  when it holds a zero octet; what a peer sent need not be one.
\<close>

type_synonym memory = "byte list"

definition c_str :: "memory \<Rightarrow> byte list option" where
  "c_str m = (if 0 \<in> set m then Some (takeWhile (\<lambda>b. b \<noteq> 0) m) else None)"

text \<open>\<open>strcmp\<close> of two blocks is zero; \<open>None\<close> when it runs past the end of one.\<close>

fun same_string :: "memory \<Rightarrow> memory \<Rightarrow> bool option" where
  "same_string (a # as) (b # bs) =
     (if a \<noteq> b then Some False else if a = 0 then Some True else same_string as bs)"
| "same_string _ _ = None"

text \<open>\<open>g_strdup\<close>, which passes a null pointer on.\<close>

definition g_strdup :: "memory \<Rightarrow> memory option" where
  "g_strdup m = (if m = [] then Some [] else map_option (\<lambda>s. s @ [0]) (c_str m))"

lemma c_str_terminated [simp]: "0 \<notin> set s \<Longrightarrow> c_str (s @ [0]) = Some s"
proof -
  assume "0 \<notin> set s"
  then have "takeWhile (\<lambda>b. b \<noteq> 0) s = s" "\<forall>b \<in> set s. b \<noteq> 0"
    by (auto simp: takeWhile_eq_all_conv)
  then show ?thesis by (simp add: c_str_def takeWhile_append2)
qed

lemma same_string_terminated:
  "0 \<notin> set s \<Longrightarrow> 0 \<notin> set t \<Longrightarrow> same_string (s @ [0]) (t @ [0]) = Some (s = t)"
proof (induction s arbitrary: t)
  case Nil
  then show ?case by (cases t) auto
next
  case (Cons a s)
  then show ?case by (cases t) auto
qed

section \<open>Numbers in strings\<close>

text \<open>\<^verbatim>\<open>%d\<close> of a number that is not negative.\<close>

fun decimal :: "nat \<Rightarrow> byte list" where
  "decimal n = (if n < 10 then [of_nat (48 + n)] else decimal (n div 10) @ [of_nat (48 + n mod 10)])"

declare decimal.simps [simp del]

definition isdigit :: "byte \<Rightarrow> bool" where
  "isdigit b \<longleftrightarrow> 48 \<le> b \<and> b \<le> 57"

definition digits_value :: "byte list \<Rightarrow> int" where
  "digits_value = foldl (\<lambda>n b. 10 * n + (uint b - 48)) 0"

text \<open>
  \<open>atoi\<close>: white space, a sign, digits up to the first other character. The value goes
  through a \<open>long\<close>, which saturates, to an \<open>int\<close>.
\<close>

definition saturated :: "int \<Rightarrow> int" where
  "saturated n = max (- (2 ^ 63)) (min (2 ^ 63 - 1) n)"

definition atoi :: "byte list \<Rightarrow> int" where
  "atoi s =
     (let s = dropWhile (\<lambda>b. b = 32 \<or> 9 \<le> b \<and> b \<le> 13) s;
          number = (\<lambda>s. digits_value (takeWhile isdigit s))
      in sint (word_of_int (saturated
           (case s of [] \<Rightarrow> 0
            | c # r \<Rightarrow> if c = 45 then - number r else if c = 43 then number r else number s)) :: u32))"

section \<open>Profiles and components\<close>

abbreviation IOP_TAG_INTERNET_IOP :: u32 where "IOP_TAG_INTERNET_IOP \<equiv> 0"
abbreviation IOP_TAG_MULTIPLE_COMPONENTS :: u32 where "IOP_TAG_MULTIPLE_COMPONENTS \<equiv> 1"
definition IOP_TAG_ORBIT_SPECIFIC :: u32 where "IOP_TAG_ORBIT_SPECIFIC = 0xBADFAECA"
definition IOP_TAG_GENERIC_IOP :: u32 where "IOP_TAG_GENERIC_IOP = 0x4F425400"

definition IOP_TAG_CODE_SETS :: u32 where "IOP_TAG_CODE_SETS = 1"
definition IOP_TAG_COMPLETE_OBJECT_KEY :: u32 where "IOP_TAG_COMPLETE_OBJECT_KEY = 5"
definition IOP_TAG_SSL_SEC_TRANS :: u32 where "IOP_TAG_SSL_SEC_TRANS = 20"
definition IOP_TAG_GENERIC_SSL_SEC_TRANS :: u32 where "IOP_TAG_GENERIC_SSL_SEC_TRANS = 0x4F425400"

lemmas tag_defs = IOP_TAG_ORBIT_SPECIFIC_def IOP_TAG_GENERIC_IOP_def IOP_TAG_CODE_SETS_def
  IOP_TAG_COMPLETE_OBJECT_KEY_def IOP_TAG_SSL_SEC_TRANS_def IOP_TAG_GENERIC_SSL_SEC_TRANS_def

type_synonym ORBit_ObjectKey = "byte list"

record CodeSetComponent =
  native_code_set :: u32
  conversion_code_sets :: "u32 list"

text \<open>A key may be a null pointer.\<close>

datatype IOP_Component_info =
    Generic_ssl_sec_trans (gs_service: memory)
  | Ssl_sec_trans (ssl_supports: u32) (ssl_requires: u32) (ssl_port: u16)
  | Complete_object_key (ck_key: "ORBit_ObjectKey option")
  | Code_sets (cs_char: CodeSetComponent) (cs_wchar: CodeSetComponent)
  | Unknown_component (uc_type: u32) (uc_data: "byte list")

fun component_type :: "IOP_Component_info \<Rightarrow> u32" where
  "component_type (Generic_ssl_sec_trans _) = IOP_TAG_GENERIC_SSL_SEC_TRANS"
| "component_type (Ssl_sec_trans _ _ _) = IOP_TAG_SSL_SEC_TRANS"
| "component_type (Complete_object_key _) = IOP_TAG_COMPLETE_OBJECT_KEY"
| "component_type (Code_sets _ _) = IOP_TAG_CODE_SETS"
| "component_type (Unknown_component t _) = t"

datatype IOP_Profile_info =
    Internet_iop (ii_version: GIOPVersion) (ii_host: memory) (ii_port: u16)
      (ii_key: "ORBit_ObjectKey option") (ii_components: "IOP_Component_info list")
  | Generic_iop (gi_version: GIOPVersion) (gi_proto: memory) (gi_host: memory) (gi_service: memory)
      (gi_components: "IOP_Component_info list")
  | Orbit_specific (os_path: memory) (os_port: u16) (os_key: "ORBit_ObjectKey option")
  | Multiple_components (mc_components: "IOP_Component_info list")
  | Unknown_profile (up_type: u32) (up_data: "byte list")

fun profile_type :: "IOP_Profile_info \<Rightarrow> u32" where
  "profile_type (Internet_iop _ _ _ _ _) = IOP_TAG_INTERNET_IOP"
| "profile_type (Generic_iop _ _ _ _ _) = IOP_TAG_GENERIC_IOP"
| "profile_type (Orbit_specific _ _ _) = IOP_TAG_ORBIT_SPECIFIC"
| "profile_type (Multiple_components _) = IOP_TAG_MULTIPLE_COMPONENTS"
| "profile_type (Unknown_profile t _) = t"

section \<open>Object keys\<close>

definition IOP_ObjectKey_equal :: "ORBit_ObjectKey \<Rightarrow> ORBit_ObjectKey \<Rightarrow> bool" where
  "IOP_ObjectKey_equal a b \<longleftrightarrow> length a = length b \<and> a = b"

text \<open>\<open>*p\<close> is a signed character.\<close>

definition IOP_mem_hash :: "byte list \<Rightarrow> u32" where
  "IOP_mem_hash = foldl (\<lambda>h b. push_bit 5 h - h + scast b) 0"

definition IOP_ObjectKey_hash :: "ORBit_ObjectKey \<Rightarrow> u32" where
  "IOP_ObjectKey_hash = IOP_mem_hash"

text \<open>
  The first key found is kept, the others are compared with it (a difference is only
  reported) and freed. \<open>None\<close>: a null key is compared.
\<close>

fun another_key :: "ORBit_ObjectKey option \<Rightarrow> ORBit_ObjectKey option \<Rightarrow> ORBit_ObjectKey option option" where
  "another_key None k = Some k"
| "another_key (Some k) (Some _) = Some (Some k)"
| "another_key (Some k) None = None"

fun sync_components :: "ORBit_ObjectKey option \<Rightarrow> IOP_Component_info list \<Rightarrow>
    (ORBit_ObjectKey option \<times> IOP_Component_info list) option" where
  "sync_components objkey [] = Some (objkey, [])"
| "sync_components objkey (Complete_object_key k # cs) =
     (case another_key objkey k of
        None \<Rightarrow> None
      | Some objkey \<Rightarrow> map_option (apsnd ((#) (Complete_object_key None))) (sync_components objkey cs))"
| "sync_components objkey (c # cs) = map_option (apsnd ((#) c)) (sync_components objkey cs)"

text \<open>Returns the key and the profiles with their keys taken away.\<close>

fun sync_profiles :: "ORBit_ObjectKey option \<Rightarrow> IOP_Profile_info list \<Rightarrow>
    (ORBit_ObjectKey option \<times> IOP_Profile_info list) option" where
  "sync_profiles objkey [] = Some (objkey, [])"
| "sync_profiles objkey (Internet_iop v h p k cs # ps) =
     (case another_key objkey k of
        None \<Rightarrow> None
      | Some objkey \<Rightarrow> map_option (apsnd ((#) (Internet_iop v h p None cs))) (sync_profiles objkey ps))"
| "sync_profiles objkey (Orbit_specific u p k # ps) =
     (case another_key objkey k of
        None \<Rightarrow> None
      | Some objkey \<Rightarrow> map_option (apsnd ((#) (Orbit_specific u p None))) (sync_profiles objkey ps))"
| "sync_profiles objkey (Multiple_components cs # ps) =
     (case sync_components objkey cs of
        None \<Rightarrow> None
      | Some (objkey, cs) \<Rightarrow> map_option (apsnd ((#) (Multiple_components cs))) (sync_profiles objkey ps))"
| "sync_profiles objkey (p # ps) = map_option (apsnd ((#) p)) (sync_profiles objkey ps)"

definition IOP_profiles_sync_objkey :: "IOP_Profile_info list \<Rightarrow>
    (ORBit_ObjectKey option \<times> IOP_Profile_info list) option" where
  "IOP_profiles_sync_objkey = sync_profiles None"

section \<open>Where a profile leads\<close>

record profile_place =
  pl_version :: GIOPVersion
  pl_proto :: memory
  pl_host :: memory
  pl_service :: memory
  pl_ssl :: bool

definition chars :: "string \<Rightarrow> byte list" where
  "chars s = map of_char s"

definition c_literal :: "string \<Rightarrow> memory" where
  "c_literal s = chars s @ [0]"

definition IOP_component_find :: "(IOP_Component_info \<Rightarrow> bool) \<Rightarrow> IOP_Component_info list \<Rightarrow> IOP_Component_info option" where
  "IOP_component_find P cs = List.find P cs"

text \<open>\<open>link_ssl\<close>: built with LINK_SSL_SUPPORT.\<close>

fun IOP_profile_get_info :: "bool \<Rightarrow> IOP_Profile_info \<Rightarrow> profile_place option" where
  "IOP_profile_get_info link_ssl (Internet_iop v h p k cs) =
     (let place = \<lparr>pl_version = v, pl_proto = c_literal ''IPv4'', pl_host = h,
            pl_service = decimal (unat p) @ [0], pl_ssl = False\<rparr>
      in case (if link_ssl then IOP_component_find is_Ssl_sec_trans cs else None) of
           Some (Ssl_sec_trans _ _ port) \<Rightarrow> Some (place\<lparr>pl_service := decimal (unat port) @ [0], pl_ssl := True\<rparr>)
         | _ \<Rightarrow> Some place)"
| "IOP_profile_get_info link_ssl (Generic_iop v proto h service cs) =
     (let place = \<lparr>pl_version = v, pl_proto = proto, pl_host = h, pl_service = service, pl_ssl = False\<rparr>
      in case (if link_ssl then IOP_component_find is_Generic_ssl_sec_trans cs else None) of
           Some (Generic_ssl_sec_trans s) \<Rightarrow> Some (place\<lparr>pl_service := s, pl_ssl := True\<rparr>)
         | _ \<Rightarrow> Some place)"
| "IOP_profile_get_info link_ssl (Orbit_specific u p k) =
     (if u \<noteq> [] \<and> hd u \<noteq> 0
      then Some \<lparr>pl_version = GIOP_1_0, pl_proto = c_literal ''UNIX'', pl_host = [0], pl_service = u, pl_ssl = False\<rparr>
      else None)"
| "IOP_profile_get_info link_ssl _ = None"

section \<open>Equality\<close>

definition has_mci :: "IOP_Profile_info list \<Rightarrow> bool" where
  "has_mci ps \<longleftrightarrow> list_ex is_Multiple_components ps"

text \<open>The strings from the left, up to the first that differ.\<close>

fun same_strings :: "(memory \<times> memory) list \<Rightarrow> bool option" where
  "same_strings [] = Some True"
| "same_strings ((a, b) # ms) =
     (case same_string a b of Some True \<Rightarrow> same_strings ms | r \<Rightarrow> r)"

text \<open>
  \<open>None\<close>: an assertion fails or a string comparison leaves its memory. Types that differ
  fall into the last equation.
\<close>

fun IOP_profile_equal :: "IOP_Profile_info list \<Rightarrow> IOP_Profile_info list \<Rightarrow> IOP_Profile_info \<Rightarrow> IOP_Profile_info \<Rightarrow>
    bool option" where
  "IOP_profile_equal ps1 ps2 (Internet_iop _ h1 p1 k1 _) (Internet_iop _ h2 p2 k2 _) =
     (if k1 \<noteq> None \<or> k2 \<noteq> None then None
      else if p1 \<noteq> p2 then Some False else same_strings [(h1, h2)])"
| "IOP_profile_equal ps1 ps2 (Generic_iop _ t1 h1 s1 _) (Generic_iop _ t2 h2 s2 _) =
     (if \<not> (has_mci ps1 \<or> has_mci ps2) then Some False
      else same_strings [(s1, s2), (h1, h2), (t1, t2)])"
| "IOP_profile_equal ps1 ps2 (Orbit_specific u1 p1 k1) (Orbit_specific u2 p2 k2) =
     (if k1 \<noteq> None \<or> k2 \<noteq> None then None
      else if p1 \<noteq> p2 then Some False else same_strings [(u1, u2)])"
| "IOP_profile_equal ps1 ps2 _ _ = Some False"

text \<open>\<open>str_hash\<close> is \<open>g_str_hash\<close> of GLib.\<close>

fun IOP_profile_hash :: "(memory \<Rightarrow> u32) \<Rightarrow> IOP_Profile_info \<Rightarrow> u32 \<Rightarrow> u32" where
  "IOP_profile_hash str_hash (Orbit_specific u p k) h = h XOR IOP_TAG_ORBIT_SPECIFIC XOR str_hash u"
| "IOP_profile_hash str_hash (Internet_iop v host p k cs) h =
     h XOR IOP_TAG_INTERNET_IOP XOR str_hash host XOR ucast p"
| "IOP_profile_hash str_hash (Generic_iop v proto host service cs) h =
     h XOR IOP_TAG_GENERIC_IOP XOR str_hash proto XOR str_hash host XOR str_hash service"
| "IOP_profile_hash str_hash (Multiple_components cs) h =
     h XOR IOP_TAG_MULTIPLE_COMPONENTS XOR of_nat (length cs)"
| "IOP_profile_hash str_hash (Unknown_profile t d) h = h XOR t XOR IOP_mem_hash d"

end
