(* ===== verification/Ior_Local.thy ===== *)
theory Ior_Local
  imports Ior_Types
begin

text \<open>
  The profiles of the ORB itself (\<open>IOP_start_profiles\<close>), which the references of its objects
  share, and the copies made for a proxy.
\<close>

section \<open>From the servers of the ORB\<close>

text \<open>\<open>LinkServer\<close>: its protocol, whether it speaks SSL, and where it listens.\<close>

record LinkServer =
  proto_name :: "byte list"
  sv_ssl :: bool
  local_host_info :: "byte list"
  local_serv_info :: "byte list"

definition string_of :: "byte list \<Rightarrow> memory" where
  "string_of s = s @ [0]"

text \<open>
  A change of the first profile of a kind in the list. \<open>None\<close> is an assertion that fails:
  a port or service is set twice.
\<close>

fun update_iiop :: "GIOPVersion \<Rightarrow> LinkServer \<Rightarrow> IOP_Profile_info list \<Rightarrow> IOP_Profile_info list option" where
  "update_iiop ver serv (Internet_iop v h p k cs # ps) =
     (if sv_ssl serv
      then Some (Internet_iop v h p k (cs @ [Ssl_sec_trans 6 6 (word_of_int (atoi (local_serv_info serv)))]) # ps)
      else if p \<noteq> 0 then None
      else Some (Internet_iop ver h (word_of_int (atoi (local_serv_info serv))) k cs # ps))"
| "update_iiop ver serv (p # ps) = map_option ((#) p) (update_iiop ver serv ps)"
| "update_iiop ver serv [] = Some []"

fun update_giop :: "LinkServer \<Rightarrow> IOP_Profile_info list \<Rightarrow> IOP_Profile_info list option" where
  "update_giop serv (Generic_iop v proto h s cs # ps) =
     (if proto \<noteq> string_of (proto_name serv) then map_option ((#) (Generic_iop v proto h s cs)) (update_giop serv ps)
      else if sv_ssl serv
      then Some (Generic_iop v proto h s (cs @ [Generic_ssl_sec_trans (string_of (local_serv_info serv))]) # ps)
      else if s \<noteq> [] then None
      else Some (Generic_iop v proto h (string_of (local_serv_info serv)) cs # ps))"
| "update_giop serv (p # ps) = map_option ((#) p) (update_giop serv ps)"
| "update_giop serv [] = Some []"

definition is_giop_of :: "LinkServer \<Rightarrow> IOP_Profile_info \<Rightarrow> bool" where
  "is_giop_of serv p \<longleftrightarrow> (case p of Generic_iop _ proto _ _ _ \<Rightarrow> proto = string_of (proto_name serv) | _ \<Rightarrow> False)"

text \<open>
  One server: \<open>osi\<close>, made for the first UNIX server, is kept apart and appended at the end.
  A new profile has version 0 (GIOP 1.0) and port 0.
\<close>

definition start_server :: "GIOPVersion \<Rightarrow> LinkServer \<Rightarrow> IOP_Profile_info list \<times> IOP_Profile_info option \<Rightarrow>
    (IOP_Profile_info list \<times> IOP_Profile_info option) option" where
  "start_server ver serv = (\<lambda>(profiles, osi).
     let osi = (if osi = None \<and> proto_name serv = chars ''UNIX''
                then Some (Orbit_specific (string_of (local_serv_info serv)) 0 None) else osi)
     in map_option (\<lambda>profiles. (profiles, osi))
       (if proto_name serv = chars ''IPv4''
        then update_iiop ver serv (if list_ex is_Internet_iop profiles then profiles
               else profiles @ [Internet_iop GIOP_1_0 (string_of (local_host_info serv)) 0 None []])
        else update_giop serv (if list_ex (is_giop_of serv) profiles then profiles
               else profiles @ [Generic_iop ver (string_of (proto_name serv)) (string_of (local_host_info serv)) [] []])))"

fun start_servers :: "GIOPVersion \<Rightarrow> LinkServer list \<Rightarrow> IOP_Profile_info list \<times> IOP_Profile_info option \<Rightarrow>
    (IOP_Profile_info list \<times> IOP_Profile_info option) option" where
  "start_servers ver [] st = Some st"
| "start_servers ver (serv # servs) st =
     (case start_server ver serv st of None \<Rightarrow> None | Some st \<Rightarrow> start_servers ver servs st)"

definition own_code_sets :: IOP_Component_info where
  "own_code_sets = Code_sets \<lparr>native_code_set = 0x05010001, conversion_code_sets = []\<rparr>
     \<lparr>native_code_set = 0x00010109, conversion_code_sets = []\<rparr>"

definition IOP_start_profiles :: "GIOPVersion \<Rightarrow> LinkServer list \<Rightarrow> IOP_Profile_info list option" where
  "IOP_start_profiles ver servers =
     map_option (\<lambda>(profiles, osi).
       profiles @ (case osi of Some p \<Rightarrow> [p] | None \<Rightarrow> []) @
       [Multiple_components ((if servers \<noteq> [] then [Complete_object_key None] else []) @ [own_code_sets])])
     (start_servers ver servers ([], None))"

section \<open>Copies\<close>

text \<open>
  Every list is copied by prepending, which turns it around. A code sets component is made
  empty; the data of unknown profiles and components are copied. The type of an unknown
  profile or component is copied with its head. \<open>None\<close>: \<open>g_strdup\<close> leaves its memory.
\<close>

fun IOP_component_copy :: "IOP_Component_info \<Rightarrow> IOP_Component_info option" where
  "IOP_component_copy (Complete_object_key k) = Some (Complete_object_key k)"
| "IOP_component_copy (Generic_ssl_sec_trans s) = map_option Generic_ssl_sec_trans (g_strdup s)"
| "IOP_component_copy (Ssl_sec_trans s r p) = Some (Ssl_sec_trans s r p)"
| "IOP_component_copy (Code_sets c w) =
     Some (Code_sets \<lparr>native_code_set = 0, conversion_code_sets = []\<rparr> \<lparr>native_code_set = 0, conversion_code_sets = []\<rparr>)"
| "IOP_component_copy (Unknown_component t d) = Some (Unknown_component t d)"

fun prepend_copies :: "('a \<Rightarrow> 'a option) \<Rightarrow> 'a list \<Rightarrow> 'a list \<Rightarrow> 'a list option" where
  "prepend_copies f [] ret = Some ret"
| "prepend_copies f (x # xs) ret = (case f x of None \<Rightarrow> None | Some y \<Rightarrow> prepend_copies f xs (y # ret))"

definition IOP_components_copy :: "IOP_Component_info list \<Rightarrow> IOP_Component_info list option" where
  "IOP_components_copy cs = prepend_copies IOP_component_copy cs []"

fun IOP_profile_copy :: "IOP_Profile_info \<Rightarrow> IOP_Profile_info option" where
  "IOP_profile_copy (Internet_iop v h p k cs) =
     (case (g_strdup h, IOP_components_copy cs) of
        (Some h, Some cs) \<Rightarrow> Some (Internet_iop v h p k cs) | _ \<Rightarrow> None)"
| "IOP_profile_copy (Generic_iop v proto h s cs) =
     (case (g_strdup proto, g_strdup h, g_strdup s, IOP_components_copy cs) of
        (Some proto, Some h, Some s, Some cs) \<Rightarrow> Some (Generic_iop v proto h s cs) | _ \<Rightarrow> None)"
| "IOP_profile_copy (Orbit_specific u p k) = map_option (\<lambda>u. Orbit_specific u p k) (g_strdup u)"
| "IOP_profile_copy (Multiple_components cs) = map_option Multiple_components (IOP_components_copy cs)"
| "IOP_profile_copy (Unknown_profile t d) = Some (Unknown_profile t d)"

definition IOP_profiles_copy :: "IOP_Profile_info list \<Rightarrow> IOP_Profile_info list option" where
  "IOP_profiles_copy ps = prepend_copies IOP_profile_copy ps []"

end
