(* ===== verification/Ior_Marshal.thy ===== *)
theory Ior_Marshal
  imports Ior_Local Cdr_Value
begin

text \<open>
  Marshalling of an object reference: the second part of \<open>iop-profiles.c\<close> and
  \<open>ORBit_marshal_object\<close> of \<open>corba-object.c\<close>. \<open>None\<close> is a null pointer followed, a string
  read past its memory, or a failed assertion.
\<close>

section \<open>Encapsulations\<close>

text \<open>
  An octet sequence whose length is not known yet: room for it is appended, the octets
  follow, then the length is copied into the room. The octets are counted by the message
  size; \<open>initial\<close> is what the room holds before.
\<close>

definition patched :: "SendEnv \<Rightarrow> byte list option \<Rightarrow> (GIOPSendBuffer \<Rightarrow> GIOPSendBuffer option) \<Rightarrow> GIOPSendBuffer \<Rightarrow>
    (GIOPSendBuffer \<times> u32) option" where
  "patched env initial body buf =
     (let (buf, marker) = giop_send_buffer_append_aligned env buf initial 4;
          before = sb_message_size buf
      in map_option (\<lambda>b. let len = sb_message_size b - before in (store b marker (le32 len), len)) (body buf))"

definition append_flags :: "SendEnv \<Rightarrow> GIOPSendBuffer \<Rightarrow> GIOPSendBuffer" where
  "append_flags env buf = append_bytes env buf [sb_flags buf]"

definition append_memory_string :: "SendEnv \<Rightarrow> memory \<Rightarrow> GIOPSendBuffer \<Rightarrow> GIOPSendBuffer option" where
  "append_memory_string env m buf =
     map_option (giop_send_buffer_append_string env buf (BConst m, 0)) (c_str m)"

definition IOP_ObjectKey_marshal :: "SendEnv \<Rightarrow> ORBit_ObjectKey option \<Rightarrow> GIOPSendBuffer \<Rightarrow> GIOPSendBuffer option" where
  "IOP_ObjectKey_marshal env objkey buf =
     map_option (\<lambda>k. append_const env (append_aligned32 env buf (of_nat (length k))) k) objkey"

section \<open>Components\<close>

definition CodeSetComponent_marshal :: "SendEnv \<Rightarrow> CodeSetComponent \<Rightarrow> GIOPSendBuffer \<Rightarrow> GIOPSendBuffer" where
  "CodeSetComponent_marshal env c buf =
     (let buf = append_aligned32 env buf (native_code_set c);
          buf = append_aligned32 env buf (of_nat (length (conversion_code_sets c)))
      in if conversion_code_sets c = [] then buf
         else append_const env buf (concat (map le32 (conversion_code_sets c))))"

definition Ssl_marshal :: "SendEnv \<Rightarrow> u32 \<Rightarrow> u32 \<Rightarrow> u16 \<Rightarrow> GIOPSendBuffer \<Rightarrow> GIOPSendBuffer" where
  "Ssl_marshal env supports requires port buf =
     append_bytes env (giop_send_buffer_align env buf 4) (le32 supports @ le32 requires @ le16 port)"

definition IOP_UnknownComponent_marshal :: "SendEnv \<Rightarrow> byte list \<Rightarrow> GIOPSendBuffer \<Rightarrow> GIOPSendBuffer" where
  "IOP_UnknownComponent_marshal env data buf =
     append_const env (append_bytes env buf (le32 (of_nat (length data)))) data"

text \<open>
  What follows the type. The variable \<open>len\<close> of the loop serves for the number of components
  first and then for the length of each encapsulation; it is what the next one's room holds.
\<close>

fun component_body :: "SendEnv \<Rightarrow> ORBit_ObjectKey option \<Rightarrow> IOP_Component_info \<Rightarrow> u32 \<Rightarrow> GIOPSendBuffer \<Rightarrow>
    (GIOPSendBuffer \<times> u32) option" where
  "component_body env key (Generic_ssl_sec_trans s) len buf =
     patched env (Some (le32 len)) (\<lambda>buf. append_memory_string env s (append_flags env buf)) buf"
| "component_body env key (Ssl_sec_trans s r p) len buf =
     patched env (Some (le32 len)) (\<lambda>buf. Some (Ssl_marshal env s r p (append_flags env buf))) buf"
| "component_body env key (Complete_object_key k) len buf =
     map_option (\<lambda>buf. (buf, len)) (IOP_ObjectKey_marshal env key buf)"
| "component_body env key (Code_sets c w) len buf =
     patched env (Some (le32 len)) (\<lambda>buf. Some (CodeSetComponent_marshal env w
       (CodeSetComponent_marshal env c (append_flags env buf)))) buf"
| "component_body env key (Unknown_component t d) len buf = Some (IOP_UnknownComponent_marshal env d buf, len)"

fun components_loop :: "SendEnv \<Rightarrow> ORBit_ObjectKey option \<Rightarrow> IOP_Component_info list \<Rightarrow> u32 \<Rightarrow> GIOPSendBuffer \<Rightarrow>
    GIOPSendBuffer option" where
  "components_loop env key [] len buf = Some buf"
| "components_loop env key (c # cs) len buf =
     (case component_body env key c len
             (append_bytes env (giop_send_buffer_align env buf 4) (le32 (component_type c))) of
        None \<Rightarrow> None
      | Some (buf, len) \<Rightarrow> components_loop env key cs len buf)"

definition IOP_components_marshal :: "SendEnv \<Rightarrow> ORBit_ObjectKey option \<Rightarrow> IOP_Component_info list \<Rightarrow> GIOPSendBuffer \<Rightarrow>
    GIOPSendBuffer option" where
  "IOP_components_marshal env key cs buf =
     (let len = of_nat (length cs) in components_loop env key cs len (append_aligned32 env buf len))"

section \<open>Profiles\<close>

definition append_version :: "SendEnv \<Rightarrow> byte \<times> byte \<Rightarrow> GIOPSendBuffer \<Rightarrow> GIOPSendBuffer" where
  "append_version env v buf = append_bytes env buf [fst v, snd v]"

definition append_port :: "SendEnv \<Rightarrow> u16 \<Rightarrow> GIOPSendBuffer \<Rightarrow> GIOPSendBuffer" where
  "append_port env p buf = append_bytes env (giop_send_buffer_align env buf 2) (le16 p)"

text \<open>The keys of the profiles themselves are not used, but the key of the reference.\<close>

definition IOP_TAG_INTERNET_IOP_marshal :: "SendEnv \<Rightarrow> ORBit_ObjectKey option \<Rightarrow> GIOPVersion \<Rightarrow> memory \<Rightarrow> u16 \<Rightarrow>
    IOP_Component_info list \<Rightarrow> GIOPSendBuffer \<Rightarrow> GIOPSendBuffer option" where
  "IOP_TAG_INTERNET_IOP_marshal env key v host port cs buf =
     (case append_memory_string env host (append_version env (giop_version_ids v) buf) of
        None \<Rightarrow> None
      | Some buf \<Rightarrow>
          (case IOP_ObjectKey_marshal env key (append_port env port buf) of
             None \<Rightarrow> None
           | Some buf \<Rightarrow> IOP_components_marshal env key cs buf))"

definition IOP_TAG_GENERIC_IOP_marshal :: "SendEnv \<Rightarrow> ORBit_ObjectKey option \<Rightarrow> GIOPVersion \<Rightarrow> memory \<Rightarrow> memory \<Rightarrow> memory \<Rightarrow>
    IOP_Component_info list \<Rightarrow> GIOPSendBuffer \<Rightarrow> GIOPSendBuffer option" where
  "IOP_TAG_GENERIC_IOP_marshal env key v proto host service cs buf =
     (case append_memory_string env proto (append_version env (giop_version_ids v) buf) of
        None \<Rightarrow> None
      | Some buf \<Rightarrow>
          (case append_memory_string env host buf of
             None \<Rightarrow> None
           | Some buf \<Rightarrow>
               (case append_memory_string env service buf of
                  None \<Rightarrow> None
                | Some buf \<Rightarrow> IOP_components_marshal env key cs buf)))"

definition IOP_TAG_ORBIT_SPECIFIC_marshal :: "SendEnv \<Rightarrow> ORBit_ObjectKey option \<Rightarrow> memory \<Rightarrow> u16 \<Rightarrow> GIOPSendBuffer \<Rightarrow>
    GIOPSendBuffer option" where
  "IOP_TAG_ORBIT_SPECIFIC_marshal env key path port buf =
     (case append_memory_string env path (append_version env (1, 2) buf) of
        None \<Rightarrow> None
      | Some buf \<Rightarrow> IOP_ObjectKey_marshal env key (append_port env port buf))"

fun profile_body :: "SendEnv \<Rightarrow> ORBit_ObjectKey option \<Rightarrow> IOP_Profile_info \<Rightarrow> GIOPSendBuffer \<Rightarrow> GIOPSendBuffer option" where
  "profile_body env key (Internet_iop v h p k cs) buf =
     IOP_TAG_INTERNET_IOP_marshal env key v h p cs (append_flags env buf)"
| "profile_body env key (Orbit_specific u p k) buf =
     IOP_TAG_ORBIT_SPECIFIC_marshal env key u p (append_flags env buf)"
| "profile_body env key (Generic_iop v proto h s cs) buf =
     IOP_TAG_GENERIC_IOP_marshal env key v proto h s cs (append_flags env buf)"
| "profile_body env key (Multiple_components cs) buf =
     IOP_components_marshal env key cs (append_flags env buf)"
| "profile_body env key (Unknown_profile t d) buf = Some (append_const env buf d)"

definition IOP_profile_marshal :: "SendEnv \<Rightarrow> ORBit_ObjectKey option \<Rightarrow> IOP_Profile_info \<Rightarrow> GIOPSendBuffer \<Rightarrow>
    GIOPSendBuffer option" where
  "IOP_profile_marshal env key p buf =
     map_option fst (patched env None (profile_body env key p) (append_aligned32 env buf (profile_type p)))"

fun profiles_loop :: "SendEnv \<Rightarrow> ORBit_ObjectKey option \<Rightarrow> IOP_Profile_info list \<Rightarrow> GIOPSendBuffer \<Rightarrow> GIOPSendBuffer option" where
  "profiles_loop env key [] buf = Some buf"
| "profiles_loop env key (p # ps) buf =
     (case IOP_profile_marshal env key p buf of None \<Rightarrow> None | Some buf \<Rightarrow> profiles_loop env key ps buf)"

section \<open>References\<close>

text \<open>
  \<open>CORBA_Object\<close>: its type id, key and profiles, the profiles it was forwarded to, its
  connection, and the key its adaptor makes for it when it is an object of this process. A
  reference of this ORB has no profiles until it is needed outside; then it gets those of the
  ORB and the key of its object.
\<close>

record reference =
  ob_type :: "byte list"
  ob_key :: "ORBit_ObjectKey option"
  ob_profiles :: "IOP_Profile_info list"
  ob_forward :: "IOP_Profile_info list"
  ob_connection :: "nat option"
  ob_adaptor :: "ORBit_ObjectKey option"

definition IOP_generate_profiles :: "IOP_Profile_info list \<Rightarrow> reference \<Rightarrow> reference" where
  "IOP_generate_profiles orb_profiles obj =
     obj\<lparr>ob_key := (if ob_key obj = None then ob_adaptor obj else ob_key obj), ob_profiles := orb_profiles\<rparr>"

definition marshal_nil :: "SendEnv \<Rightarrow> GIOPSendBuffer \<Rightarrow> GIOPSendBuffer" where
  "marshal_nil env buf = append_aligned32 env (giop_send_buffer_append_string env buf (BConst [0], 0) []) 0"

definition marshal_reference :: "SendEnv \<Rightarrow> reference \<Rightarrow> GIOPSendBuffer \<Rightarrow> GIOPSendBuffer option" where
  "marshal_reference env obj buf =
     (let buf = giop_send_buffer_append_string env buf (BConst (ob_type obj @ [0]), 0) (ob_type obj)
      in if ob_profiles obj = [] then None
         else profiles_loop env (ob_key obj) (ob_profiles obj)
                (append_aligned32 env buf (of_nat (length (ob_profiles obj)))))"

end
