(* ===== verification/Ior_Patch.thy ===== *)
theory Ior_Patch
  imports Ior_Marshal Cdr_Encoding
begin

text \<open>
  Lengths that are copied into a message after what they count (\<open>patched\<close>): such a message
  is the one that has the right length from the start. The reason is that nothing that is
  appended later reads the room of the length; this is a property of every function built
  from the operations of the send buffer, and it is shown once for all relations of buffers
  that these operations keep (\<open>simulation\<close>, \<open>uniform\<close>).
\<close>

section \<open>Relations that the operations keep\<close>

definition padding :: "GIOPSendBuffer \<Rightarrow> nat \<Rightarrow> nat" where
  "padding buf k = (let ms = unat (sb_message_size buf + header_size buf) in align_up k ms - ms)"

definition simulation :: "SendEnv \<Rightarrow> (GIOPSendBuffer \<Rightarrow> GIOPSendBuffer \<Rightarrow> bool) \<Rightarrow> bool" where
  "simulation env R \<longleftrightarrow> (\<forall>b c. R b c \<longrightarrow>
     chunks_ok b \<and> chunks_ok c \<and> num_indirects_used b \<noteq> 0 \<and> num_indirects_used c = num_indirects_used b \<and>
     indirect c = indirect b \<and> indirect_left c = indirect_left b \<and>
     sb_message_size c = sb_message_size b \<and> sb_flags c = sb_flags b \<and>
     (\<forall>k \<in> {2, 4}. padding c k = padding b k) \<and>
     (\<forall>p n. fst p \<noteq> BHeader \<longrightarrow> R (giop_send_buffer_append_real b p n) (giop_send_buffer_append_real c p n)) \<and>
     (\<forall>h. R (get_next_indirect env b h) (get_next_indirect env c h)) \<and>
     (\<forall>bs. length bs \<le> indirect_left b \<longrightarrow> R (store b (indirect b) bs) (store c (indirect c) bs)) \<and>
     (\<forall>n \<le> indirect_left b. R (bump b n) (bump c n)))"

lemma simulationD:
  assumes "simulation env R" "R b c"
  shows "chunks_ok b" "chunks_ok c" "num_indirects_used b \<noteq> 0" "num_indirects_used c = num_indirects_used b"
    "indirect c = indirect b" "indirect_left c = indirect_left b" "sb_message_size c = sb_message_size b"
    "sb_flags c = sb_flags b" "k \<in> {2, 4} \<Longrightarrow> padding c k = padding b k"
    "fst p \<noteq> BHeader \<Longrightarrow> R (giop_send_buffer_append_real b p n) (giop_send_buffer_append_real c p n)"
    "R (get_next_indirect env b h) (get_next_indirect env c h)"
    "length bs \<le> indirect_left b \<Longrightarrow> R (store b (indirect b) bs) (store c (indirect c) bs)"
    "n \<le> indirect_left b \<Longrightarrow> R (bump b n) (bump c n)"
  using assms unfolding simulation_def by blast+

lemma chunk_pointer: "chunks_ok b \<Longrightarrow> num_indirects_used b \<noteq> 0 \<Longrightarrow> fst (indirect b) \<noteq> BHeader"
  by (auto simp: chunks_ok_def split: nat.splits)

lemma next_room: "chunks_ok b \<Longrightarrow> GIOP_CHUNK_SIZE \<le> indirect_left (get_next_indirect env b h)"
  by (auto simp: get_next_indirect_def chunks_ok_def Let_def nth_append)

text \<open>A function that may fail and that keeps all these relations.\<close>

definition uniform :: "SendEnv \<Rightarrow> (GIOPSendBuffer \<Rightarrow> GIOPSendBuffer option) \<Rightarrow> bool" where
  "uniform env f \<longleftrightarrow> (\<forall>R b c. simulation env R \<longrightarrow> R b c \<longrightarrow> rel_option R (f b) (f c))"

definition uniform1 :: "SendEnv \<Rightarrow> (GIOPSendBuffer \<Rightarrow> GIOPSendBuffer) \<Rightarrow> bool" where
  "uniform1 env f \<longleftrightarrow> (\<forall>R b c. simulation env R \<longrightarrow> R b c \<longrightarrow> R (f b) (f c))"

named_theorems uniform_intros \<open>functions that are uniform\<close>

lemma uniform1D: "uniform1 env f \<Longrightarrow> simulation env R \<Longrightarrow> R b c \<Longrightarrow> R (f b) (f c)"
  by (auto simp: uniform1_def)

lemma uniformD: "uniform env f \<Longrightarrow> simulation env R \<Longrightarrow> R b c \<Longrightarrow> rel_option R (f b) (f c)"
  by (auto simp: uniform_def)

lemma uniform_Some [uniform_intros]: "uniform1 env f \<Longrightarrow> uniform env (\<lambda>b. Some (f b))"
  by (simp add: uniform_def uniform1_def)

lemma uniform_None [uniform_intros]: "uniform env (\<lambda>b. None)"
  by (simp add: uniform_def)

lemma uniform_then [uniform_intros]:
  assumes "uniform env f" "uniform env g"
  shows "uniform env (\<lambda>b. case f b of None \<Rightarrow> None | Some b \<Rightarrow> g b)"
proof (unfold uniform_def, intro allI impI)
  fix R b c assume "simulation env R" "R b c"
  with uniformD [OF assms(1) this] uniformD [OF assms(2) this(1)]
  show "rel_option R (case f b of None \<Rightarrow> None | Some b \<Rightarrow> g b) (case f c of None \<Rightarrow> None | Some b \<Rightarrow> g b)"
    by (cases "f b"; cases "f c") auto
qed

lemma uniform_after: "uniform env f \<Longrightarrow> uniform1 env g \<Longrightarrow> uniform env (\<lambda>b. f (g b))"
  unfolding uniform_def uniform1_def by blast

lemma uniform1_comp: "uniform1 env f \<Longrightarrow> uniform1 env g \<Longrightarrow> uniform1 env (\<lambda>b. f (g b))"
  unfolding uniform1_def by blast

lemma uniform1_id [uniform_intros]: "uniform1 env (\<lambda>b. b)"
  by (simp add: uniform1_def)

section \<open>The operations of the send buffer\<close>

lemma sim_room:
  assumes s: "simulation env R" and r: "R b c"
  shows "R (if indirect_left b < n then get_next_indirect env b h else b)
      (if indirect_left c < n then get_next_indirect env c h else c)"
    and "n \<le> GIOP_CHUNK_SIZE \<Longrightarrow> n \<le> indirect_left (if indirect_left b < n then get_next_indirect env b h else b)"
  using simulationD [OF s r] r next_room [of b env h] by auto

lemma sim_region:
  assumes s: "simulation env R" and r: "R b c" and n: "n \<le> indirect_left b"
  shows "R (bump (giop_send_buffer_append_real b (indirect b) n) n) (bump (giop_send_buffer_append_real c (indirect c) n) n)"
proof -
  note d = simulationD [OF s r]
  have "R (giop_send_buffer_append_real b (indirect b) n) (giop_send_buffer_append_real c (indirect b) n)"
    using d(10) chunk_pointer [OF d(1,3)] by blast
  from simulationD(13) [OF s this] n show ?thesis by (simp add: d(5))
qed

lemma sim_put:
  assumes s: "simulation env R" and r: "R b c" and n: "length bs \<le> indirect_left b"
  shows "R (bump (giop_send_buffer_append_real (store b (indirect b) bs) (indirect b) (length bs)) (length bs))
      (bump (giop_send_buffer_append_real (store c (indirect c) bs) (indirect c) (length bs)) (length bs))"
proof -
  have i: "indirect (store x p ys) = indirect x" "indirect_left (store x p ys) = indirect_left x" for x p ys
    by (simp_all add: store_def split: block.splits)
  have "R (store b (indirect b) bs) (store c (indirect c) bs)" by (rule simulationD(12) [OF s r n])
  from sim_region [OF s this, of "length bs"] n show ?thesis by (simp add: i)
qed

lemma indirect_store [simp]: "indirect (store b p bs) = indirect b" "indirect_left (store b p bs) = indirect_left b"
  "sb_message_size (store b p bs) = sb_message_size b" "sb_flags (store b p bs) = sb_flags b"
  "header_size (store b p bs) = header_size b" "num_indirects_used (store b p bs) = num_indirects_used b"
  "iovecs (store b p bs) = iovecs b" "lastptr (store b p bs) = lastptr b"
  by (simp_all add: store_def split: block.splits)

lemma uniform_append_copy:
  assumes "length bs \<le> GIOP_CHUNK_SIZE"
  shows "uniform1 env (\<lambda>b. giop_send_buffer_append_copy env b bs)"
proof (unfold uniform1_def, intro allI impI)
  fix R b c assume s: "simulation env R" and r: "R b c"
  note m = sim_room [OF s r, of "length bs" "length bs"]
  from sim_put [OF s m(1) m(2) [OF assms]]
  show "R (giop_send_buffer_append_copy env b bs) (giop_send_buffer_append_copy env c bs)"
    by (simp only: giop_send_buffer_append_copy_def Let_def indirect_store)
qed

text \<open>Memory that the buffer does not own is the same for both.\<close>

lemma uniform_append:
  assumes "src_ok env p n"
  shows "uniform1 env (\<lambda>b. giop_send_buffer_append env b p n)"
proof (cases "n \<le> 32")
  case True
  have "length (src_bytes env p n) \<le> GIOP_CHUNK_SIZE" using length_src [OF assms] True by (simp add: chunk_size)
  from uniform_append_copy [OF this] True show ?thesis
    by (simp add: giop_send_buffer_append_def src_read [OF assms])
next
  case False
  have "fst p \<noteq> BHeader" using assms by (auto simp: src_ok_def)
  with False show ?thesis
    by (auto simp: uniform1_def giop_send_buffer_append_def simulationD(10))
qed

lemma uniform_append_bytes [uniform_intros]: "length bs \<le> 32 \<Longrightarrow> uniform1 env (\<lambda>b. append_bytes env b bs)"
  unfolding append_bytes_def by (rule uniform_append) (simp add: src_ok_def)

lemma uniform_append_const [uniform_intros]: "uniform1 env (\<lambda>b. append_const env b bs)"
  unfolding append_const_def by (rule uniform_append) (simp add: src_ok_def)

lemma uniform_flags [uniform_intros]: "uniform1 env (append_flags env)"
proof (unfold uniform1_def, intro allI impI)
  fix R b c assume s: "simulation env R" "R b c"
  from uniform1D [OF uniform_append_bytes [of "[sb_flags b]"] this] simulationD(8) [OF this]
  show "R (append_flags env b) (append_flags env c)" by (simp add: append_flags_def)
qed

lemma uniform_align [uniform_intros]:
  assumes "k \<in> {2, 4}"
  shows "uniform1 env (\<lambda>b. giop_send_buffer_align env b k)"
proof (unfold uniform1_def, intro allI impI)
  fix R b c assume s: "simulation env R" and r: "R b c"
  have p: "padding c k = padding b k" by (rule simulationD(9) [OF s r assms])
  have "padding b k < k"
    using align_up_lt [of k] align_up_ge [of k] assms unfolding padding_def Let_def
    by (metis insertE le_add_diff_inverse less_add_eq_less nat_add_left_cancel_less singletonD zero_less_numeral)
  then have le: "padding b k \<le> GIOP_CHUNK_SIZE" using assms by (auto simp: chunk_size)
  note m = sim_room [OF s r, of "padding b k" 0]
  have e: "giop_send_buffer_align env x k = (if padding x k \<noteq> 0 then
      (let y = (if indirect_left x < padding x k then get_next_indirect env x 0 else x)
       in bump (giop_send_buffer_append_real y (indirect y) (padding x k)) (padding x k)) else x)" for x
    by (simp add: giop_send_buffer_align_def padding_def Let_def)
  show "R (giop_send_buffer_align env b k) (giop_send_buffer_align env c k)"
    using r sim_region [OF s m(1) m(2) [OF le]] by (simp add: e p Let_def)
qed

lemma sim_aligned:
  assumes s: "simulation env R" and r: "R b c" and i: "\<And>bs. initial = Some bs \<Longrightarrow> length bs = 4"
  shows "R (fst (giop_send_buffer_append_aligned env b initial 4)) (fst (giop_send_buffer_append_aligned env c initial 4))"
    and "snd (giop_send_buffer_append_aligned env c initial 4) = snd (giop_send_buffer_append_aligned env b initial 4)"
proof -
  let ?a = "\<lambda>x. giop_send_buffer_align env x 4"
  let ?r = "\<lambda>x. if indirect_left (?a x) < 4 then get_next_indirect env (?a x) 0 else ?a x"
  have a: "R (?a b) (?a c)" using uniform1D [OF uniform_align [of 4] s r] by simp
  note m = sim_room [OF s a, of 4 0]
  have l: "4 \<le> indirect_left (?r b)" using m(2) by (simp add: chunk_size)
  show "snd (giop_send_buffer_append_aligned env c initial 4) = snd (giop_send_buffer_append_aligned env b initial 4)"
    using simulationD(5) [OF s m(1)] by (simp add: giop_send_buffer_append_aligned_def Let_def)
  show "R (fst (giop_send_buffer_append_aligned env b initial 4)) (fst (giop_send_buffer_append_aligned env c initial 4))"
  proof (cases initial)
    case None
    with sim_region [OF s m(1) l] show ?thesis by (simp add: giop_send_buffer_append_aligned_def Let_def)
  next
    case (Some bs)
    then have "length bs = 4" by (rule i)
    with sim_put [OF s m(1), of bs] l Some show ?thesis by (simp add: giop_send_buffer_append_aligned_def Let_def)
  qed
qed

lemma uniform_aligned32 [uniform_intros]: "uniform1 env (\<lambda>b. append_aligned32 env b w)"
proof (unfold uniform1_def append_aligned32_def, intro allI impI)
  fix R b c assume "simulation env R" "R b c"
  from sim_aligned(1) [OF this, of "Some (le32 w)"]
  show "R (fst (giop_send_buffer_append_aligned env b (Some (le32 w)) 4))
      (fst (giop_send_buffer_append_aligned env c (Some (le32 w)) 4))" by simp
qed

lemma uniform_string:
  assumes "length s + 5 < 2 ^ 32" "src_ok env p (length s + 1)"
  shows "uniform1 env (\<lambda>b. giop_send_buffer_append_string env b p s)"
proof (unfold uniform1_def, intro allI impI)
  fix R b c assume sim: "simulation env R" and r: "R b c"
  let ?a = "\<lambda>x. giop_send_buffer_align env x 4" and ?len = "of_nat (length s + 1) :: u32"
  have a: "R (?a b) (?a c)" using uniform1D [OF uniform_align [of 4] sim r] by simp
  have "length s + 5 < 2 ^ LENGTH(32)" using assms(1) by simp
  then have u: "unat ?len = length s + 1" "unat (4 + ?len) = length s + 5"
    by (simp_all add: unat_word_ariths unat_of_nat)
  let ?bs = "le32 ?len @ s @ [0]"
  have len: "length ?bs = length s + 5" and tk: "take (length s + 1) (s @ [0]) = s @ [0]" by simp_all
  have e: "giop_send_buffer_append_string env x p s =
      (if length s + 5 \<le> indirect_left (?a x)
       then bump (giop_send_buffer_append_real (store (?a x) (indirect (?a x)) ?bs) (indirect (?a x)) (length s + 5)) (length s + 5)
       else giop_send_buffer_append env (giop_send_buffer_append_copy env (?a x) (le32 ?len)) p (length s + 1))" for x
    by (simp only: giop_send_buffer_append_string_def Let_def u len tk)
  have l: "indirect_left (?a c) = indirect_left (?a b)" by (rule simulationD(6) [OF sim a])
  have k: "length (le32 ?len) \<le> GIOP_CHUNK_SIZE" by (simp add: chunk_size)
  have "R (giop_send_buffer_append env (giop_send_buffer_append_copy env (?a b) (le32 ?len)) p (length s + 1))
      (giop_send_buffer_append env (giop_send_buffer_append_copy env (?a c) (le32 ?len)) p (length s + 1))"
    by (rule uniform1D [OF uniform_append [OF assms(2)] sim uniform1D [OF uniform_append_copy [OF k] sim a]])
  moreover have "length s + 5 \<le> indirect_left (?a b) \<Longrightarrow>
      R (bump (giop_send_buffer_append_real (store (?a b) (indirect (?a b)) ?bs) (indirect (?a b)) (length s + 5)) (length s + 5))
        (bump (giop_send_buffer_append_real (store (?a c) (indirect (?a c)) ?bs) (indirect (?a c)) (length s + 5)) (length s + 5))"
    using sim_put [OF sim a, of ?bs] unfolding len .
  ultimately show "R (giop_send_buffer_append_string env b p s) (giop_send_buffer_append_string env c p s)"
    unfolding e l by simp
qed


section \<open>The room of a length\<close>

definition overwrite :: "nat \<Rightarrow> byte list \<Rightarrow> byte list \<Rightarrow> byte list" where
  "overwrite i bs c = take i c @ bs @ drop (i + length bs) c"

lemma length_overwrite [simp]: "i + length bs \<le> length c \<Longrightarrow> length (overwrite i bs c) = length c"
  by (simp add: overwrite_def)

lemma overwrite_nth:
  "i + length bs \<le> length c \<Longrightarrow> j < length c \<Longrightarrow>
    overwrite i bs c ! j = (if i \<le> j \<and> j < i + length bs then bs ! (j - i) else c ! j)"
  by (auto simp: overwrite_def nth_append min_def)

lemma overwrite_swap:
  "i + length a \<le> j \<Longrightarrow> j + length b \<le> length c \<Longrightarrow> overwrite j b (overwrite i a c) = overwrite i a (overwrite j b c)"
  by (intro nth_equalityI) (auto simp: overwrite_nth)

lemma overwrite_twice:
  "length a = length b \<Longrightarrow> i + length a \<le> length c \<Longrightarrow> overwrite i b (overwrite i a c) = overwrite i b c"
  by (intro nth_equalityI) (auto simp: overwrite_nth)

lemma store_chunk:
  "store b (BChunk i, k) bs = b\<lparr>indirects := (indirects b)[i := overwrite k bs (indirects b ! i)]\<rparr>"
  by (simp add: store_def overwrite_def Let_def)

definition marked :: "GIOPSendBuffer \<Rightarrow> ptr \<Rightarrow> bool" where
  "marked b m \<longleftrightarrow> chunks_ok b \<and>
     (\<exists>i k. m = (BChunk i, k) \<and> i < num_indirects_used b \<and>
        k + 4 \<le> (if num_indirects_used b = Suc i then snd (indirect b) else length (indirects b ! i)))"

definition shifted :: "ptr \<Rightarrow> byte list \<Rightarrow> GIOPSendBuffer \<Rightarrow> GIOPSendBuffer \<Rightarrow> bool" where
  "shifted m x b c \<longleftrightarrow> marked b m \<and> length x = 4 \<and> c = store b m x"

lemma markedE:
  assumes "marked b m"
  obtains i k j where "m = (BChunk i, k)" "i < length (indirects b)" "k + 4 \<le> length (indirects b ! i)"
    "num_indirects_used b = Suc j" "i \<le> j" "j < length (indirects b)" "fst (indirect b) = BChunk j"
    "snd (indirect b) + indirect_left b = length (indirects b ! j)" "i = j \<Longrightarrow> k + 4 \<le> snd (indirect b)"
proof -
  obtain i k where m: "m = (BChunk i, k)" "i < num_indirects_used b"
    "k + 4 \<le> (if num_indirects_used b = Suc i then snd (indirect b) else length (indirects b ! i))"
    and c: "chunks_ok b" using assms by (auto simp: marked_def)
  obtain j where j: "num_indirects_used b = Suc j" using m(2) by (cases "num_indirects_used b") auto
  show thesis
    by (rule that [OF m(1), of j]) (use m(2,3) c j in \<open>auto simp: chunks_ok_def split: if_splits\<close>)
qed

lemma chunks_ok_store:
  assumes "chunks_ok b" "i < length (indirects b)" "k + length bs \<le> length (indirects b ! i)"
  shows "chunks_ok (store b (BChunk i, k) bs)"
proof -
  let ?cs = "indirects (store b (BChunk i, k) bs)"
  have l: "length ?cs = length (indirects b)" "\<And>n. length (?cs ! n) = length (indirects b ! n)"
    using assms(2,3) by (auto simp: store_chunk nth_list_update)
  have big: "GIOP_CHUNK_SIZE \<le> length c" if c: "c \<in> set ?cs" for c
  proof -
    obtain n where n: "n < length (indirects b)" "c = ?cs ! n" using c l(1) by (auto simp: in_set_conv_nth)
    then have "GIOP_CHUNK_SIZE \<le> length (indirects b ! n)" using assms(1) by (simp add: chunks_ok_def)
    then show ?thesis by (simp only: n(2) l(2))
  qed
  show ?thesis
    using assms(1) big l unfolding chunks_ok_def indirect_store by (cases "num_indirects_used b") simp_all
qed

lemma chunks_ok_next:
  assumes "chunks_ok b"
  shows "chunks_ok (get_next_indirect env b h)"
  using assms by (auto simp: get_next_indirect_def chunks_ok_def Let_def nth_append)

lemma chunks_ok_real: "chunks_ok (giop_send_buffer_append_real b p n) = chunks_ok b"
  by (cases "num_indirects_used b") (simp_all add: chunks_ok_def)

lemma chunks_ok_bump: "chunks_ok b \<Longrightarrow> n \<le> indirect_left b \<Longrightarrow> num_indirects_used b \<noteq> 0 \<Longrightarrow> chunks_ok (bump b n)"
  by (auto simp: chunks_ok_def ptr_add_def split: nat.splits)

lemma next_indirects:
  assumes "chunks_ok b" "i < num_indirects_used b"
  shows "indirects (get_next_indirect env b h) ! i = indirects b ! i" "i < length (indirects b)"
  using assms by (auto simp: get_next_indirect_def chunks_ok_def Let_def nth_append)

lemma next_used: "num_indirects_used (get_next_indirect env b h) = Suc (num_indirects_used b)"
  by (simp add: get_next_indirect_def Let_def)

lemma store_real: "store (giop_send_buffer_append_real b p n) m x = giop_send_buffer_append_real (store b m x) p n"
  by (cases m; cases "fst m") (auto simp: store_def giop_send_buffer_append_real_def Let_def)

lemma store_bump: "store (bump b n) m x = bump (store b m x) n"
  by (cases "fst m") (auto simp: store_def bump_def Let_def)

lemma store_next:
  assumes "marked b m" "length x = 4"
  shows "store (get_next_indirect env b h) m x = get_next_indirect env (store b m x) h"
proof -
  obtain i k j where m: "m = (BChunk i, k)" "i < length (indirects b)" "k + 4 \<le> length (indirects b ! i)"
    "num_indirects_used b = Suc j" "i \<le> j" "j < length (indirects b)"
    using assms(1) by (rule markedE) blast
  show ?thesis
    using m(2-6) assms(2)
    by (auto simp: m(1) store_chunk get_next_indirect_def Let_def nth_append list_update_append nth_list_update)
qed

lemma store_put:
  assumes "marked b m" "length x = 4" "length bs \<le> indirect_left b"
  shows "store (store b (indirect b) bs) m x = store (store b m x) (indirect b) bs"
proof -
  obtain i k j where m: "m = (BChunk i, k)" "i < length (indirects b)" "k + 4 \<le> length (indirects b ! i)"
    "i \<le> j" "j < length (indirects b)" "fst (indirect b) = BChunk j"
    "snd (indirect b) + indirect_left b = length (indirects b ! j)" "i = j \<Longrightarrow> k + 4 \<le> snd (indirect b)"
    using assms(1) by (rule markedE) blast
  obtain o' where ind: "indirect b = (BChunk j, o')" using m(6) by (cases "indirect b") auto
  show ?thesis
  proof (cases "i = j")
    case True
    have "overwrite k x (overwrite o' bs (indirects b ! j)) = overwrite o' bs (overwrite k x (indirects b ! j))"
      using m(7,8) True assms(2,3) by (intro overwrite_swap [symmetric]) (simp_all add: ind)
    then show ?thesis using m(2) True by (simp add: m(1) ind store_chunk)
  next
    case False
    then show ?thesis by (simp add: m(1) ind store_chunk list_update_swap)
  qed
qed

lemma marked_store:
  assumes "marked b m" "fst p = BChunk i" "i < length (indirects b)" "snd p + length bs \<le> length (indirects b ! i)"
  shows "marked (store b p bs) m"
proof -
  obtain q where p: "p = (BChunk i, q)" using assms(2) by (cases p) auto
  have l: "length (indirects (store b p bs) ! n) = length (indirects b ! n)" for n
    using assms(3,4) by (auto simp: p store_chunk nth_list_update)
  show ?thesis
    using assms(1) chunks_ok_store [of b i q bs] assms(3,4) unfolding marked_def indirect_store l by (simp add: p)
qed

lemma marked_real: "marked (giop_send_buffer_append_real b p n) m = marked b m"
  by (simp add: marked_def chunks_ok_real cong: if_cong)

lemma shifted_simulation: "simulation env (shifted m x)"
proof (unfold simulation_def, intro allI impI)
  fix b c assume "shifted m x b c"
  then have mk: "marked b m" and x: "length x = 4" and c: "c = store b m x" by (auto simp: shifted_def)
  obtain i k j where m: "m = (BChunk i, k)" "i < length (indirects b)" "k + 4 \<le> length (indirects b ! i)"
    "num_indirects_used b = Suc j" "i \<le> j" "j < length (indirects b)" "fst (indirect b) = BChunk j"
    "snd (indirect b) + indirect_left b = length (indirects b ! j)" "i = j \<Longrightarrow> k + 4 \<le> snd (indirect b)"
    using mk by (rule markedE) blast
  have ok: "chunks_ok b" using mk by (simp add: marked_def)
  have real: "shifted m x (giop_send_buffer_append_real b p n) (giop_send_buffer_append_real c p n)" for p n
    using mk x by (simp add: shifted_def c store_real marked_real)
  have nxt: "shifted m x (get_next_indirect env b h) (get_next_indirect env c h)" for h
    using mk x next_indirects(1) [OF ok, of i] m(3-5) chunks_ok_next [OF ok]
    by (simp add: shifted_def c store_next marked_def m(1) next_used)
  have put: "shifted m x (store b (indirect b) bs) (store c (indirect c) bs)" if "length bs \<le> indirect_left b" for bs
    using store_put [OF mk x that] marked_store [OF mk m(7) m(6), of bs] x m(8) that by (simp add: shifted_def c)
  have move: "shifted m x (bump b n) (bump c n)" if "n \<le> indirect_left b" for n
    using mk x m chunks_ok_bump [OF ok that] by (auto simp: shifted_def c store_bump marked_def ptr_add_def split: if_splits)
  show "chunks_ok b \<and> chunks_ok c \<and> num_indirects_used b \<noteq> 0 \<and> num_indirects_used c = num_indirects_used b \<and>
     indirect c = indirect b \<and> indirect_left c = indirect_left b \<and>
     sb_message_size c = sb_message_size b \<and> sb_flags c = sb_flags b \<and>
     (\<forall>k \<in> {2, 4}. padding c k = padding b k) \<and>
     (\<forall>p n. fst p \<noteq> BHeader \<longrightarrow> shifted m x (giop_send_buffer_append_real b p n) (giop_send_buffer_append_real c p n)) \<and>
     (\<forall>h. shifted m x (get_next_indirect env b h) (get_next_indirect env c h)) \<and>
     (\<forall>bs. length bs \<le> indirect_left b \<longrightarrow> shifted m x (store b (indirect b) bs) (store c (indirect c) bs)) \<and>
     (\<forall>n \<le> indirect_left b. shifted m x (bump b n) (bump c n))"
    using ok chunks_ok_store [OF ok m(2), of k x] m(3,4) x real nxt put move by (simp add: c m(1) padding_def)
qed


section \<open>Encapsulations\<close>

text \<open>The identity on buffers that own a chunk is such a relation.\<close>

lemma chunks_ok_put:
  assumes ok: "chunks_ok b" and u: "num_indirects_used b \<noteq> 0" and l: "length bs \<le> indirect_left b"
  shows "chunks_ok (store b (indirect b) bs)"
proof -
  obtain j where j: "num_indirects_used b = Suc j" using u by (cases "num_indirects_used b") auto
  obtain k where k: "indirect b = (BChunk j, k)" "j < length (indirects b)" "k + indirect_left b = length (indirects b ! j)"
    using ok by (cases "indirect b") (auto simp: chunks_ok_def j)
  show ?thesis unfolding k(1) using chunks_ok_store [OF ok k(2), of k bs] k(3) l by simp
qed

lemma same_simulation: "simulation env (\<lambda>b c. c = b \<and> chunks_ok b \<and> num_indirects_used b \<noteq> 0)"
  by (auto simp: simulation_def chunks_ok_real chunks_ok_next next_used chunks_ok_bump chunks_ok_put)

lemma uniform1_chunks:
  "uniform1 env f \<Longrightarrow> chunks_ok b \<Longrightarrow> num_indirects_used b \<noteq> 0 \<Longrightarrow> chunks_ok (f b) \<and> num_indirects_used (f b) \<noteq> 0"
  using uniform1D [OF _ same_simulation, of env f b b] by simp

text \<open>The room of a length is marked, and what it holds at first does not matter.\<close>

lemma aligned_room:
  assumes ok: "chunks_ok b" "num_indirects_used b \<noteq> 0" and i: "\<And>bs. initial = Some bs \<Longrightarrow> length bs = 4"
    and x: "length x = 4" and a: "giop_send_buffer_append_aligned env b initial 4 = (b1, mk)"
  shows "marked b1 mk" "store b1 mk x = append_prim env b x"
proof -
  let ?a = "giop_send_buffer_align env b 4"
  let ?r = "if indirect_left ?a < 4 then get_next_indirect env ?a 0 else ?a"
  have "chunks_ok ?a" "num_indirects_used ?a \<noteq> 0" using uniform1_chunks [OF uniform_align ok, of 4] by simp_all
  then have r: "chunks_ok ?r" "num_indirects_used ?r \<noteq> 0" "4 \<le> indirect_left ?r"
    using chunks_ok_next [of ?a env 0] next_used [of env ?a 0] next_room [of ?a env 0] by (auto simp: chunk_size)
  obtain j k where j: "num_indirects_used ?r = Suc j" "indirect ?r = (BChunk j, k)" "j < length (indirects ?r)"
    "k + indirect_left ?r = length (indirects ?r ! j)"
    using r(1,2) unfolding chunks_ok_def by (cases "num_indirects_used ?r"; cases "indirect ?r") auto
  define w where "w = (case initial of Some bs \<Rightarrow> store ?r (BChunk j, k) bs | None \<Rightarrow> ?r)"
  have len: "length bs = 4" if "initial = Some bs" for bs using i that by blast
  have w: "chunks_ok w" "num_indirects_used w = Suc j" "indirect w = (BChunk j, k)" "indirect_left w = indirect_left ?r"
    "store w (BChunk j, k) x = store ?r (BChunk j, k) x"
  proof -
    show "chunks_ok w" "num_indirects_used w = Suc j" "indirect w = (BChunk j, k)" "indirect_left w = indirect_left ?r"
      unfolding w_def using r(1,3) j len chunks_ok_store [OF r(1) j(3), of k]
      by (auto split: option.split)
    show "store w (BChunk j, k) x = store ?r (BChunk j, k) x"
      unfolding w_def using j(3,4) len x r(3)
      by (auto simp: store_chunk overwrite_twice split: option.split)
  qed
  have e: "(b1, mk) = (bump (giop_send_buffer_append_real w (BChunk j, k) 4) 4, (BChunk j, k))"
    unfolding a [symmetric] giop_send_buffer_append_aligned_def Let_def w_def j(2)
    using len by (auto split: option.split)
  then have b1: "b1 = bump (giop_send_buffer_append_real w (BChunk j, k) 4) 4" and mk: "mk = (BChunk j, k)" by simp_all
  have "chunks_ok b1"
    unfolding b1 by (rule chunks_ok_bump) (use w r(3) in \<open>simp_all add: chunks_ok_real\<close>)
  then show "marked b1 mk" by (simp add: marked_def b1 mk w ptr_add_def)
  have "store b1 mk x = bump (giop_send_buffer_append_real (store ?r (BChunk j, k) x) (BChunk j, k) 4) 4"
    unfolding b1 mk store_bump store_real w(5) ..
  also have "\<dots> = append_prim env b x"
    using x by (simp only: append_prim_def giop_send_buffer_append_aligned_def Let_def j(2) fst_conv option.case take_all order.refl)
  finally show "store b1 mk x = append_prim env b x" .
qed

lemma patched_body:
  assumes u: "uniform env body" and ok: "chunks_ok b" "num_indirects_used b \<noteq> 0"
    and i: "\<And>bs. initial = Some bs \<Longrightarrow> length bs = 4" and x: "length x = 4"
    and a: "giop_send_buffer_append_aligned env b initial 4 = (b1, mk)"
  shows "body (append_prim env b x) = map_option (\<lambda>c. store c mk x) (body b1)"
proof -
  note m = aligned_room [OF ok i x a]
  have "shifted mk x b1 (append_prim env b x)" using m x by (simp add: shifted_def)
  from uniformD [OF u shifted_simulation this] show ?thesis
    by (cases "body b1"; cases "body (append_prim env b x)") (auto simp: shifted_def)
qed

text \<open>A message with a patched length is the one that has the length from the start.\<close>

lemma patched_final:
  assumes u: "uniform env body" and ok: "chunks_ok b" "num_indirects_used b \<noteq> 0"
    and i: "\<And>bs. initial = Some bs \<Longrightarrow> length bs = 4"
    and some: "\<And>w. body (append_prim env b (le32 w)) \<noteq> None"
  obtains c n where "patched env initial body b = Some (c, n)" "body (append_prim env b (le32 n)) = Some c"
    "n = sb_message_size c - sb_message_size (append_prim env b (le32 n))"
proof -
  obtain b1 mk where a: "giop_send_buffer_append_aligned env b initial 4 = (b1, mk)" by (rule prod.exhaust)
  note p = patched_body [OF u ok i length_le32 a]
  obtain c0 where c0: "body b1 = Some c0" using some [of 0] p [of 0] by (cases "body b1") auto
  let ?n = "sb_message_size c0 - sb_message_size b1"
  show thesis
  proof (rule that)
    show "patched env initial body b = Some (store c0 mk (le32 ?n), ?n)" by (simp add: patched_def a c0 Let_def)
    show "body (append_prim env b (le32 ?n)) = Some (store c0 mk (le32 ?n))" by (simp add: p c0)
    show "?n = sb_message_size (store c0 mk (le32 ?n)) - sb_message_size (append_prim env b (le32 ?n))"
      by (simp flip: aligned_room(2) [OF ok i length_le32 a])
  qed
qed

text \<open>Functions that return a number as well.\<close>

definition uniform_pair :: "SendEnv \<Rightarrow> (GIOPSendBuffer \<Rightarrow> (GIOPSendBuffer \<times> u32) option) \<Rightarrow> bool" where
  "uniform_pair env f \<longleftrightarrow> (\<forall>R b c. simulation env R \<longrightarrow> R b c \<longrightarrow> rel_option (rel_prod R (=)) (f b) (f c))"

lemma uniform_patched [uniform_intros]:
  assumes u: "uniform env body" and i: "\<And>bs. initial = Some bs \<Longrightarrow> length bs = 4"
  shows "uniform_pair env (patched env initial body)"
proof (unfold uniform_pair_def, intro allI impI)
  fix R b c assume s: "simulation env R" and r: "R b c"
  obtain b1 mk where ab: "giop_send_buffer_append_aligned env b initial 4 = (b1, mk)" by (rule prod.exhaust)
  obtain c1 where ac: "giop_send_buffer_append_aligned env c initial 4 = (c1, mk)"
    using sim_aligned(2) [OF s r, of initial, OF i] ab by (metis prod.collapse snd_conv)
  have r1: "R b1 c1" using sim_aligned(1) [OF s r, of initial, OF i] by (simp add: ab ac)
  note d = simulationD [OF s r]
  have okc: "num_indirects_used c \<noteq> 0" using d(3,4) by simp
  show "rel_option (rel_prod R (=)) (patched env initial body b) (patched env initial body c)"
  proof (cases "body b1")
    case None
    with uniformD [OF u s r1] show ?thesis by (simp add: patched_def ab ac Let_def)
  next
    case (Some b2)
    with uniformD [OF u s r1] obtain c2 where c2: "body c1 = Some c2" "R b2 c2"
      by (auto simp: option_rel_Some1)
    let ?n = "sb_message_size b2 - sb_message_size b1"
    have n: "sb_message_size c2 - sb_message_size c1 = ?n" using simulationD(7) [OF s r1] simulationD(7) [OF s c2(2)] by simp
    have "R (append_prim env b (le32 ?n)) (append_prim env c (le32 ?n))"
      using sim_aligned(1) [OF s r, of "Some (le32 ?n)"] by (simp add: append_prim_def)
    moreover have "body (append_prim env b (le32 ?n)) = Some (store b2 mk (le32 ?n))"
      by (subst patched_body [OF u d(1,3) _ length_le32 ab]) (auto dest: i simp: Some)
    moreover have "body (append_prim env c (le32 ?n)) = Some (store c2 mk (le32 ?n))"
      by (subst patched_body [OF u d(2) okc _ length_le32 ac]) (auto dest: i simp: c2(1))
    ultimately have "R (store b2 mk (le32 ?n)) (store c2 mk (le32 ?n))"
      using uniformD [OF u s, of "append_prim env b (le32 ?n)" "append_prim env c (le32 ?n)"] by simp
    then show ?thesis by (simp add: patched_def ab ac Some c2(1) Let_def n)
  qed
qed

lemma uniform_fst [uniform_intros]: "uniform_pair env f \<Longrightarrow> uniform env (\<lambda>b. map_option fst (f b))"
  unfolding uniform_def uniform_pair_def
  by (intro allI impI, elim allE impE, assumption, assumption) (auto elim!: option.rel_cases)

lemma uniform_then_pair:
  assumes "uniform_pair env f" "\<And>len. uniform env (g len)"
  shows "uniform env (\<lambda>b. case f b of None \<Rightarrow> None | Some (b, len) \<Rightarrow> g len b)"
proof (unfold uniform_def, intro allI impI)
  fix R b c assume s: "simulation env R" "R b c"
  then have "rel_option (rel_prod R (=)) (f b) (f c)" using assms(1) by (auto simp: uniform_pair_def)
  then show "rel_option R (case f b of None \<Rightarrow> None | Some (b, len) \<Rightarrow> g len b)
      (case f c of None \<Rightarrow> None | Some (b, len) \<Rightarrow> g len b)"
    by (cases "f b"; cases "f c") (auto intro: uniformD [OF assms(2) s(1)])
qed

lemma uniform_pair_after: "uniform_pair env f \<Longrightarrow> uniform1 env g \<Longrightarrow> uniform_pair env (\<lambda>b. f (g b))"
  unfolding uniform_pair_def uniform1_def by blast

lemma uniform_pair_const [uniform_intros]: "uniform env f \<Longrightarrow> uniform_pair env (\<lambda>b. map_option (\<lambda>b. (b, len)) (f b))"
  unfolding uniform_def uniform_pair_def option.rel_map by simp

end
