(* ===== verification/Ior_Layout.thy ===== *)
theory Ior_Layout
  imports Ior_Patch
begin

text \<open>
  The encoding of an object reference as a relation between offsets and bytes, apart from the
  code (padding is arbitrary, numbers little-endian), and the marshalling functions as writers
  of it. The lengths that the code copies in behind are part of the encoding.
\<close>

section \<open>Encodings\<close>

type_synonym encoding = "nat \<Rightarrow> byte list \<Rightarrow> bool"

definition lit :: "byte list \<Rightarrow> encoding" where
  "lit bs off xs \<longleftrightarrow> xs = bs"

definition aligned :: "nat \<Rightarrow> byte list \<Rightarrow> encoding" where
  "aligned k bs off xs \<longleftrightarrow> (\<exists>p. length p = pad k off \<and> xs = p @ bs)"

definition followed :: "encoding \<Rightarrow> encoding \<Rightarrow> encoding" where
  "followed P Q off xs \<longleftrightarrow> (\<exists>a b. xs = a @ b \<and> P off a \<and> Q (off + length a) b)"

fun many_at :: "('a \<Rightarrow> encoding) \<Rightarrow> 'a list \<Rightarrow> encoding" where
  "many_at P [] = lit []"
| "many_at P (x # xs) = followed (P x) (many_at P xs)"

text \<open>An octet sequence that holds an encoding.\<close>

definition wrapped :: "encoding \<Rightarrow> encoding" where
  "wrapped P off xs \<longleftrightarrow>
     (\<exists>p a. length p = pad 4 off \<and> length a < 2 ^ 32 \<and> P (off + length p + 4) a \<and>
        xs = p @ le32 (of_nat (length a)) @ a)"

definition number_at :: "u32 \<Rightarrow> encoding" where
  "number_at w = aligned 4 (le32 w)"

definition port_at :: "u16 \<Rightarrow> encoding" where
  "port_at w = aligned 2 (le16 w)"

definition block_at :: "byte list \<Rightarrow> encoding" where
  "block_at bs = aligned 4 (le32 (of_nat (length bs)) @ bs)"

lemma followed_assoc: "followed (followed P Q) R = followed P (followed Q R)"
proof (intro ext iffI)
  fix off xs assume "followed (followed P Q) R off xs"
  then obtain a b c where "xs = a @ (b @ c)" "P off a" "Q (off + length a) b" "R (off + length a + length b) c"
    unfolding followed_def by (auto simp: add.assoc)
  then show "followed P (followed Q R) off xs" unfolding followed_def by blast
next
  fix off xs assume "followed P (followed Q R) off xs"
  then obtain a b c where "xs = (a @ b) @ c" "P off a" "Q (off + length a) b" "R (off + length (a @ b)) c"
    unfolding followed_def by (auto simp: add.assoc)
  then show "followed (followed P Q) R off xs" unfolding followed_def by blast
qed

lemma followed_lit: "followed (lit []) P = P" "followed P (lit []) = P"
  unfolding followed_def lit_def by (auto intro!: ext)

lemma followed_lits: "followed (lit a) (lit b) = lit (a @ b)"
  unfolding followed_def lit_def by (auto intro!: ext)

lemma ulong_block: "followed (number_at w) (lit (le32 (of_nat (length d)) @ d)) off xs \<Longrightarrow> followed (number_at w) (block_at d) off xs"
proof -
  assume "followed (number_at w) (lit (le32 (of_nat (length d)) @ d)) off xs"
  then obtain p where p: "length p = pad 4 off" "xs = (p @ le32 w) @ le32 (of_nat (length d)) @ d"
    unfolding followed_def number_at_def aligned_def lit_def by auto
  moreover have "block_at d (off + length (p @ le32 w)) (le32 (of_nat (length d)) @ d)"
    unfolding block_at_def aligned_def by (intro exI [of _ "[]"]) (simp add: p(1) pad_after_ulong flip: add.assoc)
  ultimately show ?thesis unfolding followed_def number_at_def aligned_def by blast
qed

section \<open>The parts of a reference\<close>

definition code_set_at :: "CodeSetComponent \<Rightarrow> encoding" where
  "code_set_at c = followed (number_at (native_code_set c))
     (followed (number_at (of_nat (length (conversion_code_sets c))))
        (lit (concat (map le32 (conversion_code_sets c)))))"

text \<open>Behind the type; encapsulations begin with the byte order.\<close>

fun component_body_at :: "ORBit_ObjectKey \<Rightarrow> IOP_Component_info \<Rightarrow> encoding" where
  "component_body_at key (Generic_ssl_sec_trans s) = wrapped (followed (lit [1]) (block_at s))"
| "component_body_at key (Ssl_sec_trans s r p) =
     wrapped (followed (lit [1]) (aligned 4 (le32 s @ le32 r @ le16 p)))"
| "component_body_at key (Complete_object_key k) = block_at key"
| "component_body_at key (Code_sets c w) = wrapped (followed (lit [1]) (followed (code_set_at c) (code_set_at w)))"
| "component_body_at key (Unknown_component t d) = block_at d"

definition component_at :: "ORBit_ObjectKey \<Rightarrow> IOP_Component_info \<Rightarrow> encoding" where
  "component_at key c = followed (number_at (component_type c)) (component_body_at key c)"

definition components_at :: "ORBit_ObjectKey \<Rightarrow> IOP_Component_info list \<Rightarrow> encoding" where
  "components_at key cs = followed (number_at (of_nat (length cs))) (many_at (component_at key) cs)"

definition version_at :: "GIOPVersion \<Rightarrow> encoding" where
  "version_at v = lit [fst (giop_version_ids v), snd (giop_version_ids v)]"

fun profile_body_at :: "ORBit_ObjectKey \<Rightarrow> IOP_Profile_info \<Rightarrow> encoding" where
  "profile_body_at key (Internet_iop v h p k cs) =
     followed (lit [1]) (followed (version_at v) (followed (block_at h) (followed (port_at p)
       (followed (block_at key) (components_at key cs)))))"
| "profile_body_at key (Orbit_specific u p k) =
     followed (lit [1]) (followed (lit [1, 2]) (followed (block_at u) (followed (port_at p) (block_at key))))"
| "profile_body_at key (Generic_iop v proto h s cs) =
     followed (lit [1]) (followed (version_at v) (followed (block_at proto) (followed (block_at h)
       (followed (block_at s) (components_at key cs)))))"
| "profile_body_at key (Multiple_components cs) = followed (lit [1]) (components_at key cs)"
| "profile_body_at key (Unknown_profile t d) = lit d"

definition profile_at :: "ORBit_ObjectKey \<Rightarrow> IOP_Profile_info \<Rightarrow> encoding" where
  "profile_at key p = followed (number_at (profile_type p)) (wrapped (profile_body_at key p))"

definition object_at :: "byte list \<Rightarrow> ORBit_ObjectKey \<Rightarrow> IOP_Profile_info list \<Rightarrow> encoding" where
  "object_at type key ps =
     followed (block_at (type @ [0])) (followed (number_at (of_nat (length ps))) (many_at (profile_at key) ps))"

section \<open>Writers\<close>

definition writer :: "SendEnv \<Rightarrow> (GIOPSendBuffer \<Rightarrow> GIOPSendBuffer option) \<Rightarrow> encoding \<Rightarrow> nat \<Rightarrow> bool" where
  "writer env f P n \<longleftrightarrow> uniform env f \<and>
     (\<forall>v mt bs b. builds env v mt bs b \<longrightarrow> bs \<noteq> [] \<longrightarrow> length bs + 12 + n < 2 ^ 32 \<longrightarrow>
        (\<exists>b'. f b = Some b' \<and> writes env v mt bs P n b'))"

definition writer_pair :: "SendEnv \<Rightarrow> (GIOPSendBuffer \<Rightarrow> (GIOPSendBuffer \<times> u32) option) \<Rightarrow> encoding \<Rightarrow> nat \<Rightarrow> bool" where
  "writer_pair env f P n \<longleftrightarrow> uniform_pair env f \<and>
     (\<forall>v mt bs b. builds env v mt bs b \<longrightarrow> bs \<noteq> [] \<longrightarrow> length bs + 12 + n < 2 ^ 32 \<longrightarrow>
        (\<exists>b' len. f b = Some (b', len) \<and> writes env v mt bs P n b'))"

lemma writerI:
  assumes "uniform env f"
    and "\<And>v mt bs b. builds env v mt bs b \<Longrightarrow> bs \<noteq> [] \<Longrightarrow> length bs + 12 + n < 2 ^ 32 \<Longrightarrow>
      \<exists>b'. f b = Some b' \<and> writes env v mt bs P n b'"
  shows "writer env f P n"
  using assms unfolding writer_def by blast

lemma writerD:
  assumes "writer env f P n" "builds env v mt bs b" "bs \<noteq> []" "length bs + 12 + n < 2 ^ 32"
  obtains b' xs where "f b = Some b'" "P (12 + length bs) xs" "builds env v mt (bs @ xs) b'" "length xs \<le> n"
  using assms unfolding writer_def writes_def by blast

lemma writer_pairD:
  assumes "writer_pair env f P n" "builds env v mt bs b" "bs \<noteq> []" "length bs + 12 + n < 2 ^ 32"
  obtains b' len xs where "f b = Some (b', len)" "P (12 + length bs) xs" "builds env v mt (bs @ xs) b'" "length xs \<le> n"
  using assms unfolding writer_pair_def writes_def by blast

lemma writes_followed:
  assumes "P (12 + length bs) xs" "writes env v mt (bs @ xs) Q m b" "length xs \<le> n"
  shows "writes env v mt bs (followed P Q) (n + m) b"
  using assms unfolding writes_def followed_def by (force simp: add.assoc)

lemma writer_then:
  assumes "writer env f P n" "writer env g Q m"
  shows "writer env (\<lambda>b. case f b of None \<Rightarrow> None | Some b \<Rightarrow> g b) (followed P Q) (n + m)"
proof (rule writerI)
  show "uniform env (\<lambda>b. case f b of None \<Rightarrow> None | Some b \<Rightarrow> g b)"
    using assms by (intro uniform_then) (simp_all add: writer_def)
  fix v mt bs b assume b: "builds env v mt bs b" "bs \<noteq> []" "length bs + 12 + (n + m) < 2 ^ 32"
  obtain b1 xs where 1: "f b = Some b1" "P (12 + length bs) xs" "builds env v mt (bs @ xs) b1" "length xs \<le> n"
    by (rule writerD [OF assms(1) b(1,2)]) (use b(3) in simp_all)
  obtain b2 where 2: "g b1 = Some b2" "writes env v mt (bs @ xs) Q m b2"
    using assms(2) 1(3,4) b(2,3) unfolding writer_def by force
  show "\<exists>b'. (case f b of None \<Rightarrow> None | Some b \<Rightarrow> g b) = Some b' \<and> writes env v mt bs (followed P Q) (n + m) b'"
    using 1(1) 2(1) writes_followed [where P = P and Q = Q, OF 1(2) 2(2) 1(4)] by simp
qed

lemma writer_after:
  assumes "writer env (\<lambda>b. Some (g b)) P n" "writer env f Q m"
  shows "writer env (\<lambda>b. f (g b)) (followed P Q) (n + m)"
  using writer_then [OF assms] by simp

lemma writer_pair_then:
  assumes "writer_pair env f P n" "\<And>len. writer env (g len) Q m"
  shows "writer env (\<lambda>b. case f b of None \<Rightarrow> None | Some (b, len) \<Rightarrow> g len b) (followed P Q) (n + m)"
proof (rule writerI)
  show "uniform env (\<lambda>b. case f b of None \<Rightarrow> None | Some (b, len) \<Rightarrow> g len b)"
    using assms by (intro uniform_then_pair) (simp_all add: writer_def writer_pair_def)
  fix v mt bs b assume b: "builds env v mt bs b" "bs \<noteq> []" "length bs + 12 + (n + m) < 2 ^ 32"
  obtain b1 len xs where 1: "f b = Some (b1, len)" "P (12 + length bs) xs" "builds env v mt (bs @ xs) b1" "length xs \<le> n"
    by (rule writer_pairD [OF assms(1) b(1,2)]) (use b(3) in simp_all)
  obtain b2 where 2: "g len b1 = Some b2" "writes env v mt (bs @ xs) Q m b2"
    using assms(2) [of len] 1(3,4) b(2,3) unfolding writer_def by force
  show "\<exists>b'. (case f b of None \<Rightarrow> None | Some (b, len) \<Rightarrow> g len b) = Some b' \<and> writes env v mt bs (followed P Q) (n + m) b'"
    using 1(1) 2(1) writes_followed [where P = P and Q = Q, OF 1(2) 2(2) 1(4)] by simp
qed

lemma writer_pair_after:
  assumes "writer env (\<lambda>b. Some (g b)) P n" "writer_pair env f Q m"
  shows "writer_pair env (\<lambda>b. f (g b)) (followed P Q) (n + m)"
  unfolding writer_pair_def
proof (intro conjI allI impI)
  have u: "uniform env (\<lambda>b. Some (g b))" "uniform_pair env f" using assms by (simp_all add: writer_def writer_pair_def)
  then have "uniform1 env g" unfolding uniform_def uniform1_def by simp
  then show "uniform_pair env (\<lambda>b. f (g b))" by (rule uniform_pair_after [OF u(2)])
  fix v mt bs b assume b: "builds env v mt bs b" "bs \<noteq> []" "length bs + 12 + (n + m) < 2 ^ 32"
  obtain b1 xs where 1: "Some (g b) = Some b1" "P (12 + length bs) xs" "builds env v mt (bs @ xs) b1" "length xs \<le> n"
    by (rule writerD [OF assms(1) b(1,2)]) (use b(3) in simp_all)
  obtain b2 len where 2: "f b1 = Some (b2, len)" "writes env v mt (bs @ xs) Q m b2"
    using assms(2) 1(3,4) b(2,3) unfolding writer_pair_def by force
  show "\<exists>b' len. f (g b) = Some (b', len) \<and> writes env v mt bs (followed P Q) (n + m) b'"
    using 1(1) 2(1) writes_followed [where P = P and Q = Q, OF 1(2) 2(2) 1(4)] by simp
qed

lemma writer_fst: "writer_pair env f P n \<Longrightarrow> writer env (\<lambda>b. map_option fst (f b)) P n"
  unfolding writer_pair_def writer_def by (force intro: uniform_fst)

lemma writer_with: "writer env f P n \<Longrightarrow> writer_pair env (\<lambda>b. map_option (\<lambda>b. (b, len)) (f b)) P n"
  unfolding writer_pair_def writer_def by (force intro: uniform_pair_const)

lemma writer_mono:
  assumes "writer env f P n" "\<And>off xs. P off xs \<Longrightarrow> Q off xs" "n \<le> m"
  shows "writer env f Q m"
proof (rule writerI)
  show "uniform env f" using assms(1) by (simp add: writer_def)
  fix v mt bs b assume b: "builds env v mt bs b" "bs \<noteq> []" "length bs + 12 + m < 2 ^ 32"
  obtain b1 xs where "f b = Some b1" "P (12 + length bs) xs" "builds env v mt (bs @ xs) b1" "length xs \<le> n"
    by (rule writerD [OF assms(1) b(1,2)]) (use b(3) assms(3) in simp_all)
  then show "\<exists>b'. f b = Some b' \<and> writes env v mt bs Q m b'"
    using assms(2,3) by (intro exI [of _ b1]) (auto intro!: writesI)
qed

lemma writer_pair_mono:
  assumes "writer_pair env f P n" "\<And>off xs. P off xs \<Longrightarrow> Q off xs" "n \<le> m"
  shows "writer_pair env f Q m"
  unfolding writer_pair_def
proof (intro conjI allI impI)
  show "uniform_pair env f" using assms(1) by (simp add: writer_pair_def)
  fix v mt bs b assume b: "builds env v mt bs b" "bs \<noteq> []" "length bs + 12 + m < 2 ^ 32"
  obtain b1 len xs where "f b = Some (b1, len)" "P (12 + length bs) xs" "builds env v mt (bs @ xs) b1" "length xs \<le> n"
    by (rule writer_pairD [OF assms(1) b(1,2)]) (use b(3) assms(3) in simp_all)
  then show "\<exists>b' len. f b = Some (b', len) \<and> writes env v mt bs Q m b'"
    using assms(2,3) by (intro exI [of _ b1] exI [of _ len]) (auto intro!: writesI)
qed

section \<open>Writers of the pieces\<close>

lemma writer_nothing: "writer env (\<lambda>b. Some b) (lit []) 0"
  by (rule writerI) (auto intro: uniform_intros writesI [where xs = "[]"] simp: lit_def)

lemma writer_bytes:
  assumes "xs \<noteq> []" "length xs \<le> 32"
  shows "writer env (\<lambda>b. Some (append_bytes env b xs)) (lit xs) (length xs)"
proof (rule writerI)
  show "uniform env (\<lambda>b. Some (append_bytes env b xs))" using assms by (intro uniform_intros)
  fix v mt bs b assume "builds env v mt bs b"
  from builds_bytes [OF this, of xs] assms
  show "\<exists>b'. Some (append_bytes env b xs) = Some b' \<and> writes env v mt bs (lit xs) (length xs) b'"
    by (auto intro!: writesI simp: lit_def)
qed

lemma writer_const: "writer env (\<lambda>b. Some (append_const env b xs)) (lit xs) (length xs)"
proof (rule writerI)
  show "uniform env (\<lambda>b. Some (append_const env b xs))" by (intro uniform_intros)
  fix v mt bs b assume "builds env v mt bs b" "bs \<noteq> []"
  from builds_const [OF this, of xs]
  show "\<exists>b'. Some (append_const env b xs) = Some b' \<and> writes env v mt bs (lit xs) (length xs) b'"
    by (auto intro!: writesI simp: lit_def)
qed

lemma writer_flags: "writer env (\<lambda>b. Some (append_flags env b)) (lit [1]) 1"
proof (rule writerI)
  show "uniform env (\<lambda>b. Some (append_flags env b))" by (intro uniform_intros)
  fix v mt bs b assume b: "builds env v mt bs b"
  then have "sb_flags b = 1" by (simp add: builds_def statics_def)
  with builds_bytes [OF b, of "[1]"]
  show "\<exists>b'. Some (append_flags env b) = Some b' \<and> writes env v mt bs (lit [1]) 1 b'"
    by (auto intro!: writesI simp: lit_def append_flags_def)
qed

lemma writer_ulong: "writer env (\<lambda>b. Some (append_aligned32 env b w)) (number_at w) 7"
proof (rule writerI)
  show "uniform env (\<lambda>b. Some (append_aligned32 env b w))" by (intro uniform_intros)
  fix v mt bs b assume b: "builds env v mt bs b" "bs \<noteq> []" "length bs + 12 + 7 < 2 ^ 32"
  obtain p where p: "length p = pad 4 (12 + length bs)" "builds env v mt (bs @ p @ le32 w) (append_aligned32 env b w)"
    by (rule builds_aligned32 [OF b(1)]) (use b(3) in simp_all)
  then show "\<exists>b'. Some (append_aligned32 env b w) = Some b' \<and> writes env v mt bs (number_at w) 7 b'"
    using pad_le(2) [of "12 + length bs"]
    by (auto intro!: writesI [where xs = "p @ le32 w"] simp: number_at_def aligned_def)
qed

lemma writer_aligned:
  assumes "k \<in> {2, 4}" "xs \<noteq> []" "length xs \<le> 32"
  shows "writer env (\<lambda>b. Some (append_bytes env (giop_send_buffer_align env b k) xs)) (aligned k xs) (length xs + 3)"
proof (rule writerI)
  show "uniform env (\<lambda>b. Some (append_bytes env (giop_send_buffer_align env b k) xs))"
    by (rule uniform_Some, rule uniform1_comp [of env "\<lambda>b. append_bytes env b xs"])
      (use assms in \<open>simp_all add: uniform_append_bytes uniform_align\<close>)
  fix v mt bs b assume b: "builds env v mt bs b" "bs \<noteq> []" "length bs + 12 + (length xs + 3) < 2 ^ 32"
  obtain p where p: "length p = pad k (12 + length bs)" "builds env v mt (bs @ p) (giop_send_buffer_align env b k)"
    by (rule builds_align [OF b(1), of k]) (use b(3) assms(1) in auto)
  have "length p \<le> 3" using p(1) pad_le [of "12 + length bs"] assms(1) by auto
  then show "\<exists>b'. Some (append_bytes env (giop_send_buffer_align env b k) xs) = Some b' \<and>
      writes env v mt bs (aligned k xs) (length xs + 3) b'"
    using builds_bytes [OF p(2), of xs] p(1) assms(2,3)
    by (auto intro!: writesI [where xs = "p @ xs"] simp: aligned_def)
qed

lemma writer_string:
  assumes "length s + 5 < 2 ^ 32"
  shows "writer env (\<lambda>b. Some (giop_send_buffer_append_string env b (BConst (s @ [0]), 0) s)) (block_at (s @ [0])) (length s + 16)"
proof (rule writerI)
  show "uniform env (\<lambda>b. Some (giop_send_buffer_append_string env b (BConst (s @ [0]), 0) s))"
    by (intro uniform_Some uniform_string [OF assms]) (simp add: src_ok_def)
  fix v mt bs b assume b: "builds env v mt bs b" "bs \<noteq> []" "length bs + 12 + (length s + 16) < 2 ^ 32"
  obtain p where p: "length p = pad 4 (12 + length bs)"
    "builds env v mt (bs @ p @ le32 (of_nat (length s + 1)) @ s @ [0]) (giop_send_buffer_append_string env b (BConst (s @ [0]), 0) s)"
    by (rule builds_string [OF b(1), of s]) (use b(3) in simp_all)
  then show "\<exists>b'. Some (giop_send_buffer_append_string env b (BConst (s @ [0]), 0) s) = Some b' \<and>
      writes env v mt bs (block_at (s @ [0])) (length s + 16) b'"
    using pad_le(2) [of "12 + length bs"]
    by (auto intro!: writesI [where xs = "p @ le32 (of_nat (length s + 1)) @ s @ [0]"] simp: block_at_def aligned_def)
qed

lemma builds_size:
  assumes "builds env v mt bs b"
  shows "sb_message_size b = of_nat (length bs)"
  using wf_payload_length [of env b] assms by (simp add: builds_def wf_send_def)

text \<open>The length of what the body writes is what is copied in behind.\<close>

lemma writer_patched:
  assumes w: "writer env body P n" and i: "\<And>bs. initial = Some bs \<Longrightarrow> length bs = 4"
  shows "writer_pair env (patched env initial body) (wrapped P) (n + 7)"
  unfolding writer_pair_def
proof (intro conjI allI impI)
  have u: "uniform env body" using w by (simp add: writer_def)
  then show "uniform_pair env (patched env initial body)" by (rule uniform_patched) (rule i)
  fix v mt bs b assume b: "builds env v mt bs b" "bs \<noteq> []" "length bs + 12 + (n + 7) < 2 ^ 32"
  have ok: "chunks_ok b" "num_indirects_used b \<noteq> 0" using b by (auto simp: builds_def wf_send_def)
  have room: "\<exists>p. length p = pad 4 (12 + length bs) \<and> builds env v mt (bs @ p @ le32 k) (append_prim env b (le32 k))" for k
    using builds_prim [OF b(1), of 4 "le32 k"] b(3) by fastforce
  have body: "\<exists>p c xs. length p = pad 4 (12 + length bs) \<and> builds env v mt (bs @ p @ le32 k) (append_prim env b (le32 k)) \<and>
      body (append_prim env b (le32 k)) = Some c \<and> P (12 + length bs + length p + 4) xs \<and>
      builds env v mt ((bs @ p @ le32 k) @ xs) c \<and> length xs \<le> n" for k
  proof -
    obtain p where p: "length p = pad 4 (12 + length bs)" "builds env v mt (bs @ p @ le32 k) (append_prim env b (le32 k))"
      using room by blast
    obtain c xs where "body (append_prim env b (le32 k)) = Some c" "P (12 + length (bs @ p @ le32 k)) xs"
      "builds env v mt ((bs @ p @ le32 k) @ xs) c" "length xs \<le> n"
      by (rule writerD [OF w p(2)]) (use b(2,3) p(1) pad_le(2) [of "12 + length bs"] in simp_all)
    with p show ?thesis by (intro exI [of _ p] exI [of _ c] exI [of _ xs]) (simp add: add.assoc)
  qed
  obtain c k where c: "patched env initial body b = Some (c, k)" "body (append_prim env b (le32 k)) = Some c"
      "k = sb_message_size c - sb_message_size (append_prim env b (le32 k))"
    by (rule patched_final [OF u ok, of initial]) (use i body in force)+
  obtain p xs where p: "length p = pad 4 (12 + length bs)" "builds env v mt (bs @ p @ le32 k) (append_prim env b (le32 k))"
      "P (12 + length bs + length p + 4) xs" "builds env v mt ((bs @ p @ le32 k) @ xs) c" "length xs \<le> n"
    using body [of k] c(2) by auto
  have k: "k = of_nat (length xs)"
    by (subst c(3), subst builds_size [OF p(2)], subst builds_size [OF p(4)]) simp
  have "writes env v mt bs (wrapped P) (n + 7) c"
    using p(1,3,4,5) b(3) pad_le(2) [of "12 + length bs"]
    by (intro writesI [where xs = "p @ le32 k @ xs"])
      (simp add: wrapped_def k, intro exI [of _ p] exI [of _ xs], simp_all)
  with c(1) show "\<exists>b' len. patched env initial body b = Some (b', len) \<and> writes env v mt bs (wrapped P) (n + 7) b'"
    by blast
qed

end
