(* ===== verification/Ior_Writing.thy ===== *)
theory Ior_Writing
  imports Ior_Layout
begin

text \<open>The marshalling functions of \<open>Ior_Marshal\<close> are writers of the encodings of \<open>Ior_Layout\<close>.\<close>

section \<open>What can be marshalled\<close>

text \<open>C strings of a length that fits, and bounds of what is written.\<close>

definition good_string :: "memory \<Rightarrow> bool" where
  "good_string m \<longleftrightarrow> (\<exists>s. m = s @ [0] \<and> 0 \<notin> set s \<and> length s + 5 < 2 ^ 32)"

fun component_size :: "ORBit_ObjectKey \<Rightarrow> IOP_Component_info \<Rightarrow> nat" where
  "component_size key (Generic_ssl_sec_trans s) = length s + 40"
| "component_size key (Ssl_sec_trans s r p) = 40"
| "component_size key (Complete_object_key k) = length key + 40"
| "component_size key (Code_sets c w) =
     4 * length (conversion_code_sets c) + 4 * length (conversion_code_sets w) + 60"
| "component_size key (Unknown_component t d) = length d + 40"

definition components_size :: "ORBit_ObjectKey \<Rightarrow> IOP_Component_info list \<Rightarrow> nat" where
  "components_size key cs = sum_list (map (component_size key) cs) + 7"

fun profile_size :: "ORBit_ObjectKey \<Rightarrow> IOP_Profile_info \<Rightarrow> nat" where
  "profile_size key (Internet_iop v h p k cs) = length h + length key + components_size key cs + 60"
| "profile_size key (Generic_iop v proto h s cs) = length proto + length h + length s + components_size key cs + 80"
| "profile_size key (Orbit_specific u p k) = length u + length key + 60"
| "profile_size key (Multiple_components cs) = components_size key cs + 20"
| "profile_size key (Unknown_profile t d) = length d + 20"

definition profiles_size :: "ORBit_ObjectKey \<Rightarrow> IOP_Profile_info list \<Rightarrow> nat" where
  "profiles_size key ps = sum_list (map (profile_size key) ps)"

fun component_good :: "IOP_Component_info \<Rightarrow> bool" where
  "component_good (Generic_ssl_sec_trans s) \<longleftrightarrow> good_string s"
| "component_good _ \<longleftrightarrow> True"

fun profile_good :: "IOP_Profile_info \<Rightarrow> bool" where
  "profile_good (Internet_iop v h p k cs) \<longleftrightarrow> good_string h \<and> list_all component_good cs"
| "profile_good (Generic_iop v proto h s cs) \<longleftrightarrow>
     good_string proto \<and> good_string h \<and> good_string s \<and> list_all component_good cs"
| "profile_good (Orbit_specific u p k) \<longleftrightarrow> good_string u"
| "profile_good (Multiple_components cs) \<longleftrightarrow> list_all component_good cs"
| "profile_good (Unknown_profile t d) \<longleftrightarrow> True"

section \<open>Components\<close>

lemma le_nonempty [simp]: "le32 w \<noteq> []" "le16 w' \<noteq> []"
  by (simp_all add: le32_def le16_def)

lemma writer_memory_string:
  assumes "good_string m"
  shows "writer env (append_memory_string env m) (block_at m) (length m + 15)"
proof -
  obtain s where s: "m = s @ [0]" "0 \<notin> set s" "length s + 5 < 2 ^ 32" using assms by (auto simp: good_string_def)
  have "append_memory_string env m = (\<lambda>b. Some (giop_send_buffer_append_string env b (BConst (s @ [0]), 0) s))"
    by (rule ext) (simp add: append_memory_string_def s(1,2))
  then have "writer env (append_memory_string env m) (block_at m) (length s + 16)"
    using writer_string [OF s(3), of env] by (simp add: s(1))
  then show ?thesis by (rule writer_mono) (simp_all add: s(1))
qed

lemma writer_key: "writer env (IOP_ObjectKey_marshal env (Some key)) (block_at key) (length key + 7)"
proof -
  have "writer env (\<lambda>b. Some (append_const env (append_aligned32 env b (of_nat (length key))) key))
      (followed (number_at (of_nat (length key))) (lit key)) (7 + length key)"
    by (rule writer_after [OF writer_ulong writer_const])
  moreover have "followed (number_at (of_nat (length key))) (lit key) off xs \<Longrightarrow> block_at key off xs" for off xs
    unfolding followed_def number_at_def block_at_def aligned_def lit_def by auto
  ultimately show ?thesis
    unfolding IOP_ObjectKey_marshal_def option.map by (rule writer_mono) simp_all
qed

lemma writer_code_set:
  "writer env (\<lambda>b. Some (CodeSetComponent_marshal env c b)) (code_set_at c) (4 * length (conversion_code_sets c) + 14)"
proof -
  let ?ws = "conversion_code_sets c"
  have "length (concat (map le32 ws)) = 4 * length ws" for ws by (induction ws) simp_all
  then have "writer env (\<lambda>b. if ?ws = [] then Some b else Some (append_const env b (concat (map le32 ?ws))))
      (lit (concat (map le32 ?ws))) (4 * length ?ws)"
    using writer_nothing [of env] writer_const [of env "concat (map le32 ?ws)"] by (cases "?ws = []") simp_all
  from writer_after [OF writer_ulong writer_after [OF writer_ulong this]]
  have "writer env (\<lambda>b. Some (CodeSetComponent_marshal env c b)) (code_set_at c) (7 + (7 + 4 * length ?ws))"
    unfolding code_set_at_def CodeSetComponent_marshal_def Let_def by (simp add: if_distrib [of Some])
  then show ?thesis by (rule writer_mono) simp_all
qed

lemma writer_component_body:
  assumes "component_good c"
  shows "writer_pair env (component_body env (Some key) c len)
      (case c of Unknown_component t d \<Rightarrow> lit (le32 (of_nat (length d)) @ d) | _ \<Rightarrow> component_body_at key c)
      (component_size key c - 7)"
proof (cases c)
  case (Generic_ssl_sec_trans s)
  with assms have "good_string s" by simp
  from writer_patched [OF writer_after [OF writer_flags writer_memory_string [OF this]], where initial = "Some (le32 len)"]
  show ?thesis unfolding Generic_ssl_sec_trans component_body.simps IOP_Component_info.case component_body_at.simps
    by (rule writer_pair_mono) simp_all
next
  case (Ssl_sec_trans s r p)
  have "writer env (\<lambda>b. Some (Ssl_marshal env s r p b)) (aligned 4 (le32 s @ le32 r @ le16 p)) 13"
    unfolding Ssl_marshal_def using writer_aligned [of 4 "le32 s @ le32 r @ le16 p" env] by simp
  from writer_patched [OF writer_after [OF writer_flags this], where initial = "Some (le32 len)"]
  show ?thesis unfolding Ssl_sec_trans component_body.simps IOP_Component_info.case component_body_at.simps
    by (rule writer_pair_mono) simp_all
next
  case (Complete_object_key k)
  from writer_with [OF writer_key [of env key], of len]
  show ?thesis unfolding Complete_object_key component_body.simps IOP_Component_info.case component_body_at.simps
    by (rule writer_pair_mono) simp_all
next
  case (Code_sets cc w)
  from writer_patched [OF writer_after [OF writer_flags writer_after [OF writer_code_set [of env cc] writer_code_set [of env w]]],
      where initial = "Some (le32 len)"]
  show ?thesis unfolding Code_sets component_body.simps IOP_Component_info.case component_body_at.simps
    by (rule writer_pair_mono) simp_all
next
  case (Unknown_component t d)
  have "writer env (\<lambda>b. Some (append_bytes env b (le32 (of_nat (length d))))) (lit (le32 (of_nat (length d)))) 4"
    using writer_bytes [of "le32 (of_nat (length d))" env] by simp
  from writer_with [OF writer_after [OF this writer_const [of env d]], of len]
  show ?thesis unfolding Unknown_component component_body.simps IOP_Component_info.case IOP_UnknownComponent_marshal_def option.map
      followed_lits
    by (rule writer_pair_mono) simp_all
qed

lemma writer_component:
  assumes "component_good c"
  shows "writer_pair env (\<lambda>b. component_body env (Some key) c len
      (append_bytes env (giop_send_buffer_align env b 4) (le32 (component_type c)))) (component_at key c) (component_size key c)"
proof -
  have "writer env (\<lambda>b. Some (append_bytes env (giop_send_buffer_align env b 4) (le32 (component_type c))))
      (number_at (component_type c)) 7"
    unfolding number_at_def using writer_aligned [of 4 "le32 (component_type c)" env] by simp
  from writer_pair_after [OF this writer_component_body [OF assms]] show ?thesis
  proof (rule writer_pair_mono)
    fix off xs
    show "followed (number_at (component_type c)) (case c of Unknown_component t d \<Rightarrow> lit (le32 (of_nat (length d)) @ d)
        | _ \<Rightarrow> component_body_at key c) off xs \<Longrightarrow> component_at key c off xs"
      unfolding component_at_def using ulong_block by (cases c) simp_all
    show "7 + (component_size key c - 7) \<le> component_size key c" by (cases c) simp_all
  qed
qed

lemma writer_components_loop:
  "list_all component_good cs \<Longrightarrow>
     writer env (components_loop env (Some key) cs len) (many_at (component_at key) cs) (sum_list (map (component_size key) cs))"
proof (induction cs arbitrary: len)
  case Nil
  then show ?case by (simp add: writer_nothing)
next
  case (Cons c cs)
  then have c: "component_good c" by simp
  show ?case
    using writer_pair_then [OF writer_component [OF c] Cons.IH] Cons.prems by simp
qed

lemma writer_components:
  assumes "list_all component_good cs"
  shows "writer env (IOP_components_marshal env (Some key) cs) (components_at key cs) (components_size key cs)"
  using writer_after [OF writer_ulong writer_components_loop [OF assms]]
  unfolding IOP_components_marshal_def components_at_def components_size_def Let_def by (simp add: add.commute)

section \<open>Profiles\<close>

lemma writer_version: "writer env (\<lambda>b. Some (append_version env (giop_version_ids v) b)) (version_at v) 2"
  unfolding append_version_def version_at_def using writer_bytes [of "[fst (giop_version_ids v), snd (giop_version_ids v)]" env] by (simp add: numeral_2_eq_2)

lemma writer_port: "writer env (\<lambda>b. Some (append_port env p b)) (port_at p) 5"
  unfolding append_port_def port_at_def using writer_aligned [of 2 "le16 p" env] by simp

lemma writer_profile_body:
  assumes "profile_good p"
  shows "writer env (profile_body env (Some key) p) (profile_body_at key p) (profile_size key p - 14)"
proof (cases p)
  case (Internet_iop v h port k cs)
  with assms have g: "good_string h" "list_all component_good cs" by simp_all
  note h = writer_after [OF writer_version writer_memory_string [OF g(1)], of env v]
  note k = writer_after [OF writer_port [of env port] writer_key [of env key]]
  from writer_after [OF writer_flags writer_then [OF h writer_then [OF k writer_components [OF g(2), of env key]]]]
  show ?thesis
    unfolding Internet_iop profile_body.simps IOP_TAG_INTERNET_IOP_marshal_def profile_body_at.simps followed_assoc
    by (rule writer_mono) simp_all
next
  case (Generic_iop v proto h s cs)
  with assms have g: "good_string proto" "good_string h" "good_string s" "list_all component_good cs" by simp_all
  note proto = writer_after [OF writer_version writer_memory_string [OF g(1)], of env v]
  from writer_after [OF writer_flags writer_then [OF proto writer_then [OF writer_memory_string [OF g(2)]
      writer_then [OF writer_memory_string [OF g(3)] writer_components [OF g(4), of env key]]]]]
  show ?thesis
    unfolding Generic_iop profile_body.simps IOP_TAG_GENERIC_IOP_marshal_def profile_body_at.simps followed_assoc
    by (rule writer_mono) simp_all
next
  case (Orbit_specific u port k)
  with assms have g: "good_string u" by simp
  have "writer env (\<lambda>b. Some (append_version env (1, 2) b)) (lit [1, 2]) 2"
    unfolding append_version_def using writer_bytes [of "[1, 2]" env] by (simp add: numeral_2_eq_2)
  note h = writer_after [OF this writer_memory_string [OF g]]
  note k = writer_after [OF writer_port [of env port] writer_key [of env key]]
  from writer_after [OF writer_flags writer_then [OF h k]]
  show ?thesis
    unfolding Orbit_specific profile_body.simps IOP_TAG_ORBIT_SPECIFIC_marshal_def profile_body_at.simps followed_assoc
    by (rule writer_mono) simp_all
next
  case (Multiple_components cs)
  with assms have g: "list_all component_good cs" by simp
  from writer_after [OF writer_flags writer_components [OF g, of env key]]
  show ?thesis unfolding Multiple_components profile_body.simps profile_body_at.simps
    by (rule writer_mono) simp_all
next
  case (Unknown_profile t d)
  from writer_const [of env d] show ?thesis unfolding Unknown_profile profile_body.simps profile_body_at.simps
    by (rule writer_mono) simp_all
qed

lemma writer_profile:
  assumes "profile_good p"
  shows "writer env (IOP_profile_marshal env (Some key) p) (profile_at key p) (profile_size key p)"
proof -
  note f = writer_fst [OF writer_patched [OF writer_profile_body [OF assms, of env key], where initial = None]]
  have "writer env (IOP_profile_marshal env (Some key) p) (profile_at key p) (7 + (profile_size key p - 14 + 7))"
    unfolding IOP_profile_marshal_def profile_at_def by (rule writer_after [OF writer_ulong f]) simp
  then show ?thesis by (rule writer_mono) (simp, cases p, simp_all)
qed

lemma writer_profiles:
  "list_all profile_good ps \<Longrightarrow>
     writer env (profiles_loop env (Some key) ps) (many_at (profile_at key) ps) (profiles_size key ps)"
proof (induction ps)
  case Nil
  then show ?case by (simp add: writer_nothing profiles_size_def)
next
  case (Cons p ps)
  then show ?case
    using writer_then [OF writer_profile [of p env key] Cons.IH] by (simp add: profiles_size_def)
qed

section \<open>References\<close>

definition object_size :: "byte list \<Rightarrow> ORBit_ObjectKey \<Rightarrow> IOP_Profile_info list \<Rightarrow> nat" where
  "object_size type key ps = length type + profiles_size key ps + 23"

lemma writer_object:
  assumes "length (ob_type obj) + 5 < 2 ^ 32" "list_all profile_good (ob_profiles obj)" "ob_profiles obj \<noteq> []" "ob_key obj = Some key"
  shows "writer env (marshal_reference env obj) (object_at (ob_type obj) key (ob_profiles obj))
    (object_size (ob_type obj) key (ob_profiles obj))"
proof -
  have "writer env (marshal_reference env obj) (object_at (ob_type obj) key (ob_profiles obj))
      (length (ob_type obj) + 16 + (7 + profiles_size key (ob_profiles obj)))"
    unfolding marshal_reference_def [abs_def] object_at_def Let_def assms(4) if_not_P [OF assms(3)]
    by (rule writer_after [OF writer_string [OF assms(1)] writer_after [OF writer_ulong writer_profiles [OF assms(2)]]])
  then show ?thesis by (rule writer_mono) (simp_all add: object_size_def)
qed

end
