(* ===== verification/Ior_Demarshal.thy ===== *)
theory Ior_Demarshal
  imports Ior_Marshal Giop_Input
begin

text \<open>
  Demarshalling of an object reference (\<open>iop-profiles.c\<close>, \<open>ORBit_demarshal_IOR\<close>). A null
  result and \<open>TRUE\<close> are \<open>Malformed\<close>; \<open>OutOfBounds\<close> is memory outside the message (read, or
  freed through a pointer that was never set).
\<close>

section \<open>Pieces\<close>

text \<open>A length and as many octets, copied: keys, strings and unknown data.\<close>

definition demarshal_block :: "GIOPRecvBuffer \<Rightarrow> recv_error + (byte list \<times> GIOPRecvBuffer)" where
  "demarshal_block buf = andThen (demarshal_ulong buf) (\<lambda>(len, buf). fetch_octets len buf)"

definition IOP_ObjectKey_demarshal :: "GIOPRecvBuffer \<Rightarrow> recv_error + (ORBit_ObjectKey \<times> GIOPRecvBuffer)" where
  "IOP_ObjectKey_demarshal = demarshal_block"

definition demarshal_port :: "GIOPRecvBuffer \<Rightarrow> recv_error + (u16 \<times> GIOPRecvBuffer)" where
  "demarshal_port buf0 =
     (let buf = align_cur 2 buf0 in andThen (check 2 buf) (\<lambda>_. fetch16 buf))"

definition demarshal_version :: "GIOPRecvBuffer \<Rightarrow> recv_error + (GIOPVersion \<times> GIOPRecvBuffer)" where
  "demarshal_version buf =
     andThen (check 2 buf) (\<lambda>_.
     andThen (fetch8 1 buf) (\<lambda>(v1, buf).
     andThen (fetch8 1 buf) (\<lambda>(v2, buf).
       if v1 = 1 \<and> v2 = 0 then Inr (GIOP_1_0, buf)
       else if v1 = 1 \<and> v2 = 1 then Inr (GIOP_1_1, buf)
       else if v1 = 1 \<and> v2 = 2 then Inr (GIOP_1_2, buf)
       else Inl Malformed)))"

section \<open>Components\<close>

text \<open>An encapsulated component whose numbers are read in the byte order of the buffer around it.\<close>

definition in_order_of :: "GIOPRecvBuffer \<Rightarrow> GIOPRecvBuffer \<Rightarrow> GIOPRecvBuffer" where
  "in_order_of buf sub = sub\<lparr>header := (header sub)\<lparr>flags := flags (header buf)\<rparr>\<rparr>"

definition IOP_TAG_SSL_SEC_TRANS_demarshal :: "GIOPRecvBuffer \<Rightarrow> recv_error + (IOP_Component_info \<times> GIOPRecvBuffer)" where
  "IOP_TAG_SSL_SEC_TRANS_demarshal buf0 =
     andThen (giop_recv_buffer_use_encaps_buf buf0) (\<lambda>(sub, buf).
     let sub = align_cur 4 (in_order_of buf sub) in
     andThen (check 10 sub) (\<lambda>_.
     andThen (fetch32 sub) (\<lambda>(supports, sub).
     andThen (fetch32 sub) (\<lambda>(requires, sub).
     andThen (fetch16 sub) (\<lambda>(port, sub).
       Inr (Ssl_sec_trans supports requires port, buf))))))"

definition IOP_TAG_GENERIC_SSL_SEC_TRANS_demarshal ::
    "GIOPRecvBuffer \<Rightarrow> recv_error + (IOP_Component_info \<times> GIOPRecvBuffer)" where
  "IOP_TAG_GENERIC_SSL_SEC_TRANS_demarshal buf0 =
     andThen (giop_recv_buffer_use_encaps_buf buf0) (\<lambda>(sub, buf).
     andThen (demarshal_block (in_order_of buf sub)) (\<lambda>(s, sub).
       Inr (Generic_ssl_sec_trans s, buf)))"

definition IOP_TAG_COMPLETE_OBJECT_KEY_demarshal ::
    "GIOPRecvBuffer \<Rightarrow> recv_error + (IOP_Component_info \<times> GIOPRecvBuffer)" where
  "IOP_TAG_COMPLETE_OBJECT_KEY_demarshal buf =
     andThen (IOP_ObjectKey_demarshal buf) (\<lambda>(k, buf). Inr (Complete_object_key (Some k), buf))"

fun fetch_ulongs :: "nat \<Rightarrow> GIOPRecvBuffer \<Rightarrow> recv_error + (u32 list \<times> GIOPRecvBuffer)" where
  "fetch_ulongs 0 buf = Inr ([], buf)"
| "fetch_ulongs (Suc n) buf =
     andThen (fetch32 buf) (\<lambda>(w, buf).
     andThen (fetch_ulongs n buf) (\<lambda>(ws, buf). Inr (w # ws, buf)))"

text \<open>The product with 4 is of 32 bits, the number of elements read is not.\<close>

definition CodeSetComponent_demarshal :: "GIOPRecvBuffer \<Rightarrow> recv_error + (CodeSetComponent \<times> GIOPRecvBuffer)" where
  "CodeSetComponent_demarshal buf0 =
     (let buf = align_cur 4 buf0 in
      andThen (check 8 buf) (\<lambda>_.
      andThen (fetch32 buf) (\<lambda>(native, buf).
      andThen (fetch32 buf) (\<lambda>(sequence_length, buf).
      andThen (check (ucast (sequence_length * 4)) buf) (\<lambda>_.
      andThen (fetch_ulongs (unat sequence_length) buf) (\<lambda>(sets, buf).
        Inr (\<lparr>native_code_set = native, conversion_code_sets = sets\<rparr>, buf)))))))"

definition IOP_TAG_CODE_SETS_demarshal :: "GIOPRecvBuffer \<Rightarrow> recv_error + (IOP_Component_info \<times> GIOPRecvBuffer)" where
  "IOP_TAG_CODE_SETS_demarshal buf0 =
     andThen (giop_recv_buffer_use_encaps_buf buf0) (\<lambda>(encaps, buf).
     andThen (CodeSetComponent_demarshal encaps) (\<lambda>(c, encaps).
     andThen (CodeSetComponent_demarshal encaps) (\<lambda>(w, encaps).
       Inr (Code_sets c w, buf))))"

definition IOP_UnknownComponent_demarshal :: "u32 \<Rightarrow> GIOPRecvBuffer \<Rightarrow> recv_error + (IOP_Component_info \<times> GIOPRecvBuffer)" where
  "IOP_UnknownComponent_demarshal t buf =
     andThen (demarshal_block buf) (\<lambda>(d, buf). Inr (Unknown_component t d, buf))"

definition component_demarshal :: "GIOPRecvBuffer \<Rightarrow> recv_error + (IOP_Component_info \<times> GIOPRecvBuffer)" where
  "component_demarshal buf =
     andThen (demarshal_ulong buf) (\<lambda>(cid, buf).
       if cid = IOP_TAG_COMPLETE_OBJECT_KEY then IOP_TAG_COMPLETE_OBJECT_KEY_demarshal buf
       else if cid = IOP_TAG_GENERIC_SSL_SEC_TRANS then IOP_TAG_GENERIC_SSL_SEC_TRANS_demarshal buf
       else if cid = IOP_TAG_SSL_SEC_TRANS then IOP_TAG_SSL_SEC_TRANS_demarshal buf
       else if cid = IOP_TAG_CODE_SETS then IOP_TAG_CODE_SETS_demarshal buf
       else IOP_UnknownComponent_demarshal cid buf)"

fun demarshal_many :: "(GIOPRecvBuffer \<Rightarrow> recv_error + ('a \<times> GIOPRecvBuffer)) \<Rightarrow> nat \<Rightarrow> GIOPRecvBuffer \<Rightarrow>
    recv_error + ('a list \<times> GIOPRecvBuffer)" where
  "demarshal_many f 0 buf = Inr ([], buf)"
| "demarshal_many f (Suc n) buf =
     andThen (f buf) (\<lambda>(x, buf).
     andThen (demarshal_many f n buf) (\<lambda>(xs, buf). Inr (x # xs, buf)))"

definition IOP_components_demarshal :: "GIOPRecvBuffer \<Rightarrow> recv_error + (IOP_Component_info list \<times> GIOPRecvBuffer)" where
  "IOP_components_demarshal buf =
     andThen (demarshal_ulong buf) (\<lambda>(len, buf). demarshal_many component_demarshal (unat len) buf)"

section \<open>Profiles\<close>

definition IOP_UnknownProfile_demarshal :: "u32 \<Rightarrow> GIOPRecvBuffer \<Rightarrow> recv_error + (IOP_Profile_info \<times> GIOPRecvBuffer)" where
  "IOP_UnknownProfile_demarshal t buf =
     andThen (demarshal_block buf) (\<lambda>(d, buf). Inr (Unknown_profile t d, buf))"

text \<open>
  The label errout frees a key that was not set yet when the port is missing;
  the two octets of the version are skipped.
\<close>

fun frees_unset_key :: "recv_error + 'a \<Rightarrow> recv_error + 'a" where
  "frees_unset_key (Inl _) = Inl OutOfBounds"
| "frees_unset_key (Inr x) = Inr x"

definition IOP_TAG_ORBIT_SPECIFIC_demarshal :: "GIOPRecvBuffer \<Rightarrow> recv_error + (IOP_Profile_info \<times> GIOPRecvBuffer)" where
  "IOP_TAG_ORBIT_SPECIFIC_demarshal pbuf =
     andThen (giop_recv_buffer_use_encaps_buf pbuf) (\<lambda>(buf, pbuf).
     andThen (check 2 buf) (\<lambda>_.
     andThen (demarshal_block (advance 2 buf)) (\<lambda>(path, buf).
     andThen (frees_unset_key (demarshal_port buf)) (\<lambda>(port, buf).
     andThen (IOP_ObjectKey_demarshal buf) (\<lambda>(key, buf).
       Inr (Orbit_specific path port (Some key), pbuf))))))"

definition IOP_TAG_MULTIPLE_COMPONENTS_demarshal ::
    "GIOPRecvBuffer \<Rightarrow> recv_error + (IOP_Profile_info \<times> GIOPRecvBuffer)" where
  "IOP_TAG_MULTIPLE_COMPONENTS_demarshal pbuf =
     andThen (giop_recv_buffer_use_encaps_buf pbuf) (\<lambda>(buf, pbuf).
     andThen (IOP_components_demarshal buf) (\<lambda>(cs, buf). Inr (Multiple_components cs, pbuf)))"

definition IOP_TAG_GENERIC_IOP_demarshal :: "GIOPRecvBuffer \<Rightarrow> recv_error + (IOP_Profile_info \<times> GIOPRecvBuffer)" where
  "IOP_TAG_GENERIC_IOP_demarshal pbuf =
     andThen (giop_recv_buffer_use_encaps_buf pbuf) (\<lambda>(buf, pbuf).
     andThen (demarshal_version buf) (\<lambda>(v, buf).
     andThen (demarshal_block buf) (\<lambda>(proto, buf).
     andThen (demarshal_block buf) (\<lambda>(host, buf).
     andThen (demarshal_block buf) (\<lambda>(service, buf).
     andThen (IOP_components_demarshal buf) (\<lambda>(cs, buf).
       Inr (Generic_iop v proto host service cs, pbuf)))))))"

text \<open>A profile of version 1.0 has no components.\<close>

definition IOP_TAG_INTERNET_IOP_demarshal :: "GIOPRecvBuffer \<Rightarrow> recv_error + (IOP_Profile_info \<times> GIOPRecvBuffer)" where
  "IOP_TAG_INTERNET_IOP_demarshal pbuf =
     andThen (giop_recv_buffer_use_encaps_buf pbuf) (\<lambda>(buf, pbuf).
     andThen (demarshal_version buf) (\<lambda>(v, buf).
     andThen (demarshal_block buf) (\<lambda>(host, buf).
     andThen (demarshal_port buf) (\<lambda>(port, buf).
     andThen (IOP_ObjectKey_demarshal buf) (\<lambda>(key, buf).
     andThen (if v = GIOP_1_0 then Inr ([], buf) else IOP_components_demarshal buf) (\<lambda>(cs, buf).
       Inr (Internet_iop v host port (Some key) cs, pbuf)))))))"

definition IOP_profile_demarshal :: "GIOPRecvBuffer \<Rightarrow> recv_error + (IOP_Profile_info \<times> GIOPRecvBuffer)" where
  "IOP_profile_demarshal buf =
     andThen (demarshal_ulong buf) (\<lambda>(p, buf).
       if p = IOP_TAG_INTERNET_IOP then IOP_TAG_INTERNET_IOP_demarshal buf
       else if p = IOP_TAG_MULTIPLE_COMPONENTS then IOP_TAG_MULTIPLE_COMPONENTS_demarshal buf
       else if p = IOP_TAG_GENERIC_IOP then IOP_TAG_GENERIC_IOP_demarshal buf
       else if p = IOP_TAG_ORBIT_SPECIFIC then IOP_TAG_ORBIT_SPECIFIC_demarshal buf
       else IOP_UnknownProfile_demarshal p buf)"

section \<open>References\<close>

text \<open>
  The result is the address of the type id in the message and the profiles; it is none for
  a nil reference, which has an empty type id and no profiles.
\<close>

definition ORBit_demarshal_IOR :: "GIOPRecvBuffer \<Rightarrow>
    recv_error + ((u64 \<times> IOP_Profile_info list) option \<times> GIOPRecvBuffer)" where
  "ORBit_demarshal_IOR buf =
     andThen (demarshal_ulong buf) (\<lambda>(len, buf).
     andThen (check (ucast len) buf) (\<lambda>_.
     let type_id = rcur buf in
     andThen (demarshal_ulong (advance (ucast len) buf)) (\<lambda>(num_profiles, buf).
     andThen (load buf type_id 1) (\<lambda>c.
     if hd c = 0 \<and> num_profiles = 0 then Inr (None, buf)
     else andThen (demarshal_many IOP_profile_demarshal (unat num_profiles) buf) (\<lambda>(ps, buf).
       Inr (Some (type_id, ps), buf))))))"

end
