(* ===== verification/Ior_Reading.thy ===== *)
theory Ior_Reading
  imports Ior_Writing Ior_Demarshal
begin

text \<open>
  The demarshalling functions of \<open>Ior_Demarshal\<close> read the encodings of \<open>Ior_Layout\<close>.
  An encapsulation is read through a buffer of its own, whose memory begins inside the
  message; what a buffer means here (\<open>span\<close>) therefore does not refer to where its
  memory begins, only to where the cursor stands modulo 4, which is what alignment needs.
\<close>

section \<open>What a buffer holds\<close>

definition span :: "GIOPRecvBuffer \<Rightarrow> nat \<Rightarrow> byte list \<Rightarrow> bool" where
  "span buf off r \<longleftrightarrow>
     has_room 0 buf \<and> \<not> giop_msg_conversion_needed buf \<and> unat (rcur buf) mod 4 = off mod 4 \<and>
     r = take (unat (rend buf) - unat (rcur buf)) (drop (unat (rcur buf) - unat (message_body buf)) (body_mem buf))"

lemma span_view:
  assumes "view False buf off r" "has_room 0 buf"
  shows "span buf off r"
proof -
  have d: "4 dvd unat (message_body buf)" by (rule dvd_trans [of _ 8]) (use assms(1) in \<open>simp_all add: view_def\<close>)
  have c: "unat (rcur buf) = unat (message_body buf) + off" using assms(1) by (simp add: view_def)
  have "unat (rcur buf) mod 4 = off mod 4" using d unfolding c by (auto elim!: dvdE)
  then show ?thesis using assms by (auto simp: span_def view_def drop_take)
qed

lemma span_wf: "span buf off r \<Longrightarrow> wf_buf buf"
  unfolding span_def has_room_def by blast

lemma span_end:
  assumes "span buf off r"
  shows "unat (rcur buf) + length r = unat (rend buf)" "unat (rend buf) + 64 \<le> 2 ^ 64"
    "unat (message_body buf) \<le> unat (rcur buf)"
proof -
  show c: "unat (message_body buf) \<le> unat (rcur buf)" and "unat (rend buf) + 64 \<le> 2 ^ 64"
    using assms by (simp_all add: span_def has_room_def wf_buf_def)
  have "unat (rcur buf) \<le> unat (rend buf)" "unat (rend buf) \<le> unat (message_body buf) + length (body_mem buf)"
    using assms by (simp_all add: span_def has_room_def wf_buf_def)
  moreover have "length r = min (unat (rend buf) - unat (rcur buf))
      (length (body_mem buf) - (unat (rcur buf) - unat (message_body buf)))"
    using assms unfolding span_def by (metis length_drop length_take min.commute)
  ultimately show "unat (rcur buf) + length r = unat (rend buf)" using c by linarith
qed

lemma span_room: "span buf off r \<Longrightarrow> n \<le> length r \<Longrightarrow> has_room n buf"
  using span_end(1) [of buf off r] span_wf [of buf off r] by (simp add: has_room_def)

lemma span_load:
  assumes "span buf off r" "n \<le> length r"
  shows "load buf (rcur buf) n = Inr (take n r)"
proof -
  note e = span_end [OF assms(1)]
  have "message_body buf \<le> rcur buf" using e(3) by (simp add: word_le_nat_alt)
  then have o: "unat (rcur buf - message_body buf) = unat (rcur buf) - unat (message_body buf)" by (rule unat_sub)
  have "unat (rend buf) \<le> unat (message_body buf) + length (body_mem buf)"
    using assms(1) by (simp add: span_def has_room_def wf_buf_def)
  then have "unat (rcur buf) - unat (message_body buf) + n \<le> length (body_mem buf)" using e assms(2) by simp
  moreover have "r = take (unat (rend buf) - unat (rcur buf))
      (drop (unat (rcur buf) - unat (message_body buf)) (body_mem buf))" using assms(1) by (simp add: span_def)
  moreover have "n \<le> unat (rend buf) - unat (rcur buf)" using e(1) assms(2) by simp
  ultimately show ?thesis by (simp add: load_def Let_def o min_def)
qed

lemma span_check: "span buf off r \<Longrightarrow> unat n \<le> length r \<Longrightarrow> check n buf = Inr ()"
  using span_end [of buf off r] ptr_over_nat [of "rcur buf" n "rend buf"] by (simp add: check_def)

lemma span_check_past: "span buf off r \<Longrightarrow> unat len \<le> length r \<Longrightarrow> check_past len buf = Inr ()"
  using span_end [of buf off r] ptr_past_nat [of "rcur buf" "rend buf" "ucast len"]
  by (auto simp: check_past_def unat_ucast_u32)

lemma span_advance:
  assumes s: "span buf off r" and n: "unat n \<le> length r"
  shows "span (advance n buf) (off + unat n) (drop (unat n) r)"
proof -
  note e = span_end [OF s]
  have u: "unat (rcur buf + n) = unat (rcur buf) + unat n" using e n by (simp add: unat_word_ariths)
  have h: "has_room 0 (advance n buf)" using has_room_advance [OF span_room [OF s n], of n] by simp
  have "drop (unat n) r = take (unat (rend buf) - (unat (rcur buf) + unat n))
      (drop (unat (rcur buf) + unat n - unat (message_body buf)) (body_mem buf))"
    using s e(3) by (simp add: span_def drop_take add.commute)
  with s h show ?thesis
    by (simp add: span_def advance_def giop_msg_conversion_needed_def u) (metis mod_add_left_eq)
qed

lemma pad_mod:
  assumes "k dvd 4" "0 < k" "a mod 4 = b mod 4"
  shows "pad k a = pad k b"
proof -
  have "pad k c = pad k (c mod 4)" for c
  proof -
    have "k dvd 4 * (c div 4)" using assms(1) by simp
    from align_up_add [OF this assms(2), of "c mod 4"] have "align_up k c = 4 * (c div 4) + align_up k (c mod 4)" by simp
    then show ?thesis unfolding pad_def using mult_div_mod_eq [of 4 c] by linarith
  qed
  from this [of a] this [of b] assms(3) show ?thesis by simp
qed

lemma span_align:
  assumes s: "span buf off (p @ r)" and p: "length p = pad (2 ^ k) off" and k: "k = 1 \<or> k = 2"
  shows "span (align_cur (2 ^ k) buf) (off + length p) r"
proof -
  note e = span_end [OF s]
  have "align_up 8 (unat (rend buf)) < unat (rend buf) + 8" by (rule align_up_lt) simp
  then have "unat (rcur buf) + 8 \<le> 2 ^ 64" using e by simp
  then have u: "unat (ALIGN_VALUE (rcur buf) (2 ^ k)) = align_up (2 ^ k) (unat (rcur buf))"
    using k by (intro unat_ALIGN_VALUE) auto
  have m: "unat (rcur buf) mod 4 = off mod 4" using s by (simp add: span_def)
  have "pad (2 ^ k) (unat (rcur buf)) = length p"
    unfolding p using k by (intro pad_mod [OF _ _ m]) auto
  then have a: "align_up (2 ^ k) (unat (rcur buf)) = unat (rcur buf) + length p" by (simp add: align_up_pad)
  have l: "unat (of_nat (length p) :: u64) = length p"
    unfolding unat_of_nat by (rule mod_less) (use e in simp)
  have "unat (rcur buf + of_nat (length p)) = unat (rcur buf) + length p"
    using e l by (simp add: unat_word_ariths)
  then have "ALIGN_VALUE (rcur buf) (2 ^ k) = rcur buf + of_nat (length p)"
    by (simp only: word_unat_eq_iff u a)
  then have "align_cur (2 ^ k) buf = advance (of_nat (length p)) buf" by (simp add: align_cur_def advance_def)
  with span_advance [OF s, of "of_nat (length p)"] l show ?thesis by simp
qed

lemma span_align2: "span buf off (p @ r) \<Longrightarrow> length p = pad 2 off \<Longrightarrow> span (align_cur 2 buf) (off + length p) r"
  using span_align [of buf off p r 1] by simp

lemma span_align4: "span buf off (p @ r) \<Longrightarrow> length p = pad 4 off \<Longrightarrow> span (align_cur 4 buf) (off + length p) r"
  using span_align [of buf off p r 2] by simp

lemma span_fetch32:
  assumes s: "span buf off (le32 w @ r)"
  shows "fetch32 buf = Inr (w, advance 4 buf)" "span (advance 4 buf) (off + 4) r"
proof -
  have "\<not> giop_msg_conversion_needed buf" using s by (simp add: span_def)
  then show "fetch32 buf = Inr (w, advance 4 buf)"
    by (simp add: fetch32_def span_load [OF s] Let_def)
  show "span (advance 4 buf) (off + 4) r" using span_advance [OF s, of 4] by simp
qed

lemma span_fetch16:
  assumes s: "span buf off (le16 w @ r)"
  shows "fetch16 buf = Inr (w, advance 2 buf)" "span (advance 2 buf) (off + 2) r"
proof -
  have "\<not> giop_msg_conversion_needed buf" using s by (simp add: span_def)
  then show "fetch16 buf = Inr (w, advance 2 buf)"
    by (simp add: fetch16_def span_load [OF s] Let_def)
  show "span (advance 2 buf) (off + 2) r" using span_advance [OF s, of 2] by simp
qed

section \<open>Readers\<close>

definition gets :: "GIOPRecvBuffer \<Rightarrow> recv_error + ('a \<times> GIOPRecvBuffer) \<Rightarrow> 'a \<Rightarrow> nat \<Rightarrow> byte list \<Rightarrow> bool" where
  "gets buf m x off r \<longleftrightarrow> (\<exists>c. m = Inr (x, buf\<lparr>rcur := c\<rparr>) \<and> span (buf\<lparr>rcur := c\<rparr>) off r)"

definition reader :: "(GIOPRecvBuffer \<Rightarrow> recv_error + ('a \<times> GIOPRecvBuffer)) \<Rightarrow> 'a \<Rightarrow> encoding \<Rightarrow> bool" where
  "reader f x P \<longleftrightarrow>
     (\<forall>buf off xs r. P off xs \<longrightarrow> span buf off (xs @ r) \<longrightarrow> gets buf (f buf) x (off + length xs) r)"

lemma getsI: "m = Inr (x, b) \<Longrightarrow> b = buf\<lparr>rcur := rcur b\<rparr> \<Longrightarrow> span b off r \<Longrightarrow> gets buf m x off r"
  unfolding gets_def by metis

lemma moved [simp]: "advance n (buf\<lparr>rcur := c\<rparr>) = buf\<lparr>rcur := c + n\<rparr>"
  "align_cur n (buf\<lparr>rcur := c\<rparr>) = buf\<lparr>rcur := ALIGN_VALUE c n\<rparr>"
  "b\<lparr>rcur := rcur b\<rparr> = (b :: GIOPRecvBuffer)"
  by (simp_all add: advance_def align_cur_def)

lemma same_buffer: "(align_cur k buf)\<lparr>rcur := c\<rparr> = buf\<lparr>rcur := c\<rparr>" "(advance n buf)\<lparr>rcur := c\<rparr> = buf\<lparr>rcur := c\<rparr>"
  by (simp_all add: advance_def align_cur_def)

lemma readerI:
  assumes "\<And>buf off xs r. P off xs \<Longrightarrow> span buf off (xs @ r) \<Longrightarrow> gets buf (f buf) x (off + length xs) r"
  shows "reader f x P"
  using assms unfolding reader_def by blast

lemma readerD:
  assumes "reader f x P" "P off xs" "span buf off (xs @ r)"
  obtains c where "f buf = Inr (x, buf\<lparr>rcur := c\<rparr>)" "span (buf\<lparr>rcur := c\<rparr>) (off + length xs) r"
  using assms unfolding reader_def gets_def by blast

lemma reader_bind:
  assumes "reader f x P" "reader (g x) y Q"
  shows "reader (\<lambda>buf. andThen (f buf) (\<lambda>(x, buf). g x buf)) y (followed P Q)"
proof (rule readerI)
  fix buf off xs r assume "followed P Q off xs" "span buf off (xs @ r)"
  then obtain a b where ab: "xs = a @ b" "P off a" "Q (off + length a) b" "span buf off (a @ b @ r)"
    unfolding followed_def by auto
  obtain c where c: "f buf = Inr (x, buf\<lparr>rcur := c\<rparr>)" "span (buf\<lparr>rcur := c\<rparr>) (off + length a) (b @ r)"
    by (rule readerD [OF assms(1) ab(2,4)])
  obtain d where "g x (buf\<lparr>rcur := c\<rparr>) = Inr (y, buf\<lparr>rcur := d\<rparr>)" "span (buf\<lparr>rcur := d\<rparr>) (off + length a + length b) r"
    using readerD [OF assms(2) ab(3) c(2)] by auto
  then show "gets buf (andThen (f buf) (\<lambda>(x, buf). g x buf)) y (off + length xs) r"
    unfolding gets_def by (intro exI [of _ d]) (simp add: c(1) ab(1) add.assoc)
qed

lemma reader_return: "reader (\<lambda>buf. Inr (x, buf)) x (lit [])"
  by (rule readerI) (auto intro: getsI simp: lit_def)

lemma reader_map:
  assumes "reader f x P"
  shows "reader (\<lambda>buf. andThen (f buf) (\<lambda>(x, buf). Inr (h x, buf))) (h x) P"
  using reader_bind [OF assms reader_return, of h] by (simp add: followed_lit)

lemma reader_mono: "reader f x P \<Longrightarrow> (\<And>off xs. Q off xs \<Longrightarrow> P off xs) \<Longrightarrow> reader f x Q"
  unfolding reader_def by blast

lemma reader_ulong: "reader demarshal_ulong w (number_at w)"
proof (rule readerI)
  fix buf off xs r assume "number_at w off xs" "span buf off (xs @ r)"
  then obtain p where p: "length p = pad 4 off" "xs = p @ le32 w" "span buf off (p @ le32 w @ r)"
    by (auto simp: number_at_def aligned_def)
  note a = span_align4 [OF p(3,1)]
  note f = span_fetch32 [OF a]
  have "check 4 (align_cur 4 buf) = Inr ()" by (rule span_check [OF a]) simp
  then show "gets buf (demarshal_ulong buf) w (off + length xs) r"
    using f by (intro getsI [of _ _ "advance 4 (align_cur 4 buf)"])
      (simp_all add: demarshal_ulong_def Let_def p(2) add.assoc, simp add: advance_def align_cur_def)
qed

lemma reader_port: "reader demarshal_port w (port_at w)"
proof (rule readerI)
  fix buf off xs r assume "port_at w off xs" "span buf off (xs @ r)"
  then obtain p where p: "length p = pad 2 off" "xs = p @ le16 w" "span buf off (p @ le16 w @ r)"
    by (auto simp: port_at_def aligned_def)
  note a = span_align2 [OF p(3,1)]
  note f = span_fetch16 [OF a]
  have "check 2 (align_cur 2 buf) = Inr ()" by (rule span_check [OF a]) simp
  then show "gets buf (demarshal_port buf) w (off + length xs) r"
    using f by (intro getsI [of _ _ "advance 2 (align_cur 2 buf)"])
      (simp_all add: demarshal_port_def Let_def p(2) add.assoc, simp add: advance_def align_cur_def)
qed

lemma reader_octets:
  assumes "length bs = unat len"
  shows "reader (fetch_octets len) bs (lit bs)"
proof (rule readerI)
  fix buf off xs r assume "lit bs off xs" and "span buf off (xs @ r)"
  then have s: "span buf off (bs @ r)" "xs = bs" by (simp_all add: lit_def)
  show "gets buf (fetch_octets len buf) bs (off + length xs) r"
    using span_check_past [OF s(1), of len] span_load [OF s(1), of "unat len"] span_advance [OF s(1), of "ucast len"] assms
    by (intro getsI [of _ _ "advance (ucast len) buf"]) (simp_all add: fetch_octets_def s(2), simp add: advance_def)
qed

lemma reader_block:
  assumes "length bs < 2 ^ 32"
  shows "reader demarshal_block bs (block_at bs)"
proof -
  have "length bs = unat (of_nat (length bs) :: u32)" using assms by (simp add: unat_of_nat)
  from reader_bind [where g = fetch_octets, OF reader_ulong reader_octets [OF this]]
  have "reader demarshal_block bs (followed (number_at (of_nat (length bs))) (lit bs))"
    unfolding demarshal_block_def .
  then show ?thesis
    by (rule reader_mono) (force simp: followed_def number_at_def block_at_def aligned_def lit_def)
qed

end
