(* ===== verification/Ior_Received.thy ===== *)
theory Ior_Received
  imports Ior_Reading
begin

text \<open>Components, profiles and references as they are read back.\<close>

section \<open>Encapsulations\<close>

lemma andThen_assoc: "andThen (andThen m f) g = andThen m (\<lambda>x. andThen (f x) g)"
  by (cases m) simp_all

lemma encaps_span:
  assumes s: "span buf off ((1 # xs) @ r)" and n: "Suc (length xs) < 2 ^ 32"
  obtains sub where "giop_recv_buffer_use_encaps (rcur buf)
      (drop (unat (rcur buf - message_body buf)) (body_mem buf)) (ucast (of_nat (Suc (length xs)) :: u32)) = Inr sub"
    "span sub (off + 1) xs"
proof -
  note e = span_end [OF s]
  let ?n = "of_nat (Suc (length xs)) :: u32" and ?p = "rcur buf"
  have un: "unat ?n = Suc (length xs)" unfolding unat_of_nat by (rule mod_less) (use n in simp)
  then have u: "unat (ucast ?n :: u64) = Suc (length xs)" by simp
  have "message_body buf \<le> ?p" using e(3) by (simp add: word_le_nat_alt)
  then have o: "unat (?p - message_body buf) = unat ?p - unat (message_body buf)" by (rule unat_sub)
  define X where "X = drop (unat ?p - unat (message_body buf)) (body_mem buf)"
  have t: "take (unat (rend buf) - unat ?p) X = (1 # xs) @ r" using s by (simp add: span_def X_def)
  then obtain Y where X: "X = 1 # xs @ Y"
    by (metis append_Cons append_assoc append_take_drop_id)
  have sums: "unat (?p + 1) = unat ?p + 1" "unat (?p + ucast ?n) = unat ?p + Suc (length xs)"
    using e u by (simp_all add: unat_word_ariths del: of_nat_Suc)
  obtain sub where sub: "giop_recv_buffer_use_encaps ?p X (ucast ?n) = Inr sub" "rcur sub = ?p + 1"
    "message_body sub = ?p" "body_mem sub = X" "rend sub = ?p + ucast ?n" "flags (header sub) = 1"
    by (auto simp: giop_recv_buffer_use_encaps_def X Let_def)
  have "unat ?p + Suc (length xs) \<le> align_up 8 (unat ?p + Suc (length xs))" by (rule align_up_ge) simp
  then have "has_room 0 sub"
    using e by (simp add: has_room_def wf_buf_def sub sums X del: of_nat_Suc)
  moreover have "\<not> giop_msg_conversion_needed sub"
    by (simp add: giop_msg_conversion_needed_def giop_endian_conversion_needed_def sub)
  moreover have "unat ?p mod 4 = off mod 4" using s by (simp add: span_def)
  ultimately have "span sub (off + 1) xs"
    by (simp add: span_def sub sums X del: of_nat_Suc) (metis mod_Suc_eq)
  then show thesis using that sub(1) unfolding X_def o by blast
qed

definition gives :: "(GIOPRecvBuffer \<Rightarrow> recv_error + ('a \<times> GIOPRecvBuffer)) \<Rightarrow> 'a \<Rightarrow> encoding \<Rightarrow> bool" where
  "gives f x P \<longleftrightarrow> (\<forall>buf off xs r. P off xs \<longrightarrow> span buf off (xs @ r) \<longrightarrow> (\<exists>b. f buf = Inr (x, b)))"

lemma reader_gives: "reader f x P \<Longrightarrow> gives f x P"
  unfolding reader_def gives_def gets_def by blast

text \<open>What stands behind the part that is read does not matter.\<close>

lemma reader_wrapped:
  assumes g: "\<And>b. \<not> giop_msg_conversion_needed b \<Longrightarrow> gives (g b) y P"
  shows "reader (\<lambda>buf0. andThen (giop_recv_buffer_use_encaps_buf buf0) (\<lambda>(sub, buf).
      andThen (g buf sub) (\<lambda>(y, sub). Inr (y, buf)))) y (wrapped (followed (lit [1]) (followed P R)))"
proof (rule readerI)
  fix buf off xs r assume "wrapped (followed (lit [1]) (followed P R)) off xs" and s: "span buf off (xs @ r)"
  then obtain p b c where p: "length p = pad 4 off" "length (1 # b @ c) < 2 ^ 32" "P (off + length p + 4 + 1) b"
    "xs = p @ le32 (of_nat (length (1 # b @ c))) @ 1 # b @ c"
    unfolding wrapped_def followed_def lit_def by auto
  let ?n = "of_nat (length (1 # b @ c)) :: u32" and ?b1 = "align_cur 4 buf"
  let ?b2 = "advance 4 ?b1" let ?b3 = "advance (ucast ?n) ?b2"
  have n: "unat ?n = length (1 # b @ c)" unfolding unat_of_nat by (rule mod_less) (use p(2) in simp)
  have s0: "span buf off (p @ le32 ?n @ (1 # b @ c) @ r)" using s by (simp add: p(4))
  note s1 = span_align4 [OF s0 p(1)]
  note f = span_fetch32 [OF s1]
  have c1: "check 4 ?b1 = Inr ()" by (rule span_check [OF s1]) simp
  have c2: "check_past ?n ?b2 = Inr ()" by (rule span_check_past [OF f(2)], unfold n) simp
  obtain sub where sub: "giop_recv_buffer_use_encaps (rcur ?b2)
      (drop (unat (rcur ?b2 - message_body ?b2)) (body_mem ?b2)) (ucast ?n) = Inr sub"
    "span sub (off + length p + 4 + 1) (b @ c)"
    using encaps_span [of ?b2 "off + length p + 4" "b @ c" r] f(2) p(2) by auto
  have m: "message_body ?b3 = message_body ?b2" "body_mem ?b3 = body_mem ?b2" by (simp_all add: advance_def)
  have e: "giop_recv_buffer_use_encaps_buf buf = Inr (sub, ?b3)"
    by (simp only: giop_recv_buffer_use_encaps_buf_def Let_def c1 f(1) c2 andThen.simps split_conv m sub(1))
  have o: "off + length xs = off + length p + 4 + unat (ucast ?n :: u64)" unfolding unat_ucast_u32 n by (simp add: p(4))
  have "drop (unat (ucast ?n :: u64)) ((1 # b @ c) @ r) = r" unfolding unat_ucast_u32 n by simp
  then have s3: "span ?b3 (off + length xs) r"
    using span_advance [OF f(2), of "ucast ?n"] unfolding o unat_ucast_u32 n by simp
  then have "\<not> giop_msg_conversion_needed ?b3" by (simp add: span_def)
  from g [OF this] p(3) sub(2) obtain sub' where y: "g ?b3 sub = Inr (y, sub')" unfolding gives_def by blast
  show "gets buf (andThen (giop_recv_buffer_use_encaps_buf buf) (\<lambda>(sub, buf).
      andThen (g buf sub) (\<lambda>(y, sub). Inr (y, buf)))) y (off + length xs) r"
  proof (rule getsI)
    show "andThen (giop_recv_buffer_use_encaps_buf buf) (\<lambda>(sub, buf). andThen (g buf sub) (\<lambda>(y, sub). Inr (y, buf))) =
        Inr (y, ?b3)" by (simp only: e andThen.simps split_conv y)
    show "?b3 = buf\<lparr>rcur := rcur ?b3\<rparr>" by (simp add: advance_def align_cur_def)
  qed (rule s3)
qed

lemma reader_wrapped_all:
  assumes "\<And>b. \<not> giop_msg_conversion_needed b \<Longrightarrow> gives (g b) y P"
  shows "reader (\<lambda>buf0. andThen (giop_recv_buffer_use_encaps_buf buf0) (\<lambda>(sub, buf).
      andThen (g buf sub) (\<lambda>(y, sub). Inr (y, buf)))) y (wrapped (followed (lit [1]) P))"
  using reader_wrapped [where R = "lit []", OF assms] by (simp add: followed_lit)

section \<open>Components\<close>

lemma reader_fetch32: "reader fetch32 w (lit (le32 w))"
proof (rule readerI)
  fix buf off xs r assume "lit (le32 w) off xs" and "span buf off (xs @ r)"
  then have s: "span buf off (le32 w @ r)" "xs = le32 w" by (simp_all add: lit_def)
  show "gets buf (fetch32 buf) w (off + length xs) r"
    using span_fetch32 [OF s(1)] by (intro getsI [of _ _ "advance 4 buf"]) (simp_all add: s(2), simp add: advance_def)
qed

lemma reader_ulongs: "reader (fetch_ulongs (length ws)) ws (lit (concat (map le32 ws)))"
proof (induction ws)
  case Nil
  then show ?case by (simp add: reader_return)
next
  case (Cons w ws)
  from reader_bind [where g = "\<lambda>w buf.
      andThen (fetch_ulongs (length ws) buf) (\<lambda>(ws, buf). Inr (w # ws, buf))", OF reader_fetch32 reader_map [OF Cons, of "(#) w"]]
  show ?case by (simp add: followed_lits)
qed

definition code_set_ok :: "CodeSetComponent \<Rightarrow> bool" where
  "code_set_ok c \<longleftrightarrow> 4 * length (conversion_code_sets c) < 2 ^ 32"

lemma length_ulongs [simp]: "length (concat (map le32 ws)) = 4 * length ws"
  by (induction ws) simp_all

lemma reader_code_set:
  assumes "code_set_ok c"
  shows "reader CodeSetComponent_demarshal c (code_set_at c)"
proof (rule readerI)
  fix buf off xs r assume "code_set_at c off xs" and s: "span buf off (xs @ r)"
  let ?ws = "conversion_code_sets c" let ?n = "of_nat (length ?ws) :: u32" and ?b1 = "align_cur 4 buf"
  let ?b2 = "advance 4 ?b1" let ?b3 = "advance 4 ?b2"
  obtain p q where p: "length p = pad 4 off" "length q = pad 4 (off + length p + 4)"
    "xs = p @ le32 (native_code_set c) @ q @ le32 ?n @ concat (map le32 ?ws)"
    using \<open>code_set_at c off xs\<close> unfolding code_set_at_def followed_def number_at_def aligned_def lit_def
    by (auto simp: add.assoc)
  have q: "q = []" using p(1,2) by (simp add: pad_after_ulong)
  have n: "unat ?n = length ?ws" unfolding unat_of_nat by (rule mod_less) (use assms in \<open>simp add: code_set_ok_def\<close>)
  have n4: "unat (?n * 4) = 4 * length ?ws"
    unfolding unat_word_ariths n using assms by (simp add: code_set_ok_def mult.commute)
  have s0: "span buf off (p @ le32 (native_code_set c) @ le32 ?n @ concat (map le32 ?ws) @ r)" using s by (simp add: p(3) q)
  note s1 = span_align4 [OF s0 p(1)]
  note f1 = span_fetch32 [OF s1] note f2 = span_fetch32 [OF f1(2)]
  have c1: "check 8 ?b1 = Inr ()" by (rule span_check [OF s1]) simp
  have c2: "check (ucast (?n * 4)) ?b3 = Inr ()" by (rule span_check [OF f2(2)]) (simp add: n4)
  obtain d where d: "fetch_ulongs (length ?ws) ?b3 = Inr (?ws, ?b3\<lparr>rcur := d\<rparr>)"
    "span (?b3\<lparr>rcur := d\<rparr>) (off + length p + 4 + 4 + length (concat (map le32 ?ws))) r"
    by (rule readerD [OF reader_ulongs _ f2(2)]) (simp add: lit_def)
  show "gets buf (CodeSetComponent_demarshal buf) c (off + length xs) r"
    by (rule getsI [of _ _ "?b3\<lparr>rcur := d\<rparr>"])
      (use d(2) in \<open>simp_all add: CodeSetComponent_demarshal_def Let_def c1 f1(1) f2(1) c2 n d(1) p(3) q add.assoc\<close>,
       simp add: advance_def align_cur_def)
qed

definition ssl_part :: "GIOPRecvBuffer \<Rightarrow> GIOPRecvBuffer \<Rightarrow> recv_error + (IOP_Component_info \<times> GIOPRecvBuffer)" where
  "ssl_part buf sub0 =
     (let sub = align_cur 4 (in_order_of buf sub0) in
      andThen (check 10 sub) (\<lambda>_.
      andThen (fetch32 sub) (\<lambda>(supports, sub).
      andThen (fetch32 sub) (\<lambda>(requires, sub).
      andThen (fetch16 sub) (\<lambda>(port, sub). Inr (Ssl_sec_trans supports requires port, sub))))))"

lemma span_in_order: "span sub off r \<Longrightarrow> \<not> giop_msg_conversion_needed b \<Longrightarrow> span (in_order_of b sub) off r"
  by (auto simp: span_def in_order_of_def has_room_def wf_buf_def giop_msg_conversion_needed_def)

lemma gives_ssl:
  assumes "\<not> giop_msg_conversion_needed b"
  shows "gives (ssl_part b) (Ssl_sec_trans s q p) (aligned 4 (le32 s @ le32 q @ le16 p))"
  unfolding gives_def
proof (intro allI impI)
  fix sub off xs r assume "aligned 4 (le32 s @ le32 q @ le16 p) off xs" and sp: "span sub off (xs @ r)"
  then obtain a where a: "length a = pad 4 off" "span (in_order_of b sub) off (a @ le32 s @ le32 q @ le16 p @ r)"
    using span_in_order [OF sp assms] by (auto simp: aligned_def)
  note s1 = span_align4 [OF a(2,1)]
  note f1 = span_fetch32 [OF s1] note f2 = span_fetch32 [OF f1(2)] note f3 = span_fetch16 [OF f2(2)]
  have "check 10 (align_cur 4 (in_order_of b sub)) = Inr ()" by (rule span_check [OF s1]) simp
  then show "\<exists>b'. ssl_part b sub = Inr (Ssl_sec_trans s q p, b')"
    by (simp add: ssl_part_def Let_def f1(1) f2(1) f3(1))
qed

text \<open>A component as it comes back: with the key of the reference.\<close>

fun received_component :: "ORBit_ObjectKey \<Rightarrow> IOP_Component_info \<Rightarrow> IOP_Component_info" where
  "received_component key (Complete_object_key k) = Complete_object_key (Some key)"
| "received_component key c = c"

fun component_ok :: "IOP_Component_info \<Rightarrow> bool" where
  "component_ok (Generic_ssl_sec_trans s) \<longleftrightarrow> good_string s"
| "component_ok (Code_sets c w) \<longleftrightarrow> code_set_ok c \<and> code_set_ok w"
| "component_ok (Unknown_component t d) \<longleftrightarrow> length d < 2 ^ 32 \<and>
     t \<notin> {IOP_TAG_COMPLETE_OBJECT_KEY, IOP_TAG_GENERIC_SSL_SEC_TRANS, IOP_TAG_SSL_SEC_TRANS, IOP_TAG_CODE_SETS}"
| "component_ok _ \<longleftrightarrow> True"

lemma component_ok_good: "component_ok c \<Longrightarrow> component_good c"
  by (cases c) simp_all

lemma good_string_length: "good_string m \<Longrightarrow> length m < 2 ^ 32"
  by (auto simp: good_string_def)

lemmas demarshal_parts = andThen_assoc case_prod_unfold Let_def

lemma reader_component:
  assumes ok: "component_ok c" and key: "length key < 2 ^ 32"
  shows "reader component_demarshal (received_component key c) (component_at key c)"
proof -
  define g where "g cid buf = (if cid = IOP_TAG_COMPLETE_OBJECT_KEY then IOP_TAG_COMPLETE_OBJECT_KEY_demarshal buf
       else if cid = IOP_TAG_GENERIC_SSL_SEC_TRANS then IOP_TAG_GENERIC_SSL_SEC_TRANS_demarshal buf
       else if cid = IOP_TAG_SSL_SEC_TRANS then IOP_TAG_SSL_SEC_TRANS_demarshal buf
       else if cid = IOP_TAG_CODE_SETS then IOP_TAG_CODE_SETS_demarshal buf
       else IOP_UnknownComponent_demarshal cid buf)" for cid buf
  have "reader (g (component_type c)) (received_component key c) (component_body_at key c)"
  proof (cases c)
    case (Generic_ssl_sec_trans s)
    have y: "gives (\<lambda>sub. andThen (demarshal_block (in_order_of b sub)) (\<lambda>(s, sub). Inr (Generic_ssl_sec_trans s, sub)))
        (Generic_ssl_sec_trans s) (block_at s)" if "\<not> giop_msg_conversion_needed b" for b
      using reader_block [OF good_string_length, of s] ok span_in_order [OF _ that]
      unfolding gives_def reader_def gets_def Generic_ssl_sec_trans by fastforce
    from reader_wrapped_all [where g = "\<lambda>b sub. andThen (demarshal_block (in_order_of b sub))
        (\<lambda>(s, sub). Inr (Generic_ssl_sec_trans s, sub))", OF y] show ?thesis
      by (simp add: g_def [abs_def] Generic_ssl_sec_trans tag_defs IOP_TAG_GENERIC_SSL_SEC_TRANS_demarshal_def demarshal_parts)
  next
    case (Ssl_sec_trans s q p)
    have y: "gives (ssl_part b) (Ssl_sec_trans s q p) (aligned 4 (le32 s @ le32 q @ le16 p))"
      if "\<not> giop_msg_conversion_needed b" for b by (rule gives_ssl [OF that])
    from reader_wrapped_all [where g = ssl_part, OF y] show ?thesis
      by (simp add: g_def [abs_def] Ssl_sec_trans tag_defs IOP_TAG_SSL_SEC_TRANS_demarshal_def ssl_part_def demarshal_parts)
  next
    case (Complete_object_key k)
    from reader_map [OF reader_block [OF key], of "\<lambda>k. Complete_object_key (Some k)"] show ?thesis
      by (simp add: g_def [abs_def] Complete_object_key tag_defs IOP_TAG_COMPLETE_OBJECT_KEY_demarshal_def IOP_ObjectKey_demarshal_def)
  next
    case (Code_sets cs ws)
    then have k: "code_set_ok cs" "code_set_ok ws" using ok by simp_all
    have "reader (\<lambda>b. andThen (CodeSetComponent_demarshal b) (\<lambda>(c, b). andThen (CodeSetComponent_demarshal b)
        (\<lambda>(w, b). Inr (Code_sets c w, b)))) (Code_sets cs ws) (followed (code_set_at cs) (code_set_at ws))"
      by (rule reader_bind [OF reader_code_set [OF k(1)]], rule reader_map [OF reader_code_set [OF k(2)]])
    note y = reader_gives [OF this]
    from reader_wrapped_all [where g = "\<lambda>buf b. andThen (CodeSetComponent_demarshal b) (\<lambda>(c, b).
        andThen (CodeSetComponent_demarshal b) (\<lambda>(w, b). Inr (Code_sets c w, b)))", OF y] show ?thesis
      by (simp add: g_def [abs_def] Code_sets tag_defs IOP_TAG_CODE_SETS_demarshal_def demarshal_parts)
  next
    case (Unknown_component t d)
    from reader_map [OF reader_block, of d "Unknown_component t"] ok show ?thesis
      by (simp add: g_def [abs_def] Unknown_component IOP_UnknownComponent_demarshal_def)
  qed
  from reader_bind [where g = g, OF reader_ulong this] show ?thesis
    by (simp add: component_demarshal_def [abs_def] component_at_def g_def [abs_def])
qed

lemma reader_many:
  "\<forall>x \<in> set xs. reader f (h x) (P x) \<Longrightarrow> reader (demarshal_many f (length xs)) (map h xs) (many_at P xs)"
proof (induction xs)
  case Nil
  then show ?case by (simp add: reader_return)
next
  case (Cons x xs)
  from Cons have 1: "reader f (h x) (P x)" "reader (demarshal_many f (length xs)) (map h xs) (many_at P xs)" by simp_all
  from reader_bind [where g = "\<lambda>x buf.
      andThen (demarshal_many f (length xs) buf) (\<lambda>(xs, buf). Inr (x # xs, buf))", OF 1(1) reader_map [OF 1(2), of "(#) (h x)"]]
  show ?case by simp
qed

definition components_ok :: "IOP_Component_info list \<Rightarrow> bool" where
  "components_ok cs \<longleftrightarrow> list_all component_ok cs \<and> length cs < 2 ^ 32"

lemma reader_components:
  assumes "components_ok cs" "length key < 2 ^ 32"
  shows "reader IOP_components_demarshal (map (received_component key) cs) (components_at key cs)"
proof -
  have n: "unat (of_nat (length cs) :: u32) = length cs"
    unfolding unat_of_nat by (rule mod_less) (use assms in \<open>simp add: components_ok_def\<close>)
  have "reader (demarshal_many component_demarshal (length cs)) (map (received_component key) cs) (many_at (component_at key) cs)"
    by (rule reader_many) (use assms reader_component in \<open>auto simp: components_ok_def list_all_iff\<close>)
  then have "reader (demarshal_many component_demarshal (unat (of_nat (length cs) :: u32)))
      (map (received_component key) cs) (many_at (component_at key) cs)" by (simp add: n)
  from reader_bind [where g = "\<lambda>len. demarshal_many component_demarshal (unat len)", OF reader_ulong this]
  show ?thesis unfolding IOP_components_demarshal_def components_at_def .
qed

end
