(* ===== verification/Ior_Reference.thy ===== *)
theory Ior_Reference
  imports Ior_Received Cdr_Calls
begin

text \<open>
  Profiles and whole references read back, and a reference that travels in a reply.
\<close>

section \<open>Profiles\<close>

text \<open>
  A profile as it comes back: with the key of the reference; an IIOP profile of version 1.0
  loses its components, which are sent but not read.
\<close>

fun as_received :: "ORBit_ObjectKey \<Rightarrow> IOP_Profile_info \<Rightarrow> IOP_Profile_info" where
  "as_received key (Internet_iop v h p k cs) =
     Internet_iop v h p (Some key) (if v = GIOP_1_0 then [] else map (received_component key) cs)"
| "as_received key (Generic_iop v proto h s cs) = Generic_iop v proto h s (map (received_component key) cs)"
| "as_received key (Orbit_specific u p k) = Orbit_specific u p (Some key)"
| "as_received key (Multiple_components cs) = Multiple_components (map (received_component key) cs)"
| "as_received key (Unknown_profile t d) = Unknown_profile t d"

fun profile_ok :: "IOP_Profile_info \<Rightarrow> bool" where
  "profile_ok (Internet_iop v h p k cs) \<longleftrightarrow> good_string h \<and> components_ok cs"
| "profile_ok (Generic_iop v proto h s cs) \<longleftrightarrow> good_string proto \<and> good_string h \<and> good_string s \<and> components_ok cs"
| "profile_ok (Orbit_specific u p k) \<longleftrightarrow> good_string u"
| "profile_ok (Multiple_components cs) \<longleftrightarrow> components_ok cs"
| "profile_ok (Unknown_profile t d) \<longleftrightarrow> length d < 2 ^ 32 \<and>
     t \<notin> {IOP_TAG_INTERNET_IOP, IOP_TAG_MULTIPLE_COMPONENTS, IOP_TAG_GENERIC_IOP, IOP_TAG_ORBIT_SPECIFIC}"

lemma profile_ok_good: "profile_ok p \<Longrightarrow> profile_good p"
  by (cases p) (auto simp: components_ok_def list_all_iff component_ok_good)

lemma reader_version: "reader demarshal_version v (version_at v)"
proof (rule readerI)
  fix buf off xs r assume "version_at v off xs" and s: "span buf off (xs @ r)"
  then have x: "xs = [fst (giop_version_ids v), snd (giop_version_ids v)]" by (simp add: version_at_def lit_def)
  have s1: "span (advance 1 buf) (off + 1) (snd (giop_version_ids v) # r)" using span_advance [OF s, of 1] by (simp add: x)
  have c: "check 2 buf = Inr ()" by (rule span_check [OF s]) (simp add: x)
  have f1: "fetch8 1 buf = Inr (fst (giop_version_ids v), advance 1 buf)"
    using span_load [OF s, of 1] by (simp add: fetch8_def x)
  have f2: "fetch8 1 (advance 1 buf) = Inr (snd (giop_version_ids v), advance 1 (advance 1 buf))"
    using span_load [OF s1, of 1] by (simp add: fetch8_def)
  have s2: "span (advance 1 (advance 1 buf)) (off + length xs) r" using span_advance [OF s1, of 1] by (simp add: x)
  show "gets buf (demarshal_version buf) v (off + length xs) r"
    by (rule getsI [OF _ _ s2], cases v) (simp_all add: demarshal_version_def c f1 f2, simp_all add: advance_def)
qed

definition skip2 :: "GIOPRecvBuffer \<Rightarrow> recv_error + (unit \<times> GIOPRecvBuffer)" where
  "skip2 buf = andThen (check 2 buf) (\<lambda>_. Inr ((), advance 2 buf))"

lemma reader_skip2: "reader skip2 () (lit [a, b])"
proof (rule readerI)
  fix buf off xs r assume "lit [a, b] off xs" and s: "span buf off (xs @ r)"
  then have x: "xs = [a, b]" by (simp add: lit_def)
  have "check 2 buf = Inr ()" by (rule span_check [OF s]) (simp add: x)
  then show "gets buf (skip2 buf) () (off + length xs) r"
    using span_advance [OF s, of 2] by (intro getsI [of _ _ "advance 2 buf"]) (simp_all add: skip2_def x, simp add: advance_def)
qed

lemma reader_frees: "reader f x P \<Longrightarrow> reader (\<lambda>buf. frees_unset_key (f buf)) x P"
  unfolding reader_def gets_def by fastforce

definition orbit_part :: "GIOPRecvBuffer \<Rightarrow> recv_error + (IOP_Profile_info \<times> GIOPRecvBuffer)" where
  "orbit_part buf = andThen (skip2 buf) (\<lambda>(_, buf). andThen (demarshal_block buf) (\<lambda>(path, buf).
     andThen (frees_unset_key (demarshal_port buf)) (\<lambda>(port, buf). andThen (IOP_ObjectKey_demarshal buf) (\<lambda>(key, buf).
     Inr (Orbit_specific path port (Some key), buf)))))"

definition generic_part :: "GIOPRecvBuffer \<Rightarrow> recv_error + (IOP_Profile_info \<times> GIOPRecvBuffer)" where
  "generic_part buf = andThen (demarshal_version buf) (\<lambda>(v, buf). andThen (demarshal_block buf) (\<lambda>(proto, buf).
     andThen (demarshal_block buf) (\<lambda>(host, buf). andThen (demarshal_block buf) (\<lambda>(service, buf).
     andThen (IOP_components_demarshal buf) (\<lambda>(cs, buf). Inr (Generic_iop v proto host service cs, buf))))))"

definition internet_part :: "GIOPRecvBuffer \<Rightarrow> recv_error + (IOP_Profile_info \<times> GIOPRecvBuffer)" where
  "internet_part buf = andThen (demarshal_version buf) (\<lambda>(v, buf). andThen (demarshal_block buf) (\<lambda>(host, buf).
     andThen (demarshal_port buf) (\<lambda>(port, buf). andThen (IOP_ObjectKey_demarshal buf) (\<lambda>(key, buf).
     andThen (if v = GIOP_1_0 then Inr ([], buf) else IOP_components_demarshal buf) (\<lambda>(cs, buf).
     Inr (Internet_iop v host port (Some key) cs, buf))))))"

lemma reader_orbit:
  assumes "good_string u" "length key < 2 ^ 32"
  shows "reader orbit_part (Orbit_specific u p (Some key)) (followed (lit [a, b])
    (followed (block_at u) (followed (port_at p) (block_at key))))"
  unfolding orbit_part_def IOP_ObjectKey_demarshal_def
  by (rule reader_bind [OF reader_skip2], rule reader_bind [OF reader_block [OF good_string_length [OF assms(1)]]],
      rule reader_bind [OF reader_frees [OF reader_port]], rule reader_map [OF reader_block [OF assms(2)]])

lemma reader_generic:
  assumes "good_string proto" "good_string h" "good_string s" "components_ok cs" "length key < 2 ^ 32"
  shows "reader generic_part (Generic_iop v proto h s (map (received_component key) cs))
    (followed (version_at v) (followed (block_at proto) (followed (block_at h) (followed (block_at s) (components_at key cs)))))"
  unfolding generic_part_def
  by (rule reader_bind [OF reader_version], rule reader_bind [OF reader_block [OF good_string_length [OF assms(1)]]],
      rule reader_bind [OF reader_block [OF good_string_length [OF assms(2)]]],
      rule reader_bind [OF reader_block [OF good_string_length [OF assms(3)]]],
      rule reader_map [OF reader_components [OF assms(4,5)]])

lemma reader_internet:
  assumes "good_string h" "components_ok cs" "length key < 2 ^ 32"
  shows "reader internet_part (as_received key (Internet_iop v h p k cs))
    (followed (version_at v) (followed (block_at h) (followed (port_at p) (followed (block_at key)
       (if v = GIOP_1_0 then lit [] else components_at key cs)))))"
proof -
  have "reader (\<lambda>buf. if v = GIOP_1_0 then Inr ([], buf) else IOP_components_demarshal buf)
      (if v = GIOP_1_0 then [] else map (received_component key) cs) (if v = GIOP_1_0 then lit [] else components_at key cs)"
    using reader_return [of "[] :: IOP_Component_info list"] reader_components [OF assms(2,3)] by simp
  note cs = reader_map [OF this, of "Internet_iop v h p (Some key)"]
  show ?thesis
    unfolding internet_part_def IOP_ObjectKey_demarshal_def as_received.simps
    by (rule reader_bind [OF reader_version], rule reader_bind [OF reader_block [OF good_string_length [OF assms(1)]]],
        rule reader_bind [OF reader_port], rule reader_bind [OF reader_block [OF assms(3)]], rule cs)
qed

lemma reader_profile:
  assumes ok: "profile_ok p" and key: "length key < 2 ^ 32"
  shows "reader IOP_profile_demarshal (as_received key p) (profile_at key p)"
proof -
  define g where "g p buf = (if p = IOP_TAG_INTERNET_IOP then IOP_TAG_INTERNET_IOP_demarshal buf
       else if p = IOP_TAG_MULTIPLE_COMPONENTS then IOP_TAG_MULTIPLE_COMPONENTS_demarshal buf
       else if p = IOP_TAG_GENERIC_IOP then IOP_TAG_GENERIC_IOP_demarshal buf
       else if p = IOP_TAG_ORBIT_SPECIFIC then IOP_TAG_ORBIT_SPECIFIC_demarshal buf
       else IOP_UnknownProfile_demarshal p buf)" for p buf
  have "reader (g (profile_type p)) (as_received key p) (wrapped (profile_body_at key p))"
  proof (cases p)
    case (Internet_iop v h port k cs)
    have i: "reader internet_part (as_received key p) (followed (version_at v) (followed (block_at h) (followed (port_at port)
        (followed (block_at key) (if v = GIOP_1_0 then lit [] else components_at key cs)))))"
      using reader_internet [of h cs key v port k] ok key unfolding Internet_iop by simp
    have e: "IOP_TAG_INTERNET_IOP_demarshal = (\<lambda>buf0. andThen (giop_recv_buffer_use_encaps_buf buf0)
        (\<lambda>(sub, buf). andThen (internet_part sub) (\<lambda>(y, sub). Inr (y, buf))))"
      by (rule ext) (simp add: IOP_TAG_INTERNET_IOP_demarshal_def internet_part_def demarshal_parts)
    have "reader IOP_TAG_INTERNET_IOP_demarshal (as_received key p) (wrapped (profile_body_at key p))"
    proof (cases "v = GIOP_1_0")
      case True
      then have "profile_body_at key p = followed (lit [1]) (followed (followed (version_at v) (followed (block_at h)
          (followed (port_at port) (followed (block_at key) (lit []))))) (components_at key cs))"
        by (simp add: Internet_iop followed_assoc followed_lit)
      then show ?thesis
        unfolding e using reader_wrapped [OF reader_gives, OF i, where R = "components_at key cs"] True by simp
    next
      case False
      then show ?thesis
        unfolding e using reader_wrapped_all [OF reader_gives, OF i] by (simp add: Internet_iop)
    qed
    then show ?thesis by (simp add: g_def [abs_def] Internet_iop)
  next
    case (Generic_iop v proto h s cs)
    have "reader generic_part (as_received key p) (followed (version_at v) (followed (block_at proto) (followed (block_at h)
        (followed (block_at s) (components_at key cs)))))"
      using reader_generic [of proto h s cs key v] ok key unfolding Generic_iop by simp
    from reader_wrapped_all [OF reader_gives, OF this] show ?thesis
      by (simp add: g_def [abs_def] Generic_iop tag_defs IOP_TAG_GENERIC_IOP_demarshal_def generic_part_def demarshal_parts)
  next
    case (Orbit_specific u port k)
    have "reader orbit_part (as_received key p) (followed (lit [1, 2]) (followed (block_at u) (followed (port_at port) (block_at key))))"
      using reader_orbit [of u key port 1 2] ok key unfolding Orbit_specific by simp
    from reader_wrapped_all [OF reader_gives, OF this] show ?thesis
      by (simp add: g_def [abs_def] Orbit_specific tag_defs IOP_TAG_ORBIT_SPECIFIC_demarshal_def orbit_part_def skip2_def demarshal_parts)
  next
    case (Multiple_components cs)
    have "reader IOP_components_demarshal (map (received_component key) cs) (components_at key cs)"
      using reader_components [of cs key] ok key unfolding Multiple_components by simp
    from reader_wrapped_all [OF reader_gives, OF reader_map [OF this, of Multiple_components]] show ?thesis
      by (simp add: g_def [abs_def] Multiple_components IOP_TAG_MULTIPLE_COMPONENTS_demarshal_def demarshal_parts)
  next
    case (Unknown_profile t d)
    have "reader (IOP_UnknownProfile_demarshal t) (Unknown_profile t d) (block_at d)"
      using reader_map [OF reader_block, of d "Unknown_profile t"] ok
      unfolding Unknown_profile IOP_UnknownProfile_demarshal_def by simp
    then have "reader (IOP_UnknownProfile_demarshal t) (Unknown_profile t d) (wrapped (lit d))"
      by (rule reader_mono) (auto simp: wrapped_def lit_def block_at_def aligned_def)
    with ok show ?thesis by (simp add: g_def [abs_def] Unknown_profile)
  qed
  from reader_bind [where g = g, OF reader_ulong this] show ?thesis
    by (simp add: IOP_profile_demarshal_def [abs_def] profile_at_def g_def [abs_def])
qed

section \<open>References\<close>

definition profiles_ok :: "IOP_Profile_info list \<Rightarrow> bool" where
  "profiles_ok ps \<longleftrightarrow> list_all profile_ok ps \<and> length ps < 2 ^ 32"

lemma load_moved [simp]: "load (buf\<lparr>rcur := c\<rparr>) p n = load buf p n"
  by (simp add: load_def Let_def cong: if_cong)

lemma demarshal_object:
  assumes x: "object_at type key ps off xs" and s: "span buf off (xs @ r)"
    and ok: "profiles_ok ps" "ps \<noteq> []" "length key < 2 ^ 32" "length type + 1 < 2 ^ 32"
  shows "\<exists>p c. ORBit_demarshal_IOR buf = Inr (Some (p, map (as_received key) ps), buf\<lparr>rcur := c\<rparr>) \<and>
    load buf p (length type + 1) = Inr (type @ [0])"
proof -
  let ?n = "of_nat (length (type @ [0])) :: u32" and ?k = "of_nat (length ps) :: u32"
  obtain a ys where a: "xs = a @ ys" "block_at (type @ [0]) off a"
    "followed (number_at ?k) (many_at (profile_at key) ps) (off + length a) ys"
    using x unfolding object_at_def followed_def [of "block_at (type @ [0])"] by blast
  obtain p where p0: "length p = pad 4 off" "a = p @ le32 ?n @ type @ [0]"
    using a(2) unfolding block_at_def aligned_def by auto
  have p: "length p = pad 4 off" "xs = (p @ le32 ?n) @ type @ [0] @ ys"
    "followed (number_at ?k) (many_at (profile_at key) ps) (off + length (p @ le32 ?n) + length (type @ [0])) ys"
  proof -
    have o: "off + length a = off + length (p @ le32 ?n) + length (type @ [0])" by (simp add: p0(2))
    show "length p = pad 4 off" "xs = (p @ le32 ?n) @ type @ [0] @ ys" using p0 a(1) by simp_all
    show "followed (number_at ?k) (many_at (profile_at key) ps) (off + length (p @ le32 ?n) + length (type @ [0])) ys"
      using a(3) unfolding o .
  qed
  have n: "unat ?n = length type + 1" unfolding unat_of_nat by (rule trans [OF mod_less]) (use ok(4) in simp_all)
  have k: "unat ?k = length ps" unfolding unat_of_nat by (rule mod_less) (use ok(1) in \<open>simp add: profiles_ok_def\<close>)
  have k0: "?k \<noteq> 0" using ok(2) k by (metis length_0_conv unat_0)
  have s1: "span buf off ((p @ le32 ?n) @ (type @ [0]) @ ys @ r)" using s by (simp add: p(2))
  have u: "number_at ?n off (p @ le32 ?n)" using p(1) by (auto simp: number_at_def aligned_def)
  obtain c1 where c1: "demarshal_ulong buf = Inr (?n, buf\<lparr>rcur := c1\<rparr>)"
    "span (buf\<lparr>rcur := c1\<rparr>) (off + length (p @ le32 ?n)) ((type @ [0]) @ ys @ r)"
    by (rule readerD [OF reader_ulong u s1])
  have ck: "check (ucast ?n) (buf\<lparr>rcur := c1\<rparr>) = Inr ()" by (rule span_check [OF c1(2)], unfold unat_ucast_u32 n) simp
  have s2: "span (buf\<lparr>rcur := c1 + ucast ?n\<rparr>) (off + length (p @ le32 ?n) + length (type @ [0])) (ys @ r)"
    using span_advance [OF c1(2), of "ucast ?n", unfolded unat_ucast_u32 n] by simp
  have "reader (demarshal_many IOP_profile_demarshal (length ps)) (map (as_received key) ps) (many_at (profile_at key) ps)"
    by (rule reader_many) (use ok(1) reader_profile [OF _ ok(3)] in \<open>simp add: profiles_ok_def list_all_iff\<close>)
  then have m: "reader (demarshal_many IOP_profile_demarshal (unat ?k)) (map (as_received key) ps) (many_at (profile_at key) ps)"
    by (simp only: k)
  obtain ys1 ys2 where y: "ys = ys1 @ ys2" "number_at ?k (off + length (p @ le32 ?n) + length (type @ [0])) ys1"
    "many_at (profile_at key) ps (off + length (p @ le32 ?n) + length (type @ [0]) + length ys1) ys2"
    using p(3) unfolding followed_def by blast
  obtain c2 where c2: "demarshal_ulong (buf\<lparr>rcur := c1 + ucast ?n\<rparr>) = Inr (?k, buf\<lparr>rcur := c2\<rparr>)"
    "span (buf\<lparr>rcur := c2\<rparr>) (off + length (p @ le32 ?n) + length (type @ [0]) + length ys1) (ys2 @ r)"
    using readerD [OF reader_ulong y(2), of "buf\<lparr>rcur := c1 + ucast ?n\<rparr>" "ys2 @ r"] s2 by (auto simp: y(1))
  obtain c3 where c3: "demarshal_many IOP_profile_demarshal (unat ?k) (buf\<lparr>rcur := c2\<rparr>) = Inr (map (as_received key) ps, buf\<lparr>rcur := c3\<rparr>)"
    using readerD [OF m y(3) c2(2)] by auto
  have l: "load buf c1 (length type + 1) = Inr (type @ [0])" using span_load [OF c1(2), of "length type + 1"] by simp
  have "load buf c1 1 = Inr [hd (type @ [0])]" using span_load [OF c1(2), of 1] by (cases type) simp_all
  then have "ORBit_demarshal_IOR buf = Inr (Some (c1, map (as_received key) ps), buf\<lparr>rcur := c3\<rparr>)"
    using c1(1) ck c2(1) c3 k0 by (simp add: ORBit_demarshal_IOR_def Let_def)
  with l show ?thesis by blast
qed

end
