(* ===== verification/Ior_Corbaloc.thy ===== *)
theory Ior_Corbaloc
  imports Ior_Types
begin

text \<open>
  References as URLs (\<open>src/orb/orb-core/corba-loc.c\<close>): parsing and printing of corbaloc
  strings. A C string is the list of its characters without the terminator.
\<close>

section \<open>Strings\<close>

definition starts :: "string \<Rightarrow> byte list \<Rightarrow> bool" where
  "starts p s \<longleftrightarrow> take (length p) s = chars p"

definition ch :: "char \<Rightarrow> byte" where
  "ch c = of_char c"

text \<open>\<open>strchr\<close> and \<open>strrchr\<close>, where the character is found: what is before and behind it.\<close>

definition before :: "byte \<Rightarrow> byte list \<Rightarrow> byte list" where
  "before c s = takeWhile (\<lambda>b. b \<noteq> c) s"

definition behind :: "byte \<Rightarrow> byte list \<Rightarrow> byte list" where
  "behind c s = tl (dropWhile (\<lambda>b. b \<noteq> c) s)"

definition before_last :: "byte \<Rightarrow> byte list \<Rightarrow> byte list" where
  "before_last c s = rev (behind c (rev s))"

definition behind_last :: "byte \<Rightarrow> byte list \<Rightarrow> byte list" where
  "behind_last c s = rev (before c (rev s))"

text \<open>\<open>g_strsplit\<close>, which makes no parts of an empty string.\<close>

fun split_parts :: "byte \<Rightarrow> byte list \<Rightarrow> byte list \<Rightarrow> byte list list" where
  "split_parts c part [] = [part]"
| "split_parts c part (b # s) = (if b = c then part # split_parts c [] s else split_parts c (part @ [b]) s)"

definition g_strsplit :: "byte \<Rightarrow> byte list \<Rightarrow> byte list list" where
  "g_strsplit c s = (if s = [] then [] else split_parts c [] s)"

section \<open>Parsing\<close>

text \<open>A port is a number of at most 16 bits in digits.\<close>

definition port_of :: "byte list \<Rightarrow> u16 option" where
  "port_of s =
     (if atoi s < 0 \<or> atoi s > 65535 then None
      else if list_all isdigit s then Some (word_of_int (atoi s)) else None)"

definition corbaloc_version :: "byte list \<Rightarrow> GIOPVersion option" where
  "corbaloc_version s =
     (if starts ''1.0'' s then Some GIOP_1_0
      else if starts ''1.1'' s then Some GIOP_1_1
      else if starts ''1.2'' s then Some GIOP_1_2
      else None)"

definition corbaloc_profile_iiop_parse :: "byte list \<Rightarrow> (GIOPVersion \<times> byte list \<times> u16 \<times> bool) option" where
  "corbaloc_profile_iiop_parse prof =
     (if \<not> (starts '':'' prof \<or> starts ''iiop:'' prof \<or> starts ''iiops:'' prof \<or> starts ''ssliop:'' prof) then None
      else
        let ssl = \<not> (starts '':'' prof \<or> starts ''iiop:'' prof);
            token = dropWhile (\<lambda>b. b = ch CHR ''/'') (behind (ch CHR '':'') prof);
            at = ch CHR ''@''; colon = ch CHR '':'';
            (ver, token) = (if at \<in> set token then (before at token, behind at token)
               else (chars (if ssl then ''1.1'' else ''1.0''), token));
            (host, port) = (if colon \<in> set token then (before colon token, behind colon token)
               else (token, chars ''2809''))
        in if ver = [] \<or> host = [] \<or> port = [] then None
           else (case port_of port of
               None \<Rightarrow> None
             | Some p \<Rightarrow> (case corbaloc_version ver of None \<Rightarrow> None | Some v \<Rightarrow> Some (v, host, p, ssl))))"

text \<open>
  The slashes in front of a socket path are skipped and then one step back is made, which is
  the last of them, or the colon when there was none.
\<close>

definition corbaloc_profile_uiop_parse :: "byte list \<Rightarrow> (byte list \<times> u16) option" where
  "corbaloc_profile_uiop_parse profile =
     (if \<not> starts ''uiop:'' profile then None
      else
        let rest = behind (ch CHR '':'') profile; slash = ch CHR ''/''; colon = ch CHR '':'';
            p = (if starts ''/'' rest then slash else colon) # dropWhile (\<lambda>b. b = slash) rest
        in if colon \<notin> set p then None
           else (case (if behind_last colon p = [] then Some 0 else port_of (behind_last colon p)) of
               None \<Rightarrow> None
             | Some port \<Rightarrow> if before_last colon p = [] then None else Some (before_last colon p, port)))"

definition corbaloc_ssl :: "u16 \<Rightarrow> IOP_Component_info" where
  "corbaloc_ssl port = Ssl_sec_trans (2 OR 4 OR 8 OR 16 OR 32 OR 64) (2 OR 4) port"

fun version_less :: "GIOPVersion \<Rightarrow> GIOPVersion \<Rightarrow> bool" where
  "version_less GIOP_1_0 v \<longleftrightarrow> v \<noteq> GIOP_1_0"
| "version_less GIOP_1_1 v \<longleftrightarrow> v = GIOP_1_2"
| "version_less GIOP_1_2 v \<longleftrightarrow> False"

definition corbaloc_profile_iiop :: "byte list \<Rightarrow> ORBit_ObjectKey \<Rightarrow> IOP_Profile_info option" where
  "corbaloc_profile_iiop token objkey =
     (case corbaloc_profile_iiop_parse token of
        None \<Rightarrow> None
      | Some (ver, host, port, ssl) \<Rightarrow>
          if ssl \<and> version_less ver GIOP_1_1 then None
          else Some (Internet_iop ver (host @ [0]) (if ssl then 0 else port) (Some objkey)
                 (if ssl then [corbaloc_ssl port] else [])))"

definition corbaloc_profile_uiop :: "byte list \<Rightarrow> ORBit_ObjectKey \<Rightarrow> IOP_Profile_info option" where
  "corbaloc_profile_uiop token objkey =
     map_option (\<lambda>(path, port). Orbit_specific (path @ [0]) port (Some objkey)) (corbaloc_profile_uiop_parse token)"

definition xdigit_value :: "byte \<Rightarrow> byte option" where
  "xdigit_value b =
     (if isdigit b then Some (b - 48)
      else if 97 \<le> b \<and> b \<le> 102 then Some (b - 87)
      else if 65 \<le> b \<and> b \<le> 70 then Some (b - 55)
      else None)"

text \<open>The two characters behind a percent sign; the terminator is not a digit.\<close>

fun orbit_url_decode :: "byte list \<Rightarrow> ORBit_ObjectKey option" where
  "orbit_url_decode [] = Some []"
| "orbit_url_decode (c # s) =
     (if c \<noteq> ch CHR ''%'' then map_option ((#) c) (orbit_url_decode s)
      else (case s of
          h # l # s \<Rightarrow>
            (case (xdigit_value h, xdigit_value l) of
               (Some h, Some l) \<Rightarrow> map_option ((#) (push_bit 4 h OR l)) (orbit_url_decode s)
             | _ \<Rightarrow> None)
        | _ \<Rightarrow> None))"

definition corbaloc_token :: "ORBit_ObjectKey \<Rightarrow> byte list \<Rightarrow> IOP_Profile_info option" where
  "corbaloc_token objkey token =
     (if token = [] then None
      else if hd token \<in> {ch CHR '':'', ch CHR ''i'', ch CHR ''s''} then corbaloc_profile_iiop token objkey
      else if hd token = ch CHR ''u'' then corbaloc_profile_uiop token objkey
      else None)"

fun all_parsed :: "'a option list \<Rightarrow> 'a list option" where
  "all_parsed [] = Some []"
| "all_parsed (None # xs) = None"
| "all_parsed (Some x # xs) = map_option ((#) x) (all_parsed xs)"

text \<open>The profiles; no profiles are an error for the caller as well.\<close>

definition ORBit_corbaloc_parse :: "byte list \<Rightarrow> IOP_Profile_info list" where
  "ORBit_corbaloc_parse corbaloc =
     (let slash = ch CHR ''/'';
          loc = (if starts ''corbaloc:'' corbaloc then drop 9 corbaloc else corbaloc);
          okey = behind_last slash loc
      in if slash \<notin> set corbaloc \<or> slash \<notin> set loc \<or> okey = [] then []
         else (case orbit_url_decode okey of
             None \<Rightarrow> []
           | Some objkey \<Rightarrow>
               (case all_parsed (map (corbaloc_token objkey) (g_strsplit (ch CHR '','') (before_last slash loc))) of
                  None \<Rightarrow> []
                | Some ps \<Rightarrow> ps)))"

section \<open>Printing\<close>

definition as_corbaloc :: "IOP_Profile_info list \<Rightarrow> bool" where
  "as_corbaloc ps \<longleftrightarrow> list_ex (\<lambda>p. is_Internet_iop p \<or> is_Orbit_specific p) ps"

definition get_ssl_component :: "IOP_Component_info list \<Rightarrow> IOP_Component_info option" where
  "get_ssl_component cs = List.find is_Ssl_sec_trans cs"

fun giop_version_str :: "GIOPVersion \<Rightarrow> string" where
  "giop_version_str GIOP_1_0 = ''1.0''"
| "giop_version_str GIOP_1_1 = ''1.1''"
| "giop_version_str GIOP_1_2 = ''1.2''"

definition hexdigit :: "byte \<Rightarrow> byte" where
  "hexdigit n = (if n > 9 then n + 87 else n + 48)"

definition hex2 :: "byte \<Rightarrow> byte list" where
  "hex2 b = [hexdigit (drop_bit 4 b), hexdigit (b AND 15)]"

definition url_encode :: "ORBit_ObjectKey \<Rightarrow> byte list" where
  "url_encode key = concat (map (\<lambda>b. ch CHR ''%'' # hex2 b) key)"

text \<open>\<^verbatim>\<open>%s\<close> of GLib, for a null pointer as well.\<close>

definition printed :: "memory \<Rightarrow> byte list option" where
  "printed m = (if m = [] then Some (chars ''(null)'') else c_str m)"

text \<open>
  A profile as text, without a comma in front: nothing for a profile of another kind; an
  error is an assertion or a string past its memory.
\<close>

fun profile_text :: "ORBit_ObjectKey \<Rightarrow> IOP_Profile_info \<Rightarrow> byte list option option" where
  "profile_text key (Internet_iop v host port k cs) =
     (case printed host of
        None \<Rightarrow> None
      | Some h \<Rightarrow>
          (case get_ssl_component cs of
             Some (Ssl_sec_trans _ _ sp) \<Rightarrow>
               if sp = 0 then None
               else Some (Some (chars ''ssliop:'' @ chars (giop_version_str v) @ chars ''@'' @ h @ chars '':'' @
                      decimal (unat sp) @ chars ''/'' @ url_encode key))
           | _ \<Rightarrow> Some (Some (chars ''iiop:'' @ chars (giop_version_str v) @ chars ''@'' @ h @ chars '':'' @
                      decimal (unat port) @ chars ''/'' @ url_encode key))))"
| "profile_text key (Orbit_specific path port k) =
     (case printed path of
        None \<Rightarrow> None
      | Some s \<Rightarrow> Some (Some (chars ''uiop:'' @ s @ chars '':'' @
             (if port \<noteq> 0 then decimal (unat port) else []) @ chars ''/'' @ url_encode key)))"
| "profile_text key _ = Some None"

fun profile_texts :: "ORBit_ObjectKey \<Rightarrow> bool \<Rightarrow> IOP_Profile_info list \<Rightarrow> byte list option" where
  "profile_texts key first [] = Some []"
| "profile_texts key first (p # ps) =
     (case profile_text key p of
        None \<Rightarrow> None
      | Some None \<Rightarrow> profile_texts key first ps
      | Some (Some t) \<Rightarrow> map_option (\<lambda>r. (if first then [] else chars '','') @ t @ r) (profile_texts key False ps))"

text \<open>The inner option is the null pointer the function returns for references without such a profile.\<close>

definition ORBit_corbaloc_from :: "IOP_Profile_info list \<Rightarrow> ORBit_ObjectKey \<Rightarrow> byte list option option" where
  "ORBit_corbaloc_from ps key =
     (if \<not> as_corbaloc ps then Some None
      else map_option (\<lambda>t. Some (chars ''corbaloc:'' @ t)) (profile_texts key True ps))"

end
