(* ===== verification/Ior_Objects.thy ===== *)
theory Ior_Objects
  imports Ior_Demarshal Ior_Corbaloc
begin

text \<open>
  The references of an ORB (\<open>src/orb/orb-core/corba-object.c\<close>): their table, in which a
  reference that comes in is looked up by its key and its profiles, marshalling and
  demarshalling of references with their effect on the table, corbaloc strings, and the
  connection of a reference. \<open>None\<close> is a failed assertion or a null pointer followed.
\<close>

section \<open>Hash and equality\<close>

definition g_CORBA_Object_hash :: "reference \<Rightarrow> u32 option" where
  "g_CORBA_Object_hash obj = map_option IOP_ObjectKey_hash (ob_key obj)"

fun first_true :: "bool option list \<Rightarrow> bool option" where
  "first_true [] = Some False"
| "first_true (b # bs) = (case b of Some False \<Rightarrow> first_true bs | _ \<Rightarrow> b)"

text \<open>One pair of profiles that are equal is enough.\<close>

definition g_CORBA_Object_equal :: "reference \<Rightarrow> reference \<Rightarrow> bool option" where
  "g_CORBA_Object_equal a b =
     (case (ob_key a, ob_key b) of
        (Some k, Some l) \<Rightarrow>
          if \<not> IOP_ObjectKey_equal k l then Some False
          else first_true (map (\<lambda>(p, q). IOP_profile_equal (ob_profiles a) (ob_profiles b) p q)
                 (List.product (ob_profiles a) (ob_profiles b)))
      | _ \<Rightarrow> None)"

section \<open>The table\<close>

text \<open>
  References are pointers. The table is a \<open>GHashTable\<close> of GLib: its entries are in the order
  in which it compares them; a key is hashed first and then compared with the stored keys of
  the same hash. It is made when it is used first.
\<close>

type_synonym obj_ptr = nat

record orb_objects =
  object_of :: "obj_ptr \<Rightarrow> reference option"
  ref_count :: "obj_ptr \<Rightarrow> nat"
  next_objref :: obj_ptr
  objrefs :: "(obj_ptr \<times> obj_ptr) list option"
  own_profiles :: "IOP_Profile_info list"

definition same_entry :: "orb_objects \<Rightarrow> obj_ptr \<Rightarrow> reference \<Rightarrow> bool option" where
  "same_entry orb p obj =
     (case object_of orb p of
        None \<Rightarrow> None
      | Some s \<Rightarrow> if g_CORBA_Object_hash s \<noteq> g_CORBA_Object_hash obj then Some False else g_CORBA_Object_equal s obj)"

fun table_lookup :: "orb_objects \<Rightarrow> (obj_ptr \<times> obj_ptr) list \<Rightarrow> reference \<Rightarrow> obj_ptr option option" where
  "table_lookup orb [] obj = Some None"
| "table_lookup orb ((k, v) # t) obj =
     (case same_entry orb k obj of
        None \<Rightarrow> None
      | Some True \<Rightarrow> Some (Some v)
      | Some False \<Rightarrow> table_lookup orb t obj)"

text \<open>An entry whose key is equal keeps its key and gets the new value.\<close>

fun table_insert :: "orb_objects \<Rightarrow> (obj_ptr \<times> obj_ptr) list \<Rightarrow> obj_ptr \<Rightarrow> reference \<Rightarrow> (obj_ptr \<times> obj_ptr) list option" where
  "table_insert orb [] p obj = Some [(p, p)]"
| "table_insert orb ((k, v) # t) p obj =
     (case same_entry orb k obj of
        None \<Rightarrow> None
      | Some True \<Rightarrow> Some ((k, p) # t)
      | Some False \<Rightarrow> map_option ((#) (k, v)) (table_insert orb t p obj))"

fun table_remove :: "orb_objects \<Rightarrow> (obj_ptr \<times> obj_ptr) list \<Rightarrow> reference \<Rightarrow> (obj_ptr \<times> obj_ptr) list option" where
  "table_remove orb [] obj = Some []"
| "table_remove orb ((k, v) # t) obj =
     (case same_entry orb k obj of
        None \<Rightarrow> None
      | Some True \<Rightarrow> Some t
      | Some False \<Rightarrow> map_option ((#) (k, v)) (table_remove orb t obj))"

definition ORBit_register_objref :: "orb_objects \<Rightarrow> obj_ptr \<Rightarrow> orb_objects option" where
  "ORBit_register_objref orb p =
     (case object_of orb p of
        None \<Rightarrow> None
      | Some obj \<Rightarrow>
          if ob_key obj = None \<or> ob_profiles obj = [] then None
          else map_option (\<lambda>t. orb\<lparr>objrefs := Some t\<rparr>)
                 (table_insert orb (case objrefs orb of None \<Rightarrow> [] | Some t \<Rightarrow> t) p obj))"

definition ORBit_lookup_objref :: "orb_objects \<Rightarrow> reference \<Rightarrow> obj_ptr option option" where
  "ORBit_lookup_objref orb obj =
     (case objrefs orb of
        None \<Rightarrow> Some None
      | Some t \<Rightarrow>
          if ob_profiles obj = [] then Some None
          else if ob_key obj = None then None
          else table_lookup orb t obj)"

definition new_reference :: "orb_objects \<Rightarrow> ORBit_ObjectKey option \<Rightarrow> byte list \<Rightarrow> obj_ptr \<times> orb_objects" where
  "new_reference orb adaptor_obj type_id =
     (let p = next_objref orb in
      (p, orb\<lparr>next_objref := p + 1, ref_count := (ref_count orb)(p := 0),
           object_of := (object_of orb)(p \<mapsto> \<lparr>ob_type = type_id, ob_key = None, ob_profiles = [], ob_forward = [],
             ob_connection = None, ob_adaptor = adaptor_obj\<rparr>)\<rparr>))"

definition duplicate :: "obj_ptr \<Rightarrow> orb_objects \<Rightarrow> orb_objects" where
  "duplicate p orb = orb\<lparr>ref_count := (ref_count orb)(p := ref_count orb p + 1)\<rparr>"

definition set_object :: "obj_ptr \<Rightarrow> reference \<Rightarrow> orb_objects \<Rightarrow> orb_objects" where
  "set_object p obj orb = orb\<lparr>object_of := (object_of orb)(p \<mapsto> obj)\<rparr>"

definition ORBit_objref_find :: "orb_objects \<Rightarrow> byte list \<Rightarrow> IOP_Profile_info list \<Rightarrow> (obj_ptr \<times> orb_objects) option" where
  "ORBit_objref_find orb type_id profiles0 =
     (case IOP_profiles_sync_objkey profiles0 of
        None \<Rightarrow> None
      | Some (key, profiles) \<Rightarrow>
          (let fakeme = \<lparr>ob_type = type_id, ob_key = key, ob_profiles = profiles, ob_forward = [],
                 ob_connection = None, ob_adaptor = None\<rparr>
           in case ORBit_lookup_objref orb fakeme of
                None \<Rightarrow> None
              | Some (Some p) \<Rightarrow> Some (p, duplicate p orb)
              | Some None \<Rightarrow>
                  (let (p, orb) = new_reference orb None type_id
                   in map_option (\<lambda>orb. (p, duplicate p orb))
                        (ORBit_register_objref (set_object p fakeme orb) p))))"

section \<open>References in messages\<close>

text \<open>A reference that goes out is in the table.\<close>

definition published :: "orb_objects \<Rightarrow> obj_ptr \<Rightarrow> orb_objects option" where
  "published orb p =
     (case object_of orb p of
        None \<Rightarrow> None
      | Some obj \<Rightarrow>
          if ob_profiles obj \<noteq> [] then Some orb
          else ORBit_register_objref (set_object p (IOP_generate_profiles (own_profiles orb) obj) orb) p)"

definition ORBit_marshal_object :: "SendEnv \<Rightarrow> orb_objects \<Rightarrow> obj_ptr option \<Rightarrow> GIOPSendBuffer \<Rightarrow>
    (GIOPSendBuffer \<times> orb_objects) option" where
  "ORBit_marshal_object env orb obj buf =
     (case obj of
        None \<Rightarrow> Some (marshal_nil env buf, orb)
      | Some p \<Rightarrow>
          (case published orb p of
             None \<Rightarrow> None
           | Some orb \<Rightarrow>
               (case object_of orb p of
                  None \<Rightarrow> None
                | Some obj \<Rightarrow> map_option (\<lambda>buf. (buf, orb)) (marshal_reference env obj buf))))"

definition ORBit_demarshal_object :: "orb_objects \<Rightarrow> GIOPRecvBuffer \<Rightarrow>
    (recv_error + (obj_ptr option \<times> orb_objects \<times> GIOPRecvBuffer)) option" where
  "ORBit_demarshal_object orb buf =
     (case ORBit_demarshal_IOR buf of
        Inl e \<Rightarrow> Some (Inl e)
      | Inr (None, buf) \<Rightarrow> Some (Inr (None, orb, buf))
      | Inr (Some (type_id, profiles), buf) \<Rightarrow>
          (case c_string buf type_id of
             Inl e \<Rightarrow> Some (Inl e)
           | Inr type_id \<Rightarrow>
               map_option (\<lambda>(p, orb). Inr (Some p, orb, buf)) (ORBit_objref_find orb type_id profiles)))"

section \<open>Corbaloc\<close>

datatype loc_exception = BAD_PARAM

definition ORBit_object_to_corbaloc :: "orb_objects \<Rightarrow> obj_ptr option \<Rightarrow> ((loc_exception + byte list) \<times> orb_objects) option" where
  "ORBit_object_to_corbaloc orb obj =
     (case obj of
        None \<Rightarrow> Some (Inr (chars ''corbaloc::/''), orb)
      | Some p \<Rightarrow>
          (case published orb p of
             None \<Rightarrow> None
           | Some orb \<Rightarrow>
               (case object_of orb p of
                  Some obj \<Rightarrow>
                    (case ORBit_corbaloc_from (ob_profiles obj) (case ob_key obj of Some k \<Rightarrow> k | None \<Rightarrow> []) of
                       None \<Rightarrow> None
                     | Some None \<Rightarrow> Some (Inl BAD_PARAM, orb)
                     | Some (Some s) \<Rightarrow> if ob_key obj = None then None else Some (Inr s, orb))
                | None \<Rightarrow> None)))"

definition ORBit_object_by_corbaloc :: "orb_objects \<Rightarrow> byte list \<Rightarrow> ((loc_exception + obj_ptr option) \<times> orb_objects) option" where
  "ORBit_object_by_corbaloc orb corbaloc =
     (if corbaloc = chars ''corbaloc::/'' then Some (Inr None, orb)
      else
        (let profiles = ORBit_corbaloc_parse corbaloc
         in if profiles = [] then Some (Inl BAD_PARAM, orb)
            else map_option (\<lambda>(p, orb). (Inr (Some p), orb)) (ORBit_objref_find orb [] profiles)))"

section \<open>Connections\<close>

text \<open>
  What the transport does: a connection that is begun to a place, or none, and whether a
  connection gets established (or revived). Connecting does not block: none is begun when the
  name does not resolve or the system call fails at once, while a TCP peer that refuses later
  gives a connection for which \<open>try_connection\<close> is false.
\<close>

record transport =
  giop_connection_initiate :: "profile_place \<Rightarrow> nat option"
  try_connection :: "nat \<Rightarrow> bool"
  use_unix :: bool
  use_ip :: bool
  link_ssl :: bool
  local_hostname :: memory

definition is_localhost :: "transport \<Rightarrow> memory \<Rightarrow> bool option" where
  "is_localhost tr host = (if host = [] then Some False else same_string (local_hostname tr) host)"

text \<open>
  The key of the place that answered becomes the key of the reference, which is moved in the
  table when the key is another one.
\<close>

definition adopt_key :: "orb_objects \<Rightarrow> obj_ptr \<Rightarrow> ORBit_ObjectKey option \<Rightarrow> orb_objects option" where
  "adopt_key orb p objkey =
     (case object_of orb p of
        None \<Rightarrow> None
      | Some obj \<Rightarrow>
          (case (ob_key obj, objkey) of
             (Some k, Some l) \<Rightarrow>
               if IOP_ObjectKey_equal k l then Some (set_object p (obj\<lparr>ob_key := objkey\<rparr>) orb)
               else
                 (case objrefs orb of
                    None \<Rightarrow> Some (set_object p (obj\<lparr>ob_key := objkey\<rparr>) orb)
                  | Some t \<Rightarrow>
                      (case table_remove orb t obj of
                         None \<Rightarrow> None
                       | Some t \<Rightarrow>
                           (let obj = obj\<lparr>ob_key := objkey\<rparr>; orb = set_object p obj (orb\<lparr>objrefs := Some t\<rparr>)
                            in map_option (\<lambda>t. orb\<lparr>objrefs := Some t\<rparr>) (table_insert orb t p obj))))
           | _ \<Rightarrow> None))"

text \<open>
  The profiles in turn, up to the first connection that is established. A connection that was
  begun stays with the reference also when it is not.
\<close>

fun try_profiles :: "transport \<Rightarrow> obj_ptr \<Rightarrow> ORBit_ObjectKey option \<Rightarrow> IOP_Profile_info list \<Rightarrow> bool \<Rightarrow> orb_objects \<Rightarrow>
    (nat option \<times> orb_objects) option" where
  "try_profiles tr p objkey [] unix_failed orb = Some (None, orb)"
| "try_profiles tr p objkey (pinfo # plist) unix_failed orb =
     (case IOP_profile_get_info (link_ssl tr) pinfo of
        None \<Rightarrow> try_profiles tr p objkey plist unix_failed orb
      | Some place \<Rightarrow>
          (case (if unix_failed \<and> use_ip tr then is_localhost tr (pl_host place) else Some False) of
             None \<Rightarrow> None
           | Some True \<Rightarrow> try_profiles tr p objkey plist unix_failed orb
           | Some False \<Rightarrow>
               (case object_of orb p of
                  None \<Rightarrow> None
                | Some obj \<Rightarrow>
                    (let cnx = giop_connection_initiate tr place;
                         orb = set_object p (obj\<lparr>ob_connection := cnx\<rparr>) orb
                     in case cnx of
                          None \<Rightarrow>
                            (case (if use_unix tr \<and> use_ip tr then same_string (pl_proto place) (c_literal ''UNIX'') else Some False) of
                               None \<Rightarrow> None
                             | Some u \<Rightarrow> try_profiles tr p objkey plist (unix_failed \<or> u) orb)
                        | Some c \<Rightarrow>
                            if try_connection tr c then map_option (\<lambda>orb. (Some c, orb)) (adopt_key orb p objkey)
                            else try_profiles tr p objkey plist unix_failed orb))))"

definition ORBit_object_get_connection :: "transport \<Rightarrow> obj_ptr \<Rightarrow> orb_objects \<Rightarrow> (nat option \<times> orb_objects) option" where
  "ORBit_object_get_connection tr p orb =
     (case object_of orb p of
        None \<Rightarrow> None
      | Some obj \<Rightarrow>
          (case ob_connection obj of
             Some c \<Rightarrow> Some (if try_connection tr c then Some c else None, orb)
           | None \<Rightarrow>
               if ob_forward obj = [] then try_profiles tr p (ob_key obj) (ob_profiles obj) False orb
               else
                 (case IOP_profiles_sync_objkey (ob_forward obj) of
                    None \<Rightarrow> None
                  | Some (objkey, plist) \<Rightarrow>
                      try_profiles tr p objkey plist False (set_object p (obj\<lparr>ob_forward := plist\<rparr>) orb))))"

definition ORBit_handle_location_forward :: "transport \<Rightarrow> obj_ptr \<Rightarrow> GIOPRecvBuffer \<Rightarrow> orb_objects \<Rightarrow> (nat option \<times> orb_objects) option" where
  "ORBit_handle_location_forward tr p buf orb =
     (case ORBit_demarshal_IOR buf of
        Inl e \<Rightarrow> if e = OutOfBounds then None else Some (None, orb)
      | Inr (r, buf) \<Rightarrow>
          (case object_of orb p of
             None \<Rightarrow> None
           | Some obj \<Rightarrow>
               ORBit_object_get_connection tr p
                 (set_object p (obj\<lparr>ob_forward := (case r of Some (t, ps) \<Rightarrow> ps | None \<Rightarrow> []), ob_connection := None\<rparr>) orb)))"

end
