(* ===== verification/Ior_Identity.thy ===== *)
theory Ior_Identity
  imports Ior_Reference Ior_Objects
begin

text \<open>
  The identity of references: one that comes in and is known is found, one that is not known
  is made and registered; what travels is enough to find it.
\<close>

section \<open>Profiles without keys\<close>

fun bare_component :: "IOP_Component_info \<Rightarrow> IOP_Component_info" where
  "bare_component (Complete_object_key k) = Complete_object_key None"
| "bare_component c = c"

text \<open>A profile of a reference: the key is kept once, in the reference.\<close>

fun bare :: "IOP_Profile_info \<Rightarrow> IOP_Profile_info" where
  "bare (Internet_iop v h p k cs) = Internet_iop v h p None cs"
| "bare (Orbit_specific u p k) = Orbit_specific u p None"
| "bare (Multiple_components cs) = Multiple_components (map bare_component cs)"
| "bare p = p"

fun keyed :: "IOP_Profile_info \<Rightarrow> bool" where
  "keyed (Internet_iop v h p k cs) \<longleftrightarrow> True"
| "keyed (Orbit_specific u p k) \<longleftrightarrow> True"
| "keyed (Multiple_components cs) \<longleftrightarrow> list_ex is_Complete_object_key cs"
| "keyed p \<longleftrightarrow> False"

text \<open>All keys that came in are the same: this key is found.\<close>

lemma another_key_same: "objkey = None \<or> objkey = Some key \<Longrightarrow> another_key objkey (Some key) = Some (Some key)"
  by auto

lemma sync_received_components:
  "objkey = None \<or> objkey = Some key \<Longrightarrow>
     sync_components objkey (map (received_component key) cs) =
       Some (if list_ex is_Complete_object_key cs then Some key else objkey, map bare_component cs)"
proof (induction cs arbitrary: objkey)
  case Nil
  then show ?case by simp
next
  case (Cons c cs)
  show ?case
  proof (cases c)
    case (Complete_object_key k)
    then show ?thesis using Cons.IH [of "Some key"] another_key_same [OF Cons.prems] by simp
  qed (use Cons in simp_all)
qed

lemma received_parts: "received_component key c = Complete_object_key (Some key) \<or>
    received_component key c = c \<and> \<not> is_Complete_object_key c"
  by (cases c) auto

lemma sync_received:
  "objkey = None \<or> objkey = Some key \<Longrightarrow>
     sync_profiles objkey (map (as_received key) ps) =
       Some (if list_ex keyed ps then Some key else objkey, map (\<lambda>p. bare (as_received key p)) ps)"
proof (induction ps arbitrary: objkey)
  case Nil
  then show ?case by simp
next
  case (Cons p ps)
  have k: "map bare_component (map (received_component key) cs) = map bare_component cs" for cs
  proof -
    have "bare_component (received_component key c) = bare_component c" for c by (cases c) simp_all
    then show ?thesis by simp
  qed
  show ?case
  proof (cases p)
    case (Internet_iop v h port k cs)
    then show ?thesis using Cons.IH [of "Some key"] another_key_same [OF Cons.prems] by simp
  next
    case (Orbit_specific u port k)
    then show ?thesis using Cons.IH [of "Some key"] another_key_same [OF Cons.prems] by simp
  next
    case (Multiple_components cs)
    let ?o = "if list_ex is_Complete_object_key cs then Some key else objkey"
    have "?o = None \<or> ?o = Some key" using Cons.prems by auto
    from Cons.IH [OF this] show ?thesis
      using sync_received_components [OF Cons.prems, of cs] k [of cs] Multiple_components by simp
  qed (use Cons in simp_all)
qed

section \<open>Equality\<close>

text \<open>Profiles that lead somewhere, and that two references can be compared by.\<close>

definition comparable :: "IOP_Profile_info list \<Rightarrow> IOP_Profile_info \<Rightarrow> bool" where
  "comparable ps p \<longleftrightarrow> is_Internet_iop p \<or> is_Orbit_specific p \<or> is_Generic_iop p \<and> has_mci ps"

fun stored :: "IOP_Profile_info \<Rightarrow> bool" where
  "stored (Internet_iop v h p k cs) \<longleftrightarrow> k = None \<and> good_string h"
| "stored (Orbit_specific u p k) \<longleftrightarrow> k = None \<and> good_string u"
| "stored (Generic_iop v proto h s cs) \<longleftrightarrow> good_string proto \<and> good_string h \<and> good_string s"
| "stored p \<longleftrightarrow> True"

lemma same_good: "good_string a \<Longrightarrow> good_string b \<Longrightarrow> same_string a b = Some (a = b)"
  by (auto simp: good_string_def same_string_terminated)

lemma equal_total:
  assumes "stored p" "stored q"
  shows "\<exists>b. IOP_profile_equal ps qs p q = Some b"
  using assms by (cases p; cases q) (auto simp: same_good split: bool.splits)

lemma equal_received:
  assumes "stored p" "comparable ps p"
  shows "IOP_profile_equal ps qs p (bare (as_received key p)) = Some True"
  using assms by (cases p) (auto simp: same_good comparable_def)

lemma stored_received: "stored p \<Longrightarrow> stored (bare (as_received key p))"
  by (cases p) auto

lemma first_true_some:
  assumes "\<forall>b \<in> set bs. b \<noteq> None" "Some True \<in> set bs"
  shows "first_true bs = Some True"
  using assms by (induction bs) (auto split: option.splits bool.splits)

lemma equal_to_received:
  assumes k: "ob_key a = Some key" "ob_key b = Some key" and b: "ob_profiles b = map (\<lambda>p. bare (as_received key p)) (ob_profiles a)"
    and s: "\<forall>p \<in> set (ob_profiles a). stored p" and c: "\<exists>p \<in> set (ob_profiles a). comparable (ob_profiles a) p"
  shows "g_CORBA_Object_equal a b = Some True"
proof -
  let ?f = "\<lambda>(p, q). IOP_profile_equal (ob_profiles a) (ob_profiles b) p q"
  let ?bs = "map ?f (List.product (ob_profiles a) (ob_profiles b))"
  have "\<forall>x \<in> set ?bs. x \<noteq> None"
    using equal_total s stored_received by (fastforce simp: b)
  moreover have "Some True \<in> set ?bs"
  proof -
    obtain p where p: "p \<in> set (ob_profiles a)" "comparable (ob_profiles a) p" using c by blast
    then have "(p, bare (as_received key p)) \<in> set (List.product (ob_profiles a) (ob_profiles b))" by (auto simp: b)
    moreover have "?f (p, bare (as_received key p)) = Some True" using equal_received p s by simp
    ultimately show ?thesis by (metis (no_types, lifting) image_eqI list.set_map)
  qed
  ultimately show ?thesis using first_true_some [of ?bs] by (simp add: g_CORBA_Object_equal_def k IOP_ObjectKey_equal_def)
qed

section \<open>The table\<close>

text \<open>All entries have another key.\<close>

definition apart :: "orb_objects \<Rightarrow> ORBit_ObjectKey \<Rightarrow> (obj_ptr \<times> obj_ptr) list \<Rightarrow> bool" where
  "apart orb key t \<longleftrightarrow> (\<forall>(k, v) \<in> set t. \<exists>s l. object_of orb k = Some s \<and> ob_key s = Some l \<and> l \<noteq> key)"

lemma apart_entry:
  "object_of orb k = Some s \<Longrightarrow> ob_key s = Some l \<Longrightarrow> l \<noteq> key \<Longrightarrow> ob_key obj = Some key \<Longrightarrow> same_entry orb k obj = Some False"
  by (simp add: same_entry_def g_CORBA_Object_equal_def IOP_ObjectKey_equal_def)

lemma lookup_apart:
  "apart orb key t \<Longrightarrow> ob_key obj = Some key \<Longrightarrow> table_lookup orb (t @ u) obj = table_lookup orb u obj"
  by (induction t) (auto simp: apart_def apart_entry)

lemma insert_apart:
  "apart orb key t \<Longrightarrow> ob_key obj = Some key \<Longrightarrow> table_insert orb t p obj = Some (t @ [(p, p)])"
  by (induction t) (auto simp: apart_def apart_entry)

lemma same_hash: "ob_key a = ob_key b \<Longrightarrow> g_CORBA_Object_hash a = g_CORBA_Object_hash b"
  by (simp add: g_CORBA_Object_hash_def)

text \<open>A reference stands in the table behind entries with other keys.\<close>

definition entered :: "orb_objects \<Rightarrow> obj_ptr \<Rightarrow> ORBit_ObjectKey \<Rightarrow> bool" where
  "entered orb p key \<longleftrightarrow> (\<exists>t u. objrefs orb = Some (t @ (p, p) # u) \<and> apart orb key t)"

lemma find_entered:
  assumes e: "entered orb p key" and o: "object_of orb p = Some obj" "ob_key obj = Some key"
    and s: "\<forall>p \<in> set (ob_profiles obj). stored p" "\<exists>p \<in> set (ob_profiles obj). comparable (ob_profiles obj) p"
      "list_ex keyed (ob_profiles obj)"
  shows "ORBit_objref_find orb type (map (as_received key) (ob_profiles obj)) = Some (p, duplicate p orb)"
proof -
  let ?ps = "map (\<lambda>p. bare (as_received key p)) (ob_profiles obj)"
  let ?fake = "\<lparr>ob_type = type, ob_key = Some key, ob_profiles = ?ps, ob_forward = [], ob_connection = None, ob_adaptor = None\<rparr>"
  have sync: "IOP_profiles_sync_objkey (map (as_received key) (ob_profiles obj)) = Some (Some key, ?ps)"
    using sync_received [of None key "ob_profiles obj"] s(3) by (simp add: IOP_profiles_sync_objkey_def)
  have ne: "ob_profiles obj \<noteq> []" using s(2) by auto
  obtain t u where t: "objrefs orb = Some (t @ (p, p) # u)" "apart orb key t" using e by (auto simp: entered_def)
  have "g_CORBA_Object_equal obj ?fake = Some True" by (rule equal_to_received [where key = key]) (use o s in simp_all)
  then have "same_entry orb p ?fake = Some True"
    using same_hash [of obj ?fake] o by (simp add: same_entry_def)
  then have "table_lookup orb (t @ (p, p) # u) ?fake = Some (Some p)"
    by (subst lookup_apart [OF t(2)]) simp_all
  then have "ORBit_lookup_objref orb ?fake = Some (Some p)" using ne by (simp add: ORBit_lookup_objref_def t(1))
  then show ?thesis by (simp add: ORBit_objref_find_def sync Let_def)
qed

text \<open>A reference whose key is not known.\<close>

definition unknown_key :: "orb_objects \<Rightarrow> ORBit_ObjectKey \<Rightarrow> bool" where
  "unknown_key orb key \<longleftrightarrow> apart orb key (case objrefs orb of None \<Rightarrow> [] | Some t \<Rightarrow> t)"

definition reference_of :: "byte list \<Rightarrow> ORBit_ObjectKey \<Rightarrow> IOP_Profile_info list \<Rightarrow> reference" where
  "reference_of type key ps = \<lparr>ob_type = type, ob_key = Some key, ob_profiles = map (\<lambda>p. bare (as_received key p)) ps,
     ob_forward = [], ob_connection = None, ob_adaptor = None\<rparr>"

lemma apart_other: "apart orb key t \<Longrightarrow> object_of orb p = None \<Longrightarrow> apart (set_object p obj orb') key t"
  if "object_of orb' = (object_of orb)(p \<mapsto> x)"
  using that by (fastforce simp: apart_def set_object_def)

lemma find_unknown:
  assumes u: "unknown_key orb key" and f: "object_of orb (next_objref orb) = None" and ps: "ps \<noteq> []" "list_ex keyed ps"
  shows "\<exists>orb'. ORBit_objref_find orb type (map (as_received key) ps) = Some (next_objref orb, orb') \<and>
    object_of orb' = (object_of orb)(next_objref orb \<mapsto> reference_of type key ps) \<and>
    ref_count orb' (next_objref orb) = 1 \<and> entered orb' (next_objref orb) key"
proof -
  let ?p = "next_objref orb" and ?r = "reference_of type key ps"
  let ?t = "case objrefs orb of None \<Rightarrow> [] | Some t \<Rightarrow> t"
  have sync: "IOP_profiles_sync_objkey (map (as_received key) ps) = Some (Some key, ob_profiles ?r)"
    using sync_received [of None key ps] ps(2) by (simp add: IOP_profiles_sync_objkey_def reference_of_def)
  have a: "apart orb key ?t" using u by (simp add: unknown_key_def)
  have k: "ob_key ?r = Some key" "ob_profiles ?r \<noteq> []" using ps(1) by (simp_all add: reference_of_def)
  have fake: "\<lparr>ob_type = type, ob_key = Some key, ob_profiles = ob_profiles ?r, ob_forward = [], ob_connection = None,
      ob_adaptor = None\<rparr> = ?r" by (simp add: reference_of_def)
  have l: "ORBit_lookup_objref orb ?r = Some None"
    using lookup_apart [OF a k(1), of "[]"] k by (auto simp: ORBit_lookup_objref_def split: option.splits)
  obtain orb1 where new: "new_reference orb None type = (?p, orb1)" by (simp add: new_reference_def Let_def)
  then have o1: "\<exists>x. object_of orb1 = (object_of orb)(?p \<mapsto> x)" "objrefs orb1 = objrefs orb" "ref_count orb1 ?p = 0"
    by (auto simp: new_reference_def Let_def)
  let ?orb2 = "set_object ?p ?r orb1"
  obtain x where x: "object_of orb1 = (object_of orb)(?p \<mapsto> x)" using o1(1) by blast
  have a2: "apart ?orb2 key ?t" by (rule apart_other [OF x a f])
  have o2: "object_of ?orb2 = (object_of orb)(?p \<mapsto> ?r)" "objrefs ?orb2 = objrefs orb" "ref_count ?orb2 ?p = 0"
    using x o1 by (simp_all add: set_object_def)
  have "ORBit_register_objref ?orb2 ?p = Some (?orb2\<lparr>objrefs := Some (?t @ [(?p, ?p)])\<rparr>)"
    using insert_apart [OF a2 k(1), of ?p] k by (simp add: ORBit_register_objref_def o2)
  then have find: "ORBit_objref_find orb type (map (as_received key) ps) =
      Some (?p, duplicate ?p (?orb2\<lparr>objrefs := Some (?t @ [(?p, ?p)])\<rparr>))"
    by (simp add: ORBit_objref_find_def sync Let_def fake l new)
  have "apart (duplicate ?p (?orb2\<lparr>objrefs := Some (?t @ [(?p, ?p)])\<rparr>)) key ?t"
    using a2 by (simp add: apart_def duplicate_def)
  then have "entered (duplicate ?p (?orb2\<lparr>objrefs := Some (?t @ [(?p, ?p)])\<rparr>)) ?p key"
    unfolding entered_def by (intro exI [of _ ?t] exI [of _ "[]"]) (simp add: duplicate_def)
  with find o2 show ?thesis by (intro exI) (auto simp: duplicate_def)
qed

end
