(* ===== verification/Ior_Wire.thy ===== *)
theory Ior_Wire
  imports Ior_Identity
begin

text \<open>References that travel: from one ORB to another, and out and home again.\<close>

section \<open>A reference in a reply\<close>

lemma c_string_loaded:
  assumes "load buf p (length s + 1) = Inr (s @ [0])" "0 \<notin> set s"
  shows "c_string (buf\<lparr>rcur := c\<rparr>) p = Inr s"
proof -
  let ?d = "drop (unat (p - message_body buf)) (body_mem buf)"
  have "take (length s + 1) ?d = s @ [0]" using assms(1) by (auto simp: load_def Let_def split: if_splits)
  then obtain t where d: "?d = s @ 0 # t" by (metis append_Cons append_Nil append_assoc append_take_drop_id)
  have "takeWhile (\<lambda>b. b \<noteq> 0) (s @ 0 # t) = s" using assms(2) by (subst takeWhile_append2) auto
  then show ?thesis by (simp add: c_string_def Let_def d)
qed

text \<open>References that can be sent and found again.\<close>

definition sendable :: "byte list \<Rightarrow> ORBit_ObjectKey \<Rightarrow> IOP_Profile_info list \<Rightarrow> bool" where
  "sendable type key ps \<longleftrightarrow> profiles_ok ps \<and> list_ex keyed ps \<and> (\<exists>p \<in> set ps. comparable ps p) \<and>
     0 \<notin> set type \<and> object_size type key ps < 2 ^ 31 \<and> length key < 2 ^ 31"

lemma sendable_nonempty: "sendable type key ps \<Longrightarrow> ps \<noteq> []"
  by (auto simp: sendable_def)

lemma reference_heard:
  assumes pool: "\<forall>b \<in> set sbl. pool_ok b" and obj: "ob_key obj = Some key" "sendable (ob_type obj) key (ob_profiles obj)"
    and m: "marshal_reference env obj (fst (giop_send_buffer_use_reply env sbl v rid status)) = Some b"
    and ac: "accepts renv (length (payload env b)) a" and st: "incoming_msg st = None"
    and q: "queued st = xs @ ent # ys" "\<forall>e \<in> set xs. \<not> (ent_request_id e = rid \<and> ent_msg_type e = GIOP_REPLY)"
    and ent: "ent_request_id ent = rid" "ent_msg_type ent = GIOP_REPLY" "ent_cnx ent = Some (cnx_id renv)"
    and rs: "no_empty rs" "tokens rs = map Some (wire env b)"
  obtains r p c where "fst (giop_connection_handle_input renv st rs) =
      st\<lparr>queued := xs @ ys, answered := ent\<lparr>ent_buffer := Some r\<rparr> # answered st\<rparr>"
    "ORBit_demarshal_IOR r = Inr (Some (p, map (as_received key) (ob_profiles obj)), r\<lparr>rcur := c\<rparr>)"
    "c_string (r\<lparr>rcur := c\<rparr>) p = Inr (ob_type obj)"
proof -
  note u = use_reply_builds [OF pool, of env v rid status]
  let ?pl = "payload env (fst (giop_send_buffer_use_reply env sbl v rid status))"
  note s = obj(2) [unfolded sendable_def]
  have g: "list_all profile_good (ob_profiles obj)" using s by (auto simp: profiles_ok_def list_all_iff profile_ok_good)
  have ty: "length (ob_type obj) + 5 < 2 ^ 32" "length (ob_type obj) + 1 < 2 ^ 32" "length key < 2 ^ 32"
    using s by (simp_all add: object_size_def)
  have l: "length ?pl + 12 + object_size (ob_type obj) key (ob_profiles obj) < 2 ^ 32" using u(3) s by simp
  obtain zs where z: "object_at (ob_type obj) key (ob_profiles obj) (12 + length ?pl) zs" "builds env v GIOP_REPLY (?pl @ zs) b"
    "length zs \<le> object_size (ob_type obj) key (ob_profiles obj)"
    using writerD [OF writer_object [OF ty(1) g sendable_nonempty [OF obj(2)] obj(1)] u(1,2) l] m by auto
  have pl: "payload env b = ?pl @ zs" using z(2) by (simp add: builds_def)
  have sz: "length (payload env b) < 2 ^ 32" using l z(3) by (simp add: pl)
  from reply_heard [OF pool z(2) sz ac st q ent rs] obtain r where
    hi: "fst (giop_connection_handle_input renv st rs) =
      st\<lparr>queued := xs @ ys, answered := ent\<lparr>ent_buffer := Some r\<rparr> # answered st\<rparr>"
    and r: "is_reply r v rid status zs" "has_room 0 r" "view False r (12 + length ?pl) zs"
    by (auto simp: pl)
  have "span r (12 + length ?pl) (zs @ [])" using span_view [OF r(3,2)] by simp
  from demarshal_object [OF z(1) this _ sendable_nonempty [OF obj(2)] ty(3,2)] s obtain p c where
    "ORBit_demarshal_IOR r = Inr (Some (p, map (as_received key) (ob_profiles obj)), r\<lparr>rcur := c\<rparr>)"
    "load r p (length (ob_type obj) + 1) = Inr (ob_type obj @ [0])" by auto
  with that [OF hi] c_string_loaded s show thesis by blast
qed

section \<open>Stored profiles\<close>

lemma received_again: "as_received key (bare (as_received key p)) = as_received key p"
proof -
  have c: "received_component key (bare_component c) = received_component key c"
    "received_component key (received_component key c) = received_component key c"
    "received_component key (bare_component (received_component key c)) = received_component key c" for c
    by (cases c; simp)+
  show ?thesis by (cases p) (simp_all add: c)
qed

lemma stored_ok: "profile_ok p \<Longrightarrow> stored (bare (as_received key p))"
  by (cases p) auto

lemma keyed_received: "keyed (bare (as_received key p)) = keyed p"
proof -
  have "is_Complete_object_key (bare_component (received_component key c)) = is_Complete_object_key c" for c
    by (cases c) simp_all
  then show ?thesis by (cases p) (simp_all add: list.pred_map list_ex_iff)
qed

lemma comparable_received:
  "comparable ps p \<Longrightarrow> comparable (map (\<lambda>p. bare (as_received key p)) ps) (bare (as_received key p))"
proof -
  have "is_Multiple_components (bare (as_received key q)) = is_Multiple_components q" for q by (cases q) simp_all
  then have "has_mci (map (\<lambda>p. bare (as_received key p)) ps) = has_mci ps" by (simp add: has_mci_def list_ex_iff)
  then show "comparable ps p \<Longrightarrow> ?thesis" by (cases p) (simp_all add: comparable_def)
qed

lemma find_registered:
  assumes e: "entered orb p key" and o: "object_of orb p = Some (reference_of type key ps)" and s: "sendable type key ps"
  shows "ORBit_objref_find orb type' (map (as_received key) ps) = Some (p, duplicate p orb)"
proof -
  let ?qs = "map (\<lambda>p. bare (as_received key p)) ps"
  note s' = s [unfolded sendable_def profiles_ok_def list_all_iff]
  have r: "map (as_received key) ?qs = map (as_received key) ps" by (simp add: received_again)
  have "\<forall>p \<in> set ?qs. stored p" using s' stored_ok by auto
  moreover have "\<exists>p \<in> set ?qs. comparable ?qs p" using s' comparable_received by fastforce
  moreover have "list_ex keyed ?qs" using s' by (simp add: list_ex_iff keyed_received)
  ultimately have "ORBit_objref_find orb type' (map (as_received key) ?qs) = Some (p, duplicate p orb)"
    using find_entered [OF e o] by (simp add: reference_of_def)
  then show ?thesis unfolding r .
qed

lemma demarshal_find:
  assumes "ORBit_demarshal_IOR r = Inr (Some (p, ps), r')" "c_string r' p = Inr type" "ORBit_objref_find orb type ps = Some (q, orb')"
  shows "ORBit_demarshal_object orb r = Some (Inr (Some q, orb', r'))"
  using assms by (simp add: ORBit_demarshal_object_def)

section \<open>Concrete references\<close>

definition ex_profiles :: "IOP_Profile_info list" where
  "ex_profiles = [Internet_iop GIOP_1_2 [98, 111, 120, 0] 2809 None [],
     Multiple_components [Complete_object_key None, own_code_sets]]"

definition ex_reference :: "IOP_Profile_info list \<Rightarrow> ORBit_ObjectKey option \<Rightarrow> ORBit_ObjectKey option \<Rightarrow> reference" where
  "ex_reference ps key adaptor_key = \<lparr>ob_type = [73, 68], ob_key = key, ob_profiles = ps, ob_forward = [],
     ob_connection = None, ob_adaptor = adaptor_key\<rparr>"

definition ex_orb :: "reference option \<Rightarrow> orb_objects" where
  "ex_orb obj = \<lparr>object_of = (\<lambda>p. if p = 0 then obj else None), ref_count = (\<lambda>p. 0),
     next_objref = (if obj = None then 0 else 1), objrefs = None, own_profiles = ex_profiles\<rparr>"

lemma ex_sendable: "sendable [73, 68] [1, 2, 3] ex_profiles" "\<forall>q \<in> set ex_profiles. stored q"
    "object_size [73, 68] [1, 2, 3] ex_profiles \<le> 300"
proof -
  have g: "good_string [98, 111, 120, 0]" unfolding good_string_def by (intro exI [of _ "[98, 111, 120]"]) simp
  then show "\<forall>q \<in> set ex_profiles. stored q" by (simp add: ex_profiles_def)
  show size: "object_size [73, 68] [1, 2, 3] ex_profiles \<le> 300"
    by (simp add: ex_profiles_def object_size_def profiles_size_def components_size_def own_code_sets_def)
  have "profiles_ok ex_profiles" using g
    by (simp add: ex_profiles_def profiles_ok_def components_ok_def own_code_sets_def code_set_ok_def)
  with size show "sendable [73, 68] [1, 2, 3] ex_profiles"
    by (simp add: sendable_def ex_profiles_def comparable_def)
qed

lemma ex_sent:
  obtains b where "marshal_reference ex_send_env (ex_reference ex_profiles (Some [1, 2, 3]) k) ex_reply = Some b"
    "accepts ex_input_env (length (payload ex_send_env b)) 8" "no_empty [Bytes (wire ex_send_env b)]"
    "tokens [Bytes (wire ex_send_env b)] = map Some (wire ex_send_env b)"
proof -
  note u = use_reply_builds [of "[]" ex_send_env GIOP_1_1 7 0, simplified, folded ex_reply_def]
  let ?o = "ex_reference ex_profiles (Some [1, 2, 3]) k"
  have g: "list_all profile_good ex_profiles"
    using ex_sendable(1) by (auto simp: sendable_def profiles_ok_def list_all_iff profile_ok_good)
  have l: "length (payload ex_send_env ex_reply) + 12 + object_size [73, 68] [1, 2, 3] ex_profiles < 2 ^ 32"
    using u(3) ex_sendable(3) by simp
  have w: "writer ex_send_env (marshal_reference ex_send_env ?o) (object_at [73, 68] [1, 2, 3] ex_profiles)
      (object_size [73, 68] [1, 2, 3] ex_profiles)"
    using writer_object [of ?o "[1, 2, 3]" ex_send_env] g sendable_nonempty [OF ex_sendable(1)]
    by (simp add: ex_reference_def)
  obtain b zs where b: "marshal_reference ex_send_env ?o ex_reply = Some b"
    "builds ex_send_env GIOP_1_1 GIOP_REPLY (payload ex_send_env ex_reply @ zs) b" "length zs \<le> object_size [73, 68] [1, 2, 3] ex_profiles"
    by (rule writerD [OF w u(1,2) l])
  then have "length (payload ex_send_env b) \<le> 1000" using u(3) ex_sendable(3) by (simp add: builds_def)
  moreover have "wire ex_send_env b \<noteq> []" using b(2) by (simp add: wire_builds header_bytes_def)
  ultimately show thesis using that [OF b(1) ex_accepts] by (simp add: no_empty_def)
qed

section \<open>Properties\<close>

text \<open>
  C8. A reference of one ORB, marshalled into a reply that is sent in reads of any size, becomes
  a reference of the ORB that receives it: with the same type id and key, and with its profiles
  as this ORB keeps them (\<open>as_received\<close>: the same but that an IIOP profile of version 1.0
  loses its components, which are not sent, so an SSL port in them is lost), entered in the
  table; and demarshalling the reference again gives this object again.
\<close>

theorem reference_roundtrip:
  assumes pool: "\<forall>b \<in> set sbl. pool_ok b" and obj: "ob_key obj = Some key" "sendable (ob_type obj) key (ob_profiles obj)"
    and m: "marshal_reference env obj (fst (giop_send_buffer_use_reply env sbl v rid status)) = Some b"
    and ac: "accepts renv (length (payload env b)) a" and st: "incoming_msg st = None"
    and q: "queued st = xs @ ent # ys" "\<forall>e \<in> set xs. \<not> (ent_request_id e = rid \<and> ent_msg_type e = GIOP_REPLY)"
    and ent: "ent_request_id ent = rid" "ent_msg_type ent = GIOP_REPLY" "ent_cnx ent = Some (cnx_id renv)"
    and rs: "no_empty rs" "tokens rs = map Some (wire env b)"
    and orb: "unknown_key orb key" "object_of orb (next_objref orb) = None"
  shows "\<exists>r orb' r'. fst (giop_connection_handle_input renv st rs) =
      st\<lparr>queued := xs @ ys, answered := ent\<lparr>ent_buffer := Some r\<rparr> # answered st\<rparr> \<and>
    ORBit_demarshal_object orb r = Some (Inr (Some (next_objref orb), orb', r')) \<and>
    object_of orb' (next_objref orb) = Some (reference_of (ob_type obj) key (ob_profiles obj)) \<and>
    ORBit_demarshal_object orb' r = Some (Inr (Some (next_objref orb), duplicate (next_objref orb) orb', r'))"
proof -
  obtain r p c where r: "fst (giop_connection_handle_input renv st rs) =
      st\<lparr>queued := xs @ ys, answered := ent\<lparr>ent_buffer := Some r\<rparr> # answered st\<rparr>"
    and d: "ORBit_demarshal_IOR r = Inr (Some (p, map (as_received key) (ob_profiles obj)), r\<lparr>rcur := c\<rparr>)"
    "c_string (r\<lparr>rcur := c\<rparr>) p = Inr (ob_type obj)"
    by (rule reference_heard [OF pool obj m ac st q ent rs])
  have k: "list_ex keyed (ob_profiles obj)" using obj(2) by (simp add: sendable_def)
  obtain orb' where f: "ORBit_objref_find orb (ob_type obj) (map (as_received key) (ob_profiles obj)) = Some (next_objref orb, orb')"
    "object_of orb' (next_objref orb) = Some (reference_of (ob_type obj) key (ob_profiles obj))" "entered orb' (next_objref orb) key"
    using find_unknown [OF orb sendable_nonempty [OF obj(2)] k] by force
  from demarshal_find [OF d f(1)] demarshal_find [OF d find_registered [OF f(3,2) obj(2)]] r f(2) show ?thesis by blast
qed

theorem reference_roundtrip_witness:
  "\<exists>b r orb' r'. marshal_reference ex_send_env (ex_reference ex_profiles (Some [1, 2, 3]) None) ex_reply = Some b \<and>
    fst (giop_connection_handle_input ex_input_env ex_state [Bytes (wire ex_send_env b)]) =
      ex_state\<lparr>queued := [], answered := [ex_entry\<lparr>ent_buffer := Some r\<rparr>]\<rparr> \<and>
    ORBit_demarshal_object (ex_orb None) r = Some (Inr (Some 0, orb', r'))"
proof -
  obtain b where b: "marshal_reference ex_send_env (ex_reference ex_profiles (Some [1, 2, 3]) None) ex_reply = Some b"
    "accepts ex_input_env (length (payload ex_send_env b)) 8" "no_empty [Bytes (wire ex_send_env b)]"
    "tokens [Bytes (wire ex_send_env b)] = map Some (wire ex_send_env b)" by (rule ex_sent)
  have k: "ob_key (ex_reference ex_profiles (Some [1, 2, 3]) None) = Some [1, 2, 3]"
    "sendable (ob_type (ex_reference ex_profiles (Some [1, 2, 3]) None)) [1, 2, 3]
       (ob_profiles (ex_reference ex_profiles (Some [1, 2, 3]) None))"
    using ex_sendable(1) by (simp_all add: ex_reference_def)
  have o: "unknown_key (ex_orb None) [1, 2, 3]" "object_of (ex_orb None) (next_objref (ex_orb None)) = None"
    by (simp_all add: unknown_key_def apart_def ex_orb_def)
  from reference_roundtrip [of "[]", OF _ k b(1) [unfolded ex_reply_def] b(2) _ _ _ _ _ _ b(3,4) o,
      of ex_state "[]" ex_entry "[]"] b(1)
  show ?thesis by (auto simp: ex_state_def ex_entry_def ex_input_env_def ex_orb_def)
qed

text \<open>
  C15. An object of this process whose reference goes out the first time is published with the
  profiles of the ORB and the key of its adaptor; when the reference comes home, it is the
  object itself, not a proxy.
\<close>

theorem own_reference_comes_home:
  assumes pool: "\<forall>b \<in> set sbl. pool_ok b"
    and obj: "object_of orb p = Some obj" "ob_profiles obj = []" "ob_key obj = None" "ob_adaptor obj = Some key"
    and own: "sendable (ob_type obj) key (own_profiles orb)" "\<forall>q \<in> set (own_profiles orb). stored q"
    and orb: "unknown_key orb key"
    and m: "ORBit_marshal_object env orb (Some p) (fst (giop_send_buffer_use_reply env sbl v rid status)) = Some (b, orb')"
    and ac: "accepts renv (length (payload env b)) a" and st: "incoming_msg st = None"
    and q: "queued st = xs @ ent # ys" "\<forall>e \<in> set xs. \<not> (ent_request_id e = rid \<and> ent_msg_type e = GIOP_REPLY)"
    and ent: "ent_request_id ent = rid" "ent_msg_type ent = GIOP_REPLY" "ent_cnx ent = Some (cnx_id renv)"
    and rs: "no_empty rs" "tokens rs = map Some (wire env b)"
  shows "\<exists>r r'. fst (giop_connection_handle_input renv st rs) =
      st\<lparr>queued := xs @ ys, answered := ent\<lparr>ent_buffer := Some r\<rparr> # answered st\<rparr> \<and>
    ORBit_demarshal_object orb' r = Some (Inr (Some p, duplicate p orb', r'))"
proof -
  let ?o = "IOP_generate_profiles (own_profiles orb) obj"
  let ?t = "case objrefs orb of None \<Rightarrow> [] | Some t \<Rightarrow> t"
  have o: "ob_key ?o = Some key" "ob_profiles ?o = own_profiles orb" "ob_type ?o = ob_type obj"
    using obj by (simp_all add: IOP_generate_profiles_def)
  have ne: "own_profiles orb \<noteq> []" by (rule sendable_nonempty [OF own(1)])
  have not_in: "\<forall>(k, v) \<in> set ?t. k \<noteq> p" using orb obj(1,3) by (fastforce simp: unknown_key_def apart_def)
  have ap: "apart (set_object p ?o orb) key ?t"
    using orb not_in by (fastforce simp: unknown_key_def apart_def set_object_def)
  have pub: "published orb p = Some ((set_object p ?o orb)\<lparr>objrefs := Some (?t @ [(p, p)])\<rparr>)"
    using insert_apart [OF ap o(1), of p] o ne obj(1,2)
    by (simp add: published_def ORBit_register_objref_def set_object_def)
  have orb': "orb' = (set_object p ?o orb)\<lparr>objrefs := Some (?t @ [(p, p)])\<rparr>"
    and mr: "marshal_reference env ?o (fst (giop_send_buffer_use_reply env sbl v rid status)) = Some b"
    using m by (auto simp: ORBit_marshal_object_def pub set_object_def)
  have obj': "object_of orb' p = Some ?o" by (simp add: orb' set_object_def)
  have "apart orb' key ?t" using ap by (simp add: apart_def orb')
  then have en: "entered orb' p key" unfolding entered_def by (intro exI [of _ ?t] exI [of _ "[]"]) (simp add: orb')
  have s: "sendable (ob_type ?o) key (ob_profiles ?o)" using own(1) by (simp add: o)
  obtain r p' c where r: "fst (giop_connection_handle_input renv st rs) =
      st\<lparr>queued := xs @ ys, answered := ent\<lparr>ent_buffer := Some r\<rparr> # answered st\<rparr>"
    and d: "ORBit_demarshal_IOR r = Inr (Some (p', map (as_received key) (ob_profiles ?o)), r\<lparr>rcur := c\<rparr>)"
    "c_string (r\<lparr>rcur := c\<rparr>) p' = Inr (ob_type ?o)"
    by (rule reference_heard [OF pool o(1) s mr ac st q ent rs])
  have "ORBit_objref_find orb' (ob_type ?o) (map (as_received key) (ob_profiles ?o)) = Some (p, duplicate p orb')"
    by (rule find_entered [OF en obj' o(1)]) (use own s in \<open>simp_all add: o sendable_def\<close>)
  from demarshal_find [OF d this] r show ?thesis by blast
qed

theorem own_reference_comes_home_witness:
  "\<exists>b orb' r r'. ORBit_marshal_object ex_send_env (ex_orb (Some (ex_reference [] None (Some [1, 2, 3])))) (Some 0) ex_reply = Some (b, orb') \<and>
    fst (giop_connection_handle_input ex_input_env ex_state [Bytes (wire ex_send_env b)]) =
      ex_state\<lparr>queued := [], answered := [ex_entry\<lparr>ent_buffer := Some r\<rparr>]\<rparr> \<and>
    ORBit_demarshal_object orb' r = Some (Inr (Some 0, duplicate 0 orb', r'))"
proof -
  let ?obj = "ex_reference [] None (Some [1, 2, 3])" let ?orb = "ex_orb (Some ?obj)"
  obtain b where b: "marshal_reference ex_send_env (ex_reference ex_profiles (Some [1, 2, 3]) (Some [1, 2, 3])) ex_reply = Some b"
    "accepts ex_input_env (length (payload ex_send_env b)) 8" "no_empty [Bytes (wire ex_send_env b)]"
    "tokens [Bytes (wire ex_send_env b)] = map Some (wire ex_send_env b)" by (rule ex_sent)
  have g: "IOP_generate_profiles ex_profiles ?obj = ex_reference ex_profiles (Some [1, 2, 3]) (Some [1, 2, 3])"
    by (simp add: IOP_generate_profiles_def ex_reference_def)
  have ne: "ex_profiles \<noteq> []" by (simp add: ex_profiles_def)
  obtain orb' where m: "ORBit_marshal_object ex_send_env ?orb (Some 0) ex_reply = Some (b, orb')"
    using b(1) g ne by (auto simp: ORBit_marshal_object_def published_def ex_orb_def ex_reference_def set_object_def
        ORBit_register_objref_def)
  have k: "object_of ?orb 0 = Some ?obj" "ob_profiles ?obj = []" "ob_key ?obj = None" "ob_adaptor ?obj = Some [1, 2, 3]"
    "sendable (ob_type ?obj) [1, 2, 3] (own_profiles ?orb)" "\<forall>q \<in> set (own_profiles ?orb). stored q" "unknown_key ?orb [1, 2, 3]"
    using ex_sendable(1,2) by (simp_all add: ex_reference_def ex_orb_def unknown_key_def apart_def)
  from own_reference_comes_home [of "[]", OF _ k m [unfolded ex_reply_def] b(2) _ _ _ _ _ _ b(3,4),
      of ex_state "[]" ex_entry "[]"] m
  show ?thesis by (auto simp: ex_state_def ex_entry_def ex_input_env_def)
qed

text \<open>
  C39. A reference with a type id but without a profile that holds a key ends the process that
  receives it: the assertion on the key of a new reference fails.
\<close>

theorem keyless_reference_aborts:
  assumes "ORBit_demarshal_IOR r = Inr (Some (p, ps), r')" "c_string r' p = Inr type"
    and "\<not> list_ex keyed ps"
  shows "ORBit_demarshal_object orb r = None"
proof -
  have c: "\<not> list_ex is_Complete_object_key cs \<Longrightarrow> sync_components None cs = Some (None, cs)" for cs
  proof (induction cs)
    case (Cons c cs)
    then show ?case by (cases c) simp_all
  qed simp
  have "sync_profiles None ps = Some (None, ps)" using assms(3)
  proof (induction ps)
    case (Cons q ps)
    then show ?case by (cases q) (simp_all add: c)
  qed simp
  then have s: "IOP_profiles_sync_objkey ps = Some (None, ps)" by (simp add: IOP_profiles_sync_objkey_def)
  have "ORBit_objref_find orb type ps = None"
    by (simp add: ORBit_objref_find_def s Let_def ORBit_lookup_objref_def new_reference_def ORBit_register_objref_def
        set_object_def split: option.split)
  then show ?thesis using assms(1,2) by (simp add: ORBit_demarshal_object_def)
qed

theorem keyless_reference_aborts_witness:
  "ORBit_demarshal_object (ex_orb None) (ex_reader False [2, 0, 0, 0, 65, 0, 0, 0, 0, 0, 0, 0]) = None"
proof (rule keyless_reference_aborts)
  show "ORBit_demarshal_IOR (ex_reader False [2, 0, 0, 0, 65, 0, 0, 0, 0, 0, 0, 0]) =
      Inr (Some (24, []), (ex_reader False [2, 0, 0, 0, 65, 0, 0, 0, 0, 0, 0, 0])\<lparr>rcur := 32\<rparr>)" by code_simp
  show "c_string ((ex_reader False [2, 0, 0, 0, 65, 0, 0, 0, 0, 0, 0, 0])\<lparr>rcur := 32\<rparr>) 24 = Inr [65]" by code_simp
qed simp

end
