(* ===== verification/Ior_Forward.thy ===== *)
theory Ior_Forward
  imports Ior_Wire
begin

text \<open>Connections of references that were forwarded.\<close>

section \<open>No place answers\<close>

lemma good_literal: "0 \<notin> set (chars s) \<Longrightarrow> length s < 100 \<Longrightarrow> good_string (c_literal s)"
  unfolding good_string_def c_literal_def by (intro exI [of _ "chars s"]) (simp add: chars_def)

lemma good_literals: "good_string (c_literal ''UNIX'')" "good_string (c_literal ''IPv4'')" "good_string [0]"
proof -
  show "good_string (c_literal ''UNIX'')" "good_string (c_literal ''IPv4'')"
    by (rule good_literal; simp add: chars_def)+
  show "good_string [0]" unfolding good_string_def by (intro exI [of _ "[]"]) simp
qed

lemma place_good:
  assumes "stored q" "IOP_profile_get_info ssl q = Some place"
  shows "good_string (pl_host place)" "good_string (pl_proto place)"
  using assms good_literals by (cases q; auto simp: Let_def split: if_splits option.splits IOP_Component_info.splits)+

lemma all_refused:
  assumes "\<forall>place. giop_connection_initiate tr place = None" "good_string (local_hostname tr)"
  shows "\<forall>q \<in> set qs. stored q \<Longrightarrow> object_of orb p = Some obj \<Longrightarrow> ob_connection obj = None \<Longrightarrow>
    \<exists>orb'. try_profiles tr p key qs uf orb = Some (None, orb') \<and> object_of orb' p = Some obj"
proof (induction qs arbitrary: uf orb)
  case Nil
  then show ?case by simp
next
  case (Cons q qs)
  then have st: "stored q" "\<forall>q \<in> set qs. stored q" by simp_all
  show ?case
  proof (cases "IOP_profile_get_info (link_ssl tr) q")
    case None
    then show ?thesis using Cons.IH [OF st(2) Cons.prems(2,3)] by simp
  next
    case (Some place)
    note g = place_good [OF st(1) Some]
    obtain l where l: "is_localhost tr (pl_host place) = Some l"
      using same_good [OF assms(2) g(1)] by (cases "pl_host place = []") (simp_all add: is_localhost_def)
    obtain u where u: "same_string (pl_proto place) (c_literal ''UNIX'') = Some u"
      using same_good [OF g(2) good_literals(1)] by blast
    have o: "object_of (set_object p (obj\<lparr>ob_connection := None\<rparr>) orb) p = Some obj"
      using Cons.prems(3) by (simp add: set_object_def)
    show ?thesis
      using Cons.IH [OF st(2) Cons.prems(2,3)] Cons.IH [OF st(2) o Cons.prems(3)] assms(1) Cons.prems(2)
      by (auto simp: Some l u Let_def split: bool.splits)
  qed
qed

section \<open>Keys that were taken away\<close>

lemma sync_bare_components: "sync_components None (map bare_component cs) = Some (None, map bare_component cs)"
proof (induction cs)
  case (Cons c cs)
  then show ?case by (cases c) simp_all
qed simp

lemma sync_bare: "sync_profiles None (map bare qs) = Some (None, map bare qs)"
proof (induction qs)
  case (Cons q qs)
  then show ?case by (cases q) (simp_all add: sync_bare_components)
qed simp

text \<open>
  C38. A reference was forwarded, and to no place of the forward a connection could even be begun
  (\<open>giop_connection_initiate\<close> returned null for all: names that do not resolve, a network that
  is not there, UNIX sockets that refuse at once; a TCP peer that refuses later is not meant, it
  leaves a connection in the reference). This try took the key out of the profiles of the
  forward and kept it nowhere; when a later try gets a connection to a place, the comparison of
  the keys follows a null pointer.
\<close>

theorem failed_forward_aborts:
  assumes obj: "object_of orb p = Some obj" "ob_connection obj = None" "ob_forward obj = map (as_received key) (q # qs)"
    and q: "is_Internet_iop q" "\<forall>r \<in> set (q # qs). profile_ok r"
    and down: "\<forall>place. giop_connection_initiate tr place = None" "good_string (local_hostname tr)"
    and up: "\<forall>place. giop_connection_initiate tr' place = Some c" "try_connection tr' c"
  shows "\<exists>orb'. ORBit_object_get_connection tr p orb = Some (None, orb') \<and> ORBit_object_get_connection tr' p orb' = None"
proof -
  let ?ps = "map (\<lambda>p. bare (as_received key p)) (q # qs)"
  have k: "list_ex keyed (q # qs)" using q(1) by (cases q) simp_all
  have s1: "IOP_profiles_sync_objkey (map (as_received key) (q # qs)) = Some (Some key, ?ps)"
    using sync_received [of None key "q # qs"] k by (simp add: IOP_profiles_sync_objkey_def del: list.map)
  have s2: "IOP_profiles_sync_objkey ?ps = Some (None, ?ps)"
    using sync_bare [of "map (as_received key) (q # qs)"] by (simp add: IOP_profiles_sync_objkey_def comp_def)
  have st: "\<forall>q \<in> set ?ps. stored q" using q(2) stored_ok by auto
  let ?o = "obj\<lparr>ob_forward := ?ps\<rparr>"
  have o: "object_of (set_object p ?o orb) p = Some ?o" "ob_connection ?o = None" using obj(2) by (simp_all add: set_object_def)
  obtain orb' where orb': "try_profiles tr p (Some key) ?ps False (set_object p ?o orb) = Some (None, orb')"
    "object_of orb' p = Some ?o" using all_refused [OF down st o] by blast
  have g1: "ORBit_object_get_connection tr p orb = Some (None, orb')"
    using obj s1 orb'(1) by (simp add: ORBit_object_get_connection_def del: list.map)
  have f: "ob_forward ?o \<noteq> []" "ob_forward ?o = ?ps" by simp_all
  obtain v h port cs where q': "bare (as_received key q) = Internet_iop v h port None cs" using q(1) by (cases q) simp_all
  have "\<exists>place. IOP_profile_get_info (link_ssl tr') (bare (as_received key q)) = Some place"
    unfolding q' by (auto simp: Let_def split: option.split IOP_Component_info.split)
  then obtain place where place: "IOP_profile_get_info (link_ssl tr') (bare (as_received key q)) = Some place" by blast
  have "try_profiles tr' p None ?ps False orb2 = None" if "object_of orb2 p = Some x" for orb2 x
    using up by (simp add: place that Let_def adopt_key_def set_object_def split: option.split)
  then have "try_profiles tr' p None ?ps False (set_object p (?o\<lparr>ob_forward := ?ps\<rparr>) orb') = None"
    by (simp add: set_object_def)
  then have "ORBit_object_get_connection tr' p orb' = None"
    using orb'(2) o(2) f s2 by (simp add: ORBit_object_get_connection_def del: list.map try_profiles.simps)
  with g1 show ?thesis by blast
qed

definition ex_transport :: "bool \<Rightarrow> transport" where
  "ex_transport up = \<lparr>giop_connection_initiate = (\<lambda>place. if up then Some 5 else None), try_connection = (\<lambda>c. True),
     use_unix = True, use_ip = True, link_ssl = False, local_hostname = [98, 0]\<rparr>"

theorem failed_forward_aborts_witness:
  "\<exists>orb'. ORBit_object_get_connection (ex_transport False) 0
      (ex_orb (Some ((ex_reference ex_profiles (Some [9]) None)\<lparr>ob_forward := map (as_received [1, 2, 3]) ex_profiles\<rparr>))) = Some (None, orb') \<and>
    ORBit_object_get_connection (ex_transport True) 0 orb' = None"
proof -
  have ps: "ex_profiles = hd ex_profiles # tl ex_profiles" "is_Internet_iop (hd ex_profiles)" by (simp_all add: ex_profiles_def)
  have ok: "\<forall>r \<in> set (hd ex_profiles # tl ex_profiles). profile_ok r"
    using ex_sendable(1) unfolding ps(1) [symmetric] by (simp add: sendable_def profiles_ok_def list_all_iff)
  have g: "good_string [98, 0]" unfolding good_string_def by (intro exI [of _ "[98]"]) simp
  show ?thesis
    by (rule failed_forward_aborts [OF _ _ _ ps(2) ok, where c = 5 and key = "[1, 2, 3]"
        and obj = "(ex_reference ex_profiles (Some [9]) None)\<lparr>ob_forward := map (as_received [1, 2, 3]) ex_profiles\<rparr>"])
      (use g in \<open>simp_all add: ex_orb_def ex_reference_def ex_transport_def ex_profiles_def\<close>)
qed

end
