(* ===== verification/Ior_Url.thy ===== *)
theory Ior_Url
  imports Ior_Corbaloc
begin

text \<open>
  Printing a reference as a corbaloc URL and parsing it again: the round trip for a
  reference with one profile that can be printed, and its failure for one with two.
\<close>

section \<open>Characters\<close>

lemma ch_codes: "ch CHR ''/'' = 47" "ch CHR '':'' = 58" "ch CHR '','' = 44" "ch CHR ''@'' = 64" "ch CHR ''%'' = 37"
  "ch CHR ''i'' = 105" "ch CHR ''s'' = 115" "ch CHR ''u'' = 117"
  by (simp_all add: ch_def)

lemma chars_codes: "chars ''corbaloc:'' = [99, 111, 114, 98, 97, 108, 111, 99, 58]"
  "chars ''iiop:'' = [105, 105, 111, 112, 58]" "chars ''iiops:'' = [105, 105, 111, 112, 115, 58]"
  "chars ''ssliop:'' = [115, 115, 108, 105, 111, 112, 58]" "chars ''uiop:'' = [117, 105, 111, 112, 58]"
  "chars '':'' = [58]" "chars ''/'' = [47]" "chars '','' = [44]" "chars ''@'' = [64]"
  "chars ''1.0'' = [49, 46, 48]" "chars ''1.1'' = [49, 46, 49]" "chars ''1.2'' = [49, 46, 50]"
  by (simp_all add: chars_def)

lemma strchr_simps [simp]:
  "c \<notin> set a \<Longrightarrow> before c (a @ c # b) = a" "c \<notin> set a \<Longrightarrow> behind c (a @ c # b) = b"
  by (induction a) (auto simp: before_def behind_def)

lemma strrchr_simps [simp]:
  "c \<notin> set b \<Longrightarrow> before_last c (a @ c # b) = a" "c \<notin> set b \<Longrightarrow> behind_last c (a @ c # b) = b"
  by (simp_all add: before_last_def behind_last_def)

lemma split_parts_none: "c \<notin> set s \<Longrightarrow> split_parts c part s = [part @ s]"
  by (induction s arbitrary: part) auto

lemma split_parts_first: "c \<notin> set a \<Longrightarrow> split_parts c part (a @ c # s) = (part @ a) # split_parts c [] s"
  by (induction a arbitrary: part) auto

section \<open>Numbers\<close>

lemma digit_code:
  assumes "k < 10"
  shows "unat (of_nat (48 + k) :: byte) = 48 + k" "uint (of_nat (48 + k) :: byte) = int (48 + k)"
proof -
  show u: "unat (of_nat (48 + k) :: byte) = 48 + k" using assms by (simp only: unat_of_nat) simp
  show "uint (of_nat (48 + k) :: byte) = int (48 + k)" unfolding uint_nat u ..
qed

lemma decimal_digits: "list_all isdigit (decimal n)"
proof (induction n rule: decimal.induct)
  case (1 n)
  have d: "isdigit (of_nat (48 + k))" if "k < 10" for k :: nat
    using digit_code(1) [OF that] that by (simp add: isdigit_def word_le_nat_alt)
  show ?case using 1 d [of n] d [of "n mod 10"] by (subst decimal.simps) auto
qed

lemma decimal_not_Nil [simp]: "decimal n \<noteq> []"
  by (subst decimal.simps) auto

lemma digits_value_snoc: "digits_value (s @ [d]) = 10 * digits_value s + (uint d - 48)"
  by (simp add: digits_value_def)

lemma digits_value_decimal: "digits_value (decimal n) = int n"
proof (induction n rule: decimal.induct)
  case (1 n)
  show ?case
  proof (cases "n < 10")
    case True
    then have "decimal n = [of_nat (48 + n)]" by (subst decimal.simps) simp
    then have "digits_value (decimal n) = uint (of_nat (48 + n) :: byte) - 48" by (simp only: digits_value_def foldl_Cons foldl_Nil)
    then show ?thesis unfolding digit_code(2) [OF True] by simp
  next
    case False
    then have "decimal n = decimal (n div 10) @ [of_nat (48 + n mod 10)]" by (subst decimal.simps) simp
    then have "digits_value (decimal n) = 10 * int (n div 10) + int (n mod 10)"
      using digit_code(2) [of "n mod 10"] 1 [OF False] by (simp only: digits_value_snoc)
    also have "\<dots> = int n" by (simp flip: of_nat_mult of_nat_add add: zdiv_int zmod_int)
    finally show ?thesis .
  qed
qed

lemma digit_facts:
  assumes "isdigit b"
  shows "b \<noteq> 32" "\<not> (9 \<le> b \<and> b \<le> 13)" "b \<noteq> 45" "b \<noteq> 43" "b \<noteq> 47" "b \<noteq> 58" "b \<noteq> 44"
  using assms by (auto simp: isdigit_def word_le_nat_alt)

lemma atoi_digits:
  assumes "list_all isdigit s" "digits_value s < 2 ^ 31" "0 \<le> digits_value s" "s \<noteq> []"
  shows "atoi s = digits_value s"
proof -
  obtain d r where s: "s = d # r" using assms(4) by (cases s) auto
  then have d: "isdigit d" using assms(1) by simp
  have "\<not> (d = 32 \<or> 9 \<le> d \<and> d \<le> 13)" using digit_facts(1,2) [OF d] by blast
  then have w: "dropWhile (\<lambda>b. b = 32 \<or> 9 \<le> b \<and> b \<le> 13) s = s"
    unfolding s dropWhile.simps by (simp only: if_False)
  have t: "takeWhile isdigit s = s" using assms(1) by (simp add: list_all_iff)
  have "sint (word_of_int (saturated (digits_value s)) :: u32) = digits_value s"
    using assms(2,3) by (simp add: saturated_def signed_of_int signed_take_bit_int_eq_self)
  moreover have "atoi s = sint (word_of_int (saturated (digits_value (takeWhile isdigit s))) :: u32)"
    using digit_facts(3,4) [OF d] unfolding atoi_def w Let_def unfolding s by simp
  ultimately show ?thesis by (simp add: t)
qed

lemma atoi_decimal: "n < 2 ^ 31 \<Longrightarrow> atoi (decimal n) = int n"
  using atoi_digits [OF decimal_digits, of n] by (simp add: digits_value_decimal)

lemma port_of_decimal: "port_of (decimal (unat p)) = Some p" for p :: u16
proof -
  have u: "unat p < 65536" using unsigned_less [of p] by simp
  then have "atoi (decimal (unat p)) = int (unat p)" by (intro atoi_decimal) simp
  moreover have "\<not> int (unat p) > 65535" using u by linarith
  moreover have "word_of_int (int (unat p)) = p" by (metis uint_nat word_of_int_uint)
  ultimately show ?thesis unfolding port_of_def using decimal_digits by (simp del: of_nat_unat)
qed

lemma no_digit: "\<not> list_all isdigit s \<Longrightarrow> port_of s = None"
  by (simp add: port_of_def)

lemma decimal_free: "47 \<notin> set (decimal n)" "58 \<notin> set (decimal n)" "44 \<notin> set (decimal n)"
  using decimal_digits [of n] digit_facts(5-7) unfolding list_all_iff by blast+

section \<open>Keys\<close>

lemma nibbles: "push_bit 4 (drop_bit 4 b) OR (b AND 15) = b" for b :: byte
proof -
  have m: "(15 :: byte) = mask 4" by (simp add: mask_eq_exp_minus_1)
  show ?thesis unfolding m by (rule bit_word_eqI) (auto simp: bit_simps)
qed

lemma nibble_bounds: "drop_bit 4 b < (16 :: byte)" "b AND 15 < (16 :: byte)"
proof -
  have "unat (drop_bit 4 b) = drop_bit 4 (take_bit LENGTH(8) (unat b))" by (rule unsigned_drop_bit_eq)
  also have "\<dots> = unat b div 16"
    using unsigned_less [of b, where 'a = nat] by (simp add: take_bit_eq_mod drop_bit_eq_div)
  finally have "unat (drop_bit 4 b) = unat b div 16" .
  moreover have "unat b < 256" using unsigned_less [of b] by simp
  ultimately show "drop_bit 4 b < (16 :: byte)" unfolding word_less_nat_alt by simp
  have "b AND 15 \<le> 15" by (rule word_and_le1)
  then show "b AND 15 < (16 :: byte)" by (rule order_le_less_trans) simp
qed

lemma all_nibbles:
  assumes "list_all P (map of_nat [0..<16])" and "m < (16 :: byte)"
  shows "P m"
proof -
  have "unat m < 16" using assms(2) by (simp add: word_less_nat_alt)
  then have "m \<in> set (map of_nat [0..<16])" unfolding set_map set_upt by (intro image_eqI [of _ _ "unat m"]) simp_all
  then show ?thesis using assms(1) unfolding list_all_iff by blast
qed

lemma xdigit_hexdigit: "n < 16 \<Longrightarrow> xdigit_value (hexdigit n) = Some n"
  by (rule all_nibbles [where P = "\<lambda>n. xdigit_value (hexdigit n) = Some n"]) code_simp

lemma hexdigit_free: "n < 16 \<Longrightarrow> hexdigit n \<noteq> 47 \<and> hexdigit n \<noteq> 44 \<and> hexdigit n \<noteq> 58 \<and> hexdigit n \<noteq> 0"
  by (rule all_nibbles [where P = "\<lambda>n. hexdigit n \<noteq> 47 \<and> hexdigit n \<noteq> 44 \<and> hexdigit n \<noteq> 58 \<and> hexdigit n \<noteq> 0"]) code_simp

lemma decode_encode: "orbit_url_decode (url_encode key) = Some key"
  by (induction key) (simp_all add: url_encode_def hex2_def xdigit_hexdigit nibble_bounds nibbles)

lemma url_encode_free: "47 \<notin> set (url_encode key)" "44 \<notin> set (url_encode key)" "58 \<notin> set (url_encode key)"
  using hexdigit_free [OF nibble_bounds(1)] hexdigit_free [OF nibble_bounds(2)]
  by (auto simp: url_encode_def hex2_def ch_codes)

lemma url_encode_not_Nil: "key \<noteq> [] \<Longrightarrow> url_encode key \<noteq> []"
  by (cases key) (simp_all add: url_encode_def)

section \<open>Round trip\<close>

text \<open>
  What of a profile survives: its components are lost, but for the port of an SSL component,
  which comes back with fixed options.
\<close>

fun from_url :: "ORBit_ObjectKey \<Rightarrow> IOP_Profile_info \<Rightarrow> IOP_Profile_info" where
  "from_url key (Internet_iop v h p k cs) =
     (case get_ssl_component cs of
        Some (Ssl_sec_trans _ _ sp) \<Rightarrow> Internet_iop v h 0 (Some key) [corbaloc_ssl sp]
      | _ \<Rightarrow> Internet_iop v h p (Some key) [])"
| "from_url key (Orbit_specific u p k) = Orbit_specific u p (Some key)"
| "from_url key p = p"

text \<open>Hosts and paths that the syntax can hold; a path is absolute.\<close>

fun url_ok :: "IOP_Profile_info \<Rightarrow> bool" where
  "url_ok (Internet_iop v h p k cs) \<longleftrightarrow>
     (let host = butlast h in
        h = host @ [0] \<and> host \<noteq> [] \<and> 0 \<notin> set host \<and> 58 \<notin> set host \<and> 44 \<notin> set host) \<and>
     (case get_ssl_component cs of Some (Ssl_sec_trans _ _ sp) \<Rightarrow> v \<noteq> GIOP_1_0 \<and> sp \<noteq> 0 | _ \<Rightarrow> True)"
| "url_ok (Orbit_specific u p k) \<longleftrightarrow>
     (let path = tl (butlast u) in
        u = 47 # path @ [0] \<and> (path \<noteq> [] \<longrightarrow> hd path \<noteq> 47) \<and> 0 \<notin> set path \<and> 44 \<notin> set path)"
| "url_ok _ \<longleftrightarrow> False"

definition printable :: "IOP_Profile_info \<Rightarrow> bool" where
  "printable p \<longleftrightarrow> is_Internet_iop p \<or> is_Orbit_specific p"

lemma starts_simps: "starts p (chars q @ s) = (take (length p) (chars q @ s) = chars p)"
  by (simp add: starts_def)

lemma corbaloc_version_str: "corbaloc_version (chars (giop_version_str v)) = Some v"
  by (cases v) (simp_all add: corbaloc_version_def starts_def chars_codes)

lemma version_str: "chars (giop_version_str v) \<noteq> []" "64 \<notin> set (chars (giop_version_str v))"
  "58 \<notin> set (chars (giop_version_str v))" "44 \<notin> set (chars (giop_version_str v))"
  "47 \<notin> set (chars (giop_version_str v))"
  by (cases v; simp add: chars_codes)+

text \<open>The two addresses that \<open>profile_text\<close> prints, without key.\<close>

definition iiop_address :: "bool \<Rightarrow> GIOPVersion \<Rightarrow> byte list \<Rightarrow> u16 \<Rightarrow> byte list" where
  "iiop_address ssl v h p = chars (if ssl then ''ssliop:'' else ''iiop:'') @ chars (giop_version_str v) @ chars ''@'' @ h @
     chars '':'' @ decimal (unat p)"

definition uiop_address :: "byte list \<Rightarrow> u16 \<Rightarrow> byte list" where
  "uiop_address s p = chars ''uiop:'' @ s @ chars '':'' @ (if p \<noteq> 0 then decimal (unat p) else [])"

lemma parse_iiop:
  assumes "h \<noteq> []" "58 \<notin> set h" "r = decimal (unat p)"
  shows "corbaloc_profile_iiop_parse (iiop_address ssl v h p) = Some (v, h, p, ssl)"
proof -
  let ?ver = "chars (giop_version_str v)"
  have s: "iiop_address ssl v h p = (if ssl then [115, 115, 108, 105, 111, 112] else [105, 105, 111, 112]) @ 58 # ?ver @ 64 # h @ 58 # decimal (unat p)"
    by (simp add: iiop_address_def chars_codes)
  have b: "behind 58 (iiop_address ssl v h p) = ?ver @ 64 # h @ 58 # decimal (unat p)"
    unfolding s by (rule strchr_simps) simp
  have "hd ?ver \<noteq> 47" using version_str(1,5) [of v] hd_in_set by fastforce
  then have d: "dropWhile (\<lambda>b. b = 47) (?ver @ 64 # h @ 58 # decimal (unat p)) = ?ver @ 64 # h @ 58 # decimal (unat p)"
    using version_str(1) [of v] by (cases ?ver) auto
  have st: "starts ''iiop:'' (iiop_address ssl v h p) \<longleftrightarrow> \<not> ssl" "\<not> starts '':'' (iiop_address ssl v h p)"
    "starts ''ssliop:'' (iiop_address ssl v h p) \<longleftrightarrow> ssl"
    by (simp_all add: starts_def iiop_address_def chars_codes)
  show ?thesis
    unfolding corbaloc_profile_iiop_parse_def ch_codes st b d Let_def
    using assms version_str(1,2) [of v] corbaloc_version_str [of v] port_of_decimal [of p] by (simp add: st)
qed

text \<open>\<open>rest\<close> is the part behind the path.\<close>

lemma split_path:
  assumes "path = [] \<or> hd path \<noteq> 47" "58 \<notin> set rest"
  shows "corbaloc_profile_uiop_parse (chars ''uiop:'' @ 47 # path @ 58 # rest) =
    map_option (\<lambda>p. (47 # path, p)) (if rest = [] then Some 0 else port_of rest)"
proof -
  let ?t = "chars ''uiop:'' @ 47 # path @ 58 # rest"
  have s: "?t = [117, 105, 111, 112] @ 58 # (47 # path @ 58 # rest)" by (simp add: chars_codes)
  have b: "behind 58 ?t = 47 # path @ 58 # rest" unfolding s by (rule strchr_simps) simp
  have d: "dropWhile (\<lambda>b. b = 47) (47 # path @ 58 # rest) = path @ 58 # rest" using assms(1) by (cases path) auto
  have st: "starts ''uiop:'' ?t" "starts ''/'' (47 # path @ 58 # rest)" by (simp_all add: starts_def chars_codes)
  have l: "behind_last 58 (47 # path @ 58 # rest) = rest" "before_last 58 (47 # path @ 58 # rest) = 47 # path"
    using strrchr_simps [OF assms(2), of "47 # path"] by simp_all
  show ?thesis
    unfolding corbaloc_profile_uiop_parse_def ch_codes b Let_def d if_P [OF st(2)] l
    by (simp add: st split: option.split)
qed

lemma parse_uiop:
  assumes "path = [] \<or> hd path \<noteq> 47"
  shows "corbaloc_profile_uiop_parse (uiop_address (47 # path) p) = Some (47 # path, p)"
proof -
  have "58 \<notin> set (if p \<noteq> 0 then decimal (unat p) else [])" using decimal_free by simp
  from split_path [OF assms this] show ?thesis
    by (simp add: uiop_address_def chars_codes(6) port_of_decimal)
qed

text \<open>The text of a profile is its address, a slash and the key.\<close>

definition address :: "IOP_Profile_info \<Rightarrow> byte list" where
  "address p = (case p of
     Internet_iop v h port k cs \<Rightarrow> (case get_ssl_component cs of
         Some (Ssl_sec_trans _ _ sp) \<Rightarrow> iiop_address True v (butlast h) sp
       | _ \<Rightarrow> iiop_address False v (butlast h) port)
   | Orbit_specific u port k \<Rightarrow> uiop_address (butlast u) port
   | _ \<Rightarrow> [])"

lemma ssl_component: "get_ssl_component cs = Some c \<Longrightarrow> \<exists>s r p. c = Ssl_sec_trans s r p"
  by (auto simp: get_ssl_component_def find_Some_iff is_Ssl_sec_trans_def)

lemma text_address:
  assumes "url_ok p"
  shows "profile_text key p = Some (Some (address p @ 47 # url_encode key))"
proof (cases p)
  case (Internet_iop v h port k cs)
  then obtain host where h: "h = host @ [0]" "0 \<notin> set host" using assms by (auto simp: Let_def)
  then have "printed h = Some host" by (simp add: printed_def)
  then show ?thesis
    using assms h(1) ssl_component [of cs]
    by (cases "get_ssl_component cs") (auto simp: Internet_iop address_def iiop_address_def chars_codes)
next
  case (Orbit_specific u port k)
  then obtain path where h: "u = 47 # path @ [0]" "0 \<notin> set path" using assms by (auto simp: Let_def)
  then have "printed u = Some (47 # path)" using c_str_terminated [of "47 # path"] by (simp add: printed_def)
  then show ?thesis
    by (simp add: Orbit_specific address_def uiop_address_def chars_codes h(1) butlast_append)
qed (use assms in simp_all)

lemma address_facts:
  assumes "url_ok p"
  shows "44 \<notin> set (address p)" "address p \<noteq> []" "corbaloc_token key (address p) = Some (from_url key p)"
proof -
  have "44 \<notin> set (address p) \<and> address p \<noteq> [] \<and> corbaloc_token key (address p) = Some (from_url key p)"
  proof (cases p)
    case (Internet_iop v h port k cs)
    then obtain host where h: "h = host @ [0]" "host \<noteq> []" "58 \<notin> set host" "44 \<notin> set host" using assms by (auto simp: Let_def)
    have f: "44 \<notin> set (iiop_address ssl v host q)" "iiop_address ssl v host q \<noteq> []"
      "hd (iiop_address ssl v host q) = (if ssl then 115 else 105)" for ssl q
      using h(4) decimal_free version_str(4) [of v] by (auto simp: iiop_address_def chars_codes)
    have t: "corbaloc_token key (iiop_address ssl v host q) = corbaloc_profile_iiop (iiop_address ssl v host q) key" for ssl q
      using f by (simp add: corbaloc_token_def ch_codes)
    note pr = parse_iiop [OF h(2,3) refl, of _ v]
    show ?thesis
    proof (cases "get_ssl_component cs")
      case None
      then have "address p = iiop_address False v host port" by (simp add: Internet_iop address_def h(1))
      then show ?thesis using f by (simp add: t corbaloc_profile_iiop_def pr Internet_iop None h(1))
    next
      case (Some c)
      then obtain a b sp where c: "c = Ssl_sec_trans a b sp" using ssl_component by blast
      have a: "address p = iiop_address True v host sp" by (simp add: Internet_iop address_def h(1) Some c)
      have "v \<noteq> GIOP_1_0" using assms by (simp add: Internet_iop Some c)
      then have "\<not> version_less v GIOP_1_1" by (cases v) simp_all
      then show ?thesis unfolding a using f by (simp add: t corbaloc_profile_iiop_def pr Internet_iop Some c h(1))
    qed
  next
    case (Orbit_specific u port k)
    then obtain path where h: "u = 47 # path @ [0]" "path = [] \<or> hd path \<noteq> 47" "44 \<notin> set path" using assms by (auto simp: Let_def)
    have a: "address p = uiop_address (47 # path) port" by (simp add: Orbit_specific address_def h(1) butlast_append)
    have f: "44 \<notin> set (uiop_address (47 # path) port)" "uiop_address (47 # path) port \<noteq> []"
      "hd (uiop_address (47 # path) port) = 117"
      using h(3) decimal_free by (auto simp: uiop_address_def chars_codes)
    then have "corbaloc_token key (uiop_address (47 # path) port) = corbaloc_profile_uiop (uiop_address (47 # path) port) key"
      by (simp add: corbaloc_token_def ch_codes)
    then show ?thesis unfolding a using f by (simp add: corbaloc_profile_uiop_def parse_uiop [OF h(2)] Orbit_specific h(1))
  qed (use assms in simp_all)
  then show "44 \<notin> set (address p)" "address p \<noteq> []" "corbaloc_token key (address p) = Some (from_url key p)" by blast+
qed

lemma texts_skip:
  assumes "\<forall>q \<in> set ps. \<not> printable q"
  shows "profile_texts key first ps = Some []"
  using assms
proof (induction ps)
  case (Cons q ps)
  then have "profile_text key q = Some None" by (cases q) (auto simp: printable_def)
  then show ?case using Cons by simp
qed simp

lemma texts_filter: "filter printable ps = qs \<Longrightarrow> profile_texts key first ps = profile_texts key first qs"
proof (induction ps arbitrary: qs first)
  case (Cons p ps)
  show ?case
  proof (cases "printable p")
    case True
    then show ?thesis using Cons.IH [OF refl] Cons.prems by (auto split: option.splits)
  next
    case False
    then have "profile_text key p = Some None" by (cases p) (auto simp: printable_def)
    then show ?thesis using Cons False by simp
  qed
qed simp

lemma starts_prefix: "starts ''corbaloc:'' (chars ''corbaloc:'' @ s)" "drop 9 (chars ''corbaloc:'' @ s) = s"
  by (simp_all add: starts_def chars_codes)

lemma parse_text:
  assumes "loc = a @ 47 # url_encode key" "key \<noteq> []"
  shows "ORBit_corbaloc_parse (chars ''corbaloc:'' @ loc) =
    (case all_parsed (map (corbaloc_token key) (g_strsplit 44 a)) of None \<Rightarrow> [] | Some ps \<Rightarrow> ps)"
proof -
  have l: "behind_last 47 loc = url_encode key" "before_last 47 loc = a"
    unfolding assms(1) by (rule strrchr_simps [OF url_encode_free(1)])+
  have "47 \<in> set loc" "47 \<in> set (chars ''corbaloc:'' @ loc)" by (simp_all add: assms(1))
  then show ?thesis
    using url_encode_not_Nil [OF assms(2)]
    unfolding ORBit_corbaloc_parse_def starts_prefix ch_codes Let_def if_P [OF starts_prefix(1)] l by (simp add: decode_encode)
qed

lemma corbaloc_text:
  assumes "filter printable ps = qs" "qs \<noteq> []"
  shows "ORBit_corbaloc_from ps key = map_option (\<lambda>t. Some (chars ''corbaloc:'' @ t)) (profile_texts key True qs)"
proof -
  have "as_corbaloc ps"
    using assms filter_empty_conv [of printable ps] by (auto simp: as_corbaloc_def printable_def list_ex_iff)
  then show ?thesis by (simp add: ORBit_corbaloc_from_def texts_filter [OF assms(1)])
qed

text \<open>
  C27. A reference with one profile that a URL can hold is printed as a URL, and parsing the
  URL gives this profile back with the object key; components other than SSL are lost.
\<close>

theorem corbaloc_roundtrip:
  assumes "filter printable ps = [p]" "url_ok p" "key \<noteq> []"
  shows "\<exists>url. ORBit_corbaloc_from ps key = Some (Some url) \<and> ORBit_corbaloc_parse url = [from_url key p]"
proof -
  note f = address_facts [OF assms(2)]
  have "ORBit_corbaloc_from ps key = Some (Some (chars ''corbaloc:'' @ address p @ 47 # url_encode key))"
    unfolding corbaloc_text [OF assms(1) list.distinct(2)] by (simp add: text_address [OF assms(2)])
  moreover have "ORBit_corbaloc_parse (chars ''corbaloc:'' @ address p @ 47 # url_encode key) = [from_url key p]"
    unfolding parse_text [OF refl assms(3)] using f by (simp add: g_strsplit_def split_parts_none)
  ultimately show ?thesis by blast
qed

theorem corbaloc_roundtrip_witness:
  "\<exists>url. ORBit_corbaloc_from [Internet_iop GIOP_1_2 [98, 111, 120, 0] 2809 None [], Multiple_components []] [1, 0xAB] =
      Some (Some url) \<and>
    ORBit_corbaloc_parse url = [Internet_iop GIOP_1_2 [98, 111, 120, 0] 2809 (Some [1, 0xAB]) []]"
  using corbaloc_roundtrip [of "[Internet_iop GIOP_1_2 [98, 111, 120, 0] 2809 None [], Multiple_components []]"
      "Internet_iop GIOP_1_2 [98, 111, 120, 0] 2809 None []" "[1, 0xAB]"]
  by (simp add: printable_def get_ssl_component_def)

lemma port_with_key:
  "port_of (xs @ 47 # ys) = None"
  by (rule no_digit) (simp add: isdigit_def)

text \<open>The part before the first comma is an address with a slash and a key behind it.\<close>

lemma token_with_key:
  assumes "url_ok p"
  shows "corbaloc_token key (address p @ 47 # url_encode key) = None"
proof (cases p)
  case (Internet_iop v h port k cs)
  then obtain host where h: "h = host @ [0]" "host \<noteq> []" "58 \<notin> set host" using assms by (auto simp: Let_def)
  obtain ssl q where a: "address p = iiop_address ssl v host q"
    using ssl_component [of cs] by (cases "get_ssl_component cs") (auto simp: Internet_iop address_def h(1))
  let ?t = "address p @ 47 # url_encode key" and ?ver = "chars (giop_version_str v)"
  have s: "?t = (if ssl then [115, 115, 108, 105, 111, 112] else [105, 105, 111, 112]) @
      58 # (?ver @ 64 # host @ 58 # decimal (unat q) @ 47 # url_encode key)"
    by (simp add: a iiop_address_def chars_codes)
  have b: "behind 58 ?t = ?ver @ 64 # host @ 58 # decimal (unat q) @ 47 # url_encode key"
    unfolding s by (rule strchr_simps) simp
  have "hd ?ver \<noteq> 47" using version_str(1,5) [of v] hd_in_set by fastforce
  then have d: "dropWhile (\<lambda>b. b = 47) (?ver @ 64 # host @ 58 # decimal (unat q) @ 47 # url_encode key) =
      ?ver @ 64 # host @ 58 # decimal (unat q) @ 47 # url_encode key"
    using version_str(1) [of v] by (cases ?ver) auto
  have "corbaloc_profile_iiop_parse ?t = None"
    unfolding corbaloc_profile_iiop_parse_def ch_codes b d Let_def
    using h(3) version_str(2) [of v] by (simp add: port_with_key)
  then show ?thesis by (simp add: corbaloc_token_def corbaloc_profile_iiop_def a iiop_address_def chars_codes ch_codes)
next
  case (Orbit_specific u port k)
  then obtain path where h: "u = 47 # path @ [0]" "path = [] \<or> hd path \<noteq> 47" using assms by (auto simp: Let_def)
  let ?port = "(if port \<noteq> 0 then decimal (unat port) else []) @ 47 # url_encode key"
  have t: "address p @ 47 # url_encode key = chars ''uiop:'' @ 47 # path @ 58 # ?port"
    by (simp add: Orbit_specific address_def h(1) butlast_append uiop_address_def chars_codes(6))
  have "58 \<notin> set ?port" using decimal_free url_encode_free by auto
  from split_path [OF h(2) this] have "corbaloc_profile_uiop_parse (address p @ 47 # url_encode key) =
      map_option (\<lambda>p. (47 # path, p)) (if ?port = [] then Some 0 else port_of ?port)"
    unfolding t .
  then have "corbaloc_profile_uiop_parse (address p @ 47 # url_encode key) = None"
    by (simp add: port_with_key)
  then show ?thesis unfolding t by (simp add: corbaloc_token_def corbaloc_profile_uiop_def chars_codes(5) ch_codes)
qed (use assms in simp_all)

text \<open>
  C40. A reference with two or more profiles that a URL can hold (as every ORB that listens on
  TCP and UNIX sockets makes it) is printed as a URL that the parser refuses: the key is
  printed behind each address, and the parser expects it once.
\<close>

theorem corbaloc_of_two_profiles_refused:
  assumes "filter printable ps = p # q # qs" "\<forall>r \<in> set (p # q # qs). url_ok r" "key \<noteq> []"
  shows "\<exists>url. ORBit_corbaloc_from ps key = Some (Some url) \<and> ORBit_corbaloc_parse url = []"
proof -
  have rest: "\<exists>a. profile_texts key first (r # rs) = Some ((if first then [] else [44]) @ a @ 47 # url_encode key)"
    if "\<forall>x \<in> set (r # rs). url_ok x" for r rs first
    using that
  proof (induction rs arbitrary: r first)
    case Nil
    then show ?case by (intro exI [of _ "address r"]) (simp add: text_address chars_codes)
  next
    case (Cons x xs)
    then obtain a where "profile_texts key False (x # xs) = Some (44 # a @ 47 # url_encode key)"
      using Cons.IH [of x False] by auto
    then show ?case using Cons.prems
      by (intro exI [of _ "address r @ 47 # url_encode key @ 44 # a"])
        (simp add: text_address chars_codes del: profile_texts.simps, simp add: text_address chars_codes)
  qed
  obtain a where a: "profile_texts key False (q # qs) = Some (44 # a @ 47 # url_encode key)"
    using rest [of q qs False] assms(2) by auto
  let ?first = "address p @ 47 # url_encode key"
  have p: "url_ok p" using assms(2) by simp
  have t: "profile_texts key True (p # q # qs) = Some ((?first @ 44 # a) @ 47 # url_encode key)"
    using a by (simp only: profile_texts.simps(2) [of key True p] text_address [OF p]) simp
  have nc: "44 \<notin> set ?first" using address_facts(1) [OF p] url_encode_free(2) by auto
  have "ORBit_corbaloc_parse (chars ''corbaloc:'' @ (?first @ 44 # a) @ 47 # url_encode key) = []"
    unfolding parse_text [OF refl assms(3)]
    by (simp only: g_strsplit_def split_parts_first [OF nc]) (simp add: token_with_key [OF p])
  then show ?thesis unfolding corbaloc_text [OF assms(1) list.distinct(2)] t by auto
qed

theorem corbaloc_of_two_profiles_refused_witness:
  "\<exists>url. ORBit_corbaloc_from [Internet_iop GIOP_1_2 [98, 111, 120, 0] 2809 None [], Orbit_specific [47, 120, 0] 0 None] [1] =
      Some (Some url) \<and> ORBit_corbaloc_parse url = []"
  by (rule corbaloc_of_two_profiles_refused [where p = "Internet_iop GIOP_1_2 [98, 111, 120, 0] 2809 None []"
        and q = "Orbit_specific [47, 120, 0] 0 None" and qs = "[]"])
    (simp_all add: printable_def get_ssl_component_def)

end
