(* ===== verification/Link_Write.thy ===== *)
theory Link_Write
  imports Giop_Send
begin

text \<open>
  A connection of the transport (\<open>src/linc2/src/linc-connection.c\<close>): its state, the queue of
  writes that the socket did not take yet, writing, flushing the queue when the socket has
  room, and reading. The socket answers a list of system calls; an empty list is a socket that
  does not answer, and a function that waits for it has no result (\<open>None\<close>). TLS is left out.
\<close>

section \<open>State\<close>

datatype LinkConnectionStatus = LINK_CONNECTING | LINK_CONNECTED | LINK_DISCONNECTED | LINK_TIMEOUT

datatype LinkIOStatus = LINK_IO_OK | LINK_IO_FATAL_ERROR | LINK_IO_QUEUED_DATA

text \<open>
  What a call of \<open>writev\<close> finds: room for some bytes, of which it writes as many as there are
  and returns their number, or an error number.
\<close>

datatype sys_result = Takes nat | EINTR | EAGAIN | Other_error

datatype link_signal = BLOCKING u64 | BROKEN | STATE_CHANGED LinkConnectionStatus

record GIOCondition =
  IN_CONDS :: bool
  IO_OUT :: bool
  ERR_CONDS :: bool

text \<open>
  A \<open>QueuedWrite\<close> is its \<open>iovec\<close>s, the bytes that are left. \<open>watch\<close> is what the main loop
  listens to besides errors: input, room for output. The last three fields are outside the
  process: the bytes that the socket took, what it will answer, and the signals emitted.
\<close>

type_synonym QueuedWrite = "byte list list"

record LinkConnection =
  lc_status :: LinkConnectionStatus
  nonblocking :: bool
  block_signal :: bool
  watch :: "(bool \<times> bool) option"
  fd_open :: bool
  max_buffer_bytes :: u64
  write_queue_bytes :: u64
  write_queue :: "QueuedWrite list"
  was_disconnected :: bool
  sent :: "byte list"
  answers :: "sys_result list"
  emitted :: "link_signal list"

definition emit :: "link_signal \<Rightarrow> LinkConnection \<Rightarrow> LinkConnection" where
  "emit s cnx = cnx\<lparr>emitted := emitted cnx @ [s]\<rparr>"

definition link_watch_set_condition :: "bool \<Rightarrow> bool \<Rightarrow> LinkConnection \<Rightarrow> LinkConnection" where
  "link_watch_set_condition i out cnx = cnx\<lparr>watch := map_option (\<lambda>_. (i, out)) (watch cnx)\<rparr>"

definition link_connection_state_changed :: "LinkConnectionStatus \<Rightarrow> LinkConnection \<Rightarrow> LinkConnection" where
  "link_connection_state_changed status cnx0 =
     (let changed = lc_status cnx0 \<noteq> status; cnx = cnx0\<lparr>lc_status := status\<rparr>;
          cnx = (case status of
              LINK_CONNECTED \<Rightarrow> if watch cnx = None then cnx\<lparr>watch := Some (True, False)\<rparr> else cnx
            | LINK_CONNECTING \<Rightarrow> cnx\<lparr>watch := Some (False, True)\<rparr>
            | _ \<Rightarrow>
                (let cnx = cnx\<lparr>watch := None, fd_open := False, write_queue := []\<rparr>
                 in if changed \<and> \<not> was_disconnected cnx then emit BROKEN cnx else cnx))
      in emit (STATE_CHANGED status) cnx)"

section \<open>The queue\<close>

text \<open>The counter of queued bytes changes; a queue that is too long ends the connection.\<close>

definition queue_signal :: "u64 \<Rightarrow> LinkConnection \<Rightarrow> LinkConnection" where
  "queue_signal delta cnx0 =
     (let old_size = write_queue_bytes cnx0; new_size = old_size + delta; limit = max_buffer_bytes cnx0;
          cnx = cnx0\<lparr>write_queue_bytes := new_size\<rparr>;
          cnx = (if block_signal cnx \<and>
                    (new_size = 0 \<or> old_size < drop_bit 1 limit \<and> drop_bit 1 limit \<le> new_size \<or> limit \<le> new_size)
                 then emit (BLOCKING new_size) cnx else cnx)
      in if limit \<noteq> 0 \<and> limit \<le> write_queue_bytes cnx then link_connection_state_changed LINK_DISCONNECTED cnx else cnx)"

definition calc_size :: "QueuedWrite \<Rightarrow> u64" where
  "calc_size vecs = foldl (\<lambda>n v. n + of_nat (length v)) 0 vecs"

definition queue_flattened :: "QueuedWrite \<Rightarrow> bool \<Rightarrow> LinkConnection \<Rightarrow> LinkConnection" where
  "queue_flattened vecs update_poll cnx0 =
     (let new_queue = write_queue cnx0 = [];
          cnx = queue_signal (calc_size vecs) (cnx0\<lparr>write_queue := write_queue cnx0 @ [[concat vecs]]\<rparr>)
      in if update_poll \<and> new_queue then link_watch_set_condition True True cnx else cnx)"

section \<open>Writing\<close>

text \<open>The vectors that are written completely are skipped, the next one begins behind what was written.\<close>

fun skip_vecs :: "nat \<Rightarrow> QueuedWrite \<Rightarrow> QueuedWrite" where
  "skip_vecs n [] = []"
| "skip_vecs n (v # vs) = (if length v \<le> n then skip_vecs (n - length v) vs else drop n v # vs)"

datatype write_status = Written nat | Write_blocked | Write_failed

definition LINK_IOV_MAX :: nat where "LINK_IOV_MAX = 1024"

text \<open>\<open>n\<close> bytes are written so far in this call; the rest of the vectors is the second part of the result.\<close>

fun write_data_loop :: "sys_result list \<Rightarrow> QueuedWrite \<Rightarrow> nat \<Rightarrow> LinkConnection \<Rightarrow> (write_status \<times> QueuedWrite \<times> LinkConnection) option" where
  "write_data_loop ans vecs n cnx =
     (if vecs = [] \<or> hd vecs = [] then Some (Written n, vecs, cnx\<lparr>answers := ans\<rparr>)
      else case ans of
          [] \<Rightarrow> None
        | Takes room # ans \<Rightarrow>
            (let bs = concat (take LINK_IOV_MAX vecs); k = min room (length bs)
             in if k = 0 then Some (Write_failed, vecs, cnx\<lparr>answers := ans\<rparr>)
                else write_data_loop ans (skip_vecs k vecs) (n + k) (cnx\<lparr>sent := sent cnx @ take k bs\<rparr>))
        | EINTR # ans \<Rightarrow> write_data_loop ans vecs n cnx
        | EAGAIN # ans \<Rightarrow> Some (if nonblocking cnx then Write_blocked else Write_failed, vecs, cnx\<lparr>answers := ans\<rparr>)
        | Other_error # ans \<Rightarrow> Some (Write_failed, vecs, cnx\<lparr>answers := ans\<rparr>))"

declare write_data_loop.simps [simp del]

definition write_data :: "QueuedWrite \<Rightarrow> LinkConnection \<Rightarrow> (write_status \<times> QueuedWrite \<times> LinkConnection) option" where
  "write_data vecs cnx =
     (if lc_status cnx \<noteq> LINK_CONNECTED then Some (Write_failed, vecs, cnx)
      else write_data_loop (answers cnx) vecs 0 cnx)"

definition link_connection_flush_write_queue :: "LinkConnection \<Rightarrow> LinkConnection option" where
  "link_connection_flush_write_queue cnx =
     (case write_queue cnx of
        [] \<Rightarrow> Some (link_watch_set_condition True False cnx)
      | qw # qws \<Rightarrow>
          (case write_data qw cnx of
             None \<Rightarrow> None
           | Some (Written n, _, cnx) \<Rightarrow>
               (let cnx = queue_signal (- of_nat n) (cnx\<lparr>write_queue := qws\<rparr>)
                in Some (link_watch_set_condition True (write_queue cnx \<noteq> []) cnx))
           | Some (Write_blocked, qw, cnx) \<Rightarrow> Some (link_watch_set_condition True True (cnx\<lparr>write_queue := qw # qws\<rparr>))
           | Some (Write_failed, qw, cnx) \<Rightarrow>
               Some (link_watch_set_condition True False
                 (link_connection_state_changed LINK_DISCONNECTED (cnx\<lparr>write_queue := qw # qws\<rparr>)))))"

text \<open>
  The process around the connection: whether there is an I/O thread, and what waiting for the
  connection to be established leads to.
\<close>

record link_process =
  thread_safe :: bool
  wait_connected :: "LinkConnection \<Rightarrow> LinkConnection"

text \<open>
  The write is tried again after each turn of the main loop (\<open>turns\<close>, which change the
  connection), when the caller wants to block.
\<close>

fun continue_write :: "link_process \<Rightarrow> bool \<Rightarrow> (LinkConnection \<Rightarrow> LinkConnection) list \<Rightarrow> QueuedWrite \<Rightarrow> LinkConnection \<Rightarrow>
    (LinkIOStatus \<times> LinkConnection) option" where
  "continue_write pr block turns vecs cnx =
     (case write_data vecs cnx of
        None \<Rightarrow> None
      | Some (Written n, _, cnx) \<Rightarrow> Some (LINK_IO_OK, cnx)
      | Some (Write_failed, _, cnx) \<Rightarrow> Some (LINK_IO_FATAL_ERROR, cnx)
      | Some (Write_blocked, vecs, cnx) \<Rightarrow>
          if thread_safe pr then Some (LINK_IO_QUEUED_DATA, queue_flattened vecs True cnx)
          else
            (let cnx = link_watch_set_condition True True cnx
             in if \<not> block then Some (LINK_IO_QUEUED_DATA, queue_flattened vecs False cnx)
                else case turns of
                    [] \<Rightarrow> None
                  | turn # turns \<Rightarrow> continue_write pr block turns vecs (turn cnx)))"

declare continue_write.simps [simp del]

definition link_connection_writev :: "link_process \<Rightarrow> bool \<Rightarrow> (LinkConnection \<Rightarrow> LinkConnection) list \<Rightarrow> QueuedWrite \<Rightarrow>
    LinkConnection \<Rightarrow> (LinkIOStatus \<times> LinkConnection) option" where
  "link_connection_writev pr block turns vecs cnx0 =
     (if thread_safe pr \<and> lc_status cnx0 = LINK_CONNECTING
      then Some (LINK_IO_QUEUED_DATA, queue_flattened vecs True cnx0)
      else
        (let cnx = (if \<not> thread_safe pr \<and> nonblocking cnx0 then wait_connected pr cnx0 else cnx0)
         in if lc_status cnx = LINK_DISCONNECTED then Some (LINK_IO_FATAL_ERROR, cnx)
            else if write_queue cnx \<noteq> [] then Some (LINK_IO_QUEUED_DATA, queue_flattened vecs False cnx)
            else continue_write pr block turns vecs cnx))"

text \<open>\<open>opt_write_opts\<close> is null or says whether to block.\<close>

definition link_connection_should_block :: "bool option \<Rightarrow> bool" where
  "link_connection_should_block opt_write_opts = (case opt_write_opts of None \<Rightarrow> True | Some block \<Rightarrow> block)"

definition link_connection_write :: "link_process \<Rightarrow> bool option \<Rightarrow> (LinkConnection \<Rightarrow> LinkConnection) list \<Rightarrow> byte list \<Rightarrow>
    LinkConnection \<Rightarrow> (LinkIOStatus \<times> LinkConnection) option" where
  "link_connection_write pr opts turns bs cnx =
     link_connection_writev pr (link_connection_should_block opts) turns [bs] cnx"

text \<open>A message: data that is queued counts as written for a caller that does not block.\<close>

definition giop_send_buffer_write :: "SendEnv \<Rightarrow> link_process \<Rightarrow> bool \<Rightarrow> (LinkConnection \<Rightarrow> LinkConnection) list \<Rightarrow>
    GIOPSendBuffer \<Rightarrow> LinkConnection \<Rightarrow> (LinkIOStatus \<times> LinkConnection) option" where
  "giop_send_buffer_write env pr blocking turns buf cnx =
     map_option (\<lambda>(status, cnx). (if \<not> blocking \<and> status = LINK_IO_QUEUED_DATA then LINK_IO_OK else status, cnx))
       (link_connection_writev pr (link_connection_should_block (if blocking then None else Some False)) turns
          (map (\<lambda>v. read_mem env buf (iov_base v) (iov_len v)) (iovecs buf)) cnx)"

section \<open>Events\<close>

text \<open>
  The main loop found a condition on the socket. \<open>handle_input\<close> is the input handler of the
  class, \<open>so_error\<close> says that the socket has an error pending.
\<close>

definition link_connection_io_handler :: "(LinkConnection \<Rightarrow> LinkConnection) \<Rightarrow> bool \<Rightarrow> GIOCondition \<Rightarrow> LinkConnection \<Rightarrow>
    LinkConnection option" where
  "link_connection_io_handler handle_input so_error condition cnx0 =
     (let cnx = (if lc_status cnx0 = LINK_CONNECTED \<and> IN_CONDS condition then handle_input cnx0 else cnx0)
      in case (if lc_status cnx = LINK_CONNECTED \<and> IO_OUT condition then link_connection_flush_write_queue cnx else Some cnx) of
           None \<Rightarrow> None
         | Some cnx \<Rightarrow>
             if \<not> (ERR_CONDS condition \<or> IO_OUT condition) then Some cnx
             else
               (case lc_status cnx of
                  LINK_CONNECTING \<Rightarrow>
                    if \<not> so_error \<and> IO_OUT condition \<and> \<not> IN_CONDS condition \<and> \<not> ERR_CONDS condition
                    then
                      (let cnx = link_connection_state_changed LINK_CONNECTED (link_watch_set_condition True False cnx)
                       in if write_queue cnx \<noteq> [] then link_connection_flush_write_queue cnx else Some cnx)
                    else Some (link_connection_state_changed LINK_DISCONNECTED cnx)
                | LINK_CONNECTED \<Rightarrow>
                    Some (if ERR_CONDS condition then link_connection_state_changed LINK_DISCONNECTED cnx else cnx)
                | _ \<Rightarrow> Some cnx))"

definition link_connection_set_max_buffer :: "u64 \<Rightarrow> LinkConnection \<Rightarrow> LinkConnection" where
  "link_connection_set_max_buffer n cnx = cnx\<lparr>max_buffer_bytes := n\<rparr>"

section \<open>Reading\<close>

datatype input_result = Got "byte list" | Read_EINTR | Read_EAGAIN | Read_error

datatype read_status = Bytes_read "byte list" | Read_failed

text \<open>
  Up to \<open>len\<close> bytes; no bytes are the end of the file. A call that is interrupted is made
  again; one that returns more than it was asked for fails an assertion. The rest of the answers is
  returned too.
\<close>

fun read_loop :: "input_result list \<Rightarrow> bool \<Rightarrow> nat \<Rightarrow> bool \<Rightarrow> byte list \<Rightarrow> (read_status \<times> input_result list) option" where
  "read_loop [] nb len full bs = None"
| "read_loop (a # ans) nb len full bs =
     (case a of
        Got ys \<Rightarrow>
          if ys = [] then Some (Read_failed, ans)
          else if len < length ys then None
          else if length ys < len \<and> full then read_loop ans nb (len - length ys) full (bs @ ys)
          else Some (Bytes_read (bs @ ys), ans)
      | Read_EINTR \<Rightarrow> read_loop ans nb len full bs
      | Read_EAGAIN \<Rightarrow> Some (if nb then Bytes_read bs else Read_failed, ans)
      | Read_error \<Rightarrow> Some (Read_failed, ans))"

definition link_connection_read :: "input_result list \<Rightarrow> LinkConnection \<Rightarrow> nat \<Rightarrow> bool \<Rightarrow> (read_status \<times> input_result list) option" where
  "link_connection_read ans cnx len full =
     (if len = 0 then Some (Bytes_read [], ans)
      else if lc_status cnx \<noteq> LINK_CONNECTED then Some (Read_failed, ans)
      else read_loop ans (nonblocking cnx) len full [])"

end
