(* ===== verification/Link_Order.thy ===== *)
theory Link_Order
  imports Link_Write "HOL-Library.Sublist"
begin

text \<open>
  The bytes of a connection leave the process in the order in which they were written, however
  the socket takes them and whenever the queue is flushed.
\<close>

section \<open>One write\<close>

lemma concat_skip: "concat (skip_vecs n vecs) = drop n (concat vecs)"
  by (induction n vecs rule: skip_vecs.induct) auto

lemma skip_front: "skip_vecs n vecs = [] \<or> hd (skip_vecs n vecs) \<noteq> []"
  by (induction n vecs rule: skip_vecs.induct) auto

lemma length_skip: "length (skip_vecs n vecs) \<le> length vecs"
  by (induction n vecs rule: skip_vecs.induct) auto

lemma take_front: "k \<le> length (concat (take m vecs)) \<Longrightarrow> take k (concat (take m vecs)) = take k (concat vecs)"
  by (metis append_take_drop_id concat_append take_append diff_is_0_eq append_Nil2 take0)

definition frame :: "LinkConnection \<Rightarrow> LinkConnection \<Rightarrow> bool" where
  "frame c d \<longleftrightarrow> (\<exists>a s. d = c\<lparr>answers := a, sent := s\<rparr>)"

lemma frameD:
  assumes "frame c d"
  shows "lc_status d = lc_status c" "write_queue d = write_queue c" "nonblocking d = nonblocking c" "watch d = watch c"
    "write_queue_bytes d = write_queue_bytes c" "max_buffer_bytes d = max_buffer_bytes c" "block_signal d = block_signal c"
  using assms by (auto simp: frame_def)

lemma frame_step: "frame (c\<lparr>sent := s\<rparr>) d \<Longrightarrow> frame c d" "frame c (c\<lparr>answers := a\<rparr>)"
  by (auto simp: frame_def) (cases c, auto)

text \<open>What was taken and what is left are together what there was.\<close>

lemma write_loop_keeps:
  "write_data_loop ans vecs n cnx = Some (st, left, cnx') \<Longrightarrow>
     sent cnx' @ concat left = sent cnx @ concat vecs \<and> frame cnx cnx' \<and> length left \<le> length vecs \<and>
     (vecs = [] \<or> hd vecs \<noteq> [] \<longrightarrow> left = [] \<or> hd left \<noteq> []) \<and>
     (\<forall>w. st = Written w \<longrightarrow> left = [] \<or> hd left = [])"
proof (induction ans vecs n cnx rule: write_data_loop.induct)
  case (1 ans vecs n cnx)
  show ?case
  proof (cases "vecs = [] \<or> hd vecs = []")
    case True
    with 1(3) show ?thesis
      by (subst (asm) write_data_loop.simps) (auto simp: frame_step)
  next
    case False
    then have hd: "vecs \<noteq> []" "hd vecs \<noteq> []" by simp_all
    obtain a as where ans: "ans = a # as"
      using 1(3) False by (cases ans) (auto simp: write_data_loop.simps)
    show ?thesis
    proof (cases a)
      case (Takes room)
      let ?bs = "concat (take LINK_IOV_MAX vecs)" let ?k = "min room (length ?bs)"
      show ?thesis
      proof (cases "?k = 0")
        case True
        with 1(3) hd show ?thesis unfolding ans Takes
          by (subst (asm) write_data_loop.simps) (auto simp: Let_def frame_step)
      next
        case k: False
        from 1(3) hd k have r: "write_data_loop as (skip_vecs ?k vecs) (n + ?k) (cnx\<lparr>sent := sent cnx @ take ?k ?bs\<rparr>) =
            Some (st, left, cnx')" unfolding ans Takes
          by (subst (asm) write_data_loop.simps) (auto simp: Let_def)
        note ih = 1(1) [OF False ans Takes refl refl k r]
        have "sent cnx' @ concat left = sent cnx @ take ?k ?bs @ drop ?k (concat vecs)"
          using ih by (simp add: concat_skip)
        also have "take ?k ?bs = take ?k (concat vecs)" by (rule take_front) simp
        finally show ?thesis
          using ih skip_front [of ?k vecs] length_skip [of ?k vecs] frame_step(1) [where c = cnx and s = "sent cnx @ take ?k ?bs" and d = cnx'] hd
          by auto
      qed
    next
      case EINTR
      from 1(3) False have "write_data_loop as vecs n cnx = Some (st, left, cnx')" unfolding ans EINTR
        by (subst (asm) write_data_loop.simps) auto
      from 1(2) [OF False ans EINTR this] show ?thesis .
    next
      case EAGAIN
      from 1(3) hd have "left = vecs" "cnx' = cnx\<lparr>answers := as\<rparr>" "\<forall>w. st \<noteq> Written w" unfolding ans EAGAIN
        by (subst (asm) write_data_loop.simps, auto split: if_splits)+
      then show ?thesis using hd by (simp add: frame_step)
    next
      case Other_error
      from 1(3) hd have "left = vecs" "cnx' = cnx\<lparr>answers := as\<rparr>" "\<forall>w. st \<noteq> Written w" unfolding ans Other_error
        by (subst (asm) write_data_loop.simps, auto)+
      then show ?thesis using hd by (simp add: frame_step)
    qed
  qed
qed

lemma write_keeps:
  assumes "write_data vecs cnx = Some (st, left, cnx')"
  shows "sent cnx' @ concat left = sent cnx @ concat vecs" "frame cnx cnx'" "length left \<le> length vecs"
    "st = Written w \<Longrightarrow> vecs = [] \<or> hd vecs \<noteq> [] \<Longrightarrow> left = []"
    "st = Written w \<Longrightarrow> left = [] \<or> hd left = []"
proof -
  have "frame cnx cnx" using frame_step(2) [of cnx "answers cnx"] by (cases cnx) simp
  with assms write_loop_keeps [of "answers cnx" vecs 0 cnx st left cnx']
  show "sent cnx' @ concat left = sent cnx @ concat vecs" "frame cnx cnx'" "length left \<le> length vecs"
    "st = Written w \<Longrightarrow> vecs = [] \<or> hd vecs \<noteq> [] \<Longrightarrow> left = []" "st = Written w \<Longrightarrow> left = [] \<or> hd left = []"
    by (auto simp: write_data_def split: if_splits)
qed

lemma write_front:
  assumes "write_data vecs cnx = Some (st, left, cnx')" "vecs = [] \<or> hd vecs \<noteq> []"
  shows "left = [] \<or> hd left \<noteq> []"
  using assms write_loop_keeps [of "answers cnx" vecs 0 cnx st left cnx']
  by (auto simp: write_data_def split: if_splits)

section \<open>The queue\<close>

definition queued_bytes :: "LinkConnection \<Rightarrow> byte list" where
  "queued_bytes cnx = concat (map concat (write_queue cnx))"

definition open_state :: "LinkConnection \<Rightarrow> bool" where
  "open_state cnx \<longleftrightarrow> lc_status cnx = LINK_CONNECTED \<or> lc_status cnx = LINK_CONNECTING"

text \<open>
  What holds between what was written and a connection: while it is open nothing is lost, and
  once it is closed what went out is a beginning.
\<close>

definition in_order :: "byte list \<Rightarrow> LinkConnection \<Rightarrow> bool" where
  "in_order W cnx \<longleftrightarrow> (\<forall>qw \<in> set (write_queue cnx). length qw \<le> 1) \<and>
     (if open_state cnx then sent cnx @ queued_bytes cnx = W
      else lc_status cnx = LINK_DISCONNECTED \<and> prefix (sent cnx) W)"

lemma watch_fields [simp]:
  "sent (link_watch_set_condition i out cnx) = sent cnx" "write_queue (link_watch_set_condition i out cnx) = write_queue cnx"
  "lc_status (link_watch_set_condition i out cnx) = lc_status cnx"
  "queued_bytes (link_watch_set_condition i out cnx) = queued_bytes cnx"
  "open_state (link_watch_set_condition i out cnx) = open_state cnx"
  "in_order W (link_watch_set_condition i out cnx) = in_order W cnx"
  by (simp_all add: link_watch_set_condition_def in_order_def open_state_def queued_bytes_def)

lemma state_changed_fields [simp]:
  "sent (link_connection_state_changed st cnx) = sent cnx"
  "lc_status (link_connection_state_changed st cnx) = st"
  "write_queue (link_connection_state_changed st cnx) =
     (if st \<in> {LINK_DISCONNECTED, LINK_TIMEOUT} then [] else write_queue cnx)"
  by (cases st; simp add: link_connection_state_changed_def emit_def Let_def)+

lemma disconnected_in_order: "prefix (sent cnx) W \<Longrightarrow> in_order W (link_connection_state_changed LINK_DISCONNECTED cnx)"
  by (simp add: in_order_def open_state_def)

lemma signal_in_order:
  assumes "in_order W cnx" "open_state cnx"
  shows "in_order W (queue_signal d cnx)"
proof -
  have "in_order W (queue_signal d cnx) \<longleftrightarrow>
      (if max_buffer_bytes cnx \<noteq> 0 \<and> max_buffer_bytes cnx \<le> write_queue_bytes cnx + d then True else True)"
    using assms disconnected_in_order [of _ W]
    by (auto simp: queue_signal_def Let_def emit_def in_order_def open_state_def queued_bytes_def)
  then show ?thesis by simp
qed

lemma flattened_in_order:
  assumes "in_order W cnx" "open_state cnx"
  shows "in_order (W @ concat vecs) (queue_flattened vecs u cnx)"
proof -
  have "in_order (W @ concat vecs) (cnx\<lparr>write_queue := write_queue cnx @ [[concat vecs]]\<rparr>)"
    "open_state (cnx\<lparr>write_queue := write_queue cnx @ [[concat vecs]]\<rparr>)"
    using assms by (auto simp: in_order_def open_state_def queued_bytes_def)
  note q = signal_in_order [OF this]
  show ?thesis
    by (simp only: queue_flattened_def Let_def if_distrib [of "in_order (W @ concat vecs)"] watch_fields q if_cancel)
qed

lemma flush_in_order:
  assumes "link_connection_flush_write_queue cnx = Some cnx'" "in_order W cnx" "open_state cnx"
  shows "in_order W cnx'"
proof (cases "write_queue cnx")
  case Nil
  with assms show ?thesis by (auto simp: link_connection_flush_write_queue_def)
next
  case (Cons qw qws)
  obtain st left c where w: "write_data qw cnx = Some (st, left, c)"
    using assms(1) Cons by (auto simp: link_connection_flush_write_queue_def split: option.splits)
  note k = write_keeps [OF w] and f = frameD [OF write_keeps(2) [OF w]]
  have q: "length qw \<le> 1" "\<forall>q \<in> set qws. length q \<le> 1" "sent cnx @ concat qw @ concat (map concat qws) = W"
    using assms(2,3) Cons by (auto simp: in_order_def queued_bytes_def)
  have o: "open_state c" using assms(3) f(1) by (simp add: open_state_def)
  show ?thesis
  proof (cases st)
    case (Written n)
    have "length left \<le> 1" using k(3) q(1) by simp
    then have "concat left = []" using k(5) Written by (cases left; cases "tl left") auto
    then have "sent c = sent cnx @ concat qw" using k(1) by (simp only: append_Nil2)
    then have "in_order W (c\<lparr>write_queue := qws\<rparr>)" "open_state (c\<lparr>write_queue := qws\<rparr>)"
      using q o by (auto simp: in_order_def open_state_def queued_bytes_def)
    from signal_in_order [OF this] show ?thesis
      using assms(1) Cons w Written by (auto simp: link_connection_flush_write_queue_def Let_def)
  next
    case Write_blocked
    have "in_order W (c\<lparr>write_queue := left # qws\<rparr>)"
      using k(1,3) q o by (auto simp: in_order_def open_state_def queued_bytes_def simp flip: append_assoc)
    then show ?thesis
      using assms(1) Cons w Write_blocked by (auto simp: link_connection_flush_write_queue_def)
  next
    case Write_failed
    have "W = sent c @ concat left @ concat (map concat qws)" using k(1) q(3) by (metis append_assoc)
    then have "prefix (sent c) W" by simp
    then show ?thesis
      using assms(1) Cons w Write_failed disconnected_in_order [of "c\<lparr>write_queue := left # qws\<rparr>" W]
      by (auto simp: link_connection_flush_write_queue_def)
  qed
qed

section \<open>Events\<close>

lemma event_in_order:
  assumes e: "link_connection_io_handler (\<lambda>c. c) err cond cnx = Some cnx'" and i: "in_order W cnx"
  shows "in_order W cnx'"
proof (cases "open_state cnx")
  case False
  then have "lc_status cnx = LINK_DISCONNECTED" using i by (simp add: in_order_def)
  then show ?thesis using e i by (auto simp: link_connection_io_handler_def Let_def split: if_splits)
next
  case o: True
  have pre: "prefix (sent c) W" if "in_order W c" for c using that by (auto simp: in_order_def split: if_splits)
  obtain c where c: "(if lc_status cnx = LINK_CONNECTED \<and> IO_OUT cond then link_connection_flush_write_queue cnx else Some cnx) = Some c"
    using e by (auto simp: link_connection_io_handler_def Let_def split: option.splits)
  have ic: "in_order W c" using c flush_in_order [OF _ i o] i by (auto split: if_splits)
  have conn: "in_order W (link_connection_state_changed LINK_CONNECTED (link_watch_set_condition True False c))"
    "open_state (link_connection_state_changed LINK_CONNECTED (link_watch_set_condition True False c))"
    if "lc_status c = LINK_CONNECTING"
    using ic that by (auto simp: in_order_def open_state_def queued_bytes_def)
  show ?thesis
    using e c ic disconnected_in_order [OF pre [OF ic]] conn flush_in_order [OF _ conn]
    by (auto simp: link_connection_io_handler_def Let_def split: if_splits LinkConnectionStatus.splits)
qed

text \<open>
  What the main loop may do to a connection while a write waits: handle conditions on the socket,
  whose answers may change meanwhile. The input handlers it runs do not write themselves.
\<close>

inductive socket_events :: "LinkConnection \<Rightarrow> LinkConnection \<Rightarrow> bool" for c where
  no_event: "socket_events c c"
| one_event: "socket_events c d \<Longrightarrow> link_connection_io_handler (\<lambda>c. c) err cond d = Some e \<Longrightarrow> socket_events c e"
| other_answers: "socket_events c d \<Longrightarrow> socket_events c (d\<lparr>answers := ans\<rparr>)"

lemma answers_in_order [simp]:
  "in_order W (c\<lparr>answers := ans\<rparr>) = in_order W c" "open_state (c\<lparr>answers := ans\<rparr>) = open_state c"
  by (auto simp: in_order_def open_state_def queued_bytes_def)

lemma events_in_order: "socket_events c d \<Longrightarrow> in_order W c \<Longrightarrow> in_order W d"
  by (induction rule: socket_events.induct) (auto intro: event_in_order)

lemma event_empty_queue:
  assumes "link_connection_io_handler (\<lambda>c. c) err cond c = Some d" "write_queue c = []"
  shows "write_queue d = []"
  using assms
  by (auto simp: link_connection_io_handler_def link_connection_flush_write_queue_def Let_def
      split: if_splits LinkConnectionStatus.splits)

lemma events_empty_queue: "socket_events c d \<Longrightarrow> write_queue c = [] \<Longrightarrow> write_queue d = []"
  by (induction rule: socket_events.induct) (auto dest: event_empty_queue)

section \<open>Runs\<close>

text \<open>A write that blocks lets the main loop turn; one that does not block never does.\<close>

definition quiet_turns :: "bool \<Rightarrow> (LinkConnection \<Rightarrow> LinkConnection) list \<Rightarrow> bool" where
  "quiet_turns block turns \<longleftrightarrow> (block \<longrightarrow> (\<forall>turn \<in> set turns. \<forall>c. socket_events c (turn c)))"

lemma continue_once:
  assumes w: "continue_write pr block turns vecs cnx = Some (st, cnx')" "st \<noteq> LINK_IO_FATAL_ERROR"
    and i: "in_order (sent cnx) cnx" "write_queue cnx = []" and v: "vecs = [] \<or> hd vecs \<noteq> []"
    and again: "\<And>left c turn rest. block \<Longrightarrow> turns = turn # rest \<Longrightarrow>
      continue_write pr block rest left (turn (link_watch_set_condition True True c)) = Some (st, cnx') \<Longrightarrow>
      in_order (sent c) c \<Longrightarrow> write_queue c = [] \<Longrightarrow> left = [] \<or> hd left \<noteq> [] \<Longrightarrow>
      sent c @ concat left = sent cnx @ concat vecs \<Longrightarrow> in_order (sent cnx @ concat vecs) cnx'"
  shows "in_order (sent cnx @ concat vecs) cnx'"
proof -
  let ?W = "sent cnx @ concat vecs"
  obtain ws left c where d: "write_data vecs cnx = Some (ws, left, c)"
    using w(1) by (subst (asm) continue_write.simps) (auto split: option.splits)
  note k = write_keeps [OF d] and f = frameD [OF write_keeps(2) [OF d]]
  have o: "lc_status cnx = LINK_CONNECTED"
    using w d by (subst (asm) continue_write.simps) (auto simp: write_data_def split: if_splits)
  then have o': "open_state c" using f(1) by (simp add: open_state_def)
  have c: "in_order (sent c) c" using f(2) i(2) o' by (simp add: in_order_def queued_bytes_def)
  show ?thesis
  proof (cases ws)
    case (Written n)
    then have "left = []" using k(4) v by auto
    then have "in_order ?W c" using k(1) f(2) i(2) o' by (simp add: in_order_def queued_bytes_def)
    then show ?thesis using w d Written by (subst (asm) continue_write.simps) simp
  next
    case Write_blocked
    have h: "left = [] \<or> hd left \<noteq> []" using write_front [OF d v] .
    have q: "in_order ?W (queue_flattened left u c)" for u
      using flattened_in_order [OF c o', of left u] unfolding k(1) .
    have q': "in_order ?W (queue_flattened left u (link_watch_set_condition True True c))" for u
      using flattened_in_order [of "sent c" "link_watch_set_condition True True c" left u] c o' unfolding k(1) by simp
    show ?thesis using w(1) d Write_blocked q q' again [OF _ _ _ c _ h k(1)] f(2) i(2)
      by (subst (asm) continue_write.simps) (auto simp: Let_def split: if_splits list.splits)
  next
    case Write_failed
    then show ?thesis using w d by (subst (asm) continue_write.simps) simp
  qed
qed

lemma continue_in_order:
  assumes "continue_write pr block turns vecs cnx = Some (st, cnx')" "st \<noteq> LINK_IO_FATAL_ERROR"
    and "in_order (sent cnx) cnx" "write_queue cnx = []" "vecs = [] \<or> hd vecs \<noteq> []" "quiet_turns block turns"
  shows "in_order (sent cnx @ concat vecs) cnx'"
  using assms
proof (induction turns arbitrary: vecs cnx)
  case Nil
  show ?case by (rule continue_once [OF Nil.prems(1-5)]) simp
next
  case (Cons turn turns)
  show ?case
  proof (rule continue_once [OF Cons.prems(1-5)])
    fix left c turn' rest
    assume c: "block" "turn # turns = turn' # rest"
      "continue_write pr block rest left (turn' (link_watch_set_condition True True c)) = Some (st, cnx')"
      "in_order (sent c) c" "write_queue c = []" "left = [] \<or> hd left \<noteq> []" "sent c @ concat left = sent cnx @ concat vecs"
    let ?c = "link_watch_set_condition True True c"
    have e: "socket_events ?c (turn ?c)" and q: "quiet_turns block turns"
      using Cons.prems(6) c(1) by (auto simp: quiet_turns_def)
    have again: "continue_write pr block turns left (turn ?c) = Some (st, cnx')" using c(2,3) by simp
    have i: "in_order (sent c) (turn ?c)" using events_in_order [OF e] c(4) by simp
    have w: "write_queue (turn ?c) = []" using events_empty_queue [OF e] c(5) by simp
    have "lc_status (turn ?c) = LINK_CONNECTED"
      using again Cons.prems(2)
      by (subst (asm) continue_write.simps) (auto simp: write_data_def split: if_splits)
    then have "sent (turn ?c) = sent c" using i w by (simp add: in_order_def open_state_def queued_bytes_def)
    with Cons.IH [OF again Cons.prems(2) _ w c(6) q] i c(7) show "in_order (sent cnx @ concat vecs) cnx'" by simp
  qed
qed

lemma write_in_order:
  assumes w: "link_connection_writev pr block turns vecs cnx = Some (st, cnx')" "st \<noteq> LINK_IO_FATAL_ERROR"
    and i: "in_order W cnx" and v: "vecs \<noteq> []" "hd vecs \<noteq> []"
    and pr: "\<forall>c. socket_events c (wait_connected pr c)" and t: "quiet_turns block turns"
  shows "in_order (W @ concat vecs) cnx'"
proof -
  have start: "in_order (W @ concat vecs) cnx'"
    if j: "in_order W c" "lc_status c \<noteq> LINK_DISCONNECTED"
      "cnx' = queue_flattened vecs u c \<or> write_queue c = [] \<and> continue_write pr block turns vecs c = Some (st, cnx')" for c u
  proof -
    have o: "open_state c" using j(1,2) by (auto simp: in_order_def split: if_splits)
    consider "cnx' = queue_flattened vecs u c" | "write_queue c = []" "continue_write pr block turns vecs c = Some (st, cnx')"
      using j(3) by blast
    then show ?thesis
    proof cases
      case 2
      have s: "sent c = W" using j(1) o 2(1) by (simp add: in_order_def queued_bytes_def)
      show ?thesis using continue_in_order [OF 2(2) w(2) _ 2(1) _ t] v j(1) s by simp
    qed (simp add: flattened_in_order [OF j(1) o])
  qed
  have "in_order W (wait_connected pr cnx)" by (rule events_in_order [OF _ i]) (use pr in simp)
  then show ?thesis
    using w start [OF i] start [of "wait_connected pr cnx"]
    by (auto simp: link_connection_writev_def Let_def split: if_splits)
qed

text \<open>
  Runs of a connection: writes that do not fail, whether they block or not, conditions on the
  socket, other answers of the socket, another limit. The second argument collects what was
  written.
\<close>

inductive link_run :: "link_process \<Rightarrow> LinkConnection \<Rightarrow> byte list \<Rightarrow> LinkConnection \<Rightarrow> bool" for pr c0 where
  run_start: "link_run pr c0 [] c0"
| run_write: "link_run pr c0 W c \<Longrightarrow> vecs \<noteq> [] \<Longrightarrow> hd vecs \<noteq> [] \<Longrightarrow> quiet_turns block turns \<Longrightarrow>
    link_connection_writev pr block turns vecs c = Some (st, c') \<Longrightarrow> st \<noteq> LINK_IO_FATAL_ERROR \<Longrightarrow>
    link_run pr c0 (W @ concat vecs) c'"
| run_event: "link_run pr c0 W c \<Longrightarrow> link_connection_io_handler (\<lambda>c. c) err cond c = Some c' \<Longrightarrow> link_run pr c0 W c'"
| run_answers: "link_run pr c0 W c \<Longrightarrow> link_run pr c0 W (c\<lparr>answers := ans\<rparr>)"
| run_limit: "link_run pr c0 W c \<Longrightarrow> link_run pr c0 W (link_connection_set_max_buffer n c)"

lemma run_in_order:
  assumes "link_run pr c0 W c" "\<forall>c. socket_events c (wait_connected pr c)" "in_order [] c0"
  shows "in_order W c"
  using assms
proof (induction rule: link_run.induct)
  case (run_write W c vecs block turns st c')
  then show ?case using write_in_order by blast
next
  case (run_event W c err cond c')
  then show ?case using event_in_order by blast
qed (auto simp: in_order_def open_state_def queued_bytes_def link_connection_set_max_buffer_def)

end
