(* ===== verification/Link_Wire.thy ===== *)
theory Link_Wire
  imports Link_Order Cdr_Calls
begin

text \<open>Properties of connections, alone and with the messages they carry.\<close>

section \<open>Draining the queue\<close>

text \<open>A socket with room for everything takes the first entry of the queue.\<close>

lemma write_all:
  assumes "lc_status cnx = LINK_CONNECTED" "answers cnx = Takes k # ans" "length bs \<le> k" "bs \<noteq> []"
  shows "write_data [bs] cnx = Some (Written (length bs), [], cnx\<lparr>answers := ans, sent := sent cnx @ bs\<rparr>)"
proof -
  have "\<And>c. write_data_loop ans [] (length bs) c = Some (Written (length bs), [], c\<lparr>answers := ans\<rparr>)"
    by (subst write_data_loop.simps) simp
  then show ?thesis
    using assms by (simp add: write_data_def, subst write_data_loop.simps) (simp add: Let_def LINK_IOV_MAX_def min_absorb2)
qed

definition room_event :: GIOCondition where
  "room_event = \<lparr>IN_CONDS = False, IO_OUT = True, ERR_CONDS = False\<rparr>"

fun room_events :: "nat \<Rightarrow> LinkConnection \<Rightarrow> LinkConnection option" where
  "room_events 0 cnx = Some cnx"
| "room_events (Suc n) cnx =
     (case link_connection_io_handler (\<lambda>c. c) False room_event cnx of None \<Rightarrow> None | Some cnx \<Rightarrow> room_events n cnx)"

lemma no_limit_signal: "max_buffer_bytes cnx = 0 \<Longrightarrow> queue_signal d cnx = (queue_signal d cnx)\<lparr>lc_status := lc_status cnx, sent := sent cnx,
    answers := answers cnx, write_queue := write_queue cnx, max_buffer_bytes := 0\<rparr>"
  by (cases cnx) (simp add: queue_signal_def Let_def emit_def)

lemma signal_fields:
  assumes "max_buffer_bytes cnx = 0"
  shows "lc_status (queue_signal d cnx) = lc_status cnx" "sent (queue_signal d cnx) = sent cnx" "answers (queue_signal d cnx) = answers cnx"
    "write_queue (queue_signal d cnx) = write_queue cnx" "max_buffer_bytes (queue_signal d cnx) = 0"
    "write_queue_bytes (queue_signal d cnx) = write_queue_bytes cnx + d" "nonblocking (queue_signal d cnx) = nonblocking cnx"
  using assms by (simp_all add: queue_signal_def Let_def emit_def)

lemma watch_keeps [simp]:
  "answers (link_watch_set_condition i out cnx) = answers cnx" "max_buffer_bytes (link_watch_set_condition i out cnx) = max_buffer_bytes cnx"
  "write_queue_bytes (link_watch_set_condition i out cnx) = write_queue_bytes cnx"
  "nonblocking (link_watch_set_condition i out cnx) = nonblocking cnx"
  by (simp_all add: link_watch_set_condition_def)

lemma flush_all:
  assumes "lc_status cnx = LINK_CONNECTED" "max_buffer_bytes cnx = 0" "write_queue cnx = [bs] # qws" "bs \<noteq> []"
    "answers cnx = Takes k # ans" "length bs \<le> k"
  obtains cnx' where "link_connection_flush_write_queue cnx = Some cnx'" "lc_status cnx' = LINK_CONNECTED" "max_buffer_bytes cnx' = 0"
    "write_queue cnx' = qws" "answers cnx' = ans" "sent cnx' = sent cnx @ bs"
    "write_queue_bytes cnx' = write_queue_bytes cnx - of_nat (length bs)"
proof -
  let ?c = "cnx\<lparr>answers := ans, sent := sent cnx @ bs, write_queue := qws\<rparr>"
  have m: "max_buffer_bytes ?c = 0" using assms(2) by simp
  have e: "(cnx\<lparr>answers := ans, sent := sent cnx @ bs\<rparr>)\<lparr>write_queue := qws\<rparr> = ?c" by simp
  let ?d = "queue_signal (- of_nat (length bs)) ?c"
  have "link_connection_flush_write_queue cnx = Some (link_watch_set_condition True (write_queue ?d \<noteq> []) ?d)"
    using write_all [OF assms(1,5,6,4)] by (simp add: link_connection_flush_write_queue_def assms(3) Let_def)
  from that [OF this] signal_fields [OF m] assms(1) show thesis by simp
qed

lemma drained:
  assumes "lc_status cnx = LINK_CONNECTED" "max_buffer_bytes cnx = 0" "write_queue cnx = map (\<lambda>bs. [bs]) bss" "[] \<notin> set bss"
    "answers cnx = map Takes ks @ ans" "length ks = length bss" "\<forall>(k, bs) \<in> set (zip ks bss). length bs \<le> k"
  shows "\<exists>cnx'. room_events (length bss) cnx = Some cnx' \<and> lc_status cnx' = LINK_CONNECTED \<and> write_queue cnx' = [] \<and>
    sent cnx' = sent cnx @ concat bss"
  using assms
proof (induction bss arbitrary: cnx ks)
  case Nil
  then show ?case by simp
next
  case (Cons bs bss)
  then obtain k ks' where ks: "ks = k # ks'" by (cases ks) auto
  obtain c where c: "link_connection_flush_write_queue cnx = Some c" "lc_status c = LINK_CONNECTED" "max_buffer_bytes c = 0"
    "write_queue c = map (\<lambda>bs. [bs]) bss" "answers c = map Takes ks' @ ans" "sent c = sent cnx @ bs"
    by (rule flush_all [of cnx bs "map (\<lambda>bs. [bs]) bss" k "map Takes ks' @ ans"]) (use Cons.prems ks in auto)
  have h: "link_connection_io_handler (\<lambda>c. c) False room_event cnx = Some c"
    using c(1,2) Cons.prems(1) by (simp add: link_connection_io_handler_def room_event_def)
  from Cons.IH [OF c(2-4) _ c(5)] Cons.prems ks c(6) show ?case by (simp add: h)
qed

section \<open>Properties\<close>

text \<open>
  C1. Whatever the socket takes at each system call, whenever it has room, and also when the
  connection is still being established: after any run of writes that were accepted, blocking
  or not, the bytes that went out are the beginning of what was written, in the order of the
  writes; and while the connection is up, they and the queue are all of it. The turns of the
  main loop that a blocking write waits through, and the wait for the connection, handle
  conditions of the socket and do not write themselves (C5 is what happens when they do).
\<close>

theorem writes_leave_in_order:
  assumes "link_run pr c0 W c" "\<forall>c. socket_events c (wait_connected pr c)" "sent c0 = []" "write_queue c0 = []" "open_state c0"
  shows "prefix (sent c) W \<and> (lc_status c = LINK_CONNECTED \<longrightarrow> sent c @ concat (map concat (write_queue c)) = W)"
  using run_in_order [OF assms(1,2)] assms(3-5)
  by (auto simp: in_order_def open_state_def queued_bytes_def split: if_splits)

definition ex_link :: "sys_result list \<Rightarrow> byte list list \<Rightarrow> LinkConnection" where
  "ex_link ans queue = \<lparr>lc_status = LINK_CONNECTED, nonblocking = True, block_signal = False, watch = Some (True, queue \<noteq> []), fd_open = True,
     max_buffer_bytes = 0, write_queue_bytes = of_nat (length (concat queue)), write_queue = map (\<lambda>bs. [bs]) queue, was_disconnected = False,
     sent = [], answers = ans, emitted = []\<rparr>"

definition ex_process :: link_process where
  "ex_process = \<lparr>thread_safe = True, wait_connected = (\<lambda>c. c)\<rparr>"

definition ex_single :: link_process where
  "ex_single = \<lparr>thread_safe = False, wait_connected = (\<lambda>c. c)\<rparr>"

text \<open>
  A blocking write of three bytes of which two are taken at first, then a write that does not
  block and of which one byte is taken.
\<close>

theorem writes_leave_in_order_witness:
  "\<exists>c. link_run ex_single (ex_link [Takes 2, EAGAIN, Takes 9, Takes 1, EAGAIN] []) [1, 2, 3, 4, 5] c \<and> sent c = [1, 2, 3, 4] \<and>
    prefix [1, 2, 3, 4] [1, 2, 3, 4, 5 :: byte]"
proof -
  let ?c0 = "ex_link [Takes 2, EAGAIN, Takes 9, Takes 1, EAGAIN] []"
  define c1 where "c1 = snd (the (link_connection_writev ex_single True [\<lambda>c. c] [[1, 2, 3]] ?c0))"
  define c2 where "c2 = snd (the (link_connection_writev ex_single False [] [[4], [5]] c1))"
  have "map_option fst (link_connection_writev ex_single True [\<lambda>c. c] [[1, 2, 3]] ?c0) = Some LINK_IO_OK"
    by code_simp
  then have w1: "link_connection_writev ex_single True [\<lambda>c. c] [[1, 2, 3]] ?c0 = Some (LINK_IO_OK, c1)"
    by (auto simp: c1_def)
  have "map_option (\<lambda>(st, c). (st, sent c)) (link_connection_writev ex_single False [] [[4], [5]] c1) = Some (LINK_IO_QUEUED_DATA, [1, 2, 3, 4])"
    unfolding c1_def by code_simp
  then have w2: "link_connection_writev ex_single False [] [[4], [5]] c1 = Some (LINK_IO_QUEUED_DATA, c2)" "sent c2 = [1, 2, 3, 4]"
    by (auto simp: c2_def)
  have "link_run ex_single ?c0 ([] @ concat [[1, 2, 3]]) c1"
    by (rule run_write [OF run_start _ _ _ w1]) (simp_all add: quiet_turns_def no_event)
  then have "link_run ex_single ?c0 (([] @ concat [[1, 2, 3]]) @ concat [[4], [5]]) c2"
    by (rule run_write [OF _ _ _ _ w2(1)]) (simp_all add: quiet_turns_def)
  then have r: "link_run ex_single ?c0 [1, 2, 3, 4, 5] c2" by simp
  have "prefix (sent c2) [1, 2, 3, 4, 5]"
    using writes_leave_in_order [OF r] by (simp add: ex_single_def ex_link_def open_state_def no_event)
  with r w2(2) show ?thesis by auto
qed

text \<open>
  C3. A queue that is flushed by a socket with enough room drains: one event of room for each
  entry, and all of it has gone out.
\<close>

theorem queue_drains:
  assumes "lc_status cnx = LINK_CONNECTED" "max_buffer_bytes cnx = 0" "write_queue cnx = map (\<lambda>bs. [bs]) bss" "[] \<notin> set bss"
    and "answers cnx = map Takes ks @ ans" "length ks = length bss" "\<forall>(k, bs) \<in> set (zip ks bss). length bs \<le> k"
  shows "\<exists>cnx'. room_events (length bss) cnx = Some cnx' \<and> lc_status cnx' = LINK_CONNECTED \<and> write_queue cnx' = [] \<and>
    sent cnx' = sent cnx @ concat bss"
  by (rule drained [OF assms])

theorem queue_drains_witness:
  "\<exists>cnx'. room_events 2 (ex_link [Takes 5, Takes 5] [[1, 2], [3]]) = Some cnx' \<and> write_queue cnx' = [] \<and> sent cnx' = [1, 2, 3]"
proof -
  let ?bss = "[[1, 2], [3 :: byte]]" let ?c = "ex_link [Takes 5, Takes 5] ?bss"
  have "\<exists>cnx'. room_events (length ?bss) ?c = Some cnx' \<and> lc_status cnx' = LINK_CONNECTED \<and> write_queue cnx' = [] \<and>
      sent cnx' = sent ?c @ concat ?bss"
    by (rule queue_drains [where ks = "[5, 5]" and ans = "[]"]) (simp_all add: ex_link_def)
  moreover have "length ?bss = 2" "sent ?c @ concat ?bss = [1, 2, 3]" by (simp_all add: ex_link_def)
  ultimately show ?thesis by metis
qed

lemma run_trans: "link_run pr c1 V c2 \<Longrightarrow> link_run pr c0 W c1 \<Longrightarrow> link_run pr c0 (W @ V) c2"
proof (induction rule: link_run.induct)
  case (run_write W' c vecs block turns st c')
  from run_write.IH [OF run_write.prems] run_write.hyps show ?case
    by (simp only: append_assoc [symmetric]) (rule link_run.run_write)
qed (auto intro: link_run.intros)

lemma written_run:
  assumes b: "builds env v mt bs b" and w: "giop_send_buffer_write env pr block turns b c0 = Some (LINK_IO_OK, c1)"
    and t: "quiet_turns block turns"
  shows "link_run pr c0 (wire env b) c1"
proof -
  let ?vecs = "map (\<lambda>v. read_mem env b (iov_base v) (iov_len v)) (iovecs b)"
  have h: "?vecs \<noteq> []" "hd ?vecs \<noteq> []"
    using b by (auto simp: builds_def wf_send_def hdr_iov_def read_mem_def header_bytes_def)
  obtain st where "link_connection_writev pr block turns ?vecs c0 = Some (st, c1)" "st \<noteq> LINK_IO_FATAL_ERROR"
    using w by (cases block) (auto simp: giop_send_buffer_write_def link_connection_should_block_def split: if_splits)
  from run_write [OF run_start h t this] show ?thesis by (simp add: wire_def)
qed

text \<open>
  C2. From end to end: a reply written to a connection whose socket takes it in any pieces, with
  whatever events of the socket behind it, has gone out when the queue is empty; read in any
  pieces on the other side it reaches the request that waits for it, with its results.
\<close>

theorem reply_through_sockets:
  assumes pool: "\<forall>b \<in> set sbl. pool_ok b"
    and b: "builds env v GIOP_REPLY (payload env (fst (giop_send_buffer_use_reply env sbl v rid status)) @ results) b"
    and sz: "length (payload env b) < 2 ^ 32"
    and w: "giop_send_buffer_write env pr block turns b c0 = Some (LINK_IO_OK, c1)" "link_run pr c1 [] c"
    and t: "quiet_turns block turns"
    and c0: "sent c0 = []" "write_queue c0 = []" "open_state c0" "\<forall>c. socket_events c (wait_connected pr c)"
    and c: "lc_status c = LINK_CONNECTED" "write_queue c = []"
    and ac: "accepts renv (length (payload env b)) a" and st: "incoming_msg st = None"
    and q: "queued st = xs @ ent # ys" "\<forall>e \<in> set xs. \<not> (ent_request_id e = rid \<and> ent_msg_type e = GIOP_REPLY)"
    and ent: "ent_request_id ent = rid" "ent_msg_type ent = GIOP_REPLY" "ent_cnx ent = Some (cnx_id renv)"
    and rs: "no_empty rs" "tokens rs = map Some (sent c)"
  shows "\<exists>r. fst (giop_connection_handle_input renv st rs) =
      st\<lparr>queued := xs @ ys, answered := ent\<lparr>ent_buffer := Some r\<rparr> # answered st\<rparr> \<and> is_reply r v rid status results"
proof -
  have "link_run pr c0 (wire env b) c" using run_trans [OF w(2) written_run [OF b w(1) t]] by simp
  from run_in_order [OF this c0(4)] c0 c have "sent c = wire env b"
    by (simp add: in_order_def open_state_def queued_bytes_def)
  then have "tokens rs = map Some (wire env b)" using rs(2) by simp
  from reply_heard [OF pool b sz ac st q ent rs(1) this] obtain r where
    "fst (giop_connection_handle_input renv st rs) = st\<lparr>queued := xs @ ys, answered := ent\<lparr>ent_buffer := Some r\<rparr> # answered st\<rparr>"
    "is_reply r v rid status results" by auto
  then show ?thesis by blast
qed

text \<open>The socket takes five bytes of a reply at once, and the rest at the next event.\<close>

definition ex_result :: GIOPSendBuffer where
  "ex_result = the (ORBit_marshal_value ex_send_env ex_reply ex_tc ex_value)"

definition ex_written :: LinkConnection where
  "ex_written = snd (the (giop_send_buffer_write ex_send_env ex_process False [] ex_result (ex_link [Takes 5, EAGAIN] [])))"

definition ex_flushed :: LinkConnection where
  "ex_flushed = the (link_connection_io_handler (\<lambda>c. c) False room_event (ex_written\<lparr>answers := [Takes 1000]\<rparr>))"

lemma ex_goes_out:
  "giop_send_buffer_write ex_send_env ex_process False [] ex_result (ex_link [Takes 5, EAGAIN] []) = Some (LINK_IO_OK, ex_written)"
  "link_connection_io_handler (\<lambda>c. c) False room_event (ex_written\<lparr>answers := [Takes 1000]\<rparr>) = Some ex_flushed"
  "lc_status ex_flushed = LINK_CONNECTED" "write_queue ex_flushed = []" "sent ex_flushed \<noteq> []" "length (sent ex_written) = 5"
proof -
  have w: "map_option fst (giop_send_buffer_write ex_send_env ex_process False [] ex_result (ex_link [Takes 5, EAGAIN] [])) = Some LINK_IO_OK"
    by code_simp
  have e: "link_connection_io_handler (\<lambda>c. c) False room_event (ex_written\<lparr>answers := [Takes 1000]\<rparr>) \<noteq> None"
    by code_simp
  show "giop_send_buffer_write ex_send_env ex_process False [] ex_result (ex_link [Takes 5, EAGAIN] []) = Some (LINK_IO_OK, ex_written)"
    using w by (auto simp: ex_written_def)
  show "link_connection_io_handler (\<lambda>c. c) False room_event (ex_written\<lparr>answers := [Takes 1000]\<rparr>) = Some ex_flushed"
    using e by (auto simp: ex_flushed_def)
  show "lc_status ex_flushed = LINK_CONNECTED" by code_simp
  show "write_queue ex_flushed = []" by code_simp
  show "sent ex_flushed \<noteq> []" by code_simp
  show "length (sent ex_written) = 5" by code_simp
qed

theorem reply_through_sockets_witness:
  "length (sent ex_written) = 5 \<and> (\<exists>r. fst (giop_connection_handle_input ex_input_env ex_state [Bytes (sent ex_flushed)]) =
      ex_state\<lparr>queued := [], answered := [ex_entry\<lparr>ent_buffer := Some r\<rparr>]\<rparr> \<and> giop_recv_buffer_get_request_id r = 7)"
proof -
  note u = use_reply_builds [of "[]" ex_send_env GIOP_1_1 7 0, simplified, folded ex_reply_def]
  obtain b where m: "ORBit_marshal_value ex_send_env ex_reply ex_tc ex_value = Some b"
    using marshal_value_total(1) [OF ex_value_typed(1,2)] by blast
  then have b: "b = ex_result" by (simp add: ex_result_def)
  have "length (payload ex_send_env ex_reply) + 12 + vbound ex_value < 2 ^ 32"
    using u(3) ex_value_typed(3) by simp
  from marshal_value_cdr(1) [OF m u(1,2) ex_value_typed(2) this] obtain zs where
    z: "builds ex_send_env GIOP_1_1 GIOP_REPLY (payload ex_send_env ex_reply @ zs) ex_result" "length zs \<le> vbound ex_value"
    unfolding writes_def b by blast
  then have l: "length (payload ex_send_env ex_result) \<le> 1000" using u(3) ex_value_typed(3) by (simp add: builds_def)
  have r: "link_run ex_process ex_written [] ex_flushed"
    by (rule run_event [OF run_answers [OF run_start] ex_goes_out(2)])
  have rs: "no_empty [Bytes (sent ex_flushed)]" "tokens [Bytes (sent ex_flushed)] = map Some (sent ex_flushed)"
    using ex_goes_out(5) by (simp_all add: no_empty_def)
  have "\<exists>r. fst (giop_connection_handle_input ex_input_env ex_state [Bytes (sent ex_flushed)]) =
      ex_state\<lparr>queued := [] @ [], answered := ex_entry\<lparr>ent_buffer := Some r\<rparr> # answered ex_state\<rparr> \<and> is_reply r GIOP_1_1 7 0 zs"
    by (rule reply_through_sockets [OF _ z(1) [unfolded ex_reply_def] _ ex_goes_out(1) r _ _ _ _ _ ex_goes_out(3,4) ex_accepts [OF l] _ _ _ _ _ _ rs])
      (use l in \<open>simp_all add: ex_link_def open_state_def ex_process_def ex_state_def ex_entry_def ex_input_env_def quiet_turns_def no_event\<close>)
  then show ?thesis using ex_goes_out(6) by (auto simp: is_reply_def ex_state_def)
qed

text \<open>
  C4. The counter of queued bytes is wrong after a flush in two goes: what the first go wrote is
  not subtracted. An empty queue then still counts for the limit of the connection.
\<close>

theorem partial_flush_miscounts:
  assumes "lc_status cnx = LINK_CONNECTED" "nonblocking cnx" "max_buffer_bytes cnx = 0" "write_queue cnx = [[bs]]"
    and "answers cnx = [Takes k, EAGAIN, Takes m]" "0 < k" "k < length bs" "length bs \<le> k + m"
    and "write_queue_bytes cnx = of_nat (length bs)" "length bs < 2 ^ 63"
  shows "\<exists>cnx'. room_events 2 cnx = Some cnx' \<and> write_queue cnx' = [] \<and> sent cnx' = sent cnx @ bs \<and>
    unat (write_queue_bytes cnx') = k"
proof -
  let ?c = "link_watch_set_condition True True (cnx\<lparr>answers := [Takes m], sent := sent cnx @ take k bs, write_queue := [[drop k bs]]\<rparr>)"
  have bs: "bs \<noteq> []" "drop k bs \<noteq> []" using assms(6,7) by auto
  have l2: "\<And>c n. nonblocking c \<Longrightarrow> write_data_loop [EAGAIN, Takes m] [drop k bs] n c = Some (Write_blocked, [drop k bs], c\<lparr>answers := [Takes m]\<rparr>)"
    using bs by (subst write_data_loop.simps) simp
  have "write_data [bs] cnx = Some (Write_blocked, [drop k bs], cnx\<lparr>answers := [Takes m], sent := sent cnx @ take k bs\<rparr>)"
    using assms bs l2 by (simp add: write_data_def, subst write_data_loop.simps) (simp add: Let_def LINK_IOV_MAX_def min_absorb1)
  then have "link_connection_flush_write_queue cnx = Some ?c"
    by (simp add: link_connection_flush_write_queue_def assms(4))
  then have e1: "link_connection_io_handler (\<lambda>c. c) False room_event cnx = Some ?c"
    using assms(1) by (simp add: link_connection_io_handler_def room_event_def)
  obtain d where d: "link_connection_flush_write_queue ?c = Some d" "lc_status d = LINK_CONNECTED" "write_queue d = []"
    "sent d = (sent cnx @ take k bs) @ drop k bs" "write_queue_bytes d = write_queue_bytes cnx - of_nat (length (drop k bs))"
    by (rule flush_all [of ?c "drop k bs" "[]" m "[]"]) (use assms bs in simp_all)
  have e2: "link_connection_io_handler (\<lambda>c. c) False room_event ?c = Some d"
    using d(1,2) assms(1) by (simp add: link_connection_io_handler_def room_event_def)
  have "write_queue_bytes d = of_nat k"
    unfolding d(5) assms(9) using assms(7) by (simp add: of_nat_diff)
  moreover have "k < 2 ^ LENGTH(64)" using assms(7,10) by simp
  ultimately have "unat (write_queue_bytes d) = k" by (simp add: unat_of_nat)
  moreover have "room_events 2 cnx = Some d" by (simp add: numeral_2_eq_2 e1 e2)
  ultimately show ?thesis using d(3,4) by auto
qed

theorem partial_flush_miscounts_witness:
  "\<exists>cnx'. room_events 2 (ex_link [Takes 2, EAGAIN, Takes 9] [[1, 2, 3]]) = Some cnx' \<and> write_queue cnx' = [] \<and>
    sent cnx' = [1, 2, 3] \<and> unat (write_queue_bytes cnx') = 2"
  using partial_flush_miscounts [of "ex_link [Takes 2, EAGAIN, Takes 9] [[1, 2, 3]]" "[1, 2, 3]" 2 9]
  by (simp add: ex_link_def)

text \<open>
  C5. A write that blocks turns the main loop before it writes the rest, and does not queue the
  rest: a message written meanwhile lands in the middle of the first one.
\<close>

theorem blocking_write_torn:
  assumes "lc_status cnx = LINK_CONNECTED" "nonblocking cnx" "write_queue cnx = []" "\<not> thread_safe pr"
    and "wait_connected pr = (\<lambda>c. c)"
    and "answers cnx = [Takes k, EAGAIN, Takes m, Takes n]" "0 < k" "k < length bs" "ys \<noteq> []" "length ys \<le> m" "length bs \<le> k + n"
    and turn: "turn = (\<lambda>c. snd (the (link_connection_writev pr False [] [ys] c)))"
  shows "\<exists>cnx'. link_connection_writev pr True [turn] [bs] cnx = Some (LINK_IO_OK, cnx') \<and>
    sent cnx' = sent cnx @ take k bs @ ys @ drop k bs"
proof -
  let ?c = "link_watch_set_condition True True (cnx\<lparr>answers := [Takes m, Takes n], sent := sent cnx @ take k bs\<rparr>)"
  have bs: "bs \<noteq> []" "drop k bs \<noteq> []" using assms(7,8) by auto
  have l2: "\<And>c j. nonblocking c \<Longrightarrow> write_data_loop [EAGAIN, Takes m, Takes n] [drop k bs] j c =
      Some (Write_blocked, [drop k bs], c\<lparr>answers := [Takes m, Takes n]\<rparr>)"
    using bs by (subst write_data_loop.simps) simp
  have w1: "write_data [bs] cnx = Some (Write_blocked, [drop k bs], cnx\<lparr>answers := [Takes m, Takes n], sent := sent cnx @ take k bs\<rparr>)"
    using assms bs l2 by (simp add: write_data_def, subst write_data_loop.simps) (simp add: Let_def LINK_IOV_MAX_def min_absorb1)
  have w2: "write_data [ys] ?c = Some (Written (length ys), [], ?c\<lparr>answers := [Takes n], sent := sent ?c @ ys\<rparr>)"
    by (rule write_all [of _ m]) (use assms in simp_all)
  let ?d = "?c\<lparr>answers := [Takes n], sent := sent ?c @ ys\<rparr>"
  have "link_connection_writev pr False [] [ys] ?c = Some (LINK_IO_OK, ?d)"
    using assms(1,3-5) w2 by (simp add: link_connection_writev_def Let_def, subst continue_write.simps) simp
  then have t: "turn ?c = ?d" by (simp add: turn)
  have w3: "write_data [drop k bs] ?d = Some (Written (length (drop k bs)), [], ?d\<lparr>answers := [], sent := sent ?d @ drop k bs\<rparr>)"
    by (rule write_all [of _ n]) (use assms bs in simp_all)
  have c3: "continue_write pr True [] [drop k bs] ?d = Some (LINK_IO_OK, ?d\<lparr>answers := [], sent := sent ?d @ drop k bs\<rparr>)"
    using w3 by (subst continue_write.simps) simp
  have "continue_write pr True [turn] [bs] cnx = Some (LINK_IO_OK, ?d\<lparr>answers := [], sent := sent ?d @ drop k bs\<rparr>)"
    using w1 assms(4) t c3 by (subst continue_write.simps) (simp add: Let_def)
  then have "link_connection_writev pr True [turn] [bs] cnx = Some (LINK_IO_OK, ?d\<lparr>answers := [], sent := sent ?d @ drop k bs\<rparr>)"
    using assms(1,3-5) by (simp add: link_connection_writev_def Let_def)
  then show ?thesis by simp
qed

theorem blocking_write_torn_witness:
  "\<exists>cnx'. link_connection_writev (ex_process\<lparr>thread_safe := False\<rparr>) True
      [\<lambda>c. snd (the (link_connection_writev (ex_process\<lparr>thread_safe := False\<rparr>) False [] [[7]] c))] [[1, 2, 3]]
      (ex_link [Takes 2, EAGAIN, Takes 9, Takes 9] []) = Some (LINK_IO_OK, cnx') \<and> sent cnx' = [1, 2, 7, 3]"
  using blocking_write_torn [of "ex_link [Takes 2, EAGAIN, Takes 9, Takes 9] []" "ex_process\<lparr>thread_safe := False\<rparr>" 2 9 9 "[1, 2, 3]" "[7]"]
  by (simp add: ex_link_def ex_process_def)

text \<open>
  A write that exceeds the limit is reported as queued, and by \<open>giop_send_buffer_write\<close> as done,
  though the connection was closed and the queue thrown away.
\<close>

lemma overflow_reported_done:
  assumes "lc_status cnx = LINK_CONNECTED" "thread_safe pr" "write_queue cnx \<noteq> []" "max_buffer_bytes cnx \<noteq> 0"
    and "max_buffer_bytes cnx \<le> write_queue_bytes cnx + calc_size (map (\<lambda>v. read_mem env b (iov_base v) (iov_len v)) (iovecs b))"
  shows "\<exists>cnx'. giop_send_buffer_write env pr False turns b cnx = Some (LINK_IO_OK, cnx') \<and>
    lc_status cnx' = LINK_DISCONNECTED \<and> write_queue cnx' = [] \<and> sent cnx' = sent cnx"
  using assms
  by (simp add: giop_send_buffer_write_def link_connection_should_block_def link_connection_writev_def Let_def
      queue_flattened_def queue_signal_def emit_def)

end
