(* ===== verification/Poa_Types.thy ===== *)
theory Poa_Types
imports Prelude "HOL-Library.AList"
begin

text \<open>
  The data of the portable object adaptor: POAs, their objects, POA managers,
  servants and object references, as the structures of poa-types.h,
  portableserver-poa-type.h and corba-object-type.h declare them. A pointer is
  a number, the heap maps the numbers of live structures to their records, and
  a structure that has been freed is no longer in its map. The GHashTable
  members are association lists.

  Code that does not return a result stops: \<open>Fails\<close> stands for a failed
  g_assert, for g_error and for a null or dangling pointer, \<open>Blocks\<close> for
  waiting for a mutex that is held, and \<open>Loops\<close> for a loop that does not end.
\<close>

section \<open>Outcomes\<close>

datatype stop = Fails | Blocks | Loops

text \<open>The exceptions the code raises, by the constant the source names.\<close>

datatype corba_exception =
    ex_CORBA_INV_OBJREF | ex_CORBA_BAD_PARAM | ex_CORBA_OBJECT_NOT_EXIST
  | ex_CORBA_TRANSIENT | ex_CORBA_OBJ_ADAPTER | ex_CORBA_NO_IMPLEMENT
  | ex_CORBA_BAD_OPERATION | ex_CORBA_BAD_INV_ORDER
  | ex_POA_WrongPolicy | ex_POA_InvalidPolicy | ex_POA_ServantAlreadyActive
  | ex_POA_ObjectAlreadyActive | ex_POA_ObjectNotActive | ex_POA_ServantNotActive
  | ex_POA_WrongAdapter | ex_POA_AdapterAlreadyExists | ex_POA_AdapterNonExistent
  | ex_POAManager_AdapterInactive | ex_Current_NoContext

section \<open>Policies\<close>

datatype thread_policy = ORB_CTRL_MODEL | SINGLE_THREAD_MODEL
datatype lifespan_policy = TRANSIENT | PERSISTENT
datatype id_uniqueness_policy = UNIQUE_ID | MULTIPLE_ID
datatype id_assignment_policy = USER_ID | SYSTEM_ID
datatype implicit_activation_policy = IMPLICIT_ACTIVATION | NO_IMPLICIT_ACTIVATION
datatype servant_retention_policy = RETAIN | NON_RETAIN
datatype request_processing_policy =
  USE_ACTIVE_OBJECT_MAP_ONLY | USE_DEFAULT_SERVANT | USE_SERVANT_MANAGER

text \<open>A CORBA_Policy is a type and a value; the type is the constructor.\<close>

datatype policy =
    Thread_policy thread_policy
  | Lifespan_policy lifespan_policy
  | Id_uniqueness_policy id_uniqueness_policy
  | Id_assignment_policy id_assignment_policy
  | Implicit_activation_policy implicit_activation_policy
  | Servant_retention_policy servant_retention_policy
  | Request_processing_policy request_processing_policy
  | Other_policy u32 u32

record policies =
  p_thread :: thread_policy
  p_lifespan :: lifespan_policy
  p_id_uniqueness :: id_uniqueness_policy
  p_id_assignment :: id_assignment_policy
  p_implicit_activation :: implicit_activation_policy
  p_servant_retention :: servant_retention_policy
  p_request_processing :: request_processing_policy

section \<open>Structures\<close>

type_synonym oid = "byte list"

text \<open>The bits of life_flags, and the set of those that are up.\<close>

datatype life_flag =
    NeedPostInvoke | DoEtherealize | IsCleanup | DeactivateDo | Deactivating
  | Deactivated | DestroyDo | Destroying | Destroyed

datatype thread_hint =
    HINT_NONE | HINT_PER_OBJECT | HINT_PER_REQUEST | HINT_PER_POA
  | HINT_PER_CONNECTION | HINT_ONEWAY_AT_IDLE | HINT_ALL_AT_IDLE | HINT_ON_CONTEXT

text \<open>struct ORBit_POAObject_type, with the count of its ORBit_RootObject.\<close>

record POAObject =
  po_refs :: nat
  po_objref :: "nat option"
  po_servant :: "nat option"
  po_poa :: nat
  po_object_id :: "oid option"
  vepvmap_cache :: "nat option"
  po_life :: "life_flag set"
  po_use_cnt :: u16
  po_next :: "nat option"

text \<open>
  struct PortableServer_POA_type with its ORBit_ObjectAdaptor base. The seven
  policy members are the record \<open>policies\<close>.
\<close>

record POA =
  poa_refs :: nat
  adaptor_key :: "byte list"
  poa_thread_hint :: thread_hint
  poa_use_cnt :: u16
  poa_life :: "life_flag set"
  poa_id :: int
  next_sysid :: u32
  poa_name :: string
  parent_poa :: "nat option"
  poa_manager :: nat
  servant_manager :: "nat option"
  default_servant :: "nat option"
  oid_to_obj_map :: "(oid \<times> nat) list"
  held_requests :: "nat list"
  child_poas :: "(string \<times> nat) list"
  poa_policies :: policies

datatype manager_state = HOLDING | ACTIVE | DISCARDING | INACTIVE

record POAManager =
  mgr_refs :: nat
  poa_collection :: "nat list"
  mgr_state :: manager_state

text \<open>struct CORBA_Object_type, the members the adaptor uses.\<close>

record objref =
  ref_refs :: nat
  type_id :: "string option"
  adaptor_obj :: "nat option"

text \<open>
  PortableServer_ServantBase: the head of the chain of the objects the servant
  incarnates, the class of its vepv, and the number of bytes by which the
  pointer vepv no longer points to the start of that table (0 unless the
  servant was passed where the code counts references).
\<close>

record servant =
  sv_private :: "nat option"
  sv_class :: nat
  vepv_shift :: nat

text \<open>
  A received request: the object key and the operation name of the message,
  and the connection it came from.
\<close>

record request =
  req_objkey :: "byte list option"
  req_opname :: string
  req_connection :: nat

section \<open>State\<close>

datatype lock = Poa_lock nat | Manager_lock

text \<open>
  What the code makes known outside: the calls of application code (servant
  managers and finalize functions), the invocations of methods, and the replies
  it writes to a connection.
\<close>

datatype event =
    Incarnate nat oid
  | Preinvoke nat oid string
  | Postinvoke nat oid string "nat option" nat
  | Etherealize nat nat oid bool
  | Finalize nat
  | Invoke nat nat string
  | Exception_reply nat corba_exception
  | Forward_reply nat nat
  | Locate_reply nat bool

datatype queue = Main_queue | Key_queue "nat option" | Connection_queue nat | Idle_queue

record orb =
  poas :: "nat \<Rightarrow> POA option"
  pobjs :: "nat \<Rightarrow> POAObject option"
  managers :: "nat \<Rightarrow> POAManager option"
  objrefs :: "nat \<Rightarrow> objref option"
  servants :: "nat \<Rightarrow> servant option"
  buffers :: "nat \<Rightarrow> request option"
  next_ref :: nat
  orb_refs :: nat
  adaptors :: "nat option list"
  forw_binds :: "byte list \<Rightarrow> nat option"
  current_invocations :: "nat list"
  pushed :: "(queue \<times> nat option \<times> nat option) list"
  locked :: "lock set"
  thread_safe :: bool
  thread_io :: bool
  events :: "event list"

type_synonym 'a run = "stop + 'a"

text \<open>
  The code the adaptor calls and does not contain: a servant's methods as its
  class finds them (None where the class has no impl_finder, otherwise whether
  a skeleton and an implementation were found and whether the method is
  oneway), the lookup of the operations of CORBA::Object, servant managers,
  finalize functions (None where there is none, otherwise whether it raises),
  the class names, and the random bytes of ORBit_genuid_buffer by the number of
  the structure they are for.
\<close>

record hooks =
  impl_finder :: "nat \<Rightarrow> string \<Rightarrow> (bool \<times> bool \<times> bool) option"
  object_finder :: "string \<Rightarrow> bool \<times> bool \<times> bool"
  incarnate :: "nat \<Rightarrow> oid \<Rightarrow> nat option \<times> corba_exception option"
  preinvoke :: "nat \<Rightarrow> oid \<Rightarrow> string \<Rightarrow> (nat option \<times> nat option) \<times> corba_exception option"
  etherealize_raises :: "nat \<Rightarrow> oid \<Rightarrow> bool"
  finalize :: "nat \<Rightarrow> bool option"
  class_name :: "nat \<Rightarrow> string"
  genuid_object :: "nat \<Rightarrow> byte list"
  genuid_cookie :: "nat \<Rightarrow> byte list"

section \<open>Access to the heap\<close>

definition deref :: "(nat \<Rightarrow> 'a option) \<Rightarrow> nat \<Rightarrow> 'a run" where
  "deref heap r = (case heap r of None \<Rightarrow> Inl Fails | Some x \<Rightarrow> Inr x)"

definition g_assert :: "bool \<Rightarrow> 'a \<Rightarrow> 'a run" where
  "g_assert b s = (if b then Inr s else Inl Fails)"

definition set_poa :: "nat \<Rightarrow> (POA \<Rightarrow> POA) \<Rightarrow> orb \<Rightarrow> orb" where
  "set_poa r f s = s\<lparr>poas := (poas s)(r := map_option f (poas s r))\<rparr>"

definition set_pobj :: "nat \<Rightarrow> (POAObject \<Rightarrow> POAObject) \<Rightarrow> orb \<Rightarrow> orb" where
  "set_pobj r f s = s\<lparr>pobjs := (pobjs s)(r := map_option f (pobjs s r))\<rparr>"

definition set_manager :: "nat \<Rightarrow> (POAManager \<Rightarrow> POAManager) \<Rightarrow> orb \<Rightarrow> orb" where
  "set_manager r f s = s\<lparr>managers := (managers s)(r := map_option f (managers s r))\<rparr>"

definition set_objref :: "nat \<Rightarrow> (objref \<Rightarrow> objref) \<Rightarrow> orb \<Rightarrow> orb" where
  "set_objref r f s = s\<lparr>objrefs := (objrefs s)(r := map_option f (objrefs s r))\<rparr>"

definition set_servant :: "nat \<Rightarrow> (servant \<Rightarrow> servant) \<Rightarrow> orb \<Rightarrow> orb" where
  "set_servant r f s = s\<lparr>servants := (servants s)(r := map_option f (servants s r))\<rparr>"

definition log_event :: "event \<Rightarrow> orb \<Rightarrow> orb" where
  "log_event e s = s\<lparr>events := events s @ [e]\<rparr>"

text \<open>
  A pointer that may be NULL; and the table of functions of a servant, read
  through its vepv.
\<close>

definition nonnull :: "'a option \<Rightarrow> 'a run" where
  "nonnull p = (case p of None \<Rightarrow> Inl Fails | Some x \<Rightarrow> Inr x)"

definition vepv_of :: "nat \<Rightarrow> orb \<Rightarrow> servant run" where
  "vepv_of sv s = andThen (deref (servants s) sv) (\<lambda>v. g_assert (vepv_shift v = 0) v)"

text \<open>LINK_MUTEX_LOCK and LINK_MUTEX_UNLOCK do nothing in a program without threads.\<close>

definition mutex_lock :: "lock \<Rightarrow> orb \<Rightarrow> orb run" where
  "mutex_lock l s =
    (if \<not> thread_safe s then Inr s
     else if l \<in> locked s then Inl Blocks
     else Inr (s\<lparr>locked := insert l (locked s)\<rparr>))"

definition mutex_unlock :: "lock \<Rightarrow> orb \<Rightarrow> orb run" where
  "mutex_unlock l s =
    (if \<not> thread_safe s then Inr s
     else if l \<notin> locked s then Inl Fails
     else Inr (s\<lparr>locked := locked s - {l}\<rparr>))"

definition POA_LOCK :: "nat \<Rightarrow> orb \<Rightarrow> orb run" where
  "POA_LOCK r s = andThen (deref (poas s) r) (\<lambda>_. mutex_lock (Poa_lock r) s)"

definition POA_UNLOCK :: "nat \<Rightarrow> orb \<Rightarrow> orb run" where
  "POA_UNLOCK r s = andThen (deref (poas s) r) (\<lambda>_. mutex_unlock (Poa_lock r) s)"

section \<open>Policies of a POA\<close>

definition IS_RETAIN :: "POA \<Rightarrow> bool" where
  "IS_RETAIN p = (p_servant_retention (poa_policies p) = RETAIN)"

definition IS_SYSTEM_ID :: "POA \<Rightarrow> bool" where
  "IS_SYSTEM_ID p = (p_id_assignment (poa_policies p) = SYSTEM_ID)"

definition IS_UNIQUE_ID :: "POA \<Rightarrow> bool" where
  "IS_UNIQUE_ID p = (p_id_uniqueness (poa_policies p) = UNIQUE_ID)"

definition IS_IMPLICIT_ACTIVATION :: "POA \<Rightarrow> bool" where
  "IS_IMPLICIT_ACTIVATION p = (p_implicit_activation (poa_policies p) = IMPLICIT_ACTIVATION)"

definition request_processing :: "POA \<Rightarrow> request_processing_policy" where
  "request_processing p = p_request_processing (poa_policies p)"

fun ORBit_POA_set_policy :: "policies \<Rightarrow> policy \<Rightarrow> policies" where
  "ORBit_POA_set_policy p (Thread_policy v) = p\<lparr>p_thread := v\<rparr>"
| "ORBit_POA_set_policy p (Lifespan_policy v) = p\<lparr>p_lifespan := v\<rparr>"
| "ORBit_POA_set_policy p (Id_uniqueness_policy v) = p\<lparr>p_id_uniqueness := v\<rparr>"
| "ORBit_POA_set_policy p (Id_assignment_policy v) = p\<lparr>p_id_assignment := v\<rparr>"
| "ORBit_POA_set_policy p (Implicit_activation_policy v) = p\<lparr>p_implicit_activation := v\<rparr>"
| "ORBit_POA_set_policy p (Servant_retention_policy v) = p\<lparr>p_servant_retention := v\<rparr>"
| "ORBit_POA_set_policy p (Request_processing_policy v) = p\<lparr>p_request_processing := v\<rparr>"
| "ORBit_POA_set_policy p (Other_policy t v) = p"

definition default_policies :: policies where
  "default_policies =
    \<lparr>p_thread = SINGLE_THREAD_MODEL, p_lifespan = TRANSIENT, p_id_uniqueness = UNIQUE_ID,
     p_id_assignment = SYSTEM_ID, p_implicit_activation = NO_IMPLICIT_ACTIVATION,
     p_servant_retention = RETAIN, p_request_processing = USE_ACTIVE_OBJECT_MAP_ONLY\<rparr>"

definition ORBit_POA_set_policies :: "policy list \<Rightarrow> corba_exception + policies" where
  "ORBit_POA_set_policies ps =
    (let p = foldl ORBit_POA_set_policy default_policies ps in
     if p_servant_retention p = NON_RETAIN \<and> p_request_processing p = USE_ACTIVE_OBJECT_MAP_ONLY
       then Inl ex_POA_InvalidPolicy
     else if p_request_processing p = USE_DEFAULT_SERVANT \<and> p_id_uniqueness p = UNIQUE_ID
       then Inl ex_POA_InvalidPolicy
     else if p_implicit_activation p = IMPLICIT_ACTIVATION \<and>
         (p_id_assignment p = USER_ID \<or> p_servant_retention p = NON_RETAIN)
       then Inl ex_POA_InvalidPolicy
     else Inr p)"

section \<open>Keys of the object map\<close>

text \<open>
  The hash of a system-assigned id reads the first four bytes of the id; bytes
  past a shorter id are whatever follows it in memory, here \<open>behind\<close>.
\<close>

definition ORBit_ObjectId_sysid_hash :: "byte list \<Rightarrow> oid \<Rightarrow> u32" where
  "ORBit_ObjectId_sysid_hash behind oid = of_le32 (take 4 (oid @ behind))"

fun octet_hash_step :: "u32 \<Rightarrow> byte \<Rightarrow> u32" where
  "octet_hash_step h b =
    (let h1 = push_bit 4 h + scast b;
         g = and h1 0xf0000000
     in if g \<noteq> 0 then xor (xor h1 (drop_bit 24 g)) g else h1)"

definition ORBit_sequence_CORBA_octet_hash :: "oid \<Rightarrow> u32" where
  "ORBit_sequence_CORBA_octet_hash oid = foldl octet_hash_step 0 oid"

definition ORBit_sequence_CORBA_octet_equal :: "oid \<Rightarrow> oid \<Rightarrow> bool" where
  "ORBit_sequence_CORBA_octet_equal o1 o2 =
    (length o1 = length o2 \<and> take (length o1) o1 = take (length o1) o2)"

text \<open>What a GHashTable asks of the two functions it is created with.\<close>

locale table_keys =
  fixes valid :: "'k \<Rightarrow> bool"
    and hash_of :: "'k \<Rightarrow> u32"
    and equal_keys :: "'k \<Rightarrow> 'k \<Rightarrow> bool"
  assumes equal_refl: "equal_keys x x"
    and equal_sym: "equal_keys x y \<Longrightarrow> equal_keys y x"
    and equal_trans: "equal_keys x y \<Longrightarrow> equal_keys y z \<Longrightarrow> equal_keys x z"
    and equal_hash: "valid x \<Longrightarrow> valid y \<Longrightarrow> equal_keys x y \<Longrightarrow> hash_of x = hash_of y"
begin

lemma differ_hash: "valid x \<Longrightarrow> valid y \<Longrightarrow> hash_of x \<noteq> hash_of y \<Longrightarrow> \<not> equal_keys x y"
  using equal_hash by blast

lemma equal_class: "equal_keys x y \<Longrightarrow> equal_keys x z = equal_keys y z"
  using equal_sym equal_trans by blast

end

lemma octet_equal_iff: "ORBit_sequence_CORBA_octet_equal o1 o2 = (o1 = o2)"
  by (auto simp: ORBit_sequence_CORBA_octet_equal_def)

interpretation user_ids: table_keys "\<lambda>_. True" ORBit_sequence_CORBA_octet_hash
    ORBit_sequence_CORBA_octet_equal
  by unfold_locales (auto simp: octet_equal_iff)

interpretation system_ids: table_keys "\<lambda>oid. 4 \<le> length oid" "ORBit_ObjectId_sysid_hash behind"
    ORBit_sequence_CORBA_octet_equal for behind
  by unfold_locales (auto simp: octet_equal_iff)

end
