(* ===== verification/Poa_Objects.thy ===== *)
theory Poa_Objects
imports Poa_Types
begin

text \<open>
  Reference counts, the objects of a POA and their servants (orbit-object.c and
  the object part of poa.c): creation, activation, deactivation with its
  deferred form, and release.
\<close>

section \<open>Reference counts\<close>

definition ORBIT_REFCOUNT_MAX :: nat where "ORBIT_REFCOUNT_MAX = 2 ^ 20"

text \<open>ORBit_RootObject_duplicate on each type of structure.\<close>

definition dup_poa :: "nat \<Rightarrow> orb \<Rightarrow> orb run" where
  "dup_poa r s = andThen (deref (poas s) r)
     (\<lambda>p. Inr (set_poa r (\<lambda>p. p\<lparr>poa_refs := poa_refs p + 1\<rparr>) s))"

definition dup_pobj :: "nat \<Rightarrow> orb \<Rightarrow> orb run" where
  "dup_pobj r s = andThen (deref (pobjs s) r)
     (\<lambda>p. Inr (set_pobj r (\<lambda>p. p\<lparr>po_refs := po_refs p + 1\<rparr>) s))"

definition dup_manager :: "nat \<Rightarrow> orb \<Rightarrow> orb run" where
  "dup_manager r s = andThen (deref (managers s) r)
     (\<lambda>p. Inr (set_manager r (\<lambda>p. p\<lparr>mgr_refs := mgr_refs p + 1\<rparr>) s))"

definition dup_objref :: "nat \<Rightarrow> orb \<Rightarrow> orb run" where
  "dup_objref r s = andThen (deref (objrefs s) r)
     (\<lambda>p. Inr (set_objref r (\<lambda>p. p\<lparr>ref_refs := ref_refs p + 1\<rparr>) s))"

text \<open>The count after do_unref, which asserts that it was valid.\<close>

definition do_unref :: "nat \<Rightarrow> nat run" where
  "do_unref n = (if n < ORBIT_REFCOUNT_MAX \<and> n > 0 then Inr (n - 1) else Inl Fails)"

definition ORBit_POAManager_free_fn :: "nat \<Rightarrow> orb \<Rightarrow> orb run" where
  "ORBit_POAManager_free_fn r s = andThen (deref (managers s) r)
     (\<lambda>m. g_assert (poa_collection m = []) (s\<lparr>managers := (managers s)(r := None)\<rparr>))"

definition release_manager :: "nat \<Rightarrow> orb \<Rightarrow> orb run" where
  "release_manager r s = andThen (deref (managers s) r) (\<lambda>m.
     andThen (do_unref (mgr_refs m)) (\<lambda>n.
     let s = set_manager r (\<lambda>m. m\<lparr>mgr_refs := n\<rparr>) s in
     if n = 0 then ORBit_POAManager_free_fn r s else Inr s))"

text \<open>The POA gives up its tables, its reference to the ORB and that to its manager.\<close>

definition ORBit_POA_free_fn :: "nat \<Rightarrow> orb \<Rightarrow> orb run" where
  "ORBit_POA_free_fn r s = andThen (deref (poas s) r) (\<lambda>p.
     andThen (do_unref (orb_refs s)) (\<lambda>n.
     andThen (release_manager (poa_manager p) (s\<lparr>orb_refs := n\<rparr>)) (\<lambda>s.
     Inr (s\<lparr>poas := (poas s)(r := None)\<rparr>))))"

definition release_poa :: "nat \<Rightarrow> orb \<Rightarrow> orb run" where
  "release_poa r s = andThen (deref (poas s) r) (\<lambda>p.
     andThen (do_unref (poa_refs p)) (\<lambda>n.
     let s = set_poa r (\<lambda>p. p\<lparr>poa_refs := n\<rparr>) s in
     if n = 0 then ORBit_POA_free_fn r s else Inr s))"

text \<open>
  The destructor of an object takes it out of the map of its POA, unless the
  POA is traversing the map: then the object is marked, and freed by the traversal.
\<close>

definition ORBit_POAObject_release_cb :: "nat \<Rightarrow> orb \<Rightarrow> orb run" where
  "ORBit_POAObject_release_cb o' s = andThen (deref (pobjs s) o') (\<lambda>q.
     andThen (deref (poas s) (po_poa q)) (\<lambda>p.
     andThen (g_assert (po_servant q = None) s) (\<lambda>s.
     andThen (nonnull (po_object_id q)) (\<lambda>oid.
     let s = (if Deactivating \<notin> poa_life p
              then (set_poa (po_poa q) (\<lambda>p. p\<lparr>oid_to_obj_map :=
                      AList.delete oid (oid_to_obj_map p)\<rparr>) s)
                    \<lparr>pobjs := (pobjs s)(o' := None)\<rparr>
              else set_pobj o' (\<lambda>q. q\<lparr>po_life := {Destroyed}, po_object_id := None\<rparr>) s)
     in release_poa (po_poa q) s))))"

definition release_pobj :: "nat \<Rightarrow> orb \<Rightarrow> orb run" where
  "release_pobj o' s = andThen (deref (pobjs s) o') (\<lambda>q.
     andThen (do_unref (po_refs q)) (\<lambda>n.
     let s = set_pobj o' (\<lambda>q. q\<lparr>po_refs := n\<rparr>) s in
     if n = 0 then ORBit_POAObject_release_cb o' s else Inr s))"

definition CORBA_Object_release_cb :: "nat \<Rightarrow> orb \<Rightarrow> orb run" where
  "CORBA_Object_release_cb b s = andThen (deref (objrefs s) b) (\<lambda>ref.
     let s = s\<lparr>objrefs := (objrefs s)(b := None)\<rparr> in
     case adaptor_obj ref of
       None \<Rightarrow> Inr s
     | Some o' \<Rightarrow> release_pobj o' (set_pobj o' (\<lambda>q. q\<lparr>po_objref := None\<rparr>) s))"

definition release_objref :: "nat \<Rightarrow> orb \<Rightarrow> orb run" where
  "release_objref b s = andThen (deref (objrefs s) b) (\<lambda>ref.
     andThen (do_unref (ref_refs ref)) (\<lambda>n.
     let s = set_objref b (\<lambda>ref. ref\<lparr>ref_refs := n\<rparr>) s in
     if n = 0 then CORBA_Object_release_cb b s else Inr s))"

text \<open>ORBit_RootObject_release does nothing on NULL.\<close>

definition release_opt :: "(nat \<Rightarrow> orb \<Rightarrow> orb run) \<Rightarrow> nat option \<Rightarrow> orb \<Rightarrow> orb run" where
  "release_opt rel p s = (case p of None \<Rightarrow> Inr s | Some r \<Rightarrow> rel r s)"

section \<open>The object map\<close>

definition ORBit_POA_object_id_lookup_T :: "nat \<Rightarrow> oid \<Rightarrow> orb \<Rightarrow> (nat option \<times> orb) run" where
  "ORBit_POA_object_id_lookup_T r oid s = andThen (deref (poas s) r) (\<lambda>p.
     case map_of (oid_to_obj_map p) oid of
       None \<Rightarrow> Inr (None, s)
     | Some o' \<Rightarrow> andThen (dup_pobj o' s) (\<lambda>s. Inr (Some o', s)))"

abbreviation ORBIT_OBJECT_ID_LEN :: nat where "ORBIT_OBJECT_ID_LEN \<equiv> 4"
abbreviation ORBIT_ADAPTOR_KEY_LEN :: nat where "ORBIT_ADAPTOR_KEY_LEN \<equiv> 16"
abbreviation ORBIT_ADAPTOR_PREFIX_LEN :: nat where "ORBIT_ADAPTOR_PREFIX_LEN \<equiv> 20"

definition ORBit_POA_new_system_objid_T :: "hooks \<Rightarrow> nat \<Rightarrow> orb \<Rightarrow> (oid \<times> orb) run" where
  "ORBit_POA_new_system_objid_T h r s = andThen (deref (poas s) r) (\<lambda>p.
     andThen (g_assert (IS_SYSTEM_ID p) s) (\<lambda>s.
     let n = next_sysid p + 1 in
     Inr (le32 n @ genuid_object h (next_ref s),
          set_poa r (\<lambda>p. p\<lparr>next_sysid := n\<rparr>) s)))"

definition new_pobj :: "nat \<Rightarrow> POAObject" where
  "new_pobj r =
    \<lparr>po_refs = 0, po_objref = None, po_servant = None, po_poa = r, po_object_id = None,
     vepvmap_cache = None, po_life = {}, po_use_cnt = 0, po_next = None\<rparr>"

text \<open>The id of a new object, by the policy of the POA and the id asked for.\<close>

definition new_object_id :: "hooks \<Rightarrow> nat \<Rightarrow> oid option \<Rightarrow> orb \<Rightarrow> (oid \<times> orb) run" where
  "new_object_id h r objid s = andThen (deref (poas s) r) (\<lambda>p.
     if IS_SYSTEM_ID p then
       (case objid of
          Some oid \<Rightarrow> g_assert (length oid = 4 + ORBIT_OBJECT_ID_LEN) (oid, s)
        | None \<Rightarrow> ORBit_POA_new_system_objid_T h r s)
     else andThen (nonnull objid) (\<lambda>oid. Inr (oid, s)))"

definition ORBit_POA_create_object_T ::
    "hooks \<Rightarrow> nat \<Rightarrow> oid option \<Rightarrow> orb \<Rightarrow> (nat \<times> orb) run" where
  "ORBit_POA_create_object_T h r objid s = andThen (dup_poa r s) (\<lambda>s.
     andThen (new_object_id h r objid s) (\<lambda>(oid, s).
     let n = next_ref s;
         s = s\<lparr>next_ref := n + 1,
               pobjs := (pobjs s)(n \<mapsto> (new_pobj r)\<lparr>po_object_id := Some oid\<rparr>)\<rparr>
     in Inr (n, set_poa r (\<lambda>p. p\<lparr>oid_to_obj_map := AList.update oid n (oid_to_obj_map p)\<rparr>) s)))"

section \<open>Servants\<close>

text \<open>A servant incarnates any number of objects, chained through their next.\<close>

definition link_servant :: "nat \<Rightarrow> nat \<Rightarrow> orb \<Rightarrow> orb run" where
  "link_servant o' sv s = andThen (deref (servants s) sv) (\<lambda>v.
     Inr (set_servant sv (\<lambda>v. v\<lparr>sv_private := Some o'\<rparr>)
         (set_pobj o' (\<lambda>q. q\<lparr>po_servant := Some sv, po_next := sv_private v\<rparr>) s)))"

definition ORBit_POA_activate_object_T :: "nat \<Rightarrow> nat \<Rightarrow> nat option \<Rightarrow> orb \<Rightarrow> orb run" where
  "ORBit_POA_activate_object_T r o' servant s = andThen (deref (poas s) r) (\<lambda>p.
     andThen (deref (pobjs s) o') (\<lambda>q.
     andThen (g_assert (po_servant q = None) s) (\<lambda>s.
     andThen (g_assert (DeactivateDo \<notin> poa_life p) s) (\<lambda>s.
     andThen (g_assert (po_use_cnt q = 0) s) (\<lambda>s.
     andThen (nonnull servant) (\<lambda>sv.
     andThen (vepv_of sv s) (\<lambda>v.
     andThen (link_servant o' sv
               (set_pobj o' (\<lambda>q. q\<lparr>vepvmap_cache := Some (sv_class v)\<rparr>) s)) (\<lambda>s.
     dup_pobj o' s))))))))"

text \<open>The loop \<open>for (; l && l->next != pobj; l = l->next);\<close> and its assertion.\<close>

partial_function (option) chain_before :: "orb \<Rightarrow> nat \<Rightarrow> nat option \<Rightarrow> nat run option" where
  "chain_before s o' l = (case l of
     None \<Rightarrow> Some (Inl Fails)
   | Some a \<Rightarrow> (case pobjs s a of
        None \<Rightarrow> Some (Inl Fails)
      | Some q \<Rightarrow> if po_next q = Some o' then Some (Inr a)
                  else chain_before s o' (po_next q)))"

definition chain_search :: "orb \<Rightarrow> nat \<Rightarrow> nat option \<Rightarrow> nat run" where
  "chain_search s o' l = (case chain_before s o' l of None \<Rightarrow> Inl Loops | Some r \<Rightarrow> r)"

text \<open>Takes an object out of the chain of the servant it had.\<close>

definition unlink_servant :: "nat \<Rightarrow> nat \<Rightarrow> orb \<Rightarrow> orb run" where
  "unlink_servant o' sv s = andThen (deref (servants s) sv) (\<lambda>v.
     andThen (deref (pobjs s) o') (\<lambda>q.
     andThen (if sv_private v = Some o'
              then Inr (set_servant sv (\<lambda>v. v\<lparr>sv_private := po_next q\<rparr>) s)
              else andThen (chain_search s o' (sv_private v)) (\<lambda>l.
                   Inr (set_pobj l (\<lambda>ql. ql\<lparr>po_next := po_next q\<rparr>) s))) (\<lambda>s.
     Inr (set_pobj o' (\<lambda>q. q\<lparr>po_next := None\<rparr>) s))))"

text \<open>
  The application code that runs when an object loses its servant: the
  servant activator of the POA, then the finalize function of the servant,
  with the POA unlocked. The flag returned is whether one of them raised an
  exception. A servant is memory of the application: the call of its finalize
  function is an event of the log, and whether the function frees the servant
  is not part of the state.
\<close>

definition call_etherealize ::
    "hooks \<Rightarrow> nat \<Rightarrow> nat \<Rightarrow> nat \<Rightarrow> orb \<Rightarrow> (bool \<times> orb) run" where
  "call_etherealize h r o' sv s = andThen (deref (poas s) r) (\<lambda>p.
     andThen (deref (pobjs s) o') (\<lambda>q.
     if request_processing p = USE_SERVANT_MANAGER then
       andThen (nonnull (servant_manager p)) (\<lambda>sm.
       andThen (vepv_of sm s) (\<lambda>_.
       andThen (nonnull (po_object_id q)) (\<lambda>oid.
       Inr (etherealize_raises h sm oid,
            log_event (Etherealize sm sv oid (IsCleanup \<in> po_life q)) s))))
     else Inr (False, s)))"

definition call_finalize :: "hooks \<Rightarrow> nat \<Rightarrow> nat \<Rightarrow> orb \<Rightarrow> (bool \<times> orb) run" where
  "call_finalize h r sv s = andThen (vepv_of sv s) (\<lambda>_.
     case finalize h sv of
       None \<Rightarrow> Inr (False, s)
     | Some raises \<Rightarrow>
         andThen (POA_UNLOCK r s) (\<lambda>s.
         andThen (POA_LOCK r (log_event (Finalize sv) s)) (\<lambda>s. Inr (raises, s))))"

definition etherealize_object :: "hooks \<Rightarrow> nat \<Rightarrow> nat \<Rightarrow> nat \<Rightarrow> orb \<Rightarrow> orb run" where
  "etherealize_object h r o' sv s =
     andThen (call_etherealize h r o' sv
               (set_pobj o' (\<lambda>q. q\<lparr>po_use_cnt := po_use_cnt q + 1\<rparr>) s)) (\<lambda>(raised1, s).
     andThen (call_finalize h r sv s) (\<lambda>(raised2, s).
     andThen (g_assert (\<not> raised1 \<and> \<not> raised2)
               (set_pobj o' (\<lambda>q. q\<lparr>po_use_cnt := po_use_cnt q - 1\<rparr>) s)) Inr))"

definition ORBit_POA_deactivate_object_T ::
    "hooks \<Rightarrow> nat \<Rightarrow> nat \<Rightarrow> bool \<Rightarrow> bool \<Rightarrow> orb \<Rightarrow> orb run" where
  "ORBit_POA_deactivate_object_T h r o' do_etherealize is_cleanup s =
     andThen (deref (pobjs s) o') (\<lambda>q.
     case po_servant q of
       None \<Rightarrow> Inr s
     | Some sv \<Rightarrow>
       let fl = po_life q;
           fl = (if do_etherealize \<and> DeactivateDo \<notin> fl then insert DoEtherealize fl else fl);
           fl = (if is_cleanup then insert IsCleanup fl else fl)
       in if po_use_cnt q > 0
       then Inr (set_pobj o' (\<lambda>q. q\<lparr>po_life := insert NeedPostInvoke (insert DeactivateDo fl)\<rparr>) s)
       else
         andThen (unlink_servant o' sv
                   (set_pobj o' (\<lambda>q. q\<lparr>po_life := fl, po_servant := None\<rparr>) s)) (\<lambda>s.
         andThen (if DoEtherealize \<in> fl then etherealize_object h r o' sv s else Inr s) (\<lambda>s.
         release_pobj o'
           (set_pobj o' (\<lambda>q. q\<lparr>po_life := po_life q - {DeactivateDo, IsCleanup, DoEtherealize}\<rparr>) s))))"

definition ORBit_POAObject_is_active :: "nat option \<Rightarrow> orb \<Rightarrow> bool run" where
  "ORBit_POAObject_is_active p s = (case p of
     None \<Rightarrow> Inr False
   | Some o' \<Rightarrow> andThen (deref (pobjs s) o') (\<lambda>q. Inr (po_servant q \<noteq> None)))"

definition ORBit_POAObject_post_invoke :: "hooks \<Rightarrow> nat \<Rightarrow> orb \<Rightarrow> orb run" where
  "ORBit_POAObject_post_invoke h o' s = andThen (deref (pobjs s) o') (\<lambda>q.
     if po_use_cnt q > 0 then Inr s
     else if DeactivateDo \<in> po_life q
     then ORBit_POA_deactivate_object_T h (po_poa q) o' False False s
     else Inr s)"

section \<open>References\<close>

definition ORBit_objref_new :: "nat \<Rightarrow> string \<Rightarrow> orb \<Rightarrow> (nat \<times> orb) run" where
  "ORBit_objref_new o' tid s =
     andThen (dup_pobj o' s) (\<lambda>s.
     let n = next_ref s in
     Inr (n, s\<lparr>objrefs := (objrefs s)(n \<mapsto> \<lparr>ref_refs = 0, type_id = Some tid, adaptor_obj = Some o'\<rparr>),
               next_ref := n + 1\<rparr>))"

definition ORBit_POA_obj_to_ref ::
    "hooks \<Rightarrow> nat \<Rightarrow> nat option \<Rightarrow> string option \<Rightarrow> orb \<Rightarrow> (nat \<times> orb) run" where
  "ORBit_POA_obj_to_ref h r pobj intf s =
     andThen (nonnull pobj) (\<lambda>o'.
     andThen (deref (pobjs s) o') (\<lambda>q.
     andThen (g_assert (po_objref q = None) s) (\<lambda>s.
     andThen (case intf of
                Some t \<Rightarrow> Inr t
              | None \<Rightarrow> andThen (nonnull (po_servant q)) (\<lambda>sv.
                         andThen (vepv_of sv s) (\<lambda>v. Inr (class_name h (sv_class v))))) (\<lambda>t.
     andThen (ORBit_objref_new o' t s) (\<lambda>(b, s).
     andThen (dup_objref b (set_pobj o' (\<lambda>q. q\<lparr>po_objref := Some b\<rparr>) s)) (\<lambda>s.
     Inr (b, s)))))))"

definition ORBit_POAObject_object_to_objkey :: "nat \<Rightarrow> orb \<Rightarrow> byte list run" where
  "ORBit_POAObject_object_to_objkey o' s =
     andThen (deref (pobjs s) o') (\<lambda>q.
     andThen (deref (poas s) (po_poa q)) (\<lambda>p.
     andThen (nonnull (po_object_id q)) (\<lambda>oid. Inr (adaptor_key p @ oid))))"

end
