(* ===== verification/Poa_Requests.thy ===== *)
theory Poa_Requests
imports Poa_Objects
begin

text \<open>
  Requests: from the object key of a received message to its adaptor
  (orbit-adaptor.c), to the object, and through the servant (poa.c). The
  handling of a request is cut in two at the call of the method, which runs
  with the POA unlocked: the first part yields a frame, the local variables the
  second part needs, and any operation may take place in between.
\<close>

section \<open>The stack of invocations\<close>

definition ORBit_POA_invocation_stack_push :: "nat \<Rightarrow> orb \<Rightarrow> orb" where
  "ORBit_POA_invocation_stack_push o' s =
    s\<lparr>current_invocations := o' # current_invocations s\<rparr>"

definition ORBit_POA_invocation_stack_pop :: "nat \<Rightarrow> orb \<Rightarrow> orb" where
  "ORBit_POA_invocation_stack_pop o' s =
    s\<lparr>current_invocations := remove1 o' (current_invocations s)\<rparr>"

definition ORBit_POA_invocation_stack_peek :: "orb \<Rightarrow> nat option" where
  "ORBit_POA_invocation_stack_peek s =
    (case current_invocations s of [] \<Rightarrow> None | o' # _ \<Rightarrow> Some o')"

text \<open>The id of the deepest invocation of the servant: the loop goes through the whole list.\<close>

fun stack_lookup_objid :: "nat \<Rightarrow> orb \<Rightarrow> nat list \<Rightarrow> oid option \<Rightarrow> oid option run" where
  "stack_lookup_objid sv s [] found = Inr found"
| "stack_lookup_objid sv s (o' # l) found = andThen (deref (pobjs s) o') (\<lambda>q.
     if po_servant q = Some sv
     then andThen (nonnull (po_object_id q)) (\<lambda>oid. stack_lookup_objid sv s l (Some oid))
     else stack_lookup_objid sv s l found)"

definition ORBit_POA_invocation_stack_lookup_objid :: "nat \<Rightarrow> orb \<Rightarrow> oid option run" where
  "ORBit_POA_invocation_stack_lookup_objid sv s =
    stack_lookup_objid sv s (current_invocations s) None"

fun stack_lookup_objref ::
    "hooks \<Rightarrow> nat \<Rightarrow> nat \<Rightarrow> orb \<Rightarrow> nat list \<Rightarrow> nat option \<Rightarrow> (nat option \<times> orb) run" where
  "stack_lookup_objref h r sv s [] found = Inr (found, s)"
| "stack_lookup_objref h r sv s (o' # l) found = andThen (deref (pobjs s) o') (\<lambda>q.
     if po_servant q = Some sv
     then andThen (ORBit_POA_obj_to_ref h r (Some o') None s) (\<lambda>(b, s).
          stack_lookup_objref h r sv s l (Some b))
     else stack_lookup_objref h r sv s l found)"

definition ORBit_POA_invocation_stack_lookup_objref ::
    "hooks \<Rightarrow> nat \<Rightarrow> nat \<Rightarrow> orb \<Rightarrow> (nat option \<times> orb) run" where
  "ORBit_POA_invocation_stack_lookup_objref h r sv s =
    stack_lookup_objref h r sv s (current_invocations s) None"

section \<open>Replies\<close>

definition ORBit_recv_buffer_return_sys_exception ::
    "nat option \<Rightarrow> corba_exception \<Rightarrow> orb \<Rightarrow> orb run" where
  "ORBit_recv_buffer_return_sys_exception buf ev s = (case buf of
     None \<Rightarrow> Inr s
   | Some b \<Rightarrow> andThen (deref (buffers s) b) (\<lambda>_. Inr (log_event (Exception_reply b ev) s)))"

definition return_exception ::
    "nat option \<Rightarrow> bool \<Rightarrow> corba_exception \<Rightarrow> orb \<Rightarrow> orb run" where
  "return_exception buf oneway ev s =
    (if buf \<noteq> None \<and> oneway then Inr s else ORBit_recv_buffer_return_sys_exception buf ev s)"

definition giop_recv_buffer_unuse :: "nat option \<Rightarrow> orb \<Rightarrow> orb run" where
  "giop_recv_buffer_unuse buf s = (case buf of
     None \<Rightarrow> Inr s
   | Some b \<Rightarrow> andThen (deref (buffers s) b) (\<lambda>_. Inr (s\<lparr>buffers := (buffers s)(b := None)\<rparr>)))"

section \<open>Servant managers\<close>

text \<open>Makes the servant a manager has returned that of the object.\<close>

definition take_servant :: "nat \<Rightarrow> nat \<Rightarrow> nat option \<Rightarrow> corba_exception option \<Rightarrow> orb \<Rightarrow>
    (corba_exception option \<times> orb) run" where
  "take_servant r o' retval ev s = (case retval of
     None \<Rightarrow> Inr (ev, s)
   | Some sv \<Rightarrow> andThen (deref (poas s) r) (\<lambda>p. andThen (deref (servants s) sv) (\<lambda>v.
       if IS_UNIQUE_ID p \<and> sv_private v \<noteq> None then Inr (Some ex_CORBA_OBJ_ADAPTER, s)
       else andThen (link_servant o' sv s) (\<lambda>s. andThen (dup_pobj o' s) (\<lambda>s. Inr (ev, s))))))"

definition ORBit_POA_ServantManager_use_servant ::
    "hooks \<Rightarrow> nat \<Rightarrow> nat \<Rightarrow> string \<Rightarrow> orb \<Rightarrow>
     (nat option \<times> corba_exception option \<times> orb) run" where
  "ORBit_POA_ServantManager_use_servant h r o' opname s =
     andThen (deref (poas s) r) (\<lambda>p.
     andThen (deref (pobjs s) o') (\<lambda>q.
     andThen (nonnull (po_object_id q)) (\<lambda>oid.
     andThen (nonnull (servant_manager p)) (\<lambda>sm.
     andThen (vepv_of sm s) (\<lambda>_.
     if IS_RETAIN p then
       (let (retval, ev) = incarnate h sm oid in
        andThen (take_servant r o' retval ev (log_event (Incarnate sm oid) s)) (\<lambda>(ev, s).
        Inr (None, ev, s)))
     else
       (let ((retval, cookie), ev) = preinvoke h sm oid opname in
        andThen (take_servant r o' retval ev (log_event (Preinvoke sm oid opname) s)) (\<lambda>(ev, s).
        Inr (cookie, ev, s))))))))"

definition ORBit_POA_ServantManager_unuse_servant ::
    "nat \<Rightarrow> nat \<Rightarrow> string \<Rightarrow> nat option \<Rightarrow> oid option \<Rightarrow> nat option \<Rightarrow> orb \<Rightarrow> orb run" where
  "ORBit_POA_ServantManager_unuse_servant r o' opname cookie oid serv s =
     andThen (deref (poas s) r) (\<lambda>p.
     andThen (g_assert (\<not> IS_RETAIN p) s) (\<lambda>s.
     andThen (nonnull (servant_manager p)) (\<lambda>sm.
     andThen (vepv_of sm s) (\<lambda>_.
     andThen (nonnull serv) (\<lambda>sv.
     andThen (unlink_servant o' sv (set_pobj o' (\<lambda>q. q\<lparr>po_servant := None\<rparr>) s)) (\<lambda>s.
     andThen (release_pobj o' s) (\<lambda>s.
     andThen (deref (pobjs s) o') (\<lambda>_.
     andThen (nonnull oid) (\<lambda>i.
     Inr (log_event (Postinvoke sm i opname cookie sv) s))))))))))"

section \<open>One request on an object\<close>

record frame =
  fr_pobj :: nat
  fr_poa :: nat
  fr_buffer :: "nat option"
  fr_opname :: string
  fr_cookie :: "nat option"
  fr_oid :: "oid option"
  fr_invoked :: bool
  fr_adaptor :: "nat option"

datatype gate = Enter | Queue | Refuse corba_exception

text \<open>The switch over the state of the POA manager.\<close>

fun manager_gate :: "manager_state \<Rightarrow> bool \<Rightarrow> gate" where
  "manager_gate HOLDING remote = (if remote then Queue else Refuse ex_CORBA_TRANSIENT)"
| "manager_gate DISCARDING remote = Refuse ex_CORBA_TRANSIENT"
| "manager_gate INACTIVE remote = Refuse ex_CORBA_OBJ_ADAPTER"
| "manager_gate ACTIVE remote = Enter"

text \<open>The label clean_out.\<close>

definition clean_out :: "nat \<Rightarrow> orb \<Rightarrow> orb run" where
  "clean_out r s = andThen (POA_UNLOCK r s) (release_poa r)"

text \<open>The switch over the request processing policy, for an object without a servant.\<close>

definition find_servant :: "hooks \<Rightarrow> nat \<Rightarrow> nat \<Rightarrow> string \<Rightarrow> orb \<Rightarrow>
    (nat option \<times> corba_exception option \<times> orb) run" where
  "find_servant h r o' opname s =
     andThen (deref (poas s) r) (\<lambda>p. andThen (deref (pobjs s) o') (\<lambda>q.
     if po_servant q \<noteq> None then Inr (None, None, s)
     else (case request_processing p of
       USE_ACTIVE_OBJECT_MAP_ONLY \<Rightarrow> Inr (None, Some ex_CORBA_OBJECT_NOT_EXIST, s)
     | USE_DEFAULT_SERVANT \<Rightarrow>
         andThen (ORBit_POA_activate_object_T r o' (default_servant p) s) (\<lambda>s.
         Inr (None, None, s))
     | USE_SERVANT_MANAGER \<Rightarrow> ORBit_POA_ServantManager_use_servant h r o' opname s)))"

text \<open>What the finders of the class and of CORBA::Object yield.\<close>

definition find_method :: "hooks \<Rightarrow> nat \<Rightarrow> string \<Rightarrow> bool \<times> bool \<times> bool" where
  "find_method h sv opname = (case impl_finder h sv opname of
     Some (True, imp, oneway) \<Rightarrow> (True, imp, oneway)
   | _ \<Rightarrow> object_finder h opname)"

text \<open>From the return of the method to the end of ORBit_POAObject_handle_request.\<close>

definition give_back_servant :: "hooks \<Rightarrow> frame \<Rightarrow> orb \<Rightarrow> orb run" where
  "give_back_servant h f s = andThen (deref (poas s) (fr_poa f)) (\<lambda>p.
     if IS_RETAIN p then Inr s
     else (case request_processing p of
       USE_SERVANT_MANAGER \<Rightarrow> andThen (deref (pobjs s) (fr_pobj f)) (\<lambda>q.
         ORBit_POA_ServantManager_unuse_servant (fr_poa f) (fr_pobj f) (fr_opname f)
           (fr_cookie f) (fr_oid f) (po_servant q) s)
     | USE_DEFAULT_SERVANT \<Rightarrow>
         ORBit_POA_deactivate_object_T h (fr_poa f) (fr_pobj f) False False s
     | USE_ACTIVE_OBJECT_MAP_ONLY \<Rightarrow> Inl Fails))"

text \<open>The object is in use once less, and is deactivated if that was left to do.\<close>

definition end_invocation :: "hooks \<Rightarrow> frame \<Rightarrow> orb \<Rightarrow> orb run" where
  "end_invocation h f s = andThen (deref (pobjs s) (fr_pobj f)) (\<lambda>q.
     let s = set_pobj (fr_pobj f) (\<lambda>q. q\<lparr>po_use_cnt := po_use_cnt q - 1\<rparr>)
               (ORBit_POA_invocation_stack_pop (fr_pobj f) s)
     in andThen (if NeedPostInvoke \<in> po_life q
                 then ORBit_POAObject_post_invoke h (fr_pobj f) s else Inr s)
     (clean_out (fr_poa f)))"

definition handle_request_end :: "hooks \<Rightarrow> frame \<Rightarrow> orb \<Rightarrow> orb run" where
  "handle_request_end h f s =
     andThen (if fr_invoked f then POA_LOCK (fr_poa f) s else Inr s) (\<lambda>s.
     andThen (give_back_servant h f s) (end_invocation h f))"

text \<open>Up to the call of the method, with a servant found.\<close>

definition enter_method :: "hooks \<Rightarrow> frame \<Rightarrow> orb \<Rightarrow>
    (frame option \<times> corba_exception option \<times> orb) run" where
  "enter_method h f s = andThen (deref (pobjs s) (fr_pobj f)) (\<lambda>q.
     andThen (nonnull (po_servant q)) (\<lambda>sv.
     let s = ORBit_POA_invocation_stack_push (fr_pobj f)
               (set_pobj (fr_pobj f) (\<lambda>q. q\<lparr>po_use_cnt := po_use_cnt q + 1\<rparr>) s) in
     andThen (vepv_of sv s) (\<lambda>_.
     let (skel, imp, oneway) = find_method h sv (fr_opname f) in
     if skel \<and> imp then
       andThen (POA_UNLOCK (fr_poa f) s) (\<lambda>s.
       Inr (Some (f\<lparr>fr_invoked := True\<rparr>), None,
            log_event (Invoke (fr_pobj f) sv (fr_opname f)) s))
     else
       (let ev = (if skel then ex_CORBA_NO_IMPLEMENT else ex_CORBA_BAD_OPERATION) in
        andThen (return_exception (fr_buffer f) oneway ev s) (\<lambda>s.
        andThen (handle_request_end h f s) (\<lambda>s.
        Inr (None, if fr_buffer f = None then Some ev else None, s)))))))"

definition ORBit_POAObject_handle_request ::
    "hooks \<Rightarrow> nat \<Rightarrow> string \<Rightarrow> nat option \<Rightarrow> orb \<Rightarrow>
     (frame option \<times> corba_exception option \<times> orb) run" where
  "ORBit_POAObject_handle_request h o' opname buf s =
     andThen (deref (pobjs s) o') (\<lambda>q.
     let r = po_poa q;
         refuse = (\<lambda>ev s. andThen (return_exception buf False ev s) (\<lambda>s.
                          andThen (clean_out r s) (\<lambda>s. Inr (None, Some ev, s))))
     in
     andThen (dup_poa r s) (\<lambda>s.
     andThen (POA_LOCK r s) (\<lambda>s.
     andThen (deref (poas s) r) (\<lambda>p.
     andThen (deref (managers s) (poa_manager p)) (\<lambda>m.
     case manager_gate (mgr_state m) (buf \<noteq> None) of
       Queue \<Rightarrow>
         andThen (clean_out r (set_poa r (\<lambda>p. p\<lparr>held_requests := the buf # held_requests p\<rparr>) s)) (\<lambda>s.
         Inr (None, None, s))
     | Refuse ev \<Rightarrow> refuse ev s
     | Enter \<Rightarrow>
         andThen (find_servant h r o' opname s) (\<lambda>(cookie, ev, s).
         andThen (deref (pobjs s) o') (\<lambda>q.
         case (if ev = None \<and> po_servant q = None then Some ex_CORBA_OBJECT_NOT_EXIST else ev) of
           Some ev \<Rightarrow> refuse ev s
         | None \<Rightarrow>
             enter_method h \<lparr>fr_pobj = o', fr_poa = r, fr_buffer = buf, fr_opname = opname,
               fr_cookie = cookie, fr_oid = po_object_id q, fr_invoked = False, fr_adaptor = None\<rparr> s)))))))"

section \<open>Requests from the wire\<close>

definition incoming_done ::
    "nat option \<Rightarrow> nat option \<Rightarrow> corba_exception option \<Rightarrow> orb \<Rightarrow> orb run" where
  "incoming_done pobj buf ev s =
     andThen (release_opt release_pobj pobj s) (\<lambda>s.
     andThen (case ev of None \<Rightarrow> Inr s | Some e \<Rightarrow> return_exception buf False e s) (\<lambda>s.
     giop_recv_buffer_unuse buf s))"

definition ORBit_POAObject_invoke_incoming_request ::
    "hooks \<Rightarrow> nat option \<Rightarrow> nat option \<Rightarrow> corba_exception option \<Rightarrow> orb \<Rightarrow> (frame option \<times> orb) run" where
  "ORBit_POAObject_invoke_incoming_request h pobj buf ev s =
    (case (ev, pobj) of
       (None, Some o') \<Rightarrow>
         andThen (nonnull buf) (\<lambda>b.
         andThen (deref (buffers s) b) (\<lambda>req.
         andThen (ORBit_POAObject_handle_request h o' (req_opname req) buf s) (\<lambda>(f, ev, s).
         case f of
           Some f \<Rightarrow> Inr (Some f, s)
         | None \<Rightarrow> andThen (incoming_done pobj buf ev s) (\<lambda>s. Inr (None, s)))))
     | _ \<Rightarrow> andThen (incoming_done pobj buf ev s) (\<lambda>s. Inr (None, s)))"

text \<open>
  The rest of the request of a frame: a local call ends where it began, one
  from the wire goes back through ORBit_POAObject_invoke_incoming_request and,
  unless a queue was in between, through ORBit_handle_request.
\<close>

definition return_from_method :: "hooks \<Rightarrow> frame \<Rightarrow> orb \<Rightarrow> orb run" where
  "return_from_method h f s = andThen (handle_request_end h f s) (\<lambda>s.
     andThen (case fr_buffer f of
                None \<Rightarrow> Inr s
              | Some b \<Rightarrow> incoming_done (Some (fr_pobj f)) (Some b) None s) (\<lambda>s.
     release_opt release_poa (fr_adaptor f) s))"

definition ORBit_POA_object_key_lookup_T ::
    "nat \<Rightarrow> byte list \<Rightarrow> orb \<Rightarrow> (oid \<times> nat option \<times> orb) run" where
  "ORBit_POA_object_key_lookup_T r objkey s =
    (let oid = drop ORBIT_ADAPTOR_PREFIX_LEN objkey in
     andThen (ORBit_POA_object_id_lookup_T r oid s) (\<lambda>(p, s). Inr (oid, p, s)))"

definition poa_recv_is_oneway :: "hooks \<Rightarrow> nat \<Rightarrow> nat \<Rightarrow> orb \<Rightarrow> bool run" where
  "poa_recv_is_oneway h o' b s = andThen (deref (pobjs s) o') (\<lambda>q.
     andThen (nonnull (po_servant q)) (\<lambda>sv.
     andThen (vepv_of sv s) (\<lambda>_.
     andThen (deref (buffers s) b) (\<lambda>req.
     case impl_finder h sv (req_opname req) of
       None \<Rightarrow> Inr False
     | Some (_, _, oneway) \<Rightarrow> Inr oneway))))"

definition push_request :: "queue \<Rightarrow> nat option \<Rightarrow> nat option \<Rightarrow> orb \<Rightarrow> orb" where
  "push_request k pobj buf s = s\<lparr>pushed := pushed s @ [(k, pobj, buf)]\<rparr>"

definition pool_push_request_for_T ::
    "nat option \<Rightarrow> nat option \<Rightarrow> nat option \<Rightarrow> orb \<Rightarrow> orb run" where
  "pool_push_request_for_T key pobj buf s =
     andThen (g_assert (thread_io s) s) (\<lambda>s. Inr (push_request (Key_queue key) pobj buf s))"

text \<open>
  The switch over the thread policy: the object and the buffer, when the request
  is handled at once, and NULL for both when it has been given to a queue. A
  program without threads has no main thread to push to.
\<close>

definition dispatch_request :: "hooks \<Rightarrow> nat \<Rightarrow> nat \<Rightarrow> nat \<Rightarrow> orb \<Rightarrow>
    ((nat option \<times> nat option) \<times> orb) run" where
  "dispatch_request h r o' b s = andThen (deref (poas s) r) (\<lambda>p.
     andThen (deref (buffers s) b) (\<lambda>req.
     let here = Inr ((Some o', Some b), s);
         queued = (\<lambda>s. Inr ((None, None), s));
         to_main = queued (push_request Main_queue (Some o') (Some b) s);
         at_idle = queued (push_request Idle_queue (Some o') (Some b) s)
     in case p_thread (poa_policies p) of
       SINGLE_THREAD_MODEL \<Rightarrow> if thread_io s then to_main else here
     | ORB_CTRL_MODEL \<Rightarrow> (case poa_thread_hint p of
         HINT_PER_OBJECT \<Rightarrow> andThen (pool_push_request_for_T (Some o') (Some o') (Some b) s) queued
       | HINT_PER_POA \<Rightarrow> andThen (pool_push_request_for_T (Some r) (Some o') (Some b) s) queued
       | HINT_PER_CONNECTION \<Rightarrow>
           andThen (g_assert (thread_io s) s) (\<lambda>s.
           queued (push_request (Connection_queue (req_connection req)) (Some o') (Some b) s))
       | HINT_PER_REQUEST \<Rightarrow> andThen (pool_push_request_for_T None (Some o') (Some b) s) queued
       | HINT_ONEWAY_AT_IDLE \<Rightarrow>
           andThen (poa_recv_is_oneway h o' b s) (\<lambda>oneway.
           if oneway \<or> \<not> thread_safe s then at_idle
           else queued (push_request Idle_queue None None
                  (push_request Main_queue (Some o') (Some b) s)))
       | HINT_ALL_AT_IDLE \<Rightarrow> at_idle
       | HINT_ON_CONTEXT \<Rightarrow> at_idle
       | HINT_NONE \<Rightarrow> if thread_io s then to_main else here)))"

definition ORBit_POA_handle_request ::
    "hooks \<Rightarrow> nat \<Rightarrow> nat \<Rightarrow> byte list \<Rightarrow> orb \<Rightarrow> (frame option \<times> orb) run" where
  "ORBit_POA_handle_request h r b objkey s =
     andThen (POA_LOCK r s) (\<lambda>s.
     andThen (ORBit_POA_object_key_lookup_T r objkey s) (\<lambda>(oid, found, s).
     andThen (deref (poas s) r) (\<lambda>p.
     let refuse = (\<lambda>s. andThen (POA_UNLOCK r s) (ORBit_POAObject_invoke_incoming_request h None
                         (Some b) (Some ex_CORBA_OBJECT_NOT_EXIST)));
         go = (\<lambda>o' s. andThen (dispatch_request h r o' b s) (\<lambda>((pobj, buf), s).
                       andThen (POA_UNLOCK r s)
                         (ORBit_POAObject_invoke_incoming_request h pobj buf None)))
     in case found of
       Some o' \<Rightarrow> go o' s
     | None \<Rightarrow> (case request_processing p of
         USE_ACTIVE_OBJECT_MAP_ONLY \<Rightarrow> refuse s
       | _ \<Rightarrow> andThen (ORBit_POA_create_object_T h r (Some oid) s) (\<lambda>(o', s). go o' s)))))"

text \<open>A thread takes the request at index \<open>i\<close> of what has been pushed and runs it.\<close>

definition run_pushed :: "hooks \<Rightarrow> nat \<Rightarrow> orb \<Rightarrow> (frame option \<times> orb) run" where
  "run_pushed h i s =
    (if i < length (pushed s) then
       (case pushed s ! i of (_, pobj, buf) \<Rightarrow>
          ORBit_POAObject_invoke_incoming_request h pobj buf None
            (s\<lparr>pushed := take i (pushed s) @ drop (Suc i) (pushed s)\<rparr>))
     else Inr (None, s))"

section \<open>Adaptors\<close>

text \<open>The id an adaptor key begins with, a signed 32-bit number.\<close>

definition key_adaptor_id :: "byte list \<Rightarrow> int" where
  "key_adaptor_id objkey = sint (of_le32 (take 4 objkey))"

definition ORBit_adaptor_find :: "byte list option \<Rightarrow> orb \<Rightarrow> (nat option \<times> orb) run" where
  "ORBit_adaptor_find objkey s = (case objkey of
     None \<Rightarrow> Inr (None, s)
   | Some key \<Rightarrow>
     let i = key_adaptor_id key in
     if length key < ORBIT_ADAPTOR_PREFIX_LEN then Inr (None, s)
     else if i < 0 \<or> i \<ge> int (length (adaptors s)) then Inr (None, s)
     else (case adaptors s ! nat i of
       None \<Rightarrow> Inr (None, s)
     | Some r \<Rightarrow> andThen (deref (poas s) r) (\<lambda>p.
         if take ORBIT_ADAPTOR_PREFIX_LEN key \<noteq> take ORBIT_ADAPTOR_PREFIX_LEN (adaptor_key p)
         then Inr (None, s)
         else andThen (dup_poa r s) (\<lambda>s. Inr (Some r, s)))))"

definition ORBit_forw_bind_find :: "byte list option \<Rightarrow> orb \<Rightarrow> (nat option \<times> orb) run" where
  "ORBit_forw_bind_find objkey s = (case objkey of
     None \<Rightarrow> Inr (None, s)
   | Some key \<Rightarrow>
     let objectId = takeWhile (\<lambda>c. c \<noteq> 0) key in
     case forw_binds s objectId of
       None \<Rightarrow> Inr (None, s)
     | Some b \<Rightarrow> andThen (deref (objrefs s) b) (\<lambda>ref.
         if type_id ref = None
         then Inr (None, s\<lparr>forw_binds := (forw_binds s)(objectId := None)\<rparr>)
         else Inr (Some b, s)))"

definition ORBit_handle_request :: "hooks \<Rightarrow> nat \<Rightarrow> orb \<Rightarrow> (frame option \<times> orb) run" where
  "ORBit_handle_request h b s =
     andThen (deref (buffers s) b) (\<lambda>req.
     andThen (ORBit_adaptor_find (req_objkey req) s) (\<lambda>(adaptor, s).
     case adaptor of
       None \<Rightarrow>
         andThen (ORBit_forw_bind_find (req_objkey req) s) (\<lambda>(forw, s).
         case forw of
           Some obj \<Rightarrow>
             andThen (giop_recv_buffer_unuse (Some b) (log_event (Forward_reply b obj) s)) (\<lambda>s.
             Inr (None, s))
         | None \<Rightarrow>
             andThen (ORBit_recv_buffer_return_sys_exception (Some b) ex_CORBA_OBJECT_NOT_EXIST s) (\<lambda>s.
             Inr (None, s)))
     | Some r \<Rightarrow>
         andThen (nonnull (req_objkey req)) (\<lambda>key.
         andThen (ORBit_POA_handle_request h r b key s) (\<lambda>(f, s).
         case f of
           None \<Rightarrow> andThen (release_poa r s) (\<lambda>s. Inr (None, s))
         | Some f \<Rightarrow> Inr (Some (f\<lparr>fr_adaptor := Some r\<rparr>), s)))))"

text \<open>
  The same with the method run at once and no other operation in between, the
  form in which code of the adaptor itself handles requests.
\<close>

definition handle_request_at_once :: "hooks \<Rightarrow> nat \<Rightarrow> orb \<Rightarrow> orb run" where
  "handle_request_at_once h b s =
     andThen (ORBit_handle_request h b s) (\<lambda>(f, s).
     case f of None \<Rightarrow> Inr s | Some f \<Rightarrow> return_from_method h f s)"

definition ORBit_handle_locate_request :: "nat \<Rightarrow> orb \<Rightarrow> orb run" where
  "ORBit_handle_locate_request b s =
     andThen (deref (buffers s) b) (\<lambda>req.
     andThen (ORBit_adaptor_find (req_objkey req) s) (\<lambda>(adaptor, s).
     let s = log_event (Locate_reply b (adaptor \<noteq> None)) s in
     andThen (release_opt release_poa adaptor s) (giop_recv_buffer_unuse (Some b))))"

text \<open>A new adaptor takes the next index of the table of the ORB.\<close>

definition ORBit_adaptor_setup :: "hooks \<Rightarrow> nat \<Rightarrow> orb \<Rightarrow> int \<times> byte list \<times> orb" where
  "ORBit_adaptor_setup h r s =
    (let i = length (adaptors s);
         key = le32 (word_of_nat i) @ genuid_cookie h r
     in (sint (word_of_nat i :: u32), key, s\<lparr>adaptors := adaptors s @ [Some r]\<rparr>))"

end
