(* ===== verification/Poa_Adaptors.thy ===== *)
theory Poa_Adaptors
imports Poa_Requests
begin

text \<open>
  The life of a POA and of its manager (poa.c, poa-manager.c): creation in a
  tree, deactivation with the traversal of its objects, destruction with that
  of its children, and the states of the manager.
\<close>

section \<open>Use\<close>

text \<open>
  The recursion goes down the tree of POAs; \<open>fuel\<close> bounds its depth.
\<close>

fun in_use :: "nat \<Rightarrow> nat \<Rightarrow> bool \<Rightarrow> orb \<Rightarrow> bool run"
and children_in_use :: "nat \<Rightarrow> (string \<times> nat) list \<Rightarrow> orb \<Rightarrow> bool run" where
  "in_use fuel r consider_children s =
     andThen (deref (poas s) r) (\<lambda>p.
     if poa_use_cnt p > 0 then Inr True
     else andThen (if consider_children then children_in_use fuel (child_poas p) s
                   else Inr False) (\<lambda>used.
     if used then Inr True
     else Inr (list_ex (\<lambda>(_, o'). case pobjs s o' of
                 None \<Rightarrow> False | Some q \<Rightarrow> po_use_cnt q > 0) (oid_to_obj_map p))))"
| "children_in_use fuel [] s = Inr False"
| "children_in_use 0 (c # cs) s = Inl Loops"
| "children_in_use (Suc fuel) ((_, c) # cs) s =
     andThen (POA_LOCK c s) (\<lambda>s'.
     andThen (in_use fuel c True s') (\<lambda>used.
     andThen (children_in_use (Suc fuel) cs s) (\<lambda>rest. Inr (used \<or> rest))))"

definition ORBit_POA_is_inuse_T :: "nat \<Rightarrow> bool \<Rightarrow> orb \<Rightarrow> bool run" where
  "ORBit_POA_is_inuse_T r consider_children s = in_use (next_ref s) r consider_children s"

definition ORBit_POA_is_inuse :: "nat \<Rightarrow> bool \<Rightarrow> orb \<Rightarrow> bool run" where
  "ORBit_POA_is_inuse r consider_children s =
     andThen (POA_LOCK r s) (\<lambda>s. ORBit_POA_is_inuse_T r consider_children s)"

section \<open>Deactivation\<close>

definition ORBit_POA_set_life :: "nat \<Rightarrow> bool \<Rightarrow> life_flag \<Rightarrow> orb \<Rightarrow> orb" where
  "ORBit_POA_set_life r etherealize_objects action_do s =
     set_poa r (\<lambda>p. p\<lparr>poa_life := insert action_do
       (if DeactivateDo \<notin> poa_life p \<and> DestroyDo \<notin> poa_life p \<and> etherealize_objects
        then insert DoEtherealize (poa_life p) else poa_life p)\<rparr>) s"

text \<open>The requests of the list are handled in its order; \<open>h\<close> answers for the methods.\<close>

fun handle_requests :: "hooks \<Rightarrow> nat list \<Rightarrow> orb \<Rightarrow> orb run" where
  "handle_requests h [] s = Inr s"
| "handle_requests h (b # bs) s = andThen (handle_request_at_once h b s) (handle_requests h bs)"

definition ORBit_POA_handle_held_requests :: "hooks \<Rightarrow> nat \<Rightarrow> orb \<Rightarrow> orb run" where
  "ORBit_POA_handle_held_requests h r s =
     andThen (deref (poas s) r) (\<lambda>p.
     handle_requests h (held_requests p) (set_poa r (\<lambda>p. p\<lparr>held_requests := []\<rparr>) s))"

text \<open>
  g_hash_table_foreach with traverse_cb: every object is deactivated; the flag
  is whether one of them was in use.
\<close>

definition traverse_cb :: "hooks \<Rightarrow> nat \<Rightarrow> bool \<Rightarrow> nat \<Rightarrow> bool \<times> orb \<Rightarrow> (bool \<times> orb) run" where
  "traverse_cb h r do_etherealize o' info =
     andThen (deref (pobjs (snd info)) o') (\<lambda>q.
     andThen (ORBit_POA_deactivate_object_T h r o' do_etherealize True (snd info)) (\<lambda>s.
     Inr (fst info \<or> po_use_cnt q > 0, s)))"

fun traverse :: "hooks \<Rightarrow> nat \<Rightarrow> bool \<Rightarrow> (oid \<times> nat) list \<Rightarrow> bool \<times> orb \<Rightarrow> (bool \<times> orb) run" where
  "traverse h r eth [] info = Inr info"
| "traverse h r eth ((_, o') # l) info =
     andThen (traverse_cb h r eth o' info) (traverse h r eth l)"

text \<open>g_hash_table_foreach_remove with remove_cb.\<close>

definition remove_cb :: "orb \<Rightarrow> nat \<Rightarrow> bool" where
  "remove_cb s o' = (case pobjs s o' of None \<Rightarrow> False | Some q \<Rightarrow> Destroyed \<in> po_life q)"

definition sweep :: "nat \<Rightarrow> orb \<Rightarrow> orb run" where
  "sweep r s = andThen (deref (poas s) r) (\<lambda>p.
     Inr (set_poa r (\<lambda>p. p\<lparr>oid_to_obj_map :=
            filter (\<lambda>(_, o'). \<not> remove_cb s o') (oid_to_obj_map p)\<rparr>)
          (s\<lparr>pobjs := (\<lambda>o'. if o' \<in> snd ` set (oid_to_obj_map p) \<and> remove_cb s o'
                           then None else pobjs s o')\<rparr>)))"

definition ORBit_POA_deactivate :: "hooks \<Rightarrow> nat \<Rightarrow> bool \<Rightarrow> orb \<Rightarrow> (bool \<times> orb) run" where
  "ORBit_POA_deactivate h r etherealize_objects s =
     (let s = ORBit_POA_set_life r etherealize_objects DeactivateDo s in
     andThen (deref (poas s) r) (\<lambda>p.
     if Deactivated \<in> poa_life p then Inr (True, s)
     else if Deactivating \<in> poa_life p then Inr (False, s)
     else
       andThen (ORBit_POA_handle_held_requests h r
                 (set_poa r (\<lambda>p. p\<lparr>poa_life := insert Deactivating (poa_life p)\<rparr>) s)) (\<lambda>s.
       andThen (deref (poas s) r) (\<lambda>p.
       andThen (g_assert (held_requests p = []) s) (\<lambda>s.
       andThen (if IS_RETAIN p then
                  andThen (traverse h r (DoEtherealize \<in> poa_life p) (oid_to_obj_map p)
                            (False, s)) (\<lambda>(used, s).
                  andThen (sweep r s) (\<lambda>s. Inr (\<not> used, s)))
                else Inr (True, s)) (\<lambda>(done, s).
       Inr (done, set_poa r (\<lambda>p. p\<lparr>poa_life :=
              (if done then insert Deactivated (poa_life p) else poa_life p)
              - {Deactivating}\<rparr>) s)))))))"

section \<open>The tree of POAs\<close>

definition ORBit_POA_add_child :: "nat \<Rightarrow> nat option \<Rightarrow> orb \<Rightarrow> orb run" where
  "ORBit_POA_add_child r child s = (case child of
     None \<Rightarrow> Inr s
   | Some c \<Rightarrow>
     andThen (dup_poa r s) (\<lambda>s.
     andThen (deref (poas s) c) (\<lambda>pc.
     Inr (set_poa r (\<lambda>p. p\<lparr>child_poas := AList.update (poa_name pc) c (child_poas p)\<rparr>)
          (set_poa c (\<lambda>p. p\<lparr>parent_poa := Some r\<rparr>) s)))))"

definition ORBit_POA_remove_child :: "nat \<Rightarrow> orb \<Rightarrow> orb run" where
  "ORBit_POA_remove_child c s = andThen (deref (poas s) c) (\<lambda>pc.
     case parent_poa pc of
       None \<Rightarrow> Inr s
     | Some r \<Rightarrow>
       andThen (deref (poas s) r) (\<lambda>_.
       release_poa r
         (set_poa c (\<lambda>p. p\<lparr>parent_poa := None\<rparr>)
         (set_poa r (\<lambda>p. p\<lparr>child_poas := AList.delete (poa_name pc) (child_poas p)\<rparr>) s))))"

definition ORBit_POAManager_register_poa :: "nat \<Rightarrow> nat \<Rightarrow> orb \<Rightarrow> orb run" where
  "ORBit_POAManager_register_poa m r s = andThen (deref (managers s) m) (\<lambda>mgr.
     andThen (g_assert (r \<notin> set (poa_collection mgr)) s) (\<lambda>s.
     andThen (mutex_lock Manager_lock s) (\<lambda>s.
     mutex_unlock Manager_lock
       (set_manager m (\<lambda>mgr. mgr\<lparr>poa_collection := poa_collection mgr @ [r]\<rparr>) s))))"

definition ORBit_POAManager_unregister_poa :: "nat \<Rightarrow> nat \<Rightarrow> orb \<Rightarrow> orb run" where
  "ORBit_POAManager_unregister_poa m r s =
     andThen (mutex_lock Manager_lock s) (\<lambda>s.
     andThen (deref (managers s) m) (\<lambda>_.
     mutex_unlock Manager_lock
       (set_manager m (\<lambda>mgr. mgr\<lparr>poa_collection := remove1 r (poa_collection mgr)\<rparr>) s)))"

text \<open>
  ORBit_POA_destroy_T_R behind the loop over the children.
\<close>

definition destroy_self :: "hooks \<Rightarrow> nat \<Rightarrow> bool \<Rightarrow> orb \<Rightarrow> (bool \<times> orb) run" where
  "destroy_self h r etherealize_objects s =
     (let s = set_poa r (\<lambda>p. p\<lparr>default_servant := None\<rparr>) s in
     andThen (deref (poas s) r) (\<lambda>p.
     andThen (if child_poas p \<noteq> [] \<or> poa_use_cnt p \<noteq> 0 then Inr (False, s)
              else ORBit_POA_deactivate h r etherealize_objects s) (\<lambda>(done, s).
     if \<not> done then
       Inr (False, set_poa r (\<lambda>p. p\<lparr>poa_life := poa_life p - {Destroying}\<rparr>) s)
     else
       andThen (deref (poas s) r) (\<lambda>p.
       andThen (ORBit_POAManager_unregister_poa (poa_manager p) r s) (\<lambda>s.
       andThen (ORBit_POA_remove_child r s) (\<lambda>s.
       andThen (deref (poas s) r) (\<lambda>p.
       andThen (g_assert (0 \<le> poa_id p \<and> nat (poa_id p) < length (adaptors s)) s) (\<lambda>s.
       andThen (g_assert (length (oid_to_obj_map p) < poa_refs p)
                 (set_poa r (\<lambda>p. p\<lparr>poa_id := - 1\<rparr>)
                   (s\<lparr>adaptors := (adaptors s)[nat (poa_id p) := None]\<rparr>))) (\<lambda>s.
       andThen (release_poa r (set_poa r (\<lambda>p. p\<lparr>poa_life :=
                 insert Destroyed (poa_life p) - {Destroying}\<rparr>) s)) (\<lambda>s.
       Inr (True, s)))))))))))"

fun ORBit_POA_destroy_T_R ::
    "nat \<Rightarrow> hooks \<Rightarrow> nat \<Rightarrow> bool \<Rightarrow> orb \<Rightarrow> (bool \<times> orb) run"
and destroy_children :: "nat \<Rightarrow> hooks \<Rightarrow> nat \<Rightarrow> bool \<Rightarrow> nat list \<Rightarrow> orb \<Rightarrow> orb run" where
  "ORBit_POA_destroy_T_R fuel h r eth s =
     (let s = ORBit_POA_set_life r eth DestroyDo s in
     andThen (deref (poas s) r) (\<lambda>p.
     if Destroyed \<in> poa_life p then Inr (True, s)
     else if Deactivating \<in> poa_life p \<or> Destroying \<in> poa_life p then Inr (False, s)
     else
       andThen (POA_UNLOCK r
                 (set_poa r (\<lambda>p. p\<lparr>poa_life := insert Destroying (poa_life p)\<rparr>) s)) (\<lambda>s.
       andThen (destroy_children fuel h r eth [0 ..< length (adaptors s)] s) (\<lambda>s.
       andThen (POA_LOCK r s) (\<lambda>s.
       destroy_self h r eth s)))))"
| "destroy_children fuel h r eth [] s = Inr s"
| "destroy_children 0 h r eth (i # is) s = Inl Loops"
| "destroy_children (Suc fuel) h r eth (i # is) s =
     (case adaptors s ! i of
       None \<Rightarrow> destroy_children (Suc fuel) h r eth is s
     | Some c \<Rightarrow>
         if c = r then destroy_children (Suc fuel) h r eth is s
         else
           andThen (dup_poa c s) (\<lambda>s.
           andThen (POA_LOCK c s) (\<lambda>s.
           andThen (deref (poas s) c) (\<lambda>pc.
           andThen (if parent_poa pc = Some r
                    then andThen (ORBit_POA_destroy_T_R fuel h c eth s) (\<lambda>(_, s). Inr s)
                    else Inr s) (\<lambda>s.
           andThen (POA_UNLOCK c s) (\<lambda>s.
           andThen (release_poa c s) (\<lambda>s.
           destroy_children (Suc fuel) h r eth is s)))))))"

section \<open>Creation\<close>

definition ORBit_POAManager_new :: "orb \<Rightarrow> nat \<times> orb" where
  "ORBit_POAManager_new s =
    (let n = next_ref s in
     (n, s\<lparr>managers := (managers s)(n \<mapsto> \<lparr>mgr_refs = 0, poa_collection = [], mgr_state = HOLDING\<rparr>),
           next_ref := n + 1\<rparr>))"

text \<open>
  With policies that are refused the new structure is released again before
  anything refers to it. The two references are that of the ORB, given up when
  the POA is destroyed, and that of the caller.
\<close>

definition ORBit_POA_new ::
    "hooks \<Rightarrow> string \<Rightarrow> nat option \<Rightarrow> policy list \<Rightarrow> orb \<Rightarrow> ((corba_exception + nat) \<times> orb) run" where
  "ORBit_POA_new h adaptor_name manager ps s =
    (case ORBit_POA_set_policies ps of
       Inl ev \<Rightarrow> Inr (Inl ev, s)
     | Inr pol \<Rightarrow>
       let (m, s) = (case manager of Some m \<Rightarrow> (m, s) | None \<Rightarrow> ORBit_POAManager_new s);
           r = next_ref s;
           (i, key, s) = ORBit_adaptor_setup h r
                           (s\<lparr>next_ref := r + 1, orb_refs := orb_refs s + 1\<rparr>);
           p = \<lparr>poa_refs = 2, adaptor_key = key, poa_thread_hint = HINT_NONE, poa_use_cnt = 0,
                poa_life = {}, poa_id = i, next_sysid = 0, poa_name = adaptor_name,
                parent_poa = None, poa_manager = m, servant_manager = None,
                default_servant = None, oid_to_obj_map = [], held_requests = [],
                child_poas = [], poa_policies = pol\<rparr>
       in andThen (dup_manager m (s\<lparr>poas := (poas s)(r \<mapsto> p)\<rparr>)) (\<lambda>s.
          andThen (ORBit_POAManager_register_poa m r s) (\<lambda>s. Inr (Inr r, s))))"

definition ORBit_POA_copy_policies :: "nat \<Rightarrow> nat \<Rightarrow> orb \<Rightarrow> orb run" where
  "ORBit_POA_copy_policies src dest s = andThen (deref (poas s) src) (\<lambda>p.
     Inr (set_poa dest (\<lambda>q. q\<lparr>poa_policies := poa_policies p\<rparr>) s))"

definition ORBit_POA_new_from ::
    "hooks \<Rightarrow> nat option \<Rightarrow> string \<Rightarrow> policy list option \<Rightarrow> orb \<Rightarrow> (nat option \<times> orb) run" where
  "ORBit_POA_new_from h parent adaptor_name opt_policies s = (case parent of
     None \<Rightarrow> Inr (None, s)
   | Some r \<Rightarrow>
     andThen (deref (poas s) r) (\<lambda>p.
     andThen (ORBit_POA_new h adaptor_name (Some (poa_manager p)) [] s) (\<lambda>(res, s). case res of
       Inl ev \<Rightarrow> Inr (None, s)
     | Inr n \<Rightarrow>
       andThen (ORBit_POA_copy_policies r n s) (\<lambda>s.
       andThen (ORBit_POA_add_child r (Some n)
                 (set_poa n (\<lambda>q. q\<lparr>poa_policies :=
                    foldl ORBit_POA_set_policy (poa_policies q)
                      (case opt_policies of None \<Rightarrow> [] | Some ps \<Rightarrow> ps)\<rparr>) s)) (\<lambda>s.
       Inr (Some n, s))))))"

definition ORBit_POA_setup_root :: "hooks \<Rightarrow> orb \<Rightarrow> ((corba_exception + nat) \<times> orb) run" where
  "ORBit_POA_setup_root h s =
     ORBit_POA_new h ''RootPOA'' None [Implicit_activation_policy IMPLICIT_ACTIVATION] s"

section \<open>The operations of a manager\<close>

definition activate_collection :: "hooks \<Rightarrow> nat list \<Rightarrow> orb \<Rightarrow> orb run" where
  "activate_collection h rs s =
     foldl (\<lambda>st r. andThen st (ORBit_POA_handle_held_requests h r)) (Inr s) rs"

definition PortableServer_POAManager_activate ::
    "hooks \<Rightarrow> nat option \<Rightarrow> orb \<Rightarrow> ((corba_exception option) \<times> orb) run" where
  "PortableServer_POAManager_activate h manager s = (case manager of
     None \<Rightarrow> Inr (Some ex_CORBA_BAD_PARAM, s)
   | Some m \<Rightarrow>
     andThen (mutex_lock Manager_lock s) (\<lambda>s.
     andThen (deref (managers s) m) (\<lambda>mgr.
     andThen (if mgr_state mgr = INACTIVE then Inr (Some ex_POAManager_AdapterInactive, s)
              else andThen (activate_collection h (poa_collection mgr)
                             (set_manager m (\<lambda>mgr. mgr\<lparr>mgr_state := ACTIVE\<rparr>) s)) (\<lambda>s.
                   Inr (None, s))) (\<lambda>(ev, s).
     andThen (mutex_unlock Manager_lock s) (\<lambda>s. Inr (ev, s))))))"

definition set_manager_state ::
    "manager_state \<Rightarrow> nat option \<Rightarrow> orb \<Rightarrow> ((corba_exception option) \<times> orb) run" where
  "set_manager_state st manager s = (case manager of
     None \<Rightarrow> Inr (Some ex_CORBA_BAD_PARAM, s)
   | Some m \<Rightarrow>
     andThen (mutex_lock Manager_lock s) (\<lambda>s.
     andThen (deref (managers s) m) (\<lambda>mgr.
     let (ev, s) = (if mgr_state mgr = INACTIVE then (Some ex_POAManager_AdapterInactive, s)
                    else (None, set_manager m (\<lambda>mgr. mgr\<lparr>mgr_state := st\<rparr>) s))
     in andThen (mutex_unlock Manager_lock s) (\<lambda>s. Inr (ev, s)))))"

definition PortableServer_POAManager_hold_requests ::
    "nat option \<Rightarrow> bool \<Rightarrow> orb \<Rightarrow> ((corba_exception option) \<times> orb) run" where
  "PortableServer_POAManager_hold_requests manager wait_for_completion s =
     set_manager_state HOLDING manager s"

definition PortableServer_POAManager_discard_requests ::
    "nat option \<Rightarrow> bool \<Rightarrow> orb \<Rightarrow> ((corba_exception option) \<times> orb) run" where
  "PortableServer_POAManager_discard_requests manager wait_for_completion s =
     set_manager_state DISCARDING manager s"

text \<open>Whether the loop over the collection meets a POA that is not in use.\<close>

fun some_idle :: "nat list \<Rightarrow> orb \<Rightarrow> bool run" where
  "some_idle [] s = Inr False"
| "some_idle (r # rs) s = andThen (ORBit_POA_is_inuse r False s) (\<lambda>used.
     if \<not> used then Inr True else some_idle rs s)"

fun deactivate_collection :: "hooks \<Rightarrow> bool \<Rightarrow> nat list \<Rightarrow> orb \<Rightarrow> orb run" where
  "deactivate_collection h eth [] s = Inr s"
| "deactivate_collection h eth (r # rs) s =
     andThen (ORBit_POA_deactivate h r eth s) (\<lambda>(_, s). deactivate_collection h eth rs s)"

definition PortableServer_POAManager_deactivate ::
    "hooks \<Rightarrow> nat option \<Rightarrow> bool \<Rightarrow> bool \<Rightarrow> orb \<Rightarrow> ((corba_exception option) \<times> orb) run" where
  "PortableServer_POAManager_deactivate h manager etherealize_objects wait_for_completion s =
    (case manager of
       None \<Rightarrow> Inr (Some ex_CORBA_BAD_PARAM, s)
     | Some m \<Rightarrow>
       andThen (mutex_lock Manager_lock s) (\<lambda>s.
       andThen (deref (managers s) m) (\<lambda>mgr.
       andThen (if mgr_state mgr = INACTIVE then Inr (Some ex_POAManager_AdapterInactive, s)
                else
                  andThen (if wait_for_completion then some_idle (poa_collection mgr) s
                           else Inr False) (\<lambda>idle.
                  if idle then Inr (Some ex_CORBA_BAD_INV_ORDER, s)
                  else andThen (deactivate_collection h etherealize_objects (poa_collection mgr)
                                 (set_manager m (\<lambda>mgr. mgr\<lparr>mgr_state := INACTIVE\<rparr>) s)) (\<lambda>s.
                       Inr (None, s)))) (\<lambda>(ev, s).
       andThen (mutex_unlock Manager_lock s) (\<lambda>s. Inr (ev, s))))))"

definition PortableServer_POAManager_get_state :: "nat \<Rightarrow> orb \<Rightarrow> manager_state run" where
  "PortableServer_POAManager_get_state m s =
     andThen (mutex_lock Manager_lock s) (\<lambda>s.
     andThen (deref (managers s) m) (\<lambda>mgr.
     andThen (mutex_unlock Manager_lock s) (\<lambda>_. Inr (mgr_state mgr))))"

end
