(* ===== verification/Poa_Interface.thy ===== *)
theory Poa_Interface
imports Poa_Adaptors
begin

text \<open>
  The operations of PortableServer::POA, PortableServer::Current and the
  conversions of object ids (poa.c), each with its parameter checks. A result
  is an exception or a value; a check that returns after POA_LOCK leaves the
  POA locked, as the code does.
\<close>

type_synonym 'a op = "((corba_exception + 'a) \<times> orb) run"

definition raise_ex :: "corba_exception \<Rightarrow> orb \<Rightarrow> 'a op" where
  "raise_ex ev s = Inr (Inl ev, s)"

definition returns :: "'a \<Rightarrow> orb \<Rightarrow> 'a op" where
  "returns x s = Inr (Inr x, s)"

section \<open>The tree of POAs\<close>

definition PortableServer_POA_create_POA ::
    "hooks \<Rightarrow> nat option \<Rightarrow> string option \<Rightarrow> nat option \<Rightarrow> policy list option \<Rightarrow> orb \<Rightarrow> nat op" where
  "PortableServer_POA_create_POA h poa adaptor_name a_POAManager ps s =
    (case (poa, adaptor_name, ps) of
       (None, _, _) \<Rightarrow> raise_ex ex_CORBA_INV_OBJREF s
     | (_, None, _) \<Rightarrow> raise_ex ex_CORBA_BAD_PARAM s
     | (_, _, None) \<Rightarrow> raise_ex ex_CORBA_BAD_PARAM s
     | (Some r, Some name, Some pols) \<Rightarrow>
       andThen (deref (poas s) r) (\<lambda>p.
       if map_of (child_poas p) name \<noteq> None then raise_ex ex_POA_AdapterAlreadyExists s
       else
         andThen (ORBit_POA_new h name a_POAManager pols s) (\<lambda>(res, s). case res of
           Inl ev \<Rightarrow> andThen (ORBit_POA_add_child r None s) (raise_ex ev)
         | Inr n \<Rightarrow> andThen (ORBit_POA_add_child r (Some n) s) (returns n))))"

definition PortableServer_POA_find_POA ::
    "nat option \<Rightarrow> string option \<Rightarrow> bool \<Rightarrow> orb \<Rightarrow> nat op" where
  "PortableServer_POA_find_POA poa adaptor_name activate_it s = (case (poa, adaptor_name) of
       (None, _) \<Rightarrow> raise_ex ex_CORBA_INV_OBJREF s
     | (_, None) \<Rightarrow> raise_ex ex_CORBA_BAD_PARAM s
     | (Some r, Some name) \<Rightarrow>
       andThen (deref (poas s) r) (\<lambda>p. case map_of (child_poas p) name of
         None \<Rightarrow> raise_ex ex_POA_AdapterNonExistent s
       | Some c \<Rightarrow> andThen (dup_poa c s) (returns c)))"

definition PortableServer_POA_destroy ::
    "hooks \<Rightarrow> nat option \<Rightarrow> bool \<Rightarrow> bool \<Rightarrow> orb \<Rightarrow> unit op" where
  "PortableServer_POA_destroy h poa etherealize_objects wait_for_completion s = (case poa of
     None \<Rightarrow> raise_ex ex_CORBA_INV_OBJREF s
   | Some r \<Rightarrow>
     andThen (dup_poa r s) (\<lambda>s.
     andThen (POA_LOCK r s) (\<lambda>s.
     andThen (deref (poas s) r) (\<lambda>p.
     andThen (if Destroyed \<in> poa_life p then returns () s
              else
                andThen (if wait_for_completion then ORBit_POA_is_inuse_T r True s
                         else Inr False) (\<lambda>used.
                if used then raise_ex ex_CORBA_BAD_INV_ORDER s
                else andThen (ORBit_POA_destroy_T_R (length (adaptors s)) h r
                               etherealize_objects s) (\<lambda>(d, s).
                     andThen (g_assert (d \<or> \<not> wait_for_completion) s) (returns ())))) (\<lambda>(res, s).
     andThen (POA_UNLOCK r s) (\<lambda>s.
     andThen (release_poa r s) (\<lambda>s. Inr (res, s))))))))"

definition PortableServer_POA__get_the_name :: "nat option \<Rightarrow> orb \<Rightarrow> string op" where
  "PortableServer_POA__get_the_name poa s = (case poa of
     None \<Rightarrow> raise_ex ex_CORBA_INV_OBJREF s
   | Some r \<Rightarrow> andThen (deref (poas s) r) (\<lambda>p. returns (poa_name p) s))"

definition PortableServer_POA__get_the_parent :: "nat option \<Rightarrow> orb \<Rightarrow> nat option op" where
  "PortableServer_POA__get_the_parent poa s = (case poa of
     None \<Rightarrow> raise_ex ex_CORBA_INV_OBJREF s
   | Some r \<Rightarrow> andThen (deref (poas s) r) (\<lambda>p. case parent_poa p of
       None \<Rightarrow> returns None s
     | Some q \<Rightarrow> andThen (dup_poa q s) (returns (Some q))))"

fun dup_all :: "nat list \<Rightarrow> orb \<Rightarrow> orb run" where
  "dup_all [] s = Inr s"
| "dup_all (r # rs) s = andThen (dup_poa r s) (dup_all rs)"

definition PortableServer_POA__get_the_children :: "nat option \<Rightarrow> orb \<Rightarrow> nat list op" where
  "PortableServer_POA__get_the_children poa s = (case poa of
     None \<Rightarrow> raise_ex ex_CORBA_INV_OBJREF s
   | Some r \<Rightarrow> andThen (deref (poas s) r) (\<lambda>p.
       let cs = map snd (child_poas p) in andThen (dup_all cs s) (returns cs)))"

definition PortableServer_POA__get_the_POAManager :: "nat option \<Rightarrow> orb \<Rightarrow> nat op" where
  "PortableServer_POA__get_the_POAManager poa s = (case poa of
     None \<Rightarrow> raise_ex ex_CORBA_INV_OBJREF s
   | Some r \<Rightarrow> andThen (deref (poas s) r) (\<lambda>p.
       andThen (dup_manager (poa_manager p) s) (returns (poa_manager p))))"

section \<open>Default servants and servant managers\<close>

text \<open>
  ORBit_RootObject_duplicate is given the servant of the manager. On a 64-bit
  host the count it raises is the lower half of the vepv pointer of the servant.
\<close>

definition PortableServer_POA_set_servant_manager ::
    "nat option \<Rightarrow> nat option \<Rightarrow> orb \<Rightarrow> unit op" where
  "PortableServer_POA_set_servant_manager poa manager s = (case (poa, manager) of
       (None, _) \<Rightarrow> raise_ex ex_CORBA_INV_OBJREF s
     | (_, None) \<Rightarrow> raise_ex ex_CORBA_BAD_PARAM s
     | (Some r, Some m) \<Rightarrow> andThen (deref (poas s) r) (\<lambda>p.
       if servant_manager p \<noteq> None then raise_ex ex_CORBA_BAD_INV_ORDER s
       else andThen (deref (servants s) m) (\<lambda>_.
         returns () (set_poa r (\<lambda>p. p\<lparr>servant_manager := Some m\<rparr>)
                 (set_servant m (\<lambda>v. v\<lparr>vepv_shift := vepv_shift v + 1\<rparr>) s)))))"

definition PortableServer_POA_get_servant_manager :: "nat option \<Rightarrow> orb \<Rightarrow> nat option op" where
  "PortableServer_POA_get_servant_manager poa s = (case poa of
     None \<Rightarrow> raise_ex ex_CORBA_INV_OBJREF s
   | Some r \<Rightarrow> andThen (deref (poas s) r) (\<lambda>p. case servant_manager p of
       None \<Rightarrow> returns None s
     | Some m \<Rightarrow> andThen (deref (servants s) m) (\<lambda>_.
         returns (Some m) (set_servant m (\<lambda>v. v\<lparr>vepv_shift := vepv_shift v + 1\<rparr>) s))))"

definition PortableServer_POA_get_servant :: "nat option \<Rightarrow> orb \<Rightarrow> nat option op" where
  "PortableServer_POA_get_servant poa s = (case poa of
     None \<Rightarrow> raise_ex ex_CORBA_INV_OBJREF s
   | Some r \<Rightarrow> andThen (deref (poas s) r) (\<lambda>p. returns (default_servant p) s))"

definition PortableServer_POA_set_servant :: "nat option \<Rightarrow> nat option \<Rightarrow> orb \<Rightarrow> unit op" where
  "PortableServer_POA_set_servant poa servant s = (case (poa, servant) of
       (None, _) \<Rightarrow> raise_ex ex_CORBA_INV_OBJREF s
     | (_, None) \<Rightarrow> raise_ex ex_CORBA_BAD_PARAM s
     | (Some r, Some sv) \<Rightarrow> andThen (deref (poas s) r) (\<lambda>_.
         returns () (set_poa r (\<lambda>p. p\<lparr>default_servant := Some sv\<rparr>) s)))"

section \<open>Activation\<close>

definition PortableServer_POA_activate_object ::
    "hooks \<Rightarrow> nat option \<Rightarrow> nat option \<Rightarrow> orb \<Rightarrow> oid op" where
  "PortableServer_POA_activate_object h poa p_servant s = (case (poa, p_servant) of
       (None, _) \<Rightarrow> raise_ex ex_CORBA_INV_OBJREF s
     | (_, None) \<Rightarrow> raise_ex ex_CORBA_BAD_PARAM s
     | (Some r, Some sv) \<Rightarrow>
       andThen (POA_LOCK r s) (\<lambda>s.
       andThen (deref (poas s) r) (\<lambda>p.
       if \<not> IS_RETAIN p then raise_ex ex_POA_WrongPolicy s
       else if \<not> IS_SYSTEM_ID p then raise_ex ex_POA_WrongPolicy s
       else
         andThen (deref (servants s) sv) (\<lambda>v.
         if IS_UNIQUE_ID p \<and> sv_private v \<noteq> None then raise_ex ex_POA_ServantAlreadyActive s
         else
           andThen (ORBit_POA_create_object_T h r None s) (\<lambda>(o', s).
           andThen (ORBit_POA_activate_object_T r o' (Some sv) s) (\<lambda>s.
           andThen (deref (pobjs s) o') (\<lambda>q.
           andThen (nonnull (po_object_id q)) (\<lambda>oid.
           andThen (POA_UNLOCK r s) (returns oid)))))))))"

definition PortableServer_POA_activate_object_with_id ::
    "hooks \<Rightarrow> nat option \<Rightarrow> oid option \<Rightarrow> nat option \<Rightarrow> orb \<Rightarrow> unit op" where
  "PortableServer_POA_activate_object_with_id h poa objid p_servant s =
    (case (poa, objid, p_servant) of
       (None, _, _) \<Rightarrow> raise_ex ex_CORBA_INV_OBJREF s
     | (_, None, _) \<Rightarrow> raise_ex ex_CORBA_BAD_PARAM s
     | (_, _, None) \<Rightarrow> raise_ex ex_CORBA_BAD_PARAM s
     | (Some r, Some oid, Some sv) \<Rightarrow>
       andThen (POA_LOCK r s) (\<lambda>s.
       andThen (deref (poas s) r) (\<lambda>p.
       if \<not> IS_RETAIN p then raise_ex ex_POA_WrongPolicy s
       else
         andThen (ORBit_POA_object_id_lookup_T r oid s) (\<lambda>(pobj, s).
         andThen (ORBit_POAObject_is_active pobj s) (\<lambda>active.
         andThen (deref (servants s) sv) (\<lambda>v.
         andThen (if active then raise_ex ex_POA_ObjectAlreadyActive s
                  else if IS_UNIQUE_ID p \<and> sv_private v \<noteq> None
                  then raise_ex ex_POA_ServantAlreadyActive s
                  else andThen (case pobj of
                           None \<Rightarrow> ORBit_POA_create_object_T h r (Some oid) s
                         | Some o' \<Rightarrow> Inr (o', s)) (\<lambda>(o', s).
                       andThen (ORBit_POA_activate_object_T r o' (Some sv) s) (returns ()))) (\<lambda>(res, s).
         andThen (release_opt release_pobj pobj s) (\<lambda>s.
         andThen (POA_UNLOCK r s) (\<lambda>s. Inr (res, s))))))))))"

definition PortableServer_POA_deactivate_object ::
    "hooks \<Rightarrow> nat option \<Rightarrow> oid option \<Rightarrow> orb \<Rightarrow> unit op" where
  "PortableServer_POA_deactivate_object h poa oid s = (case (poa, oid) of
       (None, _) \<Rightarrow> raise_ex ex_CORBA_INV_OBJREF s
     | (_, None) \<Rightarrow> raise_ex ex_CORBA_BAD_PARAM s
     | (Some r, Some i) \<Rightarrow>
       andThen (POA_LOCK r s) (\<lambda>s.
       andThen (deref (poas s) r) (\<lambda>p.
       if \<not> IS_RETAIN p then raise_ex ex_POA_WrongPolicy s
       else
         andThen (ORBit_POA_object_id_lookup_T r i s) (\<lambda>(pobj, s).
         andThen (ORBit_POAObject_is_active pobj s) (\<lambda>active.
         andThen (case pobj of
                    Some o' \<Rightarrow> if active then ORBit_POA_deactivate_object_T h r o' True False s
                               else Inr s
                  | None \<Rightarrow> Inr s) (\<lambda>s.
         andThen (POA_UNLOCK r s) (\<lambda>s.
         andThen (release_opt release_pobj pobj s) (returns ()))))))))"

section \<open>References, servants and ids\<close>

definition PortableServer_POA_create_reference ::
    "hooks \<Rightarrow> nat option \<Rightarrow> string option \<Rightarrow> orb \<Rightarrow> nat op" where
  "PortableServer_POA_create_reference h poa intf s = (case poa of
     None \<Rightarrow> raise_ex ex_CORBA_INV_OBJREF s
   | Some r \<Rightarrow>
     andThen (POA_LOCK r s) (\<lambda>s.
     andThen (deref (poas s) r) (\<lambda>p.
     if \<not> IS_SYSTEM_ID p then raise_ex ex_POA_WrongPolicy s
     else
       andThen (ORBit_POA_create_object_T h r None s) (\<lambda>(o', s).
       andThen (ORBit_POA_obj_to_ref h r (Some o') intf s) (\<lambda>(b, s).
       andThen (POA_UNLOCK r s) (returns b))))))"

text \<open>The object a new reference is made for is the one looked up, not the one created.\<close>

definition PortableServer_POA_create_reference_with_id ::
    "hooks \<Rightarrow> nat option \<Rightarrow> oid option \<Rightarrow> string option \<Rightarrow> orb \<Rightarrow> nat op" where
  "PortableServer_POA_create_reference_with_id h poa oid intf s = (case (poa, oid) of
       (None, _) \<Rightarrow> raise_ex ex_CORBA_INV_OBJREF s
     | (_, None) \<Rightarrow> raise_ex ex_CORBA_BAD_PARAM s
     | (Some r, Some i) \<Rightarrow>
       andThen (POA_LOCK r s) (\<lambda>s.
       andThen (ORBit_POA_object_id_lookup_T r i s) (\<lambda>(pobj, s).
       andThen (case pobj of
                  None \<Rightarrow> andThen (ORBit_POA_create_object_T h r (Some i) s) (\<lambda>(n, s). Inr (Some n, s))
                | Some _ \<Rightarrow> Inr (None, s)) (\<lambda>(newobj, s).
       andThen (ORBit_POA_obj_to_ref h r pobj intf s) (\<lambda>(b, s).
       andThen (if newobj = None then release_opt release_pobj pobj s else Inr s) (\<lambda>s.
       andThen (POA_UNLOCK r s) (returns b)))))))"

definition PortableServer_POA_servant_to_id ::
    "hooks \<Rightarrow> nat option \<Rightarrow> nat option \<Rightarrow> orb \<Rightarrow> oid op" where
  "PortableServer_POA_servant_to_id h poa p_servant s =
     andThen (nonnull p_servant) (\<lambda>sv.
     andThen (deref (servants s) sv) (\<lambda>v.
     andThen (nonnull poa) (\<lambda>r.
     andThen (deref (poas s) r) (\<lambda>p.
     let defserv = request_processing p = USE_DEFAULT_SERVANT;
         retain = IS_RETAIN p; implicit = IS_IMPLICIT_ACTIVATION p; unique = IS_UNIQUE_ID p
     in
     andThen (POA_LOCK r s) (\<lambda>s.
     if \<not> (defserv \<or> (retain \<and> (unique \<or> implicit))) then raise_ex ex_POA_WrongPolicy s
     else
       andThen (if retain \<and> unique \<and> sv_private v \<noteq> None
                then andThen (deref (pobjs s) (the (sv_private v))) (\<lambda>q. Inr (po_servant q = Some sv))
                else Inr False) (\<lambda>own.
       andThen (if own
                then andThen (deref (pobjs s) (the (sv_private v))) (\<lambda>q.
                     andThen (nonnull (po_object_id q)) (\<lambda>oid. Inr (Some oid, s)))
                else if retain \<and> implicit \<and> (\<not> unique \<or> sv_private v = None)
                then andThen (ORBit_POA_create_object_T h r None s) (\<lambda>(o', s).
                     andThen (ORBit_POA_activate_object_T r o' (Some sv) s) (\<lambda>s.
                     andThen (deref (pobjs s) o') (\<lambda>q. Inr (po_object_id q, s))))
                else andThen (ORBit_POA_invocation_stack_lookup_objid sv s) (\<lambda>oid.
                     Inr (oid, s))) (\<lambda>(oid, s).
       andThen (POA_UNLOCK r s) (\<lambda>s. case oid of
         None \<Rightarrow> raise_ex ex_POA_ServantNotActive s
       | Some i \<Rightarrow> returns i s))))))))"

definition PortableServer_POA_servant_to_reference ::
    "hooks \<Rightarrow> nat option \<Rightarrow> nat option \<Rightarrow> orb \<Rightarrow> nat op" where
  "PortableServer_POA_servant_to_reference h poa p_servant s =
     andThen (nonnull p_servant) (\<lambda>sv.
     andThen (deref (servants s) sv) (\<lambda>v.
     andThen (nonnull poa) (\<lambda>r.
     andThen (deref (poas s) r) (\<lambda>p.
     let retain = IS_RETAIN p; implicit = IS_IMPLICIT_ACTIVATION p; unique = IS_UNIQUE_ID p in
     andThen (POA_LOCK r s) (\<lambda>s.
     if \<not> (retain \<and> (unique \<or> implicit)) then raise_ex ex_POA_WrongPolicy s
     else
       andThen (case sv_private v of
                  Some o' \<Rightarrow>
                    if unique then
                      andThen (deref (pobjs s) o') (\<lambda>q. case po_objref q of
                        Some b \<Rightarrow> andThen (dup_objref b s) (\<lambda>s. Inr (Some b, s))
                      | None \<Rightarrow> andThen (ORBit_POA_obj_to_ref h r (Some o') None s) (\<lambda>(b, s).
                               Inr (Some b, s)))
                    else if implicit then
                      andThen (ORBit_POA_create_object_T h r None s) (\<lambda>(n, s).
                      andThen (ORBit_POA_activate_object_T r n (Some sv) s) (\<lambda>s.
                      andThen (ORBit_POA_obj_to_ref h r (Some n) None s) (\<lambda>(b, s). Inr (Some b, s))))
                    else ORBit_POA_invocation_stack_lookup_objref h r sv s
                | None \<Rightarrow>
                    if implicit then
                      andThen (ORBit_POA_create_object_T h r None s) (\<lambda>(n, s).
                      andThen (ORBit_POA_activate_object_T r n (Some sv) s) (\<lambda>s.
                      andThen (ORBit_POA_obj_to_ref h r (Some n) None s) (\<lambda>(b, s). Inr (Some b, s))))
                    else ORBit_POA_invocation_stack_lookup_objref h r sv s) (\<lambda>(result, s).
       andThen (POA_UNLOCK r s) (\<lambda>s. case result of
         None \<Rightarrow> raise_ex ex_POA_ServantNotActive s
       | Some b \<Rightarrow> returns b s)))))))"

definition PortableServer_POA_reference_to_servant ::
    "nat option \<Rightarrow> nat option \<Rightarrow> orb \<Rightarrow> nat op" where
  "PortableServer_POA_reference_to_servant poa reference s = (case (poa, reference) of
       (None, _) \<Rightarrow> raise_ex ex_CORBA_INV_OBJREF s
     | (_, None) \<Rightarrow> raise_ex ex_CORBA_BAD_PARAM s
     | (Some r, Some b) \<Rightarrow>
       andThen (deref (poas s) r) (\<lambda>p.
       if \<not> (request_processing p = USE_DEFAULT_SERVANT \<or> IS_RETAIN p)
       then raise_ex ex_POA_WrongPolicy s
       else if IS_RETAIN p then
         andThen (deref (objrefs s) b) (\<lambda>ref. case adaptor_obj ref of
           None \<Rightarrow> raise_ex ex_POA_WrongAdapter s
         | Some o' \<Rightarrow> andThen (deref (pobjs s) o') (\<lambda>q. case po_servant q of
             Some sv \<Rightarrow> returns sv s
           | None \<Rightarrow> raise_ex ex_POA_ObjectNotActive s))
       else (case default_servant p of
         Some sv \<Rightarrow> returns sv s
       | None \<Rightarrow> raise_ex ex_POA_ObjectNotActive s)))"

definition PortableServer_POA_reference_to_id ::
    "nat option \<Rightarrow> nat option \<Rightarrow> orb \<Rightarrow> oid op" where
  "PortableServer_POA_reference_to_id poa reference s = (case (poa, reference) of
       (None, _) \<Rightarrow> raise_ex ex_CORBA_INV_OBJREF s
     | (_, None) \<Rightarrow> raise_ex ex_CORBA_BAD_PARAM s
     | (Some r, Some b) \<Rightarrow>
       andThen (deref (objrefs s) b) (\<lambda>ref. case adaptor_obj ref of
         None \<Rightarrow> raise_ex ex_POA_WrongAdapter s
       | Some o' \<Rightarrow> andThen (deref (pobjs s) o') (\<lambda>q.
           andThen (nonnull (po_object_id q)) (\<lambda>oid. returns oid s))))"

text \<open>The value returned is NULL on every path.\<close>

definition PortableServer_POA_id_to_servant ::
    "nat option \<Rightarrow> oid option \<Rightarrow> orb \<Rightarrow> nat option op" where
  "PortableServer_POA_id_to_servant poa object_id s = (case (poa, object_id) of
       (None, _) \<Rightarrow> raise_ex ex_CORBA_INV_OBJREF s
     | (_, None) \<Rightarrow> raise_ex ex_CORBA_BAD_PARAM s
     | (Some r, Some i) \<Rightarrow>
       andThen (POA_LOCK r s) (\<lambda>s.
       andThen (deref (poas s) r) (\<lambda>p.
       if \<not> (request_processing p = USE_DEFAULT_SERVANT \<or> IS_RETAIN p)
       then raise_ex ex_POA_WrongPolicy s
       else
         andThen (if IS_RETAIN p then
                    andThen (ORBit_POA_object_id_lookup_T r i s) (\<lambda>(pobj, s).
                    andThen (case pobj of
                               None \<Rightarrow> Inr None
                             | Some o' \<Rightarrow> andThen (deref (pobjs s) o') (\<lambda>q. Inr (po_servant q))) (\<lambda>sv.
                    andThen (release_opt release_pobj pobj s) (\<lambda>s. Inr (sv, s))))
                  else Inr (default_servant p, s)) (\<lambda>(servant, s).
         andThen (POA_UNLOCK r s) (\<lambda>s.
         if servant = None then raise_ex ex_POA_ObjectNotActive s else returns None s)))))"

definition PortableServer_POA_id_to_reference ::
    "hooks \<Rightarrow> nat option \<Rightarrow> oid option \<Rightarrow> orb \<Rightarrow> nat op" where
  "PortableServer_POA_id_to_reference h poa object_id s = (case (poa, object_id) of
       (None, _) \<Rightarrow> raise_ex ex_CORBA_INV_OBJREF s
     | (_, None) \<Rightarrow> raise_ex ex_CORBA_BAD_PARAM s
     | (Some r, Some i) \<Rightarrow>
       andThen (POA_LOCK r s) (\<lambda>s.
       andThen (deref (poas s) r) (\<lambda>p.
       if \<not> IS_RETAIN p then raise_ex ex_POA_WrongPolicy s
       else
         andThen (ORBit_POA_object_id_lookup_T r i s) (\<lambda>(pobj, s).
         andThen (ORBit_POAObject_is_active pobj s) (\<lambda>active.
         andThen (case pobj of
                    Some o' \<Rightarrow>
                      if \<not> active then raise_ex ex_POA_ObjectNotActive s
                      else andThen (deref (pobjs s) o') (\<lambda>q. case po_objref q of
                          Some b \<Rightarrow> andThen (dup_objref b s) (returns b)
                        | None \<Rightarrow> andThen (ORBit_POA_obj_to_ref h r (Some o') None s) (\<lambda>(b, s).
                                 returns b s))
                  | None \<Rightarrow> raise_ex ex_POA_ObjectNotActive s) (\<lambda>(res, s).
         andThen (POA_UNLOCK r s) (\<lambda>s.
         andThen (release_opt release_pobj pobj s) (\<lambda>s. Inr (res, s)))))))))"

section \<open>The Current object\<close>

definition PortableServer_Current_get_POA :: "bool \<Rightarrow> orb \<Rightarrow> nat op" where
  "PortableServer_Current_get_POA obj s =
    (if \<not> obj then raise_ex ex_CORBA_INV_OBJREF s
     else andThen (nonnull (ORBit_POA_invocation_stack_peek s)) (\<lambda>o'.
          andThen (deref (pobjs s) o') (\<lambda>q.
          andThen (dup_poa (po_poa q) s) (returns (po_poa q)))))"

definition PortableServer_Current_get_object_id :: "bool \<Rightarrow> orb \<Rightarrow> oid op" where
  "PortableServer_Current_get_object_id obj s =
    (if \<not> obj then raise_ex ex_CORBA_INV_OBJREF s
     else (case ORBit_POA_invocation_stack_peek s of
       None \<Rightarrow> raise_ex ex_Current_NoContext s
     | Some o' \<Rightarrow> andThen (deref (pobjs s) o') (\<lambda>q.
         andThen (nonnull (po_object_id q)) (\<lambda>oid. returns oid s))))"

section \<open>Object ids as strings\<close>

text \<open>
  A string is the bytes of its buffer; strlen counts those before the first
  NUL. The macro returns the exception when its condition is false, so a NUL is
  required where one should be refused.
\<close>

definition PortableServer_ObjectId_to_string :: "oid option \<Rightarrow> corba_exception + byte list" where
  "PortableServer_ObjectId_to_string id' = (case id' of
     None \<Rightarrow> Inl ex_CORBA_BAD_PARAM
   | Some i \<Rightarrow> if 0 \<notin> set i then Inl ex_CORBA_BAD_PARAM else Inr (i @ [0]))"

definition PortableServer_ObjectId_to_wstring :: "oid option \<Rightarrow> corba_exception + u16 list" where
  "PortableServer_ObjectId_to_wstring id' = (case id' of
     None \<Rightarrow> Inl ex_CORBA_BAD_PARAM
   | Some i \<Rightarrow> if 0 \<notin> set i then Inl ex_CORBA_BAD_PARAM else Inr (map ucast i @ [0]))"

definition PortableServer_string_to_ObjectId :: "byte list option \<Rightarrow> corba_exception + oid" where
  "PortableServer_string_to_ObjectId str = (case str of
     None \<Rightarrow> Inl ex_CORBA_BAD_PARAM
   | Some cs \<Rightarrow> Inr (takeWhile (\<lambda>c. c \<noteq> 0) cs))"

text \<open>The second half of the buffer is never written: it holds what the stack held.\<close>

definition PortableServer_wstring_to_ObjectId ::
    "byte list \<Rightarrow> u16 list option \<Rightarrow> corba_exception + oid" where
  "PortableServer_wstring_to_ObjectId stack str = (case str of
     None \<Rightarrow> Inl ex_CORBA_BAD_PARAM
   | Some cs \<Rightarrow>
     let ws = takeWhile (\<lambda>c. c \<noteq> 0) cs
     in Inr (map ucast ws @ take (length ws) (drop (length ws) stack)))"

end
