(* ===== verification/Poa_Invariant.thy ===== *)
theory Poa_Invariant
imports Poa_Interface "HOL-Library.Multiset"
begin

text \<open>
  The invariant of the adaptor: what the reference counts, the object maps, the
  chains of servants, the use counts and the references of a state say to each
  other. \<open>T\<close> and \<open>P\<close> are the references to objects and to POAs that running
  code holds in its local variables.
\<close>

section \<open>Updates of one structure\<close>

named_theorems heap_simps \<open>updates of live structures\<close>

lemma set_poa_live [heap_simps]:
  "poas s r = Some p \<Longrightarrow> set_poa r f s = s\<lparr>poas := (poas s)(r \<mapsto> f p)\<rparr>"
  by (simp add: set_poa_def)

lemma set_pobj_live [heap_simps]:
  "pobjs s r = Some p \<Longrightarrow> set_pobj r f s = s\<lparr>pobjs := (pobjs s)(r \<mapsto> f p)\<rparr>"
  by (simp add: set_pobj_def)

lemma set_manager_live [heap_simps]:
  "managers s r = Some p \<Longrightarrow> set_manager r f s = s\<lparr>managers := (managers s)(r \<mapsto> f p)\<rparr>"
  by (simp add: set_manager_def)

lemma set_objref_live [heap_simps]:
  "objrefs s r = Some p \<Longrightarrow> set_objref r f s = s\<lparr>objrefs := (objrefs s)(r \<mapsto> f p)\<rparr>"
  by (simp add: set_objref_def)

lemma set_servant_live [heap_simps]:
  "servants s r = Some p \<Longrightarrow> set_servant r f s = s\<lparr>servants := (servants s)(r \<mapsto> f p)\<rparr>"
  by (simp add: set_servant_def)

lemma deref_Inr [simp]: "deref heap r = Inr x \<longleftrightarrow> heap r = Some x"
  by (simp add: deref_def split: option.splits)

lemma nonnull_Inr [simp]: "nonnull p = Inr x \<longleftrightarrow> p = Some x"
  by (simp add: nonnull_def split: option.splits)

lemma g_assert_Inr [simp]: "g_assert b s = Inr x \<longleftrightarrow> b \<and> s = x"
  by (simp add: g_assert_def)

lemma do_unref_Inr [simp]:
  "do_unref n = Inr m \<longleftrightarrow> n < ORBIT_REFCOUNT_MAX \<and> n = Suc m"
  by (cases n) (auto simp: do_unref_def)

section \<open>Parts of the invariant\<close>

definition counted :: "nat multiset \<Rightarrow> orb \<Rightarrow> bool" where
  "counted T s \<longleftrightarrow>
    (\<forall>x q. pobjs s x = Some q \<longrightarrow>
       po_refs q = of_bool (po_servant q \<noteq> None) + of_bool (po_objref q \<noteq> None) + count T x) \<and>
    (\<forall>x. x \<in># T \<longrightarrow> pobjs s x \<noteq> None)"

definition in_map :: "orb \<Rightarrow> nat \<Rightarrow> POAObject \<Rightarrow> bool" where
  "in_map s x q \<longleftrightarrow> (\<exists>p oid. poas s (po_poa q) = Some p \<and> (oid, x) \<in> set (oid_to_obj_map p) \<and>
     (if Destroyed \<in> po_life q
      then po_servant q = None \<and> po_objref q = None \<and> po_object_id q = None
      else po_object_id q = Some oid))"

definition map_entry :: "orb \<Rightarrow> nat \<Rightarrow> POA \<Rightarrow> oid \<Rightarrow> nat \<Rightarrow> bool" where
  "map_entry s r p oid x \<longleftrightarrow> (\<exists>q. pobjs s x = Some q \<and> po_poa q = r \<and>
     (if Destroyed \<in> po_life q then Deactivating \<in> poa_life p else po_object_id q = Some oid))"

definition mapped :: "orb \<Rightarrow> bool" where
  "mapped s \<longleftrightarrow>
    (\<forall>x q. pobjs s x = Some q \<longrightarrow> in_map s x q) \<and>
    (\<forall>r p oid x. poas s r = Some p \<longrightarrow> (oid, x) \<in> set (oid_to_obj_map p) \<longrightarrow> map_entry s r p oid x) \<and>
    (\<forall>r p. poas s r = Some p \<longrightarrow> distinct (map fst (oid_to_obj_map p)) \<and>
      (Destroyed \<in> poa_life p \<longrightarrow> Deactivated \<in> poa_life p \<and> Deactivating \<notin> poa_life p))"

fun chain :: "(nat \<Rightarrow> POAObject option) \<Rightarrow> nat option \<Rightarrow> nat list \<Rightarrow> bool" where
  "chain ps l [] = (l = None)"
| "chain ps l (x # xs) = (l = Some x \<and> (\<exists>q. ps x = Some q \<and> chain ps (po_next q) xs))"

definition incarnated :: "orb \<Rightarrow> nat \<Rightarrow> nat set" where
  "incarnated s sv = {x. \<exists>q. pobjs s x = Some q \<and> po_servant q = Some sv}"

definition chained :: "orb \<Rightarrow> bool" where
  "chained s \<longleftrightarrow>
    (\<forall>sv v. servants s sv = Some v \<longrightarrow>
       (\<exists>xs. chain (pobjs s) (sv_private v) xs \<and> distinct xs \<and> set xs = incarnated s sv)) \<and>
    (\<forall>x q sv. pobjs s x = Some q \<longrightarrow> po_servant q = Some sv \<longrightarrow> servants s sv \<noteq> None)"

definition used :: "orb \<Rightarrow> bool" where
  "used s \<longleftrightarrow>
    (\<forall>x q. pobjs s x = Some q \<longrightarrow> po_use_cnt q = of_nat (count_list (current_invocations s) x)) \<and>
    (\<forall>x \<in> set (current_invocations s). \<exists>q. pobjs s x = Some q \<and> po_servant q \<noteq> None) \<and>
    length (current_invocations s) < 2 ^ 16"

definition referenced :: "orb \<Rightarrow> bool" where
  "referenced s \<longleftrightarrow>
    (\<forall>b f. objrefs s b = Some f \<longrightarrow> 0 < ref_refs f \<and>
       (\<forall>x. adaptor_obj f = Some x \<longrightarrow> (\<exists>q. pobjs s x = Some q \<and> po_objref q = Some b))) \<and>
    (\<forall>x q b. pobjs s x = Some q \<longrightarrow> po_objref q = Some b \<longrightarrow>
       (\<exists>f. objrefs s b = Some f \<and> adaptor_obj f = Some x))"

definition objects_of :: "orb \<Rightarrow> nat \<Rightarrow> nat set" where
  "objects_of s r = {x. \<exists>q. pobjs s x = Some q \<and> po_poa q = r \<and> Destroyed \<notin> po_life q}"

definition children_of :: "orb \<Rightarrow> nat \<Rightarrow> nat set" where
  "children_of s r = {c. \<exists>p. poas s c = Some p \<and> parent_poa p = Some r}"

definition held :: "nat multiset \<Rightarrow> orb \<Rightarrow> bool" where
  "held P s \<longleftrightarrow>
    (\<forall>r p. poas s r = Some p \<longrightarrow>
       of_bool (Destroyed \<notin> poa_life p) + card (objects_of s r) + card (children_of s r) + count P r
       \<le> poa_refs p) \<and>
    (\<forall>r. r \<in># P \<longrightarrow> poas s r \<noteq> None) \<and>
    (\<forall>c p r. poas s c = Some p \<longrightarrow> parent_poa p = Some r \<longrightarrow> poas s r \<noteq> None)"

definition listed :: "orb \<Rightarrow> bool" where
  "listed s \<longleftrightarrow>
    (\<forall>i r. i < length (adaptors s) \<longrightarrow> adaptors s ! i = Some r \<longrightarrow>
       (\<exists>p. poas s r = Some p \<and> poa_id p = int i \<and> Destroyed \<notin> poa_life p)) \<and>
    (\<forall>r p. poas s r = Some p \<longrightarrow> Destroyed \<notin> poa_life p \<longrightarrow>
       0 \<le> poa_id p \<and> nat (poa_id p) < length (adaptors s) \<and>
       adaptors s ! nat (poa_id p) = Some r \<and>
       length (adaptor_key p) = ORBIT_ADAPTOR_PREFIX_LEN \<and>
       key_adaptor_id (adaptor_key p) = poa_id p)"

definition displaced :: "orb \<Rightarrow> bool" where
  "displaced s \<longleftrightarrow> (\<forall>r p sm. poas s r = Some p \<longrightarrow> servant_manager p = Some sm \<longrightarrow>
     (\<exists>v. servants s sm = Some v \<and> 0 < vepv_shift v))"

definition fresh_above :: "orb \<Rightarrow> bool" where
  "fresh_above s \<longleftrightarrow> (\<forall>x \<ge> next_ref s. poas s x = None \<and> pobjs s x = None \<and>
     objrefs s x = None \<and> managers s x = None)"

definition sound :: "nat multiset \<Rightarrow> nat multiset \<Rightarrow> orb \<Rightarrow> bool" where
  "sound T P s \<longleftrightarrow> counted T s \<and> mapped s \<and> chained s \<and> used s \<and> referenced s \<and>
     held P s \<and> listed s \<and> displaced s \<and> fresh_above s"

lemmas sound_parts = counted_def mapped_def chained_def used_def referenced_def held_def
  listed_def displaced_def fresh_above_def in_map_def map_entry_def

lemma mappedI:
  assumes "\<And>x q. pobjs s x = Some q \<Longrightarrow> in_map s x q"
    and "\<And>r p oid x. poas s r = Some p \<Longrightarrow> (oid, x) \<in> set (oid_to_obj_map p) \<Longrightarrow> map_entry s r p oid x"
    and "\<And>r p. poas s r = Some p \<Longrightarrow> distinct (map fst (oid_to_obj_map p))"
    and "\<And>r p. poas s r = Some p \<Longrightarrow> Destroyed \<in> poa_life p \<Longrightarrow>
      Deactivated \<in> poa_life p \<and> Deactivating \<notin> poa_life p"
  shows "mapped s"
  using assms unfolding mapped_def by blast

lemma mappedD:
  assumes "mapped s"
  shows "pobjs s x = Some q \<Longrightarrow> in_map s x q"
    and "poas s r = Some p \<Longrightarrow> (oid, x) \<in> set (oid_to_obj_map p) \<Longrightarrow> map_entry s r p oid x"
    and "poas s r = Some p \<Longrightarrow> distinct (map fst (oid_to_obj_map p))"
    and "poas s r = Some p \<Longrightarrow> Destroyed \<in> poa_life p \<Longrightarrow>
      Deactivated \<in> poa_life p \<and> Deactivating \<notin> poa_life p"
  using assms unfolding mapped_def by blast+

lemma chained_transfer:
  assumes "chained s" "\<And>sv. incarnated t sv = incarnated s sv" "servants t = servants s"
    and "\<And>xs l sv. set xs = incarnated s sv \<Longrightarrow> chain (pobjs t) l xs = chain (pobjs s) l xs"
  shows "chained t"
  unfolding chained_def
proof (intro conjI allI impI)
  fix sv v assume "servants t sv = Some v"
  then obtain xs where "chain (pobjs s) (sv_private v) xs" "distinct xs" "set xs = incarnated s sv"
    using assms(1,3) unfolding chained_def by metis
  then show "\<exists>xs. chain (pobjs t) (sv_private v) xs \<and> distinct xs \<and> set xs = incarnated t sv"
    using assms(2,4) by metis
next
  fix x q sv assume "pobjs t x = Some q" "po_servant q = Some sv"
  then have "x \<in> incarnated t sv" by (auto simp: incarnated_def)
  then have "x \<in> incarnated s sv" by (simp add: assms(2))
  then obtain q' where "pobjs s x = Some q'" "po_servant q' = Some sv"
    by (auto simp: incarnated_def)
  then show "servants t sv \<noteq> None" using assms(1,3) unfolding chained_def by metis
qed

section \<open>References to objects\<close>

lemma finite_pobjs: "fresh_above s \<Longrightarrow> finite {x. pobjs s x \<noteq> None}"
  by (rule finite_subset [of _ "{..< next_ref s}"]) (auto simp: fresh_above_def not_le [symmetric])

lemma finite_poas: "fresh_above s \<Longrightarrow> finite {x. poas s x \<noteq> None}"
  by (rule finite_subset [of _ "{..< next_ref s}"]) (auto simp: fresh_above_def not_le [symmetric])

lemma finite_objects_of: "fresh_above s \<Longrightarrow> finite (objects_of s r)"
  by (rule finite_subset [OF _ finite_pobjs]) (auto simp: objects_of_def)

lemma finite_children_of: "fresh_above s \<Longrightarrow> finite (children_of s r)"
  by (rule finite_subset [OF _ finite_poas]) (auto simp: children_of_def)

text \<open>An update of an object that keeps what the other parts read.\<close>

lemma chain_cong:
  assumes "\<And>x. x \<in> set xs \<Longrightarrow> map_option po_next (ps x) = map_option po_next (qs x)"
  shows "chain ps l xs = chain qs l xs"
  using assms
proof (induction xs arbitrary: l)
  case (Cons x xs)
  have 1: "\<And>l. chain ps l xs = chain qs l xs" using Cons by simp
  have 2: "map_option po_next (ps x) = map_option po_next (qs x)" using Cons.prems by simp
  show ?case
    by (cases "ps x"; cases "qs x") (use 1 2 in auto)
qed simp

lemma pobj_update:
  assumes q: "pobjs s x = Some q"
    and same: "po_servant q' = po_servant q" "po_poa q' = po_poa q" "po_object_id q' = po_object_id q"
      "po_use_cnt q' = po_use_cnt q" "po_next q' = po_next q"
      "(Destroyed \<in> po_life q') = (Destroyed \<in> po_life q)"
  shows "\<lbrakk>mapped s; po_objref q' = po_objref q \<or> Destroyed \<notin> po_life q\<rbrakk> \<Longrightarrow>
      mapped (s\<lparr>pobjs := (pobjs s)(x \<mapsto> q')\<rparr>)"
    and "chained s \<Longrightarrow> chained (s\<lparr>pobjs := (pobjs s)(x \<mapsto> q')\<rparr>)"
    and "used s \<Longrightarrow> used (s\<lparr>pobjs := (pobjs s)(x \<mapsto> q')\<rparr>)"
    and "held P s \<Longrightarrow> held P (s\<lparr>pobjs := (pobjs s)(x \<mapsto> q')\<rparr>)"
    and "listed s \<Longrightarrow> listed (s\<lparr>pobjs := (pobjs s)(x \<mapsto> q')\<rparr>)"
    and "displaced s \<Longrightarrow> displaced (s\<lparr>pobjs := (pobjs s)(x \<mapsto> q')\<rparr>)"
    and "fresh_above s \<Longrightarrow> fresh_above (s\<lparr>pobjs := (pobjs s)(x \<mapsto> q')\<rparr>)"
proof -
  let ?s = "s\<lparr>pobjs := (pobjs s)(x \<mapsto> q')\<rparr>"
  show "mapped ?s" if "mapped s" "po_objref q' = po_objref q \<or> Destroyed \<notin> po_life q"
  proof -
    have 1: "in_map ?s y q2" if "in_map s y q1" "po_poa q2 = po_poa q1"
        "po_servant q2 = po_servant q1" "po_object_id q2 = po_object_id q1"
        "(Destroyed \<in> po_life q2) = (Destroyed \<in> po_life q1)"
        "po_objref q2 = po_objref q1 \<or> Destroyed \<notin> po_life q1" for y q1 q2
      using that unfolding in_map_def by auto
    have 2: "map_entry ?s r p oid y" if "map_entry s r p oid y" for r p oid y
      using that q same by (auto simp: map_entry_def split: if_splits)
    show ?thesis
    proof (rule mappedI)
      fix y qy assume y: "pobjs ?s y = Some qy"
      have "in_map ?s x q'"
        by (rule 1 [OF mappedD(1) [OF that(1) q] same(2,1,3,6) that(2)])
      then show "in_map ?s y qy"
        using mappedD(1) [OF that(1), of y qy] 1 [of y qy qy] y by (cases "y = x") simp_all
    next
      fix r p oid y assume "poas ?s r = Some p" "(oid, y) \<in> set (oid_to_obj_map p)"
      then show "map_entry ?s r p oid y" using mappedD(2) [OF that(1)] 2 by simp
    qed (use mappedD(3,4) [OF that(1)] in simp_all)
  qed
  have inc: "incarnated ?s sv = incarnated s sv" for sv
    using q same by (auto simp: incarnated_def)
  have ch: "chain ((pobjs s)(x \<mapsto> q')) l xs = chain (pobjs s) l xs" for l xs
    by (rule chain_cong) (use q same in auto)
  show "chained ?s" if "chained s"
    using that q same by (auto simp: chained_def inc ch)
  show "used ?s" if "used s"
    using that q same by (auto simp: used_def)
  have "objects_of ?s r = objects_of s r" "children_of ?s r = children_of s r" for r
    using q same by (auto simp: objects_of_def children_of_def)
  then show "held P ?s" if "held P s" using that by (simp add: held_def)
  show "listed ?s" if "listed s" using that by (simp add: listed_def)
  show "displaced ?s" if "displaced s" using that by (simp add: displaced_def)
  show "fresh_above ?s" if "fresh_above s" using that q by (auto simp: fresh_above_def)
qed

lemma referenced_update:
  assumes "pobjs s x = Some q" "po_objref q' = po_objref q" "referenced s"
  shows "referenced (s\<lparr>pobjs := (pobjs s)(x \<mapsto> q')\<rparr>)"
  using assms by (fastforce simp: referenced_def)

lemma sound_pobj_update:
  assumes "sound T P s" "pobjs s x = Some q"
    and "po_servant q' = po_servant q" "po_poa q' = po_poa q" "po_object_id q' = po_object_id q"
      "po_use_cnt q' = po_use_cnt q" "po_next q' = po_next q" "po_objref q' = po_objref q"
      "(Destroyed \<in> po_life q') = (Destroyed \<in> po_life q)"
    and "counted T' (s\<lparr>pobjs := (pobjs s)(x \<mapsto> q')\<rparr>)"
  shows "sound T' P (s\<lparr>pobjs := (pobjs s)(x \<mapsto> q')\<rparr>)"
  using assms pobj_update [of s x q q'] referenced_update [of s x q q'] unfolding sound_def by blast

lemma dup_pobj_sound:
  assumes "sound T P s" "dup_pobj x s = Inr s'"
  shows "sound (add_mset x T) P s'"
proof -
  obtain q where q: "pobjs s x = Some q"
    using assms(2) by (auto simp: dup_pobj_def andThen_eq_Inr)
  have s': "s' = s\<lparr>pobjs := (pobjs s)(x \<mapsto> q\<lparr>po_refs := po_refs q + 1\<rparr>)\<rparr>"
    using assms(2) q by (simp add: dup_pobj_def andThen_eq_Inr heap_simps)
  have "counted T s" using assms(1) by (simp add: sound_def)
  then have "counted (add_mset x T) s'" using q by (auto simp: counted_def s')
  then show ?thesis unfolding s' by (intro sound_pobj_update [OF assms(1) q]) auto
qed


section \<open>References to POAs\<close>

lemmas sound_unfold = sound_def sound_parts incarnated_def objects_of_def children_of_def

lemma sound_orb_refs [simp]: "sound T P (s\<lparr>orb_refs := n\<rparr>) = sound T P s"
  by (simp add: sound_unfold)

lemma sound_events [simp]: "sound T P (s\<lparr>events := n\<rparr>) = sound T P s"
  by (simp add: sound_unfold)

lemma sound_locked [simp]: "sound T P (s\<lparr>locked := n\<rparr>) = sound T P s"
  by (simp add: sound_unfold)

lemma sound_buffers [simp]: "sound T P (s\<lparr>buffers := n\<rparr>) = sound T P s"
  by (simp add: sound_unfold)

lemma sound_pushed [simp]: "sound T P (s\<lparr>pushed := n\<rparr>) = sound T P s"
  by (simp add: sound_unfold)

lemma sound_forw_binds [simp]: "sound T P (s\<lparr>forw_binds := n\<rparr>) = sound T P s"
  by (simp add: sound_unfold)

lemma sound_managers:
  "sound T P s \<Longrightarrow> (\<And>m. ms m \<noteq> None \<Longrightarrow> managers s m \<noteq> None) \<Longrightarrow> sound T P (s\<lparr>managers := ms\<rparr>)"
proof -
  assume s: "sound T P s" and m: "\<And>m. ms m \<noteq> None \<Longrightarrow> managers s m \<noteq> None"
  then have "fresh_above (s\<lparr>managers := ms\<rparr>)" unfolding sound_def fresh_above_def by force
  then show ?thesis using s by (simp add: sound_unfold)
qed

lemma poa_update:
  assumes p: "poas s r = Some p"
    and same: "oid_to_obj_map p' = oid_to_obj_map p" "parent_poa p' = parent_poa p"
      "poa_id p' = poa_id p" "adaptor_key p' = adaptor_key p" "servant_manager p' = servant_manager p"
      "poa_life p' \<inter> {Destroyed, Deactivating, Deactivated} =
       poa_life p \<inter> {Destroyed, Deactivating, Deactivated}"
  shows "counted T (s\<lparr>poas := (poas s)(r \<mapsto> p')\<rparr>) = counted T s"
    and "mapped s \<Longrightarrow> mapped (s\<lparr>poas := (poas s)(r \<mapsto> p')\<rparr>)"
    and "chained (s\<lparr>poas := (poas s)(r \<mapsto> p')\<rparr>) = chained s"
    and "used (s\<lparr>poas := (poas s)(r \<mapsto> p')\<rparr>) = used s"
    and "referenced (s\<lparr>poas := (poas s)(r \<mapsto> p')\<rparr>) = referenced s"
    and "listed s \<Longrightarrow> listed (s\<lparr>poas := (poas s)(r \<mapsto> p')\<rparr>)"
    and "displaced s \<Longrightarrow> displaced (s\<lparr>poas := (poas s)(r \<mapsto> p')\<rparr>)"
    and "fresh_above s \<Longrightarrow> fresh_above (s\<lparr>poas := (poas s)(r \<mapsto> p')\<rparr>)"
proof -
  let ?s = "s\<lparr>poas := (poas s)(r \<mapsto> p')\<rparr>"
  have life: "Destroyed \<in> poa_life p' \<longleftrightarrow> Destroyed \<in> poa_life p"
    "Deactivating \<in> poa_life p' \<longleftrightarrow> Deactivating \<in> poa_life p"
    "Deactivated \<in> poa_life p' \<longleftrightarrow> Deactivated \<in> poa_life p"
    using same(6) by blast+
  show "counted T ?s = counted T s" "chained ?s = chained s" "used ?s = used s"
    "referenced ?s = referenced s"
    by (simp_all add: sound_parts incarnated_def)
  show "mapped ?s" if "mapped s"
  proof -
    have 1: "in_map ?s y q" if "in_map s y q" for y q
      using that p same(1) by (auto simp: in_map_def)
    have 2: "map_entry ?s r1 p2 oid y" if "map_entry s r1 p1 oid y"
      "Deactivating \<in> poa_life p2 \<longleftrightarrow> Deactivating \<in> poa_life p1" for r1 p1 p2 oid y
      using that by (auto simp: map_entry_def)
    show ?thesis
    proof (rule mappedI)
      fix y q assume "pobjs ?s y = Some q"
      then show "in_map ?s y q" using mappedD(1) [OF that] 1 by simp
    next
      fix r1 p1 oid y assume "poas ?s r1 = Some p1" "(oid, y) \<in> set (oid_to_obj_map p1)"
      then show "map_entry ?s r1 p1 oid y"
        using mappedD(2) [OF that, of r1 _ oid y] 2 [of r1 _ oid y p1] p same(1) life(2)
        by (cases "r1 = r") simp_all
    next
      fix r1 p1 assume "poas ?s r1 = Some p1"
      then show "distinct (map fst (oid_to_obj_map p1))"
        using mappedD(3) [OF that] p same(1) by (cases "r1 = r") auto
    next
      fix r1 p1 assume "poas ?s r1 = Some p1" "Destroyed \<in> poa_life p1"
      then show "Deactivated \<in> poa_life p1 \<and> Deactivating \<notin> poa_life p1"
        using mappedD(4) [OF that] p life by (cases "r1 = r") auto
    qed
  qed
  show "listed ?s" if "listed s"
    using that p same life unfolding listed_def by auto
  show "displaced ?s" if "displaced s"
    using that p same by (auto simp: displaced_def)
  show "fresh_above ?s" if "fresh_above s" using that p by (auto simp: fresh_above_def)
qed

lemma sound_poa_update:
  assumes "sound T P s" "poas s r = Some p"
    and "oid_to_obj_map p' = oid_to_obj_map p" "parent_poa p' = parent_poa p"
      "poa_id p' = poa_id p" "adaptor_key p' = adaptor_key p" "servant_manager p' = servant_manager p"
      "poa_life p' \<inter> {Destroyed, Deactivating, Deactivated} =
       poa_life p \<inter> {Destroyed, Deactivating, Deactivated}"
    and "held P' (s\<lparr>poas := (poas s)(r \<mapsto> p')\<rparr>)"
  shows "sound T P' (s\<lparr>poas := (poas s)(r \<mapsto> p')\<rparr>)"
  using assms poa_update [of s r p p'] unfolding sound_def by blast

lemma held_poa_update:
  assumes "held P s" "poas s r = Some p" "parent_poa p' = parent_poa p"
    and "Destroyed \<in> poa_life p \<longleftrightarrow> Destroyed \<in> poa_life p'"
    and "\<And>r'. r' \<noteq> r \<Longrightarrow> count P' r' = count P r'"
    and "poa_refs p + count P' r \<le> poa_refs p' + count P r"
  shows "held P' (s\<lparr>poas := (poas s)(r \<mapsto> p')\<rparr>)"
proof -
  let ?s = "s\<lparr>poas := (poas s)(r \<mapsto> p')\<rparr>"
  have sets: "objects_of ?s x = objects_of s x" "children_of ?s x = children_of s x" for x
    using assms(2,3) by (auto simp: objects_of_def children_of_def)
  have in_P: "x \<in># P" if "x \<in># P'" "x \<noteq> r" for x
    using that assms(5) [of x] by (metis count_eq_zero_iff)
  show ?thesis
    unfolding held_def sets
  proof (intro conjI allI impI)
    fix x q assume "poas ?s x = Some q"
    then show "of_bool (Destroyed \<notin> poa_life q) + card (objects_of s x) + card (children_of s x) +
        count P' x \<le> poa_refs q"
      using assms unfolding held_def by (cases "x = r") (fastforce, simp)
  next
    fix x assume "x \<in># P'"
    then show "poas ?s x \<noteq> None"
      using in_P assms(1,2) by (cases "x = r") (auto simp: held_def)
  next
    fix c q x assume "poas ?s c = Some q" "parent_poa q = Some x"
    then have "poas s x \<noteq> None"
      using assms(1-3) unfolding held_def by (cases "c = r") auto
    then show "poas ?s x \<noteq> None" by simp
  qed
qed

lemma dup_poa_sound:
  assumes "sound T P s" "dup_poa r s = Inr s'"
  shows "sound T (add_mset r P) s'"
proof -
  obtain p where p: "poas s r = Some p"
    using assms(2) by (auto simp: dup_poa_def andThen_eq_Inr)
  have s': "s' = s\<lparr>poas := (poas s)(r \<mapsto> p\<lparr>poa_refs := poa_refs p + 1\<rparr>)\<rparr>"
    using assms(2) p by (simp add: dup_poa_def andThen_eq_Inr heap_simps)
  have "held P s" using assms(1) by (simp add: sound_def)
  then have "held (add_mset r P) s'"
    unfolding s' by (rule held_poa_update [OF _ p]) auto
  then show ?thesis unfolding s' by (intro sound_poa_update [OF assms(1) p]) auto
qed

lemma release_manager_only:
  assumes "release_manager m s = Inr s'"
  shows "\<exists>ms. s' = s\<lparr>managers := ms\<rparr> \<and> (\<forall>x. ms x \<noteq> None \<longrightarrow> managers s x \<noteq> None)"
proof -
  obtain g where g: "managers s m = Some g"
    using assms by (auto simp: release_manager_def andThen_eq_Inr)
  have "(\<exists>g'. s' = s\<lparr>managers := (managers s)(m \<mapsto> g')\<rparr>) \<or> s' = s\<lparr>managers := (managers s)(m := None)\<rparr>"
    using assms g
    by (auto simp: release_manager_def andThen_eq_Inr heap_simps ORBit_POAManager_free_fn_def
        Let_def split: if_splits)
  then show ?thesis
  proof (elim disjE exE)
    fix g' assume "s' = s\<lparr>managers := (managers s)(m \<mapsto> g')\<rparr>"
    then show ?thesis using g by (intro exI [of _ "(managers s)(m \<mapsto> g')"]) simp
  next
    assume "s' = s\<lparr>managers := (managers s)(m := None)\<rparr>"
    then show ?thesis by (intro exI [of _ "(managers s)(m := None)"]) simp
  qed
qed

lemma unowned_poa:
  assumes "sound T P s" "poas s r = Some p" "poa_refs p = 0"
  shows "Destroyed \<in> poa_life p" and "pobjs s x = Some q \<Longrightarrow> po_poa q \<noteq> r"
    and "children_of s r = {}" and "r \<notin># P"
proof -
  have le: "of_bool (Destroyed \<notin> poa_life p) + card (objects_of s r) + card (children_of s r) +
      count P r \<le> 0"
    using assms unfolding sound_def held_def by (metis (no_types))
  then show d: "Destroyed \<in> poa_life p" by (auto split: if_splits)
  have fin: "fresh_above s" using assms(1) by (simp add: sound_def)
  show "children_of s r = {}" using le finite_children_of [OF fin, of r] by simp
  have obj: "objects_of s r = {}" using le finite_objects_of [OF fin, of r] by simp
  show "r \<notin># P" using le by (simp add: not_in_iff)
  show "po_poa q \<noteq> r" if q: "pobjs s x = Some q"
  proof
    assume r: "po_poa q = r"
    with obj q have dq: "Destroyed \<in> po_life q" by (auto simp: objects_of_def)
    have m: "mapped s" using assms(1) by (simp add: sound_def)
    obtain oid where "(oid, x) \<in> set (oid_to_obj_map p)"
      using mappedD(1) [OF m q] r assms(2) by (auto simp: in_map_def)
    from mappedD(2) [OF m assms(2) this] q dq have "Deactivating \<in> poa_life p"
      by (simp add: map_entry_def)
    with mappedD(4) [OF m assms(2) d] show False by simp
  qed
qed

lemma free_poa_sound:
  assumes "sound T P s" "poas s r = Some p" "poa_refs p = 0"
  shows "sound T P (s\<lparr>poas := (poas s)(r := None)\<rparr>)"
proof -
  let ?s = "s\<lparr>poas := (poas s)(r := None)\<rparr>"
  note none = unowned_poa [OF assms]
  have m: "mapped s" using assms(1) by (simp add: sound_def)
  have "mapped ?s"
  proof (rule mappedI)
    fix x q assume "pobjs ?s x = Some q"
    then show "in_map ?s x q" using mappedD(1) [OF m] none(2) by (simp add: in_map_def)
  next
    fix r' p oid x assume "poas ?s r' = Some p" "(oid, x) \<in> set (oid_to_obj_map p)"
    then show "map_entry ?s r' p oid x"
      using mappedD(2) [OF m, of r' p oid x] by (cases "r' = r") (simp_all add: map_entry_def)
  qed (use mappedD(3,4) [OF m] in \<open>auto split: if_splits\<close>)
  moreover have "held P ?s"
  proof -
    have sets: "objects_of ?s x = objects_of s x" "x \<noteq> r \<Longrightarrow> children_of ?s x \<subseteq> children_of s x" for x
      by (auto simp: objects_of_def children_of_def split: if_splits)
    have fin: "finite (children_of s x)" for x
      using finite_children_of assms(1) by (simp add: sound_def)
    have h: "held P s" using assms(1) by (simp add: sound_def)
    show ?thesis
      unfolding held_def
    proof (intro conjI allI impI)
      fix x q assume q: "poas ?s x = Some q"
      then have x: "x \<noteq> r" "poas s x = Some q" by (auto split: if_splits)
      have "card (children_of ?s x) \<le> card (children_of s x)"
        using card_mono [OF fin sets(2) [OF x(1)]] .
      moreover have "of_bool (Destroyed \<notin> poa_life q) + card (objects_of s x) +
          card (children_of s x) + count P x \<le> poa_refs q"
        using h x(2) by (auto simp: held_def)
      ultimately show "of_bool (Destroyed \<notin> poa_life q) + card (objects_of ?s x) +
          card (children_of ?s x) + count P x \<le> poa_refs q"
        by (simp add: sets(1))
    next
      fix x assume "x \<in># P"
      then show "poas ?s x \<noteq> None" using h none(4) by (auto simp: held_def)
    next
      fix c q x assume "poas ?s c = Some q" "parent_poa q = Some x"
      then show "poas ?s x \<noteq> None"
        using h none(3) by (auto simp: held_def children_of_def split: if_splits)
    qed
  qed
  moreover have "listed ?s"
  proof -
    have l: "listed s" using assms(1) by (simp add: sound_def)
    have "x \<noteq> r" if "i < length (adaptors s)" "adaptors s ! i = Some x" for i x
      using l that assms(2) none(1) unfolding listed_def by (metis option.inject)
    then show ?thesis using l unfolding listed_def by simp
  qed
  moreover have "displaced ?s" "fresh_above ?s" "counted T ?s" "chained ?s" "used ?s" "referenced ?s"
    using assms(1) by (simp_all add: sound_unfold)
  ultimately show ?thesis by (simp add: sound_def)
qed

lemma release_poa_sound:
  assumes "sound T (add_mset r P) s" "release_poa r s = Inr s'"
  shows "sound T P s'"
proof -
  obtain p n where p: "poas s r = Some p" and n: "poa_refs p = Suc n"
    using assms(2) by (auto simp: release_poa_def andThen_eq_Inr)
  let ?s = "s\<lparr>poas := (poas s)(r \<mapsto> p\<lparr>poa_refs := n\<rparr>)\<rparr>"
  have "held (add_mset r P) s" using assms(1) by (simp add: sound_def)
  then have "held P ?s"
    by (rule held_poa_update [OF _ p]) (use n in auto)
  then have s: "sound T P ?s" by (intro sound_poa_update [OF assms(1) p]) auto
  show ?thesis
  proof (cases n)
    case 0
    then obtain k t where t: "release_manager (poa_manager p) (?s\<lparr>orb_refs := k\<rparr>) = Inr t"
      and s': "s' = t\<lparr>poas := (poas t)(r := None)\<rparr>"
      using assms(2) p n
      by (auto simp: release_poa_def andThen_eq_Inr heap_simps ORBit_POA_free_fn_def Let_def)
    obtain ms where ms: "t = ?s\<lparr>orb_refs := k, managers := ms\<rparr>"
        "\<And>x. ms x \<noteq> None \<Longrightarrow> managers s x \<noteq> None"
      using release_manager_only [OF t] by auto
    have "sound T P t"
      unfolding ms(1) by (rule sound_managers) (use s ms(2) in auto)
    then show ?thesis
      unfolding s' by (rule free_poa_sound) (auto simp: ms(1) 0)
  next
    case (Suc k)
    then have "s' = ?s" using assms(2) p n by (auto simp: release_poa_def andThen_eq_Inr heap_simps Let_def)
    then show ?thesis using s by simp
  qed
qed

section \<open>Objects come and go\<close>

text \<open>
  An object with no reference leaves the map; its reference to its POA becomes
  one the running code holds.
\<close>

lemma drop_object_sound:
  assumes s: "sound T P s" and q: "pobjs s x = Some q" and p: "poas s (po_poa q) = Some p"
    and none: "po_refs q = 0" "Destroyed \<notin> po_life q" "po_object_id q = Some oid"
    and nd: "Deactivating \<notin> poa_life p"
  shows "sound T (add_mset (po_poa q) P)
    (s\<lparr>poas := (poas s)(po_poa q \<mapsto> p\<lparr>oid_to_obj_map := AList.delete oid (oid_to_obj_map p)\<rparr>),
       pobjs := (pobjs s)(x := None)\<rparr>)" (is "sound T ?P ?s")
proof -
  let ?r = "po_poa q" and ?p = "p\<lparr>oid_to_obj_map := AList.delete oid (oid_to_obj_map p)\<rparr>"
  have parts: "counted T s" "mapped s" "chained s" "used s" "referenced s" "held P s" "listed s"
    "displaced s" "fresh_above s" using s by (simp_all add: sound_def)
  have gone: "po_servant q = None" "po_objref q = None" "x \<notin># T"
    using parts(1) q none(1) by (auto simp: counted_def not_in_iff)
  have in_oid: "oid' = oid" if "(oid', x) \<in> set (oid_to_obj_map p)" for oid'
    using mappedD(2) [OF parts(2) p that] q none by (auto simp: map_entry_def)
  have oid_x: "y = x" if "(oid, y) \<in> set (oid_to_obj_map p)" for y
  proof -
    have "(oid, x) \<in> set (oid_to_obj_map p)"
      using mappedD(1) [OF parts(2) q] none p by (auto simp: in_map_def)
    with that mappedD(3) [OF parts(2) p] show ?thesis by (meson eq_key_imp_eq_value)
  qed
  have del: "(i, y) \<in> set (AList.delete oid (oid_to_obj_map p)) \<longleftrightarrow>
      (i, y) \<in> set (oid_to_obj_map p) \<and> y \<noteq> x" for i y
    using in_oid oid_x by (auto simp: AList.delete_eq)
  have "mapped ?s"
  proof (rule mappedI)
    fix y qy assume "pobjs ?s y = Some qy"
    then have y: "pobjs s y = Some qy" "y \<noteq> x" by (auto split: if_splits)
    from mappedD(1) [OF parts(2) y(1)] show "in_map ?s y qy"
      using y(2) p del by (auto simp: in_map_def)
  next
    fix r' p' i y assume r': "poas ?s r' = Some p'" and i: "(i, y) \<in> set (oid_to_obj_map p')"
    show "map_entry ?s r' p' i y"
    proof (cases "r' = ?r")
      case True
      then have "map_entry s r' p i y" "y \<noteq> x" "p' = ?p"
        using r' i p del mappedD(2) [OF parts(2) p] by auto
      then show ?thesis by (auto simp: map_entry_def)
    next
      case False
      then have m: "map_entry s r' p' i y" using r' i mappedD(2) [OF parts(2)] by auto
      then have "y \<noteq> x" using False q by (auto simp: map_entry_def)
      with m show ?thesis by (auto simp: map_entry_def)
    qed
  next
    fix r' p' assume "poas ?s r' = Some p'"
    then show "distinct (map fst (oid_to_obj_map p'))"
      using mappedD(3) [OF parts(2)] p by (auto simp: AList.distinct_delete split: if_splits)
  next
    fix r' p' assume "poas ?s r' = Some p'" "Destroyed \<in> poa_life p'"
    then show "Deactivated \<in> poa_life p' \<and> Deactivating \<notin> poa_life p'"
      using mappedD(4) [OF parts(2)] p by (auto split: if_splits)
  qed
  moreover have "counted T ?s" using parts(1) gone(3) by (auto simp: counted_def)
  moreover have "chained ?s"
  proof -
    have inc: "incarnated ?s sv = incarnated s sv" for sv
      using q gone(1) by (auto simp: incarnated_def)
    have "chain ((pobjs s)(x := None)) l xs = chain (pobjs s) l xs"
      if "set xs = incarnated s sv" for l xs sv
      by (rule chain_cong) (use that q gone(1) in \<open>auto simp: incarnated_def\<close>)
    then show ?thesis using parts(3) by (intro chained_transfer [OF _ inc]) auto
  qed
  moreover have "used ?s" using parts(4) q gone(1) by (auto simp: used_def)
  moreover have "referenced ?s" using parts(5) q gone(2) by (fastforce simp: referenced_def)
  moreover have "listed ?s" "displaced ?s" "fresh_above ?s"
    using parts(7-9) p by (fastforce simp: listed_def, auto simp: displaced_def fresh_above_def)
  moreover have "held ?P ?s"
  proof -
    have o1: "objects_of ?s ?r = objects_of s ?r - {x}" "x \<in> objects_of s ?r"
      using q none(2) by (auto simp: objects_of_def)
    then have c1: "Suc (card (objects_of ?s ?r)) = card (objects_of s ?r)"
      using finite_objects_of [OF parts(9), of ?r] by (metis card_Suc_Diff1)
    have o2: "r' \<noteq> ?r \<Longrightarrow> objects_of ?s r' = objects_of s r'" for r'
      using q by (auto simp: objects_of_def)
    have ch: "children_of ?s r' = children_of s r'" for r'
      using p by (auto simp: children_of_def)
    show ?thesis
      unfolding held_def ch
    proof (intro conjI allI impI)
      fix r' p' assume r': "poas ?s r' = Some p'"
      show "of_bool (Destroyed \<notin> poa_life p') + card (objects_of ?s r') + card (children_of s r') +
        count ?P r' \<le> poa_refs p'"
      proof (cases "r' = ?r")
        case True
        have "of_bool (Destroyed \<notin> poa_life p) + card (objects_of s ?r) + card (children_of s ?r) +
          count P ?r \<le> poa_refs p" using parts(6) p by (auto simp: held_def)
        then show ?thesis using True r' c1 by auto
      next
        case False
        then have "of_bool (Destroyed \<notin> poa_life p') + card (objects_of s r') +
          card (children_of s r') + count P r' \<le> poa_refs p'"
          using parts(6) r' by (auto simp: held_def)
        then show ?thesis using False o2 by auto
      qed
    qed (use parts(6) p in \<open>auto simp: held_def split: if_splits\<close>)
  qed
  ultimately show ?thesis by (simp add: sound_def)
qed

text \<open>An object released while its POA is traversed is only marked.\<close>

lemma mark_object_sound:
  assumes s: "sound T P s" and q: "pobjs s x = Some q" and p: "poas s (po_poa q) = Some p"
    and none: "po_refs q = 0" "Destroyed \<notin> po_life q"
    and deact: "Deactivating \<in> poa_life p"
  shows "sound T (add_mset (po_poa q) P)
    (s\<lparr>pobjs := (pobjs s)(x \<mapsto> q\<lparr>po_life := {Destroyed}, po_object_id := None\<rparr>)\<rparr>)"
    (is "sound T ?P ?s")
proof -
  let ?r = "po_poa q" and ?q = "q\<lparr>po_life := {Destroyed}, po_object_id := None\<rparr>"
  have parts: "counted T s" "mapped s" "chained s" "used s" "referenced s" "held P s" "listed s"
    "displaced s" "fresh_above s" using s by (simp_all add: sound_def)
  have gone: "po_servant q = None" "po_objref q = None" "x \<notin># T"
    using parts(1) q none(1) by (auto simp: counted_def not_in_iff)
  have "mapped ?s"
  proof (rule mappedI)
    fix y qy assume y: "pobjs ?s y = Some qy"
    show "in_map ?s y qy"
    proof (cases "y = x")
      case True
      then show ?thesis using y gone none mappedD(1) [OF parts(2) q] by (auto simp: in_map_def)
    next
      case False
      then show ?thesis using y mappedD(1) [OF parts(2)] by (simp add: in_map_def)
    qed
  next
    fix r' p' i y assume r': "poas ?s r' = Some p'" "(i, y) \<in> set (oid_to_obj_map p')"
    then have "map_entry s r' p' i y" using mappedD(2) [OF parts(2)] by simp
    then show "map_entry ?s r' p' i y"
      using q p deact r' by (auto simp: map_entry_def)
  qed (use mappedD(3,4) [OF parts(2)] in simp_all)
  moreover have "counted T ?s" using parts(1) q none gone by (auto simp: counted_def)
  moreover have "chained ?s"
  proof (rule chained_transfer [OF parts(3)])
    show "chain (pobjs ?s) l xs = chain (pobjs s) l xs" for l xs
      by (rule chain_cong) (use q in auto)
  qed (use q gone(1) in \<open>auto simp: incarnated_def\<close>)
  moreover have "used ?s" using parts(4) q gone(1) by (auto simp: used_def)
  moreover have "referenced ?s" using parts(5) q gone(2) by (fastforce simp: referenced_def)
  moreover have "listed ?s" "displaced ?s" "fresh_above ?s"
    using parts(7-9) q by (simp add: listed_def, auto simp: displaced_def fresh_above_def)
  moreover have "held ?P ?s"
  proof -
    have o1: "objects_of ?s ?r = objects_of s ?r - {x}" "x \<in> objects_of s ?r"
      using q none(2) by (auto simp: objects_of_def)
    then have c1: "Suc (card (objects_of ?s ?r)) = card (objects_of s ?r)"
      using finite_objects_of [OF parts(9), of ?r] by (metis card_Suc_Diff1)
    have o2: "r' \<noteq> ?r \<Longrightarrow> objects_of ?s r' = objects_of s r'" for r'
      using q by (auto simp: objects_of_def)
    have ch: "children_of ?s r' = children_of s r'" for r'
      by (auto simp: children_of_def)
    show ?thesis
      unfolding held_def ch
    proof (intro conjI allI impI)
      fix r' p' assume r': "poas ?s r' = Some p'"
      then have le: "of_bool (Destroyed \<notin> poa_life p') + card (objects_of s r') +
          card (children_of s r') + count P r' \<le> poa_refs p'"
        using parts(6) by (auto simp: held_def)
      show "of_bool (Destroyed \<notin> poa_life p') + card (objects_of ?s r') + card (children_of s r') +
        count ?P r' \<le> poa_refs p'"
        using le c1 o2 by (cases "r' = ?r") auto
    qed (use parts(6) p in \<open>auto simp: held_def\<close>)
  qed
  ultimately show ?thesis by (simp add: sound_def)
qed

lemma living_object:
  assumes "mapped s" "pobjs s x = Some q"
  obtains p where "poas s (po_poa q) = Some p"
    "Destroyed \<in> po_life q \<longrightarrow> Deactivating \<in> poa_life p \<and> po_object_id q = None"
proof -
  obtain p oid where p: "poas s (po_poa q) = Some p" "(oid, x) \<in> set (oid_to_obj_map p)"
      "Destroyed \<in> po_life q \<Longrightarrow> po_object_id q = None"
    using mappedD(1) [OF assms] by (auto simp: in_map_def split: if_splits)
  from mappedD(2) [OF assms(1) p(1,2)] assms(2)
  have "Destroyed \<in> po_life q \<Longrightarrow> Deactivating \<in> poa_life p"
    by (simp add: map_entry_def)
  with p that show thesis by blast
qed

lemma release_pobj_sound:
  assumes "sound (add_mset x T) P s" "release_pobj x s = Inr s'"
  shows "sound T P s'"
proof -
  obtain q n where q: "pobjs s x = Some q" and n: "po_refs q = Suc n"
    using assms(2) by (auto simp: release_pobj_def andThen_eq_Inr)
  let ?q = "q\<lparr>po_refs := n\<rparr>"
  let ?s = "s\<lparr>pobjs := (pobjs s)(x \<mapsto> ?q)\<rparr>"
  have "counted (add_mset x T) s" using assms(1) by (simp add: sound_def)
  then have "counted T ?s" using q n by (auto simp: counted_def)
  then have s: "sound T P ?s" by (intro sound_pobj_update [OF assms(1) q]) auto
  show ?thesis
  proof (cases n)
    case 0
    have m: "mapped ?s" using s by (simp add: sound_def)
    have qx: "pobjs ?s x = Some ?q" by simp
    obtain p where p: "poas ?s (po_poa ?q) = Some p"
      "Destroyed \<in> po_life ?q \<longrightarrow> Deactivating \<in> poa_life p \<and> po_object_id ?q = None"
      using living_object [OF m qx] by blast
    have cb: "ORBit_POAObject_release_cb x ?s = Inr s'"
      using assms(2) q n 0 by (auto simp: release_pobj_def andThen_eq_Inr heap_simps Let_def)
    obtain q' p' oid where cb': "pobjs ?s x = Some q'" "poas ?s (po_poa q') = Some p'"
        "po_object_id q' = Some oid"
        "release_poa (po_poa q')
         (if Deactivating \<notin> poa_life p'
          then (set_poa (po_poa q') (\<lambda>p. p\<lparr>oid_to_obj_map := AList.delete oid (oid_to_obj_map p)\<rparr>) ?s)
                \<lparr>pobjs := (pobjs ?s)(x := None)\<rparr>
          else set_pobj x (\<lambda>q. q\<lparr>po_life := {Destroyed}, po_object_id := None\<rparr>) ?s) = Inr s'"
      using cb
      unfolding ORBit_POAObject_release_cb_def andThen_eq_Inr Let_def deref_Inr nonnull_Inr g_assert_Inr
      by blast
    have [simp]: "q' = ?q" using cb'(1) by simp
    have [simp]: "p' = p" using cb'(2) p(1) by simp
    have oid: "po_object_id q = Some oid" using cb'(3) by simp
    note rel = cb'(4)
    have d: "Destroyed \<notin> po_life ?q" using p(2) oid by auto
    show ?thesis
    proof (cases "Deactivating \<in> poa_life p")
      case True
      have "sound T (add_mset (po_poa ?q) P)
          (?s\<lparr>pobjs := (pobjs ?s)(x \<mapsto> ?q\<lparr>po_life := {Destroyed}, po_object_id := None\<rparr>)\<rparr>)"
        by (rule mark_object_sound [OF s qx p(1) _ d True]) (simp add: 0)
      then show ?thesis using release_poa_sound rel True by (simp add: heap_simps)
    next
      case False
      have "sound T (add_mset (po_poa ?q) P)
          (?s\<lparr>poas := (poas ?s)(po_poa ?q \<mapsto> p\<lparr>oid_to_obj_map := AList.delete oid (oid_to_obj_map p)\<rparr>),
              pobjs := (pobjs ?s)(x := None)\<rparr>)"
        by (rule drop_object_sound [OF s qx p(1) _ d _ False]) (simp_all add: 0 oid)
      then show ?thesis using release_poa_sound rel False p(1) by (simp add: heap_simps)
    qed
  next
    case (Suc k)
    then have "s' = ?s" using assms(2) q n by (auto simp: release_pobj_def andThen_eq_Inr heap_simps Let_def)
    then show ?thesis using s by simp
  qed
qed

end
