(* ===== verification/Poa_Preserve.thy ===== *)
theory Poa_Preserve
imports Poa_Invariant
begin

text \<open>
  Every operation on objects, servants and references keeps the invariant.
\<close>

section \<open>References\<close>

lemma sound_objref_count:
  assumes "sound T P s" "objrefs s b = Some f" "0 < n"
  shows "sound T P (s\<lparr>objrefs := (objrefs s)(b \<mapsto> f\<lparr>ref_refs := n\<rparr>)\<rparr>)" (is "sound T P ?s")
proof -
  have r: "referenced s" "fresh_above s" using assms(1) by (simp_all add: sound_def)
  have "referenced ?s" using r(1) assms(2,3) by (fastforce simp: referenced_def)
  moreover have "fresh_above ?s" using r(2) assms(2) by (auto simp: fresh_above_def)
  ultimately show ?thesis using assms(1)
    by (simp add: sound_def counted_def mapped_def in_map_def map_entry_def chained_def incarnated_def
        used_def held_def objects_of_def children_of_def listed_def displaced_def)
qed

lemma dup_objref_sound:
  assumes "sound T P s" "dup_objref b s = Inr s'"
  shows "sound T P s'"
proof -
  obtain f where f: "objrefs s b = Some f"
    using assms(2) by (auto simp: dup_objref_def andThen_eq_Inr)
  have s': "s' = s\<lparr>objrefs := (objrefs s)(b \<mapsto> f\<lparr>ref_refs := ref_refs f + 1\<rparr>)\<rparr>"
    using assms(2) f by (simp add: dup_objref_def andThen_eq_Inr heap_simps)
  show ?thesis unfolding s' by (rule sound_objref_count [OF assms(1) f]) simp
qed

lemma drop_objref_sound:
  assumes s: "sound T P s" and f: "objrefs s b = Some f" and x: "adaptor_obj f = Some x"
    and q: "pobjs s x = Some q"
  shows "sound (add_mset x T) P
    (s\<lparr>objrefs := (objrefs s)(b := None), pobjs := (pobjs s)(x \<mapsto> q\<lparr>po_objref := None\<rparr>)\<rparr>)"
    (is "sound ?T P ?s")
proof -
  let ?q = "q\<lparr>po_objref := None\<rparr>"
  let ?t = "s\<lparr>pobjs := (pobjs s)(x \<mapsto> ?q)\<rparr>"
  have parts: "counted T s" "mapped s" "chained s" "used s" "referenced s" "held P s" "listed s"
    "displaced s" "fresh_above s" using s by (simp_all add: sound_def)
  have qb: "po_objref q = Some b" using parts(5) f x q unfolding referenced_def by (metis option.inject)
  have d: "Destroyed \<notin> po_life q"
    using mappedD(1) [OF parts(2) q] qb by (auto simp: in_map_def split: if_splits)
  have "mapped ?t" "chained ?t" "used ?t" "held P ?t" "listed ?t" "displaced ?t" "fresh_above ?t"
    using pobj_update [OF q, of ?q] parts d by simp_all
  then have "mapped ?s" "chained ?s" "used ?s" "held P ?s" "listed ?s" "displaced ?s" "fresh_above ?s"
    by (simp_all add: sound_unfold)
  moreover have "counted ?T ?s" using parts(1) q qb by (auto simp: counted_def)
  moreover have "referenced ?s"
    unfolding referenced_def
  proof (intro conjI allI impI)
    fix c g y assume g: "objrefs ?s c = Some g" "adaptor_obj g = Some y"
    then have c: "c \<noteq> b" "objrefs s c = Some g" by (auto split: if_splits)
    then obtain qy where y: "pobjs s y = Some qy" "po_objref qy = Some c"
      using parts(5) g(2) unfolding referenced_def by blast
    then have "y \<noteq> x" using q qb c by auto
    then show "\<exists>q. pobjs ?s y = Some q \<and> po_objref q = Some c" using y by simp
  next
    fix y qy c assume y: "pobjs ?s y = Some qy" "po_objref qy = Some c"
    then have "y \<noteq> x" by auto
    then obtain g where g: "objrefs s c = Some g" "adaptor_obj g = Some y"
      using y parts(5) unfolding referenced_def by force
    then have "c \<noteq> b" using f x \<open>y \<noteq> x\<close> by auto
    then show "\<exists>f. objrefs ?s c = Some f \<and> adaptor_obj f = Some y" using g by simp
  qed (use parts(5) in \<open>auto simp: referenced_def split: if_splits\<close>)
  ultimately show ?thesis by (simp add: sound_def)
qed

lemma sound_objref_gone:
  assumes "sound T P s" "objrefs s b = Some f" "adaptor_obj f = None"
  shows "sound T P (s\<lparr>objrefs := (objrefs s)(b := None)\<rparr>)" (is "sound T P ?s")
proof -
  have r: "referenced s" "fresh_above s" using assms(1) by (simp_all add: sound_def)
  have "referenced ?s" using r(1) assms(2,3) by (fastforce simp: referenced_def)
  moreover have "fresh_above ?s" using r(2) by (auto simp: fresh_above_def)
  ultimately show ?thesis using assms(1)
    by (simp add: sound_def counted_def mapped_def in_map_def map_entry_def chained_def incarnated_def
        used_def held_def objects_of_def children_of_def listed_def displaced_def)
qed

lemma release_objref_sound:
  assumes "sound T P s" "release_objref b s = Inr s'"
  shows "sound T P s'"
proof -
  obtain f n where f: "objrefs s b = Some f" and n: "ref_refs f = Suc n"
    using assms(2) by (auto simp: release_objref_def andThen_eq_Inr)
  let ?f = "f\<lparr>ref_refs := n\<rparr>"
  let ?s = "s\<lparr>objrefs := (objrefs s)(b \<mapsto> ?f)\<rparr>"
  show ?thesis
  proof (cases n)
    case 0
    then have cb: "CORBA_Object_release_cb b ?s = Inr s'"
      using assms(2) f n by (auto simp: release_objref_def andThen_eq_Inr heap_simps Let_def)
    show ?thesis
    proof (cases "adaptor_obj f")
      case None
      then have "s' = s\<lparr>objrefs := (objrefs s)(b := None)\<rparr>"
        using cb by (auto simp: CORBA_Object_release_cb_def andThen_eq_Inr Let_def)
      then show ?thesis using sound_objref_gone [OF assms(1) f None] by simp
    next
      case (Some x)
      obtain q where q: "pobjs s x = Some q"
        using assms(1) f Some unfolding sound_def referenced_def by metis
      have "release_pobj x
          (s\<lparr>objrefs := (objrefs s)(b := None), pobjs := (pobjs s)(x \<mapsto> q\<lparr>po_objref := None\<rparr>)\<rparr>) = Inr s'"
        using cb Some q by (auto simp: CORBA_Object_release_cb_def andThen_eq_Inr Let_def heap_simps)
      then show ?thesis
        using release_pobj_sound drop_objref_sound [OF assms(1) f Some q] by blast
    qed
  next
    case (Suc k)
    then have "s' = ?s"
      using assms(2) f n by (auto simp: release_objref_def andThen_eq_Inr heap_simps Let_def)
    then show ?thesis using sound_objref_count [OF assms(1) f] Suc by simp
  qed
qed

text \<open>A new reference to an object that has none.\<close>

lemma new_objref_sound:
  assumes s: "sound T P s" and q: "pobjs s x = Some q" "po_objref q = None" "Destroyed \<notin> po_life q"
    and b: "b = next_ref s"
  shows "sound T P (s\<lparr>next_ref := b + 1,
    pobjs := (pobjs s)(x \<mapsto> q\<lparr>po_refs := po_refs q + 1, po_objref := Some b\<rparr>),
    objrefs := (objrefs s)(b \<mapsto> \<lparr>ref_refs = 1, type_id = t, adaptor_obj = Some x\<rparr>)\<rparr>)" (is "sound T P ?s")
proof -
  let ?q = "q\<lparr>po_refs := po_refs q + 1, po_objref := Some b\<rparr>"
  let ?t = "s\<lparr>pobjs := (pobjs s)(x \<mapsto> ?q)\<rparr>"
  have parts: "counted T s" "mapped s" "chained s" "used s" "referenced s" "held P s" "listed s"
    "displaced s" "fresh_above s" using s by (simp_all add: sound_def)
  have "mapped ?t" "chained ?t" "used ?t" "held P ?t" "listed ?t" "displaced ?t" "fresh_above ?t"
    using pobj_update [OF q(1), of ?q] parts q(3) by simp_all
  then have "mapped ?s" "chained ?s" "used ?s" "held P ?s" "listed ?s" "displaced ?s" "fresh_above ?s"
    by (simp_all add: sound_unfold b)
  moreover have "counted T ?s" using parts(1) q by (auto simp: counted_def)
  moreover have "referenced ?s"
  proof -
    have nb: "objrefs s b = None" using parts(9) by (simp add: fresh_above_def b)
    have "po_objref qy \<noteq> Some b" if "pobjs s y = Some qy" for y qy
      using parts(5) nb that unfolding referenced_def by force
    moreover have "adaptor_obj f \<noteq> Some x" if "objrefs s c = Some f" for c f
      using parts(5) q(1,2) that unfolding referenced_def by force
    ultimately show ?thesis
      using parts(5) q nb unfolding referenced_def by (auto split: if_splits)
  qed
  ultimately show ?thesis by (simp add: sound_def)
qed

lemma obj_to_ref_sound:
  assumes s: "sound T P s" and run: "ORBit_POA_obj_to_ref h r pobj intf s = Inr (b, s')"
    and d: "\<And>q. pobjs s (the pobj) = Some q \<Longrightarrow> Destroyed \<notin> po_life q"
  shows "sound T P s'"
proof -
  obtain x q t where x: "pobj = Some x" and q: "pobjs s x = Some q" "po_objref q = None"
    and s': "s' = s\<lparr>next_ref := next_ref s + 1,
      pobjs := (pobjs s)(x \<mapsto> q\<lparr>po_refs := po_refs q + 1, po_objref := Some (next_ref s)\<rparr>),
      objrefs := (objrefs s)(next_ref s \<mapsto> \<lparr>ref_refs = 1, type_id = Some t, adaptor_obj = Some x\<rparr>)\<rparr>"
    using run by (auto simp: ORBit_POA_obj_to_ref_def ORBit_objref_new_def dup_pobj_def dup_objref_def
        andThen_eq_Inr heap_simps Let_def)
  show ?thesis
    unfolding s' by (rule new_objref_sound [OF s q _ refl]) (use d x q in simp)
qed

section \<open>New objects\<close>

lemma update_fresh: "k \<notin> fst ` set al \<Longrightarrow> AList.update k v al = al @ [(k, v)]"
  by (induction al) auto

lemma new_object_sound:
  assumes s: "sound T (add_mset r P) s" and p: "poas s r = Some p"
    and new: "oid \<notin> fst ` set (oid_to_obj_map p)" and n: "n = next_ref s"
  shows "sound T P (s\<lparr>next_ref := n + 1,
    pobjs := (pobjs s)(n \<mapsto> (new_pobj r)\<lparr>po_object_id := Some oid\<rparr>),
    poas := (poas s)(r \<mapsto> p\<lparr>oid_to_obj_map := AList.update oid n (oid_to_obj_map p)\<rparr>)\<rparr>)"
    (is "sound T P ?s")
proof -
  let ?q = "(new_pobj r)\<lparr>po_object_id := Some oid\<rparr>"
  let ?p = "p\<lparr>oid_to_obj_map := AList.update oid n (oid_to_obj_map p)\<rparr>"
  have parts: "counted T s" "mapped s" "chained s" "used s" "referenced s" "held (add_mset r P) s"
    "listed s" "displaced s" "fresh_above s" using s by (simp_all add: sound_def)
  have nn: "pobjs s n = None" using parts(9) n by (simp add: fresh_above_def)
  have live: "x \<noteq> n" if "pobjs s x = Some q" for x q using that nn by auto
  have "counted T ?s"
    using parts(1) nn by (auto simp: counted_def new_pobj_def not_in_iff [symmetric])
  moreover have "mapped ?s"
  proof (rule mappedI)
    fix x q assume x: "pobjs ?s x = Some q"
    show "in_map ?s x q"
    proof (cases "x = n")
      case True
      then show ?thesis using x new by (auto simp: in_map_def new_pobj_def update_fresh)
    next
      case False
      then show ?thesis using x p new mappedD(1) [OF parts(2), of x q]
        by (auto simp: in_map_def update_fresh)
    qed
  next
    fix r' p' i x assume r': "poas ?s r' = Some p'" and i: "(i, x) \<in> set (oid_to_obj_map p')"
    have old: "map_entry ?s r' p' i x" if "map_entry s r' p0 i x" "poa_life p' = poa_life p0" for p0
      using that live by (auto simp: map_entry_def)
    show "map_entry ?s r' p' i x"
    proof (cases "r' = r")
      case True
      then consider "i = oid" "x = n" | "(i, x) \<in> set (oid_to_obj_map p)"
        using r' i new by (auto simp: update_fresh)
      then show ?thesis
      proof cases
        case 1
        then show ?thesis using True by (simp add: map_entry_def new_pobj_def)
      next
        case 2
        then have "map_entry s r' p i x" using mappedD(2) [OF parts(2) p] True by simp
        moreover have "poa_life p' = poa_life p" using r' True by auto
        ultimately show ?thesis using old True by blast
      qed
    next
      case False
      then show ?thesis using r' i old [OF mappedD(2) [OF parts(2)]] by simp
    qed
  next
    fix r' p' assume "poas ?s r' = Some p'"
    then show "distinct (map fst (oid_to_obj_map p'))"
      using mappedD(3) [OF parts(2)] p new
      by (cases "r' = r") (auto simp: update_fresh)
  next
    fix r' p' assume "poas ?s r' = Some p'" "Destroyed \<in> poa_life p'"
    then show "Deactivated \<in> poa_life p' \<and> Deactivating \<notin> poa_life p'"
      using mappedD(4) [OF parts(2)] p by (cases "r' = r") auto
  qed
  moreover have "chained ?s"
  proof (rule chained_transfer [OF parts(3)])
    show "incarnated ?s sv = incarnated s sv" for sv
      using nn by (auto simp: incarnated_def new_pobj_def)
    show "chain (pobjs ?s) l xs = chain (pobjs s) l xs" if "set xs = incarnated s sv" for l xs sv
      by (rule chain_cong) (use that live in \<open>auto simp: incarnated_def\<close>)
  qed simp
  moreover have "used ?s"
  proof -
    have "n \<notin> set (current_invocations s)" using parts(4) nn by (auto simp: used_def)
    moreover from this have "count_list (current_invocations s) n = 0" by (simp add: count_list_0_iff)
    ultimately show ?thesis using parts(4) by (auto simp: used_def new_pobj_def)
  qed
  moreover have "referenced ?s"
    using parts(5) live unfolding referenced_def by (auto simp: new_pobj_def) blast
  moreover have "held P ?s"
  proof -
    have o1: "objects_of ?s r = insert n (objects_of s r)" "n \<notin> objects_of s r"
      using nn by (auto simp: objects_of_def new_pobj_def)
    then have c1: "card (objects_of ?s r) = Suc (card (objects_of s r))"
      using finite_objects_of [OF parts(9), of r] by simp
    have o2: "r' \<noteq> r \<Longrightarrow> objects_of ?s r' = objects_of s r'" for r'
      using nn by (auto simp: objects_of_def new_pobj_def)
    have ch: "children_of ?s r' = children_of s r'" for r'
      using p by (auto simp: children_of_def)
    show ?thesis
      unfolding held_def ch
    proof (intro conjI allI impI)
      fix r' p' assume r': "poas ?s r' = Some p'"
      show "of_bool (Destroyed \<notin> poa_life p') + card (objects_of ?s r') + card (children_of s r') +
        count P r' \<le> poa_refs p'"
      proof (cases "r' = r")
        case True
        have "of_bool (Destroyed \<notin> poa_life p) + card (objects_of s r) + card (children_of s r) +
          count (add_mset r P) r \<le> poa_refs p" using parts(6) p unfolding held_def by blast
        then show ?thesis using True r' c1 by auto
      next
        case False
        then have "poas s r' = Some p'" using r' by simp
        then have "of_bool (Destroyed \<notin> poa_life p') + card (objects_of s r') +
          card (children_of s r') + count (add_mset r P) r' \<le> poa_refs p'"
          using parts(6) unfolding held_def by blast
        then show ?thesis using False o2 by auto
      qed
    qed (use parts(6) p in \<open>auto simp: held_def split: if_splits\<close>)
  qed
  moreover have "listed ?s" using parts(7) p by (fastforce simp: listed_def)
  moreover have "displaced ?s" "fresh_above ?s"
    using parts(8,9) p n by (auto simp: displaced_def fresh_above_def)
  ultimately show ?thesis by (simp add: sound_def)
qed

definition new_key :: "hooks \<Rightarrow> nat \<Rightarrow> oid option \<Rightarrow> orb \<Rightarrow> bool" where
  "new_key h r objid s \<longleftrightarrow> (\<forall>p. poas s r = Some p \<longrightarrow>
    (case objid of Some oid \<Rightarrow> oid | None \<Rightarrow> le32 (next_sysid p + 1) @ genuid_object h (next_ref s))
    \<notin> fst ` set (oid_to_obj_map p))"

lemma create_object_T_result:
  assumes "ORBit_POA_create_object_T h r objid s = Inr (n, s')"
  obtains p oid k where "poas s r = Some p" "n = next_ref s"
    "oid = (case objid of Some oid \<Rightarrow> oid | None \<Rightarrow> le32 (next_sysid p + 1) @ genuid_object h (next_ref s))"
    "s' = s\<lparr>next_ref := n + 1,
       pobjs := (pobjs s)(n \<mapsto> (new_pobj r)\<lparr>po_object_id := Some oid\<rparr>),
       poas := (poas s)(r \<mapsto> p\<lparr>poa_refs := poa_refs p + 1, next_sysid := k,
         oid_to_obj_map := AList.update oid n (oid_to_obj_map p)\<rparr>)\<rparr>"
    "IS_SYSTEM_ID p \<or> objid \<noteq> None"
proof -
  obtain p where p: "poas s r = Some p"
    using assms by (auto simp: ORBit_POA_create_object_T_def dup_poa_def andThen_eq_Inr)
  show thesis
  proof (cases "objid = None")
    case True
    then show thesis using assms p
      by (intro that [OF p])
        (auto simp: ORBit_POA_create_object_T_def dup_poa_def andThen_eq_Inr heap_simps
          new_object_id_def ORBit_POA_new_system_objid_T_def Let_def IS_SYSTEM_ID_def split: if_splits)
  next
    case False
    have "p\<lparr>poa_refs := Suc (poa_refs p), oid_to_obj_map := m\<rparr> =
        p\<lparr>poa_refs := Suc (poa_refs p), next_sysid := next_sysid p, oid_to_obj_map := m\<rparr>" for m
      by (cases p) simp
    then show thesis using assms p False
      by (intro that [OF p, of _ "next_sysid p"])
        (auto simp: ORBit_POA_create_object_T_def dup_poa_def andThen_eq_Inr heap_simps
          new_object_id_def Let_def IS_SYSTEM_ID_def split: if_splits)
  qed
qed

lemma sound_next_sysid:
  assumes "sound T P s" "poas s r = Some p"
  shows "sound T P (s\<lparr>poas := (poas s)(r \<mapsto> p\<lparr>next_sysid := k\<rparr>)\<rparr>)"
proof -
  have "held P s" using assms(1) by (simp add: sound_def)
  then have "held P (s\<lparr>poas := (poas s)(r \<mapsto> p\<lparr>next_sysid := k\<rparr>)\<rparr>)"
    by (rule held_poa_update [OF _ assms(2)]) auto
  then show ?thesis by (intro sound_poa_update [OF assms]) auto
qed

lemma create_object_T_sound:
  assumes s: "sound T P s" and run: "ORBit_POA_create_object_T h r objid s = Inr (n, s')"
    and new: "new_key h r objid s"
  shows "sound T P s'" and "\<exists>oid. pobjs s' n = Some ((new_pobj r)\<lparr>po_object_id := Some oid\<rparr>)"
    and "n = next_ref s"
proof -
  obtain p oid k where p: "poas s r = Some p" and n: "n = next_ref s"
    and oid: "oid = (case objid of Some oid \<Rightarrow> oid
                     | None \<Rightarrow> le32 (next_sysid p + 1) @ genuid_object h (next_ref s))"
    and s': "s' = s\<lparr>next_ref := n + 1,
       pobjs := (pobjs s)(n \<mapsto> (new_pobj r)\<lparr>po_object_id := Some oid\<rparr>),
       poas := (poas s)(r \<mapsto> p\<lparr>poa_refs := poa_refs p + 1, next_sysid := k,
         oid_to_obj_map := AList.update oid n (oid_to_obj_map p)\<rparr>)\<rparr>"
    using create_object_T_result [OF run] by metis
  let ?p = "p\<lparr>poa_refs := poa_refs p + 1, next_sysid := k\<rparr>"
  let ?t = "s\<lparr>poas := (poas s)(r \<mapsto> ?p)\<rparr>"
  have "dup_poa r s = Inr (s\<lparr>poas := (poas s)(r \<mapsto> p\<lparr>poa_refs := poa_refs p + 1\<rparr>)\<rparr>)"
    using p by (simp add: dup_poa_def andThen_eq_Inr heap_simps)
  from sound_next_sysid [OF dup_poa_sound [OF s this], of r "p\<lparr>poa_refs := poa_refs p + 1\<rparr>" k]
  have "sound T (add_mset r P) ?t" by simp
  from new_object_sound [OF this, of ?p oid n] show "sound T P s'"
    using new p n oid by (simp add: s' new_key_def)
  show "\<exists>oid. pobjs s' n = Some ((new_pobj r)\<lparr>po_object_id := Some oid\<rparr>)" "n = next_ref s"
    using n by (auto simp: s')
qed

section \<open>Activation\<close>

lemma link_dup_sound:
  assumes s: "sound T P s" and q: "pobjs s x = Some q" "po_servant q = None" "Destroyed \<notin> po_life q"
    and v: "servants s sv = Some v"
  shows "sound T P (s\<lparr>servants := (servants s)(sv \<mapsto> v\<lparr>sv_private := Some x\<rparr>),
    pobjs := (pobjs s)(x \<mapsto> q\<lparr>vepvmap_cache := c, po_servant := Some sv,
      po_next := sv_private v, po_refs := po_refs q + 1\<rparr>)\<rparr>)" (is "sound T P ?s")
proof -
  let ?q = "q\<lparr>vepvmap_cache := c, po_servant := Some sv, po_next := sv_private v, po_refs := po_refs q + 1\<rparr>"
  have parts: "counted T s" "mapped s" "chained s" "used s" "referenced s" "held P s"
    "listed s" "displaced s" "fresh_above s" using s by (simp_all add: sound_def)
  have "mapped ?s"
  proof (rule mappedI)
    fix y qy assume y: "pobjs ?s y = Some qy"
    show "in_map ?s y qy"
      using y q mappedD(1) [OF parts(2), of y "if y = x then q else qy"]
      by (auto simp: in_map_def split: if_splits)
  next
    fix r p i y assume "poas ?s r = Some p" "(i, y) \<in> set (oid_to_obj_map p)"
    then have "map_entry s r p i y" using mappedD(2) [OF parts(2)] by simp
    then show "map_entry ?s r p i y" using q by (auto simp: map_entry_def)
  qed (use mappedD(3,4) [OF parts(2)] in simp_all)
  moreover have "counted T ?s" using parts(1) q by (auto simp: counted_def)
  moreover have "chained ?s"
  proof -
    have x: "x \<notin> incarnated s sv'" for sv' using q by (auto simp: incarnated_def)
    have inc: "incarnated ?s sv' = (if sv' = sv then insert x (incarnated s sv') else incarnated s sv')" for sv'
      using q by (auto simp: incarnated_def)
    have ch: "chain (pobjs ?s) l xs = chain (pobjs s) l xs" if "set xs = incarnated s sv'" for l xs sv'
      by (rule chain_cong) (use that x in auto)
    show ?thesis
      unfolding chained_def
    proof (intro conjI allI impI)
      fix sv' v' assume v': "servants ?s sv' = Some v'"
      show "\<exists>xs. chain (pobjs ?s) (sv_private v') xs \<and> distinct xs \<and> set xs = incarnated ?s sv'"
      proof (cases "sv' = sv")
        case True
        obtain xs where xs: "chain (pobjs s) (sv_private v) xs" "distinct xs" "set xs = incarnated s sv"
          using parts(3) v unfolding chained_def by metis
        have "chain (pobjs ?s) (Some x) (x # xs)" using xs ch by simp
        moreover have "distinct (x # xs)" "set (x # xs) = incarnated ?s sv"
          using xs x inc by auto
        ultimately show ?thesis using v' True by (intro exI [of _ "x # xs"]) auto
      next
        case False
        then have "servants s sv' = Some v'" using v' by simp
        then obtain xs where xs: "chain (pobjs s) (sv_private v') xs" "distinct xs"
            "set xs = incarnated s sv'"
          using parts(3) unfolding chained_def by metis
        then show ?thesis using ch inc False by (intro exI [of _ xs]) simp
      qed
    next
      fix y qy sv' assume "pobjs ?s y = Some qy" "po_servant qy = Some sv'"
      then show "servants ?s sv' \<noteq> None"
        using parts(3) q unfolding chained_def by (cases "y = x") (auto split: if_splits)
    qed
  qed
  moreover have "used ?s" using parts(4) q by (auto simp: used_def)
  moreover have "referenced ?s" using parts(5) q by (fastforce simp: referenced_def)
  moreover have "held P ?s"
  proof -
    have "objects_of ?s r = objects_of s r" "children_of ?s r = children_of s r" for r
      using q by (auto simp: objects_of_def children_of_def)
    then show ?thesis using parts(6) by (simp add: held_def)
  qed
  moreover have "listed ?s" "fresh_above ?s"
    using parts(7,9) q by (auto simp: listed_def fresh_above_def)
  moreover have "displaced ?s" using parts(8) v by (fastforce simp: displaced_def)
  ultimately show ?thesis by (simp add: sound_def)
qed

lemma activate_object_T_result:
  assumes "ORBit_POA_activate_object_T r x servant s = Inr s'"
  obtains q sv v where "servant = Some sv" "pobjs s x = Some q" "servants s sv = Some v"
    "po_servant q = None" "po_use_cnt q = 0" "vepv_shift v = 0"
    "s' = s\<lparr>servants := (servants s)(sv \<mapsto> v\<lparr>sv_private := Some x\<rparr>),
       pobjs := (pobjs s)(x \<mapsto> q\<lparr>vepvmap_cache := Some (sv_class v),
         po_servant := Some sv, po_next := sv_private v, po_refs := po_refs q + 1\<rparr>)\<rparr>"
proof -
  obtain q sv v where q: "pobjs s x = Some q" "servants s sv = Some v" "servant = Some sv"
    "po_servant q = None" "po_use_cnt q = 0" "vepv_shift v = 0"
    using assms by (auto simp: ORBit_POA_activate_object_T_def vepv_of_def andThen_eq_Inr)
  show thesis
    by (rule that [OF q(3,1,2,4,5,6)])
      (use assms q in \<open>auto simp: ORBit_POA_activate_object_T_def vepv_of_def andThen_eq_Inr
        heap_simps link_servant_def dup_pobj_def\<close>)
qed

lemma activate_object_T_sound:
  assumes "sound T P s" "ORBit_POA_activate_object_T r x servant s = Inr s'"
    and "\<And>q. pobjs s x = Some q \<Longrightarrow> Destroyed \<notin> po_life q"
  shows "sound T P s'"
  using activate_object_T_result [OF assms(2)] link_dup_sound [OF assms(1) _ _ assms(3)] by metis

section \<open>Deactivation\<close>

lemma chain_before_simps:
  "chain_before s x None = Some (Inl Fails)"
  "chain_before s x (Some a) = (case pobjs s a of
       None \<Rightarrow> Some (Inl Fails)
     | Some q \<Rightarrow> if po_next q = Some x then Some (Inr a) else chain_before s x (po_next q))"
  by (subst chain_before.simps, simp)+

lemma chain_before_found:
  assumes "chain (pobjs s) l (ys @ a # x # zs)" "distinct (ys @ a # x # zs)"
  shows "chain_before s x l = Some (Inr a)"
  using assms
proof (induction ys arbitrary: l)
  case Nil
  then show ?case by (auto simp: chain_before_simps)
next
  case (Cons y ys)
  then obtain q where q: "l = Some y" "pobjs s y = Some q" "chain (pobjs s) (po_next q) (ys @ a # x # zs)"
    by auto
  have "po_next q \<noteq> Some x"
    using q(3) Cons.prems(2) by (cases ys) auto
  then show ?case using q Cons by (simp add: chain_before_simps)
qed

text \<open>What taking an object out of the chain of its servant leaves.\<close>

lemma unchained_sound:
  assumes s: "sound T P s" and q: "pobjs s x = Some q" "po_servant q = Some sv"
    and idle: "x \<notin> set (current_invocations s)"
    and v: "servants s sv = Some v" and xs: "chain (pobjs s) (sv_private v) xs" "distinct xs"
      "set xs = incarnated s sv"
    and ps: "ps x = Some (q\<lparr>po_life := fl, po_servant := None, po_next := None\<rparr>)"
      "\<And>y. y \<noteq> x \<Longrightarrow> ps y = pobjs s y \<or> (\<exists>qy n. pobjs s y = Some qy \<and>
         ps y = Some (qy\<lparr>po_next := n\<rparr>) \<and> y \<in> set xs)"
    and ss: "ss sv = Some (v\<lparr>sv_private := l\<rparr>)" "\<And>w. w \<noteq> sv \<Longrightarrow> ss w = servants s w"
    and ch: "chain ps l (remove1 x xs)" and fl: "Destroyed \<notin> fl"
  shows "sound (add_mset x T) P (s\<lparr>servants := ss, pobjs := ps\<rparr>)" (is "sound ?T P ?s")
proof -
  have parts: "counted T s" "mapped s" "chained s" "used s" "referenced s" "held P s"
    "listed s" "displaced s" "fresh_above s" using s by (simp_all add: sound_def)
  have dq: "Destroyed \<notin> po_life q"
    using mappedD(1) [OF parts(2) q(1)] q(2) by (auto simp: in_map_def split: if_splits)
  have old: "\<exists>qy. pobjs s y = Some qy \<and> po_refs q' = po_refs qy \<and> po_objref q' = po_objref qy \<and>
      po_poa q' = po_poa qy \<and> po_object_id q' = po_object_id qy \<and> po_use_cnt q' = po_use_cnt qy \<and>
      (y \<noteq> x \<longrightarrow> po_servant q' = po_servant qy \<and> po_life q' = po_life qy)" if "ps y = Some q'" for y q'
  proof (cases "y = x")
    case False
    from ps(2) [OF this] that show ?thesis by (elim disjE exE conjE) auto
  qed (use ps(1) q(1) that in auto)
  have young: "\<exists>q'. ps y = Some q' \<and> po_refs q' = po_refs qy \<and> po_objref q' = po_objref qy \<and>
      po_poa q' = po_poa qy \<and> po_object_id q' = po_object_id qy \<and> po_use_cnt q' = po_use_cnt qy \<and>
      (Destroyed \<in> po_life q' \<longleftrightarrow> Destroyed \<in> po_life qy) \<and>
      (y \<noteq> x \<longrightarrow> po_servant q' = po_servant qy \<and> po_life q' = po_life qy)" if "pobjs s y = Some qy" for y qy
  proof (cases "y = x")
    case False
    from ps(2) [OF this] that show ?thesis by (elim disjE exE conjE) auto
  qed (use ps(1) q(1) that dq fl in auto)
  have live: "ps y = None \<longleftrightarrow> pobjs s y = None" for y
    using old young by (metis not_None_eq)
  have "counted ?T ?s"
    unfolding counted_def
  proof (intro conjI allI impI)
    fix y q' assume y: "pobjs ?s y = Some q'"
    then obtain qy where qy: "pobjs s y = Some qy" "po_refs q' = po_refs qy" "po_objref q' = po_objref qy"
        "y \<noteq> x \<longrightarrow> po_servant q' = po_servant qy"
      using old [of y q'] by auto
    have "po_refs qy = of_bool (po_servant qy \<noteq> None) + of_bool (po_objref qy \<noteq> None) + count T y"
      using parts(1) qy(1) by (simp add: counted_def)
    then show "po_refs q' = of_bool (po_servant q' \<noteq> None) + of_bool (po_objref q' \<noteq> None) + count ?T y"
      using qy y q ps(1) by (cases "y = x") auto
  next
    fix y assume "y \<in># ?T"
    then show "pobjs ?s y \<noteq> None" using parts(1) live q by (auto simp: counted_def)
  qed
  moreover have "mapped ?s"
  proof (rule mappedI)
    fix y q' assume y: "pobjs ?s y = Some q'"
    then obtain qy where qy: "pobjs s y = Some qy" "po_poa q' = po_poa qy" "po_object_id q' = po_object_id qy"
        "po_objref q' = po_objref qy" "y \<noteq> x \<longrightarrow> po_servant q' = po_servant qy \<and> po_life q' = po_life qy"
      using old [of y q'] by auto
    from mappedD(1) [OF parts(2) qy(1)] show "in_map ?s y q'"
      using qy y q(1) ps(1) dq fl by (cases "y = x") (auto simp: in_map_def)
  next
    fix r p i y assume "poas ?s r = Some p" "(i, y) \<in> set (oid_to_obj_map p)"
    then have "map_entry s r p i y" using mappedD(2) [OF parts(2)] by simp
    then obtain qy where "pobjs s y = Some qy" "po_poa qy = r"
        "if Destroyed \<in> po_life qy then Deactivating \<in> poa_life p else po_object_id qy = Some i"
      by (auto simp: map_entry_def)
    then show "map_entry ?s r p i y"
      using young [of y qy] unfolding map_entry_def by fastforce
  qed (use mappedD(3,4) [OF parts(2)] in simp_all)
  moreover have "chained ?s"
  proof -
    have inc: "incarnated ?s w = incarnated s w - {x}" for w
      using old young ps(1) unfolding incarnated_def by fastforce
    show ?thesis
      unfolding chained_def
    proof (intro conjI allI impI)
      fix w v' assume v': "servants ?s w = Some v'"
      show "\<exists>xs. chain (pobjs ?s) (sv_private v') xs \<and> distinct xs \<and> set xs = incarnated ?s w"
      proof (cases "w = sv")
        case True
        then show ?thesis using ch xs v' ss(1) inc
          by (intro exI [of _ "remove1 x xs"]) auto
      next
        case False
        then have "servants s w = Some v'" using v' ss(2) by simp
        then obtain zs where zs: "chain (pobjs s) (sv_private v') zs" "distinct zs"
            "set zs = incarnated s w"
          using parts(3) unfolding chained_def by metis
        have "ps y = pobjs s y" if "y \<in> set zs" for y
          using that zs(3) False q xs(3) ps(2) [of y] by (cases "y = x") (auto simp: incarnated_def)
        then have "chain ps (sv_private v') zs"
          using zs(1) chain_cong [of zs ps "pobjs s"] by simp
        moreover have "x \<notin> incarnated s w" using q False by (auto simp: incarnated_def)
        ultimately show ?thesis using zs(2,3) inc by (intro exI [of _ zs]) auto
      qed
    next
      fix y q' w assume y: "pobjs ?s y = Some q'" "po_servant q' = Some w"
      then have "y \<noteq> x" using ps(1) by auto
      then obtain qy where "pobjs s y = Some qy" "po_servant qy = Some w" using old [of y q'] y by auto
      then have "servants s w \<noteq> None" using parts(3) unfolding chained_def by metis
      then show "servants ?s w \<noteq> None" using ss by (cases "w = sv") auto
    qed
  qed
  moreover have "used ?s"
    unfolding used_def
  proof (intro conjI allI impI ballI)
    fix y q' assume "pobjs ?s y = Some q'"
    then obtain qy where "pobjs s y = Some qy" "po_use_cnt q' = po_use_cnt qy" using old [of y q'] by auto
    then show "po_use_cnt q' = of_nat (count_list (current_invocations ?s) y)"
      using parts(4) by (simp add: used_def)
  next
    fix y assume y: "y \<in> set (current_invocations ?s)"
    then obtain qy where "pobjs s y = Some qy" "po_servant qy \<noteq> None"
      using parts(4) by (auto simp: used_def)
    moreover have "y \<noteq> x" using idle y by auto
    ultimately show "\<exists>q. pobjs ?s y = Some q \<and> po_servant q \<noteq> None" using young by force
  qed (use parts(4) in \<open>simp add: used_def\<close>)
  moreover have "referenced ?s"
    using parts(5) old young unfolding referenced_def by simp metis
  moreover have "held P ?s"
  proof -
    have "objects_of ?s r = objects_of s r" for r
      unfolding objects_of_def
    proof (intro Collect_cong iffI)
      fix y assume "\<exists>q. pobjs ?s y = Some q \<and> po_poa q = r \<and> Destroyed \<notin> po_life q"
      then obtain q' where "ps y = Some q'" "po_poa q' = r" "Destroyed \<notin> po_life q'" by auto
      then show "\<exists>q. pobjs s y = Some q \<and> po_poa q = r \<and> Destroyed \<notin> po_life q"
        using old [of y q'] dq q(1) by (cases "y = x") auto
    next
      fix y assume "\<exists>q. pobjs s y = Some q \<and> po_poa q = r \<and> Destroyed \<notin> po_life q"
      then show "\<exists>q. pobjs ?s y = Some q \<and> po_poa q = r \<and> Destroyed \<notin> po_life q"
        using young by force
    qed
    moreover have "children_of ?s r = children_of s r" for r by (auto simp: children_of_def)
    ultimately show ?thesis using parts(6) by (simp add: held_def)
  qed
  moreover have "listed ?s" using parts(7) by (simp add: listed_def)
  moreover have "fresh_above ?s" using parts(9) live by (auto simp: fresh_above_def)
  moreover have "displaced ?s"
  proof -
    have "\<exists>v'. ss w = Some v' \<and> 0 < vepv_shift v'" if "servants s w = Some u" "0 < vepv_shift u" for w u
      using that ss v by (cases "w = sv") auto
    then show ?thesis using parts(8) unfolding displaced_def by simp metis
  qed
  ultimately show ?thesis by (simp add: sound_def)
qed

lemma unlink_sound:
  assumes s: "sound T P s" and q: "pobjs s x = Some q" "po_servant q = Some sv"
    and idle: "x \<notin> set (current_invocations s)" and fl: "Destroyed \<notin> fl"
    and run: "unlink_servant x sv (set_pobj x (\<lambda>q. q\<lparr>po_life := fl, po_servant := None\<rparr>) s) = Inr t"
  shows "sound (add_mset x T) P t"
    and "\<exists>ss ps. t = s\<lparr>servants := ss, pobjs := ps\<rparr>"
    and "pobjs t x = Some (q\<lparr>po_life := fl, po_servant := None, po_next := None\<rparr>)"
proof -
  let ?q = "q\<lparr>po_life := fl, po_servant := None\<rparr>"
  let ?s = "s\<lparr>pobjs := (pobjs s)(x \<mapsto> ?q)\<rparr>"
  have s0: "set_pobj x (\<lambda>q. q\<lparr>po_life := fl, po_servant := None\<rparr>) s = ?s"
    using q by (simp add: heap_simps)
  obtain v where v: "servants s sv = Some v"
    using run by (auto simp: unlink_servant_def andThen_eq_Inr set_pobj_def)
  have c: "chained s" using s by (simp add: sound_def)
  then obtain xs where xs: "chain (pobjs s) (sv_private v) xs" "distinct xs" "set xs = incarnated s sv"
    using v unfolding chained_def by metis
  have x: "x \<in> set xs" using xs(3) q by (auto simp: incarnated_def)
  have ps_chain: "chain ps l zs = chain (pobjs s) l zs"
    if "\<And>y. y \<in> set zs \<Longrightarrow> map_option po_next (ps y) = map_option po_next (pobjs s y)" for ps l zs
    by (rule chain_cong) (use that in auto)
  have "sound (add_mset x T) P t \<and> (\<exists>ss ps. t = s\<lparr>servants := ss, pobjs := ps\<rparr>) \<and>
      pobjs t x = Some (?q\<lparr>po_next := None\<rparr>)"
  proof (cases "sv_private v = Some x")
    case True
    then obtain zs where zs: "xs = x # zs" "chain (pobjs s) (po_next q) zs"
      using xs(1) x q(1) by (cases xs) auto
    let ?ss = "(servants s)(sv \<mapsto> v\<lparr>sv_private := po_next q\<rparr>)"
    let ?ps = "(pobjs s)(x \<mapsto> ?q\<lparr>po_next := None\<rparr>)"
    have t: "t = s\<lparr>servants := ?ss, pobjs := ?ps\<rparr>"
      using run True v q unfolding s0 by (auto simp: unlink_servant_def andThen_eq_Inr heap_simps)
    have "chain ?ps (po_next q) (remove1 x xs)"
      using zs xs(2) by (subst ps_chain) auto
    then have "sound (add_mset x T) P t"
      unfolding t by (intro unchained_sound [OF s q idle v xs]) (use fl in auto)
    then show ?thesis using t by auto
  next
    case False
    obtain ys zs where ys: "xs = ys @ x # zs" using split_list [OF x] by blast
    have "ys \<noteq> []" using False xs(1) ys by auto
    then obtain us a where us: "ys = us @ [a]" by (cases ys rule: rev_cases) auto
    have split: "xs = us @ a # x # zs" using ys us by simp
    have a: "a \<noteq> x" "a \<in> set xs" using xs(2) split by auto
    obtain qa where qa: "pobjs s a = Some qa" using a(2) xs(3) by (auto simp: incarnated_def)
    have "chain (pobjs ?s) (sv_private v) (us @ a # x # zs)"
      using xs(1) split q by (subst ps_chain) auto
    then have "chain_before ?s x (sv_private v) = Some (Inr a)"
      using xs(2) split by (intro chain_before_found) auto
    then have found: "chain_search ?s x (sv_private v) = Inr a" by (simp add: chain_search_def)
    let ?ps = "(pobjs s)(a \<mapsto> qa\<lparr>po_next := po_next q\<rparr>, x \<mapsto> ?q\<lparr>po_next := None\<rparr>)"
    have upd: "(servants s)(sv \<mapsto> v) = servants s" using v by auto
    have t: "t = s\<lparr>pobjs := ?ps\<rparr>"
      using run False v q qa a found unfolding s0
      by (auto simp: unlink_servant_def andThen_eq_Inr heap_simps fun_upd_twist)
    have t2: "t = s\<lparr>servants := servants s, pobjs := ?ps\<rparr>" by (simp add: t)
    have "chain ?ps l (us @ a # zs)" if "chain (pobjs s) l (us @ a # x # zs)" "distinct (us @ a # x # zs)" for l
      using that
    proof (induction us arbitrary: l)
      case Nil
      then have "chain (pobjs s) (po_next q) zs" "x \<notin> set zs" "a \<notin> set zs" using q by auto
      then have "chain ?ps (po_next q) zs" by (subst ps_chain) auto
      moreover have "?ps a = Some (qa\<lparr>po_next := po_next q\<rparr>)" using a by simp
      ultimately show ?case using Nil by (simp del: fun_upd_apply)
    next
      case (Cons u us)
      then have "u \<noteq> a" "u \<noteq> x" by auto
      then show ?case using Cons by auto
    qed
    then have "chain ?ps (sv_private v) (remove1 x xs)"
      using xs(1,2) split by (simp add: remove1_append)
    then have "sound (add_mset x T) P t"
      unfolding t2
      by (intro unchained_sound [OF s q idle v xs])
        (use fl a qa v in \<open>auto intro: exI [of _ "qa\<lparr>po_next := po_next q\<rparr>"]\<close>)
    moreover have "\<exists>ss ps. t = s\<lparr>servants := ss, pobjs := ps\<rparr>" using t2 by blast
    ultimately show ?thesis by (simp add: t)
  qed
  then show "sound (add_mset x T) P t" "\<exists>ss ps. t = s\<lparr>servants := ss, pobjs := ps\<rparr>"
    "pobjs t x = Some (q\<lparr>po_life := fl, po_servant := None, po_next := None\<rparr>)" by auto
qed

text \<open>The application code called in between is only seen in the log and the locks.\<close>

definition aside :: "orb \<Rightarrow> orb \<Rightarrow> bool" where
  "aside s t \<longleftrightarrow> (\<exists>l e. t = s\<lparr>locked := l, events := e\<rparr>)"

lemma asideI: "t = s\<lparr>locked := l, events := e\<rparr> \<Longrightarrow> aside s t"
  by (auto simp: aside_def)

lemma aside_refl [simp]: "aside s s"
  by (rule asideI [where l = "locked s" and e = "events s"]) simp

lemma aside_locked [simp]: "aside s (s\<lparr>locked := l\<rparr>)"
  by (rule asideI [where l = l and e = "events s"]) simp

lemma aside_log [simp]: "aside s (log_event ev s)"
  by (rule asideI [where l = "locked s" and e = "events s @ [ev]"]) (simp add: log_event_def)

lemma aside_trans: "aside s t \<Longrightarrow> aside t u \<Longrightarrow> aside s u"
  by (auto simp: aside_def) (rule exI, rule exI, rule refl)

lemma aside_stores: "aside s t \<Longrightarrow> poas t = poas s \<and> pobjs t = pobjs s \<and> managers t = managers s \<and>
    objrefs t = objrefs s \<and> servants t = servants s \<and> buffers t = buffers s \<and>
    current_invocations t = current_invocations s \<and> thread_safe t = thread_safe s \<and>
    adaptors t = adaptors s \<and> next_ref t = next_ref s"
  by (auto simp: aside_def)

lemma aside_sound: "aside s t \<Longrightarrow> sound T P t = sound T P s"
  by (auto simp: aside_def)

lemma POA_LOCK_aside: "POA_LOCK r s = Inr t \<Longrightarrow> aside s t"
  by (auto simp: POA_LOCK_def mutex_lock_def andThen_eq_Inr split: if_splits)

lemma POA_UNLOCK_aside: "POA_UNLOCK r s = Inr t \<Longrightarrow> aside s t"
  by (auto simp: POA_UNLOCK_def mutex_unlock_def andThen_eq_Inr split: if_splits)

lemma call_etherealize_aside: "call_etherealize h r x sv s = Inr (b, t) \<Longrightarrow> aside s t"
  by (auto simp: call_etherealize_def andThen_eq_Inr split: if_splits)

lemma call_finalize_aside: "call_finalize h r sv s = Inr (b, t) \<Longrightarrow> aside s t"
  by (auto simp: call_finalize_def andThen_eq_Inr split: option.splits
      dest!: POA_LOCK_aside POA_UNLOCK_aside)
    (meson aside_log aside_trans)

lemma etherealize_object_aside:
  assumes "etherealize_object h r x sv s = Inr t" "pobjs s x = Some q"
  shows "aside s t"
proof -
  let ?s = "s\<lparr>pobjs := (pobjs s)(x \<mapsto> q\<lparr>po_use_cnt := po_use_cnt q + 1\<rparr>)\<rparr>"
  obtain b1 s1 b2 s2 where 1: "call_etherealize h r x sv ?s = Inr (b1, s1)"
    and 2: "call_finalize h r sv s1 = Inr (b2, s2)"
    and t: "t = set_pobj x (\<lambda>q. q\<lparr>po_use_cnt := po_use_cnt q - 1\<rparr>) s2"
    using assms by (auto simp: etherealize_object_def andThen_eq_Inr heap_simps)
  have 3: "aside ?s s2"
    using call_etherealize_aside [OF 1] call_finalize_aside [OF 2] by (rule aside_trans)
  then have "pobjs s2 x = Some (q\<lparr>po_use_cnt := po_use_cnt q + 1\<rparr>)"
    using aside_stores [OF 3] by simp
  then have "t = s2\<lparr>pobjs := pobjs s\<rparr>"
    using t aside_stores [OF 3] assms(2) by (auto simp: heap_simps fun_upd_idem)
  moreover obtain l e where "s2 = ?s\<lparr>locked := l, events := e\<rparr>" using 3 by (auto simp: aside_def)
  ultimately have "t = s\<lparr>locked := l, events := e\<rparr>" by (cases s) simp
  then show ?thesis by (rule asideI)
qed

lemma sound_pobj_life:
  assumes "sound T P s" "pobjs s x = Some q" "Destroyed \<in> fl \<longleftrightarrow> Destroyed \<in> po_life q"
  shows "sound T P (s\<lparr>pobjs := (pobjs s)(x \<mapsto> q\<lparr>po_life := fl\<rparr>)\<rparr>)"
proof -
  have "counted T s" using assms(1) by (simp add: sound_def)
  then have "counted T (s\<lparr>pobjs := (pobjs s)(x \<mapsto> q\<lparr>po_life := fl\<rparr>)\<rparr>)"
    using assms(2) by (auto simp: counted_def)
  then show ?thesis by (intro sound_pobj_update [OF assms(1,2)]) (use assms(3) in auto)
qed

lemma active_not_destroyed:
  assumes "sound T P s" "pobjs s x = Some q" "po_servant q = Some sv"
  shows "Destroyed \<notin> po_life q"
  using mappedD(1) [of s x q] assms by (auto simp: sound_def in_map_def split: if_splits)

lemma unused_idle:
  assumes "sound T P s" "pobjs s x = Some q" "po_use_cnt q = 0"
  shows "x \<notin> set (current_invocations s)"
proof -
  have u: "of_nat (count_list (current_invocations s) x) = (0 :: u16)"
    and l: "length (current_invocations s) < 2 ^ 16"
    using assms by (auto simp: sound_def used_def)
  have "count_list (current_invocations s) x < 2 ^ 16"
    using count_le_length [of "current_invocations s" x] l by linarith
  then have "count_list (current_invocations s) x = 0"
    using u by (auto simp: word_of_nat_eq_0_iff dest: dvd_imp_le)
  then show ?thesis by (simp add: count_list_0_iff)
qed

lemma deactivate_object_T_sound:
  assumes s: "sound T P s" and run: "ORBit_POA_deactivate_object_T h r x e c s = Inr t"
  shows "sound T P t"
proof -
  obtain q where q: "pobjs s x = Some q"
    using run by (auto simp: ORBit_POA_deactivate_object_T_def andThen_eq_Inr)
  show ?thesis
  proof (cases "po_servant q")
    case None
    then show ?thesis using run q s by (simp add: ORBit_POA_deactivate_object_T_def andThen_eq_Inr)
  next
    case (Some sv)
    define fl where "fl = (if c then insert IsCleanup
        (if e \<and> DeactivateDo \<notin> po_life q then insert DoEtherealize (po_life q) else po_life q)
      else (if e \<and> DeactivateDo \<notin> po_life q then insert DoEtherealize (po_life q) else po_life q))"
    have d: "Destroyed \<notin> fl" using active_not_destroyed [OF s q Some] by (simp add: fl_def)
    show ?thesis
    proof (cases "po_use_cnt q > 0")
      case True
      then have "t = s\<lparr>pobjs := (pobjs s)(x \<mapsto> q\<lparr>po_life := insert NeedPostInvoke (insert DeactivateDo fl)\<rparr>)\<rparr>"
        using run q Some
        by (simp add: ORBit_POA_deactivate_object_T_def andThen_eq_Inr heap_simps Let_def fl_def)
      then show ?thesis
        using sound_pobj_life [OF s q] d active_not_destroyed [OF s q Some] by simp
    next
      case False
      then have zero: "po_use_cnt q = 0" by (simp add: word_gt_0)
      note idle = unused_idle [OF s q zero]
      obtain s1 s2 where 1: "unlink_servant x sv (set_pobj x (\<lambda>q. q\<lparr>po_life := fl, po_servant := None\<rparr>) s) = Inr s1"
        and 2: "(if DoEtherealize \<in> fl then etherealize_object h r x sv s1 else Inr s1) = Inr s2"
        and 3: "release_pobj x
           (set_pobj x (\<lambda>q. q\<lparr>po_life := po_life q - {DeactivateDo, IsCleanup, DoEtherealize}\<rparr>) s2) = Inr t"
        using run q Some zero
        by (auto simp: ORBit_POA_deactivate_object_T_def andThen_eq_Inr Let_def fl_def)
      note u = unlink_sound [OF s q Some idle d 1]
      have a: "aside s1 s2"
        using 2 etherealize_object_aside u(3) by (auto split: if_splits)
      have s2: "sound (add_mset x T) P s2" using u(1) aside_sound [OF a] by simp
      have x2: "pobjs s2 x = Some (q\<lparr>po_life := fl, po_servant := None, po_next := None\<rparr>)"
        using u(3) aside_stores [OF a] by simp
      have "sound (add_mset x T) P
          (set_pobj x (\<lambda>q. q\<lparr>po_life := po_life q - {DeactivateDo, IsCleanup, DoEtherealize}\<rparr>) s2)"
        using sound_pobj_life [OF s2 x2, of "fl - {DeactivateDo, IsCleanup, DoEtherealize}"] x2 d
        by (simp add: heap_simps)
      then show ?thesis using 3 release_pobj_sound by blast
    qed
  qed
qed

end
