(* ===== verification/Poa_Calls.thy ===== *)
theory Poa_Calls
imports Poa_Preserve
begin

text \<open>
  The invariant through requests and through the operations of the POA
  interface that concern objects.
\<close>

section \<open>Between operations\<close>

text \<open>
  No POA is being traversed, and a held request is a message buffer that has
  been freed.
\<close>

definition quiet :: "orb \<Rightarrow> bool" where
  "quiet s \<longleftrightarrow> (\<forall>r p. poas s r = Some p \<longrightarrow> Deactivating \<notin> poa_life p)"

definition keeps_poas :: "orb \<Rightarrow> orb \<Rightarrow> bool" where
  "keeps_poas s t \<longleftrightarrow> (\<forall>r p'. poas t r = Some p' \<longrightarrow> (\<exists>p. poas s r = Some p \<and>
     poa_life p' = poa_life p \<and> poa_policies p' = poa_policies p \<and>
     held_requests p' = held_requests p)) \<and>
     current_invocations t = current_invocations s \<and> pushed t = pushed s \<and>
     buffers t = buffers s \<and> next_ref s \<le> next_ref t"

lemma keeps_poas_refl [simp]: "keeps_poas s s"
  by (simp add: keeps_poas_def)

lemma keeps_poas_trans:
  assumes "keeps_poas s t" "keeps_poas t u"
  shows "keeps_poas s u"
proof -
  have "\<exists>p. poas s r = Some p \<and> poa_life p' = poa_life p \<and> poa_policies p' = poa_policies p \<and>
      held_requests p' = held_requests p" if "poas u r = Some p'" for r p'
    using assms that unfolding keeps_poas_def by (metis (no_types, lifting))
  then show ?thesis using assms by (simp add: keeps_poas_def)
qed

lemma keeps_quiet: "keeps_poas s t \<Longrightarrow> quiet s \<Longrightarrow> quiet t"
  unfolding keeps_poas_def quiet_def by metis

lemma aside_keeps: "aside s t \<Longrightarrow> keeps_poas s t"
  by (auto simp: aside_def keeps_poas_def)

lemma release_manager_keeps: "release_manager m s = Inr t \<Longrightarrow> keeps_poas s t"
  using release_manager_only by (fastforce simp: keeps_poas_def)

lemma release_poa_keeps: "release_poa r s = Inr t \<Longrightarrow> keeps_poas s t"
  by (auto simp: release_poa_def ORBit_POA_free_fn_def andThen_eq_Inr Let_def heap_simps
      keeps_poas_def dest!: release_manager_only split: if_splits)

lemmas run_simps = andThen_eq_Inr Let_def heap_simps

lemma keeps_from:
  "keeps_poas u t \<Longrightarrow> keeps_poas s u \<Longrightarrow> keeps_poas s t"
  by (rule keeps_poas_trans)

lemma release_pobj_keeps: "release_pobj x s = Inr t \<Longrightarrow> keeps_poas s t"
  by (auto simp: release_pobj_def ORBit_POAObject_release_cb_def run_simps split: if_splits
      dest!: release_poa_keeps elim!: keeps_from; simp add: keeps_poas_def)

lemma release_objref_keeps: "release_objref b s = Inr t \<Longrightarrow> keeps_poas s t"
  by (auto simp: release_objref_def CORBA_Object_release_cb_def run_simps set_pobj_def
      split: if_splits option.splits dest!: release_pobj_keeps elim!: keeps_from;
      simp add: keeps_poas_def)

lemma dup_keeps:
  "dup_poa r s = Inr t \<Longrightarrow> keeps_poas s t" "dup_pobj x s = Inr t \<Longrightarrow> keeps_poas s t"
  "dup_objref b s = Inr t \<Longrightarrow> keeps_poas s t" "dup_manager m s = Inr t \<Longrightarrow> keeps_poas s t"
  by (auto simp: dup_poa_def dup_pobj_def dup_objref_def dup_manager_def run_simps keeps_poas_def
      split: if_splits)

lemma create_object_T_keeps:
  assumes "ORBit_POA_create_object_T h r objid s = Inr (n, t)"
  shows "keeps_poas s t"
proof -
  obtain p oid k where "poas s r = Some p" "n = next_ref s" and
    "t = s\<lparr>next_ref := n + 1,
       pobjs := (pobjs s)(n \<mapsto> (new_pobj r)\<lparr>po_object_id := Some oid\<rparr>),
       poas := (poas s)(r \<mapsto> p\<lparr>poa_refs := poa_refs p + 1, next_sysid := k,
         oid_to_obj_map := AList.update oid n (oid_to_obj_map p)\<rparr>)\<rparr>"
    using create_object_T_result [OF assms] by metis
  then show ?thesis by (simp add: keeps_poas_def)
qed

lemma activate_object_T_keeps:
  "ORBit_POA_activate_object_T r x servant s = Inr t \<Longrightarrow> keeps_poas s t"
  by (elim activate_object_T_result) (simp add: keeps_poas_def)

lemma obj_to_ref_keeps: "ORBit_POA_obj_to_ref h r pobj intf s = Inr (b, t) \<Longrightarrow> keeps_poas s t"
  by (auto simp: ORBit_POA_obj_to_ref_def ORBit_objref_new_def dup_pobj_def dup_objref_def run_simps
      keeps_poas_def)

lemma unlink_keeps: "unlink_servant x sv s = Inr t \<Longrightarrow> keeps_poas s t"
  by (auto simp: unlink_servant_def run_simps set_pobj_def set_servant_def keeps_poas_def
      split: if_splits)

lemma etherealize_object_keeps:
  "etherealize_object h r x sv s = Inr t \<Longrightarrow> keeps_poas s t"
  by (auto simp: etherealize_object_def run_simps set_pobj_def keeps_poas_def
      dest!: call_etherealize_aside call_finalize_aside simp: aside_def)

lemma deactivate_object_T_keeps:
  assumes run: "ORBit_POA_deactivate_object_T h r x e c s = Inr t"
  shows "keeps_poas s t"
proof -
  have set: "keeps_poas u (set_pobj x f u)" for u f by (simp add: keeps_poas_def set_pobj_def)
  obtain q where q: "pobjs s x = Some q"
    using run by (auto simp: ORBit_POA_deactivate_object_T_def andThen_eq_Inr)
  show ?thesis
  proof (cases "po_servant q")
    case None
    then show ?thesis using run q by (simp add: ORBit_POA_deactivate_object_T_def andThen_eq_Inr)
  next
    case (Some sv)
    define fl where "fl = (if c then insert IsCleanup
        (if e \<and> DeactivateDo \<notin> po_life q then insert DoEtherealize (po_life q) else po_life q)
      else (if e \<and> DeactivateDo \<notin> po_life q then insert DoEtherealize (po_life q) else po_life q))"
    show ?thesis
    proof (cases "po_use_cnt q > 0")
      case True
      then show ?thesis using run q Some set
        by (auto simp: ORBit_POA_deactivate_object_T_def andThen_eq_Inr Let_def)
    next
      case False
      then obtain s1 s2 where 1: "unlink_servant x sv (set_pobj x (\<lambda>q. q\<lparr>po_life := fl, po_servant := None\<rparr>) s) = Inr s1"
        and 2: "(if DoEtherealize \<in> fl then etherealize_object h r x sv s1 else Inr s1) = Inr s2"
        and 3: "release_pobj x
           (set_pobj x (\<lambda>q. q\<lparr>po_life := po_life q - {DeactivateDo, IsCleanup, DoEtherealize}\<rparr>) s2) = Inr t"
        using run q Some by (auto simp: ORBit_POA_deactivate_object_T_def andThen_eq_Inr Let_def fl_def)
      have "keeps_poas s1 s2" using 2 etherealize_object_keeps by (auto split: if_splits)
      with set unlink_keeps [OF 1] release_pobj_keeps [OF 3] show ?thesis
        by (blast intro: keeps_poas_trans)
    qed
  qed
qed

text \<open>The invariant between operations.\<close>

definition dangling :: "nat set \<Rightarrow> orb \<Rightarrow> bool" where
  "dangling U s \<longleftrightarrow> (\<forall>r p b. poas s r = Some p \<longrightarrow> b \<in> set (held_requests p) \<longrightarrow>
     b < next_ref s \<and> (buffers s b = None \<or> b \<in> U)) \<and>
     (\<forall>b \<ge> next_ref s. buffers s b = None)"

definition calm ::
    "nat multiset \<Rightarrow> nat multiset \<Rightarrow> nat list \<Rightarrow> (queue \<times> nat option \<times> nat option) list \<Rightarrow>
     nat set \<Rightarrow> orb \<Rightarrow> bool" where
  "calm T P I L U s \<longleftrightarrow> sound T P s \<and> quiet s \<and> current_invocations s = I \<and> pushed s = L \<and>
     dangling U s"

lemma calm_intact: "calm T P I L U s \<Longrightarrow> pobjs s x = Some q \<Longrightarrow> Destroyed \<notin> po_life q"
  using living_object [of s x q] by (metis calm_def quiet_def sound_def)

lemma calm_via:
  assumes "sound T P t" "keeps_poas s t" "calm T' P' I L U s"
  shows "calm T P I L U t"
proof -
  have k: "next_ref s \<le> next_ref t" "buffers t = buffers s"
    and p: "\<And>r p'. poas t r = Some p' \<Longrightarrow> \<exists>p. poas s r = Some p \<and> held_requests p' = held_requests p"
    using assms(2) unfolding keeps_poas_def by blast+
  have d: "dangling U s" using assms(3) by (simp add: calm_def)
  have "dangling U t"
    unfolding dangling_def k(2)
  proof (intro conjI allI impI)
    fix r p' b assume p': "poas t r = Some p'" "b \<in> set (held_requests p')"
    obtain p0 where p0: "poas s r = Some p0" "held_requests p' = held_requests p0"
      using p [OF p'(1)] by blast
    then have "b < next_ref s" "buffers s b = None \<or> b \<in> U"
      using d p'(2) unfolding dangling_def by auto
    then show "b < next_ref t" "buffers s b = None \<or> b \<in> U" using k(1) by auto
  next
    fix b assume "next_ref t \<le> b"
    then have "next_ref s \<le> b" using k(1) by simp
    then show "buffers s b = None" using d by (simp add: dangling_def)
  qed
  moreover have "quiet t" using keeps_quiet [OF assms(2)] assms(3) by (simp add: calm_def)
  ultimately show ?thesis using assms by (simp add: calm_def keeps_poas_def)
qed

lemma calm_sound: "calm T P I L U s \<Longrightarrow> sound T P s"
  by (simp add: calm_def)

lemma calm_aside: "aside s t \<Longrightarrow> calm T P I L U s \<Longrightarrow> calm T P I L U t"
  by (rule calm_via [OF _ aside_keeps]) (simp_all add: aside_sound calm_sound)

lemma calm_POA_LOCK: "POA_LOCK r s = Inr t \<Longrightarrow> calm T P I L U s \<Longrightarrow> calm T P I L U t"
  using POA_LOCK_aside calm_aside by blast

lemma calm_POA_UNLOCK: "POA_UNLOCK r s = Inr t \<Longrightarrow> calm T P I L U s \<Longrightarrow> calm T P I L U t"
  using POA_UNLOCK_aside calm_aside by blast

lemma calm_dup_poa: "dup_poa r s = Inr t \<Longrightarrow> calm T P I L U s \<Longrightarrow> calm T (add_mset r P) I L U t"
  by (rule calm_via [OF dup_poa_sound dup_keeps(1)]) (erule calm_sound, assumption+)

lemma calm_dup_pobj: "dup_pobj x s = Inr t \<Longrightarrow> calm T P I L U s \<Longrightarrow> calm (add_mset x T) P I L U t"
  by (rule calm_via [OF dup_pobj_sound dup_keeps(2)]) (erule calm_sound, assumption+)

lemma calm_dup_objref: "dup_objref x s = Inr t \<Longrightarrow> calm T P I L U s \<Longrightarrow> calm T P I L U t"
  by (rule calm_via [OF dup_objref_sound dup_keeps(3)]) (erule calm_sound, assumption+)

lemma calm_release_poa: "release_poa r s = Inr t \<Longrightarrow> calm T (add_mset r P) I L U s \<Longrightarrow> calm T P I L U t"
  by (rule calm_via [OF release_poa_sound release_poa_keeps]) (erule calm_sound, assumption+)

lemma calm_release_pobj: "release_pobj x s = Inr t \<Longrightarrow> calm (add_mset x T) P I L U s \<Longrightarrow> calm T P I L U t"
  by (rule calm_via [OF release_pobj_sound release_pobj_keeps]) (erule calm_sound, assumption+)

lemma calm_release_objref: "release_objref b s = Inr t \<Longrightarrow> calm T P I L U s \<Longrightarrow> calm T P I L U t"
  by (rule calm_via [OF release_objref_sound release_objref_keeps]) (erule calm_sound, assumption+)

lemma calm_create: "ORBit_POA_create_object_T h r objid s = Inr (n, t) \<Longrightarrow> new_key h r objid s \<Longrightarrow>
    calm T P I L U s \<Longrightarrow> calm T P I L U t"
  by (rule calm_via [OF create_object_T_sound(1) create_object_T_keeps]) (erule calm_sound, assumption+)

lemma calm_activate: "ORBit_POA_activate_object_T r x sv s = Inr t \<Longrightarrow> calm T P I L U s \<Longrightarrow> calm T P I L U t"
  by (rule calm_via [OF activate_object_T_sound activate_object_T_keeps]) (erule calm_sound, assumption, erule calm_intact, assumption+)

lemma calm_deactivate: "ORBit_POA_deactivate_object_T h r x e c s = Inr t \<Longrightarrow> calm T P I L U s \<Longrightarrow> calm T P I L U t"
  by (rule calm_via [OF deactivate_object_T_sound deactivate_object_T_keeps]) (erule calm_sound, assumption+)

lemma calm_obj_to_ref: "ORBit_POA_obj_to_ref h r pobj intf s = Inr (b, t) \<Longrightarrow> calm T P I L U s \<Longrightarrow> calm T P I L U t"
  by (rule calm_via [OF obj_to_ref_sound obj_to_ref_keeps]) (erule calm_sound, assumption, erule calm_intact, assumption+)

section \<open>Results by rules\<close>

text \<open>
  \<open>yields r Q\<close>: if the code returns, then with a result of which \<open>Q\<close> holds. The
  rules follow the code; those of the operations above carry the invariant.
\<close>

definition yields :: "'a run \<Rightarrow> ('a \<Rightarrow> bool) \<Rightarrow> bool" where
  "yields r Q \<longleftrightarrow> (\<forall>x. r = Inr x \<longrightarrow> Q x)"

lemma yieldsI: "(\<And>x. r = Inr x \<Longrightarrow> Q x) \<Longrightarrow> yields r Q"
  by (simp add: yields_def)

lemma yieldsD: "yields r Q \<Longrightarrow> r = Inr x \<Longrightarrow> Q x"
  by (simp add: yields_def)

lemma yields_bind: "yields r (\<lambda>x. yields (f x) Q) \<Longrightarrow> yields (andThen r f) Q"
  by (auto simp: yields_def andThen_eq_Inr)

lemma yields_Inr: "Q x \<Longrightarrow> yields (Inr x) Q"
  by (simp add: yields_def)

lemma yields_Inl: "yields (Inl e) Q"
  by (simp add: yields_def)

lemma yields_if: "(b \<Longrightarrow> yields r Q) \<Longrightarrow> (\<not> b \<Longrightarrow> yields r' Q) \<Longrightarrow> yields (if b then r else r') Q"
  by simp

lemma yields_Some: "yields (g x) Q \<Longrightarrow> yields (case Some x of None \<Rightarrow> r | Some y \<Rightarrow> g y) Q"
  by simp

lemma yields_None: "yields r Q \<Longrightarrow> yields (case None of None \<Rightarrow> r | Some y \<Rightarrow> g y) Q"
  by simp

lemma yields_option:
  "(a = None \<Longrightarrow> yields r Q) \<Longrightarrow> (\<And>x. a = Some x \<Longrightarrow> yields (g x) Q) \<Longrightarrow>
   yields (case a of None \<Rightarrow> r | Some y \<Rightarrow> g y) Q"
  by (simp split: option.split)

lemma yields_pair: "yields (f x y) Q \<Longrightarrow> yields (case (x, y) of (a, b) \<Rightarrow> f a b) Q"
  by simp

lemma yields_prod:
  "(\<And>x y. p = (x, y) \<Longrightarrow> yields (f x y) Q) \<Longrightarrow> yields (case p of (a, b) \<Rightarrow> f a b) Q"
  by (simp split: prod.split)

lemma yields_let: "yields (f v) Q \<Longrightarrow> yields (let x = v in f x) Q"
  by simp

lemma yields_deref: "(\<And>x. heap r = Some x \<Longrightarrow> Q x) \<Longrightarrow> yields (deref heap r) Q"
  by (simp add: yields_def)

lemma yields_nonnull: "(\<And>x. p = Some x \<Longrightarrow> Q x) \<Longrightarrow> yields (nonnull p) Q"
  by (simp add: yields_def)

lemma yields_assert: "(b \<Longrightarrow> Q s) \<Longrightarrow> yields (g_assert b s) Q"
  by (simp add: yields_def)

lemma yields_vepv: "(\<And>v. servants s sv = Some v \<Longrightarrow> vepv_shift v = 0 \<Longrightarrow> Q v) \<Longrightarrow> yields (vepv_of sv s) Q"
  by (auto simp: yields_def vepv_of_def andThen_eq_Inr)

lemma yields_raise: "Q (Inl ev, s) \<Longrightarrow> yields (raise_ex ev s) Q"
  by (simp add: yields_def raise_ex_def)

lemma yields_returns: "Q (Inr x, s) \<Longrightarrow> yields (returns x s) Q"
  by (simp add: yields_def returns_def)

lemma yields_POA_LOCK: "calm T P I L U s \<Longrightarrow> (\<And>t. aside s t \<Longrightarrow> calm T P I L U t \<Longrightarrow> Q t) \<Longrightarrow> yields (POA_LOCK r s) Q"
  by (rule yieldsI) (blast dest: calm_POA_LOCK POA_LOCK_aside)

lemma yields_POA_UNLOCK: "calm T P I L U s \<Longrightarrow> (\<And>t. aside s t \<Longrightarrow> calm T P I L U t \<Longrightarrow> Q t) \<Longrightarrow> yields (POA_UNLOCK r s) Q"
  by (rule yieldsI) (blast dest: calm_POA_UNLOCK POA_UNLOCK_aside)

lemma yields_dup_poa: "calm T P I L U s \<Longrightarrow> (\<And>t. calm T (add_mset r P) I L U t \<Longrightarrow> Q t) \<Longrightarrow> yields (dup_poa r s) Q"
  by (rule yieldsI) (blast dest: calm_dup_poa)

lemma yields_dup_pobj: "calm T P I L U s \<Longrightarrow> (\<And>t. calm (add_mset x T) P I L U t \<Longrightarrow> Q t) \<Longrightarrow> yields (dup_pobj x s) Q"
  by (rule yieldsI) (blast dest: calm_dup_pobj)

lemma yields_dup_objref: "calm T P I L U s \<Longrightarrow> (\<And>t. calm T P I L U t \<Longrightarrow> Q t) \<Longrightarrow> yields (dup_objref b s) Q"
  by (rule yieldsI) (blast dest: calm_dup_objref)

lemma yields_release_poa:
  "calm T (add_mset r P) I L U s \<Longrightarrow> (\<And>t. calm T P I L U t \<Longrightarrow> Q t) \<Longrightarrow> yields (release_poa r s) Q"
  by (rule yieldsI) (blast dest: calm_release_poa)

lemma yields_release_pobj:
  "calm (add_mset x T) P I L U s \<Longrightarrow> (\<And>t. calm T P I L U t \<Longrightarrow> Q t) \<Longrightarrow> yields (release_pobj x s) Q"
  by (rule yieldsI) (blast dest: calm_release_pobj)

lemma yields_release_none:
  "calm T P I L U s \<Longrightarrow> Q s \<Longrightarrow> yields (release_opt release_pobj None s) Q"
  by (simp add: release_opt_def yields_def)

lemma yields_release_some:
  "calm (add_mset x T) P I L U s \<Longrightarrow> (\<And>t. calm T P I L U t \<Longrightarrow> Q t) \<Longrightarrow> yields (release_opt release_pobj (Some x) s) Q"
  by (simp add: release_opt_def yields_release_pobj)

lemma yields_create:
  "calm T P I L U s \<Longrightarrow> new_key h r objid s \<Longrightarrow> (\<And>n t. calm T P I L U t \<Longrightarrow> Q (n, t)) \<Longrightarrow>
   yields (ORBit_POA_create_object_T h r objid s) Q"
  by (rule yieldsI) (metis calm_create surj_pair)

lemma yields_activate:
  "calm T P I L U s \<Longrightarrow> (\<And>t. calm T P I L U t \<Longrightarrow> Q t) \<Longrightarrow> yields (ORBit_POA_activate_object_T r x sv s) Q"
  by (rule yieldsI) (blast dest: calm_activate)

lemma yields_deactivate:
  "calm T P I L U s \<Longrightarrow> (\<And>t. calm T P I L U t \<Longrightarrow> Q t) \<Longrightarrow> yields (ORBit_POA_deactivate_object_T h r x e c s) Q"
  by (rule yieldsI) (blast dest: calm_deactivate)

lemma yields_obj_to_ref:
  "calm T P I L U s \<Longrightarrow> (\<And>b t. calm T P I L U t \<Longrightarrow> Q (b, t)) \<Longrightarrow> yields (ORBit_POA_obj_to_ref h r pobj intf s) Q"
  by (rule yieldsI) (metis calm_obj_to_ref surj_pair)

lemma yields_lookup:
  assumes "calm T P I L U s"
    and "\<And>p. poas s r = Some p \<Longrightarrow> oid \<notin> fst ` set (oid_to_obj_map p) \<Longrightarrow> Q (None, s)"
    and "\<And>x t. calm (add_mset x T) P I L U t \<Longrightarrow> Q (Some x, t)"
  shows "yields (ORBit_POA_object_id_lookup_T r oid s) Q"
proof (rule yieldsI)
  fix res assume run: "ORBit_POA_object_id_lookup_T r oid s = Inr res"
  then obtain p where p: "poas s r = Some p"
    by (auto simp: ORBit_POA_object_id_lookup_T_def andThen_eq_Inr)
  show "Q res"
  proof (cases "map_of (oid_to_obj_map p) oid")
    case None
    then have "oid \<notin> fst ` set (oid_to_obj_map p)" by (simp add: map_of_eq_None_iff)
    moreover have "res = (None, s)"
      using run p None by (auto simp: ORBit_POA_object_id_lookup_T_def andThen_eq_Inr)
    ultimately show ?thesis using assms(2) [OF p] by simp
  next
    case (Some x)
    then obtain t where "res = (Some x, t)" "dup_pobj x s = Inr t"
      using run p by (auto simp: ORBit_POA_object_id_lookup_T_def andThen_eq_Inr)
    then show ?thesis using assms(1,3) calm_dup_pobj by blast
  qed
qed

lemma yields_active_none: "Q False \<Longrightarrow> yields (ORBit_POAObject_is_active None s) Q"
  by (simp add: ORBit_POAObject_is_active_def yields_def)

lemma yields_active_some:
  "(\<And>q. pobjs s x = Some q \<Longrightarrow> Q (po_servant q \<noteq> None)) \<Longrightarrow>
   yields (ORBit_POAObject_is_active (Some x) s) Q"
  by (auto simp: ORBit_POAObject_is_active_def yields_def andThen_eq_Inr)

lemmas code_rules = yields_bind yields_Inr yields_Inl yields_if yields_Some yields_None yields_option
  yields_pair yields_prod yields_let yields_deref yields_nonnull yields_assert yields_vepv
  yields_raise yields_returns

lemmas calm_rules = yields_POA_LOCK yields_POA_UNLOCK yields_dup_poa yields_dup_pobj
  yields_dup_objref yields_release_poa yields_release_pobj yields_release_none yields_release_some
  yields_create yields_activate yields_deactivate yields_obj_to_ref yields_lookup
  yields_active_none yields_active_some

section \<open>The operations of the interface\<close>

lemma new_key_aside: "aside s t \<Longrightarrow> new_key h r objid s \<Longrightarrow> new_key h r objid t"
  using aside_stores [of s t] by (cases objid) (simp_all add: new_key_def)

lemma activate_object_calm:
  assumes "calm T P I L U s" "\<And>r. poa = Some r \<Longrightarrow> new_key h r None s"
  shows "yields (PortableServer_POA_activate_object h poa sv s) (\<lambda>x. calm T P I L U (snd x))"
  unfolding PortableServer_POA_activate_object_def
  by (insert assms) (rule code_rules calm_rules | assumption | simp add: new_key_aside)+

section \<open>Requests\<close>

lemma count_list_remove1:
  "count_list (remove1 x xs) y = (if x = y \<and> x \<in> set xs then count_list xs y - 1 else count_list xs y)"
  by (induction xs) auto

lemma calm_push:
  assumes "calm T P I L U s" "pobjs s x = Some q" "po_servant q \<noteq> None" "length I + 1 < 2 ^ 16"
  shows "calm T P (x # I) L U (ORBit_POA_invocation_stack_push x
           (set_pobj x (\<lambda>q. q\<lparr>po_use_cnt := po_use_cnt q + 1\<rparr>) s))"
proof -
  let ?q = "q\<lparr>po_use_cnt := po_use_cnt q + 1\<rparr>"
  let ?t = "s\<lparr>pobjs := (pobjs s)(x \<mapsto> ?q)\<rparr>"
  let ?s = "?t\<lparr>current_invocations := x # I\<rparr>"
  have s: "sound T P s" and I: "current_invocations s = I" using assms(1) by (simp_all add: calm_def)
  then have parts: "counted T s" "mapped s" "chained s" "used s" "referenced s" "held P s" "listed s"
    "displaced s" "fresh_above s" by (simp_all add: sound_def)
  let ?u = "s\<lparr>pobjs := (pobjs s)(x \<mapsto> q)\<rparr>"
  have "counted T ?s" using parts(1) assms(2) by (auto simp: counted_def)
  moreover have "mapped ?s"
  proof (rule mappedI)
    fix y qy assume "pobjs ?s y = Some qy"
    then show "in_map ?s y qy"
      using mappedD(1) [OF parts(2), of y "if y = x then q else qy"] assms(2)
      by (auto simp: in_map_def split: if_splits)
  next
    fix r p i y assume "poas ?s r = Some p" "(i, y) \<in> set (oid_to_obj_map p)"
    then have "map_entry s r p i y" using mappedD(2) [OF parts(2)] by simp
    then show "map_entry ?s r p i y" using assms(2) by (auto simp: map_entry_def)
  qed (use mappedD(3,4) [OF parts(2)] in simp_all)
  moreover have "chained ?s"
  proof (rule chained_transfer [OF parts(3)])
    show "chain (pobjs ?s) l xs = chain (pobjs s) l xs" for l xs
      by (rule chain_cong) (use assms(2) in auto)
  qed (use assms(2) in \<open>auto simp: incarnated_def\<close>)
  moreover have "used ?s" using parts(4) assms(2-4) I by (auto simp: used_def)
  moreover have "referenced ?s" using parts(5) assms(2) by (fastforce simp: referenced_def)
  moreover have "held P ?s"
  proof -
    have "objects_of ?s r = objects_of s r" "children_of ?s r = children_of s r" for r
      using assms(2) by (auto simp: objects_of_def children_of_def)
    then show ?thesis using parts(6) by (simp add: held_def)
  qed
  moreover have "listed ?s" using parts(7) by (simp add: listed_def)
  moreover have "displaced ?s" using parts(8) by (simp add: displaced_def)
  moreover have "fresh_above ?s" using parts(9) assms(2) by (auto simp: fresh_above_def)
  ultimately have "sound T P ?s" by (simp add: sound_def)
  then show ?thesis
    using assms(1,2) by (simp add: calm_def quiet_def dangling_def heap_simps
        ORBit_POA_invocation_stack_push_def)
qed

lemma calm_pop:
  assumes "calm T P I L U s" "x \<in> set I"
  shows "calm T P (remove1 x I) L U (set_pobj x (\<lambda>q. q\<lparr>po_use_cnt := po_use_cnt q - 1\<rparr>)
           (ORBit_POA_invocation_stack_pop x s))"
proof -
  have s: "sound T P s" and I: "current_invocations s = I" using assms(1) by (simp_all add: calm_def)
  then have parts: "counted T s" "mapped s" "chained s" "used s" "referenced s" "held P s" "listed s"
    "displaced s" "fresh_above s" by (simp_all add: sound_def)
  obtain q where q: "pobjs s x = Some q" using parts(4) I assms(2) by (auto simp: used_def)
  let ?q = "q\<lparr>po_use_cnt := po_use_cnt q - 1\<rparr>"
  let ?s = "s\<lparr>current_invocations := remove1 x I, pobjs := (pobjs s)(x \<mapsto> ?q)\<rparr>"
  have "counted T ?s" using parts(1) q by (auto simp: counted_def)
  moreover have "mapped ?s"
  proof (rule mappedI)
    fix y qy assume "pobjs ?s y = Some qy"
    then show "in_map ?s y qy"
      using mappedD(1) [OF parts(2), of y "if y = x then q else qy"] q
      by (auto simp: in_map_def split: if_splits)
  next
    fix r p i y assume "poas ?s r = Some p" "(i, y) \<in> set (oid_to_obj_map p)"
    then have "map_entry s r p i y" using mappedD(2) [OF parts(2)] by simp
    then show "map_entry ?s r p i y" using q by (auto simp: map_entry_def)
  qed (use mappedD(3,4) [OF parts(2)] in simp_all)
  moreover have "chained ?s"
  proof (rule chained_transfer [OF parts(3)])
    show "chain (pobjs ?s) l xs = chain (pobjs s) l xs" for l xs
      by (rule chain_cong) (use q in auto)
  qed (use q in \<open>auto simp: incarnated_def\<close>)
  moreover have "used ?s"
  proof -
    have c: "count_list I x > 0" using assms(2) count_list_0_iff [of I x] by (metis gr0I)
    have sub: "y \<in> set (remove1 x I) \<Longrightarrow> y \<in> set I" for y by (metis notin_set_remove1)
    have sv: "po_servant q \<noteq> None" using parts(4) q I assms(2) by (auto simp: used_def)
    have "length (remove1 x I) < 2 ^ 16"
      using parts(4) I by (auto simp: used_def length_remove1)
    then show ?thesis
      using parts(4) q I c sv sub by (auto simp: used_def count_list_remove1 of_nat_diff Suc_le_eq)
  qed
  moreover have "referenced ?s" using parts(5) q by (fastforce simp: referenced_def)
  moreover have "held P ?s"
  proof -
    have "objects_of ?s r = objects_of s r" "children_of ?s r = children_of s r" for r
      using q by (auto simp: objects_of_def children_of_def)
    then show ?thesis using parts(6) by (simp add: held_def)
  qed
  moreover have "listed ?s" using parts(7) by (simp add: listed_def)
  moreover have "displaced ?s" using parts(8) by (simp add: displaced_def)
  moreover have "fresh_above ?s" using parts(9) q by (auto simp: fresh_above_def)
  ultimately have "sound T P ?s" by (simp add: sound_def)
  then show ?thesis
    using assms(1) I q by (simp add: calm_def quiet_def dangling_def heap_simps
        ORBit_POA_invocation_stack_pop_def)
qed

end
