(* ===== verification/Poa_Served.thy ===== *)
theory Poa_Served
imports Poa_Calls
begin

text \<open>
  The invariant through the handling of requests: what each part of it does
  with the references, the use counts and the message buffers it holds.
\<close>

section \<open>Buffers and replies\<close>

lemma calm_log [simp]: "calm T P I L U (log_event e s) = calm T P I L U s"
  by (simp add: calm_def quiet_def dangling_def log_event_def)

lemma calm_more: "calm T P I L U s \<Longrightarrow> U \<subseteq> U' \<Longrightarrow> calm T P I L U' s"
  by (auto simp: calm_def dangling_def)

lemma calm_forget:
  assumes "calm T P I L (insert b U) s"
  shows "calm T P I L U (s\<lparr>buffers := (buffers s)(b := None)\<rparr>)"
proof -
  have "dangling (insert b U) s" using assms by (simp add: calm_def)
  then have "dangling U (s\<lparr>buffers := (buffers s)(b := None)\<rparr>)"
    by (fastforce simp: dangling_def)
  then show ?thesis using assms by (simp add: calm_def quiet_def)
qed

lemma yields_unuse:
  "calm T P I L (insert b U) s \<Longrightarrow> (\<And>t. calm T P I L U t \<Longrightarrow> Q t) \<Longrightarrow>
   yields (giop_recv_buffer_unuse (Some b) s) Q"
  by (rule yieldsI) (auto simp: giop_recv_buffer_unuse_def andThen_eq_Inr dest: calm_forget)

lemma yields_unuse_none: "Q s \<Longrightarrow> yields (giop_recv_buffer_unuse None s) Q"
  by (simp add: yields_def giop_recv_buffer_unuse_def)

lemma yields_sys_exception:
  "calm T P I L U s \<Longrightarrow> (\<And>t. calm T P I L U t \<Longrightarrow> Q t) \<Longrightarrow>
   yields (ORBit_recv_buffer_return_sys_exception buf ev s) Q"
  by (rule yieldsI) (auto simp: ORBit_recv_buffer_return_sys_exception_def andThen_eq_Inr
      split: option.splits)

lemma yields_return_exception:
  "calm T P I L U s \<Longrightarrow> (\<And>t. calm T P I L U t \<Longrightarrow> Q t) \<Longrightarrow>
   yields (return_exception buf oneway ev s) Q"
  unfolding return_exception_def
  by (rule yields_if) (blast intro: yields_Inr yields_sys_exception)+

lemma calm_push_request:
  "calm T P I L U s \<Longrightarrow> calm T P I (L @ [(k, o', b)]) U (push_request k o' b s)"
  by (simp add: calm_def quiet_def dangling_def push_request_def)

section \<open>Servants\<close>

lemma no_servant_manager:
  assumes "calm T P I L U s" "poas s r = Some p" "servant_manager p = Some sm"
  shows "vepv_of sm s = Inl Fails"
proof -
  have "displaced s" using assms(1) by (simp add: calm_def sound_def)
  then obtain v where "servants s sm = Some v" "0 < vepv_shift v"
    using assms(2,3) unfolding displaced_def by blast
  then show ?thesis by (simp add: vepv_of_def deref_def g_assert_def)
qed

lemma use_servant_fails:
  "calm T P I L U s \<Longrightarrow> yields (ORBit_POA_ServantManager_use_servant h r o' opname s) Q"
  by (rule yieldsI) (auto simp: ORBit_POA_ServantManager_use_servant_def andThen_eq_Inr
      dest: no_servant_manager)

lemma unuse_servant_fails:
  "calm T P I L U s \<Longrightarrow> yields (ORBit_POA_ServantManager_unuse_servant r o' opname c oid sv s) Q"
  by (rule yieldsI) (auto simp: ORBit_POA_ServantManager_unuse_servant_def andThen_eq_Inr
      dest: no_servant_manager)

lemma yields_find_servant:
  assumes "calm T P I L U s" "\<And>ev t. calm T P I L U t \<Longrightarrow> Q (None, ev, t)"
  shows "yields (find_servant h r o' opname s) Q"
  unfolding find_servant_def
  by (auto intro!: yields_bind yields_deref yields_if yields_Inr yields_activate [OF assms(1)]
      use_servant_fails [OF assms(1)] assms split: request_processing_policy.splits)

lemma yields_post_invoke:
  assumes "calm T P I L U s" "\<And>t. calm T P I L U t \<Longrightarrow> Q t"
  shows "yields (ORBit_POAObject_post_invoke h x s) Q"
  unfolding ORBit_POAObject_post_invoke_def
  by (auto intro!: yields_bind yields_deref yields_if yields_Inr yields_deactivate [OF assms(1)] assms)

lemma yields_give_back:
  assumes "calm T P I L U s" "\<And>t. calm T P I L U t \<Longrightarrow> Q t"
  shows "yields (give_back_servant h f s) Q"
  unfolding give_back_servant_def
  by (auto intro!: yields_bind yields_deref yields_if yields_Inr yields_Inl
      yields_deactivate [OF assms(1)] unuse_servant_fails [OF assms(1)] assms
      split: request_processing_policy.splits)

lemma yields_clean_out:
  assumes "calm T (add_mset r P) I L U s" "\<And>t. calm T P I L U t \<Longrightarrow> Q t"
  shows "yields (clean_out r s) Q"
  unfolding clean_out_def
  by (insert assms) (rule yields_bind yields_POA_UNLOCK yields_release_poa | assumption | blast)+

section \<open>Methods\<close>

lemma yields_end_invocation:
  assumes "calm T (add_mset (fr_poa f) P) I L U s" "fr_pobj f \<in> set I"
    and "\<And>t. calm T P (remove1 (fr_pobj f) I) L U t \<Longrightarrow> Q t"
  shows "yields (end_invocation h f s) Q"
  using calm_pop [OF assms(1,2)] unfolding end_invocation_def Let_def
  by (auto intro!: yields_bind yields_deref yields_if yields_Inr yields_post_invoke
      yields_clean_out assms(3))

lemma yields_request_end:
  assumes "calm T (add_mset (fr_poa f) P) I L U s" "fr_pobj f \<in> set I"
    and "\<And>t. calm T P (remove1 (fr_pobj f) I) L U t \<Longrightarrow> Q t"
  shows "yields (handle_request_end h f s) Q"
  unfolding handle_request_end_def
  by (insert assms)
    (rule yields_bind yields_if yields_Inr yields_POA_LOCK yields_give_back yields_end_invocation
     | assumption | blast)+

lemma yields_enter_method:
  assumes "calm T (add_mset (fr_poa f) P) I L U s" "length I + 1 < 2 ^ 16"
    and "\<And>t. calm T (add_mset (fr_poa f) P) (fr_pobj f # I) L U t \<Longrightarrow>
      Q (Some (f\<lparr>fr_invoked := True\<rparr>), None, t)"
    and "\<And>ev t. calm T P I L U t \<Longrightarrow> Q (None, ev, t)"
  shows "yields (enter_method h f s) Q"
  unfolding enter_method_def Let_def
proof (intro yields_bind yields_deref yields_nonnull yields_vepv yields_prod)
  let ?t = "ORBit_POA_invocation_stack_push (fr_pobj f)
           (set_pobj (fr_pobj f) (\<lambda>q. q\<lparr>po_use_cnt := po_use_cnt q + 1\<rparr>) s)"
  fix q sv skel p imp oneway
  assume "pobjs s (fr_pobj f) = Some q" "po_servant q = Some sv"
  then have "calm T (add_mset (fr_poa f) P) (fr_pobj f # I) L U ?t"
    using calm_push [OF assms(1) _ _ assms(2)] by simp
  then show "yields (if skel \<and> imp then andThen (POA_UNLOCK (fr_poa f) ?t) (\<lambda>s.
      Inr (Some (f\<lparr>fr_invoked := True\<rparr>), None, log_event (Invoke (fr_pobj f) sv (fr_opname f)) s))
    else andThen (return_exception (fr_buffer f) oneway (if skel then ex_CORBA_NO_IMPLEMENT
        else ex_CORBA_BAD_OPERATION) ?t) (\<lambda>s.
      andThen (handle_request_end h f s) (\<lambda>s. Inr (None, if fr_buffer f = None
        then Some (if skel then ex_CORBA_NO_IMPLEMENT else ex_CORBA_BAD_OPERATION) else None, s)))) Q"
    by (auto intro!: yields_bind yields_if yields_Inr yields_POA_UNLOCK yields_return_exception
        yields_request_end assms(3,4))
qed

lemma calm_hold:
  assumes "calm T P I L U s" "poas s r = Some p" "buffers s b = Some req"
  shows "calm T P I L (insert b U) (set_poa r (\<lambda>p. p\<lparr>held_requests := b # held_requests p\<rparr>) s)"
proof -
  let ?t = "s\<lparr>poas := (poas s)(r \<mapsto> p\<lparr>held_requests := b # held_requests p\<rparr>)\<rparr>"
  have s: "sound T P s" "quiet s" "dangling U s" using assms(1) by (simp_all add: calm_def)
  then have "held P s" by (simp add: sound_def)
  then have "held P ?t" by (rule held_poa_update [OF _ assms(2)]) auto
  then have "sound T P ?t" by (intro sound_poa_update [OF s(1) assms(2)]) auto
  moreover have "quiet ?t" using s(2) assms(2) unfolding quiet_def by simp
  moreover have "b < next_ref s" using s(3) assms(3) by (simp add: dangling_def) (metis not_le option.distinct(1))
  then have "dangling (insert b U) ?t" using s(3) assms(2) by (fastforce simp: dangling_def)
  ultimately show ?thesis using assms(1,2) by (simp add: calm_def heap_simps)
qed

section \<open>The references a request holds\<close>

definition holds :: "'a option \<Rightarrow> 'a multiset" where
  "holds p = (case p of None \<Rightarrow> {#} | Some x \<Rightarrow> {#x#})"

lemma holds_simps [simp]: "holds None = {#}" "holds (Some x) = {#x#}"
  by (simp_all add: holds_def)

definition pushed_refs :: "(queue \<times> nat option \<times> nat option) list \<Rightarrow> nat multiset" where
  "pushed_refs L = sum_list (map (\<lambda>(k, x, b). holds x) L)"

lemma pushed_refs_simps [simp]:
  "pushed_refs [] = {#}" "pushed_refs ((k, x, b) # L) = holds x + pushed_refs L"
  "pushed_refs (L @ M) = pushed_refs L + pushed_refs M"
  by (simp_all add: pushed_refs_def)

definition frame_refs :: "frame \<Rightarrow> nat multiset" where
  "frame_refs f = (if fr_buffer f = None then {#} else {#fr_pobj f#})"

definition frame_poas :: "frame \<Rightarrow> nat multiset" where
  "frame_poas f = add_mset (fr_poa f) (holds (fr_adaptor f))"

definition started ::
    "nat multiset \<Rightarrow> nat multiset \<Rightarrow> nat list \<Rightarrow> (queue \<times> nat option \<times> nat option) list \<Rightarrow>
     frame option \<times> orb \<Rightarrow> bool" where
  "started T P I L res \<longleftrightarrow> (case res of
     (None, t) \<Rightarrow> \<exists>l. calm (T + pushed_refs l) P I (L @ l) {} t
   | (Some f, t) \<Rightarrow> calm (T + frame_refs f) (P + frame_poas f) (fr_pobj f # I) L {} t)"

definition served ::
    "nat multiset \<Rightarrow> nat multiset \<Rightarrow> nat list \<Rightarrow> (queue \<times> nat option \<times> nat option) list \<Rightarrow>
     frame option \<times> orb \<Rightarrow> bool" where
  "served T P I L res \<longleftrightarrow> started T P I L res \<and> (\<forall>f. fst res = Some f \<longrightarrow> fr_adaptor f = None)"

lemma yields_incoming_done:
  assumes "calm (T + holds pobj) P I L (U \<union> set_option buf) s"
    and "\<And>t. calm T P I L U t \<Longrightarrow> Q t"
  shows "yields (incoming_done pobj buf ev s) Q"
proof -
  have un: "yields (giop_recv_buffer_unuse buf t) Q" if "calm T P I L (U \<union> set_option buf) t" for t
    using that assms(2) by (cases buf) (auto intro: yields_unuse yields_unuse_none)
  have "yields (case ev of None \<Rightarrow> Inr t | Some e \<Rightarrow> return_exception buf False e t)
      (\<lambda>t. yields (giop_recv_buffer_unuse buf t) Q)" if "calm T P I L (U \<union> set_option buf) t" for t
    using that by (cases ev) (auto intro!: yields_Inr yields_return_exception un)
  then show ?thesis
    using assms(1) unfolding incoming_done_def
    by (cases pobj) (auto intro!: yields_bind yields_release_none yields_release_some)
qed

lemma yields_handle_request:
  assumes s: "calm T P I L U s" and I: "length I + 1 < 2 ^ 16"
    and buf: "\<And>b. buf = Some b \<Longrightarrow> buffers s b \<noteq> None"
    and frame: "\<And>f t. fr_pobj f = x \<Longrightarrow> fr_buffer f = buf \<Longrightarrow> fr_adaptor f = None \<Longrightarrow>
      calm T (add_mset (fr_poa f) P) (x # I) L U t \<Longrightarrow> Q (Some f, None, t)"
    and none: "\<And>ev t. calm T P I L (U \<union> set_option buf) t \<Longrightarrow> Q (None, ev, t)"
  shows "yields (ORBit_POAObject_handle_request h x opname buf s) Q"
proof -
  have none': "Q (None, ev, t)" if "calm T P I L U t" for ev t
    by (rule none) (rule calm_more [OF that], blast)
  have refuse: "yields (andThen (return_exception buf False ev t) (\<lambda>s.
      andThen (clean_out r s) (\<lambda>s. Inr (None, Some ev, s)))) Q"
    if "calm T (add_mset r P) I L U t" for ev t r
    by (insert that) (rule yields_bind yields_return_exception yields_clean_out yields_Inr none'
        | assumption)+
  show ?thesis
    unfolding ORBit_POAObject_handle_request_def Let_def
  proof (rule yields_bind, rule yields_deref, rule yields_bind, rule yieldsI, rule yields_bind,
      rule yieldsI, rule yields_bind, rule yields_deref, rule yields_bind, rule yields_deref)
    fix q t1 t p m
    assume dup: "dup_poa (po_poa q) s = Inr t1" and lock: "POA_LOCK (po_poa q) t1 = Inr t"
      and p: "poas t (po_poa q) = Some p" and m: "managers t (poa_manager p) = Some m"
    have t: "calm T (add_mset (po_poa q) P) I L U t"
      using calm_POA_LOCK [OF lock calm_dup_poa [OF dup s]] .
    have "buffers t = buffers s"
      using dup_keeps(1) [OF dup] aside_keeps [OF POA_LOCK_aside [OF lock]] by (simp add: keeps_poas_def)
    then have live: "\<exists>req. buffers t b = Some req" if "buf = Some b" for b using buf [OF that] by auto
    let ?r = "po_poa q"
    show "yields (case manager_gate (mgr_state m) (buf \<noteq> None) of
       Enter \<Rightarrow>
         andThen (find_servant h ?r x opname t) (\<lambda>(cookie, ev, s).
         andThen (deref (pobjs s) x) (\<lambda>q'.
         case (if ev = None \<and> po_servant q' = None then Some ex_CORBA_OBJECT_NOT_EXIST else ev) of
           None \<Rightarrow>
             enter_method h \<lparr>fr_pobj = x, fr_poa = ?r, fr_buffer = buf, fr_opname = opname,
               fr_cookie = cookie, fr_oid = po_object_id q', fr_invoked = False, fr_adaptor = None\<rparr> s
         | Some ev \<Rightarrow> andThen (return_exception buf False ev s) (\<lambda>s.
             andThen (clean_out ?r s) (\<lambda>s. Inr (None, Some ev, s)))))
     | Queue \<Rightarrow>
         andThen (clean_out ?r (set_poa ?r (\<lambda>p. p\<lparr>held_requests := the buf # held_requests p\<rparr>) t)) (\<lambda>s.
         Inr (None, None, s))
     | Refuse ev \<Rightarrow> andThen (return_exception buf False ev t) (\<lambda>s.
             andThen (clean_out ?r s) (\<lambda>s. Inr (None, Some ev, s)))) Q"
    proof (cases "manager_gate (mgr_state m) (buf \<noteq> None)")
      case Enter
      then show ?thesis
        by (auto intro!: yields_bind yields_find_servant [OF t] yields_deref yields_enter_method
            frame none' refuse I split: option.split)
    next
      case Queue
      then obtain b where b: "buf = Some b" by (cases "mgr_state m"; cases buf) auto
      then obtain req where "buffers t b = Some req" using live by blast
      from calm_hold [OF t p this] Queue b show ?thesis
        by (auto intro!: yields_bind yields_clean_out yields_Inr none)
    next
      case (Refuse ev)
      then show ?thesis using refuse [OF t] by simp
    qed
  qed
qed

section \<open>Requests from the wire\<close>

lemma calm_servedI:
  "calm T P I L {} t \<Longrightarrow> served T P I L (None, t)"
  by (auto simp: served_def started_def intro!: exI [of _ "[]"])

lemma calm_startedI:
  "calm T P I L {} t \<Longrightarrow> started T P I L (None, t)"
  by (auto simp: started_def intro!: exI [of _ "[]"])

lemma yields_invoke_incoming:
  assumes s: "calm (T + holds pobj) P I L {} s" and I: "length I + 1 < 2 ^ 16"
  shows "yields (ORBit_POAObject_invoke_incoming_request h pobj buf ev s) (served T P I L)"
proof (cases "ev = None \<and> pobj \<noteq> None")
  case True
  then obtain x where x: "pobj = Some x" "ev = None" by auto
  have s': "calm (add_mset x T) P I L {} s" using s x by simp
  show ?thesis
    unfolding ORBit_POAObject_invoke_incoming_request_def x prod.case option.case
  proof (rule yields_bind, rule yields_nonnull, rule yields_bind, rule yields_deref, rule yields_bind,
      rule yields_handle_request [OF s' I])
    fix b req b' assume "buffers s b = Some req" "buf = Some b" "buf = Some b'"
    then show "buffers s b' \<noteq> None" by simp
  next
    fix b t and f :: frame assume "buf = Some b" "fr_pobj f = x" "fr_buffer f = buf" "fr_adaptor f = None"
      "calm (add_mset x T) (add_mset (fr_poa f) P) (x # I) L {} t"
    then show "yields (case (Some f, None, t) of (f, ev, s) \<Rightarrow> (case f of
        None \<Rightarrow> andThen (incoming_done (Some x) buf ev s) (\<lambda>s. Inr (None, s))
      | Some f \<Rightarrow> Inr (Some f, s))) (served T P I L)"
      by (simp add: yields_def served_def started_def frame_refs_def frame_poas_def)
  next
    fix ev t assume "calm (add_mset x T) P I L ({} \<union> set_option buf) t"
    then show "yields (case (None, ev, t) of (f, ev, s) \<Rightarrow> (case f of
        None \<Rightarrow> andThen (incoming_done (Some x) buf ev s) (\<lambda>s. Inr (None, s))
      | Some f \<Rightarrow> Inr (Some f, s))) (served T P I L)"
      by (auto intro!: yields_bind yields_incoming_done [where T = T] yields_Inr calm_servedI)
  qed
next
  case False
  have s': "calm (T + holds pobj) P I L ({} \<union> set_option buf) s"
    using s by (rule calm_more) simp
  have "yields (andThen (incoming_done pobj buf ev s) (\<lambda>s. Inr (None, s))) (served T P I L)"
    by (intro yields_bind yields_incoming_done [OF s'] yields_Inr calm_servedI)
  then show ?thesis using False
    by (auto simp: ORBit_POAObject_invoke_incoming_request_def split: option.split)
qed

lemma yields_dispatch:
  assumes s: "calm (add_mset x T) P I L {} s"
    and here: "Q ((Some x, Some b), s)"
    and queued: "\<And>l t. calm (T + pushed_refs l) P I (L @ l) {} t \<Longrightarrow> Q ((None, None), t)"
  shows "yields (dispatch_request h r x b s) Q"
proof -
  have push: "Q ((None, None), push_request k (Some x) (Some b) s)" for k
    by (rule queued [of "[(k, Some x, Some b)]"]) (use calm_push_request [OF s] in simp)
  have push2: "Q ((None, None), push_request k' None None (push_request k (Some x) (Some b) s))" for k k'
    by (rule queued [of "[(k, Some x, Some b), (k', None, None)]"])
      (use calm_push_request [OF calm_push_request [OF s]] in simp)
  have pool: "yields (pool_push_request_for_T k (Some x) (Some b) s) (\<lambda>s. yields (Inr ((None, None), s)) Q)"
    for k
    unfolding pool_push_request_for_T_def
    by (intro yields_bind yields_assert yields_Inr push)
  have oneway: "yields (poa_recv_is_oneway h x b s) (\<lambda>oneway. yields
      (if oneway \<or> \<not> thread_safe s
       then Inr ((None, None), push_request Idle_queue (Some x) (Some b) s)
       else Inr ((None, None), push_request Idle_queue None None
              (push_request Main_queue (Some x) (Some b) s))) Q)"
    by (rule yieldsI) (auto intro!: yields_Inr push push2)
  show ?thesis
    unfolding dispatch_request_def Let_def
  proof (rule yields_bind, rule yields_deref, rule yields_bind, rule yields_deref)
    fix p req
    show "yields (case p_thread (poa_policies p) of
       ORB_CTRL_MODEL \<Rightarrow> (case poa_thread_hint p of
         HINT_NONE \<Rightarrow> if thread_io s then Inr ((None, None), push_request Main_queue (Some x) (Some b) s)
                     else Inr ((Some x, Some b), s)
       | HINT_PER_OBJECT \<Rightarrow> andThen (pool_push_request_for_T (Some x) (Some x) (Some b) s)
            (\<lambda>s. Inr ((None, None), s))
       | HINT_PER_REQUEST \<Rightarrow> andThen (pool_push_request_for_T None (Some x) (Some b) s)
            (\<lambda>s. Inr ((None, None), s))
       | HINT_PER_POA \<Rightarrow> andThen (pool_push_request_for_T (Some r) (Some x) (Some b) s)
            (\<lambda>s. Inr ((None, None), s))
       | HINT_PER_CONNECTION \<Rightarrow>
           andThen (g_assert (thread_io s) s) (\<lambda>s. Inr ((None, None),
             push_request (Connection_queue (req_connection req)) (Some x) (Some b) s))
       | HINT_ONEWAY_AT_IDLE \<Rightarrow>
           andThen (poa_recv_is_oneway h x b s) (\<lambda>oneway.
           if oneway \<or> \<not> thread_safe s
           then Inr ((None, None), push_request Idle_queue (Some x) (Some b) s)
           else Inr ((None, None), push_request Idle_queue None None
                  (push_request Main_queue (Some x) (Some b) s)))
       | HINT_ALL_AT_IDLE \<Rightarrow> Inr ((None, None), push_request Idle_queue (Some x) (Some b) s)
       | HINT_ON_CONTEXT \<Rightarrow> Inr ((None, None), push_request Idle_queue (Some x) (Some b) s))
     | SINGLE_THREAD_MODEL \<Rightarrow>
         if thread_io s then Inr ((None, None), push_request Main_queue (Some x) (Some b) s)
         else Inr ((Some x, Some b), s)) Q"
      by (auto split: thread_policy.split thread_hint.split
          intro!: yields_bind yields_Inr here push yields_assert pool oneway)
  qed
qed

lemma yields_poa_request:
  assumes s: "calm T P I L {} s" and I: "length I + 1 < 2 ^ 16"
    and key: "\<And>p. poas s r = Some p \<Longrightarrow> request_processing p = USE_ACTIVE_OBJECT_MAP_ONLY \<or>
      drop ORBIT_ADAPTOR_PREFIX_LEN objkey \<in> fst ` set (oid_to_obj_map p)"
  shows "yields (ORBit_POA_handle_request h r b objkey s) (served T P I L)"
proof -
  have refuse: "yields (andThen (POA_UNLOCK r t) (ORBit_POAObject_invoke_incoming_request h None
                         (Some b) (Some ex_CORBA_OBJECT_NOT_EXIST))) (served T P I L)"
    if "calm T P I L {} t" for t
    by (rule yields_bind, rule yields_POA_UNLOCK [OF that]) (rule yields_invoke_incoming; use I in simp)
  have go: "yields (andThen (dispatch_request h r x b t) (\<lambda>((pobj, buf), s).
      andThen (POA_UNLOCK r s) (ORBit_POAObject_invoke_incoming_request h pobj buf None))) (served T P I L)"
    if t: "calm (add_mset x T) P I L {} t" for x t
  proof -
    have here: "yields (ORBit_POAObject_invoke_incoming_request h (Some x) (Some b) None u) (served T P I L)"
      if "calm (add_mset x T) P I L {} u" for u
      by (rule yields_invoke_incoming) (use that I in simp_all)
    have away: "yields (ORBit_POAObject_invoke_incoming_request h None None None v) (served T P I L)"
      if "calm (T + pushed_refs l) P I (L @ l) {} v" for v l
      unfolding ORBit_POAObject_invoke_incoming_request_def
      by (auto intro!: yields_bind yields_incoming_done [where U = "{}"] yields_Inr that
          simp: served_def started_def)
    show ?thesis
      by (rule yields_bind, rule yields_dispatch [OF t])
        (auto intro!: yields_bind yields_POA_UNLOCK [OF t] here, auto intro!: yields_bind
          elim!: yields_POA_UNLOCK intro: away)
  qed
  show ?thesis
    unfolding ORBit_POA_handle_request_def ORBit_POA_object_key_lookup_T_def Let_def
  proof (rule yields_bind, rule yields_POA_LOCK [OF s], rule yields_bind, rule yields_bind,
      rule yields_lookup, assumption)
    fix t p assume "aside s t" "poas t r = Some p"
      "drop ORBIT_ADAPTOR_PREFIX_LEN objkey \<notin> fst ` set (oid_to_obj_map p)" "calm T P I L {} t"
    then show "yields (case (None, t) of (p, s) \<Rightarrow>
        Inr (drop ORBIT_ADAPTOR_PREFIX_LEN objkey, p, s)) (\<lambda>x. yields (case x of (oid, found, s) \<Rightarrow>
      andThen (deref (poas s) r) (\<lambda>p. case found of
        None \<Rightarrow> (case request_processing p of
          USE_ACTIVE_OBJECT_MAP_ONLY \<Rightarrow> andThen (POA_UNLOCK r s)
            (ORBit_POAObject_invoke_incoming_request h None (Some b) (Some ex_CORBA_OBJECT_NOT_EXIST))
        | _ \<Rightarrow> andThen (ORBit_POA_create_object_T h r (Some oid) s) (\<lambda>(o', s).
            andThen (dispatch_request h r o' b s) (\<lambda>((pobj, buf), s).
            andThen (POA_UNLOCK r s) (ORBit_POAObject_invoke_incoming_request h pobj buf None))))
      | Some o' \<Rightarrow> andThen (dispatch_request h r o' b s) (\<lambda>((pobj, buf), s).
            andThen (POA_UNLOCK r s) (ORBit_POAObject_invoke_incoming_request h pobj buf None)))) (served T P I L))"
      using key [of p] aside_stores [of s t] refuse
      by (auto intro!: yields_Inr yields_bind yields_deref)
  next
    fix x t assume "calm (add_mset x T) P I L {} t"
    then show "yields (case (Some x, t) of (p, s) \<Rightarrow>
        Inr (drop ORBIT_ADAPTOR_PREFIX_LEN objkey, p, s)) (\<lambda>x. yields (case x of (oid, found, s) \<Rightarrow>
      andThen (deref (poas s) r) (\<lambda>p. case found of
        None \<Rightarrow> (case request_processing p of
          USE_ACTIVE_OBJECT_MAP_ONLY \<Rightarrow> andThen (POA_UNLOCK r s)
            (ORBit_POAObject_invoke_incoming_request h None (Some b) (Some ex_CORBA_OBJECT_NOT_EXIST))
        | _ \<Rightarrow> andThen (ORBit_POA_create_object_T h r (Some oid) s) (\<lambda>(o', s).
            andThen (dispatch_request h r o' b s) (\<lambda>((pobj, buf), s).
            andThen (POA_UNLOCK r s) (ORBit_POAObject_invoke_incoming_request h pobj buf None))))
      | Some o' \<Rightarrow> andThen (dispatch_request h r o' b s) (\<lambda>((pobj, buf), s).
            andThen (POA_UNLOCK r s) (ORBit_POAObject_invoke_incoming_request h pobj buf None)))) (served T P I L))"
      by (simp, intro yields_Inr) (auto intro!: yields_bind [where r = "deref _ _"] yields_deref go)
  qed
qed

lemma yields_adaptor_find:
  assumes s: "calm T P I L U s"
    and none: "Q (None, s)"
    and some: "\<And>r i p t. i < length (adaptors s) \<Longrightarrow> adaptors s ! i = Some r \<Longrightarrow> poas s r = Some p \<Longrightarrow>
      dup_poa r s = Inr t \<Longrightarrow> calm T (add_mset r P) I L U t \<Longrightarrow> Q (Some r, t)"
  shows "yields (ORBit_adaptor_find objkey s) Q"
proof (rule yieldsI)
  fix res assume run: "ORBit_adaptor_find objkey s = Inr res"
  show "Q res"
  proof (cases "fst res")
    case None
    then have "res = (None, s)" using run
      by (auto simp: ORBit_adaptor_find_def Let_def andThen_eq_Inr split: option.splits if_splits)
    then show ?thesis using none by simp
  next
    case (Some r)
    define i where "i = key_adaptor_id (the objkey)"
    have "i \<ge> 0" "nat i < length (adaptors s)" "adaptors s ! nat i = Some r" "dup_poa r s = Inr (snd res)"
      using run Some
      by (auto simp: ORBit_adaptor_find_def Let_def i_def andThen_eq_Inr split: option.splits if_splits)
    moreover from this(4) obtain p where "poas s r = Some p" by (auto simp: dup_poa_def andThen_eq_Inr)
    ultimately have "Q (Some r, snd res)" using some calm_dup_poa [OF _ s] by blast
    then show ?thesis using Some by (cases res) simp
  qed
qed

lemma yields_forw_bind:
  assumes "calm T P I L U s" "\<And>a t. calm T P I L U t \<Longrightarrow> Q (a, t)"
  shows "yields (ORBit_forw_bind_find objkey s) Q"
proof -
  have "calm T P I L U (s\<lparr>forw_binds := f\<rparr>)" for f
    using assms(1) by (simp add: calm_def quiet_def dangling_def)
  then show ?thesis
    using assms unfolding ORBit_forw_bind_find_def Let_def
    by (auto split: option.split intro!: yields_Inr yields_bind yields_deref)
qed

text \<open>
  The hypothesis on the key: the POA handles requests for the objects it
  knows, or for no others.
\<close>

definition answerable :: "nat \<Rightarrow> orb \<Rightarrow> bool" where
  "answerable b s \<longleftrightarrow> (\<forall>req key r p. buffers s b = Some req \<longrightarrow> req_objkey req = Some key \<longrightarrow>
     Some r \<in> set (adaptors s) \<longrightarrow> poas s r = Some p \<longrightarrow>
     request_processing p = USE_ACTIVE_OBJECT_MAP_ONLY \<or>
     drop ORBIT_ADAPTOR_PREFIX_LEN key \<in> fst ` set (oid_to_obj_map p))"

lemma yields_orb_request:
  assumes s: "calm T P I L {} s" and I: "length I + 1 < 2 ^ 16" and b: "answerable b s"
  shows "yields (ORBit_handle_request h b s) (started T P I L)"
  unfolding ORBit_handle_request_def
proof (rule yields_bind, rule yields_deref, rule yields_bind, rule yields_adaptor_find [OF s])
  fix req assume req: "buffers s b = Some req"
  have s1: "calm T P I L {b} t" if "calm T P I L {} t" for t by (rule calm_more [OF that]) simp
  show "yields (case (None, s) of (adaptor, s) \<Rightarrow> (case adaptor of
      None \<Rightarrow> andThen (ORBit_forw_bind_find (req_objkey req) s) (\<lambda>(forw, s). case forw of
          None \<Rightarrow> andThen (ORBit_recv_buffer_return_sys_exception (Some b) ex_CORBA_OBJECT_NOT_EXIST s)
             (\<lambda>s. Inr (None, s))
        | Some obj \<Rightarrow> andThen (giop_recv_buffer_unuse (Some b) (log_event (Forward_reply b obj) s))
             (\<lambda>s. Inr (None, s)))
    | Some r \<Rightarrow> andThen (nonnull (req_objkey req)) (\<lambda>key.
        andThen (ORBit_POA_handle_request h r b key s) (\<lambda>(f, s). case f of
          None \<Rightarrow> andThen (release_poa r s) (\<lambda>s. Inr (None, s))
        | Some f \<Rightarrow> Inr (Some (f\<lparr>fr_adaptor := Some r\<rparr>), s))))) (started T P I L)"
    by (auto split: option.split intro!: yields_bind yields_forw_bind [OF s] yields_Inr
        yields_sys_exception yields_unuse [of T P I L b "{}"] calm_startedI s1)
next
  fix req i r p t
  assume req: "buffers s b = Some req" and i: "i < length (adaptors s)" "adaptors s ! i = Some r"
    and p: "poas s r = Some p" and d: "dup_poa r s = Inr t" and t: "calm T (add_mset r P) I L {} t"
  have P: "poas t r = Some (p\<lparr>poa_refs := poa_refs p + 1\<rparr>)"
    using d p by (auto simp: dup_poa_def run_simps)
  have "Some r \<in> set (adaptors s)" using i by (metis nth_mem)
  then have key: "req_objkey req = Some key \<Longrightarrow> request_processing p = USE_ACTIVE_OBJECT_MAP_ONLY \<or>
     drop ORBIT_ADAPTOR_PREFIX_LEN key \<in> fst ` set (oid_to_obj_map p)" for key
    using b req p unfolding answerable_def by blast
  show "yields (case (Some r, t) of (adaptor, s) \<Rightarrow> (case adaptor of
      None \<Rightarrow> andThen (ORBit_forw_bind_find (req_objkey req) s) (\<lambda>(forw, s). case forw of
          None \<Rightarrow> andThen (ORBit_recv_buffer_return_sys_exception (Some b) ex_CORBA_OBJECT_NOT_EXIST s)
             (\<lambda>s. Inr (None, s))
        | Some obj \<Rightarrow> andThen (giop_recv_buffer_unuse (Some b) (log_event (Forward_reply b obj) s))
             (\<lambda>s. Inr (None, s)))
    | Some r \<Rightarrow> andThen (nonnull (req_objkey req)) (\<lambda>key.
        andThen (ORBit_POA_handle_request h r b key s) (\<lambda>(f, s). case f of
          None \<Rightarrow> andThen (release_poa r s) (\<lambda>s. Inr (None, s))
        | Some f \<Rightarrow> Inr (Some (f\<lparr>fr_adaptor := Some r\<rparr>), s))))) (started T P I L)"
    unfolding prod.case option.case
  proof (rule yields_bind, rule yields_nonnull, rule yields_bind, rule yieldsI)
    fix key res
    assume k: "req_objkey req = Some key" and run: "ORBit_POA_handle_request h r b key t = Inr res"
    have "served T (add_mset r P) I L res"
      by (rule yieldsD [OF yields_poa_request [OF t I] run])
        (use P key [OF k] in \<open>simp add: request_processing_def\<close>)
    then show "yields (case res of (f, s) \<Rightarrow> (case f of
          None \<Rightarrow> andThen (release_poa r s) (\<lambda>s. Inr (None, s))
        | Some f \<Rightarrow> Inr (Some (f\<lparr>fr_adaptor := Some r\<rparr>), s))) (started T P I L)"
      by (cases "fst res"; cases res)
        (auto simp: served_def started_def frame_refs_def frame_poas_def intro!: yields_bind yields_Inr
          elim!: yields_release_poa)
  qed
qed

lemma calm_pushed: "calm T P I L U s \<Longrightarrow> pushed s = L"
  by (simp add: calm_def)

lemma pushed_refs_take:
  assumes "i < length L"
  shows "pushed_refs L = pushed_refs (take i L @ drop (Suc i) L) + holds (fst (snd (L ! i)))"
proof -
  obtain k x b where e: "L ! i = (k, x, b)" by (cases "L ! i")
  have "pushed_refs L = pushed_refs (take i L @ L ! i # drop (Suc i) L)"
    using id_take_nth_drop [OF assms] by simp
  then show ?thesis by (simp add: e)
qed

lemma yields_run_pushed:
  assumes s: "calm (T + pushed_refs L) P I L {} s" and I: "length I + 1 < 2 ^ 16"
  shows "yields (run_pushed h i s) (\<lambda>res. \<exists>L'. served (T + pushed_refs L') P I L' res)"
proof (cases "i < length L")
  case True
  let ?L = "take i L @ drop (Suc i) L"
  obtain k x b where e: "L ! i = (k, x, b)" by (cases "L ! i")
  have "calm (T + pushed_refs L) P I ?L {} (s\<lparr>pushed := ?L\<rparr>)"
    using s by (simp add: calm_def quiet_def dangling_def)
  then have "calm (T + pushed_refs ?L + holds x) P I ?L {} (s\<lparr>pushed := ?L\<rparr>)"
    using pushed_refs_take [OF True] e by (simp add: add.assoc)
  from yields_invoke_incoming [OF this I]
  have "yields (run_pushed h i s) (served (T + pushed_refs ?L) P I ?L)"
    using True e calm_pushed [OF s] by (simp add: run_pushed_def del: pushed_refs_simps)
  then show ?thesis unfolding yields_def by blast
next
  case False
  then show ?thesis
    using s calm_pushed [OF s]
    by (auto simp: run_pushed_def yields_def simp del: pushed_refs_simps
        intro!: exI [of _ L] calm_servedI)
qed

lemma yields_release_adaptor:
  "calm T (P + holds r) I L U s \<Longrightarrow> (\<And>t. calm T P I L U t \<Longrightarrow> Q t) \<Longrightarrow> yields (release_opt release_poa r s) Q"
  by (cases r) (auto simp: release_opt_def intro: yields_Inr yields_release_poa)

lemma yields_return:
  assumes s: "calm (T + frame_refs f) (P + frame_poas f) I L {} s" and x: "fr_pobj f \<in> set I"
  shows "yields (return_from_method h f s) (calm T P (remove1 (fr_pobj f) I) L {})"
proof -
  have s': "calm (T + frame_refs f) (add_mset (fr_poa f) (P + holds (fr_adaptor f))) I L {} s"
    using s by (simp add: frame_poas_def)
  show ?thesis
    unfolding return_from_method_def
  proof (rule yields_bind, rule yields_request_end [OF s' x], rule yields_bind)
    fix t assume t: "calm (T + frame_refs f) (P + holds (fr_adaptor f)) (remove1 (fr_pobj f) I) L {} t"
    show "yields (case fr_buffer f of None \<Rightarrow> Inr t | Some b \<Rightarrow> incoming_done (Some (fr_pobj f)) (Some b) None t)
      (\<lambda>s. yields (release_opt release_poa (fr_adaptor f) s) (calm T P (remove1 (fr_pobj f) I) L {}))"
    proof (cases "fr_buffer f")
      case None
      then show ?thesis using t
        by (auto simp: frame_refs_def intro!: yields_Inr yields_release_adaptor)
    next
      case (Some b)
      have "calm (T + holds (Some (fr_pobj f))) (P + holds (fr_adaptor f)) (remove1 (fr_pobj f) I) L
          ({} \<union> set_option (Some b)) t"
        using t Some by (auto simp: frame_refs_def intro: calm_more)
      then show ?thesis unfolding Some option.case
        by (rule yields_incoming_done) (erule yields_release_adaptor, assumption)
    qed
  qed
qed

lemma yields_local_request:
  assumes s: "calm T P I L {} s" and I: "length I + 1 < 2 ^ 16"
  shows "yields (ORBit_POAObject_handle_request h x opname None s)
    (\<lambda>(f, ev, t). served T P I L (f, t))"
  by (rule yields_handle_request [OF s I])
    (auto simp: served_def started_def frame_refs_def frame_poas_def intro!: exI [of _ "[]"])

lemma yields_locate_request:
  assumes s: "calm T P I L {} s"
  shows "yields (ORBit_handle_locate_request b s) (calm T P I L {})"
proof -
  have b: "calm T P I L {b} s" by (rule calm_more [OF s]) simp
  show ?thesis
    unfolding ORBit_handle_locate_request_def Let_def
    by (auto simp: release_opt_def intro!: yields_bind yields_deref yields_adaptor_find [OF b] yields_Inr
        yields_release_poa [where T = T and P = P and I = I and L = L and U = "{b}"]
        yields_unuse [where T = T and P = P and I = I and L = L and U = "{}"] b)
qed

end
