(* ===== verification/Poa_Operations.thy ===== *)
theory Poa_Operations
imports Poa_Served
begin

text \<open>
  The invariant through the operations of PortableServer::POA, of its manager and
  of PortableServer::Current, by the rules of Poa_Calls and Poa_Served.
\<close>

section \<open>Activation\<close>

lemma new_key_absent:
  "poas s r = Some p \<Longrightarrow> oid \<notin> fst ` set (oid_to_obj_map p) \<Longrightarrow> new_key h r (Some oid) s"
  by (simp add: new_key_def)

lemma activate_object_with_id_calm:
  assumes "calm T P I L U s"
  shows "yields (PortableServer_POA_activate_object_with_id h poa oid sv s) (\<lambda>x. calm T P I L U (snd x))"
  unfolding PortableServer_POA_activate_object_with_id_def
  by (insert assms) (rule code_rules calm_rules | assumption | simp add: new_key_absent)+

lemma deactivate_object_calm:
  assumes "calm T P I L U s"
  shows "yields (PortableServer_POA_deactivate_object h poa oid s) (\<lambda>x. calm T P I L U (snd x))"
  unfolding PortableServer_POA_deactivate_object_def
  by (insert assms) (rule code_rules calm_rules | assumption | simp)+

section \<open>References, servants and ids\<close>

lemma create_reference_calm:
  assumes "calm T P I L U s" "\<And>r. poa = Some r \<Longrightarrow> new_key h r None s"
  shows "yields (PortableServer_POA_create_reference h poa intf s) (\<lambda>x. calm T P I L U (snd x))"
  unfolding PortableServer_POA_create_reference_def
  by (insert assms) (rule code_rules calm_rules | assumption | simp add: new_key_aside)+

lemma create_reference_with_id_calm:
  assumes "calm T P I L U s"
  shows "yields (PortableServer_POA_create_reference_with_id h poa oid intf s) (\<lambda>x. calm T P I L U (snd x))"
  unfolding PortableServer_POA_create_reference_with_id_def
  by (insert assms) (rule code_rules calm_rules | assumption | simp add: new_key_absent)+

lemma yields_stack_objid:
  "(\<And>oid. Q oid) \<Longrightarrow> yields (ORBit_POA_invocation_stack_lookup_objid sv s) Q"
  by (simp add: yields_def)

lemma yields_stack_objref:
  assumes "calm T P I L U s" "\<And>b t. calm T P I L U t \<Longrightarrow> Q (b, t)"
  shows "yields (ORBit_POA_invocation_stack_lookup_objref h r sv s) Q"
proof -
  have "yields (stack_lookup_objref h r sv s l found) Q" for l found
    using assms(1)
  proof (induction l arbitrary: s found)
    case Nil
    then show ?case using assms(2) by (simp add: yields_def)
  next
    case (Cons x l)
    then show ?case
      by (auto intro!: yields_bind yields_deref yields_obj_to_ref)
  qed
  then show ?thesis by (simp add: ORBit_POA_invocation_stack_lookup_objref_def)
qed

lemma servant_to_reference_calm:
  assumes "calm T P I L U s" "\<And>r. poa = Some r \<Longrightarrow> new_key h r None s"
  shows "yields (PortableServer_POA_servant_to_reference h poa sv s) (\<lambda>x. calm T P I L U (snd x))"
  unfolding PortableServer_POA_servant_to_reference_def
  by (insert assms) (rule code_rules calm_rules yields_stack_objref | assumption | simp add: new_key_aside)+

lemma servant_to_id_calm:
  assumes "calm T P I L U s" "\<And>r. poa = Some r \<Longrightarrow> new_key h r None s"
  shows "yields (PortableServer_POA_servant_to_id h poa sv s) (\<lambda>x. calm T P I L U (snd x))"
  unfolding PortableServer_POA_servant_to_id_def
  by (insert assms) (rule code_rules calm_rules yields_stack_objid | assumption | simp add: new_key_aside)+

lemma reference_to_servant_calm:
  assumes "calm T P I L U s"
  shows "yields (PortableServer_POA_reference_to_servant poa ref s) (\<lambda>x. calm T P I L U (snd x))"
  unfolding PortableServer_POA_reference_to_servant_def
  by (insert assms) (rule code_rules calm_rules | assumption | simp)+

lemma reference_to_id_calm:
  assumes "calm T P I L U s"
  shows "yields (PortableServer_POA_reference_to_id poa ref s) (\<lambda>x. calm T P I L U (snd x))"
  unfolding PortableServer_POA_reference_to_id_def
  by (insert assms) (rule code_rules calm_rules | assumption | simp)+

lemma id_to_servant_calm:
  assumes "calm T P I L U s"
  shows "yields (PortableServer_POA_id_to_servant poa oid s) (\<lambda>x. calm T P I L U (snd x))"
  unfolding PortableServer_POA_id_to_servant_def
  by (insert assms) (rule code_rules calm_rules | assumption | simp)+

lemma id_to_reference_calm:
  assumes "calm T P I L U s"
  shows "yields (PortableServer_POA_id_to_reference h poa oid s) (\<lambda>x. calm T P I L U (snd x))"
  unfolding PortableServer_POA_id_to_reference_def
  by (insert assms) (rule code_rules calm_rules | assumption | simp)+

section \<open>Default servants and servant managers\<close>

text \<open>Updates of a POA that the invariant does not read.\<close>

lemma calm_set_poa:
  assumes s: "calm T P I L U s" and p: "poas s r = Some p"
    and same: "\<And>p. oid_to_obj_map (f p) = oid_to_obj_map p" "\<And>p. parent_poa (f p) = parent_poa p"
      "\<And>p. poa_id (f p) = poa_id p" "\<And>p. adaptor_key (f p) = adaptor_key p"
      "\<And>p. servant_manager (f p) = servant_manager p" "\<And>p. poa_life (f p) = poa_life p"
      "\<And>p. poa_refs (f p) = poa_refs p" "\<And>p. held_requests (f p) = held_requests p"
  shows "calm T P I L U (set_poa r f s)"
proof -
  have c: "sound T P s" "quiet s" "dangling U s" using s by (simp_all add: calm_def)
  have "held P s" using c(1) by (simp add: sound_def)
  then have "held P (s\<lparr>poas := (poas s)(r \<mapsto> f p)\<rparr>)"
    by (rule held_poa_update [OF _ p]) (simp_all add: same)
  then have "sound T P (s\<lparr>poas := (poas s)(r \<mapsto> f p)\<rparr>)"
    by (intro sound_poa_update [OF c(1) p]) (simp_all add: same)
  moreover have "quiet (s\<lparr>poas := (poas s)(r \<mapsto> f p)\<rparr>)"
    using c(2) p by (auto simp: quiet_def same)
  moreover have "dangling U (s\<lparr>poas := (poas s)(r \<mapsto> f p)\<rparr>)"
    using c(3) p by (auto simp: dangling_def same)
  ultimately show ?thesis using s p by (simp add: calm_def heap_simps)
qed

lemma calm_shift:
  assumes s: "calm T P I L U s" and v: "servants s m = Some v"
  shows "calm T P I L U (set_servant m (\<lambda>v. v\<lparr>vepv_shift := vepv_shift v + 1\<rparr>) s)"
proof -
  let ?t = "s\<lparr>servants := (servants s)(m \<mapsto> v\<lparr>vepv_shift := vepv_shift v + 1\<rparr>)\<rparr>"
  have s': "sound T P s" using s by (simp add: calm_def)
  have "chained ?t" unfolding chained_def
  proof (intro conjI allI impI)
    fix sv w assume "servants ?t sv = Some w"
    then obtain w' where "servants s sv = Some w'" "sv_private w' = sv_private w"
      using v by (cases "sv = m") auto
    then show "\<exists>xs. chain (pobjs ?t) (sv_private w) xs \<and> distinct xs \<and> set xs = incarnated ?t sv"
      using s' unfolding sound_def chained_def incarnated_def by fastforce
  next
    fix x q sv assume "pobjs ?t x = Some q" "po_servant q = Some sv"
    then have "servants s sv \<noteq> None" using s' unfolding sound_def chained_def by simp
    then show "servants ?t sv \<noteq> None" by simp
  qed
  moreover have "displaced ?t"
    using s' v unfolding sound_def displaced_def by fastforce
  ultimately have "sound T P ?t"
    using s' unfolding sound_def
    by (simp add: counted_def mapped_def in_map_def map_entry_def used_def referenced_def held_def
        objects_of_def children_of_def listed_def fresh_above_def)
  then show ?thesis using s v by (simp add: calm_def quiet_def dangling_def heap_simps)
qed

lemma set_servant_calm:
  assumes "calm T P I L U s"
  shows "yields (PortableServer_POA_set_servant poa sv s) (\<lambda>x. calm T P I L U (snd x))"
  unfolding PortableServer_POA_set_servant_def
  by (insert assms) (rule code_rules | assumption | simp add: calm_set_poa)+

lemma get_servant_calm:
  assumes "calm T P I L U s"
  shows "yields (PortableServer_POA_get_servant poa s) (\<lambda>x. calm T P I L U (snd x))"
  unfolding PortableServer_POA_get_servant_def
  by (insert assms) (rule code_rules | assumption | simp)+

lemma get_servant_manager_calm:
  assumes "calm T P I L U s"
  shows "yields (PortableServer_POA_get_servant_manager poa s) (\<lambda>x. calm T P I L U (snd x))"
  unfolding PortableServer_POA_get_servant_manager_def
  by (insert assms) (rule code_rules | assumption | simp add: calm_shift [simplified])+

lemma calm_set_manager:
  assumes s: "calm T P I L U s" and p: "poas s r = Some p" and m: "servants s m = Some v" "0 < vepv_shift v"
  shows "calm T P I L U (set_poa r (\<lambda>p. p\<lparr>servant_manager := Some m\<rparr>) s)"
proof -
  let ?p = "p\<lparr>servant_manager := Some m\<rparr>"
  let ?t = "s\<lparr>poas := (poas s)(r \<mapsto> ?p)\<rparr>"
  have c: "sound T P s" "quiet s" "dangling U s" using s by (simp_all add: calm_def)
  have h: "held P s" using c(1) by (simp add: sound_def)
  have "held P ?t" by (rule held_poa_update [OF h p]) simp_all
  moreover have "mapped ?t"
  proof (rule mappedI)
    have mp: "mapped s" using c(1) by (simp add: sound_def)
    show "in_map ?t x q" if "pobjs ?t x = Some q" for x q
      using mappedD(1) [OF mp, of x q] that p by (auto simp: in_map_def)
    show "map_entry ?t r' p' oid x" if "poas ?t r' = Some p'" "(oid, x) \<in> set (oid_to_obj_map p')" for r' p' oid x
      using mappedD(2) [OF mp, of r' "if r' = r then p else p'" oid x] that p
      by (auto simp: map_entry_def split: if_splits)
    show "distinct (map fst (oid_to_obj_map p'))" if "poas ?t r' = Some p'" for r' p'
      using mappedD(3) [OF mp] that p by (cases "r' = r") auto
    show "Deactivated \<in> poa_life p' \<and> Deactivating \<notin> poa_life p'"
      if "poas ?t r' = Some p'" "Destroyed \<in> poa_life p'" for r' p'
      using mappedD(4) [OF mp] that p by (cases "r' = r") auto
  qed
  moreover have "displaced ?t" using c(1) p m unfolding sound_def displaced_def by auto
  moreover have "listed ?t" using c(1) p unfolding sound_def listed_def by auto
  moreover have "fresh_above ?t" using c(1) p unfolding sound_def fresh_above_def by auto
  ultimately have "sound T P ?t"
    using c(1) unfolding sound_def
    by (simp add: counted_def chained_def incarnated_def used_def referenced_def)
  moreover have "quiet ?t" "dangling U ?t" using c p by (auto simp: quiet_def dangling_def)
  ultimately show ?thesis using s p by (simp add: calm_def heap_simps)
qed

lemma set_servant_manager_calm:
  assumes s: "calm T P I L U s"
  shows "yields (PortableServer_POA_set_servant_manager poa manager s) (\<lambda>x. calm T P I L U (snd x))"
proof -
  have ok: "calm T P I L U (set_poa r (\<lambda>p. p\<lparr>servant_manager := Some m\<rparr>)
                 (set_servant m (\<lambda>v. v\<lparr>vepv_shift := Suc (vepv_shift v)\<rparr>) s))"
    if "poas s r = Some p" "servants s m = Some v" for r p m v
    by (rule calm_set_manager [OF calm_shift [OF s that(2), simplified],
          where v = "v\<lparr>vepv_shift := vepv_shift v + 1\<rparr>"])
      (use that in \<open>simp_all add: set_servant_def\<close>)
  show ?thesis
    unfolding PortableServer_POA_set_servant_manager_def
    by (insert s) (rule code_rules | assumption | simp add: ok)+
qed

section \<open>The tree of POAs\<close>

text \<open>The references to POAs that a result hands to the caller.\<close>

definition given :: "('a \<Rightarrow> nat multiset) \<Rightarrow> corba_exception + 'a \<Rightarrow> nat multiset" where
  "given f res = (case res of Inl _ \<Rightarrow> {#} | Inr x \<Rightarrow> f x)"

lemma given_simps [simp]: "given f (Inl ev) = {#}" "given f (Inr x) = f x"
  by (simp_all add: given_def)

lemma find_POA_calm:
  assumes "calm T P I L U s"
  shows "yields (PortableServer_POA_find_POA poa name act s)
    (\<lambda>(res, t). calm T (P + given (\<lambda>r. {#r#}) res) I L U t)"
  unfolding PortableServer_POA_find_POA_def
  by (insert assms) (rule code_rules yields_dup_poa | assumption | simp)+

lemma get_the_parent_calm:
  assumes "calm T P I L U s"
  shows "yields (PortableServer_POA__get_the_parent poa s)
    (\<lambda>(res, t). calm T (P + given holds res) I L U t)"
  unfolding PortableServer_POA__get_the_parent_def
  by (insert assms) (rule code_rules yields_dup_poa | assumption | simp)+

lemma yields_dup_all:
  assumes "calm T P I L U s" "\<And>t. calm T (P + mset rs) I L U t \<Longrightarrow> Q t"
  shows "yields (dup_all rs s) Q"
  using assms
proof (induction rs arbitrary: P s)
  case Nil
  then show ?case by (simp add: yields_def)
next
  case (Cons r rs)
  have "yields (dup_all rs t) Q" if "calm T (add_mset r P) I L U t" for t
    by (rule Cons.IH [OF that]) (use Cons.prems(2) in simp)
  then show ?case using Cons.prems(1) by (auto intro!: yields_bind yields_dup_poa)
qed

lemma get_the_children_calm:
  assumes "calm T P I L U s"
  shows "yields (PortableServer_POA__get_the_children poa s)
    (\<lambda>(res, t). calm T (P + given mset res) I L U t)"
  unfolding PortableServer_POA__get_the_children_def
  by (insert assms) (rule code_rules yields_dup_all | assumption | simp)+

lemma get_the_name_calm:
  assumes "calm T P I L U s"
  shows "yields (PortableServer_POA__get_the_name poa s) (\<lambda>x. calm T P I L U (snd x))"
  unfolding PortableServer_POA__get_the_name_def
  by (insert assms) (rule code_rules | assumption | simp)+

lemma Current_get_POA_calm:
  assumes "calm T P I L U s"
  shows "yields (PortableServer_Current_get_POA obj s)
    (\<lambda>(res, t). calm T (P + given (\<lambda>r. {#r#}) res) I L U t)"
  unfolding PortableServer_Current_get_POA_def
  by (insert assms) (rule code_rules yields_dup_poa | assumption | simp)+

lemma Current_get_object_id_calm:
  assumes "calm T P I L U s"
  shows "yields (PortableServer_Current_get_object_id obj s) (\<lambda>x. calm T P I L U (snd x))"
  unfolding PortableServer_Current_get_object_id_def
  by (insert assms) (rule code_rules | assumption | simp)+

section \<open>Managers\<close>

lemma calm_managers:
  assumes "calm T P I L U s" "\<And>m. ms m \<noteq> None \<Longrightarrow> managers s m \<noteq> None"
  shows "calm T P I L U (s\<lparr>managers := ms\<rparr>)"
  using assms sound_managers [of T P s ms] by (simp add: calm_def quiet_def dangling_def)

lemma calm_set_manager_live:
  assumes "calm T P I L U s"
  shows "calm T P I L U (set_manager m f s)"
  unfolding set_manager_def by (rule calm_managers [OF assms]) (auto split: if_splits)

lemma yields_mutex_lock:
  "calm T P I L U s \<Longrightarrow> (\<And>t. aside s t \<Longrightarrow> calm T P I L U t \<Longrightarrow> Q t) \<Longrightarrow> yields (mutex_lock l s) Q"
  by (rule yieldsI) (auto simp: mutex_lock_def calm_aside [OF aside_locked] split: if_splits)

lemma yields_mutex_unlock:
  "calm T P I L U s \<Longrightarrow> (\<And>t. aside s t \<Longrightarrow> calm T P I L U t \<Longrightarrow> Q t) \<Longrightarrow> yields (mutex_unlock l s) Q"
  by (rule yieldsI) (auto simp: mutex_unlock_def calm_aside [OF aside_locked] split: if_splits)

lemma yields_dup_manager:
  "calm T P I L U s \<Longrightarrow> (\<And>t. calm T P I L U t \<Longrightarrow> Q t) \<Longrightarrow> yields (dup_manager m s) Q"
  by (rule yieldsI) (auto simp: dup_manager_def andThen_eq_Inr dest: calm_set_manager_live)

lemma get_the_POAManager_calm:
  assumes "calm T P I L U s"
  shows "yields (PortableServer_POA__get_the_POAManager poa s) (\<lambda>x. calm T P I L U (snd x))"
  unfolding PortableServer_POA__get_the_POAManager_def
  by (insert assms) (rule code_rules yields_dup_manager | assumption | simp)+

lemma set_manager_state_calm:
  assumes "calm T P I L U s"
  shows "yields (set_manager_state st manager s) (\<lambda>x. calm T P I L U (snd x))"
proof -
  have "yields (mutex_unlock l (set_manager m f t)) (\<lambda>u. yields (Inr (ev, u)) (\<lambda>x. calm T P I L U (snd x)))"
    if "calm T P I L U t" for l m f t and ev :: "corba_exception option"
    by (rule yields_mutex_unlock [OF calm_set_manager_live [OF that]]) (simp add: yields_Inr)
  moreover have "yields (mutex_unlock l t) (\<lambda>u. yields (Inr (ev, u)) (\<lambda>x. calm T P I L U (snd x)))"
    if "calm T P I L U t" for l t and ev :: "corba_exception option"
    by (rule yields_mutex_unlock [OF that]) (simp add: yields_Inr)
  ultimately show ?thesis
    using assms unfolding set_manager_state_def Let_def
    by (auto split: option.split intro!: yields_Inr yields_bind yields_deref yields_mutex_lock [OF assms])
qed

text \<open>A held request cannot be replayed: its buffer has been freed.\<close>

lemma held_requests_gone:
  assumes "calm T P I L {} s"
  shows "yields (ORBit_POA_handle_held_requests h r s) (calm T P I L {})"
proof (rule yieldsI)
  fix t assume run: "ORBit_POA_handle_held_requests h r s = Inr t"
  then obtain p where p: "poas s r = Some p"
    by (auto simp: ORBit_POA_handle_held_requests_def andThen_eq_Inr)
  show "calm T P I L {} t"
  proof (cases "held_requests p")
    case Nil
    then have "p\<lparr>held_requests := []\<rparr> = p" by (cases p) simp
    then have "s\<lparr>poas := (poas s)(r \<mapsto> p\<lparr>held_requests := []\<rparr>)\<rparr> = s"
      using p by (simp add: fun_upd_idem)
    then have "t = s" using run p Nil
      by (simp add: ORBit_POA_handle_held_requests_def andThen_eq_Inr heap_simps)
    then show ?thesis using assms by simp
  next
    case (Cons b bs)
    then have "buffers s b = None" using assms p by (auto simp: calm_def dangling_def)
    then show ?thesis using run p Cons
      by (auto simp: ORBit_POA_handle_held_requests_def handle_request_at_once_def
          ORBit_handle_request_def andThen_eq_Inr heap_simps)
  qed
qed

lemma activate_collection_calm:
  assumes "calm T P I L {} s"
  shows "yields (activate_collection h rs s) (calm T P I L {})"
proof -
  have "yields (foldl (\<lambda>st r. andThen st (ORBit_POA_handle_held_requests h r)) st rs) (calm T P I L {})"
    if "yields st (calm T P I L {})" for st
    using that
  proof (induction rs arbitrary: st)
    case (Cons r rs)
    have "yields (andThen st (ORBit_POA_handle_held_requests h r)) (calm T P I L {})"
      using Cons.prems held_requests_gone [of T P I L _ h r]
      unfolding yields_def andThen_eq_Inr by blast
    then show ?case using Cons.IH by simp
  qed simp
  then show ?thesis using assms by (simp add: activate_collection_def yields_Inr)
qed

lemma manager_activate_calm:
  assumes "calm T P I L {} s"
  shows "yields (PortableServer_POAManager_activate h manager s) (\<lambda>x. calm T P I L {} (snd x))"
proof -
  have run: "yields (activate_collection h rs (set_manager m f t)) Q"
    if "calm T P I L {} t" "\<And>u. calm T P I L {} u \<Longrightarrow> Q u" for rs m f t Q
    using activate_collection_calm [OF calm_set_manager_live [OF that(1)]] that(2)
    by (auto simp: yields_def)
  show ?thesis
    unfolding PortableServer_POAManager_activate_def
    by (insert assms) (rule code_rules yields_mutex_lock yields_mutex_unlock run | assumption | simp)+
qed

end
