(* ===== verification/Poa_Trees.thy ===== *)
theory Poa_Trees
imports Poa_Operations
begin

text \<open>
  The invariant through the creation of a POA: a new POA is listed in the table
  of adaptors under the number its key begins with, and holds its parent.
\<close>

text \<open>What ORBit_genuid_buffer is called for, and a table of fewer than 2 ^ 31 adaptors.\<close>

definition room :: "hooks \<Rightarrow> orb \<Rightarrow> bool" where
  "room h s \<longleftrightarrow> (\<forall>r. length (genuid_cookie h r) = ORBIT_ADAPTOR_KEY_LEN) \<and>
     length (adaptors s) < 2 ^ 31"

lemma key_of_number:
  "n < 2 ^ 31 \<Longrightarrow> key_adaptor_id (le32 (word_of_nat n) @ bs) = int n"
  "n < 2 ^ 31 \<Longrightarrow> sint (word_of_nat n :: u32) = int n"
  by (simp_all add: key_adaptor_id_def of_le32_append signed_of_nat signed_take_bit_int_eq_self take_bit_nat_eq_self)

text \<open>A structure with a new number.\<close>

lemma calm_next_ref:
  assumes "calm T P I L U s" "next_ref s \<le> n"
  shows "calm T P I L U (s\<lparr>next_ref := n\<rparr>)"
proof -
  have "sound T P (s\<lparr>next_ref := n\<rparr>)"
    using assms by (auto simp: calm_def sound_unfold)
  moreover have "dangling U (s\<lparr>next_ref := n\<rparr>)"
    using assms unfolding calm_def dangling_def by fastforce
  ultimately show ?thesis using assms(1) by (simp add: calm_def quiet_def)
qed

lemma calm_new_manager:
  assumes "calm T P I L U s"
  shows "calm T P I L U (s\<lparr>managers := (managers s)(next_ref s \<mapsto> m), next_ref := next_ref s + 1\<rparr>)"
proof -
  have "sound T P (s\<lparr>managers := (managers s)(next_ref s \<mapsto> m), next_ref := next_ref s + 1\<rparr>)"
    using assms by (auto simp: calm_def sound_unfold)
  moreover have "dangling U (s\<lparr>managers := (managers s)(next_ref s \<mapsto> m), next_ref := next_ref s + 1\<rparr>)"
    using assms unfolding calm_def dangling_def by fastforce
  ultimately show ?thesis using assms(1) by (simp add: calm_def quiet_def)
qed

definition blank :: "POA \<Rightarrow> bool" where
  "blank p \<longleftrightarrow> poa_refs p = 2 \<and> poa_life p = {} \<and> parent_poa p = None \<and> servant_manager p = None \<and>
     oid_to_obj_map p = [] \<and> held_requests p = []"

lemma new_poa_sound:
  assumes s: "sound T P s" and p: "blank p" "poa_id p = int (length (adaptors s))"
      "length (adaptor_key p) = ORBIT_ADAPTOR_PREFIX_LEN" "key_adaptor_id (adaptor_key p) = poa_id p"
    and r: "r = next_ref s"
  shows "sound T (add_mset r P) (s\<lparr>next_ref := r + 1, orb_refs := n,
    adaptors := adaptors s @ [Some r], poas := (poas s)(r \<mapsto> p)\<rparr>)"
    (is "sound _ _ ?t")
proof -
  have parts: "counted T s" "mapped s" "chained s" "used s" "referenced s" "held P s" "listed s"
    "displaced s" "fresh_above s" using s by (simp_all add: sound_def)
  have new: "poas s r = None" "pobjs s r = None" using parts(9) r by (simp_all add: fresh_above_def)
  have away: "po_poa q \<noteq> r" if "pobjs s x = Some q" for x q
    using mappedD(1) [OF parts(2) that] new by (auto simp: in_map_def)
  have orphan: "parent_poa q \<noteq> Some r" if "poas s c = Some q" for c q
    using parts(6) new that unfolding held_def by blast
  have "counted T ?t" using parts(1) by (simp add: counted_def)
  moreover have "mapped ?t"
  proof (rule mappedI)
    show "in_map ?t x q" if "pobjs ?t x = Some q" for x q
      using mappedD(1) [OF parts(2), of x q] away [of x q] that by (auto simp: in_map_def)
    show "map_entry ?t r' p' oid x" if "poas ?t r' = Some p'" "(oid, x) \<in> set (oid_to_obj_map p')" for r' p' oid x
      using mappedD(2) [OF parts(2), of r' p' oid x] that p(1)
      by (auto simp: map_entry_def blank_def split: if_splits)
    show "distinct (map fst (oid_to_obj_map p'))" if "poas ?t r' = Some p'" for r' p'
      using mappedD(3) [OF parts(2)] that p(1) by (cases "r' = r") (auto simp: blank_def)
    show "Deactivated \<in> poa_life p' \<and> Deactivating \<notin> poa_life p'"
      if "poas ?t r' = Some p'" "Destroyed \<in> poa_life p'" for r' p'
      using mappedD(4) [OF parts(2)] that p(1) by (cases "r' = r") (auto simp: blank_def)
  qed
  moreover have "chained ?t" "used ?t" "referenced ?t"
    using parts(3-5) by (simp_all add: chained_def incarnated_def used_def referenced_def)
  moreover have "held (add_mset r P) ?t"
  proof -
    have objs: "objects_of ?t x = (if x = r then {} else objects_of s x)" for x
      using away by (auto simp: objects_of_def)
    have kids: "children_of ?t x = (if x = r then {} else children_of s x)" for x
      using new p(1) orphan by (auto simp: children_of_def blank_def)
    have P: "count P r = 0" using parts(6) new by (auto simp: held_def count_eq_zero_iff)
    show ?thesis
      unfolding held_def objs kids
    proof (intro conjI allI impI)
      fix x q assume "poas ?t x = Some q"
      then show "of_bool (Destroyed \<notin> poa_life q) + card (if x = r then {} else objects_of s x) +
          card (if x = r then {} else children_of s x) + count (add_mset r P) x \<le> poa_refs q"
        using parts(6) p(1) P by (cases "x = r") (auto simp: held_def blank_def)
    next
      show "poas ?t x \<noteq> None" if "x \<in># add_mset r P" for x
        using parts(6) that by (auto simp: held_def)
      show "poas ?t x \<noteq> None" if "poas ?t c = Some q" "parent_poa q = Some x" for c q x
        using parts(6) p(1) that unfolding held_def blank_def by (cases "c = r") auto
    qed
  qed
  moreover have "listed ?t"
    unfolding listed_def
  proof (intro conjI allI impI)
    fix i x assume i: "i < length (adaptors ?t)" "adaptors ?t ! i = Some x"
    show "\<exists>q. poas ?t x = Some q \<and> poa_id q = int i \<and> Destroyed \<notin> poa_life q"
    proof (cases "i = length (adaptors s)")
      case True
      then show ?thesis using i p by (simp add: blank_def)
    next
      case False
      then have "i < length (adaptors s)" "adaptors s ! i = Some x" using i by (auto simp: nth_append)
      then obtain q where "poas s x = Some q" "poa_id q = int i" "Destroyed \<notin> poa_life q"
        using parts(7) unfolding listed_def by blast
      moreover have "x \<noteq> r" using \<open>poas s x = Some q\<close> new by auto
      ultimately show ?thesis by simp
    qed
  next
    fix x q assume q: "poas ?t x = Some q" "Destroyed \<notin> poa_life q"
    have k: "0 \<le> poa_id q \<and> nat (poa_id q) < length (adaptors s) \<and> adaptors s ! nat (poa_id q) = Some x \<and>
       length (adaptor_key q) = ORBIT_ADAPTOR_PREFIX_LEN \<and> key_adaptor_id (adaptor_key q) = poa_id q"
      if "x \<noteq> r" using parts(7) q that unfolding listed_def by simp
    show "0 \<le> poa_id q" "nat (poa_id q) < length (adaptors ?t)" "adaptors ?t ! nat (poa_id q) = Some x"
      "length (adaptor_key q) = ORBIT_ADAPTOR_PREFIX_LEN" "key_adaptor_id (adaptor_key q) = poa_id q"
      using k q(1) p by (cases "x = r"; simp add: nth_append)+
  qed
  moreover have "displaced ?t" using parts(8) p(1) by (auto simp: displaced_def blank_def)
  moreover have "fresh_above ?t" using parts(9) r by (auto simp: fresh_above_def)
  ultimately show ?thesis by (simp add: sound_def)
qed

lemma calm_new_poa:
  assumes s: "calm T P I L U s" and p: "blank p" "poa_id p = int (length (adaptors s))"
      "length (adaptor_key p) = ORBIT_ADAPTOR_PREFIX_LEN" "key_adaptor_id (adaptor_key p) = poa_id p"
    and r: "r = next_ref s"
  shows "calm T (add_mset r P) I L U (s\<lparr>next_ref := r + 1, orb_refs := n,
    adaptors := adaptors s @ [Some r], poas := (poas s)(r \<mapsto> p)\<rparr>)"
    (is "calm _ _ _ _ _ ?t")
proof -
  have "sound T (add_mset r P) ?t" using s by (intro new_poa_sound p r) (simp add: calm_def)
  moreover have "quiet ?t" using s p(1) by (auto simp: calm_def quiet_def blank_def)
  moreover have "dangling U s" using s by (simp add: calm_def)
  then have "dangling U ?t"
    using p(1) r by (fastforce simp: dangling_def blank_def)
  ultimately show ?thesis using s by (simp add: calm_def)
qed

text \<open>A POA that is linked to its parent.\<close>

lemma link_child_calm:
  assumes s: "calm T (add_mset r P) I L U s" and c: "poas s c = Some pc" "parent_poa pc = None"
    and r: "r \<noteq> c"
  shows "calm T P I L U (set_poa r (\<lambda>p. p\<lparr>child_poas := f p\<rparr>)
    (set_poa c (\<lambda>p. p\<lparr>parent_poa := Some r\<rparr>) s))"
proof -
  have s': "sound T (add_mset r P) s" "quiet s" "dangling U s" using s by (simp_all add: calm_def)
  then have parts: "counted T s" "mapped s" "chained s" "used s" "referenced s"
    "held (add_mset r P) s" "listed s" "displaced s" "fresh_above s" by (simp_all add: sound_def)
  then obtain p where p: "poas s r = Some p" unfolding held_def by fastforce
  let ?c = "pc\<lparr>parent_poa := Some r\<rparr>" and ?p = "p\<lparr>child_poas := f p\<rparr>"
  let ?t = "s\<lparr>poas := (poas s)(c \<mapsto> ?c, r \<mapsto> ?p)\<rparr>"
  have same: "\<exists>q'. poas s x = Some q' \<and> poa_refs q = poa_refs q' \<and> poa_life q = poa_life q' \<and>
      oid_to_obj_map q = oid_to_obj_map q' \<and> poa_id q = poa_id q' \<and> adaptor_key q = adaptor_key q' \<and>
      servant_manager q = servant_manager q' \<and> held_requests q = held_requests q' \<and>
      parent_poa q = (if x = c then Some r else parent_poa q')" if "poas ?t x = Some q" for x q
    using that c p r by (auto split: if_splits)
  have live: "(poas ?t x = None) = (poas s x = None)" for x using c p by auto
  have "mapped ?t"
  proof (rule mappedI)
    show "in_map ?t x q" if "pobjs ?t x = Some q" for x q
      using mappedD(1) [OF parts(2), of x q] that c p r by (auto simp: in_map_def)
    show "map_entry ?t r' p' oid x" if e: "poas ?t r' = Some p'" "(oid, x) \<in> set (oid_to_obj_map p')" for r' p' oid x
    proof -
      obtain q' where "poas s r' = Some q'" "oid_to_obj_map p' = oid_to_obj_map q'" "poa_life p' = poa_life q'"
        using same [OF e(1)] by blast
      moreover from this(3) have "map_entry ?t r' p' oid x = map_entry s r' q' oid x"
        by (simp add: map_entry_def)
      ultimately show ?thesis using mappedD(2) [OF parts(2), of r' q' oid x] e(2) by simp
    qed
    show "distinct (map fst (oid_to_obj_map p'))" if "poas ?t r' = Some p'" for r' p'
      using mappedD(3) [OF parts(2)] same [OF that] by force
    show "Deactivated \<in> poa_life p' \<and> Deactivating \<notin> poa_life p'"
      if "poas ?t r' = Some p'" "Destroyed \<in> poa_life p'" for r' p'
      using mappedD(4) [OF parts(2)] same [OF that(1)] that(2) by force
  qed
  moreover have "counted T ?t" "chained ?t" "used ?t" "referenced ?t"
    using parts(1,3-5) by (simp_all add: counted_def chained_def incarnated_def used_def referenced_def)
  moreover have "held P ?t"
  proof -
    have objs: "objects_of ?t x = objects_of s x" for x by (simp add: objects_of_def)
    have kids: "children_of ?t x = (if x = r then insert c (children_of s r) else children_of s x)" for x
      using c p r by (auto simp: children_of_def)
    have "c \<notin> children_of s r" using c by (simp add: children_of_def)
    then have card: "card (insert c (children_of s r)) = Suc (card (children_of s r))"
      using finite_children_of [OF parts(9)] by simp
    show ?thesis
      unfolding held_def objs
    proof (intro conjI allI impI)
      fix x q assume q: "poas ?t x = Some q"
      obtain q' where q': "poas s x = Some q'" "poa_refs q = poa_refs q'" "poa_life q = poa_life q'"
        using same [OF q] by blast
      have "of_bool (Destroyed \<notin> poa_life q') + card (objects_of s x) + card (children_of s x) +
          count (add_mset r P) x \<le> poa_refs q'" using parts(6) q'(1) unfolding held_def by blast
      then show "of_bool (Destroyed \<notin> poa_life q) + card (objects_of s x) + card (children_of ?t x) +
          count P x \<le> poa_refs q"
        unfolding kids using q' card by (auto split: if_splits)
    next
      show "poas ?t x \<noteq> None" if "x \<in># P" for x
        using parts(6) that live [of x] unfolding held_def by simp
      show "poas ?t x \<noteq> None" if "poas ?t k = Some q" "parent_poa q = Some x" for k q x
        using parts(6) same [OF that(1)] that(2) live [of x] p unfolding held_def by (metis option.inject option.distinct(1))
    qed
  qed
  moreover have "listed ?t"
  proof -
    have "\<exists>q. poas ?t x = Some q \<and> poa_id q = int i \<and> Destroyed \<notin> poa_life q"
      if i: "i < length (adaptors s)" "adaptors s ! i = Some x" for i x
    proof -
      obtain q where "poas s x = Some q" "poa_id q = int i" "Destroyed \<notin> poa_life q"
        using parts(7) i unfolding listed_def by blast
      then show ?thesis using c p r by (cases "x = c"; cases "x = r") simp_all
    qed
    moreover have "0 \<le> poa_id q \<and> nat (poa_id q) < length (adaptors s) \<and> adaptors s ! nat (poa_id q) = Some x \<and>
       length (adaptor_key q) = ORBIT_ADAPTOR_PREFIX_LEN \<and> key_adaptor_id (adaptor_key q) = poa_id q"
      if "poas ?t x = Some q" "Destroyed \<notin> poa_life q" for x q
      using same [OF that(1)] that(2) parts(7) unfolding listed_def by metis
    ultimately show ?thesis unfolding listed_def by simp
  qed
  moreover have "displaced ?t"
    unfolding displaced_def
  proof (intro allI impI)
    fix x q sm assume "poas ?t x = Some q" "servant_manager q = Some sm"
    then show "\<exists>v. servants ?t sm = Some v \<and> 0 < vepv_shift v"
      using same parts(8) unfolding displaced_def by fastforce
  qed
  moreover have "fresh_above ?t" using parts(9) c p by (auto simp: fresh_above_def)
  ultimately have "sound T P ?t" by (simp add: sound_def)
  moreover have "quiet ?t" "dangling U ?t"
    using s'(2,3) c p r unfolding quiet_def dangling_def by (auto split: if_splits)
  ultimately show ?thesis using s c p r by (simp add: calm_def heap_simps)
qed

section \<open>Creation\<close>

lemma yields_register:
  assumes "calm T P I L U s" "\<And>t. calm T P I L U t \<Longrightarrow> poas t = poas s \<Longrightarrow> Q t"
  shows "yields (ORBit_POAManager_register_poa m r s) Q"
proof (rule yieldsI)
  fix t assume run: "ORBit_POAManager_register_poa m r s = Inr t"
  obtain t1 where 1: "mutex_lock Manager_lock s = Inr t1" and
    2: "mutex_unlock Manager_lock
       (set_manager m (\<lambda>mgr. mgr\<lparr>poa_collection := poa_collection mgr @ [r]\<rparr>) t1) = Inr t"
    using run by (auto simp: ORBit_POAManager_register_poa_def andThen_eq_Inr)
  have "calm T P I L U t1 \<and> poas t1 = poas s"
    by (rule yieldsD [OF yields_mutex_lock [OF assms(1)] 1]) (simp add: aside_stores)
  then have c: "calm T P I L U (set_manager m (\<lambda>mgr. mgr\<lparr>poa_collection := poa_collection mgr @ [r]\<rparr>) t1)"
    and p: "poas t1 = poas s" by (simp_all add: calm_set_manager_live)
  have "calm T P I L U t \<and> poas t = poas t1"
    by (rule yieldsD [OF yields_mutex_unlock [OF c] 2])
      (simp add: aside_stores set_manager_def)
  then show "Q t" using assms(2) p by simp
qed

lemma yields_POA_new:
  assumes s: "calm T P I L U s" and h: "room h s"
    and bad: "\<And>ev. Q (Inl ev, s)"
    and new: "\<And>n p t. poas s n = None \<Longrightarrow> poas t n = Some p \<Longrightarrow> parent_poa p = None \<Longrightarrow>
      calm T (add_mset n P) I L U t \<Longrightarrow> Q (Inr n, t)"
  shows "yields (ORBit_POA_new h name manager ps s) Q"
proof (cases "ORBit_POA_set_policies ps")
  case (Inl ev)
  then show ?thesis using bad by (simp add: ORBit_POA_new_def yields_def)
next
  case (Inr pol)
  define m where "m = (case manager of Some m \<Rightarrow> m | None \<Rightarrow> next_ref s)"
  define u where "u = (case manager of Some m \<Rightarrow> s | None \<Rightarrow>
    s\<lparr>managers := (managers s)(next_ref s \<mapsto> \<lparr>mgr_refs = 0, poa_collection = [], mgr_state = HOLDING\<rparr>),
      next_ref := next_ref s + 1\<rparr>)"
  have u: "calm T P I L U u" "poas u = poas s" "adaptors u = adaptors s" "next_ref s \<le> next_ref u"
    using calm_new_manager [OF s] s by (auto simp: u_def split: option.splits)
  define r where "r = next_ref u"
  define p where "p = \<lparr>poa_refs = 2, adaptor_key = le32 (word_of_nat (length (adaptors s))) @ genuid_cookie h r,
       poa_thread_hint = HINT_NONE, poa_use_cnt = 0, poa_life = {},
       poa_id = sint (word_of_nat (length (adaptors s)) :: u32), next_sysid = 0, poa_name = name,
       parent_poa = None, poa_manager = m, servant_manager = None,
       default_servant = None, oid_to_obj_map = [], held_requests = [],
       child_poas = [], poa_policies = pol\<rparr>"
  define v where "v = u\<lparr>next_ref := r + 1, orb_refs := orb_refs u + 1,
    adaptors := adaptors u @ [Some r], poas := (poas u)(r \<mapsto> p)\<rparr>"
  have n: "length (adaptors s) < 2 ^ 31" "length (genuid_cookie h r) = ORBIT_ADAPTOR_KEY_LEN"
    using h by (simp_all add: room_def)
  have v: "calm T (add_mset r P) I L U v"
    unfolding v_def
    by (rule calm_new_poa [OF u(1)]) (use n u in \<open>simp_all add: blank_def p_def key_of_number r_def\<close>)
  have fresh: "poas s r = None"
    using s u(4) by (simp add: calm_def sound_def fresh_above_def r_def)
  have "ORBit_POA_new h name manager ps s = andThen (dup_manager m v) (\<lambda>s.
          andThen (ORBit_POAManager_register_poa m r s) (\<lambda>s. Inr (Inr r, s)))"
    using Inr
    by (cases manager)
      (simp_all add: ORBit_POA_new_def ORBit_POAManager_new_def ORBit_adaptor_setup_def Let_def
        m_def u_def r_def p_def v_def)
  moreover have "yields (andThen (dup_manager m v) (\<lambda>s.
          andThen (ORBit_POAManager_register_poa m r s) (\<lambda>s. Inr (Inr r, s)))) Q"
  proof (rule yields_bind, rule yieldsI)
    fix w assume w: "dup_manager m v = Inr w"
    have "calm T (add_mset r P) I L U w" by (rule yieldsD [OF yields_dup_manager [OF v] w])
    moreover have "poas w r = Some p"
      using w by (auto simp: dup_manager_def andThen_eq_Inr set_manager_def v_def)
    ultimately show "yields (andThen (ORBit_POAManager_register_poa m r w) (\<lambda>s. Inr (Inr r, s))) Q"
      by (auto intro!: yields_bind yields_register yields_Inr new [of r _ p] fresh simp: p_def)
  qed
  ultimately show ?thesis by simp
qed

lemma add_child_calm:
  assumes s: "calm T P I L U s" and c: "poas s c = Some pc" "parent_poa pc = None" and r: "r \<noteq> c"
    and Q: "\<And>t. calm T P I L U t \<Longrightarrow> Q t"
  shows "yields (ORBit_POA_add_child r (Some c) s) Q"
  unfolding ORBit_POA_add_child_def option.case
proof (rule yields_bind, rule yieldsI)
  fix t assume d: "dup_poa r s = Inr t"
  have "poas t c = Some pc" using d c(1) r by (auto simp: dup_poa_def run_simps)
  with link_child_calm [OF calm_dup_poa [OF d s] this c(2) r] Q
  show "yields (andThen (deref (poas t) c) (\<lambda>pc.
     Inr (set_poa r (\<lambda>p. p\<lparr>child_poas := AList.update (poa_name pc) c (child_poas p)\<rparr>)
          (set_poa c (\<lambda>p. p\<lparr>parent_poa := Some r\<rparr>) t)))) Q"
    by (auto intro!: yields_bind yields_deref yields_Inr)
qed

lemma add_no_child: "ORBit_POA_add_child r None s = Inr s"
  by (simp add: ORBit_POA_add_child_def)

lemma create_POA_calm:
  assumes s: "calm T P I L U s" and h: "room h s"
  shows "yields (PortableServer_POA_create_POA h poa name manager ps s)
    (\<lambda>(res, t). calm T (P + given (\<lambda>r. {#r#}) res) I L U t)"
proof -
  have "yields (andThen (ORBit_POA_new h n manager pols s) (\<lambda>(res, s). case res of
           Inl ev \<Rightarrow> andThen (ORBit_POA_add_child r None s) (raise_ex ev)
         | Inr n \<Rightarrow> andThen (ORBit_POA_add_child r (Some n) s) (returns n)))
      (\<lambda>(res, t). calm T (P + given (\<lambda>r. {#r#}) res) I L U t)"
    if r: "poas s r = Some p" for n pols r p
    by (rule yields_bind, rule yields_POA_new [OF s h])
      (use r s in \<open>auto simp: add_no_child intro!: yields_raise
        yields_bind add_child_calm yields_returns\<close>)
  then show ?thesis using s
    unfolding PortableServer_POA_create_POA_def
    by (auto split: option.split intro!: yields_raise yields_bind yields_deref)
qed

text \<open>The first POA of an ORB.\<close>

definition first_orb :: orb where
  "first_orb = \<lparr>poas = (\<lambda>_. None), pobjs = (\<lambda>_. None), managers = (\<lambda>_. None),
     objrefs = (\<lambda>_. None), servants = (\<lambda>_. None), buffers = (\<lambda>_. None), next_ref = 0,
     orb_refs = 1, adaptors = [], forw_binds = (\<lambda>_. None), current_invocations = [],
     pushed = [], locked = {}, thread_safe = False, thread_io = False, events = []\<rparr>"

lemma first_orb_calm: "calm {#} {#} [] [] {} (first_orb\<lparr>thread_safe := a, thread_io := b\<rparr>)"
  by (simp add: first_orb_def calm_def sound_unfold quiet_def dangling_def)

end
