(* ===== verification/Poa_Steps.thy ===== *)
theory Poa_Steps
imports Poa_Trees
begin

text \<open>
  The adaptor at work: application code calls operations, messages arrive,
  methods run and return in any order, threads take requests from the queues.
  A configuration is the state of the ORB, the methods that are running, and
  the references to POAs the application holds. The invariant of every
  reachable configuration is proved by induction over the steps.

  Not among the steps are the destruction of a POA, the deactivation of a manager
  (both are modelled in \<open>Poa_Adaptors\<close> and \<open>Poa_Interface\<close>), and a message that
  makes an object for a default servant or a servant manager: the code releases
  such an object once too often, and the count of references is wrong from then
  on (\<open>default_servant_request_ends_the_process\<close> in \<open>Poa_Family\<close>).
\<close>

section \<open>Calls of the application\<close>

datatype call =
    Setup_root
  | Create_POA "nat option" "string option" "nat option" "policy list option"
  | Find_POA "nat option" "string option" bool
  | Get_the_parent "nat option"
  | Get_the_children "nat option"
  | Get_the_POAManager "nat option"
  | Set_servant_manager "nat option" "nat option"
  | Get_servant_manager "nat option"
  | Get_servant "nat option"
  | Set_servant "nat option" "nat option"
  | Activate_object "nat option" "nat option"
  | Activate_object_with_id "nat option" "oid option" "nat option"
  | Deactivate_object "nat option" "oid option"
  | Create_reference "nat option" "string option"
  | Create_reference_with_id "nat option" "oid option" "string option"
  | Servant_to_id "nat option" "nat option"
  | Servant_to_reference "nat option" "nat option"
  | Reference_to_servant "nat option" "nat option"
  | Reference_to_id "nat option" "nat option"
  | Id_to_servant "nat option" "oid option"
  | Id_to_reference "nat option" "oid option"
  | Current_get_POA bool
  | Current_get_object_id bool
  | Manager_activate "nat option"
  | Manager_hold "nat option" bool
  | Manager_discard "nat option" bool
  | Duplicate nat
  | Release nat

text \<open>The state after a call, and the references to POAs it has handed out.\<close>

definition outcome ::
    "('a \<Rightarrow> nat multiset) \<Rightarrow> ((corba_exception + 'a) \<times> orb) run \<Rightarrow> (nat multiset \<times> orb) run" where
  "outcome f r = andThen r (\<lambda>(res, t). Inr (given f res, t))"

definition plain :: "('a \<times> orb) run \<Rightarrow> (nat multiset \<times> orb) run" where
  "plain r = andThen r (\<lambda>(_, t). Inr ({#}, t))"

fun perform :: "hooks \<Rightarrow> call \<Rightarrow> orb \<Rightarrow> (nat multiset \<times> orb) run" where
  "perform h Setup_root s = outcome (\<lambda>r. {#r#}) (ORBit_POA_setup_root h s)"
| "perform h (Create_POA p n m ps) s = outcome (\<lambda>r. {#r#}) (PortableServer_POA_create_POA h p n m ps s)"
| "perform h (Find_POA p n a) s = outcome (\<lambda>r. {#r#}) (PortableServer_POA_find_POA p n a s)"
| "perform h (Get_the_parent p) s = outcome holds (PortableServer_POA__get_the_parent p s)"
| "perform h (Get_the_children p) s = outcome mset (PortableServer_POA__get_the_children p s)"
| "perform h (Get_the_POAManager p) s = plain (PortableServer_POA__get_the_POAManager p s)"
| "perform h (Set_servant_manager p m) s = plain (PortableServer_POA_set_servant_manager p m s)"
| "perform h (Get_servant_manager p) s = plain (PortableServer_POA_get_servant_manager p s)"
| "perform h (Get_servant p) s = plain (PortableServer_POA_get_servant p s)"
| "perform h (Set_servant p sv) s = plain (PortableServer_POA_set_servant p sv s)"
| "perform h (Activate_object p sv) s = plain (PortableServer_POA_activate_object h p sv s)"
| "perform h (Activate_object_with_id p i sv) s = plain (PortableServer_POA_activate_object_with_id h p i sv s)"
| "perform h (Deactivate_object p i) s = plain (PortableServer_POA_deactivate_object h p i s)"
| "perform h (Create_reference p t) s = plain (PortableServer_POA_create_reference h p t s)"
| "perform h (Create_reference_with_id p i t) s = plain (PortableServer_POA_create_reference_with_id h p i t s)"
| "perform h (Servant_to_id p sv) s = plain (PortableServer_POA_servant_to_id h p sv s)"
| "perform h (Servant_to_reference p sv) s = plain (PortableServer_POA_servant_to_reference h p sv s)"
| "perform h (Reference_to_servant p b) s = plain (PortableServer_POA_reference_to_servant p b s)"
| "perform h (Reference_to_id p b) s = plain (PortableServer_POA_reference_to_id p b s)"
| "perform h (Id_to_servant p i) s = plain (PortableServer_POA_id_to_servant p i s)"
| "perform h (Id_to_reference p i) s = plain (PortableServer_POA_id_to_reference h p i s)"
| "perform h (Current_get_POA c) s = outcome (\<lambda>r. {#r#}) (PortableServer_Current_get_POA c s)"
| "perform h (Current_get_object_id c) s = plain (PortableServer_Current_get_object_id c s)"
| "perform h (Manager_activate m) s = plain (PortableServer_POAManager_activate h m s)"
| "perform h (Manager_hold m w) s = plain (PortableServer_POAManager_hold_requests m w s)"
| "perform h (Manager_discard m w) s = plain (PortableServer_POAManager_discard_requests m w s)"
| "perform h (Duplicate b) s = plain (andThen (dup_objref b s) (\<lambda>s. Inr ((), s)))"
| "perform h (Release b) s = plain (andThen (release_objref b s) (\<lambda>s. Inr ((), s)))"

text \<open>
  What the environment provides: the random part of a system id has not been
  drawn before for this POA, and the table of adaptors is not full.
\<close>

fun provided :: "hooks \<Rightarrow> call \<Rightarrow> orb \<Rightarrow> bool" where
  "provided h Setup_root s = room h s"
| "provided h (Create_POA p n m ps) s = room h s"
| "provided h (Activate_object p sv) s = (\<forall>r. p = Some r \<longrightarrow> new_key h r None s)"
| "provided h (Create_reference p t) s = (\<forall>r. p = Some r \<longrightarrow> new_key h r None s)"
| "provided h (Servant_to_id p sv) s = (\<forall>r. p = Some r \<longrightarrow> new_key h r None s)"
| "provided h (Servant_to_reference p sv) s = (\<forall>r. p = Some r \<longrightarrow> new_key h r None s)"
| "provided h _ s = True"

lemma yields_outcome:
  "yields r (\<lambda>(res, t). calm T (P + given f res) I L U t) \<Longrightarrow>
   yields (outcome f r) (\<lambda>(g, t). calm T (P + g) I L U t)"
  by (auto simp: yields_def outcome_def andThen_eq_Inr)

lemma yields_plain:
  "yields r (\<lambda>x. calm T P I L U (snd x)) \<Longrightarrow> yields (plain r) (\<lambda>(g, t). calm T (P + g) I L U t)"
  by (auto simp: yields_def plain_def andThen_eq_Inr)

lemma setup_root_calm:
  assumes "calm T P I L U s" "room h s"
  shows "yields (ORBit_POA_setup_root h s) (\<lambda>(res, t). calm T (P + given (\<lambda>r. {#r#}) res) I L U t)"
  unfolding ORBit_POA_setup_root_def
  by (rule yields_POA_new [OF assms]) (simp_all add: assms)

lemma yields_release_objref:
  "calm T P I L U s \<Longrightarrow> (\<And>t. calm T P I L U t \<Longrightarrow> Q t) \<Longrightarrow> yields (release_objref b s) Q"
  by (rule yieldsI) (blast dest: calm_release_objref)

lemma objref_calm:
  assumes "calm T P I L U s"
  shows "yields (andThen (dup_objref b s) (\<lambda>s. Inr ((), s))) (\<lambda>x. calm T P I L U (snd x))"
    and "yields (andThen (release_objref b s) (\<lambda>s. Inr ((), s))) (\<lambda>x. calm T P I L U (snd x))"
  by (insert assms) (rule code_rules calm_rules yields_release_objref | assumption | simp)+

lemmas operations_calm = create_POA_calm find_POA_calm get_the_parent_calm get_the_children_calm
  get_the_POAManager_calm set_servant_manager_calm get_servant_manager_calm get_servant_calm
  set_servant_calm activate_object_calm activate_object_with_id_calm deactivate_object_calm
  create_reference_calm create_reference_with_id_calm servant_to_id_calm servant_to_reference_calm
  reference_to_servant_calm reference_to_id_calm id_to_servant_calm id_to_reference_calm
  Current_get_POA_calm Current_get_object_id_calm manager_activate_calm objref_calm setup_root_calm
  set_manager_state_calm

lemma perform_calm:
  assumes "calm T P I L {} s" "provided h c s"
  shows "yields (perform h c s) (\<lambda>(g, t). calm T (P + g) I L {} t)"
  using assms
  by (cases c)
    (simp_all add: yields_outcome yields_plain operations_calm
      PortableServer_POAManager_hold_requests_def PortableServer_POAManager_discard_requests_def)

section \<open>Steps\<close>

record config =
  running :: "frame list"
  owned :: "nat multiset"
  orb :: orb

definition idle_room :: "orb \<Rightarrow> bool" where
  "idle_room s \<longleftrightarrow> length (current_invocations s) + 1 < 2 ^ 16"

definition arrived :: "request \<Rightarrow> orb \<Rightarrow> orb" where
  "arrived req s = s\<lparr>next_ref := next_ref s + 1, buffers := (buffers s)(next_ref s \<mapsto> req)\<rparr>"

definition started_frames :: "frame option \<Rightarrow> frame list \<Rightarrow> frame list" where
  "started_frames f fs = (case f of None \<Rightarrow> fs | Some f \<Rightarrow> f # fs)"

inductive step :: "hooks \<Rightarrow> config \<Rightarrow> config \<Rightarrow> bool" for h where
  call: "\<lbrakk>provided h c s; perform h c s = Inr (g, t)\<rbrakk> \<Longrightarrow>
    step h \<lparr>running = fs, owned = P, orb = s\<rparr> \<lparr>running = fs, owned = P + g, orb = t\<rparr>"
| release: "\<lbrakk>r \<in># P; release_poa r s = Inr t\<rbrakk> \<Longrightarrow>
    step h \<lparr>running = fs, owned = P, orb = s\<rparr> \<lparr>running = fs, owned = P - {#r#}, orb = t\<rparr>"
| servant: "servants s sv = None \<Longrightarrow>
    step h \<lparr>running = fs, owned = P, orb = s\<rparr> \<lparr>running = fs, owned = P,
      orb = s\<lparr>servants := (servants s)(sv \<mapsto> \<lparr>sv_private = None, sv_class = k, vepv_shift = 0\<rparr>)\<rparr>\<rparr>"
| message: "\<lbrakk>idle_room s; answerable (next_ref s) (arrived req s);
     ORBit_handle_request h (next_ref s) (arrived req s) = Inr (f, t)\<rbrakk> \<Longrightarrow>
    step h \<lparr>running = fs, owned = P, orb = s\<rparr> \<lparr>running = started_frames f fs, owned = P, orb = t\<rparr>"
| locate: "ORBit_handle_locate_request (next_ref s) (arrived req s) = Inr t \<Longrightarrow>
    step h \<lparr>running = fs, owned = P, orb = s\<rparr> \<lparr>running = fs, owned = P, orb = t\<rparr>"
| local: "\<lbrakk>idle_room s; objrefs s b = Some ref; adaptor_obj ref = Some x;
     ORBit_POAObject_handle_request h x opname None s = Inr (f, ev, t)\<rbrakk> \<Longrightarrow>
    step h \<lparr>running = fs, owned = P, orb = s\<rparr> \<lparr>running = started_frames f fs, owned = P, orb = t\<rparr>"
| queued: "\<lbrakk>idle_room s; run_pushed h i s = Inr (f, t)\<rbrakk> \<Longrightarrow>
    step h \<lparr>running = fs, owned = P, orb = s\<rparr> \<lparr>running = started_frames f fs, owned = P, orb = t\<rparr>"
| return: "\<lbrakk>f \<in> set fs; return_from_method h f s = Inr t\<rbrakk> \<Longrightarrow>
    step h \<lparr>running = fs, owned = P, orb = s\<rparr> \<lparr>running = remove1 f fs, owned = P, orb = t\<rparr>"

inductive reachable :: "hooks \<Rightarrow> config \<Rightarrow> bool" for h where
  start: "reachable h \<lparr>running = [], owned = {#},
    orb = first_orb\<lparr>thread_safe := a, thread_io := b\<rparr>\<rparr>"
| more: "\<lbrakk>reachable h c; step h c d\<rbrakk> \<Longrightarrow> reachable h d"

definition frames_refs :: "frame list \<Rightarrow> nat multiset" where
  "frames_refs fs = sum_list (map frame_refs fs)"

definition frames_poas :: "frame list \<Rightarrow> nat multiset" where
  "frames_poas fs = sum_list (map frame_poas fs)"

definition wellformed :: "config \<Rightarrow> bool" where
  "wellformed c \<longleftrightarrow>
     calm (frames_refs (running c) + pushed_refs (pushed (orb c))) (owned c + frames_poas (running c))
       (current_invocations (orb c)) (pushed (orb c)) {} (orb c) \<and>
     mset (current_invocations (orb c)) = mset (map fr_pobj (running c))"

lemma wellformedI:
  assumes "calm (frames_refs fs + pushed_refs L) (P + frames_poas fs) I L {} s"
    and "mset I = mset (map fr_pobj fs)"
  shows "wellformed \<lparr>running = fs, owned = P, orb = s\<rparr>"
  using assms by (simp add: wellformed_def calm_def)

lemma frames_simps [simp]:
  "frames_refs [] = {#}" "frames_refs (f # fs) = frame_refs f + frames_refs fs"
  "frames_poas [] = {#}" "frames_poas (f # fs) = frame_poas f + frames_poas fs"
  by (simp_all add: frames_refs_def frames_poas_def)

lemma started_wellformed:
  assumes "started (frames_refs fs + pushed_refs L) (P + frames_poas fs) I L (f, t)"
    and "mset I = mset (map fr_pobj fs)"
  shows "wellformed \<lparr>running = started_frames f fs, owned = P, orb = t\<rparr>"
proof (cases f)
  case None
  then obtain l where "calm (frames_refs fs + pushed_refs (L @ l)) (P + frames_poas fs) I (L @ l) {} t"
    using assms(1) by (auto simp: started_def add.assoc)
  then show ?thesis using None assms(2) wellformedI [of fs "L @ l" P I t]
    by (simp add: started_frames_def add.assoc)
next
  case (Some f')
  then have "calm (frames_refs (f' # fs) + pushed_refs L) (P + frames_poas (f' # fs)) (fr_pobj f' # I) L {} t"
    using assms(1) by (simp add: started_def ac_simps)
  then show ?thesis using Some assms(2) by (auto simp: started_frames_def intro: wellformedI)
qed

lemma calm_arrived:
  assumes "calm T P I L {} s"
  shows "calm T P I L {} (arrived req s)"
proof -
  have "dangling {} s" using assms by (simp add: calm_def)
  then have "dangling {} (arrived req s)" unfolding dangling_def arrived_def by fastforce
  moreover have "calm T P I L {} (s\<lparr>next_ref := next_ref s + 1\<rparr>)"
    by (rule calm_next_ref [OF assms]) simp
  ultimately show ?thesis by (simp add: calm_def quiet_def arrived_def)
qed

lemma calm_servant:
  assumes "calm T P I L U s" "servants s sv = None"
  shows "calm T P I L U (s\<lparr>servants := (servants s)(sv \<mapsto> \<lparr>sv_private = None, sv_class = k, vepv_shift = 0\<rparr>)\<rparr>)"
    (is "calm _ _ _ _ _ ?t")
proof -
  have s: "sound T P s" using assms(1) by (simp add: calm_def)
  then have ch: "chained s" and dp: "displaced s" by (simp_all add: sound_def)
  have inc: "incarnated ?t v = incarnated s v" for v by (simp add: incarnated_def)
  have "po_servant q \<noteq> Some sv" if "pobjs s x = Some q" for x q
    using ch assms(2) that unfolding chained_def by blast
  then have "incarnated s sv = {}" by (auto simp: incarnated_def)
  then have "chained ?t"
    using ch unfolding chained_def inc by (auto intro: exI [of _ "[]"])
  moreover have "displaced ?t" using dp assms(2) unfolding displaced_def by fastforce
  ultimately have "sound T P ?t"
    using s by (simp add: sound_def counted_def mapped_def in_map_def map_entry_def used_def referenced_def
        held_def objects_of_def children_of_def listed_def fresh_above_def)
  then show ?thesis using assms(1) by (simp add: calm_def quiet_def dangling_def)
qed

lemma step_wellformed:
  assumes "step h c d" "wellformed c"
  shows "wellformed d"
  using assms
proof (induction rule: step.induct)
  case (call c s g t fs P)
  then have w: "calm (frames_refs fs + pushed_refs (pushed s)) (P + frames_poas fs)
      (current_invocations s) (pushed s) {} s" "mset (current_invocations s) = mset (map fr_pobj fs)"
    by (simp_all add: wellformed_def)
  have "calm (frames_refs fs + pushed_refs (pushed s)) (P + frames_poas fs + g)
      (current_invocations s) (pushed s) {} t"
    using yieldsD [OF perform_calm [OF w(1) call(1)] call(2)] by simp
  then show ?case by (intro wellformedI [where L = "pushed s", OF _ w(2)]) (simp add: ac_simps)
next
  case (release r P s t fs)
  then have w: "calm (frames_refs fs + pushed_refs (pushed s)) (P + frames_poas fs)
      (current_invocations s) (pushed s) {} s" "mset (current_invocations s) = mset (map fr_pobj fs)"
    by (simp_all add: wellformed_def)
  have "P + frames_poas fs = add_mset r (P - {#r#} + frames_poas fs)"
    using release(1) by (metis insert_DiffM union_mset_add_mset_left)
  with w(1) have "calm (frames_refs fs + pushed_refs (pushed s)) (add_mset r (P - {#r#} + frames_poas fs))
      (current_invocations s) (pushed s) {} s" by simp
  from calm_release_poa [OF release(2) this]
  show ?case by (intro wellformedI [where L = "pushed s", OF _ w(2)])
next
  case (servant s sv fs P k)
  then show ?case by (simp add: wellformed_def calm_servant)
next
  case (message s req f t fs P)
  then have w: "calm (frames_refs fs + pushed_refs (pushed s)) (P + frames_poas fs)
      (current_invocations s) (pushed s) {} s" "mset (current_invocations s) = mset (map fr_pobj fs)"
    by (simp_all add: wellformed_def)
  from yieldsD [OF yields_orb_request [OF calm_arrived [OF w(1)] _ message(2)] message(3)] message(1)
  show ?case by (intro started_wellformed [where L = "pushed s", OF _ w(2)]) (simp add: idle_room_def)
next
  case (locate s req t fs P)
  then have w: "calm (frames_refs fs + pushed_refs (pushed s)) (P + frames_poas fs)
      (current_invocations s) (pushed s) {} s" "mset (current_invocations s) = mset (map fr_pobj fs)"
    by (simp_all add: wellformed_def)
  from yieldsD [OF yields_locate_request [OF calm_arrived [OF w(1)]] locate(1)]
  show ?case by (intro wellformedI [where L = "pushed s", OF _ w(2)])
next
  case (local s b ref x opname f ev t fs P)
  then have w: "calm (frames_refs fs + pushed_refs (pushed s)) (P + frames_poas fs)
      (current_invocations s) (pushed s) {} s" "mset (current_invocations s) = mset (map fr_pobj fs)"
    by (simp_all add: wellformed_def)
  from yieldsD [OF yields_local_request [OF w(1)] local(4)] local(1)
  show ?case by (intro started_wellformed [where L = "pushed s", OF _ w(2)]) (simp add: idle_room_def served_def)
next
  case (queued s i f t fs P)
  then have w: "calm (frames_refs fs + pushed_refs (pushed s)) (P + frames_poas fs)
      (current_invocations s) (pushed s) {} s" "mset (current_invocations s) = mset (map fr_pobj fs)"
    by (simp_all add: wellformed_def)
  from yieldsD [OF yields_run_pushed [OF w(1)] queued(2)] queued(1)
  obtain L where "started (frames_refs fs + pushed_refs L) (P + frames_poas fs) (current_invocations s) L (f, t)"
    by (auto simp: idle_room_def served_def)
  then show ?case by (rule started_wellformed [OF _ w(2)])
next
  case (return f fs s t P)
  then have w: "calm (frames_refs fs + pushed_refs (pushed s)) (P + frames_poas fs)
      (current_invocations s) (pushed s) {} s" "mset (current_invocations s) = mset (map fr_pobj fs)"
    by (simp_all add: wellformed_def)
  have f: "frames_refs fs = frames_refs (remove1 f fs) + frame_refs f"
    "frames_poas fs = frames_poas (remove1 f fs) + frame_poas f"
    using return(1) by (simp_all add: frames_refs_def frames_poas_def sum_list_map_remove1 add.commute)
  have x: "fr_pobj f \<in> set (current_invocations s)"
    using return(1) w(2) by (metis (no_types) image_eqI set_map mset_eq_setD)
  have "calm (frames_refs (remove1 f fs) + pushed_refs (pushed s) + frame_refs f)
      (P + frames_poas (remove1 f fs) + frame_poas f) (current_invocations s) (pushed s) {} s"
    using w(1) f by (simp add: ac_simps)
  from yieldsD [OF yields_return [OF this x] return(2)]
  show ?case
  proof (rule wellformedI)
    show "mset (remove1 (fr_pobj f) (current_invocations s)) = mset (map fr_pobj (remove1 f fs))"
      using return(1) w(2) by (simp add: image_mset_Diff)
  qed
qed

lemma reachable_wellformed: "reachable h c \<Longrightarrow> wellformed c"
proof (induction rule: reachable.induct)
  case (start a b)
  then show ?case by (intro wellformedI [where I = "[]" and L = "[]"]) (simp_all add: first_orb_calm)
qed (rule step_wellformed)

section \<open>What the invariant says\<close>

inductive_cases reachable_cases: "reachable h c"

lemma reachable_parts:
  assumes "reachable h c"
  shows "sound (frames_refs (running c) + pushed_refs (pushed (orb c)))
      (owned c + frames_poas (running c)) (orb c)"
    and "quiet (orb c)" and "dangling {} (orb c)"
    and "mset (current_invocations (orb c)) = mset (map fr_pobj (running c))"
  using reachable_wellformed [OF assms] by (simp_all add: wellformed_def calm_def)

definition active :: "orb \<Rightarrow> nat \<Rightarrow> bool" where
  "active s x \<longleftrightarrow> (\<exists>q. pobjs s x = Some q \<and> po_servant q \<noteq> None)"

end
