(* ===== verification/Poa_Sample.thy ===== *)
theory Poa_Sample
imports Poa_Steps
begin

text \<open>
  A concrete run: the root POA with an active manager, a servant, an object it
  incarnates, a reference to it, a method that runs on it, its deactivation
  while the method runs, and the return.
\<close>

definition sample_hooks :: hooks where
  "sample_hooks = \<lparr>impl_finder = (\<lambda>_ _. Some (True, True, False)),
     object_finder = (\<lambda>_. (False, False, False)), incarnate = (\<lambda>_ _. (None, None)),
     preinvoke = (\<lambda>_ _ _. ((None, None), None)), etherealize_raises = (\<lambda>_ _. False),
     finalize = (\<lambda>_. None), class_name = (\<lambda>_. ''Sample''),
     genuid_object = (\<lambda>_. [7, 7, 7, 7]), genuid_cookie = (\<lambda>_. replicate 16 0)\<rparr>"

definition sample_policies :: policies where
  "sample_policies = \<lparr>p_thread = SINGLE_THREAD_MODEL, p_lifespan = TRANSIENT,
     p_id_uniqueness = UNIQUE_ID, p_id_assignment = SYSTEM_ID,
     p_implicit_activation = IMPLICIT_ACTIVATION, p_servant_retention = RETAIN,
     p_request_processing = USE_ACTIVE_OBJECT_MAP_ONLY\<rparr>"

definition sample_poa :: "nat \<Rightarrow> u32 \<Rightarrow> (oid \<times> nat) list \<Rightarrow> POA" where
  "sample_poa n k m = \<lparr>poa_refs = n, adaptor_key = le32 0 @ replicate 16 0,
     poa_thread_hint = HINT_NONE, poa_use_cnt = 0, poa_life = {}, poa_id = 0, next_sysid = k,
     poa_name = ''RootPOA'', parent_poa = None, poa_manager = 0, servant_manager = None,
     default_servant = None, oid_to_obj_map = m, held_requests = [], child_poas = [],
     poa_policies = sample_policies\<rparr>"

definition sample_oid :: oid where
  "sample_oid = le32 1 @ [7, 7, 7, 7]"

definition sample_object :: "nat \<Rightarrow> nat option \<Rightarrow> nat option \<Rightarrow> life_flag set \<Rightarrow> u16 \<Rightarrow> POAObject" where
  "sample_object n b sv fl k = \<lparr>po_refs = n, po_objref = b, po_servant = sv, po_poa = 1,
     po_object_id = Some sample_oid, vepvmap_cache = Some 0, po_life = fl, po_use_cnt = k,
     po_next = None\<rparr>"

definition sample_orb where
  "sample_orb ps os st bs svs n is evs = \<lparr>poas = ps, pobjs = os,
     managers = [0 \<mapsto> \<lparr>mgr_refs = 1, poa_collection = [1], mgr_state = st\<rparr>],
     objrefs = bs, servants = svs, buffers = (\<lambda>_. None), next_ref = n,
     orb_refs = 2, adaptors = [Some 1], forw_binds = (\<lambda>_. None), current_invocations = is,
     pushed = [], locked = {}, thread_safe = False, thread_io = False, events = evs\<rparr>"

definition root_orb where
  "root_orb st svs = sample_orb [1 \<mapsto> sample_poa 2 0 []] (\<lambda>_. None) st (\<lambda>_. None) svs 2 [] []"

definition active_orb where
  "active_orb = sample_orb [1 \<mapsto> sample_poa 3 1 [(sample_oid, 2)]]
     [2 \<mapsto> sample_object 1 None (Some 7) {} 0] ACTIVE (\<lambda>_. None)
     [7 \<mapsto> \<lparr>sv_private = Some 2, sv_class = 0, vepv_shift = 0\<rparr>] 3 [] []"

definition object_orb where
  "object_orb k = (\<lambda>q sv is evs. sample_orb [1 \<mapsto> sample_poa k 1 [(sample_oid, 2)]]
     [2 \<mapsto> q] ACTIVE [3 \<mapsto> \<lparr>ref_refs = 1, type_id = Some ''Sample'', adaptor_obj = Some 2\<rparr>]
     [7 \<mapsto> \<lparr>sv_private = sv, sv_class = 0, vepv_shift = 0\<rparr>] 4 is evs)"

lemmas sample_defs = sample_hooks_def sample_policies_def sample_poa_def sample_oid_def
  sample_object_def sample_orb_def root_orb_def active_orb_def object_orb_def

lemmas run_defs = outcome_def plain_def mutex_lock_def mutex_unlock_def deref_def g_assert_def
  nonnull_def set_manager_def set_poa_def set_pobj_def set_servant_def set_objref_def Let_def
  POA_LOCK_def POA_UNLOCK_def returns_def raise_ex_def dup_poa_def dup_pobj_def dup_manager_def
  dup_objref_def release_poa_def release_pobj_def release_opt_def do_unref_def vepv_of_def
  IS_RETAIN_def IS_SYSTEM_ID_def IS_UNIQUE_ID_def IS_IMPLICIT_ACTIVATION_def request_processing_def
  ORBIT_REFCOUNT_MAX_def

lemma sample_setup:
  "perform sample_hooks Setup_root first_orb = Inr ({#1#}, root_orb HOLDING (\<lambda>_. None))"
  by (simp add: run_defs sample_defs ORBit_POA_setup_root_def ORBit_POA_new_def
      ORBit_POA_set_policies_def default_policies_def ORBit_POAManager_new_def
      ORBit_adaptor_setup_def ORBit_POAManager_register_poa_def first_orb_def)

lemma sample_manager:
  "perform sample_hooks (Manager_activate (Some 0)) (root_orb HOLDING (\<lambda>_. None)) =
   Inr ({#}, root_orb ACTIVE (\<lambda>_. None))"
  by (simp add: run_defs sample_defs PortableServer_POAManager_activate_def activate_collection_def
      ORBit_POA_handle_held_requests_def)

lemma sample_activate:
  "perform sample_hooks (Activate_object (Some 1) (Some 7))
     (root_orb ACTIVE [7 \<mapsto> \<lparr>sv_private = None, sv_class = 0, vepv_shift = 0\<rparr>]) =
   Inr ({#}, active_orb)"
  by (simp add: run_defs sample_defs PortableServer_POA_activate_object_def
      ORBit_POA_create_object_T_def new_object_id_def ORBit_POA_new_system_objid_T_def
      new_pobj_def ORBit_POA_activate_object_T_def link_servant_def)

lemma sample_reference:
  "perform sample_hooks (Servant_to_reference (Some 1) (Some 7)) active_orb =
   Inr ({#}, object_orb 3 (sample_object 2 (Some 3) (Some 7) {} 0) (Some 2) [] [])"
  by (simp add: run_defs sample_defs PortableServer_POA_servant_to_reference_def
      ORBit_POA_obj_to_ref_def ORBit_objref_new_def numeral_2_eq_2)

definition sample_frame :: frame where
  "sample_frame = \<lparr>fr_pobj = 2, fr_poa = 1, fr_buffer = None, fr_opname = ''ping'',
     fr_cookie = None, fr_oid = Some sample_oid, fr_invoked = True, fr_adaptor = None\<rparr>"

lemma sample_call:
  "ORBit_POAObject_handle_request sample_hooks 2 ''ping'' None
     (object_orb 3 (sample_object 2 (Some 3) (Some 7) {} 0) (Some 2) [] []) =
   Inr (Some sample_frame, None, object_orb 4 (sample_object 2 (Some 3) (Some 7) {} 1) (Some 2) [2]
     [Invoke 2 7 ''ping''])"
  by (simp add: run_defs sample_defs sample_frame_def ORBit_POAObject_handle_request_def
      find_servant_def enter_method_def find_method_def ORBit_POA_invocation_stack_push_def log_event_def)

lemma sample_deactivate:
  "perform sample_hooks (Deactivate_object (Some 1) (Some sample_oid))
     (object_orb 4 (sample_object 2 (Some 3) (Some 7) {} 1) (Some 2) [2] evs) =
   Inr ({#}, object_orb 4 (sample_object 2 (Some 3) (Some 7)
     {NeedPostInvoke, DeactivateDo, DoEtherealize} 1) (Some 2) [2] evs)"
  by (simp add: run_defs sample_defs PortableServer_POA_deactivate_object_def
      ORBit_POA_object_id_lookup_T_def ORBit_POAObject_is_active_def ORBit_POA_deactivate_object_T_def)

lemma sample_return:
  "return_from_method sample_hooks sample_frame (object_orb 4 (sample_object 2 (Some 3) (Some 7)
     {NeedPostInvoke, DeactivateDo, DoEtherealize} 1) (Some 2) [2] evs) =
   Inr (object_orb 3 (sample_object 1 (Some 3) None {NeedPostInvoke} 0) None [] evs)"
  by (simp add: run_defs sample_defs sample_frame_def return_from_method_def handle_request_end_def
      give_back_servant_def end_invocation_def clean_out_def ORBit_POA_invocation_stack_pop_def
      ORBit_POAObject_post_invoke_def ORBit_POA_deactivate_object_T_def unlink_servant_def
      etherealize_object_def call_etherealize_def call_finalize_def insert_Diff_if)

section \<open>The run\<close>

definition idle_config :: config where
  "idle_config = \<lparr>running = [], owned = {#1#},
     orb = object_orb 3 (sample_object 2 (Some 3) (Some 7) {} 0) (Some 2) [] []\<rparr>"

definition running_config :: config where
  "running_config = \<lparr>running = [sample_frame], owned = {#1#},
     orb = object_orb 4 (sample_object 2 (Some 3) (Some 7) {} 1) (Some 2) [2]
       [Invoke 2 7 ''ping'']\<rparr>"

definition deferred_config :: config where
  "deferred_config = \<lparr>running = [sample_frame], owned = {#1#},
     orb = object_orb 4 (sample_object 2 (Some 3) (Some 7)
       {NeedPostInvoke, DeactivateDo, DoEtherealize} 1) (Some 2) [2] [Invoke 2 7 ''ping'']\<rparr>"

lemma idle_config_reachable: "reachable sample_hooks idle_config"
proof -
  have 0: "reachable sample_hooks \<lparr>running = [], owned = {#}, orb = first_orb\<rparr>"
    using reachable.start [of sample_hooks False False] by (simp add: first_orb_def)
  have "provided sample_hooks Setup_root first_orb"
    by (simp add: room_def sample_hooks_def first_orb_def)
  from reachable.more [OF 0 step.call [OF this sample_setup]]
  have 1: "reachable sample_hooks \<lparr>running = [], owned = {#1#}, orb = root_orb HOLDING (\<lambda>_. None)\<rparr>"
    by simp
  have "provided sample_hooks (Manager_activate (Some 0)) (root_orb HOLDING (\<lambda>_. None))" by simp
  from reachable.more [OF 1 step.call [OF this sample_manager]]
  have 2: "reachable sample_hooks \<lparr>running = [], owned = {#1#}, orb = root_orb ACTIVE (\<lambda>_. None)\<rparr>"
    by simp
  have "servants (root_orb ACTIVE (\<lambda>_. None)) 7 = None" by (simp add: sample_defs)
  from reachable.more [OF 2 step.servant [OF this, where k = 0]]
  have 3: "reachable sample_hooks \<lparr>running = [], owned = {#1#},
      orb = root_orb ACTIVE [7 \<mapsto> \<lparr>sv_private = None, sv_class = 0, vepv_shift = 0\<rparr>]\<rparr>"
    by (simp add: sample_defs)
  have "provided sample_hooks (Activate_object (Some 1) (Some 7))
      (root_orb ACTIVE [7 \<mapsto> \<lparr>sv_private = None, sv_class = 0, vepv_shift = 0\<rparr>])"
    by (simp add: new_key_def sample_defs)
  from reachable.more [OF 3 step.call [OF this sample_activate]]
  have 4: "reachable sample_hooks \<lparr>running = [], owned = {#1#}, orb = active_orb\<rparr>" by simp
  have "provided sample_hooks (Servant_to_reference (Some 1) (Some 7)) active_orb"
    by (simp add: new_key_def sample_defs le32_def)
  from reachable.more [OF 4 step.call [OF this sample_reference]]
  show ?thesis by (simp add: idle_config_def)
qed

lemma running_config_reachable: "reachable sample_hooks running_config"
proof -
  have "step sample_hooks idle_config running_config"
    unfolding idle_config_def running_config_def
    using step.local [OF _ _ _ sample_call, of 3 "\<lparr>ref_refs = 1, type_id = Some ''Sample'', adaptor_obj = Some 2\<rparr>" "[]"]
    by (simp add: idle_room_def sample_defs started_frames_def)
  then show ?thesis by (rule reachable.more [OF idle_config_reachable])
qed

lemma deferred_config_reachable: "reachable sample_hooks deferred_config"
proof -
  have "provided sample_hooks (Deactivate_object (Some 1) (Some sample_oid)) s" for s by simp
  from step.call [OF this sample_deactivate, of "[sample_frame]" "{#1#}"]
  have "step sample_hooks running_config deferred_config"
    by (simp add: running_config_def deferred_config_def)
  then show ?thesis by (rule reachable.more [OF running_config_reachable])
qed

end
