(* ===== verification/Poa_Facts.thy ===== *)
theory Poa_Facts
imports Poa_Sample
begin

text \<open>
  What the invariant says about the configurations the steps reach, in the form
  the proofs of the promises use.
\<close>

lemma running_object:
  assumes "reachable h c" "f \<in> set (running c)"
  shows "\<exists>q sv v xs. pobjs (orb c) (fr_pobj f) = Some q \<and> po_servant q = Some sv \<and>
    servants (orb c) sv = Some v \<and> chain (pobjs (orb c)) (sv_private v) xs \<and> fr_pobj f \<in> set xs \<and>
    po_use_cnt q = of_nat (count_list (map fr_pobj (running c)) (fr_pobj f))"
proof -
  note r = reachable_parts [OF assms(1)]
  have u: "used (orb c)" and ch: "chained (orb c)" using r(1) by (simp_all add: sound_def)
  have "fr_pobj f \<in> set (current_invocations (orb c))"
    using r(4) assms(2) by (metis image_eqI set_map mset_eq_setD)
  then obtain q sv where q: "pobjs (orb c) (fr_pobj f) = Some q" "po_servant q = Some sv"
    using u unfolding used_def by blast
  moreover obtain v where v: "servants (orb c) sv = Some v" using ch q unfolding chained_def by blast
  moreover obtain xs where xs: "chain (pobjs (orb c)) (sv_private v) xs" "set xs = incarnated (orb c) sv"
    using ch v unfolding chained_def by blast
  moreover have "fr_pobj f \<in> set xs" using q xs(2) by (simp add: incarnated_def)
  moreover have "po_use_cnt q = of_nat (count_list (map fr_pobj (running c)) (fr_pobj f))"
    using u q(1) r(4) unfolding used_def by (metis count_mset)
  ultimately show ?thesis by blast
qed

lemma reference_count:
  assumes "reachable h c" "pobjs (orb c) x = Some q"
  shows "po_refs q = of_bool (po_servant q \<noteq> None) + of_bool (po_objref q \<noteq> None) +
    count (frames_refs (running c) + pushed_refs (pushed (orb c))) x"
  using reachable_parts(1) [OF assms(1)] assms(2) by (simp add: sound_def counted_def)

lemma object_map_of:
  assumes c: "calm T P I L U s" and p: "poas s r = Some p"
  shows "map_of (oid_to_obj_map p) oid = Some x \<longleftrightarrow>
    (\<exists>q. pobjs s x = Some q \<and> po_poa q = r \<and> po_object_id q = Some oid)"
proof -
  have m: "mapped s" using c by (simp add: calm_def sound_def)
  have d: "Deactivating \<notin> poa_life p" using c p by (auto simp: calm_def quiet_def)
  have eq: "map_of (oid_to_obj_map p) oid = Some x \<longleftrightarrow> (oid, x) \<in> set (oid_to_obj_map p)"
    using mappedD(3) [OF m p] by (simp add: map_of_eq_Some_iff)
  show ?thesis unfolding eq
  proof
    assume "(oid, x) \<in> set (oid_to_obj_map p)"
    from mappedD(2) [OF m p this] d
    show "\<exists>q. pobjs s x = Some q \<and> po_poa q = r \<and> po_object_id q = Some oid"
      by (auto simp: map_entry_def split: if_splits)
  next
    assume "\<exists>q. pobjs s x = Some q \<and> po_poa q = r \<and> po_object_id q = Some oid"
    then obtain q where q: "pobjs s x = Some q" "po_poa q = r" "po_object_id q = Some oid" by blast
    from mappedD(1) [OF m q(1)] q p
    show "(oid, x) \<in> set (oid_to_obj_map p)" by (auto simp: in_map_def split: if_splits)
  qed
qed

lemma reachable_calm:
  "reachable h c \<Longrightarrow> calm (frames_refs (running c) + pushed_refs (pushed (orb c)))
     (owned c + frames_poas (running c)) (current_invocations (orb c)) (pushed (orb c)) {} (orb c)"
  using reachable_wellformed by (simp add: wellformed_def)

lemma object_map_iff:
  assumes "reachable h c" "poas (orb c) r = Some p"
  shows "map_of (oid_to_obj_map p) oid = Some x \<longleftrightarrow>
    (\<exists>q. pobjs (orb c) x = Some q \<and> po_poa q = r \<and> po_object_id q = Some oid)"
  by (rule object_map_of [OF reachable_calm [OF assms(1)] assms(2)])

lemma servant_chain:
  assumes "reachable h c" "servants (orb c) sv = Some v"
  shows "\<exists>xs. chain (pobjs (orb c)) (sv_private v) xs \<and> distinct xs \<and> set xs = incarnated (orb c) sv"
  using reachable_parts(1) [OF assms(1)] assms(2) by (simp add: sound_def chained_def)

lemma in_use_iff:
  assumes "reachable h c" "pobjs (orb c) x = Some q"
  shows "0 < po_use_cnt q \<longleftrightarrow> (\<exists>f \<in> set (running c). fr_pobj f = x)"
proof -
  note r = reachable_parts [OF assms(1)]
  let ?n = "count_list (map fr_pobj (running c)) x"
  have "length (current_invocations (orb c)) < 2 ^ 16" using r(1) by (simp add: sound_def used_def)
  then have "length (map fr_pobj (running c)) < 2 ^ 16" using r(4) by (metis size_mset)
  then have "?n < 2 ^ 16" using count_le_length [of "map fr_pobj (running c)" x] by linarith
  moreover have "po_use_cnt q = of_nat ?n"
    using r(1,4) assms(2) unfolding sound_def used_def by (metis count_mset)
  ultimately have "0 < po_use_cnt q \<longleftrightarrow> ?n \<noteq> 0"
    by (simp add: word_less_nat_alt unsigned_of_nat take_bit_nat_eq_self)
  also have "\<dots> \<longleftrightarrow> (\<exists>f \<in> set (running c). fr_pobj f = x)"
    by (auto simp: count_list_0_iff)
  finally show ?thesis .
qed

lemma running_in_use:
  assumes "reachable h c" "f \<in> set (running c)"
  shows "\<exists>q sv. pobjs (orb c) (fr_pobj f) = Some q \<and> po_servant q = Some sv \<and> 0 < po_use_cnt q"
  using running_object [OF assms] in_use_iff [OF assms(1)] assms(2) by blast

definition returned_config :: config where
  "returned_config = \<lparr>running = [], owned = {#1#},
     orb = object_orb 3 (sample_object 1 (Some 3) None {NeedPostInvoke} 0) None [] [Invoke 2 7 ''ping'']\<rparr>"

lemma returned_config_reachable: "reachable sample_hooks returned_config"
proof -
  have "sample_frame \<in> set [sample_frame]" by simp
  from step.return [OF this sample_return, where P = "{#1#}"]
  have "step sample_hooks deferred_config returned_config"
    by (simp add: deferred_config_def returned_config_def)
  then show ?thesis by (rule reachable.more [OF deferred_config_reachable])
qed

lemma sample_deactivate_result:
  "PortableServer_POA_deactivate_object sample_hooks (Some 1) (Some sample_oid)
     (object_orb 4 (sample_object 2 (Some 3) (Some 7) {} 1) (Some 2) [2] evs) =
   Inr (Inr (), object_orb 4 (sample_object 2 (Some 3) (Some 7)
     {NeedPostInvoke, DeactivateDo, DoEtherealize} 1) (Some 2) [2] evs)"
  by (simp add: run_defs sample_defs PortableServer_POA_deactivate_object_def
      ORBit_POA_object_id_lookup_T_def ORBit_POAObject_is_active_def ORBit_POA_deactivate_object_T_def)

lemma POA_LOCK_locked: "POA_LOCK r s = Inr t \<Longrightarrow> \<exists>l. t = s\<lparr>locked := l\<rparr>"
  by (auto simp: POA_LOCK_def andThen_eq_Inr mutex_lock_def intro: exI [of _ "locked s"] split: if_splits)

lemma POA_UNLOCK_locked: "POA_UNLOCK r s = Inr t \<Longrightarrow> \<exists>l. t = s\<lparr>locked := l\<rparr>"
  by (auto simp: POA_UNLOCK_def andThen_eq_Inr mutex_unlock_def intro: exI [of _ "locked s"] split: if_splits)

end
