(* ===== verification/Poa_Deferral.thy ===== *)
theory Poa_Deferral
imports Poa_Facts
begin

text \<open>
  Deactivation of an object: put off while methods run on it, carried out when
  the last of them returns.
\<close>

section \<open>Objects without a servant\<close>

definition dormant :: "nat \<Rightarrow> orb \<Rightarrow> bool" where
  "dormant x s \<longleftrightarrow> (\<forall>q. pobjs s x = Some q \<longrightarrow> po_servant q = None)"

lemma dormant_same: "pobjs t = pobjs s \<Longrightarrow> dormant x s \<Longrightarrow> dormant x t"
  by (simp add: dormant_def)

lemma dormant_set_pobj:
  "dormant x s \<Longrightarrow> (\<And>q. po_servant (f q) = po_servant q) \<Longrightarrow> dormant x (set_pobj y f s)"
  by (auto simp: dormant_def set_pobj_def split: if_splits)

lemma release_poa_pobjs: "release_poa r s = Inr t \<Longrightarrow> pobjs t = pobjs s"
  by (auto simp: release_poa_def ORBit_POA_free_fn_def run_simps split: if_splits
      dest!: release_manager_only)

lemma release_pobj_dormant:
  assumes "release_pobj y s = Inr t" "dormant x s"
  shows "dormant x t"
  using assms
  by (auto simp: release_pobj_def ORBit_POAObject_release_cb_def run_simps dormant_def
      split: if_splits dest!: release_poa_pobjs)

lemma aside_dormant: "aside s t \<Longrightarrow> dormant x s \<Longrightarrow> dormant x t"
  by (simp add: aside_stores dormant_def)

lemma etherealize_dormant:
  assumes "etherealize_object h r y sv s = Inr t" "dormant x s"
  shows "dormant x t"
proof -
  obtain b1 s1 b2 s2 where
    1: "call_etherealize h r y sv (set_pobj y (\<lambda>q. q\<lparr>po_use_cnt := po_use_cnt q + 1\<rparr>) s) = Inr (b1, s1)"
    and 2: "call_finalize h r sv s1 = Inr (b2, s2)"
    and t: "t = set_pobj y (\<lambda>q. q\<lparr>po_use_cnt := po_use_cnt q - 1\<rparr>) s2"
    using assms(1) by (auto simp: etherealize_object_def andThen_eq_Inr)
  have "dormant x (set_pobj y (\<lambda>q. q\<lparr>po_use_cnt := po_use_cnt q + 1\<rparr>) s)"
    using assms(2) by (rule dormant_set_pobj) simp
  then have "dormant x s2"
    using aside_dormant [OF call_etherealize_aside [OF 1]] aside_dormant [OF call_finalize_aside [OF 2]]
    by blast
  then show ?thesis unfolding t by (rule dormant_set_pobj) simp
qed

lemma unlink_dormant:
  assumes "unlink_servant y sv s = Inr t" "dormant x s"
  shows "dormant x t"
proof -
  have "dormant x (set_servant sv f u)" if "dormant x u" for f u
    using that by (simp add: dormant_def set_servant_def)
  then show ?thesis
    using assms by (auto simp: unlink_servant_def andThen_eq_Inr intro!: dormant_set_pobj split: if_splits)
qed

text \<open>An object that is not in use loses its servant.\<close>

lemma deactivate_idle:
  assumes run: "ORBit_POA_deactivate_object_T h r x e c s = Inr t"
    and idle: "\<And>q. pobjs s x = Some q \<Longrightarrow> po_use_cnt q = 0"
  shows "dormant x t"
proof -
  obtain q where q: "pobjs s x = Some q"
    using run by (auto simp: ORBit_POA_deactivate_object_T_def andThen_eq_Inr)
  show ?thesis
  proof (cases "po_servant q")
    case None
    then show ?thesis using run q by (simp add: ORBit_POA_deactivate_object_T_def andThen_eq_Inr dormant_def)
  next
    case (Some sv)
    define fl where "fl = (if c then insert IsCleanup
        (if e \<and> DeactivateDo \<notin> po_life q then insert DoEtherealize (po_life q) else po_life q)
      else (if e \<and> DeactivateDo \<notin> po_life q then insert DoEtherealize (po_life q) else po_life q))"
    obtain s1 s2 where
      1: "unlink_servant x sv (set_pobj x (\<lambda>q. q\<lparr>po_life := fl, po_servant := None\<rparr>) s) = Inr s1"
      and 2: "(if DoEtherealize \<in> fl then etherealize_object h r x sv s1 else Inr s1) = Inr s2"
      and 3: "release_pobj x
           (set_pobj x (\<lambda>q. q\<lparr>po_life := po_life q - {DeactivateDo, IsCleanup, DoEtherealize}\<rparr>) s2) = Inr t"
      using run q Some idle [OF q]
      by (auto simp: ORBit_POA_deactivate_object_T_def andThen_eq_Inr Let_def fl_def)
    have "dormant x (set_pobj x (\<lambda>q. q\<lparr>po_life := fl, po_servant := None\<rparr>) s)"
      using q by (simp add: dormant_def set_pobj_def)
    then have "dormant x s1" by (rule unlink_dormant [OF 1])
    then have "dormant x s2" using 2 etherealize_dormant by (auto split: if_splits)
    then have "dormant x (set_pobj x (\<lambda>q. q\<lparr>po_life := po_life q - {DeactivateDo, IsCleanup, DoEtherealize}\<rparr>) s2)"
      by (rule dormant_set_pobj) simp
    then show ?thesis by (rule release_pobj_dormant [OF 3])
  qed
qed

text \<open>One that is in use only gets its marks.\<close>

lemma deactivate_in_use:
  assumes "pobjs s x = Some q" "po_servant q \<noteq> None" "po_use_cnt q > 0"
    and "ORBit_POA_deactivate_object_T h r x e c s = Inr t"
  shows "\<exists>fl. t = s\<lparr>pobjs := (pobjs s)(x \<mapsto> q\<lparr>po_life := po_life q \<union> fl\<rparr>)\<rparr> \<and>
    {NeedPostInvoke, DeactivateDo} \<subseteq> fl"
proof -
  define g where "g = {NeedPostInvoke, DeactivateDo} \<union> (if c then {IsCleanup} else {}) \<union>
      (if e \<and> DeactivateDo \<notin> po_life q then {DoEtherealize} else {})"
  have "t = s\<lparr>pobjs := (pobjs s)(x \<mapsto> q\<lparr>po_life := po_life q \<union> g\<rparr>)\<rparr>"
    using assms by (auto simp: ORBit_POA_deactivate_object_T_def andThen_eq_Inr Let_def heap_simps g_def
        insert_commute)
  then show ?thesis by (intro exI [of _ g]) (simp add: g_def)
qed

section \<open>The last return\<close>

lemma invocation_end_dormant:
  assumes run: "end_invocation h f s = Inr t" and q: "pobjs s (fr_pobj f) = Some q"
    and marks: "NeedPostInvoke \<in> po_life q" "DeactivateDo \<in> po_life q" and last: "po_use_cnt q = 1"
  shows "dormant (fr_pobj f) t"
proof -
  let ?x = "fr_pobj f"
  let ?s = "set_pobj ?x (\<lambda>q. q\<lparr>po_use_cnt := po_use_cnt q - 1\<rparr>) (ORBit_POA_invocation_stack_pop ?x s)"
  obtain u where u: "ORBit_POAObject_post_invoke h ?x ?s = Inr u" and c: "clean_out (fr_poa f) u = Inr t"
    using run q marks by (auto simp: end_invocation_def andThen_eq_Inr Let_def)
  have x: "pobjs ?s ?x = Some (q\<lparr>po_use_cnt := 0\<rparr>)"
    using q last by (simp add: set_pobj_def ORBit_POA_invocation_stack_pop_def)
  then have "ORBit_POA_deactivate_object_T h (po_poa q) ?x False False ?s = Inr u"
    using u marks by (simp add: ORBit_POAObject_post_invoke_def andThen_eq_Inr)
  then have "dormant ?x u" by (rule deactivate_idle) (use x in simp)
  moreover obtain v where "POA_UNLOCK (fr_poa f) u = Inr v" "release_poa (fr_poa f) v = Inr t"
    using c by (auto simp: clean_out_def andThen_eq_Inr)
  ultimately show ?thesis
    using aside_dormant [OF POA_UNLOCK_aside] dormant_same [OF release_poa_pobjs] by blast
qed

lemma incoming_done_dormant:
  assumes "incoming_done p buf None s = Inr t" "dormant x s"
  shows "dormant x t"
proof -
  have "dormant x u" if "release_opt release_pobj p s = Inr u" for u
    using that assms(2) release_pobj_dormant by (cases p) (auto simp: release_opt_def)
  then show ?thesis
    using assms(1) by (auto simp: incoming_done_def andThen_eq_Inr giop_recv_buffer_unuse_def dormant_def
        split: option.splits)
qed

lemma return_dormant:
  assumes run: "return_from_method h f s = Inr t" and q: "pobjs s (fr_pobj f) = Some q"
    and sv: "po_servant q \<noteq> None"
    and marks: "NeedPostInvoke \<in> po_life q" "DeactivateDo \<in> po_life q" and last: "po_use_cnt q = 1"
    and s: "calm T P I L U s"
  shows "dormant (fr_pobj f) t"
proof -
  obtain s1 s2 s3 s4 where 1: "(if fr_invoked f then POA_LOCK (fr_poa f) s else Inr s) = Inr s1"
    and 2: "give_back_servant h f s1 = Inr s2" and 3: "end_invocation h f s2 = Inr s3"
    and 4: "(case fr_buffer f of None \<Rightarrow> Inr s3
              | Some b \<Rightarrow> incoming_done (Some (fr_pobj f)) (Some b) None s3) = Inr s4"
    and 5: "release_opt release_poa (fr_adaptor f) s4 = Inr t"
    using run by (auto simp: return_from_method_def handle_request_end_def andThen_eq_Inr)
  have a: "aside s s1" using 1 POA_LOCK_aside by (auto split: if_splits)
  then have q1: "pobjs s1 (fr_pobj f) = Some q" using q by (simp add: aside_stores)
  have s1: "calm T P I L U s1" by (rule calm_aside [OF a s])
  obtain p where p: "poas s1 (fr_poa f) = Some p"
    using 2 by (auto simp: give_back_servant_def andThen_eq_Inr)
  have "\<exists>q2. pobjs s2 (fr_pobj f) = Some q2 \<and> NeedPostInvoke \<in> po_life q2 \<and> DeactivateDo \<in> po_life q2 \<and>
      po_use_cnt q2 = 1"
  proof (cases "IS_RETAIN p")
    case True
    then show ?thesis using 2 p q1 marks last by (simp add: give_back_servant_def andThen_eq_Inr)
  next
    case False
    have "request_processing p = USE_DEFAULT_SERVANT"
    proof (cases "request_processing p")
      case USE_SERVANT_MANAGER
      have "False"
        using 2 p False USE_SERVANT_MANAGER q1 yieldsD [OF unuse_servant_fails [OF s1, where Q = "\<lambda>_. False"]]
        by (simp add: give_back_servant_def andThen_eq_Inr)
      then show ?thesis ..
    qed (use 2 p False in \<open>simp_all add: give_back_servant_def andThen_eq_Inr\<close>)
    then have "ORBit_POA_deactivate_object_T h (fr_poa f) (fr_pobj f) False False s1 = Inr s2"
      using 2 p False by (simp add: give_back_servant_def andThen_eq_Inr)
    from deactivate_in_use [OF q1 sv _ this] last marks show ?thesis by auto
  qed
  then have "dormant (fr_pobj f) s3" using invocation_end_dormant [OF 3] by blast
  then have "dormant (fr_pobj f) s4" using 4 incoming_done_dormant by (auto split: option.splits)
  then show ?thesis using 5 dormant_same [OF release_poa_pobjs]
    by (cases "fr_adaptor f") (auto simp: release_opt_def)
qed

text \<open>
  C16. A deactivation that was put off because methods run on the object is carried out
  when the last of them returns: then the object, if it still exists, has no servant.
\<close>

theorem deferred_deactivation_completes:
  assumes "reachable h c" "f \<in> set (running c)"
    and "count_list (map fr_pobj (running c)) (fr_pobj f) = 1"
    and "pobjs (orb c) (fr_pobj f) = Some q" "{NeedPostInvoke, DeactivateDo} \<subseteq> po_life q"
    and "return_from_method h f (orb c) = Inr t"
    and "pobjs t (fr_pobj f) = Some q'"
  shows "po_servant q' = None"
proof -
  obtain sv where "po_servant q = Some sv" "po_use_cnt q = of_nat (count_list (map fr_pobj (running c)) (fr_pobj f))"
    using running_object [OF assms(1,2)] assms(4) by auto
  moreover have "calm (frames_refs (running c) + pushed_refs (pushed (orb c)))
      (owned c + frames_poas (running c)) (current_invocations (orb c)) (pushed (orb c)) {} (orb c)"
    using reachable_wellformed [OF assms(1)] by (simp add: wellformed_def)
  ultimately have "dormant (fr_pobj f) t"
    using assms(3,5) by (intro return_dormant [OF assms(6,4)]) simp_all
  then show ?thesis using assms(7) by (simp add: dormant_def)
qed

theorem deferred_deactivation_completes_witness:
  "\<exists>t q'. return_from_method sample_hooks sample_frame (orb deferred_config) = Inr t \<and>
    pobjs t 2 = Some q' \<and> po_servant q' = None"
proof -
  define t where "t = object_orb 3 (sample_object 1 (Some 3) None {NeedPostInvoke} 0) None [] [Invoke 2 7 ''ping'']"
  have r: "return_from_method sample_hooks sample_frame (orb deferred_config) = Inr t"
    using sample_return by (simp add: deferred_config_def t_def)
  have q': "pobjs t (fr_pobj sample_frame) = Some (sample_object 1 (Some 3) None {NeedPostInvoke} 0)"
    by (simp add: t_def sample_defs sample_frame_def)
  have q: "pobjs (orb deferred_config) (fr_pobj sample_frame) = Some (sample_object 2 (Some 3) (Some 7)
       {NeedPostInvoke, DeactivateDo, DoEtherealize} 1)"
    by (simp add: deferred_config_def sample_defs sample_frame_def)
  from deferred_deactivation_completes [OF deferred_config_reachable _ _ q _ r q'] r q'
  show ?thesis by (simp add: deferred_config_def sample_frame_def sample_object_def)
qed

text \<open>
  C28. Deactivating an object on which a method runs neither takes its servant away nor
  calls any application code: it only marks the object.
\<close>

theorem deactivate_running_object:
  assumes "reachable h c" "f \<in> set (running c)"
    and "pobjs (orb c) (fr_pobj f) = Some q" "po_object_id q = Some oid"
    and "PortableServer_POA_deactivate_object h (Some (po_poa q)) (Some oid) (orb c) = Inr (Inr u, t)"
  shows "\<exists>q'. pobjs t (fr_pobj f) = Some q' \<and> po_servant q' = po_servant q \<and>
    po_use_cnt q' = po_use_cnt q \<and> {NeedPostInvoke, DeactivateDo} \<subseteq> po_life q' \<and>
    events t = events (orb c)"
proof -
  let ?x = "fr_pobj f" and ?r = "po_poa q" and ?s = "orb c"
  obtain sv where sv: "po_servant q = Some sv" and use: "po_use_cnt q > 0"
    using running_in_use [OF assms(1,2)] assms(3) by auto
  have refs: "po_refs q > 0" using reference_count [OF assms(1,3)] sv by simp
  obtain s1 where 1: "POA_LOCK ?r ?s = Inr s1"
    using assms(5) by (auto simp: PortableServer_POA_deactivate_object_def andThen_eq_Inr)
  obtain l where s1: "s1 = ?s\<lparr>locked := l\<rparr>" using POA_LOCK_locked [OF 1] by blast
  obtain p where p: "poas ?s ?r = Some p" using 1 by (auto simp: POA_LOCK_def andThen_eq_Inr)
  have x: "map_of (oid_to_obj_map p) oid = Some ?x"
    using object_map_iff [OF assms(1) p] assms(3,4) by blast
  have q1: "pobjs s1 ?x = Some q" "poas s1 ?r = Some p" using s1 assms(3) p by simp_all
  define s2 where "s2 = s1\<lparr>pobjs := (pobjs s1)(?x \<mapsto> q\<lparr>po_refs := po_refs q + 1\<rparr>)\<rparr>"
  have "ORBit_POA_object_id_lookup_T ?r oid s1 = andThen (dup_pobj ?x s1) (\<lambda>s. Inr (Some ?x, s))"
    using q1 x by (simp add: ORBit_POA_object_id_lookup_T_def deref_def)
  moreover have "dup_pobj ?x s1 = Inr s2 \<or> (\<exists>e. dup_pobj ?x s1 = Inl e)"
    using q1 by (auto simp: dup_pobj_def deref_def heap_simps s2_def)
  moreover have "ORBit_POAObject_is_active (Some ?x) s2 = Inr True"
    using q1 sv by (simp add: ORBit_POAObject_is_active_def deref_def s2_def)
  ultimately obtain s3 s4 where 3: "ORBit_POA_deactivate_object_T h ?r ?x True False s2 = Inr s3"
    and 4: "POA_UNLOCK ?r s3 = Inr s4" and 5: "release_pobj ?x s4 = Inr t"
    using assms(5) 1 q1
    by (auto simp: PortableServer_POA_deactivate_object_def andThen_eq_Inr raise_ex_def returns_def
        release_opt_def split: if_splits)
  have "pobjs s2 ?x = Some (q\<lparr>po_refs := po_refs q + 1\<rparr>)" by (simp add: s2_def)
  from deactivate_in_use [OF this _ _ 3] sv use obtain fl where
    s3: "s3 = s2\<lparr>pobjs := (pobjs s2)(?x \<mapsto> q\<lparr>po_refs := po_refs q + 1, po_life := po_life q \<union> fl\<rparr>)\<rparr>"
    and fl: "{NeedPostInvoke, DeactivateDo} \<subseteq> fl" by auto
  have "pobjs s4 = pobjs s3 \<and> events s4 = events s3"
    using 4 by (auto simp: POA_UNLOCK_def andThen_eq_Inr mutex_unlock_def split: if_splits)
  then have "pobjs t ?x = Some (q\<lparr>po_life := po_life q \<union> fl\<rparr>)" "events t = events ?s"
    using 5 refs by (auto simp: release_pobj_def andThen_eq_Inr Let_def heap_simps s3 s2_def s1)
  then show ?thesis using fl by auto
qed

theorem deactivate_running_object_witness:
  "\<exists>q'. pobjs (orb deferred_config) 2 = Some q' \<and> po_servant q' = Some 7 \<and>
    {NeedPostInvoke, DeactivateDo} \<subseteq> po_life q' \<and> events (orb deferred_config) = events (orb running_config)"
proof -
  let ?q = "sample_object 2 (Some 3) (Some 7) {} 1"
  have q: "pobjs (orb running_config) (fr_pobj sample_frame) = Some ?q" "po_object_id ?q = Some sample_oid"
    "po_servant ?q = Some 7" "po_poa ?q = 1"
    by (simp_all add: running_config_def sample_defs sample_frame_def)
  obtain u where "PortableServer_POA_deactivate_object sample_hooks (Some (po_poa ?q)) (Some sample_oid) (orb running_config) =
      Inr (Inr u, orb deferred_config)"
    using sample_deactivate_result by (auto simp: running_config_def deferred_config_def sample_object_def)
  from deactivate_running_object [OF running_config_reachable _ q(1,2) this] q(3)
  show ?thesis by (auto simp: running_config_def sample_frame_def)
qed

end
