(* ===== verification/Poa_Map.thy ===== *)
theory Poa_Map
imports Poa_Deferral
begin

text \<open>
  The active object map of the specification, and the operations on it: each
  POA maps ids to servants, activation adds an entry, deactivation removes it.
\<close>

definition active_map :: "orb \<Rightarrow> nat \<Rightarrow> oid \<Rightarrow> nat option" where
  "active_map s r oid = (case poas s r of
     None \<Rightarrow> None
   | Some p \<Rightarrow> (case map_of (oid_to_obj_map p) oid of
       None \<Rightarrow> None
     | Some x \<Rightarrow> (case pobjs s x of None \<Rightarrow> None | Some q \<Rightarrow> po_servant q)))"

lemma active_map_locked: "active_map (s\<lparr>locked := l\<rparr>) = active_map s"
  by (auto simp: fun_eq_iff active_map_def split: option.split)

lemma option_same: "(\<And>v. a = Some v \<longleftrightarrow> b = Some v) \<Longrightarrow> a = b"
  by (cases a; cases b) auto

section \<open>What an object serves\<close>

text \<open>The POA, the id and the servant of an object that has one.\<close>

definition serving :: "POAObject \<Rightarrow> (nat \<times> oid \<times> nat) option" where
  "serving q = (case po_object_id q of
     None \<Rightarrow> None
   | Some oid \<Rightarrow> map_option (\<lambda>sv. (po_poa q, oid, sv)) (po_servant q))"

definition serves :: "orb \<Rightarrow> nat \<Rightarrow> (nat \<times> oid \<times> nat) option" where
  "serves s x = Option.bind (pobjs s x) serving"

lemma serving_none [simp]: "po_servant q = None \<Longrightarrow> serving q = None"
  by (simp add: serving_def split: option.split)

lemma serving_cong:
  "po_servant q' = po_servant q \<Longrightarrow> po_poa q' = po_poa q \<Longrightarrow> po_object_id q' = po_object_id q \<Longrightarrow>
   serving q' = serving q"
  by (simp add: serving_def split: option.split)

lemma serves_iff: "serves s x = Some (r, oid, sv) \<longleftrightarrow>
    (\<exists>q. pobjs s x = Some q \<and> po_poa q = r \<and> po_object_id q = Some oid \<and> po_servant q = Some sv)"
  by (auto simp: serves_def serving_def bind_eq_Some_conv split: option.splits)

lemma active_map_iff:
  assumes s: "calm T P I L U s"
  shows "active_map s r oid = Some sv \<longleftrightarrow> (\<exists>x. serves s x = Some (r, oid, sv))"
proof
  assume "active_map s r oid = Some sv"
  then obtain p x q where "poas s r = Some p" "map_of (oid_to_obj_map p) oid = Some x"
    "pobjs s x = Some q" "po_servant q = Some sv"
    by (auto simp: active_map_def split: option.splits)
  then have "serves s x = Some (r, oid, sv)"
    using object_map_of [OF s] by (auto simp: serves_iff)
  then show "\<exists>x. serves s x = Some (r, oid, sv)" ..
next
  assume "\<exists>x. serves s x = Some (r, oid, sv)"
  then obtain x q where q: "pobjs s x = Some q" "po_poa q = r" "po_object_id q = Some oid" "po_servant q = Some sv"
    by (auto simp: serves_iff)
  have "mapped s" using s by (simp add: calm_def sound_def)
  from mappedD(1) [OF this q(1)] q(2) obtain p where p: "poas s r = Some p" by (auto simp: in_map_def)
  from object_map_of [OF s p] q have "map_of (oid_to_obj_map p) oid = Some x" by blast
  then show "active_map s r oid = Some sv" using p q by (simp add: active_map_def)
qed

lemma serves_once:
  assumes s: "calm T P I L U s" and "serves s x = Some (r, oid, sv)" "serves s y = Some (r, oid, sw)"
  shows "x = y"
proof -
  obtain q q' where q: "pobjs s x = Some q" "po_poa q = r" "po_object_id q = Some oid"
    "pobjs s y = Some q'" "po_poa q' = r" "po_object_id q' = Some oid"
    using assms(2,3) by (auto simp: serves_iff)
  have "mapped s" using s by (simp add: calm_def sound_def)
  from mappedD(1) [OF this q(1)] q(2) obtain p where "poas s r = Some p" by (auto simp: in_map_def)
  from object_map_of [OF s this, of oid] q have "map_of (oid_to_obj_map p) oid = Some x" "map_of (oid_to_obj_map p) oid = Some y"
    by blast+
  then show ?thesis by simp
qed

lemma active_map_same:
  assumes "calm T P I L U s" "calm T' P' I' L' U' t" "serves t = serves s"
  shows "active_map t = active_map s"
  by (intro ext option_same)
    (simp add: active_map_iff [OF assms(1)] active_map_iff [OF assms(2)] assms(3))

lemma active_map_add:
  assumes s: "calm T P I L U s" and t: "calm T' P' I' L' U' t"
    and "serves t = (serves s)(x \<mapsto> (r, oid, sv))" "serves s x = None"
  shows "active_map t = (active_map s)(r := (active_map s r)(oid \<mapsto> sv))"
proof (intro ext option_same)
  fix r' oid' v
  have x: "serves t x = Some (r, oid, sv)" using assms(3) by simp
  show "active_map t r' oid' = Some v \<longleftrightarrow> ((active_map s)(r := (active_map s r)(oid \<mapsto> sv))) r' oid' = Some v"
  proof (cases "r' = r \<and> oid' = oid")
    case True
    then have "active_map t r' oid' = Some sv" using active_map_iff [OF t, of r oid sv] x by auto
    then show ?thesis using True by simp
  next
    case False
    have "(\<exists>y. serves t y = Some (r', oid', v)) \<longleftrightarrow> (\<exists>y. serves s y = Some (r', oid', v))"
      using assms(3,4) False by (metis fun_upd_apply option.distinct(1) option.inject prod.inject)
    then have "active_map t r' oid' = Some v \<longleftrightarrow> active_map s r' oid' = Some v"
      using active_map_iff [OF s] active_map_iff [OF t] by blast
    then show ?thesis using False by auto
  qed
qed

lemma active_map_remove:
  assumes s: "calm T P I L U s" and t: "calm T' P' I' L' U' t"
    and "serves t = (serves s)(x := None)" "serves s x = Some (r, oid, sv)"
  shows "active_map t = (active_map s)(r := (active_map s r)(oid := None))"
proof (intro ext option_same)
  fix r' oid' v
  show "active_map t r' oid' = Some v \<longleftrightarrow> ((active_map s)(r := (active_map s r)(oid := None))) r' oid' = Some v"
  proof (cases "r' = r \<and> oid' = oid")
    case True
    have "serves t y \<noteq> Some (r, oid, v)" for y
      using assms(3) serves_once [OF s assms(4), of y v] by (cases "y = x") auto
    then have "active_map t r' oid' \<noteq> Some v" using True active_map_iff [OF t, of r oid v] by auto
    then show ?thesis using True by simp
  next
    case False
    have "(\<exists>y. serves t y = Some (r', oid', v)) \<longleftrightarrow> (\<exists>y. serves s y = Some (r', oid', v))"
      using assms(3,4) False by (metis fun_upd_apply option.distinct(1) option.inject prod.inject)
    then have "active_map t r' oid' = Some v \<longleftrightarrow> active_map s r' oid' = Some v"
      using active_map_iff [OF s] active_map_iff [OF t] by blast
    then show ?thesis using False by auto
  qed
qed

section \<open>Through the code\<close>

lemma serves_same: "pobjs t = pobjs s \<Longrightarrow> serves t = serves s"
  by (simp add: serves_def fun_eq_iff)

lemma serves_upd: "pobjs t = (pobjs s)(x := pq) \<Longrightarrow> serves t = (serves s)(x := Option.bind pq serving)"
  by (auto simp: serves_def fun_eq_iff)

lemma serves_keep: "serves s x = v \<Longrightarrow> (serves s)(x := v) = serves s"
  by auto

lemma serves_dup:
  assumes "dup_pobj x s = Inr t"
  shows "serves t = serves s"
proof -
  obtain q where q: "pobjs s x = Some q" using assms by (auto simp: dup_pobj_def andThen_eq_Inr)
  have "pobjs t = (pobjs s)(x := Some (q\<lparr>po_refs := po_refs q + 1\<rparr>))"
    using assms q by (auto simp: dup_pobj_def run_simps split: if_splits)
  from serves_upd [OF this] show ?thesis
    using q serving_cong [of "q\<lparr>po_refs := po_refs q + 1\<rparr>" q] by (auto simp: serves_def fun_eq_iff)
qed

lemma serves_set_pobj:
  assumes "\<And>q. po_servant (f q) = po_servant q" "\<And>q. po_poa (f q) = po_poa q"
    "\<And>q. po_object_id (f q) = po_object_id q"
  shows "serves (set_pobj x f s) = serves s"
proof -
  have "serving (f q) = serving q" for q by (rule serving_cong) (simp_all add: assms)
  then show ?thesis by (cases "pobjs s x") (auto simp: serves_def set_pobj_def fun_eq_iff)
qed

lemma serves_release:
  assumes "release_pobj x s = Inr t"
  shows "serves t = serves s"
proof -
  obtain q n where q: "pobjs s x = Some q" and n: "po_refs q = Suc n"
    using assms by (auto simp: release_pobj_def andThen_eq_Inr)
  let ?s = "set_pobj x (\<lambda>q. q\<lparr>po_refs := n\<rparr>) s"
  have s: "serves ?s = serves s" by (rule serves_set_pobj) simp_all
  show ?thesis
  proof (cases "n = 0")
    case False
    then have "t = ?s" using assms q n by (auto simp: release_pobj_def andThen_eq_Inr)
    then show ?thesis using s by simp
  next
    case True
    then have cb: "ORBit_POAObject_release_cb x ?s = Inr t"
      using assms q n by (auto simp: release_pobj_def andThen_eq_Inr Let_def)
    have q': "pobjs ?s x = Some (q\<lparr>po_refs := n\<rparr>)" using q by (simp add: set_pobj_def)
    then have "po_servant q = None" using cb by (auto simp: ORBit_POAObject_release_cb_def andThen_eq_Inr)
    then have none: "serves ?s x = None" using q' by (simp add: serves_def)
    obtain p where p: "poas ?s (po_poa q) = Some p"
      using cb q' by (auto simp: ORBit_POAObject_release_cb_def andThen_eq_Inr)
    have "\<exists>u. release_poa (po_poa q) u = Inr t \<and> serves u = (serves ?s)(x := None)"
    proof (cases "Deactivating \<in> poa_life p")
      case True
      let ?u = "set_pobj x (\<lambda>q. q\<lparr>po_life := {Destroyed}, po_object_id := None\<rparr>) ?s"
      have "release_poa (po_poa q) ?u = Inr t"
        using cb q' p True by (auto simp: ORBit_POAObject_release_cb_def andThen_eq_Inr)
      moreover have "serves ?u = (serves ?s)(x := Option.bind (Some (q\<lparr>po_refs := n, po_life := {Destroyed},
          po_object_id := None\<rparr>)) serving)"
        by (rule serves_upd) (use q' in \<open>simp add: heap_simps\<close>)
      ultimately show ?thesis using \<open>po_servant q = None\<close> by auto
    next
      case False
      obtain oid where oid: "po_object_id q = Some oid"
        using cb q' by (auto simp: ORBit_POAObject_release_cb_def andThen_eq_Inr)
      let ?u = "(set_poa (po_poa q) (\<lambda>p. p\<lparr>oid_to_obj_map := AList.delete oid (oid_to_obj_map p)\<rparr>) ?s)
         \<lparr>pobjs := (pobjs ?s)(x := None)\<rparr>"
      have "release_poa (po_poa q) ?u = Inr t"
        using cb q' p False oid by (auto simp: ORBit_POAObject_release_cb_def andThen_eq_Inr)
      moreover have "serves ?u = (serves ?s)(x := Option.bind None serving)"
        by (rule serves_upd) simp
      ultimately show ?thesis by auto
    qed
    then obtain u where u: "release_poa (po_poa q) u = Inr t" "serves u = (serves ?s)(x := None)" by blast
    then have "serves u = serves ?s" using serves_keep [OF none] by simp
    moreover have "serves t = serves u"
      by (rule serves_same) (rule release_poa_pobjs [OF u(1)])
    ultimately show ?thesis using s by simp
  qed
qed

lemma serves_create:
  assumes "ORBit_POA_create_object_T h r oid s = Inr (n, t)" "fresh_above s"
  shows "serves t = serves s"
proof -
  obtain i where "pobjs t = (pobjs s)(n := Some ((new_pobj r)\<lparr>po_object_id := Some i\<rparr>))" "n = next_ref s"
    by (rule create_object_T_result [OF assms(1)]) simp
  from serves_upd [OF this(1)] this(2) have "serves t = (serves s)(n := None)"
    by (simp add: new_pobj_def)
  moreover have "serves s n = None" using assms(2) \<open>n = next_ref s\<close> by (simp add: fresh_above_def serves_def)
  ultimately show ?thesis using serves_keep by simp
qed

lemma serves_activate:
  assumes "ORBit_POA_activate_object_T r x (Some sv) s = Inr t" "pobjs s x = Some q"
    "po_object_id q = Some oid"
  shows "serves t = (serves s)(x \<mapsto> (po_poa q, oid, sv)) \<and> serves s x = None"
proof -
  have "\<exists>k y n. pobjs t = (pobjs s)(x := Some (q\<lparr>vepvmap_cache := k, po_servant := Some sv,
      po_next := y, po_refs := n\<rparr>)) \<and> po_servant q = None"
    by (rule activate_object_T_result [OF assms(1)]) (use assms(2) in force)
  then obtain k y n where t: "pobjs t = (pobjs s)(x := Some (q\<lparr>vepvmap_cache := k, po_servant := Some sv,
      po_next := y, po_refs := n\<rparr>))" and q: "po_servant q = None" by blast
  from serves_upd [OF t] have "serves t = (serves s)(x := Some (po_poa q, oid, sv))"
    by (simp add: assms(3) serving_def)
  then show ?thesis using assms(2) q by (simp add: serves_def)
qed

lemma serves_locked: "serves (s\<lparr>locked := l\<rparr>) = serves s"
  by (simp add: serves_def fun_eq_iff)

lemma serves_etherealize:
  assumes "etherealize_object h r y sv s = Inr t"
  shows "serves t = serves s"
proof -
  obtain b1 s1 b2 s2 where
    1: "call_etherealize h r y sv (set_pobj y (\<lambda>q. q\<lparr>po_use_cnt := po_use_cnt q + 1\<rparr>) s) = Inr (b1, s1)"
    and 2: "call_finalize h r sv s1 = Inr (b2, s2)"
    and t: "t = set_pobj y (\<lambda>q. q\<lparr>po_use_cnt := po_use_cnt q - 1\<rparr>) s2"
    using assms(1) by (auto simp: etherealize_object_def andThen_eq_Inr)
  have "serves t = serves s2" unfolding t by (rule serves_set_pobj) simp_all
  also have "\<dots> = serves (set_pobj y (\<lambda>q. q\<lparr>po_use_cnt := po_use_cnt q + 1\<rparr>) s)"
    using aside_stores [OF call_etherealize_aside [OF 1]] aside_stores [OF call_finalize_aside [OF 2]]
    by (intro serves_same) simp
  also have "\<dots> = serves s" by (rule serves_set_pobj) simp_all
  finally show ?thesis .
qed

lemma serves_unlink:
  assumes "unlink_servant y sv s = Inr t"
  shows "serves t = serves s"
proof -
  have 1: "serves (set_servant sv f u) = serves u" for f u by (rule serves_same) (simp add: set_servant_def)
  have 2: "serves (set_pobj l (\<lambda>q. q\<lparr>po_next := k\<rparr>) u) = serves u" for l k u
    by (rule serves_set_pobj) simp_all
  show ?thesis
    using assms by (auto simp: unlink_servant_def andThen_eq_Inr 1 2 split: if_splits)
qed

lemma serves_deactivate:
  assumes run: "ORBit_POA_deactivate_object_T h r x e c s = Inr t" and q: "pobjs s x = Some q"
  shows "serves t = (if po_use_cnt q > 0 then serves s else (serves s)(x := None))"
proof (cases "po_servant q")
  case None
  then have "t = s" using run q by (simp add: ORBit_POA_deactivate_object_T_def andThen_eq_Inr)
  then show ?thesis using None q by (auto simp: serves_def)
next
  case (Some sv)
  show ?thesis
  proof (cases "po_use_cnt q > 0")
    case True
    from deactivate_in_use [OF q _ True run] Some obtain fl
      where "pobjs t = (pobjs s)(x := Some (q\<lparr>po_life := po_life q \<union> fl\<rparr>))" by auto
    from serves_upd [OF this] have "serves t = (serves s)(x := serves s x)"
      using q serving_cong [of "q\<lparr>po_life := po_life q \<union> fl\<rparr>" q] by (simp add: serves_def)
    then show ?thesis using True by simp
  next
    case False
    define fl where "fl = (if c then insert IsCleanup
        (if e \<and> DeactivateDo \<notin> po_life q then insert DoEtherealize (po_life q) else po_life q)
      else (if e \<and> DeactivateDo \<notin> po_life q then insert DoEtherealize (po_life q) else po_life q))"
    obtain s1 s2 where
      1: "unlink_servant x sv (set_pobj x (\<lambda>q. q\<lparr>po_life := fl, po_servant := None\<rparr>) s) = Inr s1"
      and 2: "(if DoEtherealize \<in> fl then etherealize_object h r x sv s1 else Inr s1) = Inr s2"
      and 3: "release_pobj x
           (set_pobj x (\<lambda>q. q\<lparr>po_life := po_life q - {DeactivateDo, IsCleanup, DoEtherealize}\<rparr>) s2) = Inr t"
      using run q Some False
      by (auto simp: ORBit_POA_deactivate_object_T_def andThen_eq_Inr Let_def fl_def)
    have "serves t = serves (set_pobj x (\<lambda>q. q\<lparr>po_life := po_life q - {DeactivateDo, IsCleanup, DoEtherealize}\<rparr>) s2)"
      by (rule serves_release [OF 3])
    also have "\<dots> = serves s2" by (rule serves_set_pobj) simp_all
    also have "\<dots> = serves s1" using 2 serves_etherealize by (auto split: if_splits)
    also have "\<dots> = serves (set_pobj x (\<lambda>q. q\<lparr>po_life := fl, po_servant := None\<rparr>) s)"
      by (rule serves_unlink [OF 1])
    also have "\<dots> = (serves s)(x := Option.bind (Some (q\<lparr>po_life := fl, po_servant := None\<rparr>)) serving)"
      by (rule serves_upd) (use q in \<open>simp add: heap_simps\<close>)
    finally show ?thesis using False by simp
  qed
qed

section \<open>Activation and deactivation\<close>

lemma chain_empty:
  assumes s: "calm T P I L U s" and "servants s sv = Some v"
  shows "sv_private v = None \<longleftrightarrow> (\<forall>x r oid. serves s x \<noteq> Some (r, oid, sv))"
proof -
  have ch: "chained s" and m: "mapped s" using s by (simp_all add: calm_def sound_def)
  obtain xs where xs: "chain (pobjs s) (sv_private v) xs" "set xs = incarnated s sv"
    using ch assms(2) unfolding chained_def by blast
  have "sv_private v = None \<longleftrightarrow> xs = []" using xs(1) by (cases xs) auto
  also have "\<dots> \<longleftrightarrow> incarnated s sv = {}" using xs(2) by auto
  also have "\<dots> \<longleftrightarrow> (\<forall>x r oid. serves s x \<noteq> Some (r, oid, sv))"
  proof -
    have "\<exists>oid. po_object_id q = Some oid" if "pobjs s x = Some q" "po_servant q = Some sv" for x q
      using mappedD(1) [OF m that(1)] that(2) by (auto simp: in_map_def split: if_splits)
    then show ?thesis unfolding incarnated_def serves_iff by blast
  qed
  finally show ?thesis .
qed

lemma release_opt_serves: "release_opt release_pobj p s = Inr t \<Longrightarrow> serves t = serves s"
  by (cases p) (auto simp: release_opt_def serves_release)

lemma lookup_result:
  assumes run: "ORBit_POA_object_id_lookup_T r oid s = Inr (pobj, t)" and p: "poas s r = Some p"
    and s: "calm T P I L U s"
  shows "servants t = servants s \<and> serves t = serves s \<and>
    (case pobj of
       None \<Rightarrow> t = s \<and> active_map s r oid = None
     | Some x \<Rightarrow> \<exists>q. pobjs t x = Some q \<and> po_poa q = r \<and> po_object_id q = Some oid \<and>
         active_map s r oid = po_servant q)"
proof (cases "map_of (oid_to_obj_map p) oid")
  case None
  then show ?thesis using run p
    by (auto simp: ORBit_POA_object_id_lookup_T_def andThen_eq_Inr active_map_def)
next
  case (Some x)
  then obtain q where q: "pobjs s x = Some q" "po_poa q = r" "po_object_id q = Some oid"
    using object_map_of [OF s p] by blast
  have d: "dup_pobj x s = Inr t" "pobj = Some x"
    using run p Some by (auto simp: ORBit_POA_object_id_lookup_T_def andThen_eq_Inr)
  then have "t = s\<lparr>pobjs := (pobjs s)(x \<mapsto> q\<lparr>po_refs := po_refs q + 1\<rparr>)\<rparr>"
    using q by (auto simp: dup_pobj_def run_simps split: if_splits)
  then show ?thesis using q d serves_dup [OF d(1)] p Some by (simp add: active_map_def)
qed

lemma enter_in_map:
  assumes run: "andThen (case pobj of
                   None \<Rightarrow> ORBit_POA_create_object_T h r (Some oid) s
                 | Some o' \<Rightarrow> Inr (o', s)) (\<lambda>(o', s).
               andThen (ORBit_POA_activate_object_T r o' (Some sv) s) (returns ())) = Inr (res, t)"
    and s: "fresh_above s"
    and known: "\<And>x. pobj = Some x \<Longrightarrow> \<exists>q. pobjs s x = Some q \<and> po_poa q = r \<and> po_object_id q = Some oid"
  shows "res = Inr () \<and> (\<exists>x. serves t = (serves s)(x \<mapsto> (r, oid, sv)) \<and> serves s x = None)"
proof (cases pobj)
  case None
  obtain n u where c: "ORBit_POA_create_object_T h r (Some oid) s = Inr (n, u)"
    and a: "ORBit_POA_activate_object_T r n (Some sv) u = Inr t" and res: "res = Inr ()"
    using run None by (auto simp: andThen_eq_Inr returns_def)
  have "pobjs u n = Some ((new_pobj r)\<lparr>po_object_id := Some oid\<rparr>)"
    by (rule create_object_T_result [OF c]) simp
  from serves_activate [OF a this] serves_create [OF c s] res show ?thesis
    by (auto simp: new_pobj_def)
next
  case (Some x)
  then obtain q where "pobjs s x = Some q" "po_poa q = r" "po_object_id q = Some oid"
    using known by blast
  then show ?thesis
    using run Some serves_activate [of r x sv s t q oid] by (auto simp: andThen_eq_Inr returns_def)
qed

text \<open>
  C10. Activation with an id follows the specification of the active object map: an id that
  is mapped is refused, with unique ids so is a servant that is in the map, and
  otherwise the id is mapped to the servant, whatever else the state holds.
\<close>

theorem activation_refines:
  assumes "reachable h c" "poas (orb c) r = Some p" "IS_RETAIN p" "servants (orb c) sv = Some v"
    and "PortableServer_POA_activate_object_with_id h (Some r) (Some oid) (Some sv) (orb c) = Inr (res, t)"
  shows "if active_map (orb c) r oid \<noteq> None
     then res = Inl ex_POA_ObjectAlreadyActive \<and> active_map t = active_map (orb c)
     else if IS_UNIQUE_ID p \<and> (\<exists>r' i. active_map (orb c) r' i = Some sv)
     then res = Inl ex_POA_ServantAlreadyActive \<and> active_map t = active_map (orb c)
     else res = Inr () \<and> active_map t = (active_map (orb c))(r := (active_map (orb c) r)(oid \<mapsto> sv))"
proof -
  let ?s = "orb c"
  note s = reachable_calm [OF assms(1)]
  have t: "calm (frames_refs (running c) + pushed_refs (pushed (orb c)))
     (owned c + frames_poas (running c)) (current_invocations (orb c)) (pushed (orb c)) {} t"
    using yieldsD [OF activate_object_with_id_calm [OF s] assms(5)] by simp
  obtain s1 where 1: "POA_LOCK r ?s = Inr s1"
    using assms(5) by (auto simp: PortableServer_POA_activate_object_with_id_def andThen_eq_Inr)
  obtain l where s1: "s1 = ?s\<lparr>locked := l\<rparr>" using POA_LOCK_locked [OF 1] by blast
  have p1: "poas s1 r = Some p" "servants s1 sv = Some v" using assms(2,4) s1 by simp_all
  have m1: "active_map s1 = active_map ?s" unfolding s1 by (rule active_map_locked)
  obtain pobj s2 active w s3 s4 where
    2: "ORBit_POA_object_id_lookup_T r oid s1 = Inr (pobj, s2)"
    and 3: "ORBit_POAObject_is_active pobj s2 = Inr active"
    and w: "servants s2 sv = Some w"
    and 4: "(if active then raise_ex ex_POA_ObjectAlreadyActive s2
                  else if IS_UNIQUE_ID p \<and> sv_private w \<noteq> None
                  then raise_ex ex_POA_ServantAlreadyActive s2
                  else andThen (case pobj of
                           None \<Rightarrow> ORBit_POA_create_object_T h r (Some oid) s2
                         | Some o' \<Rightarrow> Inr (o', s2)) (\<lambda>(o', s).
                       andThen (ORBit_POA_activate_object_T r o' (Some sv) s) (returns ()))) = Inr (res, s3)"
    and 5: "release_opt release_pobj pobj s3 = Inr s4" and 6: "POA_UNLOCK r s4 = Inr t"
    using assms(3,5) 1 p1 unfolding PortableServer_POA_activate_object_with_id_def
    by (simp add: andThen_eq_Inr split: prod.splits) blast
  have c1: "calm (frames_refs (running c) + pushed_refs (pushed (orb c)))
     (owned c + frames_poas (running c)) (current_invocations (orb c)) (pushed (orb c)) {} s1"
    by (rule calm_POA_LOCK [OF 1 s])
  note look = lookup_result [OF 2 p1(1) c1]
  have v: "w = v" using look p1 w by simp
  have act: "active \<longleftrightarrow> active_map ?s r oid \<noteq> None"
    using look 3 m1 by (cases pobj) (auto simp: ORBit_POAObject_is_active_def andThen_eq_Inr)
  have same: "serves s1 = serves ?s" by (rule serves_same) (simp add: s1)
  have priv: "sv_private v = None \<longleftrightarrow> (\<forall>r' i. active_map ?s r' i \<noteq> Some sv)"
    using chain_empty [OF s assms(4)] active_map_iff [OF s] by blast
  have kept: "serves t = serves s3"
  proof -
    obtain l' where "t = s4\<lparr>locked := l'\<rparr>" using POA_UNLOCK_locked [OF 6] by blast
    then show ?thesis using release_opt_serves [OF 5] serves_locked by simp
  qed
  show ?thesis
  proof (cases "active \<or> IS_UNIQUE_ID p \<and> sv_private v \<noteq> None")
    case True
    then have "s3 = s2" "res = Inl (if active then ex_POA_ObjectAlreadyActive else ex_POA_ServantAlreadyActive)"
      using 4 v by (auto simp: raise_ex_def split: if_splits)
    moreover from this kept look same have "serves t = serves ?s" by simp
    ultimately show ?thesis using True active_map_same [OF s t] act priv by auto
  next
    case False
    then have add: "andThen (case pobj of
                   None \<Rightarrow> ORBit_POA_create_object_T h r (Some oid) s2
                 | Some o' \<Rightarrow> Inr (o', s2)) (\<lambda>(o', s).
               andThen (ORBit_POA_activate_object_T r o' (Some sv) s) (returns ())) = Inr (res, s3)"
      using 4 v by (simp split: if_splits)
    have "fresh_above s2"
    proof (cases pobj)
      case None
      then show ?thesis using look c1 by (simp add: calm_def sound_def)
    next
      case (Some x)
      have "calm (add_mset x (frames_refs (running c) + pushed_refs (pushed (orb c))))
        (owned c + frames_poas (running c)) (current_invocations (orb c)) (pushed (orb c)) {} s2"
        using yieldsD [OF yields_lookup [OF c1, of r oid "\<lambda>(p, s). \<forall>x. p = Some x \<longrightarrow>
          calm (add_mset x (frames_refs (running c) + pushed_refs (pushed (orb c))))
        (owned c + frames_poas (running c)) (current_invocations (orb c)) (pushed (orb c)) {} s"] 2] Some
        by simp
      then show ?thesis by (simp add: calm_def sound_def)
    qed
    from enter_in_map [OF add this] look obtain x
      where r: "res = Inr ()" "serves s3 = (serves s2)(x \<mapsto> (r, oid, sv))" "serves s2 x = None"
      by (auto split: option.splits)
    then have "serves t = (serves ?s)(x \<mapsto> (r, oid, sv))" "serves ?s x = None"
      using kept look same by simp_all
    from active_map_add [OF s t this] r(1) False act priv show ?thesis by auto
  qed
qed

theorem activation_refines_witness:
  "\<exists>t. PortableServer_POA_activate_object_with_id sample_hooks (Some 1) (Some sample_oid) (Some 7)
      (orb returned_config) = Inr (Inr (), t) \<and> active_map t 1 sample_oid = Some 7"
proof -
  let ?evs = "[Invoke 2 7 ''ping'']"
  define t where "t = object_orb 3 (sample_object 2 (Some 3) (Some 7) {NeedPostInvoke} 0) (Some 2) [] ?evs"
  have run: "PortableServer_POA_activate_object_with_id sample_hooks (Some 1) (Some sample_oid) (Some 7)
      (orb returned_config) = Inr (Inr (), t)"
    by (simp add: t_def returned_config_def run_defs sample_defs ORBit_POA_object_id_lookup_T_def
        PortableServer_POA_activate_object_with_id_def ORBit_POAObject_is_active_def
        ORBit_POA_activate_object_T_def link_servant_def numeral_2_eq_2 [symmetric])
  have p: "poas (orb returned_config) 1 = Some (sample_poa 3 1 [(sample_oid, 2)])"
    "IS_RETAIN (sample_poa 3 1 [(sample_oid, 2)])"
    "servants (orb returned_config) 7 = Some \<lparr>sv_private = None, sv_class = 0, vepv_shift = 0\<rparr>"
    by (simp_all add: returned_config_def sample_defs IS_RETAIN_def)
  have none: "active_map (orb returned_config) r i = None" for r i
    by (auto simp: returned_config_def sample_defs active_map_def split: option.splits if_splits)
  from activation_refines [OF returned_config_reachable p run] none run show ?thesis by auto
qed

text \<open>
  C14. Deactivation follows the specification of the active object map: it takes the id out
  of the map unless a method runs on the object; an id that is not in the map changes
  nothing.
\<close>

theorem deactivation_refines:
  assumes "reachable h c" "poas (orb c) r = Some p" "IS_RETAIN p"
    and "PortableServer_POA_deactivate_object h (Some r) (Some oid) (orb c) = Inr (res, t)"
  shows "res = Inr () \<and> active_map t =
    (if \<exists>f \<in> set (running c). \<exists>q. pobjs (orb c) (fr_pobj f) = Some q \<and> po_poa q = r \<and> po_object_id q = Some oid
     then active_map (orb c)
     else (active_map (orb c))(r := (active_map (orb c) r)(oid := None)))"
proof -
  let ?s = "orb c"
  note s = reachable_calm [OF assms(1)]
  have t: "calm (frames_refs (running c) + pushed_refs (pushed (orb c)))
     (owned c + frames_poas (running c)) (current_invocations (orb c)) (pushed (orb c)) {} t"
    using yieldsD [OF deactivate_object_calm [OF s] assms(4)] by simp
  obtain s1 where 1: "POA_LOCK r ?s = Inr s1"
    using assms(4) by (auto simp: PortableServer_POA_deactivate_object_def andThen_eq_Inr)
  obtain l where s1: "s1 = ?s\<lparr>locked := l\<rparr>" using POA_LOCK_locked [OF 1] by blast
  have p1: "poas s1 r = Some p" using assms(2) s1 by simp
  obtain pobj s2 active s3 s4 where
    2: "ORBit_POA_object_id_lookup_T r oid s1 = Inr (pobj, s2)"
    and 3: "ORBit_POAObject_is_active pobj s2 = Inr active"
    and 4: "(case pobj of
                    Some o' \<Rightarrow> if active then ORBit_POA_deactivate_object_T h r o' True False s2
                               else Inr s2
                  | None \<Rightarrow> Inr s2) = Inr s3"
    and 5: "POA_UNLOCK r s3 = Inr s4" and 6: "release_opt release_pobj pobj s4 = Inr t"
    and res: "res = Inr ()"
    using assms(3,4) 1 p1 unfolding PortableServer_POA_deactivate_object_def
    by (simp add: andThen_eq_Inr returns_def split: prod.splits) blast
  have c1: "calm (frames_refs (running c) + pushed_refs (pushed (orb c)))
     (owned c + frames_poas (running c)) (current_invocations (orb c)) (pushed (orb c)) {} s1"
    by (rule calm_POA_LOCK [OF 1 s])
  note look = lookup_result [OF 2 p1 c1]
  have m1: "active_map s1 = active_map ?s" unfolding s1 by (rule active_map_locked)
  have same: "serves s1 = serves ?s" by (rule serves_same) (simp add: s1)
  have kept: "serves t = serves s3"
  proof -
    obtain l' where "s4 = s3\<lparr>locked := l'\<rparr>" using POA_UNLOCK_locked [OF 5] by blast
    then show ?thesis using release_opt_serves [OF 6] serves_locked by simp
  qed
  show ?thesis
  proof (cases "pobj = None \<or> active_map ?s r oid = None")
    case True
    have "s3 = s2"
    proof (cases pobj)
      case (Some x)
      then have "\<not> active" using True look m1 3 by (auto simp: ORBit_POAObject_is_active_def andThen_eq_Inr)
      then show ?thesis using 4 Some by simp
    qed (use 4 in simp)
    then have "serves t = serves ?s" using kept look same by simp
    moreover have "active_map ?s r oid = None" using True look m1 by auto
    ultimately show ?thesis using res active_map_same [OF s t] by (auto simp: fun_eq_iff)
  next
    case False
    then obtain x sv where x: "pobj = Some x" and a: "active_map ?s r oid = Some sv" by auto
    then obtain q where q: "pobjs s2 x = Some q" "po_poa q = r" "po_object_id q = Some oid" "po_servant q = Some sv"
      using look m1 by auto
    then have "active" using 3 x by (auto simp: ORBit_POAObject_is_active_def andThen_eq_Inr)
    then have d: "ORBit_POA_deactivate_object_T h r x True False s2 = Inr s3" using 4 x by simp
    have st: "serves t = (if po_use_cnt q > 0 then serves ?s else (serves ?s)(x := None))"
      using serves_deactivate [OF d q(1)] kept look same by simp
    have "serves s2 x = Some (r, oid, sv)" unfolding serves_iff using q by blast
    then have sx: "serves ?s x = Some (r, oid, sv)" using look same by simp
    then obtain q0 where q0: "pobjs ?s x = Some q0" "po_poa q0 = r" "po_object_id q0 = Some oid"
      by (auto simp: serves_iff)
    have "po_use_cnt q = po_use_cnt q0"
      using 2 p1 x q(1) q0(1) s1
      by (auto simp: ORBit_POA_object_id_lookup_T_def andThen_eq_Inr dup_pobj_def heap_simps split: option.splits if_splits)
    then have use: "po_use_cnt q > 0 \<longleftrightarrow> (\<exists>f \<in> set (running c). fr_pobj f = x)"
      using in_use_iff [OF assms(1) q0(1)] by simp
    have only: "y = x" if "pobjs ?s y = Some qy" "po_poa qy = r" "po_object_id qy = Some oid" for y qy
      using object_map_of [OF s assms(2), of oid] that q0 by (metis option.inject)
    have "(\<exists>f \<in> set (running c). \<exists>q. pobjs (orb c) (fr_pobj f) = Some q \<and> po_poa q = r \<and> po_object_id q = Some oid)
      \<longleftrightarrow> po_use_cnt q > 0"
      unfolding use using only q0 by blast
    then show ?thesis
      using res st active_map_same [OF s t] active_map_remove [OF s t _ sx] by auto
  qed
qed

theorem deactivation_refines_witness:
  "\<exists>t. PortableServer_POA_deactivate_object sample_hooks (Some 1) (Some sample_oid) (orb running_config) =
     Inr (Inr (), t) \<and> active_map t = active_map (orb running_config)"
proof -
  have run: "PortableServer_POA_deactivate_object sample_hooks (Some 1) (Some sample_oid) (orb running_config) =
      Inr (Inr (), orb deferred_config)"
    using sample_deactivate_result by (simp add: running_config_def deferred_config_def)
  have p: "poas (orb running_config) 1 = Some (sample_poa 4 1 [(sample_oid, 2)])"
    "IS_RETAIN (sample_poa 4 1 [(sample_oid, 2)])"
    by (simp_all add: running_config_def sample_defs IS_RETAIN_def)
  have "\<exists>f \<in> set (running running_config). \<exists>q. pobjs (orb running_config) (fr_pobj f) = Some q \<and>
      po_poa q = 1 \<and> po_object_id q = Some sample_oid"
    by (simp add: running_config_def sample_defs sample_frame_def)
  with deactivation_refines [OF running_config_reachable p run] run show ?thesis by auto
qed

end
