(* ===== verification/Poa_Answers.thy ===== *)
theory Poa_Answers
imports Poa_Deferral
begin

text \<open>
  How requests are routed and answered: keys lead back to their object, the
  manager decides what happens before any servant is asked, and the paths on
  which the code answers twice, blocks, or ends the process.
\<close>

section \<open>Routing\<close>

text \<open>
  C24. The object key of an object leads back to it: the adaptor lookup of the ORB finds the
  POA of the object, and the lookup in the POA finds its id and the object.
\<close>

theorem key_routes_back:
  assumes "reachable h c" "pobjs (orb c) x = Some q" "poas (orb c) (po_poa q) = Some p"
    and "Destroyed \<notin> poa_life p" "ORBit_POAObject_object_to_objkey x (orb c) = Inr key"
  shows "ORBit_adaptor_find (Some key) (orb c) =
      andThen (dup_poa (po_poa q) (orb c)) (\<lambda>t. Inr (Some (po_poa q), t)) \<and>
    (\<exists>oid. po_object_id q = Some oid \<and>
      ORBit_POA_object_key_lookup_T (po_poa q) key (orb c) =
      andThen (dup_pobj x (orb c)) (\<lambda>t. Inr (oid, Some x, t)))"
proof -
  let ?s = "orb c" and ?r = "po_poa q"
  have l: "listed ?s" using reachable_parts(1) [OF assms(1)] by (simp add: sound_def)
  obtain oid where oid: "po_object_id q = Some oid" and key: "key = adaptor_key p @ oid"
    using assms(2,3,5) by (auto simp: ORBit_POAObject_object_to_objkey_def andThen_eq_Inr)
  have k: "0 \<le> poa_id p" "nat (poa_id p) < length (adaptors ?s)" "adaptors ?s ! nat (poa_id p) = Some ?r"
    "length (adaptor_key p) = ORBIT_ADAPTOR_PREFIX_LEN" "key_adaptor_id (adaptor_key p) = poa_id p"
    using l assms(3,4) unfolding listed_def by blast+
  have id: "key_adaptor_id key = poa_id p"
    using k(4,5) by (simp add: key key_adaptor_id_def)
  have i: "poa_id p < int (length (adaptors ?s))" using k(1,2) by linarith
  have find: "ORBit_adaptor_find (Some key) ?s = andThen (dup_poa ?r ?s) (\<lambda>t. Inr (Some ?r, t))"
    using k i assms(3) by (simp add: ORBit_adaptor_find_def Let_def id) (simp add: key deref_def)
  have "map_of (oid_to_obj_map p) oid = Some x"
    using object_map_iff [OF assms(1,3)] assms(2) oid by blast
  then have "ORBit_POA_object_key_lookup_T ?r key ?s = andThen (dup_pobj x ?s) (\<lambda>t. Inr (oid, Some x, t))"
    using k(4) assms(3) oid
    by (cases "dup_pobj x ?s")
      (simp_all add: ORBit_POA_object_key_lookup_T_def ORBit_POA_object_id_lookup_T_def deref_def key)
  then show ?thesis using find oid by blast
qed

theorem key_routes_back_witness:
  "\<exists>key. ORBit_POAObject_object_to_objkey 2 (orb idle_config) = Inr key \<and>
    ORBit_adaptor_find (Some key) (orb idle_config) =
      andThen (dup_poa 1 (orb idle_config)) (\<lambda>t. Inr (Some 1, t))"
proof -
  let ?q = "sample_object 2 (Some 3) (Some 7) {} 0" and ?p = "sample_poa 3 1 [(sample_oid, 2)]"
  have 1: "pobjs (orb idle_config) 2 = Some ?q" "poas (orb idle_config) (po_poa ?q) = Some ?p"
    "Destroyed \<notin> poa_life ?p" "po_poa ?q = 1"
    by (simp_all add: idle_config_def sample_defs)
  have 2: "ORBit_POAObject_object_to_objkey 2 (orb idle_config) = Inr (adaptor_key ?p @ sample_oid)"
    by (simp add: idle_config_def sample_defs ORBit_POAObject_object_to_objkey_def run_defs)
  from key_routes_back [OF idle_config_reachable 1(1-3) 2] 2 1(4) show ?thesis by auto
qed

section \<open>The gate of the manager\<close>

lemma release_poa_events: "release_poa r s = Inr t \<Longrightarrow> events t = events s"
  by (auto simp: release_poa_def ORBit_POA_free_fn_def run_simps split: if_splits
      dest!: release_manager_only)

lemma release_pobj_events: "release_pobj x s = Inr t \<Longrightarrow> events t = events s"
  by (auto simp: release_pobj_def ORBit_POAObject_release_cb_def run_simps split: if_splits
      dest!: release_poa_events)

lemma clean_out_rest:
  assumes "clean_out r s = Inr t"
  shows "pobjs t = pobjs s" "events t = events s" "current_invocations t = current_invocations s"
proof -
  obtain u where u: "POA_UNLOCK r s = Inr u" and t: "release_poa r u = Inr t"
    using assms by (auto simp: clean_out_def andThen_eq_Inr)
  have "pobjs u = pobjs s \<and> events u = events s \<and> current_invocations u = current_invocations s"
    using POA_UNLOCK_locked [OF u] by auto
  moreover have "pobjs t = pobjs u" by (rule release_poa_pobjs [OF t])
  moreover have "events t = events u" by (rule release_poa_events [OF t])
  moreover have "current_invocations t = current_invocations u"
    using release_poa_keeps [OF t] by (simp add: keeps_poas_def)
  ultimately show "pobjs t = pobjs s" "events t = events s" "current_invocations t = current_invocations s"
    by simp_all
qed

lemma gate_path:
  assumes run: "ORBit_POAObject_handle_request h x opname buf s = Inr (f, ev, t)"
    and q: "pobjs s x = Some q" "poas s (po_poa q) = Some p" "managers s (poa_manager p) = Some m"
    and closed: "manager_gate (mgr_state m) (buf \<noteq> None) \<noteq> Enter"
  shows "f = None \<and> pobjs t = pobjs s \<and> current_invocations t = current_invocations s \<and>
    (case manager_gate (mgr_state m) (buf \<noteq> None) of
       Queue \<Rightarrow> ev = None \<and> events t = events s
     | Refuse e \<Rightarrow> ev = Some e \<and> events t = events s @ (case buf of None \<Rightarrow> [] | Some b \<Rightarrow> [Exception_reply b e]))"
proof -
  let ?r = "po_poa q"
  obtain s1 s2 where 1: "dup_poa ?r s = Inr s1" and 2: "POA_LOCK ?r s1 = Inr s2"
    using run q by (auto simp: ORBit_POAObject_handle_request_def andThen_eq_Inr Let_def)
  have s1: "pobjs s1 = pobjs s" "current_invocations s1 = current_invocations s" "events s1 = events s"
    "managers s1 = managers s" "\<exists>p'. poas s1 ?r = Some p' \<and> poa_manager p' = poa_manager p"
    using 1 q by (auto simp: dup_poa_def run_simps split: if_splits)
  obtain l where s2: "s2 = s1\<lparr>locked := l\<rparr>" using POA_LOCK_locked [OF 2] by blast
  obtain p' where p': "poas s2 ?r = Some p'" "managers s2 (poa_manager p') = Some m"
    using s1 s2 q(3) by auto
  show ?thesis
  proof (cases "manager_gate (mgr_state m) (buf \<noteq> None)")
    case Queue
    have "\<exists>g. clean_out ?r (set_poa ?r g s2) = Inr t \<and> f = None \<and> ev = None"
      using run q(1) 1 2 p' Queue
      by (auto simp: ORBit_POAObject_handle_request_def andThen_eq_Inr Let_def)
    then obtain g where "clean_out ?r (set_poa ?r g s2) = Inr t" "f = None" "ev = None" by blast
    then show ?thesis using clean_out_rest [of ?r "set_poa ?r g s2" t] Queue s1 s2 by (simp add: set_poa_def)
  next
    case (Refuse e)
    obtain s3 where 3: "return_exception buf False e s2 = Inr s3" and 4: "clean_out ?r s3 = Inr t"
      and r: "f = None" "ev = Some e"
      using run q(1) 1 2 p' Refuse
      by (auto simp: ORBit_POAObject_handle_request_def andThen_eq_Inr Let_def)
    have "pobjs s3 = pobjs s2 \<and> current_invocations s3 = current_invocations s2 \<and>
        events s3 = events s2 @ (case buf of None \<Rightarrow> [] | Some b \<Rightarrow> [Exception_reply b e])"
      using 3 by (auto simp: return_exception_def ORBit_recv_buffer_return_sys_exception_def andThen_eq_Inr
          log_event_def split: option.splits)
    then show ?thesis using clean_out_rest [OF 4] r Refuse s1 s2 by simp
  qed (use closed in simp)
qed

text \<open>What the handler took before it looked at the manager it gives back exactly.\<close>

lemma same_refs: "poa_refs p = n \<Longrightarrow> p\<lparr>poa_refs := n\<rparr> = p" for p :: POA
  by (cases p) simp

lemma clean_out_gives_back:
  assumes 1: "dup_poa r s = Inr s1" and 2: "POA_LOCK r s1 = Inr s2" and p: "poas s r = Some p" "0 < poa_refs p"
    and t: "clean_out r (set_poa r g s2\<lparr>events := e\<rparr>) = Inr t" and g: "\<And>p. poa_refs (g p) = poa_refs p"
      "\<And>p n. g (p\<lparr>poa_refs := n\<rparr>) = g p\<lparr>poa_refs := n\<rparr>"
  shows "t = set_poa r g s\<lparr>events := e\<rparr>"
proof -
  let ?p = "g (p\<lparr>poa_refs := Suc (poa_refs p)\<rparr>)"
  have s1: "s1 = s\<lparr>poas := (poas s)(r \<mapsto> p\<lparr>poa_refs := Suc (poa_refs p)\<rparr>)\<rparr>"
    using 1 p by (simp add: dup_poa_def deref_def set_poa_def)
  obtain l where s2: "s2 = s1\<lparr>locked := l\<rparr>" "if thread_safe s then Poa_lock r \<notin> locked s \<and> l = insert (Poa_lock r) (locked s) else l = locked s"
    using 2 by (auto simp: POA_LOCK_def mutex_lock_def andThen_eq_Inr s1 split: if_splits)
  let ?u = "s\<lparr>poas := (poas s)(r \<mapsto> ?p), locked := l, events := e\<rparr>"
  have "set_poa r g s2\<lparr>events := e\<rparr> = ?u" by (simp add: set_poa_def s1 s2(1))
  with t have "clean_out r ?u = Inr t" by simp
  then obtain v where v: "POA_UNLOCK r ?u = Inr v" and w: "release_poa r v = Inr t"
    by (auto simp: clean_out_def andThen_eq_Inr)
  have v': "v = ?u\<lparr>locked := locked s\<rparr>"
    using v s2(2) by (auto simp: POA_UNLOCK_def mutex_unlock_def andThen_eq_Inr split: if_splits)
  have gp: "g p\<lparr>poa_refs := poa_refs p\<rparr> = g p" by (rule same_refs) (rule g(1))
  then show ?thesis
    using v' w p g by (auto simp: gp release_poa_def do_unref_def deref_def andThen_eq_Inr Let_def set_poa_def split: if_splits)
qed

text \<open>
  C25. While the manager of its POA is not active a request reaches no servant. Exactly this
  happens instead: from the wire and with a manager that holds, it is put in front of the held
  requests of the POA and not answered; otherwise it is refused with TRANSIENT or, when the manager
  is inactive, OBJ_ADAPTER, which is written if it came from the wire. Nothing else in the
  process differs afterwards.
\<close>

theorem closed_gate_keeps_servants_out:
  assumes run: "ORBit_POAObject_handle_request h x opname buf s = Inr (f, ev, t)"
    and q: "pobjs s x = Some q" "poas s (po_poa q) = Some p" "managers s (poa_manager p) = Some m"
    and m: "mgr_state m \<noteq> ACTIVE" and p: "0 < poa_refs p"
  shows "f = None \<and>
    (case buf of
       Some b \<Rightarrow>
         if mgr_state m = HOLDING
         then ev = None \<and> t = set_poa (po_poa q) (\<lambda>p. p\<lparr>held_requests := b # held_requests p\<rparr>) s
         else let e = (if mgr_state m = INACTIVE then ex_CORBA_OBJ_ADAPTER else ex_CORBA_TRANSIENT)
              in ev = Some e \<and> t = log_event (Exception_reply b e) s
     | None \<Rightarrow> ev = Some (if mgr_state m = INACTIVE then ex_CORBA_OBJ_ADAPTER else ex_CORBA_TRANSIENT) \<and> t = s)"
proof -
  let ?r = "po_poa q"
  obtain s1 s2 where 1: "dup_poa ?r s = Inr s1" and 2: "POA_LOCK ?r s1 = Inr s2"
    using run q by (auto simp: ORBit_POAObject_handle_request_def andThen_eq_Inr Let_def)
  note gives = clean_out_gives_back [OF 1 2 q(2) p]
  have s1: "managers s1 = managers s" "events s1 = events s" "\<exists>p'. poas s1 ?r = Some p' \<and> poa_manager p' = poa_manager p"
    using 1 q by (auto simp: dup_poa_def run_simps split: if_splits)
  obtain l where s2: "s2 = s1\<lparr>locked := l\<rparr>" using POA_LOCK_locked [OF 2] by blast
  obtain p' where p': "poas s2 ?r = Some p'" "managers s2 (poa_manager p') = Some m"
    using s1 s2 q(3) by auto
  have e2: "events s2 = events s" using s1 s2 by simp
  have same: "u\<lparr>events := events u\<rparr> = u" "set_poa ?r (\<lambda>p. p) u = u" for u :: orb
    by (simp_all add: set_poa_def fun_upd_idem option.map_ident)
  show ?thesis
  proof (cases "manager_gate (mgr_state m) (buf \<noteq> None)")
    case Queue
    then obtain b where b: "buf = Some b" "mgr_state m = HOLDING" by (cases "mgr_state m"; cases buf) auto
    let ?g = "\<lambda>p. p\<lparr>held_requests := b # held_requests p\<rparr>"
    have "clean_out ?r (set_poa ?r ?g s2) = Inr t \<and> f = None \<and> ev = None"
      using run q(1) 1 2 p' Queue b
      by (auto simp: ORBit_POAObject_handle_request_def andThen_eq_Inr Let_def)
    moreover have "set_poa ?r ?g s2 = set_poa ?r ?g s2\<lparr>events := events s\<rparr>" using e2 by (simp add: set_poa_def)
    ultimately have "t = set_poa ?r ?g s\<lparr>events := events s\<rparr>" "f = None" "ev = None"
      using gives [where g = ?g and e = "events s"] by simp_all
    then show ?thesis using b by (simp add: set_poa_def)
  next
    case (Refuse e)
    obtain s3 where 3: "return_exception buf False e s2 = Inr s3" and 4: "clean_out ?r s3 = Inr t"
      and r: "f = None" "ev = Some e"
      using run q(1) 1 2 p' Refuse
      by (auto simp: ORBit_POAObject_handle_request_def andThen_eq_Inr Let_def)
    let ?es = "events s @ (case buf of None \<Rightarrow> [] | Some b \<Rightarrow> [Exception_reply b e])"
    have "s3 = set_poa ?r (\<lambda>p. p) s2\<lparr>events := ?es\<rparr>"
      using 3 e2 by (auto simp: return_exception_def ORBit_recv_buffer_return_sys_exception_def andThen_eq_Inr
          log_event_def same split: option.splits)
    with 4 gives [where g = "\<lambda>p. p" and e = ?es] have t: "t = s\<lparr>events := ?es\<rparr>" by (simp add: same)
    have "e = (if mgr_state m = INACTIVE then ex_CORBA_OBJ_ADAPTER else ex_CORBA_TRANSIENT)"
      "\<not> (buf \<noteq> None \<and> mgr_state m = HOLDING)"
      using Refuse m by (cases "mgr_state m"; cases buf; simp)+
    then show ?thesis using r t by (cases buf) (auto simp: log_event_def Let_def)
  qed (use m in \<open>cases "mgr_state m"; cases buf; simp\<close>)
qed

definition gate_orb :: "manager_state \<Rightarrow> orb" where
  "gate_orb st = (orb idle_config)\<lparr>managers := [0 \<mapsto> \<lparr>mgr_refs = 1, poa_collection = [1], mgr_state = st\<rparr>],
     buffers := [9 \<mapsto> \<lparr>req_objkey = Some (le32 0 @ replicate 16 0 @ sample_oid), req_opname = ''ping'',
       req_connection = 0\<rparr>]\<rparr>"

lemma gate_run:
  "ORBit_POAObject_handle_request sample_hooks 2 ''ping'' (Some 9) (gate_orb DISCARDING) =
   Inr (None, Some ex_CORBA_TRANSIENT, log_event (Exception_reply 9 ex_CORBA_TRANSIENT) (gate_orb DISCARDING))"
  by (simp add: gate_orb_def idle_config_def run_defs sample_defs ORBit_POAObject_handle_request_def
      return_exception_def ORBit_recv_buffer_return_sys_exception_def clean_out_def log_event_def)

theorem closed_gate_keeps_servants_out_witness:
  "\<exists>t. ORBit_POAObject_handle_request sample_hooks 2 ''ping'' (Some 9) (gate_orb HOLDING) = Inr (None, None, t) \<and>
    t = set_poa 1 (\<lambda>p. p\<lparr>held_requests := 9 # held_requests p\<rparr>) (gate_orb HOLDING)"
proof -
  let ?q = "sample_object 2 (Some 3) (Some 7) {} 0" and ?p = "sample_poa 3 1 [(sample_oid, 2)]"
  have 1: "pobjs (gate_orb HOLDING) 2 = Some ?q" "poas (gate_orb HOLDING) (po_poa ?q) = Some ?p"
    "managers (gate_orb HOLDING) (poa_manager ?p) = Some \<lparr>mgr_refs = 1, poa_collection = [1], mgr_state = HOLDING\<rparr>"
    "po_poa ?q = 1" "0 < poa_refs ?p"
    by (simp_all add: gate_orb_def idle_config_def sample_defs)
  have "\<not> isl (ORBit_POAObject_handle_request sample_hooks 2 ''ping'' (Some 9) (gate_orb HOLDING))"
    by (simp add: gate_orb_def idle_config_def run_defs sample_defs ORBit_POAObject_handle_request_def clean_out_def)
  then obtain f ev t where 2: "ORBit_POAObject_handle_request sample_hooks 2 ''ping'' (Some 9) (gate_orb HOLDING) = Inr (f, ev, t)"
    by (metis isl_def sum.exhaust_sel surj_pair)
  from closed_gate_keeps_servants_out [OF 2 1(1-3) _ 1(5)] 2 1(4) show ?thesis by simp
qed

text \<open>
  C36. A request from the wire that the manager refuses is answered twice: the handler of the
  object writes the exception and leaves it in the environment, and the caller of the
  handler writes it again.
\<close>

theorem refused_request_answered_twice:
  assumes "ORBit_POAObject_invoke_incoming_request h (Some x) (Some b) None s = Inr (f, t)"
    and "pobjs s x = Some q" "poas s (po_poa q) = Some p" "managers s (poa_manager p) = Some m"
    and "manager_gate (mgr_state m) True = Refuse e"
  shows "f = None \<and> events t = events s @ [Exception_reply b e, Exception_reply b e]"
proof -
  obtain req f' ev u where req: "buffers s b = Some req"
    and run: "ORBit_POAObject_handle_request h x (req_opname req) (Some b) s = Inr (f', ev, u)"
    and rest: "(case f' of Some f \<Rightarrow> Inr (Some f, u)
      | None \<Rightarrow> andThen (incoming_done (Some x) (Some b) ev u) (\<lambda>s. Inr (None, s))) = Inr (f, t)"
    using assms(1) by (auto simp: ORBit_POAObject_invoke_incoming_request_def andThen_eq_Inr)
  have u: "f' = None" "ev = Some e" "events u = events s @ [Exception_reply b e]"
    using gate_path [OF run assms(2-4)] assms(5) by auto
  then have f: "f = None" and d: "incoming_done (Some x) (Some b) (Some e) u = Inr t"
    using rest by (auto simp: andThen_eq_Inr)
  obtain v w where v: "release_pobj x u = Inr v"
    and w: "return_exception (Some b) False e v = Inr w" and t: "giop_recv_buffer_unuse (Some b) w = Inr t"
    using d by (auto simp: incoming_done_def release_opt_def andThen_eq_Inr)
  have "events v = events u" by (rule release_pobj_events [OF v])
  moreover have "events w = events v @ [Exception_reply b e]"
    using w by (auto simp: return_exception_def ORBit_recv_buffer_return_sys_exception_def andThen_eq_Inr log_event_def)
  moreover have "events t = events w" using t by (auto simp: giop_recv_buffer_unuse_def andThen_eq_Inr)
  ultimately show ?thesis using f u(3) by simp
qed

theorem refused_request_answered_twice_witness:
  "\<exists>t. ORBit_POAObject_invoke_incoming_request sample_hooks (Some 2) (Some 9) None (gate_orb DISCARDING) =
      Inr (None, t) \<and>
    events t = [Exception_reply 9 ex_CORBA_TRANSIENT, Exception_reply 9 ex_CORBA_TRANSIENT]"
proof -
  let ?q = "sample_object 2 (Some 3) (Some 7) {} 0" and ?p = "sample_poa 3 1 [(sample_oid, 2)]"
  have 1: "pobjs (gate_orb DISCARDING) 2 = Some ?q" "poas (gate_orb DISCARDING) (po_poa ?q) = Some ?p"
    "managers (gate_orb DISCARDING) (poa_manager ?p) = Some \<lparr>mgr_refs = 1, poa_collection = [1], mgr_state = DISCARDING\<rparr>"
    "events (gate_orb DISCARDING) = []"
    by (simp_all add: gate_orb_def idle_config_def sample_defs)
  have 2: "\<not> isl (ORBit_POAObject_invoke_incoming_request sample_hooks (Some 2) (Some 9) None (gate_orb DISCARDING))"
    using gate_run
    by (simp add: ORBit_POAObject_invoke_incoming_request_def run_defs incoming_done_def return_exception_def
        ORBit_recv_buffer_return_sys_exception_def giop_recv_buffer_unuse_def gate_orb_def idle_config_def sample_defs
        log_event_def)
  then obtain f t where 3: "ORBit_POAObject_invoke_incoming_request sample_hooks (Some 2) (Some 9) None (gate_orb DISCARDING) = Inr (f, t)"
    by (metis isl_def sum.exhaust_sel surj_pair)
  have "manager_gate (mgr_state \<lparr>mgr_refs = 1, poa_collection = [1], mgr_state = DISCARDING\<rparr>) True =
      Refuse ex_CORBA_TRANSIENT" by simp
  from refused_request_answered_twice [OF 3 1(1-3) this] 3 1(4) show ?thesis by auto
qed

end
