(* ===== verification/Poa_Scenes.thy ===== *)
theory Poa_Scenes
imports Poa_Facts
begin

text \<open>
  More configurations the steps reach: a request that is held, a POA with a
  servant manager, and a POA on which one servant incarnates two objects.
\<close>

section \<open>A held request\<close>

definition sample_key :: "byte list" where
  "sample_key = le32 0 @ replicate 16 0 @ sample_oid"

definition sample_request :: request where
  "sample_request = \<lparr>req_objkey = Some sample_key, req_opname = ''ping'', req_connection = 0\<rparr>"

definition holding_orb :: orb where
  "holding_orb = sample_orb [1 \<mapsto> sample_poa 3 1 [(sample_oid, 2)]]
     [2 \<mapsto> sample_object 2 (Some 3) (Some 7) {} 0] HOLDING
     [3 \<mapsto> \<lparr>ref_refs = 1, type_id = Some ''Sample'', adaptor_obj = Some 2\<rparr>]
     [7 \<mapsto> \<lparr>sv_private = Some 2, sv_class = 0, vepv_shift = 0\<rparr>] 4 [] []"

definition held_orb :: orb where
  "held_orb = sample_orb [1 \<mapsto> (sample_poa 3 1 [(sample_oid, 2)])\<lparr>held_requests := [4]\<rparr>]
     [2 \<mapsto> sample_object 2 (Some 3) (Some 7) {} 0] HOLDING
     [3 \<mapsto> \<lparr>ref_refs = 1, type_id = Some ''Sample'', adaptor_obj = Some 2\<rparr>]
     [7 \<mapsto> \<lparr>sv_private = Some 2, sv_class = 0, vepv_shift = 0\<rparr>] 5 [] []"

lemma sample_hold:
  "perform sample_hooks (Manager_hold (Some 0) False) (orb idle_config) = Inr ({#}, holding_orb)"
  by (simp add: run_defs sample_defs holding_orb_def idle_config_def
      PortableServer_POAManager_hold_requests_def set_manager_state_def)

lemma sample_adaptor_id: "key_adaptor_id sample_key = 0"
  by (simp add: key_adaptor_id_def sample_key_def le32_def)

lemma sample_message:
  "ORBit_handle_request sample_hooks 4 (arrived sample_request holding_orb) = Inr (None, held_orb)"
  by (simp add: run_defs sample_defs holding_orb_def held_orb_def arrived_def sample_request_def
      ORBit_handle_request_def ORBit_adaptor_find_def sample_adaptor_id [unfolded sample_key_def sample_oid_def] sample_key_def ORBit_POA_handle_request_def
      ORBit_POA_object_key_lookup_T_def ORBit_POA_object_id_lookup_T_def dispatch_request_def
      ORBit_POAObject_invoke_incoming_request_def ORBit_POAObject_handle_request_def clean_out_def
      incoming_done_def giop_recv_buffer_unuse_def)

definition held_config :: config where
  "held_config = \<lparr>running = [], owned = {#1#}, orb = held_orb\<rparr>"

lemma held_config_reachable: "reachable sample_hooks held_config"
proof -
  have "reachable sample_hooks \<lparr>running = [], owned = {#1#}, orb = orb idle_config\<rparr>"
    using idle_config_reachable by (simp add: idle_config_def)
  from reachable.more [OF this step.call [OF _ sample_hold]]
  have 1: "reachable sample_hooks \<lparr>running = [], owned = {#1#}, orb = holding_orb\<rparr>" by simp
  have "idle_room holding_orb" by (simp add: idle_room_def holding_orb_def sample_defs)
  moreover have "answerable (next_ref holding_orb) (arrived sample_request holding_orb)"
    by (simp add: answerable_def arrived_def holding_orb_def sample_defs request_processing_def)
  moreover have "ORBit_handle_request sample_hooks (next_ref holding_orb) (arrived sample_request holding_orb) =
      Inr (None, held_orb)"
    using sample_message by (simp add: holding_orb_def sample_defs)
  ultimately have "step sample_hooks \<lparr>running = [], owned = {#1#}, orb = holding_orb\<rparr>
      \<lparr>running = started_frames None [], owned = {#1#}, orb = held_orb\<rparr>"
    by (rule step.message)
  from reachable.more [OF 1 this] show ?thesis by (simp add: held_config_def started_frames_def)
qed

section \<open>A second POA\<close>

definition child_poa :: "nat \<Rightarrow> u32 \<Rightarrow> (oid \<times> nat) list \<Rightarrow> policies \<Rightarrow> POA" where
  "child_poa n k m pol = \<lparr>poa_refs = n, adaptor_key = le32 1 @ replicate 16 0,
     poa_thread_hint = HINT_NONE, poa_use_cnt = 0, poa_life = {}, poa_id = 1, next_sysid = k,
     poa_name = ''child'', parent_poa = Some 1, poa_manager = 0, servant_manager = None,
     default_servant = None, oid_to_obj_map = m, held_requests = [], child_poas = [],
     poa_policies = pol\<rparr>"

definition family_orb where
  "family_orb p os bs sv n is evs = \<lparr>
     poas = [1 \<mapsto> (sample_poa 3 0 [])\<lparr>child_poas := [(''child'', 2)]\<rparr>, 2 \<mapsto> p], pobjs = os,
     managers = [0 \<mapsto> \<lparr>mgr_refs = 2, poa_collection = [1, 2], mgr_state = ACTIVE\<rparr>],
     objrefs = bs, servants = [7 \<mapsto> \<lparr>sv_private = sv, sv_class = 0, vepv_shift = 0\<rparr>],
     buffers = (\<lambda>_. None), next_ref = n, orb_refs = 3, adaptors = [Some 1, Some 2],
     forw_binds = (\<lambda>_. None), current_invocations = is, pushed = [], locked = {},
     thread_safe = False, thread_io = False, events = evs\<rparr>"

lemma in_order:
  "f(2 := a, Suc 0 := b) = f(Suc 0 := b, 2 := a)" "(g :: nat \<Rightarrow> _)(4 := c, 3 := d) = g(3 := d, 4 := c)"
  by (rule fun_upd_twist, simp)+

lemmas family_defs = sample_defs family_orb_def child_poa_def in_order numeral_2_eq_2 [symmetric]

lemma family_created:
  assumes "ORBit_POA_set_policies ps = Inr pol" "\<And>n. genuid_cookie h n = replicate 16 0"
  shows "perform h (Create_POA (Some 1) (Some ''child'') (Some 0) (Some ps))
      (root_orb ACTIVE [7 \<mapsto> \<lparr>sv_private = None, sv_class = 0, vepv_shift = 0\<rparr>]) =
    Inr ({#2#}, family_orb (child_poa 2 0 [] pol) (\<lambda>_. None) (\<lambda>_. None) None 3 [] [])"
  by (simp add: assms run_defs family_defs PortableServer_POA_create_POA_def
      ORBit_POA_new_def ORBit_adaptor_setup_def ORBit_POAManager_register_poa_def ORBit_POA_add_child_def)

text \<open>A program whose servants have a finalize function.\<close>

definition final_hooks :: hooks where
  "final_hooks = sample_hooks\<lparr>finalize := (\<lambda>_. Some False)\<rparr>"

lemma servant_ready:
  assumes "h = sample_hooks \<or> h = final_hooks"
  shows "reachable h \<lparr>running = [], owned = {#1#},
      orb = root_orb ACTIVE [7 \<mapsto> \<lparr>sv_private = None, sv_class = 0, vepv_shift = 0\<rparr>]\<rparr>"
proof -
  have 0: "reachable h \<lparr>running = [], owned = {#}, orb = first_orb\<rparr>"
    using reachable.start [of h False False] by (simp add: first_orb_def)
  have p: "provided h Setup_root first_orb"
    using assms by (auto simp: room_def sample_hooks_def final_hooks_def first_orb_def)
  have "perform h Setup_root first_orb = Inr ({#1#}, root_orb HOLDING (\<lambda>_. None))"
    using assms sample_setup
    by (auto simp: run_defs sample_defs final_hooks_def ORBit_POA_setup_root_def ORBit_POA_new_def
      ORBit_POA_set_policies_def default_policies_def ORBit_POAManager_new_def
      ORBit_adaptor_setup_def ORBit_POAManager_register_poa_def first_orb_def)
  from reachable.more [OF 0 step.call [OF p this]]
  have 1: "reachable h \<lparr>running = [], owned = {#1#}, orb = root_orb HOLDING (\<lambda>_. None)\<rparr>" by simp
  have "perform h (Manager_activate (Some 0)) (root_orb HOLDING (\<lambda>_. None)) = Inr ({#}, root_orb ACTIVE (\<lambda>_. None))"
    using assms sample_manager
    by (auto simp: run_defs sample_defs final_hooks_def PortableServer_POAManager_activate_def
      activate_collection_def ORBit_POA_handle_held_requests_def)
  from reachable.more [OF 1 step.call [OF _ this]]
  have 2: "reachable h \<lparr>running = [], owned = {#1#}, orb = root_orb ACTIVE (\<lambda>_. None)\<rparr>" by simp
  have "servants (root_orb ACTIVE (\<lambda>_. None)) 7 = None" by (simp add: sample_defs)
  from reachable.more [OF 2 step.servant [OF this, where k = 0]]
  show ?thesis by (simp add: sample_defs)
qed

lemma family_reachable:
  assumes "h = sample_hooks \<or> h = final_hooks" "ORBit_POA_set_policies ps = Inr pol"
  shows "reachable h \<lparr>running = [], owned = {#2, 1#},
      orb = family_orb (child_poa 2 0 [] pol) (\<lambda>_. None) (\<lambda>_. None) None 3 [] []\<rparr>"
proof -
  have c: "genuid_cookie h n = replicate 16 0" for n
    using assms(1) by (auto simp: sample_hooks_def final_hooks_def)
  have "provided h (Create_POA (Some 1) (Some ''child'') (Some 0) (Some ps))
      (root_orb ACTIVE [7 \<mapsto> \<lparr>sv_private = None, sv_class = 0, vepv_shift = 0\<rparr>])"
    by (simp add: room_def c sample_defs)
  from reachable.more [OF servant_ready [OF assms(1)] step.call [OF this family_created [OF assms(2) c]]]
  show ?thesis by simp
qed

section \<open>A servant manager\<close>

definition managed_policies :: policies where
  "managed_policies = default_policies\<lparr>p_request_processing := USE_SERVANT_MANAGER\<rparr>"

definition fresh_object :: "nat \<Rightarrow> nat option \<Rightarrow> oid \<Rightarrow> POAObject" where
  "fresh_object n b oid = (new_pobj 2)\<lparr>po_refs := n, po_objref := b, po_object_id := Some oid\<rparr>"

definition managed_config :: config where
  "managed_config = \<lparr>running = [], owned = {#2, 1#},
     orb = family_orb (child_poa 3 1 [(sample_oid, 3)] managed_policies)
       [3 \<mapsto> fresh_object 1 (Some 4) sample_oid]
       [4 \<mapsto> \<lparr>ref_refs = 1, type_id = Some ''T'', adaptor_obj = Some 3\<rparr>] None 5 [] []\<rparr>"

lemma managed_reference:
  "perform sample_hooks (Create_reference (Some 2) (Some ''T''))
     (family_orb (child_poa 2 0 [] managed_policies) (\<lambda>_. None) (\<lambda>_. None) None 3 [] []) =
   Inr ({#}, orb managed_config)"
  by (simp add: run_defs family_defs managed_config_def managed_policies_def default_policies_def
      fresh_object_def PortableServer_POA_create_reference_def ORBit_POA_create_object_T_def
      new_object_id_def ORBit_POA_new_system_objid_T_def new_pobj_def ORBit_POA_obj_to_ref_def
      ORBit_objref_new_def)

lemma managed_config_reachable: "reachable sample_hooks managed_config"
proof -
  have "ORBit_POA_set_policies [Request_processing_policy USE_SERVANT_MANAGER] = Inr managed_policies"
    by (simp add: ORBit_POA_set_policies_def managed_policies_def default_policies_def)
  note 1 = family_reachable [OF disjI1 [OF refl] this]
  have "provided sample_hooks (Create_reference (Some 2) (Some ''T''))
      (family_orb (child_poa 2 0 [] managed_policies) (\<lambda>_. None) (\<lambda>_. None) None 3 [] [])"
    by (simp add: new_key_def family_orb_def child_poa_def)
  from reachable.more [OF 1 step.call [OF this managed_reference]]
  show ?thesis by (simp add: managed_config_def)
qed

section \<open>One servant, two objects\<close>

definition multiple_policies :: policies where
  "multiple_policies = default_policies\<lparr>p_id_uniqueness := MULTIPLE_ID\<rparr>"

definition second_oid :: oid where
  "second_oid = le32 2 @ [7, 7, 7, 7]"

definition shared_object :: "nat \<Rightarrow> nat option \<Rightarrow> nat option \<Rightarrow> oid \<Rightarrow> u16 \<Rightarrow> nat option \<Rightarrow> life_flag set \<Rightarrow> POAObject" where
  "shared_object n b sv oid k nx fl = \<lparr>po_refs = n, po_objref = b, po_servant = sv, po_poa = 2,
     po_object_id = Some oid, vepvmap_cache = Some 0, po_life = fl, po_use_cnt = k, po_next = nx\<rparr>"

definition shared_orb where
  "shared_orb n m q q' = (\<lambda>bs sv k is evs.
     family_orb (child_poa n 2 m multiple_policies) [3 \<mapsto> q, 4 \<mapsto> q'] bs sv k is evs)"

definition both :: "(oid \<times> nat) list" where
  "both = [(sample_oid, 3), (second_oid, 4)]"

lemmas shared_defs = family_defs shared_orb_def shared_object_def multiple_policies_def
  default_policies_def second_oid_def both_def final_hooks_def

lemma shared_first:
  assumes "h = sample_hooks \<or> h = final_hooks"
  shows "perform h (Activate_object (Some 2) (Some 7))
     (family_orb (child_poa 2 0 [] multiple_policies) (\<lambda>_. None) (\<lambda>_. None) None 3 [] []) =
   Inr ({#}, family_orb (child_poa 3 1 [(sample_oid, 3)] multiple_policies)
     [3 \<mapsto> shared_object 1 None (Some 7) sample_oid 0 None {}] (\<lambda>_. None) (Some 3) 4 [] [])"
  using assms
  by (auto simp: run_defs shared_defs PortableServer_POA_activate_object_def
      ORBit_POA_create_object_T_def new_object_id_def ORBit_POA_new_system_objid_T_def
      new_pobj_def ORBit_POA_activate_object_T_def link_servant_def)

lemma shared_second:
  assumes "h = sample_hooks \<or> h = final_hooks"
  shows "perform h (Activate_object (Some 2) (Some 7))
     (family_orb (child_poa 3 1 [(sample_oid, 3)] multiple_policies)
     [3 \<mapsto> shared_object 1 None (Some 7) sample_oid 0 None {}] (\<lambda>_. None) (Some 3) 4 [] []) =
   Inr ({#}, shared_orb 4 both (shared_object 1 None (Some 7) sample_oid 0 None {})
     (shared_object 1 None (Some 7) second_oid 0 (Some 3) {}) (\<lambda>_. None) (Some 4) 5 [] [])"
  using assms
  by (auto simp: run_defs shared_defs PortableServer_POA_activate_object_def
      ORBit_POA_create_object_T_def new_object_id_def ORBit_POA_new_system_objid_T_def
      new_pobj_def ORBit_POA_activate_object_T_def link_servant_def le32_def)

lemma shared_reference:
  "perform final_hooks (Id_to_reference (Some 2) (Some sample_oid))
     (shared_orb 4 both (shared_object 1 None (Some 7) sample_oid 0 None {})
       (shared_object 1 None (Some 7) second_oid 0 (Some 3) {}) (\<lambda>_. None) (Some 4) 5 [] []) =
   Inr ({#}, shared_orb 4 both (shared_object 2 (Some 5) (Some 7) sample_oid 0 None {})
     (shared_object 1 None (Some 7) second_oid 0 (Some 3) {})
     [5 \<mapsto> \<lparr>ref_refs = 1, type_id = Some ''Sample'', adaptor_obj = Some 3\<rparr>] (Some 4) 6 [] [])"
  by (simp add: run_defs shared_defs PortableServer_POA_id_to_reference_def
      ORBit_POA_object_id_lookup_T_def ORBit_POAObject_is_active_def ORBit_POA_obj_to_ref_def
      ORBit_objref_new_def)

definition shared_frame :: frame where
  "shared_frame = \<lparr>fr_pobj = 3, fr_poa = 2, fr_buffer = None, fr_opname = ''ping'',
     fr_cookie = None, fr_oid = Some sample_oid, fr_invoked = True, fr_adaptor = None\<rparr>"

lemma shared_call:
  "ORBit_POAObject_handle_request final_hooks 3 ''ping'' None
     (shared_orb 4 both (shared_object 2 (Some 5) (Some 7) sample_oid 0 None {})
     (shared_object 1 None (Some 7) second_oid 0 (Some 3) {})
     [5 \<mapsto> \<lparr>ref_refs = 1, type_id = Some ''Sample'', adaptor_obj = Some 3\<rparr>] (Some 4) 6 [] []) =
   Inr (Some shared_frame, None,
     shared_orb 5 both (shared_object 2 (Some 5) (Some 7) sample_oid 1 None {})
     (shared_object 1 None (Some 7) second_oid 0 (Some 3) {})
     [5 \<mapsto> \<lparr>ref_refs = 1, type_id = Some ''Sample'', adaptor_obj = Some 3\<rparr>] (Some 4) 6 [3]
     [Invoke 3 7 ''ping''])"
  by (simp add: run_defs shared_defs shared_frame_def ORBit_POAObject_handle_request_def
      find_servant_def enter_method_def find_method_def ORBit_POA_invocation_stack_push_def log_event_def)

definition shared_config :: config where
  "shared_config = \<lparr>running = [], owned = {#2, 1#},
     orb = shared_orb 4 both (shared_object 1 None (Some 7) sample_oid 0 None {})
     (shared_object 1 None (Some 7) second_oid 0 (Some 3) {}) (\<lambda>_. None) (Some 4) 5 [] []\<rparr>"

definition busy_config :: config where
  "busy_config = \<lparr>running = [shared_frame], owned = {#2, 1#},
     orb = shared_orb 5 both (shared_object 2 (Some 5) (Some 7) sample_oid 1 None {})
     (shared_object 1 None (Some 7) second_oid 0 (Some 3) {})
     [5 \<mapsto> \<lparr>ref_refs = 1, type_id = Some ''Sample'', adaptor_obj = Some 3\<rparr>] (Some 4) 6 [3]
     [Invoke 3 7 ''ping'']\<rparr>"

lemma shared_config_reachable:
  assumes h: "h = sample_hooks \<or> h = final_hooks"
  shows "reachable h shared_config"
proof -
  have "ORBit_POA_set_policies [Id_uniqueness_policy MULTIPLE_ID] = Inr multiple_policies"
    by (simp add: ORBit_POA_set_policies_def multiple_policies_def default_policies_def)
  note 1 = family_reachable [OF h this]
  have "provided h (Activate_object (Some 2) (Some 7))
      (family_orb (child_poa 2 0 [] multiple_policies) (\<lambda>_. None) (\<lambda>_. None) None 3 [] [])"
    by (simp add: new_key_def family_orb_def child_poa_def)
  note 2 = reachable.more [OF 1 step.call [OF this shared_first [OF h]]]
  have "provided h (Activate_object (Some 2) (Some 7))
     (family_orb (child_poa 3 1 [(sample_oid, 3)] multiple_policies)
     [3 \<mapsto> shared_object 1 None (Some 7) sample_oid 0 None {}] (\<lambda>_. None) (Some 3) 4 [] [])"
    using h by (auto simp: new_key_def family_orb_def child_poa_def sample_oid_def le32_def
        sample_hooks_def final_hooks_def)
  from reachable.more [OF 2 step.call [OF this shared_second [OF h]]]
  show ?thesis by (simp add: shared_config_def)
qed

lemma busy_config_reachable: "reachable final_hooks busy_config"
proof -
  have 0: "reachable final_hooks shared_config" by (rule shared_config_reachable) simp
  have "provided final_hooks (Id_to_reference (Some 2) (Some sample_oid)) s" for s by simp
  from reachable.more [OF 0 [unfolded shared_config_def] step.call [OF this shared_reference]]
  have 1: "reachable final_hooks \<lparr>running = [], owned = {#2, 1#},
     orb = shared_orb 4 both (shared_object 2 (Some 5) (Some 7) sample_oid 0 None {})
     (shared_object 1 None (Some 7) second_oid 0 (Some 3) {})
     [5 \<mapsto> \<lparr>ref_refs = 1, type_id = Some ''Sample'', adaptor_obj = Some 3\<rparr>] (Some 4) 6 [] []\<rparr>"
    by simp
  have "step final_hooks \<lparr>running = [], owned = {#2, 1#},
     orb = shared_orb 4 both (shared_object 2 (Some 5) (Some 7) sample_oid 0 None {})
     (shared_object 1 None (Some 7) second_oid 0 (Some 3) {})
     [5 \<mapsto> \<lparr>ref_refs = 1, type_id = Some ''Sample'', adaptor_obj = Some 3\<rparr>] (Some 4) 6 [] []\<rparr>
     \<lparr>running = started_frames (Some shared_frame) [], owned = {#2, 1#},
     orb = shared_orb 5 both (shared_object 2 (Some 5) (Some 7) sample_oid 1 None {})
     (shared_object 1 None (Some 7) second_oid 0 (Some 3) {})
     [5 \<mapsto> \<lparr>ref_refs = 1, type_id = Some ''Sample'', adaptor_obj = Some 3\<rparr>] (Some 4) 6 [3]
     [Invoke 3 7 ''ping'']\<rparr>"
    by (rule step.local [OF _ _ _ shared_call, where b = 5 and
        ref = "\<lparr>ref_refs = 1, type_id = Some ''Sample'', adaptor_obj = Some 3\<rparr>"]) (simp_all add: idle_room_def shared_orb_def family_orb_def)
  from reachable.more [OF 1 this] show ?thesis by (simp add: busy_config_def started_frames_def)
qed

end
