(* ===== verification/Poa_Errors.thy ===== *)
theory Poa_Errors
imports Poa_Map Poa_Answers Poa_Scenes
begin

text \<open>
  Paths of the adaptor that do not do what they are for: they block, end the
  process, or return a result that is of no use.
\<close>

section \<open>Held requests\<close>

lemma held_outcome:
  assumes s: "calm T P I L {} s"
  shows "ORBit_POA_handle_held_requests h r s =
    (if \<exists>p. poas s r = Some p \<and> held_requests p = [] then Inr s else Inl Fails)"
proof (cases "poas s r")
  case None
  then show ?thesis by (simp add: ORBit_POA_handle_held_requests_def deref_def)
next
  case (Some p)
  show ?thesis
  proof (cases "held_requests p")
    case Nil
    then have "p\<lparr>held_requests := []\<rparr> = p" by (cases p) simp
    then have "s\<lparr>poas := (poas s)(r \<mapsto> p\<lparr>held_requests := []\<rparr>)\<rparr> = s"
      using Some by (simp add: fun_upd_idem)
    then show ?thesis using Some Nil
      by (simp add: ORBit_POA_handle_held_requests_def deref_def heap_simps)
  next
    case (Cons b bs)
    then have "buffers s b = None" using s Some by (auto simp: calm_def dangling_def)
    then show ?thesis using Some Cons
      by (simp add: ORBit_POA_handle_held_requests_def handle_request_at_once_def
          ORBit_handle_request_def deref_def heap_simps)
  qed
qed

lemma held_collection:
  assumes s: "calm T P I L {} s"
  shows "activate_collection h rs s =
    (if \<forall>r \<in> set rs. \<exists>p. poas s r = Some p \<and> held_requests p = [] then Inr s else Inl Fails)"
proof -
  have stop: "foldl (\<lambda>st r. andThen st (ORBit_POA_handle_held_requests h r)) (Inl e) rs = Inl e" for e rs
    by (induction rs) simp_all
  have "foldl (\<lambda>st r. andThen st (ORBit_POA_handle_held_requests h r)) (Inr s) rs =
    (if \<forall>r \<in> set rs. \<exists>p. poas s r = Some p \<and> held_requests p = [] then Inr s else Inl Fails)"
    by (induction rs) (simp_all add: held_outcome [OF s] stop)
  then show ?thesis by (simp add: activate_collection_def)
qed

text \<open>
  C37. A request that was queued because the manager was holding ends the process when the
  manager is activated: its buffer was freed when it was queued.
\<close>

theorem held_requests_end_the_process:
  assumes "reachable h c" "managers (orb c) m = Some mgr" "mgr_state mgr \<noteq> INACTIVE"
    and "r \<in> set (poa_collection mgr)" "poas (orb c) r = Some p" "held_requests p \<noteq> []"
    and "Manager_lock \<notin> locked (orb c)"
  shows "PortableServer_POAManager_activate h (Some m) (orb c) = Inl Fails"
proof -
  obtain s1 where 1: "mutex_lock Manager_lock (orb c) = Inr s1"
    and s1: "managers s1 = managers (orb c)" "poas s1 = poas (orb c)"
    using assms(7) by (cases "thread_safe (orb c)") (simp_all add: mutex_lock_def)
  let ?s2 = "set_manager m (\<lambda>mgr. mgr\<lparr>mgr_state := ACTIVE\<rparr>) s1"
  have "calm (frames_refs (running c) + pushed_refs (pushed (orb c))) (owned c + frames_poas (running c))
      (current_invocations (orb c)) (pushed (orb c)) {} ?s2"
    using yieldsD [OF yields_mutex_lock [OF reachable_calm [OF assms(1)]] 1]
    by (rule calm_set_manager_live) simp
  note run = held_collection [OF this, of h "poa_collection mgr"]
  have "poas ?s2 = poas (orb c)" by (simp add: set_manager_def s1)
  then have "\<not> (\<forall>r \<in> set (poa_collection mgr). \<exists>p. poas ?s2 r = Some p \<and> held_requests p = [])"
    using assms(4-6) by (metis option.inject)
  then have "activate_collection h (poa_collection mgr) ?s2 = Inl Fails" using run by simp
  then show ?thesis
    using 1 assms(2,3) s1 by (simp add: PortableServer_POAManager_activate_def deref_def)
qed

theorem held_requests_end_the_process_witness:
  "reachable sample_hooks held_config \<and>
   PortableServer_POAManager_activate sample_hooks (Some 0) (orb held_config) = Inl Fails"
proof -
  have "PortableServer_POAManager_activate sample_hooks (Some 0) (orb held_config) = Inl Fails"
    by (rule held_requests_end_the_process [OF held_config_reachable,
          where mgr = "\<lparr>mgr_refs = 1, poa_collection = [1], mgr_state = HOLDING\<rparr>" and r = 1
            and p = "(sample_poa 3 1 [(sample_oid, 2)])\<lparr>held_requests := [4]\<rparr>"])
      (simp_all add: held_config_def held_orb_def sample_defs)
  then show ?thesis using held_config_reachable by blast
qed

section \<open>Servant managers\<close>

text \<open>
  A POA with a servant manager never gets a servant from it: setting the manager has
  displaced its vepv pointer, so the first request for an object without a servant
  ends the process, as it does when no manager was set.
\<close>

lemma servant_managers_fail:
  assumes "reachable h c" "pobjs (orb c) x = Some q" "po_servant q = None"
    and "poas (orb c) (po_poa q) = Some p" "request_processing p = USE_SERVANT_MANAGER"
  shows "find_servant h (po_poa q) x opname (orb c) = Inl Fails"
proof (cases "servant_manager p")
  case None
  then show ?thesis using assms
    by (cases "po_object_id q")
      (simp_all add: find_servant_def ORBit_POA_ServantManager_use_servant_def deref_def nonnull_def)
next
  case (Some sm)
  have "vepv_of sm (orb c) = Inl Fails"
    by (rule no_servant_manager [OF reachable_calm [OF assms(1)] assms(4) Some])
  then show ?thesis using assms Some
    by (cases "po_object_id q")
      (simp_all add: find_servant_def ORBit_POA_ServantManager_use_servant_def deref_def nonnull_def)
qed

lemma servant_managers_fail_witness:
  "find_servant sample_hooks 2 3 ''ping'' (orb managed_config) = Inl Fails"
proof -
  let ?q = "fresh_object 1 (Some 4) sample_oid" and ?p = "child_poa 3 1 [(sample_oid, 3)] managed_policies"
  have "pobjs (orb managed_config) 3 = Some ?q" "po_servant ?q = None"
    "poas (orb managed_config) (po_poa ?q) = Some ?p" "request_processing ?p = USE_SERVANT_MANAGER"
    by (simp_all add: managed_config_def family_orb_def fresh_object_def new_pobj_def child_poa_def
        request_processing_def managed_policies_def)
  from servant_managers_fail [OF managed_config_reachable this] show ?thesis
    by (simp add: fresh_object_def new_pobj_def)
qed

section \<open>Results of no use\<close>

text \<open>
  The servant of an active object cannot be found by its id: the operation returns
  normally, and returns NULL.
\<close>

lemma id_to_servant_loses_it:
  assumes "reachable h c" "active_map (orb c) r i = Some sv"
    and "poas (orb c) r = Some p" "IS_RETAIN p"
    and "PortableServer_POA_id_to_servant (Some r) (Some i) (orb c) = Inr (res, t)"
  shows "res = Inr None"
proof -
  let ?s = "orb c"
  obtain s1 where 1: "POA_LOCK r ?s = Inr s1"
    using assms(5) by (auto simp: PortableServer_POA_id_to_servant_def andThen_eq_Inr)
  obtain l where s1: "s1 = ?s\<lparr>locked := l\<rparr>" using POA_LOCK_locked [OF 1] by blast
  then have p: "poas s1 r = Some p" using assms(3) by simp
  obtain pobj s2 servant s3 s4 where 2: "ORBit_POA_object_id_lookup_T r i s1 = Inr (pobj, s2)"
    and 3: "(case pobj of None \<Rightarrow> Inr None
           | Some o' \<Rightarrow> andThen (deref (pobjs s2) o') (\<lambda>q. Inr (po_servant q))) = Inr servant"
    and res: "(if servant = None then raise_ex ex_POA_ObjectNotActive s4 else returns None s4) = Inr (res, t)"
    using assms(4,5) 1 p unfolding PortableServer_POA_id_to_servant_def
    by (simp add: andThen_eq_Inr split: prod.splits) blast
  have "active_map s1 r i = Some sv" using assms(2) s1 active_map_locked by simp
  then have "servant = Some sv"
    using lookup_result [OF 2 p calm_POA_LOCK [OF 1 reachable_calm [OF assms(1)]]] 3
    by (cases pobj) (auto simp: andThen_eq_Inr)
  then show ?thesis using res by (simp add: returns_def)
qed

lemma id_to_servant_loses_it_witness:
  "\<exists>t. PortableServer_POA_id_to_servant (Some 1) (Some sample_oid) (orb idle_config) = Inr (Inr None, t) \<and>
     active_map (orb idle_config) 1 sample_oid = Some 7"
proof -
  have a: "active_map (orb idle_config) 1 sample_oid = Some 7"
    "poas (orb idle_config) 1 = Some (sample_poa 3 1 [(sample_oid, 2)])"
    "IS_RETAIN (sample_poa 3 1 [(sample_oid, 2)])"
    by (simp_all add: active_map_def idle_config_def sample_defs IS_RETAIN_def)
  have "\<not> isl (PortableServer_POA_id_to_servant (Some 1) (Some sample_oid) (orb idle_config))"
    by (simp add: idle_config_def run_defs sample_defs PortableServer_POA_id_to_servant_def
        ORBit_POA_object_id_lookup_T_def)
  then obtain res t where r: "PortableServer_POA_id_to_servant (Some 1) (Some sample_oid) (orb idle_config) = Inr (res, t)"
    by (metis isl_def sum.exhaust_sel surj_pair)
  from id_to_servant_loses_it [OF idle_config_reachable a r] r a(1) show ?thesis by auto
qed

text \<open>
  A reference with a given id cannot be created for an id that is new, nor for one whose
  object has a reference: the operation does not return.
\<close>

lemma create_reference_with_id_does_not_return:
  assumes "reachable h c" "poas (orb c) r = Some p"
    and "\<And>x q. map_of (oid_to_obj_map p) i = Some x \<Longrightarrow> pobjs (orb c) x = Some q \<Longrightarrow> po_objref q \<noteq> None"
  shows "PortableServer_POA_create_reference_with_id h (Some r) (Some i) intf (orb c) \<noteq> Inr res"
proof
  assume run: "PortableServer_POA_create_reference_with_id h (Some r) (Some i) intf (orb c) = Inr res"
  let ?s = "orb c"
  obtain s1 where 1: "POA_LOCK r ?s = Inr s1"
    using run by (auto simp: PortableServer_POA_create_reference_with_id_def andThen_eq_Inr)
  obtain l where s1: "s1 = ?s\<lparr>locked := l\<rparr>" using POA_LOCK_locked [OF 1] by blast
  obtain pobj s2 newobj s3 b s4 where 2: "ORBit_POA_object_id_lookup_T r i s1 = Inr (pobj, s2)"
    and 3: "(case pobj of None \<Rightarrow> andThen (ORBit_POA_create_object_T h r (Some i) s2) (\<lambda>(n, s). Inr (Some n, s))
                | Some _ \<Rightarrow> Inr (None, s2)) = Inr (newobj, s3)"
    and 4: "ORBit_POA_obj_to_ref h r pobj intf s3 = Inr (b, s4)"
    using run 1 unfolding PortableServer_POA_create_reference_with_id_def
    by (simp add: andThen_eq_Inr split: prod.splits) blast
  obtain x where x: "pobj = Some x" using 4 by (auto simp: ORBit_POA_obj_to_ref_def andThen_eq_Inr)
  then have "map_of (oid_to_obj_map p) i = Some x" and d: "dup_pobj x s1 = Inr s2" and s3: "s3 = s2"
    using 2 3 assms(2) s1 by (auto simp: ORBit_POA_object_id_lookup_T_def andThen_eq_Inr split: option.splits)
  moreover from this(1) obtain q where q: "pobjs ?s x = Some q" using object_map_iff [OF assms(1,2)] by blast
  ultimately have "po_objref q \<noteq> None" using assms(3) by blast
  moreover have "\<exists>q'. pobjs s2 x = Some q' \<and> po_objref q' = po_objref q"
    using d q s1 by (auto simp: dup_pobj_def run_simps split: if_splits)
  ultimately show False using 4 x s3 by (auto simp: ORBit_POA_obj_to_ref_def andThen_eq_Inr)
qed

lemma create_reference_with_id_does_not_return_witness:
  "\<forall>res. PortableServer_POA_create_reference_with_id sample_hooks (Some 1) (Some sample_oid) None (orb idle_config) \<noteq> Inr res
   \<and> PortableServer_POA_create_reference_with_id sample_hooks (Some 1) (Some [1, 2, 3, 4, 5, 6, 7, 8]) None
       (orb idle_config) \<noteq> Inr res"
proof -
  have p: "poas (orb idle_config) 1 = Some (sample_poa 3 1 [(sample_oid, 2)])"
    by (simp add: idle_config_def sample_defs)
  have "PortableServer_POA_create_reference_with_id sample_hooks (Some 1) (Some i) None (orb idle_config) \<noteq> Inr res" for i res
    by (rule create_reference_with_id_does_not_return [OF idle_config_reachable p])
      (auto simp: idle_config_def sample_defs split: if_splits)
  then show ?thesis by blast
qed

text \<open>
  An id that was made from a string cannot be turned into a string again: the check for
  embedded zero bytes is inverted, so exactly the ids without one are refused.
\<close>

lemma object_id_string_refused:
  assumes "PortableServer_string_to_ObjectId str = Inr i"
  shows "PortableServer_ObjectId_to_string (Some i) = Inl ex_CORBA_BAD_PARAM"
proof -
  obtain cs where "str = Some cs" "i = takeWhile (\<lambda>c. c \<noteq> 0) cs"
    using assms by (auto simp: PortableServer_string_to_ObjectId_def split: option.splits)
  then have "0 \<notin> set i" using set_takeWhileD by fastforce
  then show ?thesis by (simp add: PortableServer_ObjectId_to_string_def)
qed

lemma object_id_string_refused_witness:
  "PortableServer_ObjectId_to_string (Some [97, 98]) = Inl ex_CORBA_BAD_PARAM"
  by (rule object_id_string_refused [of "Some [97, 98, 0]"])
    (simp add: PortableServer_string_to_ObjectId_def)

section \<open>Locks and waiting\<close>

text \<open>
  An operation refused with WrongPolicy leaves its POA locked: in a program with threads
  the next operation on the POA blocks for ever.
\<close>

lemma wrong_policy_blocks_poa:
  assumes "PortableServer_POA_deactivate_object h (Some r) (Some i) s = Inr (Inl ex_POA_WrongPolicy, t)"
    and "thread_safe s"
  shows "PortableServer_POA_deactivate_object h (Some r) (Some j) t = Inl Blocks"
proof -
  obtain s1 p where 1: "POA_LOCK r s = Inr s1" and p: "poas s1 r = Some p"
    using assms(1) by (auto simp: PortableServer_POA_deactivate_object_def andThen_eq_Inr)
  have "\<not> IS_RETAIN p"
    using assms(1) 1 p by (auto simp: PortableServer_POA_deactivate_object_def andThen_eq_Inr returns_def)
  then have "t = s1"
    using assms(1) 1 p by (simp add: PortableServer_POA_deactivate_object_def andThen_eq_Inr raise_ex_def)
  then have "POA_LOCK r t = Inl Blocks"
    using 1 p assms(2) by (auto simp: POA_LOCK_def andThen_eq_Inr mutex_lock_def deref_def split: if_splits)
  then show ?thesis by (simp add: PortableServer_POA_deactivate_object_def)
qed

definition default_policy_orb :: orb where
  "default_policy_orb = (orb idle_config)\<lparr>thread_safe := True, poas := [1 \<mapsto> (sample_poa 2 0 [])
     \<lparr>poa_policies := sample_policies\<lparr>p_servant_retention := NON_RETAIN\<rparr>\<rparr>]\<rparr>"

lemma wrong_policy_blocks_poa_witness:
  "\<exists>t. PortableServer_POA_deactivate_object sample_hooks (Some 1) (Some sample_oid) default_policy_orb =
      Inr (Inl ex_POA_WrongPolicy, t) \<and>
    PortableServer_POA_deactivate_object sample_hooks (Some 1) (Some sample_oid) t = Inl Blocks"
proof -
  have 1: "PortableServer_POA_deactivate_object sample_hooks (Some 1) (Some sample_oid) default_policy_orb =
      Inr (Inl ex_POA_WrongPolicy, default_policy_orb\<lparr>locked := {Poa_lock 1}\<rparr>)"
    by (simp add: default_policy_orb_def idle_config_def run_defs sample_defs PortableServer_POA_deactivate_object_def)
  have "thread_safe default_policy_orb" by (simp add: default_policy_orb_def)
  from wrong_policy_blocks_poa [OF 1 this] 1 show ?thesis by blast
qed

lemma idle_not_in_use:
  assumes "reachable h c" "running c = []" "poas (orb c) r = Some p" "poa_use_cnt p = 0"
  shows "in_use n r False (orb c) = Inr False"
proof -
  have "\<not> list_ex (\<lambda>(_, o'). case pobjs (orb c) o' of None \<Rightarrow> False | Some q \<Rightarrow> po_use_cnt q > 0)
      (oid_to_obj_map p)"
    using in_use_iff [OF assms(1)] assms(2) by (auto simp: list_ex_iff split: option.splits)
  then show ?thesis using assms(3,4) by (simp add: deref_def)
qed

text \<open>
  Deactivating a manager and waiting for completion is refused exactly when there is
  nothing to wait for: when no method runs it raises BAD_INV_ORDER and changes nothing.
\<close>

lemma waiting_deactivation_refused_when_idle:
  assumes "reachable h c" "running c = []" "\<not> thread_safe (orb c)"
    and "managers (orb c) m = Some mgr" "mgr_state mgr \<noteq> INACTIVE" "poa_collection mgr = r # rs"
    and "poas (orb c) r = Some p" "poa_use_cnt p = 0"
  shows "PortableServer_POAManager_deactivate h (Some m) eth True (orb c) =
    Inr (Some ex_CORBA_BAD_INV_ORDER, orb c)"
proof -
  have "ORBit_POA_is_inuse r False (orb c) = Inr False"
    using idle_not_in_use [OF assms(1,2,7,8)] assms(3,7)
    by (simp add: ORBit_POA_is_inuse_def ORBit_POA_is_inuse_T_def POA_LOCK_def mutex_lock_def deref_def)
  then show ?thesis using assms(3-6)
    by (simp add: PortableServer_POAManager_deactivate_def mutex_lock_def mutex_unlock_def deref_def)
qed

lemma waiting_deactivation_refused_when_idle_witness:
  "PortableServer_POAManager_deactivate sample_hooks (Some 0) False True (orb idle_config) =
    Inr (Some ex_CORBA_BAD_INV_ORDER, orb idle_config)"
  by (rule waiting_deactivation_refused_when_idle [OF idle_config_reachable,
      where mgr = "\<lparr>mgr_refs = 1, poa_collection = [1], mgr_state = ACTIVE\<rparr>" and r = 1 and rs = "[]"
        and p = "sample_poa 3 1 [(sample_oid, 2)]"])
    (simp_all add: idle_config_def sample_defs)

section \<open>Chains and finalizers\<close>

text \<open>
  C32. The loop that looks for the predecessor of an object in the chain of its servant ends
  because it finds it, whenever the object is not the head of the chain: the end of the list,
  for which the loop tests too, is not reached, and the assertion behind the loop holds.
\<close>

theorem chain_search_ends:
  assumes "reachable h c" "servants (orb c) sv = Some v" "pobjs (orb c) x = Some q"
    and "po_servant q = Some sv" "sv_private v \<noteq> Some x"
  shows "\<exists>a qa. chain_search (orb c) x (sv_private v) = Inr a \<and> pobjs (orb c) a = Some qa \<and>
    po_servant qa = Some sv \<and> po_next qa = Some x"
proof -
  obtain xs where xs: "chain (pobjs (orb c)) (sv_private v) xs" "distinct xs" "set xs = incarnated (orb c) sv"
    using servant_chain [OF assms(1,2)] by blast
  have "x \<in> set xs" using assms(3,4) xs(3) by (auto simp: incarnated_def)
  then obtain ys zs where split: "xs = ys @ x # zs" by (meson split_list)
  have "ys \<noteq> []" using xs(1) assms(5) by (auto simp: split)
  then obtain ws a where ys: "ys = ws @ [a]" by (metis rev_exhaust)
  have found: "chain_before (orb c) x (sv_private v) = Some (Inr a)"
    by (rule chain_before_found [where ys = ws and zs = zs]) (use xs(1,2) in \<open>simp_all add: split ys\<close>)
  have "a \<in> incarnated (orb c) sv" using xs(3) by (auto simp: split ys)
  then obtain qa where qa: "pobjs (orb c) a = Some qa" "po_servant qa = Some sv" by (auto simp: incarnated_def)
  have "chain (pobjs (orb c)) l (ws @ a # x # zs) \<Longrightarrow> \<exists>q. pobjs (orb c) a = Some q \<and> po_next q = Some x" for l
    by (induction ws arbitrary: l) auto
  then have "po_next qa = Some x" using xs(1) qa by (auto simp: split ys)
  then show ?thesis using found qa by (simp add: chain_search_def)
qed

theorem chain_search_ends_witness:
  "\<exists>a qa. chain_search (orb shared_config) 3 (Some 4) = Inr a \<and> pobjs (orb shared_config) a = Some qa \<and>
     po_next qa = Some 3"
proof -
  have 0: "reachable sample_hooks shared_config" by (rule shared_config_reachable) simp
  let ?v = "\<lparr>sv_private = Some 4, sv_class = 0, vepv_shift = 0\<rparr>"
    and ?q = "shared_object 1 None (Some 7) sample_oid 0 None {}"
  have "servants (orb shared_config) 7 = Some ?v" "pobjs (orb shared_config) 3 = Some ?q"
    "po_servant ?q = Some 7" "sv_private ?v \<noteq> Some 3"
    by (simp_all add: shared_config_def shared_orb_def family_orb_def shared_object_def)
  from chain_search_ends [OF 0 this] show ?thesis by auto
qed

text \<open>
  The finalize function of a servant may be called while a method runs on it: in a
  reachable configuration one servant incarnates two objects, a method runs on the
  first, and deactivating the second calls finalize.
\<close>

lemma finalized_while_running:
  "\<exists>h c f q t. reachable h c \<and> f \<in> set (running c) \<and> pobjs (orb c) (fr_pobj f) = Some q \<and>
     po_servant q = Some 7 \<and>
     PortableServer_POA_deactivate_object h (Some 2) (Some second_oid) (orb c) = Inr (Inr (), t) \<and>
     Finalize 7 \<in> set (events t) \<and> Finalize 7 \<notin> set (events (orb c))"
proof -
  let ?q = "shared_object 2 (Some 5) (Some 7) sample_oid 1 None {}"
  let ?t = "family_orb (child_poa 4 2 [(sample_oid, 3)] multiple_policies)
     [3 \<mapsto> ?q] [5 \<mapsto> \<lparr>ref_refs = 1, type_id = Some ''Sample'', adaptor_obj = Some 3\<rparr>] (Some 3) 6 [3]
     [Invoke 3 7 ''ping'', Finalize 7]"
  have "PortableServer_POA_deactivate_object final_hooks (Some 2) (Some second_oid) (orb busy_config) = Inr (Inr (), ?t)"
    by (simp add: run_defs shared_defs busy_config_def PortableServer_POA_deactivate_object_def le32_def
        ORBit_POA_object_id_lookup_T_def ORBit_POAObject_is_active_def ORBit_POA_deactivate_object_T_def
        unlink_servant_def etherealize_object_def call_etherealize_def call_finalize_def log_event_def
        ORBit_POAObject_release_cb_def)
  moreover have "shared_frame \<in> set (running busy_config)" "pobjs (orb busy_config) (fr_pobj shared_frame) = Some ?q"
    "po_servant ?q = Some 7" "Finalize 7 \<notin> set (events (orb busy_config))" "Finalize 7 \<in> set (events ?t)"
    by (simp_all add: busy_config_def shared_frame_def shared_orb_def family_orb_def shared_object_def)
  ultimately show ?thesis using busy_config_reachable by blast
qed

end
