(* ===== verification/Poa_Family.thy ===== *)
theory Poa_Family
imports Poa_Scenes
begin

text \<open>
  The tree of POAs, and the first request on a POA with a default servant.
\<close>

section \<open>Parents and children\<close>

lemma register_poas: "ORBit_POAManager_register_poa m r s = Inr t \<Longrightarrow> poas t = poas s"
  by (auto simp: ORBit_POAManager_register_poa_def andThen_eq_Inr mutex_lock_def mutex_unlock_def
      set_manager_def split: if_splits)

lemma dup_manager_poas: "dup_manager m s = Inr t \<Longrightarrow> poas t = poas s"
  by (auto simp: dup_manager_def andThen_eq_Inr set_manager_def)

lemma POA_new_result:
  assumes "ORBit_POA_new h name manager ps s = Inr (Inr n, t)"
  shows "\<exists>p. poas t = (poas s)(n \<mapsto> p) \<and> poa_name p = name \<and> next_ref s \<le> n"
proof -
  obtain pol where "ORBit_POA_set_policies ps = Inr pol"
    using assms by (auto simp: ORBit_POA_new_def split: sum.splits)
  then show ?thesis
    using assms
    by (cases manager)
      (auto simp: ORBit_POA_new_def ORBit_POAManager_new_def ORBit_adaptor_setup_def Let_def andThen_eq_Inr
        dest!: register_poas dup_manager_poas)
qed

text \<open>
  C34. A POA that has been created is found under its name in its parent, and names that POA
  as its parent.
\<close>

theorem created_POA_found:
  assumes "reachable h c"
    and "PortableServer_POA_create_POA h (Some r) (Some name) manager (Some ps) (orb c) = Inr (Inr n, t)"
  shows "PortableServer_POA_find_POA (Some r) (Some name) act t = andThen (dup_poa n t) (returns n) \<and>
    PortableServer_POA__get_the_parent (Some n) t = andThen (dup_poa r t) (returns (Some r)) \<and>
    PortableServer_POA__get_the_name (Some n) t = returns name t"
proof -
  let ?s = "orb c"
  obtain p0 made u where r: "poas ?s r = Some p0"
    and made: "ORBit_POA_new h name manager ps ?s = Inr (made, u)"
    and rest: "(case made of Inl ev \<Rightarrow> andThen (ORBit_POA_add_child r None u) (raise_ex ev)
         | Inr n \<Rightarrow> andThen (ORBit_POA_add_child r (Some n) u) (returns n)) = Inr (Inr n, t)"
    using assms(2)
    by (auto simp: PortableServer_POA_create_POA_def andThen_eq_Inr raise_ex_def split: if_splits)
  then have new: "ORBit_POA_new h name manager ps ?s = Inr (Inr n, u)"
    and add: "ORBit_POA_add_child r (Some n) u = Inr t"
    by (cases made; auto simp: andThen_eq_Inr raise_ex_def returns_def)+
  obtain p where u: "poas u = (poas ?s)(n \<mapsto> p)" and p: "poa_name p = name" and n: "next_ref ?s \<le> n"
    using POA_new_result [OF new] by blast
  have "fresh_above ?s" using reachable_parts(1) [OF assms(1)] by (simp add: sound_def)
  then have "r \<noteq> n" using r n by (auto simp: fresh_above_def)
  then have "\<exists>p0'. poas t n = Some (p\<lparr>parent_poa := Some r\<rparr>) \<and> poas t r = Some p0' \<and>
      child_poas p0' = AList.update name n (child_poas p0)"
    using add r u p by (auto simp: ORBit_POA_add_child_def andThen_eq_Inr dup_poa_def heap_simps Let_def
        split: if_splits)
  then show ?thesis
    using p by (auto simp: PortableServer_POA_find_POA_def PortableServer_POA__get_the_parent_def
        PortableServer_POA__get_the_name_def deref_def update_conv)
qed

theorem created_POA_found_witness:
  "\<exists>t. PortableServer_POA_find_POA (Some 1) (Some ''child'') False t = andThen (dup_poa 2 t) (returns 2) \<and>
     PortableServer_POA_create_POA sample_hooks (Some 1) (Some ''child'') (Some 0) (Some [])
       (root_orb ACTIVE [7 \<mapsto> \<lparr>sv_private = None, sv_class = 0, vepv_shift = 0\<rparr>]) = Inr (Inr 2, t)"
proof -
  let ?s = "root_orb ACTIVE [7 \<mapsto> \<lparr>sv_private = None, sv_class = 0, vepv_shift = 0\<rparr>]"
  have "\<exists>t. PortableServer_POA_create_POA sample_hooks (Some 1) (Some ''child'') (Some 0) (Some []) ?s = Inr (Inr 2, t)"
    by (simp add: run_defs family_defs PortableServer_POA_create_POA_def ORBit_POA_set_policies_def default_policies_def
      ORBit_POA_new_def ORBit_adaptor_setup_def ORBit_POAManager_register_poa_def ORBit_POA_add_child_def)
  then obtain t where "PortableServer_POA_create_POA sample_hooks (Some 1) (Some ''child'') (Some 0) (Some []) ?s = Inr (Inr 2, t)"
    by blast
  moreover have "reachable sample_hooks \<lparr>running = [], owned = {#1#}, orb = ?s\<rparr>"
    by (rule servant_ready) simp
  ultimately show ?thesis
    using created_POA_found [of sample_hooks "\<lparr>running = [], owned = {#1#}, orb = ?s\<rparr>"] by (metis config.select_convs(3))
qed

section \<open>A default servant\<close>

definition any_policies :: policies where
  "any_policies = default_policies\<lparr>p_id_uniqueness := MULTIPLE_ID, p_servant_retention := NON_RETAIN,
     p_request_processing := USE_DEFAULT_SERVANT\<rparr>"

definition any_request :: request where
  "any_request = \<lparr>req_objkey = Some (le32 1 @ replicate 16 0 @ second_oid), req_opname = ''ping'', req_connection = 0\<rparr>"

lemma any_adaptor_id: "key_adaptor_id (le32 1 @ replicate 16 0 @ second_oid) = 1"
  by (simp add: key_adaptor_id_def le32_def)

lemma default_set:
  "perform sample_hooks (Set_servant (Some 2) (Some 7))
     (family_orb (child_poa 2 0 [] any_policies) (\<lambda>_. None) (\<lambda>_. None) None 3 [] []) =
   Inr ({#}, family_orb ((child_poa 2 0 [] any_policies)\<lparr>default_servant := Some 7\<rparr>) (\<lambda>_. None) (\<lambda>_. None) None 3 [] [])"
  by (simp add: run_defs family_defs PortableServer_POA_set_servant_def)

definition default_called :: orb where
  "default_called = (family_orb ((child_poa 5 0 [(second_oid, 4)] any_policies)\<lparr>default_servant := Some 7\<rparr>)
     [4 \<mapsto> shared_object 1 None (Some 7) second_oid 1 None {}] (\<lambda>_. None) (Some 4) 5 [4]
     [Invoke 4 7 ''ping''])\<lparr>buffers := [3 \<mapsto> any_request]\<rparr>"

definition default_frame :: frame where
  "default_frame = \<lparr>fr_pobj = 4, fr_poa = 2, fr_buffer = Some 3, fr_opname = ''ping'', fr_cookie = None,
     fr_oid = Some second_oid, fr_invoked = True, fr_adaptor = Some 2\<rparr>"

lemma default_request:
  "ORBit_handle_request sample_hooks 3 (arrived any_request
     (family_orb ((child_poa 2 0 [] any_policies)\<lparr>default_servant := Some 7\<rparr>) (\<lambda>_. None) (\<lambda>_. None) None 3 [] [])) =
   Inr (Some default_frame, default_called)"
  by (simp add: run_defs shared_defs any_request_def any_policies_def arrived_def default_called_def default_frame_def
      ORBit_handle_request_def ORBit_adaptor_find_def any_adaptor_id [unfolded second_oid_def] ORBit_POA_handle_request_def
      ORBit_POA_object_key_lookup_T_def ORBit_POA_object_id_lookup_T_def dispatch_request_def
      ORBit_POA_create_object_T_def new_object_id_def new_pobj_def
      ORBit_POAObject_invoke_incoming_request_def ORBit_POAObject_handle_request_def clean_out_def
      find_servant_def enter_method_def find_method_def ORBit_POA_invocation_stack_push_def log_event_def
      ORBit_POA_activate_object_T_def link_servant_def)

lemma default_return: "return_from_method sample_hooks default_frame default_called = Inl Fails"
  by (simp add: run_defs shared_defs default_called_def default_frame_def any_policies_def
      return_from_method_def handle_request_end_def give_back_servant_def end_invocation_def clean_out_def
      ORBit_POA_invocation_stack_pop_def ORBit_POAObject_post_invoke_def ORBit_POA_deactivate_object_T_def
      unlink_servant_def ORBit_POAObject_release_cb_def incoming_done_def)

text \<open>
  The first request for an id on a POA with a default servant runs the method and then
  ends the process: the object made for it has no reference of its own, and is released
  once more than it is held.
\<close>

lemma default_servant_request_ends_the_process:
  "\<exists>h c req f t. reachable h c \<and>
     ORBit_handle_request h (next_ref (orb c)) (arrived req (orb c)) = Inr (Some f, t) \<and>
     Invoke (fr_pobj f) 7 (req_opname req) \<in> set (events t) \<and>
     return_from_method h f t = Inl Fails"
proof -
  let ?s = "family_orb (child_poa 2 0 [] any_policies) (\<lambda>_. None) (\<lambda>_. None) None 3 [] []"
  let ?t = "family_orb ((child_poa 2 0 [] any_policies)\<lparr>default_servant := Some 7\<rparr>) (\<lambda>_. None) (\<lambda>_. None) None 3 [] []"
  have "ORBit_POA_set_policies [Id_uniqueness_policy MULTIPLE_ID, Servant_retention_policy NON_RETAIN,
      Request_processing_policy USE_DEFAULT_SERVANT] = Inr any_policies"
    by (simp add: ORBit_POA_set_policies_def any_policies_def default_policies_def)
  note 1 = family_reachable [OF disjI1 [OF refl] this]
  have "provided sample_hooks (Set_servant (Some 2) (Some 7)) ?s" by simp
  from reachable.more [OF 1 step.call [OF this default_set]]
  have "reachable sample_hooks \<lparr>running = [], owned = {#2, 1#}, orb = ?t\<rparr>" by simp
  moreover have "next_ref ?t = 3" by (simp add: family_orb_def)
  moreover have "Invoke (fr_pobj default_frame) 7 (req_opname any_request) \<in> set (events default_called)"
    by (simp add: default_frame_def any_request_def default_called_def family_orb_def)
  ultimately show ?thesis using default_request default_return by (metis config.select_convs(3))
qed

end
