(* ===== verification/Poa_Promises.thy ===== *)
theory Poa_Promises
imports Poa_Facts
begin

text \<open>
  What the adaptor promises in every configuration the steps reach.
\<close>

section \<open>Consistency\<close>

text \<open>
  C18. While a method runs on an object, however the object was deactivated or destroyed
  meanwhile, it keeps its servant and stays on the chain of this servant (so that the adaptor
  still counts the servant as incarnating it), and its use count is the number of methods
  that run on it. The servant itself is memory of the application.
\<close>

theorem running_objects_active:
  assumes "reachable h c" "f \<in> set (running c)"
  shows "\<exists>q sv v xs. pobjs (orb c) (fr_pobj f) = Some q \<and> po_servant q = Some sv \<and>
    servants (orb c) sv = Some v \<and> chain (pobjs (orb c)) (sv_private v) xs \<and> fr_pobj f \<in> set xs \<and>
    po_use_cnt q = of_nat (count_list (map fr_pobj (running c)) (fr_pobj f))"
  using assms by (rule running_object)

theorem running_objects_active_witness:
  "reachable sample_hooks running_config \<and> sample_frame \<in> set (running running_config) \<and>
   (\<exists>q sv v xs. pobjs (orb running_config) 2 = Some q \<and> po_servant q = Some sv \<and>
      servants (orb running_config) sv = Some v \<and> chain (pobjs (orb running_config)) (sv_private v) xs \<and> 2 \<in> set xs \<and>
      po_use_cnt q = 1)"
proof -
  have f: "sample_frame \<in> set (running running_config)" "fr_pobj sample_frame = 2"
    "count_list (map fr_pobj (running running_config)) 2 = 1"
    by (simp_all add: running_config_def sample_frame_def)
  from running_objects_active [OF running_config_reachable f(1)] f running_config_reachable show ?thesis
    by simp
qed

text \<open>
  C9. In the configurations the steps reach, the reference count of an object is the number of
  those who hold it: its servant, its reference, and the requests from the wire that run or
  wait on it. The steps take a request only when it does not make an object for a default
  servant or a servant manager (\<open>answerable\<close>), and do not destroy a POA or deactivate a manager.
\<close>

theorem references_exact:
  assumes "reachable h c" "pobjs (orb c) x = Some q"
  shows "po_refs q = of_bool (po_servant q \<noteq> None) + of_bool (po_objref q \<noteq> None) +
    count (frames_refs (running c) + pushed_refs (pushed (orb c))) x"
  using assms by (rule reference_count)

theorem references_exact_witness:
  "pobjs (orb running_config) 2 = Some (sample_object 2 (Some 3) (Some 7) {} 1) \<and>
   po_refs (sample_object 2 (Some 3) (Some 7) {} 1) = of_bool True + of_bool True + count {#} (2 :: nat)"
proof -
  have q: "pobjs (orb running_config) 2 = Some (sample_object 2 (Some 3) (Some 7) {} 1)"
    by (simp add: running_config_def sample_defs)
  from references_exact [OF running_config_reachable q] q show ?thesis
    by (simp add: running_config_def sample_defs sample_frame_def frame_refs_def)
qed

text \<open>
  C21. In the configurations the steps reach the object map of a POA has an entry for an id exactly when an object of the POA has
  this id: no entry is stale and no object is lost.
\<close>

theorem object_map_exact:
  assumes "reachable h c" "poas (orb c) r = Some p"
  shows "map_of (oid_to_obj_map p) oid = Some x \<longleftrightarrow>
    (\<exists>q. pobjs (orb c) x = Some q \<and> po_poa q = r \<and> po_object_id q = Some oid)"
  using assms by (rule object_map_iff)

theorem object_map_exact_witness:
  "\<exists>p. poas (orb running_config) 1 = Some p \<and> map_of (oid_to_obj_map p) sample_oid = Some 2"
proof -
  have p: "poas (orb running_config) 1 = Some (sample_poa 4 1 [(sample_oid, 2)])"
    by (simp add: running_config_def sample_defs)
  have "\<exists>q. pobjs (orb running_config) 2 = Some q \<and> po_poa q = 1 \<and> po_object_id q = Some sample_oid"
    by (simp add: running_config_def sample_defs)
  then show ?thesis using object_map_exact [OF running_config_reachable p] p by blast
qed

text \<open>
  C22. In the configurations the steps reach the chain that starts at a servant goes through exactly the objects it incarnates, each
  once, and ends.
\<close>

theorem servant_chain_exact:
  assumes "reachable h c" "servants (orb c) sv = Some v"
  shows "\<exists>xs. chain (pobjs (orb c)) (sv_private v) xs \<and> distinct xs \<and> set xs = incarnated (orb c) sv"
  using assms by (rule servant_chain)

theorem servant_chain_exact_witness:
  "\<exists>v xs. servants (orb running_config) 7 = Some v \<and> chain (pobjs (orb running_config)) (sv_private v) xs \<and>
     set xs = incarnated (orb running_config) 7"
proof -
  have "servants (orb running_config) 7 = Some \<lparr>sv_private = Some 2, sv_class = 0, vepv_shift = 0\<rparr>"
    by (simp add: running_config_def sample_defs)
  then show ?thesis using servant_chain_exact [OF running_config_reachable] by blast
qed

end
