(* ===== verification/Spec2Isabelle.thy ===== *)
theory Spec2Isabelle
  imports Giop_Roundtrip Giop_Fragments Cdr_Equality Call_Errors Ior_Forward Ior_Url Link_Wire Poa_Errors Poa_Family Poa_Promises
begin

text \<open>
  ORBit2, a CORBA object request broker in C. This development models the path of a call from
  the caller to the servant and back: the ORB core that turns typed values and references into
  bytes (\<open>src/orb/orb-core\<close>), the GIOP layer that turns them into messages and back
  (\<open>src/orb/GIOP\<close>), the connection that sends the bytes (\<open>linc2/src/linc-connection.c\<close>), and the
  portable object adaptor that finds the object and runs its servant (\<open>src/orb/poa\<close>).

  A call goes like this. The stub (\<open>ORBit_small_invoke_stub\<close>, \<open>Call_Stub\<close>) takes a send buffer for a
  request (\<open>Giop_Send\<close>), marshals the arguments by their type codes (\<open>Cdr_Value\<close>; references by
  \<open>Ior_Marshal\<close>) and writes the buffer to a connection (\<open>Link_Write\<close>), to which the profiles of the
  reference lead (\<open>Ior_Objects\<close>). The receiving machine (\<open>Giop_Input\<close>) collects the bytes of the
  socket into a message, demarshals its header (\<open>Giop_Demarshal\<close>), joins fragments, and hands a
  request to the adaptor (\<open>Poa_Requests\<close>), a reply to the entry of the queue that waits for it. The
  adaptor goes from the object key to the POA, the object and the servant; the skeleton
  (\<open>ORBit_small_invoke_adaptor\<close>, \<open>Call_Skeleton\<close>) demarshals the arguments, calls the method and marshals
  what it leaves into the reply.

  \<^bold>\<open>Theories and sources\<close>

  \<^item> \<open>Prelude\<close>: words, byte order and alignment macros (\<open>orbit-util.h\<close>), comparison of pointers, and
    generic lemmas; the collection \<open>byte_simps\<close>.
  \<^item> \<open>Giop_Types\<close> (\<open>giop-basics.h\<close>, \<open>giop-recv-buffer.h\<close>, \<open>GIOP.idl\<close>): headers, messages and the receive
    buffer, whose pointers are 64-bit words into the bytes of one allocation.
  \<^item> \<open>Giop_Demarshal\<close>, \<open>Giop_Input\<close> (\<open>giop-recv-buffer.c\<close>): the header demarshallers and their dispatch;
    the input loop, fragments, and the queue of requests that wait for a reply.
  \<^item> \<open>Giop_Send\<close> (\<open>giop-send-buffer.c\<close>): the send buffer with its vectors, chunks and blocks of indirect
    memory, its pool, and the constructors of all messages.
  \<^item> \<open>Cdr_Types\<close>, \<open>Cdr_Code\<close> (\<open>corba-typecode.c\<close>): type codes as trees, alignment and size of the C memory
    they describe, accessors, equality, and the encoder and decoder with encapsulations and
    indirections.
  \<^item> \<open>Cdr_Value\<close>, \<open>Cdr_Layout\<close> (\<open>corba-any.c\<close>): values, and how they are marshalled, demarshalled and
    laid out in memory.
  \<^item> \<open>Call_Types\<close>, \<open>Call_Stub\<close>, \<open>Call_Skeleton\<close> (\<open>orbit-interface.idl\<close>, \<open>orbit-small.c\<close>, \<open>corba-env.c\<close>,
    \<open>corba-context.c\<close>, \<open>allocators.c\<close>): the data of an interface, and both sides of a call.
  \<^item> \<open>Ior_Types\<close>, \<open>Ior_Local\<close>, \<open>Ior_Marshal\<close>, \<open>Ior_Demarshal\<close> (\<open>iop-profiles.c\<close>), \<open>Ior_Objects\<close>
    (\<open>corba-object.c\<close>), \<open>Ior_Corbaloc\<close> (\<open>corba-loc.c\<close>): profiles and components of references, on the wire
    and as URLs, the table of the references of an ORB, and their connections with forwarding.
  \<^item> \<open>Link_Write\<close> (\<open>linc-connection.c\<close>, \<open>giop_send_buffer_write\<close>): the write queue of a connection, its
    flushing, and the conditions of the socket.
  \<^item> \<open>Poa_Types\<close>, \<open>Poa_Objects\<close>, \<open>Poa_Adaptors\<close>, \<open>Poa_Requests\<close>, \<open>Poa_Interface\<close> (\<open>poa.c\<close>, \<open>poa-manager.c\<close>,
    \<open>orbit-adaptor.c\<close>, \<open>orbit-object.c\<close>): the heap of POAs, objects, managers and references as maps from
    addresses; activation, deactivation and release of objects; POAs and managers; requests; and
    the operations of \<open>PortableServer::POA\<close> and \<open>Current\<close>.

  Names are those of the C functions. A failure is a value: \<open>recv_error\<close> (an error return of a
  demarshaller, or a read outside its memory), \<open>tc_dec_error\<close>, the exceptions of CORBA, and
  \<open>stop\<close> in the adaptor (\<open>Fails\<close> for a failed assertion or a use of null or freed memory, \<open>Blocks\<close>
  for waiting for a mutex that is held, \<open>Loops\<close> for a loop that does not end or has no fuel left). \<open>None\<close> as the result of a whole function means that
  the process ends or that the function does not return, as the text at its definition says.

  \<^bold>\<open>What is shown\<close>

  \<^item> Receiving. \<open>Giop_Safe\<close>: demarshallers stay inside the allocation whatever the bytes (C13).
    \<open>Giop_View\<close>: what a receive buffer still holds at its cursor. \<open>Giop_Machine\<close>: the loop against a
    reference that takes a byte at a time, so that the cuts between reads do not matter (C11).
    \<open>Giop_Fragments\<close>: reassembly (C29).
  \<^item> Sending. \<open>Giop_Stream\<close>: a send buffer means the bytes of its vectors. \<open>Giop_Layout\<close>,
    \<open>Giop_Messages\<close>: layout of each message, which its demarshaller inverts. \<open>Giop_Roundtrip\<close>: from the
    constructor to the receiver (C6, C26).
  \<^item> Values. \<open>Cdr_Encoding\<close>: the CDR encoding as a relation \<open>cdr\<close>, apart from the code; the marshaller
    writes it (C19), the demarshaller (\<open>Cdr_Decoding\<close>) reads it (C20) and reads nothing else
    (\<open>Cdr_Soundness\<close>, C23). \<open>Cdr_Typing\<close>: typed values. \<open>Cdr_Calls\<close>: a typed reply (C12). \<open>Cdr_Layout\<close>:
    memory against the layout rules of the C compiler (C31). \<open>Cdr_Equality\<close>: equal types are
    interchangeable (C30).
  \<^item> Calls. \<open>Call_Transfer\<close>, \<open>Call_Roundtrip\<close>: what one side marshals the other demarshals.
    \<open>Call_Remote\<close>: two peers on a byte stream (C7). \<open>Call_Errors\<close>: forwarding (C17, C33), and what
    malformed messages do (C35).
  \<^item> References. \<open>Ior_Layout\<close>, \<open>Ior_Patch\<close> (lengths that are filled in behind), \<open>Ior_Writing\<close>,
    \<open>Ior_Reading\<close>, \<open>Ior_Received\<close>, \<open>Ior_Reference\<close>, \<open>Ior_Identity\<close>: encoding of references and the table.
    \<open>Ior_Wire\<close>: references that travel (C8, C15, C39). \<open>Ior_Url\<close>: corbaloc URLs (C27, C40).
    \<open>Ior_Forward\<close>: connections after a forward (C38).
  \<^item> Connections. \<open>Link_Order\<close>, \<open>Link_Wire\<close>: order and completeness of what is written (C1 to C5).
  \<^item> The adaptor. \<open>Poa_Invariant\<close> states one invariant (\<open>calm\<close>) of counts, maps, chains, invocations
    and buffers; \<open>Poa_Preserve\<close>, \<open>Poa_Calls\<close>, \<open>Poa_Operations\<close>, \<open>Poa_Served\<close>, \<open>Poa_Trees\<close> carry it through
    every operation; \<open>Poa_Steps\<close> has the step relation, in which operations, messages, methods and
    their returns interleave, and the reachable configurations. \<open>Poa_Facts\<close>, \<open>Poa_Promises\<close> (C9, C18,
    C21, C22), \<open>Poa_Map\<close> (refinement of the active object map, C10, C14), \<open>Poa_Deferral\<close> (C16, C28),
    \<open>Poa_Answers\<close> (C24, C25, C36), \<open>Poa_Family\<close> (C34), \<open>Poa_Errors\<close> (C32, C37) draw from it;
    \<open>Poa_Sample\<close> and \<open>Poa_Scenes\<close> are concrete runs.

  The interface of the two hash tables of object ids, which the code keeps with different hash and
  equality functions, is the locale \<open>table_keys\<close> of \<open>Poa_Types\<close>, interpreted on both.

  \<^bold>\<open>Bounds and arguments of the model\<close>

  \<^item> The host is little-endian LP64. Integers are words of their width; the signed lengths of the
    code (\<open>check_length\<close>, \<open>read_body\<close>) refuse or crash from \<open>2 ^ 31\<close> on, which is why sizes below
    \<open>2 ^ 31\<close> are a hypothesis. The sizes \<open>ORBit_gather_alloc_info\<close> adds up in \<open>int\<close>s are natural numbers.
  \<^item> Demarshalling takes a bound of the nesting depth; a depth of \<open>vdepth val\<close> is enough for \<open>val\<close> (C20).
    The traversals of the tree of POAs take \<open>next_ref\<close> or the number of adaptors as fuel: each POA
    is met once and has a smaller number than \<open>next_ref\<close>. Loops that may not end are
    \<open>partial_function\<close>s: the walk along the chain of a servant (C32 shows that it ends) and the
    forward loop of a call (C33 shows that it need not).
  \<^item> The socket is a list of answers to system calls, and \<open>turns\<close> and \<open>wait_connected\<close> are what the main
    loop does while a blocking write waits. \<open>IOV_MAX\<close> is 1024. The command that sets the conditions
    to poll for takes effect at once.
  \<^item> \<open>room\<close> says that the random part of a POA key has its length and that fewer than \<open>2 ^ 31\<close> POAs
    were made; \<open>new_key\<close> that an id the adaptor makes up is not in use; \<open>idle_room\<close> that fewer than
    \<open>2 ^ 16\<close> methods run at once (the use count of an object has 16 bits). \<open>answerable\<close> leaves out the requests that make an object for a default
    servant or a servant manager, whose count of references is wrong in the code (\<open>Poa_Family\<close>).
  \<^item> \<open>hooks\<close> are the functions of the application that the adaptor calls; servants are its memory.
    \<open>transport\<close> and the network of a call are arguments: whether a connection is begun, and what a
    request brings back. \<open>GHashTable\<close>s are ordered lists of pairs.

  \<^bold>\<open>What is not modelled\<close>

  Making sockets, addresses, TLS, polling and the main loop (input and output only); references
  over HTTP; asynchronous calls; the dynamic any and the DII; object references inside values of
  \<open>Cdr_Value\<close> (they are modelled as references of their own), \<open>fixed\<close>, and copy and release of values;
  adapter activators, which the code only stores; what the decoder of type codes makes of a type
  code it has half built (\<open>TcHalfBuilt\<close>). The destruction of POAs and the deactivation of managers are
  modelled but are not steps of \<open>Poa_Steps\<close>. The IDL compiler and the interface modules work on the
  tree of libIDL, which is not in the repository; the name service is an application above the ORB.
\<close>

end
